(* ===== verification/GB_Prelude.thy ===== *)
theory GB_Prelude
  imports Main "HOL-Library.Char_ord" "HOL-Library.List_Lexorder" "HOL-Library.Word"
begin

text \<open>
  What every component of the development shares: exceptional computations over a state,
  the part of the C++ standard library that the sources use (strings, decimal printing,
  ordered maps), and two contracts stated as locales: an ordered dictionary and an
  encoder with its decoder.
\<close>

named_theorems sx_defs "unfolding rules of the state-with-exception combinators"
named_theorems str_simps "rewrite rules of the string primitives"

section \<open>Computations that change a state and may throw\<close>

text \<open>
  A C++ member function that mutates its object and may throw is a function from the state
  to an outcome and the state it leaves behind. The state is kept when the computation
  throws: an assignment made before a \<^verbatim>\<open>throw\<close> is not undone.
\<close>

type_synonym ('s, 'e, 'a) sx = "'s \<Rightarrow> ('e + 'a) \<times> 's"

definition sx_return :: "'a \<Rightarrow> ('s, 'e, 'a) sx" where
  "sx_return a = (\<lambda>s. (Inr a, s))"

definition sx_throw :: "'e \<Rightarrow> ('s, 'e, 'a) sx" where
  "sx_throw e = (\<lambda>s. (Inl e, s))"

definition sx_get :: "('s \<Rightarrow> 'a) \<Rightarrow> ('s, 'e, 'a) sx" where
  "sx_get f = (\<lambda>s. (Inr (f s), s))"

definition sx_modify :: "('s \<Rightarrow> 's) \<Rightarrow> ('s, 'e, unit) sx" where
  "sx_modify f = (\<lambda>s. (Inr (), f s))"

definition sx_bind :: "('s, 'e, 'a) sx \<Rightarrow> ('a \<Rightarrow> ('s, 'e, 'b) sx) \<Rightarrow> ('s, 'e, 'b) sx" where
  "sx_bind m f = (\<lambda>s. case m s of (Inl e, s') \<Rightarrow> (Inl e, s') | (Inr a, s') \<Rightarrow> f a s')"

definition sx_then :: "('s, 'e, 'a) sx \<Rightarrow> ('s, 'e, 'b) sx \<Rightarrow> ('s, 'e, 'b) sx" where
  "sx_then m n = sx_bind m (\<lambda>_. n)"

definition sx_catch :: "('s, 'e, 'a) sx \<Rightarrow> ('e \<Rightarrow> ('s, 'e, 'a) sx) \<Rightarrow> ('s, 'e, 'a) sx" where
  "sx_catch m h = (\<lambda>s. case m s of (Inl e, s') \<Rightarrow> h e s' | (Inr a, s') \<Rightarrow> (Inr a, s'))"

definition sx_when :: "bool \<Rightarrow> ('s, 'e, unit) sx \<Rightarrow> ('s, 'e, unit) sx" where
  "sx_when b m = (if b then m else sx_return ())"

definition sx_lift :: "'e + 'a \<Rightarrow> ('s, 'e, 'a) sx" where
  "sx_lift r = (\<lambda>s. (r, s))"

primrec sx_mapM :: "('a \<Rightarrow> ('s, 'e, unit) sx) \<Rightarrow> 'a list \<Rightarrow> ('s, 'e, unit) sx" where
  "sx_mapM f [] = sx_return ()"
| "sx_mapM f (x # xs) = sx_then (f x) (sx_mapM f xs)"

declare sx_return_def [sx_defs] sx_throw_def [sx_defs] sx_get_def [sx_defs]
  sx_modify_def [sx_defs] sx_bind_def [sx_defs] sx_then_def [sx_defs] sx_catch_def [sx_defs]
  sx_when_def [sx_defs] sx_lift_def [sx_defs]

text \<open>The same, without a state: sequencing of results of type \<open>'e + 'a\<close>.\<close>

definition res_bind :: "'e + 'a \<Rightarrow> ('a \<Rightarrow> 'e + 'b) \<Rightarrow> 'e + 'b" where
  "res_bind r f = (case r of Inl e \<Rightarrow> Inl e | Inr a \<Rightarrow> f a)"

lemma res_bind_simps [simp]:
  "res_bind (Inl e) f = Inl e"
  "res_bind (Inr a) f = f a"
  by (simp_all add: res_bind_def)

lemma res_bind_Inr_iff: "res_bind r f = Inr b \<longleftrightarrow> (\<exists>a. r = Inr a \<and> f a = Inr b)"
  by (cases r) simp_all

lemma res_bind_Inl_iff: "res_bind r f = Inl e \<longleftrightarrow> r = Inl e \<or> (\<exists>a. r = Inr a \<and> f a = Inl e)"
  by (cases r) simp_all

lemma res_bind_cong [fundef_cong]:
  "r = r' \<Longrightarrow> (\<And>a. r' = Inr a \<Longrightarrow> f a = f' a) \<Longrightarrow> res_bind r f = res_bind r' f'"
  by (cases r') simp_all

lemma sx_bind_assoc: "sx_bind (sx_bind m f) g = sx_bind m (\<lambda>x. sx_bind (f x) g)"
  by (rule ext) (simp add: sx_bind_def split: prod.splits sum.splits)

section \<open>Strings\<close>

text \<open>
  \<^verbatim>\<open>std::string\<close> is a list of bytes. The searching members return \<^verbatim>\<open>npos\<close> when there is no
  match; here they return \<^term>\<open>None\<close>. \<^verbatim>\<open>substr\<close> is used by the sources only at positions
  inside the string, where it is \<^term>\<open>drop\<close> and \<^term>\<open>take\<close>.
\<close>

fun str_find_if :: "(char \<Rightarrow> bool) \<Rightarrow> string \<Rightarrow> nat option" where
  "str_find_if P [] = None"
| "str_find_if P (c # cs) = (if P c then Some 0 else map_option Suc (str_find_if P cs))"

definition str_find_if_from :: "(char \<Rightarrow> bool) \<Rightarrow> nat \<Rightarrow> string \<Rightarrow> nat option" where
  "str_find_if_from P pos s = map_option (\<lambda>i. pos + i) (str_find_if P (drop pos s))"

fun str_rfind_if :: "(char \<Rightarrow> bool) \<Rightarrow> string \<Rightarrow> nat option" where
  "str_rfind_if P [] = None"
| "str_rfind_if P (c # cs) =
     (case str_rfind_if P cs of Some i \<Rightarrow> Some (Suc i) | None \<Rightarrow> if P c then Some 0 else None)"

fun str_find :: "string \<Rightarrow> string \<Rightarrow> nat option" where
  "str_find pat [] = (if pat = [] then Some 0 else None)"
| "str_find pat (c # cs) =
     (if take (length pat) (c # cs) = pat then Some 0 else map_option Suc (str_find pat cs))"

definition c_str :: "string \<Rightarrow> string" where
  "c_str s = takeWhile (\<lambda>c. c \<noteq> CHR 0x00) s"

definition is_upper :: "char \<Rightarrow> bool" where
  "is_upper c \<longleftrightarrow> 65 \<le> (of_char c :: nat) \<and> (of_char c :: nat) \<le> 90"

definition is_lower :: "char \<Rightarrow> bool" where
  "is_lower c \<longleftrightarrow> 97 \<le> (of_char c :: nat) \<and> (of_char c :: nat) \<le> 122"

definition is_digit :: "char \<Rightarrow> bool" where
  "is_digit c \<longleftrightarrow> 48 \<le> (of_char c :: nat) \<and> (of_char c :: nat) \<le> 57"

definition char_tolower :: "char \<Rightarrow> char" where
  "char_tolower c = (if is_upper c then char_of ((of_char c :: nat) + 32) else c)"

definition char_toupper :: "char \<Rightarrow> char" where
  "char_toupper c = (if is_lower c then char_of ((of_char c :: nat) - 32) else c)"

definition str_tolower :: "string \<Rightarrow> string" where
  "str_tolower s = map char_tolower s"

definition str_toupper :: "string \<Rightarrow> string" where
  "str_toupper s = map char_toupper s"

text \<open>\<^verbatim>\<open>boost::split\<close> at one separator character: always at least one part.\<close>

fun str_split :: "char \<Rightarrow> string \<Rightarrow> string list" where
  "str_split sep [] = [[]]"
| "str_split sep (c # cs) =
     (if c = sep then [] # str_split sep cs
      else (case str_split sep cs of [] \<Rightarrow> [[c]] | p # ps \<Rightarrow> (c # p) # ps))"

lemma str_find_if_None [str_simps]: "str_find_if P s = None \<longleftrightarrow> (\<forall>c \<in> set s. \<not> P c)"
  by (induction s) auto

lemma str_find_if_append [str_simps]:
  "\<forall>c \<in> set s. \<not> P c \<Longrightarrow> str_find_if P (s @ t) = map_option (\<lambda>i. length s + i) (str_find_if P t)"
  by (induction s; cases "str_find_if P t") auto

lemma str_find_if_Some:
  "str_find_if P s = Some i \<Longrightarrow> i < length s \<and> P (s ! i) \<and> (\<forall>c \<in> set (take i s). \<not> P c)"
proof (induction s arbitrary: i)
  case Nil
  then show ?case by simp
next
  case (Cons c cs)
  then show ?case by (cases i) (auto split: if_splits)
qed

lemma str_rfind_if_None [str_simps]: "str_rfind_if P s = None \<longleftrightarrow> (\<forall>c \<in> set s. \<not> P c)"
  by (induction s) (auto split: option.splits)

lemma str_rfind_if_snoc [str_simps]:
  "\<forall>c \<in> set t. \<not> P c \<Longrightarrow> P x \<Longrightarrow> str_rfind_if P (s @ x # t) = Some (length s)"
proof (induction s)
  case Nil
  then have "str_rfind_if P t = None" by (simp add: str_rfind_if_None)
  with Nil show ?case by simp
next
  case (Cons c cs)
  then show ?case by simp
qed

lemma str_find_head: "str_find pat (pat @ s) = Some 0"
proof (cases "pat @ s")
  case (Cons c cs)
  have "take (length pat) (c # cs) = pat" by (simp flip: Cons)
  then show ?thesis by (simp add: Cons)
qed simp

lemma is_upper_tolower [simp]: "\<not> is_upper (char_tolower c)"
proof (cases "is_upper c")
  case True
  then have "(of_char c :: nat) + 32 < 256" by (simp add: is_upper_def)
  then have "(of_char (char_tolower c) :: nat) = of_char c + 32"
    using True by (simp add: char_tolower_def)
  with True show ?thesis by (simp add: is_upper_def)
qed (simp add: char_tolower_def)

lemma char_tolower_idem [simp]: "char_tolower (char_tolower c) = char_tolower c"
  by (simp add: char_tolower_def [of "char_tolower c"])

lemma str_tolower_idem [simp]: "str_tolower (str_tolower s) = str_tolower s"
  by (simp add: str_tolower_def)

lemma str_split_not_Nil [simp]: "str_split sep s \<noteq> []"
  by (cases s) (auto split: list.splits)

lemma str_split_no_sep [simp]: "sep \<notin> set s \<Longrightarrow> str_split sep s = [s]"
  by (induction s) auto

lemma str_split_append:
  "str_split sep (s @ sep # t) = str_split sep s @ str_split sep t"
  by (induction s) (auto split: list.splits)

lemma str_split_parts: "p \<in> set (str_split sep s) \<Longrightarrow> sep \<notin> set p"
  by (induction s arbitrary: p) (auto split: list.splits if_splits)

lemma str_split_chars: "p \<in> set (str_split sep s) \<Longrightarrow> c \<in> set p \<Longrightarrow> c \<in> set s"
proof (induction s arbitrary: p)
  case Nil
  then show ?case by simp
next
  case (Cons d s)
  obtain q qs where q: "str_split sep s = q # qs" by (cases "str_split sep s") auto
  show ?case
  proof (cases "d = sep")
    case True
    with Cons show ?thesis by auto
  next
    case False
    with Cons.prems q Cons.IH show ?thesis by (fastforce split: if_splits)
  qed
qed

section \<open>Decimal numbers\<close>

text \<open>
  Printing an integer with \<^verbatim>\<open>operator<<\<close> or \<^verbatim>\<open>boost::lexical_cast\<close>, and reading one with
  \<^verbatim>\<open>atoi\<close>: optional white space, an optional sign, then digits up to the first other character.
\<close>

definition digit_char :: "nat \<Rightarrow> char" where
  "digit_char d = char_of (48 + d)"

definition digit_val :: "char \<Rightarrow> nat" where
  "digit_val c = of_char c - 48"

fun nat_dec :: "nat \<Rightarrow> string" where
  "nat_dec n = (if n < 10 then [digit_char n] else nat_dec (n div 10) @ [digit_char (n mod 10)])"

declare nat_dec.simps [simp del]

definition int_dec :: "int \<Rightarrow> string" where
  "int_dec i = (if i < 0 then CHR ''-'' # nat_dec (nat (- i)) else nat_dec (nat i))"

definition dec_val :: "string \<Rightarrow> nat" where
  "dec_val ds = foldl (\<lambda>n d. 10 * n + digit_val d) 0 ds"

definition is_space :: "char \<Rightarrow> bool" where
  "is_space c \<longleftrightarrow> (let n = (of_char c :: nat) in n = 32 \<or> (9 \<le> n \<and> n \<le> 13))"

definition atoi :: "string \<Rightarrow> int" where
  "atoi s = (case dropWhile is_space s of
       [] \<Rightarrow> 0
     | c # cs \<Rightarrow>
         (if c = CHR ''-'' then - int (dec_val (takeWhile is_digit cs))
          else if c = CHR ''+'' then int (dec_val (takeWhile is_digit cs))
          else int (dec_val (takeWhile is_digit (c # cs)))))"

text \<open>\<^verbatim>\<open>boost::lexical_cast<int>\<close>: the whole string must be a number.\<close>

definition lexical_cast_int :: "string \<Rightarrow> int option" where
  "lexical_cast_int s = (case s of
       [] \<Rightarrow> None
     | c # cs \<Rightarrow>
         (if c = CHR ''-'' then (if cs \<noteq> [] \<and> list_all is_digit cs then Some (- int (dec_val cs)) else None)
          else if c = CHR ''+'' then (if cs \<noteq> [] \<and> list_all is_digit cs then Some (int (dec_val cs)) else None)
          else if list_all is_digit s then Some (int (dec_val s)) else None))"

lemma of_char_digit_char [simp]: "d < 10 \<Longrightarrow> (of_char (digit_char d) :: nat) = 48 + d"
  by (simp add: digit_char_def)

lemma is_digit_digit_char [simp]: "d < 10 \<Longrightarrow> is_digit (digit_char d)"
  by (simp add: is_digit_def)

lemma digit_val_digit_char [simp]: "d < 10 \<Longrightarrow> digit_val (digit_char d) = d"
  by (simp add: digit_val_def)

lemma dec_val_snoc [simp]: "dec_val (ds @ [d]) = 10 * dec_val ds + digit_val d"
  by (simp add: dec_val_def)

lemma dec_val_nat_dec [simp]: "dec_val (nat_dec n) = n"
proof (induction n rule: nat_dec.induct)
  case (1 n)
  show ?case
  proof (cases "n < 10")
    case True
    then show ?thesis by (simp add: nat_dec.simps [of n] dec_val_def)
  next
    case False
    with 1 show ?thesis by (simp add: nat_dec.simps [of n])
  qed
qed

lemma nat_dec_digits: "list_all is_digit (nat_dec n)"
proof (induction n rule: nat_dec.induct)
  case (1 n)
  then show ?case by (cases "n < 10") (simp_all add: nat_dec.simps [of n])
qed

lemma nat_dec_not_Nil [simp]: "nat_dec n \<noteq> []"
  by (simp add: nat_dec.simps [of n])

lemma is_digit_not_space: "is_digit c \<Longrightarrow> \<not> is_space c"
  by (auto simp: is_digit_def is_space_def Let_def)

lemma is_digit_not_sign: "is_digit c \<Longrightarrow> c \<noteq> CHR ''-'' \<and> c \<noteq> CHR ''+''"
  by (auto simp: is_digit_def)

lemma nat_dec_Cons: obtains c cs where "nat_dec n = c # cs" "is_digit c"
  using nat_dec_digits [of n] by (cases "nat_dec n") auto

lemma takeWhile_digits_nat_dec [simp]: "takeWhile is_digit (nat_dec n) = nat_dec n"
  using nat_dec_digits [of n] by (simp add: takeWhile_eq_all_conv list_all_iff)

lemma atoi_int_dec [simp]: "atoi (int_dec i) = i"
proof (cases "i < 0")
  case True
  then show ?thesis by (simp add: atoi_def int_dec_def is_space_def)
next
  case False
  obtain c cs where c: "nat_dec (nat i) = c # cs" "is_digit c" by (rule nat_dec_Cons)
  have t: "takeWhile is_digit (c # cs) = nat_dec (nat i)"
    using takeWhile_digits_nat_dec [of "nat i"] c(1) by simp
  have "dropWhile is_space (nat_dec (nat i)) = c # cs"
    using c is_digit_not_space by simp
  then have "atoi (nat_dec (nat i)) = int (dec_val (takeWhile is_digit (c # cs)))"
    using is_digit_not_sign [OF c(2)] by (simp only: atoi_def list.case if_False)
  with False t show ?thesis by (simp add: int_dec_def)
qed

lemma lexical_cast_int_dec [simp]: "lexical_cast_int (int_dec i) = Some i"
proof (cases "i < 0")
  case True
  then show ?thesis by (simp add: lexical_cast_int_def int_dec_def nat_dec_digits)
next
  case False
  obtain c cs where c: "nat_dec (nat i) = c # cs" "is_digit c" by (rule nat_dec_Cons)
  have "list_all is_digit (c # cs)" using nat_dec_digits [of "nat i"] c(1) by simp
  then have "lexical_cast_int (c # cs) = Some (int (dec_val (c # cs)))"
    using is_digit_not_sign [OF c(2)] by (simp add: lexical_cast_int_def)
  with False c(1) show ?thesis
    using dec_val_nat_dec [of "nat i"] by (simp add: int_dec_def)
qed

lemma int_dec_chars: "c \<in> set (int_dec i) \<Longrightarrow> is_digit c \<or> c = CHR ''-''"
  using nat_dec_digits by (auto simp: int_dec_def list_all_iff split: if_splits)

section \<open>Contracts\<close>

text \<open>An encoder and the decoder that inverts it on the values that are valid.\<close>

locale codec =
  fixes enc :: "'a \<Rightarrow> 'b"
    and dec :: "'b \<Rightarrow> 'a option"
    and valid :: "'a \<Rightarrow> bool"
  assumes dec_enc: "valid x \<Longrightarrow> dec (enc x) = Some x"
begin

lemma enc_eq_iff: "valid x \<Longrightarrow> valid y \<Longrightarrow> enc x = enc y \<longleftrightarrow> x = y"
  using dec_enc by (metis option.inject)

lemma inj_on_enc: "inj_on enc {x. valid x}"
  by (auto simp: inj_on_def enc_eq_iff)

lemma map_dec_enc: "list_all valid xs \<Longrightarrow> map (\<lambda>x. dec (enc x)) xs = map Some xs"
  by (induction xs) (auto simp: dec_enc)

end

text \<open>
  An ordered dictionary: what a lookup returns after every operation, and that two
  well-formed dictionaries with the same lookups are the same value.
\<close>

locale ordered_dict =
  fixes emp :: "'m"
    and find :: "'m \<Rightarrow> 'k \<Rightarrow> 'v option"
    and put :: "'k \<Rightarrow> 'v \<Rightarrow> 'm \<Rightarrow> 'm"
    and erase :: "'k \<Rightarrow> 'm \<Rightarrow> 'm"
    and entries :: "'m \<Rightarrow> ('k \<times> 'v) list"
    and wf :: "'m \<Rightarrow> bool"
  assumes find_emp: "find emp k = None"
    and find_put: "wf m \<Longrightarrow> find (put k v m) k' = (if k' = k then Some v else find m k')"
    and find_erase: "wf m \<Longrightarrow> find (erase k m) k' = (if k' = k then None else find m k')"
    and wf_emp: "wf emp"
    and wf_put: "wf m \<Longrightarrow> wf (put k v m)"
    and wf_erase: "wf m \<Longrightarrow> wf (erase k m)"
    and find_ext: "wf m \<Longrightarrow> wf m' \<Longrightarrow> (\<And>k. find m k = find m' k) \<Longrightarrow> m = m'"
    and map_of_entries: "wf m \<Longrightarrow> map_of (entries m) k = find m k"
    and distinct_entries: "wf m \<Longrightarrow> distinct (map fst (entries m))"
begin

lemma put_idem: "wf m \<Longrightarrow> find m k = Some v \<Longrightarrow> put k v m = m"
  by (rule find_ext) (auto simp: wf_put find_put)

lemma put_put: "wf m \<Longrightarrow> put k v (put k w m) = put k v m"
  by (rule find_ext) (auto simp: wf_put find_put)

lemma put_commute: "wf m \<Longrightarrow> k \<noteq> k' \<Longrightarrow> put k v (put k' w m) = put k' w (put k v m)"
  by (rule find_ext) (auto simp: wf_put find_put)

lemma erase_put: "wf m \<Longrightarrow> find m k = None \<Longrightarrow> erase k (put k v m) = m"
  by (rule find_ext) (auto simp: wf_put wf_erase find_put find_erase)

lemma erase_absent: "wf m \<Longrightarrow> find m k = None \<Longrightarrow> erase k m = m"
  by (rule find_ext) (auto simp: wf_erase find_erase)

lemma wf_fold_put: "wf m \<Longrightarrow> wf (fold (\<lambda>(k, v). put k v) kvs m)"
  by (induction kvs arbitrary: m) (auto simp: wf_put)

lemma find_fold_put:
  assumes "wf m" and "distinct (map fst kvs)"
  shows "find (fold (\<lambda>(k, v). put k v) kvs m) k =
    (case map_of kvs k of Some v \<Rightarrow> Some v | None \<Rightarrow> find m k)"
  using assms
proof (induction kvs arbitrary: m)
  case Nil
  then show ?case by simp
next
  case (Cons kv kvs)
  obtain a b where kv: "kv = (a, b)" by (cases kv)
  with Cons.prems have "map_of kvs a = None" by (auto simp: map_of_eq_None_iff)
  with Cons kv show ?case by (auto simp: wf_put find_put split: option.splits)
qed

text \<open>Reading a dictionary entry by entry and putting each entry into an empty one copies it.\<close>

lemma rebuild: "wf m \<Longrightarrow> fold (\<lambda>(k, v). put k v) (entries m) emp = m"
  by (rule find_ext)
    (auto simp: wf_emp wf_fold_put find_fold_put distinct_entries map_of_entries find_emp
      split: option.splits)

end

section \<open>Ordered maps\<close>

text \<open>
  \<^verbatim>\<open>std::map\<close> is a list of entries with strictly increasing keys; iteration visits them in
  that order. \<open>smap_put\<close> is \<^verbatim>\<open>m[k] = v\<close>, \<open>smap_insert\<close> is \<^verbatim>\<open>insert\<close>, which keeps an entry that is
  there, \<open>smap_find\<close> is \<^verbatim>\<open>find\<close>.
\<close>

type_synonym ('k, 'v) smap = "('k \<times> 'v) list"

definition smap_wf :: "('k::linorder, 'v) smap \<Rightarrow> bool" where
  "smap_wf m \<longleftrightarrow> sorted_wrt (<) (map fst m)"

definition smap_find :: "('k, 'v) smap \<Rightarrow> 'k \<Rightarrow> 'v option" where
  "smap_find m k = map_of m k"

fun smap_put :: "'k::linorder \<Rightarrow> 'v \<Rightarrow> ('k, 'v) smap \<Rightarrow> ('k, 'v) smap" where
  "smap_put k v [] = [(k, v)]"
| "smap_put k v ((a, b) # m) =
     (if k < a then (k, v) # (a, b) # m
      else if k = a then (a, v) # m
      else (a, b) # smap_put k v m)"

fun smap_erase :: "'k \<Rightarrow> ('k, 'v) smap \<Rightarrow> ('k, 'v) smap" where
  "smap_erase k [] = []"
| "smap_erase k ((a, b) # m) = (if k = a then m else (a, b) # smap_erase k m)"

definition smap_insert :: "'k::linorder \<Rightarrow> 'v \<Rightarrow> ('k, 'v) smap \<Rightarrow> ('k, 'v) smap" where
  "smap_insert k v m = (if smap_find m k = None then smap_put k v m else m)"

lemma smap_wf_simps [simp]:
  "smap_wf []"
  "smap_wf ((a, b) # m) \<longleftrightarrow> (\<forall>(k, v) \<in> set m. a < k) \<and> smap_wf m"
  by (auto simp: smap_wf_def)

lemma set_smap_put: "set (smap_put k v m) \<subseteq> insert (k, v) (set m)"
  by (induction k v m rule: smap_put.induct) auto

lemma fst_set_smap_put: "(a, b) \<in> set (smap_put k v m) \<Longrightarrow> a = k \<or> (a, b) \<in> set m"
  using set_smap_put by fastforce

lemma set_smap_erase: "set (smap_erase k m) \<subseteq> set m"
  by (induction k m rule: smap_erase.induct) auto

lemma smap_find_put: "smap_find (smap_put k v m) k' = (if k' = k then Some v else smap_find m k')"
  unfolding smap_find_def by (induction k v m rule: smap_put.induct) auto

lemma smap_wf_not_below: "smap_wf ((a, b) # m) \<Longrightarrow> map_of m a = None"
  by (auto simp: map_of_eq_None_iff)

lemma smap_find_erase:
  "smap_wf m \<Longrightarrow> smap_find (smap_erase k m) k' = (if k' = k then None else smap_find m k')"
proof (induction k m rule: smap_erase.induct)
  case (2 k a b m)
  then show ?case using smap_wf_not_below [of a b m] by (auto simp: smap_find_def)
qed (simp add: smap_find_def)

lemma smap_wf_put: "smap_wf m \<Longrightarrow> smap_wf (smap_put k v m)"
  by (induction k v m rule: smap_put.induct) (force dest: fst_set_smap_put)+

lemma smap_wf_erase: "smap_wf m \<Longrightarrow> smap_wf (smap_erase k m)"
  by (induction k m rule: smap_erase.induct) (use set_smap_erase in fastforce)+

lemma smap_find_below: "smap_wf ((a, b) # m) \<Longrightarrow> k < a \<Longrightarrow> smap_find ((a, b) # m) k = None"
  by (fastforce simp: smap_find_def map_of_eq_None_iff)

lemma smap_find_tail: "smap_wf ((a, b) # m) \<Longrightarrow> smap_find m a = None"
  by (simp add: smap_find_def smap_wf_not_below)

lemma smap_wf_ext:
  assumes "smap_wf m" and "smap_wf m'" and "\<And>k. smap_find m k = smap_find m' k"
  shows "m = m'"
  using assms
proof (induction m arbitrary: m')
  case Nil
  show ?case
  proof (cases m')
    case (Cons y n)
    with Nil.prems(3) [of "fst y"] show ?thesis by (simp add: smap_find_def)
  qed simp
next
  case (Cons x m)
  obtain a b where x: "x = (a, b)" by (cases x)
  have find_a: "smap_find m' a = Some b" using Cons.prems(3) [of a] x by (simp add: smap_find_def)
  then obtain c d n where m': "m' = (c, d) # n" by (cases m') (auto simp: smap_find_def)
  have "\<not> a < c" using find_a Cons.prems(2) smap_find_below m' by fastforce
  moreover have "\<not> c < a"
    using smap_find_below [of a b m c] Cons.prems(1,3) x m' by (auto simp: smap_find_def)
  ultimately have ac: "a = c" by simp
  have bd: "b = d" using find_a m' ac by (simp add: smap_find_def)
  have "smap_find m k = smap_find n k" for k
  proof (cases "k = a")
    case True
    then show ?thesis
      using smap_find_tail [of a b m] smap_find_tail [of c d n] Cons.prems(1,2) x m' ac by simp
  next
    case False
    then show ?thesis using Cons.prems(3) [of k] x m' ac by (simp add: smap_find_def)
  qed
  with Cons.IH [of n] Cons.prems(1,2) x m' ac bd show ?case by simp
qed

interpretation smap: ordered_dict "[]" smap_find smap_put smap_erase "\<lambda>m. m" smap_wf
proof unfold_locales
  show "distinct (map fst m)" if "smap_wf m" for m :: "('a, 'b) smap"
    using that strict_sorted_iff by (auto simp: smap_wf_def)
qed (auto simp: smap_find_put smap_find_erase smap_wf_put smap_wf_erase intro: smap_wf_ext,
    simp_all add: smap_find_def)

lemma smap_insert_present: "smap_find m k = Some v \<Longrightarrow> smap_insert k w m = m"
  by (simp add: smap_insert_def)

lemma smap_wf_insert: "smap_wf m \<Longrightarrow> smap_wf (smap_insert k v m)"
  by (simp add: smap_insert_def smap_wf_put)

end
