(* ===== verification/GB_Errors.thy ===== *)
theory GB_Errors
  imports GB_Prelude
begin

text \<open>
  The exceptions of the system: the HTTP-style hierarchy of \<^verbatim>\<open>core/Errors.h\<close> and
  \<^verbatim>\<open>core/Errors.cc\<close>, and the other exception classes the components throw. An exception is a
  value; its class decides which handler of \<^verbatim>\<open>run_job\<close> catches it. \<open>NullDereference\<close> is no class: it marks
  the runs in which the code follows a null pointer and C++ gives no result.
\<close>

section \<open>Bounded copies\<close>

text \<open>\<^verbatim>\<open>strlcpy\<close>: the bytes that end up in the destination buffer of the given size.\<close>

definition strlcpy :: "string \<Rightarrow> nat \<Rightarrow> string" where
  "strlcpy src siz =
     (let ret = length (c_str src) in
      if siz = 0 then [] else take (if siz - 1 > ret then ret else siz - 1) (c_str src))"

section \<open>Exception classes\<close>

datatype gb_exn =
    GbError (err_code: int) (err_name: string) (err_what: string)
  | JsonError (err_what: string)
  | UriError (err_what: string)
  | SociError (err_what: string)
  | WorkerStop
  | StdError (err_what: string)
  | NullDereference

text \<open>\<^verbatim>\<open>Error::Error(msg, code, name)\<close>: the text kept in the 512 byte buffer.\<close>

definition error_what :: "string \<Rightarrow> int \<Rightarrow> string \<Rightarrow> string" where
  "error_what msg code name =
     (let err = (if str_find name msg \<noteq> Some 0 then name @ '' ['' @ int_dec code @ '']: '' else [])
                @ (if msg \<noteq> [] then msg else ''Unknown Error'')
      in strlcpy err 512)"

definition mk_error :: "string \<Rightarrow> int \<Rightarrow> string \<Rightarrow> gb_exn" where
  "mk_error msg code name = GbError code name (error_what msg code name)"

text \<open>The classes declared with \<^verbatim>\<open>DEFINE_ERROR\<close>.\<close>

definition error_table :: "(int \<times> string) list" where
  "error_table =
    [(300, ''MULTIPLE_CHOICES''), (301, ''MOVED_PERMANENTLY''), (302, ''MOVED_TEMPORARILY''),
     (303, ''SEE_OTHER''), (304, ''NOT_MODIFIED''), (305, ''USE_PROXY''),
     (307, ''TEMPORARY_REDIRECT''), (400, ''BAD_REQUEST''), (401, ''UNAUTHORIZED''),
     (402, ''PAYMENT_REQUIRED''), (403, ''FORBIDDEN''), (404, ''NOT_FOUND''),
     (405, ''METHOD_NOT_ALLOWED''), (406, ''NOT_ACCEPTABLE''),
     (407, ''PROXY_AUTHENTICATION_REQUIRED''), (408, ''REQUEST_TIME_OUT''), (409, ''CONFLICT''),
     (410, ''GONE''), (411, ''LENGTH_REQUIRED''), (412, ''PRECONDITION_FAILED''),
     (413, ''REQUEST_ENTITY_TOO_LARGE''), (414, ''REQUEST_URI_TOO_LARGE''),
     (415, ''UNSUPPORTED_MEDIA_TYPE''), (416, ''RANGE_NOT_SATISFIABLE''),
     (417, ''EXPECTATION_FAILED''), (422, ''UNPROCESSABLE_ENTITY''), (423, ''LOCKED''),
     (424, ''FAILED_DEPENDENCY''), (426, ''UPGRADE_REQUIRED''), (500, ''INTERNAL_SERVER_ERROR''),
     (501, ''NOT_IMPLEMENTED''), (502, ''BAD_GATEWAY''), (503, ''SERVICE_UNAVAILABLE''),
     (504, ''GATEWAY_TIME_OUT''), (505, ''VERSION_NOT_SUPPORTED''), (506, ''VARIANT_ALSO_VARIES''),
     (507, ''INSUFFICIENT_STORAGE''), (510, ''NOT_EXTENDED'')]"

definition ERR_INTERNAL_SERVER_ERROR :: "string \<Rightarrow> gb_exn" where
  "ERR_INTERNAL_SERVER_ERROR msg = mk_error msg 500 ''INTERNAL_SERVER_ERROR''"

definition ERR_NOT_FOUND :: "string \<Rightarrow> gb_exn" where
  "ERR_NOT_FOUND msg = mk_error msg 404 ''NOT_FOUND''"

definition ERR_BAD_REQUEST :: "string \<Rightarrow> gb_exn" where
  "ERR_BAD_REQUEST msg = mk_error msg 400 ''BAD_REQUEST''"

definition ERR_CONFLICT :: "string \<Rightarrow> gb_exn" where
  "ERR_CONFLICT msg = mk_error msg 409 ''CONFLICT''"

definition ERR_GONE :: "string \<Rightarrow> gb_exn" where
  "ERR_GONE msg = mk_error msg 410 ''GONE''"

definition ERR_PRECONDITION_FAILED :: "string \<Rightarrow> gb_exn" where
  "ERR_PRECONDITION_FAILED msg = mk_error msg 412 ''PRECONDITION_FAILED''"

definition ERR_NOT_IMPLEMENTED :: "string \<Rightarrow> gb_exn" where
  "ERR_NOT_IMPLEMENTED msg = mk_error msg 501 ''NOT_IMPLEMENTED''"

text \<open>\<^verbatim>\<open>throw_from_code\<close>: the exception that is thrown; codes without a class become 500.\<close>

definition throw_from_code :: "int \<Rightarrow> string \<Rightarrow> gb_exn" where
  "throw_from_code code msg =
     (case map_of error_table code of
        Some name \<Rightarrow> mk_error msg code name
      | None \<Rightarrow> mk_error msg 500 ''INTERNAL_SERVER_ERROR'')"

section \<open>Lemmas\<close>

lemma strlcpy_eq: "0 < siz \<Longrightarrow> strlcpy src siz = take (siz - 1) (c_str src)"
  by (auto simp: strlcpy_def Let_def)

lemma length_strlcpy: "0 < siz \<Longrightarrow> length (strlcpy src siz) < siz"
  by (simp add: strlcpy_eq)

lemma c_str_take [simp]: "c_str (take n (c_str s)) = take n (c_str s)"
  unfolding c_str_def by (auto simp: takeWhile_eq_all_conv dest!: in_set_takeD set_takeWhileD)

lemma strlcpy_idem [simp]: "strlcpy (strlcpy s n) n = strlcpy s n"
  by (cases "n = 0") (simp_all add: strlcpy_eq, simp add: strlcpy_def)

lemma c_str_append_clean: "list_all (\<lambda>c. c \<noteq> CHR 0x00) p \<Longrightarrow> c_str (p @ s) = p @ c_str s"
  by (simp add: c_str_def list_all_iff)

lemma str_find_prefix_iff: "p \<noteq> [] \<Longrightarrow> str_find p s = Some 0 \<longleftrightarrow> take (length p) s = p"
  by (cases s) auto

text \<open>A name of the error table is short, and a C string.\<close>

definition clean_name :: "string \<Rightarrow> bool" where
  "clean_name n \<longleftrightarrow> n \<noteq> [] \<and> length n \<le> 511 \<and> list_all (\<lambda>c. c \<noteq> CHR 0x00) n"

lemma error_table_clean: "map_of error_table c = Some n \<Longrightarrow> clean_name n"
proof -
  have "list_all (\<lambda>(c, n). clean_name n) error_table"
    by (simp add: error_table_def clean_name_def)
  moreover assume "map_of error_table c = Some n"
  then have "(c, n) \<in> set error_table" by (rule map_of_SomeD)
  ultimately show "clean_name n" by (auto simp: list_all_iff)
qed

lemma error_what_prefix:
  assumes "clean_name name"
  shows "take (length name) (error_what msg code name) = name"
proof -
  define err where "err = (if str_find name msg \<noteq> Some 0 then name @ '' ['' @ int_dec code @ '']: '' else [])
      @ (if msg \<noteq> [] then msg else ''Unknown Error'')"
  have "\<exists>t. err = name @ t"
  proof (cases "str_find name msg = Some 0")
    case True
    then have "take (length name) msg = name"
      using assms by (simp add: str_find_prefix_iff clean_name_def)
    then have m: "msg = name @ drop (length name) msg" by (metis append_take_drop_id)
    then have "msg \<noteq> []" using assms by (auto simp: clean_name_def)
    with m True show ?thesis by (auto simp: err_def)
  qed (simp add: err_def)
  then obtain t where "err = name @ t" by blast
  then have "error_what msg code name = take 511 (name @ c_str t)"
    using assms by (simp add: error_what_def err_def Let_def strlcpy_eq clean_name_def c_str_append_clean)
  with assms show ?thesis by (simp add: clean_name_def take_append)
qed

text \<open>
  Rebuilding an error from the text of an error of the same class, as the relaying of a
  child's failure with \<^verbatim>\<open>throw_from_code\<close> does, leaves the text unchanged: the class prefix is not
  repeated and nothing more is cut off, however long the first message was.
\<close>

theorem throw_from_code_relay:
  "throw_from_code (err_code (throw_from_code code msg)) (err_what (throw_from_code code msg))
     = throw_from_code code msg"
proof -
  have main: "error_what (error_what msg c n) c n = error_what msg c n" if "clean_name n" for c n
  proof -
    have p: "take (length n) (error_what msg c n) = n" by (rule error_what_prefix [OF that])
    then have ne: "error_what msg c n \<noteq> []" using that by (auto simp: clean_name_def)
    have "str_find n (error_what msg c n) = Some 0"
      using p that by (simp add: str_find_prefix_iff clean_name_def)
    then have "error_what (error_what msg c n) c n = strlcpy (error_what msg c n) 512"
      using ne by (simp add: error_what_def [of "error_what msg c n"])
    also have "\<dots> = error_what msg c n" by (simp add: error_what_def Let_def)
    finally show ?thesis .
  qed
  have "map_of error_table 500 = Some ''INTERNAL_SERVER_ERROR''" by (simp add: error_table_def)
  then show ?thesis
    using main error_table_clean
    by (auto simp: throw_from_code_def mk_error_def split: option.splits)
qed

lemma error_what_bounded: "length (error_what msg code name) < 512"
  by (simp add: error_what_def Let_def length_strlcpy)

end
