(* ===== verification/GB_Util.thy ===== *)
theory GB_Util
  imports GB_Errors
begin

unbundle bit_operations_syntax

text \<open>
  The helpers of \<^verbatim>\<open>core/util.cc\<close> that compute: Crockford's base 32 on 64 bit words and the
  identifiers made of two such words, and the quoting of argument lists for a shell. The file,
  pipe, compression and random-number helpers of that file are input and output.
\<close>

section \<open>Base 32\<close>

definition basechars :: string where
  "basechars = ''0123456789abcdefghjkmnpqrstvwxyz''"

text \<open>
  The loop of \<^verbatim>\<open>encode_b32c\<close> appends digits, least significant first, to the string it was given;
  the whole string, with what it already held, is reversed at the end.
\<close>

function b32c_digits :: "64 word \<Rightarrow> string \<Rightarrow> string" where
  "b32c_digits n s =
     (if n = 0 then s
      else let q = drop_bit 5 n in
        if q \<noteq> 0 then b32c_digits q (s @ [basechars ! unat (n mod 32)])
        else s @ [basechars ! unat n])"
  by pat_completeness auto

lemma unat_drop_bit_5: "unat (drop_bit 5 n) = unat n div 32" for n :: "64 word"
  by (simp add: drop_bit_eq_div unat_div_distrib)

termination b32c_digits
proof (relation "measure (\<lambda>(n, s). unat n)")
  fix n :: "64 word" and s :: string and q :: "64 word"
  assume "n \<noteq> 0" and "q = drop_bit 5 n" and "q \<noteq> 0"
  moreover from \<open>n \<noteq> 0\<close> have "0 < unat n" by (simp add: unat_gt_0)
  ultimately show "((q, s @ [basechars ! unat (n mod 32)]), n, s) \<in> measure (\<lambda>(n, s). unat n)"
    by (simp add: unat_drop_bit_5)
qed simp

declare b32c_digits.simps [simp del]

definition encode_b32c :: "64 word \<Rightarrow> string \<Rightarrow> string" where
  "encode_b32c n s = rev (b32c_digits n s)"

text \<open>
  \<^verbatim>\<open>decode_b32c\<close>: the return code and the value of \<^verbatim>\<open>t\<close>. A \<^verbatim>\<open>char\<close> is read into an \<^verbatim>\<open>int\<close>, so
  bytes above 127 are negative; sum and offset are 64 bit words and wrap around.
\<close>

definition char_int :: "char \<Rightarrow> int" where
  "char_int c = (let n = of_char c :: int in if n \<ge> 128 then n - 256 else n)"

definition b32c_illegal :: "int \<Rightarrow> bool" where
  "b32c_illegal b \<longleftrightarrow> b < 48 \<or> (b > 57 \<and> b < 97) \<or> b > 122 \<or> b = 105 \<or> b = 108 \<or> b = 111 \<or> b = 117"

definition b32c_val :: "int \<Rightarrow> int" where
  "b32c_val b = (if b \<le> 57 then b - 48 else if b \<le> 104 then b - 87 else if b \<le> 107 then b - 88
     else if b \<le> 110 then b - 89 else if b \<le> 116 then b - 90 else if b \<le> 122 then b - 91 else b)"

fun b32c_decode_loop :: "string \<Rightarrow> 64 word \<Rightarrow> 64 word \<Rightarrow> int \<times> 64 word" where
  "b32c_decode_loop [] o' t = (0, t)"
| "b32c_decode_loop (c # cs) o' t =
     (let b = char_int c in
      if b32c_illegal b then (1, t)
      else b32c_decode_loop cs (o' * 32) (t + word_of_int (b32c_val b) * o'))"

definition decode_b32c :: "string \<Rightarrow> int \<times> 64 word" where
  "decode_b32c s = b32c_decode_loop (rev s) 1 0"

text \<open>\<^verbatim>\<open>uuid_b32c\<close> on the two words of a UUID, and \<^verbatim>\<open>JobManager::gen_id\<close>.\<close>

definition uuid_b32c :: "64 word \<times> 64 word \<Rightarrow> string \<Rightarrow> string" where
  "uuid_b32c u b32u = (let b32u = encode_b32c (fst u) b32u in encode_b32c (snd u) b32u)"

definition gen_id :: "64 word \<times> 64 word \<Rightarrow> string \<Rightarrow> string" where
  "gen_id u prefix = (prefix @ ''-'') @ uuid_b32c u []"

section \<open>Quoting for a shell\<close>

definition NEUTRALS :: string where
  "NEUTRALS = ''+,-./0123456789=ABCDEFGHIJKLMNOPQRSTUVWXYZ_abcdefghijklmnopqrstuvwxyz''"

definition SQUOTE :: char where
  "SQUOTE = CHR 0x27"

definition DQUOTE :: char where
  "DQUOTE = CHR 0x22"

definition SQUOTE_REPLACEMENT :: string where
  "SQUOTE_REPLACEMENT = [SQUOTE, DQUOTE, SQUOTE, DQUOTE, SQUOTE]"

lemma str_find_if_from_bound:
  "str_find_if_from P pos s = Some i \<Longrightarrow> pos \<le> i \<and> i < length s"
  by (auto simp: str_find_if_from_def dest: str_find_if_Some)

function shellquote_rest :: "string \<Rightarrow> string \<Rightarrow> nat \<Rightarrow> string" where
  "shellquote_rest w w2 pos =
     (case str_find_if_from (\<lambda>c. c = SQUOTE) (pos + 1) w of
        Some pos2 \<Rightarrow>
          shellquote_rest w (w2 @ take (pos2 - (pos + 1)) (drop (pos + 1) w) @ SQUOTE_REPLACEMENT) pos2
      | None \<Rightarrow> w2 @ drop (pos + 1) w)"
  by pat_completeness auto
termination
  by (relation "measure (\<lambda>(w, w2, pos). length w - pos)") (auto dest: str_find_if_from_bound)

declare shellquote_rest.simps [simp del]

definition shellquote_word :: "string \<Rightarrow> string" where
  "shellquote_word w =
     (if w = [] \<or> str_find_if (\<lambda>c. c \<notin> set NEUTRALS) w \<noteq> None
      then (case str_find_if (\<lambda>c. c = SQUOTE) w of
              Some pos \<Rightarrow>
                [SQUOTE] @ shellquote_rest w (take pos w @ SQUOTE_REPLACEMENT) pos @ [SQUOTE]
            | None \<Rightarrow> [SQUOTE] @ w @ [SQUOTE])
      else w)"

fun shellquote_append :: "string \<Rightarrow> string list \<Rightarrow> string" where
  "shellquote_append res [] = res"
| "shellquote_append res (w # ws) =
     shellquote_append ((if res \<noteq> [] then res @ '' '' else res) @ shellquote_word w) ws"

definition shellquote_list :: "string list \<Rightarrow> string" where
  "shellquote_list ws = shellquote_append [] ws"

subsection \<open>How a shell reads words\<close>

text \<open>
  The reference: the word splitting of a POSIX shell for text made of plain characters, single
  quotes and double quotes. Anything else that has a meaning to the shell is refused.
\<close>

datatype sh_mode = Bare | Single | Double

fun sh_lex :: "sh_mode \<Rightarrow> string option \<Rightarrow> string \<Rightarrow> string list option" where
  "sh_lex Bare cur [] = Some (case cur of None \<Rightarrow> [] | Some w \<Rightarrow> [w])"
| "sh_lex Bare cur (c # cs) =
     (let w = (case cur of None \<Rightarrow> [] | Some w \<Rightarrow> w) in
      if c = CHR '' '' then
        (case cur of None \<Rightarrow> sh_lex Bare None cs | Some w \<Rightarrow> map_option (Cons w) (sh_lex Bare None cs))
      else if c = SQUOTE then sh_lex Single (Some w) cs
      else if c = DQUOTE then sh_lex Double (Some w) cs
      else if c \<in> set NEUTRALS then sh_lex Bare (Some (w @ [c])) cs
      else None)"
| "sh_lex Single cur [] = None"
| "sh_lex Single cur (c # cs) =
     (if c = SQUOTE then sh_lex Bare cur cs
      else sh_lex Single (map_option (\<lambda>w. w @ [c]) cur) cs)"
| "sh_lex Double cur [] = None"
| "sh_lex Double cur (c # cs) =
     (if c = DQUOTE then sh_lex Bare cur cs
      else if c \<in> {CHR ''$'', CHR 0x60, CHR 0x5C} then None
      else sh_lex Double (map_option (\<lambda>w. w @ [c]) cur) cs)"

definition sh_words :: "string \<Rightarrow> string list option" where
  "sh_words s = sh_lex Bare None s"

section \<open>Base 32: lemmas\<close>

lemma length_basechars [simp]: "length basechars = 32"
  by (simp add: basechars_def)

lemma basechars_table:
  "list_all (\<lambda>i. \<not> b32c_illegal (char_int (basechars ! i)) \<and> b32c_val (char_int (basechars ! i)) = int i)
     [0..<32]"
  by code_simp

lemma basechars_legal: "i < 32 \<Longrightarrow> \<not> b32c_illegal (char_int (basechars ! i))"
  and basechars_val: "i < 32 \<Longrightarrow> b32c_val (char_int (basechars ! i)) = int i"
  using basechars_table by (auto simp: list_all_iff)

lemma unat_mod_32: "unat (n mod 32) = unat n mod 32" for n :: "64 word"
  by (simp add: unat_mod_distrib)

text \<open>The digits as a function of the number, without the string they are appended to.\<close>

function b32c_lsd :: "nat \<Rightarrow> string" where
  "b32c_lsd n = (if n = 0 then [] else basechars ! (n mod 32) # b32c_lsd (n div 32))"
  by pat_completeness auto
termination by (relation "measure id") auto

declare b32c_lsd.simps [simp del]

lemma b32c_lsd_0 [simp]: "b32c_lsd 0 = []"
  by (simp add: b32c_lsd.simps)

lemma b32c_digits_eq: "b32c_digits n s = s @ b32c_lsd (unat n)"
proof (induction n s rule: b32c_digits.induct)
  case (1 n s)
  show ?case
  proof (cases "n = 0")
    case True
    then show ?thesis by (simp add: b32c_digits.simps)
  next
    case n: False
    then have lsd: "b32c_lsd (unat n) = basechars ! (unat n mod 32) # b32c_lsd (unat n div 32)"
      by (simp add: b32c_lsd.simps [of "unat n"] unat_eq_zero)
    show ?thesis
    proof (cases "drop_bit 5 n = 0")
      case True
      then have "unat n div 32 = 0" using unat_drop_bit_5 [of n] by simp
      then have "unat n < 32" by (simp add: div_eq_0_iff)
      with True n lsd \<open>unat n div 32 = 0\<close> show ?thesis by (simp add: b32c_digits.simps [of n s])
    next
      case False
      with n "1.IH" lsd show ?thesis
        by (simp add: b32c_digits.simps [of n s] unat_drop_bit_5 unat_mod_32)
    qed
  qed
qed

lemma encode_b32c_eq: "encode_b32c n s = rev (b32c_lsd (unat n)) @ rev s"
  by (simp add: encode_b32c_def b32c_digits_eq)

lemma b32c_decode_lsd:
  "b32c_decode_loop (b32c_lsd n) o' t = (0, t + of_nat n * o')"
proof (induction n arbitrary: o' t rule: b32c_lsd.induct)
  case (1 n)
  show ?case
  proof (cases "n = 0")
    case True
    then show ?thesis by simp
  next
    case False
    have "n = n mod 32 + 32 * (n div 32)" by simp
    then have split: "(of_nat n :: 64 word) = of_nat (n mod 32) + 32 * of_nat (n div 32)"
      by (metis of_nat_add of_nat_mult of_nat_numeral)
    from False have "b32c_decode_loop (b32c_lsd n) o' t =
        b32c_decode_loop (b32c_lsd (n div 32)) (o' * 32) (t + of_nat (n mod 32) * o')"
      by (simp add: b32c_lsd.simps [of n] basechars_legal basechars_val Let_def)
    also have "\<dots> = (0, t + of_nat (n mod 32) * o' + of_nat (n div 32) * (o' * 32))"
      using "1.IH" False by simp
    also have "\<dots> = (0, t + of_nat n * o')"
      by (simp add: split algebra_simps)
    finally show ?thesis .
  qed
qed

lemma decode_encode_b32c: "decode_b32c (encode_b32c n []) = (0, n)"
  by (simp add: decode_b32c_def encode_b32c_eq b32c_decode_lsd)

definition b32c_decode_option :: "string \<Rightarrow> 64 word option" where
  "b32c_decode_option s = (case decode_b32c s of (rc, t) \<Rightarrow> if rc = 0 then Some t else None)"

interpretation b32c: codec "\<lambda>n. encode_b32c n []" b32c_decode_option "\<lambda>_. True"
  by unfold_locales (simp add: b32c_decode_option_def decode_encode_b32c)

text \<open>
  Every 64 bit number survives base 32: decoding what \<^verbatim>\<open>encode_b32c\<close> wrote into an empty string
  reports success and gives the number back; zero becomes the empty string, and no two numbers
  have the same encoding.
\<close>

theorem b32c_roundtrip:
  "decode_b32c (encode_b32c n []) = (0, n) \<and> (encode_b32c n [] = encode_b32c m [] \<longleftrightarrow> n = m)"
  by (simp add: decode_encode_b32c b32c.enc_eq_iff)

lemma set_b32c_lsd: "set (b32c_lsd n) \<subseteq> set basechars"
proof (induction n rule: b32c_lsd.induct)
  case (1 n)
  then show ?case by (cases "n = 0") (auto simp: b32c_lsd.simps [of n])
qed

lemma length_b32c_lsd: "n < 32 ^ k \<Longrightarrow> length (b32c_lsd n) \<le> k"
proof (induction k arbitrary: n)
  case 0
  then show ?case by simp
next
  case (Suc k)
  then have "n div 32 < 32 ^ k" by (simp add: less_mult_imp_div_less mult.commute)
  with Suc.IH show ?case by (cases "n = 0") (auto simp: b32c_lsd.simps [of n])
qed

lemma length_encode_b32c: "length (encode_b32c n s) \<le> 13 + length s"
proof -
  have "unat n < 2 ^ 64" using unsigned_less [of n] by simp
  then have "unat n < 32 ^ 13" by simp
  then show ?thesis by (simp add: encode_b32c_eq length_b32c_lsd)
qed

lemma uuid_b32c_eq: "uuid_b32c (a, b) [] = rev (b32c_lsd (unat b)) @ b32c_lsd (unat a)"
  by (simp add: uuid_b32c_def encode_b32c_eq)

text \<open>
  The text made from a UUID is safe in URIs and in DNS labels, as the comment on
  \<^verbatim>\<open>uuid_b32c\<close> asks: only digits and lower case letters of the base 32 alphabet, at most 26 of them.
\<close>

theorem uuid_b32c_safe:
  "set (uuid_b32c u []) \<subseteq> set basechars \<and> length (uuid_b32c u []) \<le> 26"
proof -
  obtain a b where u: "u = (a, b)" by (cases u)
  have "length (encode_b32c b (encode_b32c a [])) \<le> 13 + (13 + 0)"
    using length_encode_b32c [of b "encode_b32c a []"] length_encode_b32c [of a "[]"] by simp
  with u show ?thesis
    using set_b32c_lsd by (auto simp: uuid_b32c_def encode_b32c_eq)
qed

text \<open>
  The two halves are written without a separator or padding, the first half back to front, so
  different UUIDs can give the same identifier: the map from UUIDs to identifiers is not injective.
\<close>

theorem gen_id_collision:
  "\<exists>u v. u \<noteq> v \<and> gen_id u prefix = gen_id v prefix"
proof (intro exI conjI)
  show "(2, 1) \<noteq> ((0, 34) :: 64 word \<times> 64 word)" by simp
  show "gen_id (2, 1) prefix = gen_id (0, 34) prefix"
    by (simp add: gen_id_def uuid_b32c_eq b32c_lsd.simps)
qed

section \<open>Quoting: lemmas\<close>

definition shq_chars :: "string \<Rightarrow> string" where
  "shq_chars w = concat (map (\<lambda>c. if c = SQUOTE then SQUOTE_REPLACEMENT else [c]) w)"

lemma shq_chars_plain: "SQUOTE \<notin> set w \<Longrightarrow> shq_chars w = w"
  by (induction w) (auto simp: shq_chars_def)

lemma shq_chars_append: "shq_chars (v @ w) = shq_chars v @ shq_chars w"
  by (simp add: shq_chars_def)

lemma shq_chars_quote: "shq_chars (SQUOTE # w) = SQUOTE_REPLACEMENT @ shq_chars w"
  by (simp add: shq_chars_def)

lemma find_quote_split:
  assumes "str_find_if (\<lambda>c. c = SQUOTE) s = Some i"
  shows "s = take i s @ SQUOTE # drop (Suc i) s" and "SQUOTE \<notin> set (take i s)"
  using str_find_if_Some [OF assms] id_take_nth_drop [of i s] by auto

lemma shellquote_rest_eq: "shellquote_rest w w2 pos = w2 @ shq_chars (drop (pos + 1) w)"
proof (induction w w2 pos rule: shellquote_rest.induct)
  case (1 w w2 pos)
  show ?case
  proof (cases "str_find_if (\<lambda>c. c = SQUOTE) (drop (pos + 1) w)")
    case None
    then have "SQUOTE \<notin> set (drop (pos + 1) w)" by (auto simp: str_find_if_None)
    with None show ?thesis
      by (simp add: shellquote_rest.simps [of w w2 pos] str_find_if_from_def shq_chars_plain)
  next
    case (Some i)
    define d where "d = drop (pos + 1) w"
    have from_eq: "str_find_if_from (\<lambda>c. c = SQUOTE) (pos + 1) w = Some (pos + 1 + i)"
      using Some by (simp add: str_find_if_from_def)
    have "shq_chars d = take i d @ SQUOTE_REPLACEMENT @ shq_chars (drop (Suc i) d)"
      using find_quote_split [of d i] Some
      by (metis d_def shq_chars_append shq_chars_plain shq_chars_quote)
    moreover have "drop (Suc i) d = drop (pos + 1 + i + 1) w" by (simp add: d_def add.commute)
    ultimately show ?thesis
      using "1.IH" [OF from_eq] from_eq
      by (simp add: shellquote_rest.simps [of w w2 pos] d_def)
  qed
qed

lemma shellquote_word_eq:
  "shellquote_word w =
     (if w \<noteq> [] \<and> set w \<subseteq> set NEUTRALS then w else [SQUOTE] @ shq_chars w @ [SQUOTE])"
proof (cases "w \<noteq> [] \<and> set w \<subseteq> set NEUTRALS")
  case True
  then have "str_find_if (\<lambda>c. c \<notin> set NEUTRALS) w = None" by (auto simp: str_find_if_None)
  with True show ?thesis by (simp add: shellquote_word_def)
next
  case False
  then have q: "w = [] \<or> str_find_if (\<lambda>c. c \<notin> set NEUTRALS) w \<noteq> None"
    by (auto simp: str_find_if_None)
  show ?thesis
  proof (cases "str_find_if (\<lambda>c. c = SQUOTE) w")
    case None
    then have "SQUOTE \<notin> set w" by (auto simp: str_find_if_None)
    then have "shq_chars w = w" by (rule shq_chars_plain)
    moreover have "shellquote_word w = [SQUOTE] @ w @ [SQUOTE]"
      using q None by (simp only: shellquote_word_def if_True option.case)
    ultimately show ?thesis using False by (simp only: if_False)
  next
    case (Some i)
    have "shq_chars w = take i w @ SQUOTE_REPLACEMENT @ shq_chars (drop (Suc i) w)"
      using find_quote_split [OF Some] by (metis shq_chars_append shq_chars_plain shq_chars_quote)
    moreover have "shellquote_word w
        = [SQUOTE] @ ((take i w @ SQUOTE_REPLACEMENT) @ shq_chars (drop (i + 1) w)) @ [SQUOTE]"
      using q Some by (simp only: shellquote_word_def shellquote_rest_eq if_True option.case)
    ultimately show ?thesis using False by auto
  qed
qed

lemma shellquote_word_not_Nil [simp]: "shellquote_word w \<noteq> []"
  by (simp add: shellquote_word_eq)

lemma shellquote_append_eq:
  "shellquote_append res ws =
     res @ concat (map (\<lambda>w. CHR '' '' # shellquote_word w) ws)" if "res \<noteq> []"
  using that by (induction ws arbitrary: res) auto

lemma shellquote_list_Cons:
  "shellquote_list (w # ws) = shellquote_word w @ concat (map (\<lambda>w. CHR '' '' # shellquote_word w) ws)"
  by (simp add: shellquote_list_def shellquote_append_eq)

lemma neutral_plain:
  "c \<in> set NEUTRALS \<Longrightarrow> c \<noteq> CHR '' '' \<and> c \<noteq> SQUOTE \<and> c \<noteq> DQUOTE"
  by (auto simp: NEUTRALS_def SQUOTE_def DQUOTE_def)

lemma sh_lex_bare:
  "set v \<subseteq> set NEUTRALS \<Longrightarrow> sh_lex Bare (Some u) (v @ s) = sh_lex Bare (Some (u @ v)) s"
  by (induction v arbitrary: u) (auto dest: neutral_plain)

lemma sh_lex_single:
  "sh_lex Single (Some u) (shq_chars v @ SQUOTE # s) = sh_lex Bare (Some (u @ v)) s"
proof (induction v arbitrary: u)
  case Nil
  then show ?case by (simp add: shq_chars_def)
next
  case (Cons c v)
  show ?case
  proof (cases "c = SQUOTE")
    case True
    with Cons.IH [of "u @ [SQUOTE]"] show ?thesis
      by (simp add: shq_chars_quote SQUOTE_REPLACEMENT_def) (simp add: SQUOTE_def DQUOTE_def)
  next
    case False
    then have "shq_chars (c # v) = c # shq_chars v" by (simp add: shq_chars_def)
    with False Cons.IH show ?thesis by simp
  qed
qed

lemma sh_lex_word: "sh_lex Bare None (shellquote_word w @ s) = sh_lex Bare (Some w) s"
proof (cases "w \<noteq> [] \<and> set w \<subseteq> set NEUTRALS")
  case True
  then obtain c v where w: "w = c # v" by (cases w) auto
  with True have "c \<in> set NEUTRALS" and "set v \<subseteq> set NEUTRALS" by auto
  with w True sh_lex_bare [of v "[c]" s] neutral_plain [of c] show ?thesis
    by (simp add: shellquote_word_eq)
next
  case False
  then have "sh_lex Bare None (shellquote_word w @ s)
      = sh_lex Bare None (SQUOTE # shq_chars w @ SQUOTE # s)"
    by (simp only: shellquote_word_eq) auto
  also have "\<dots> = sh_lex Bare (Some w) s"
    using sh_lex_single [of "[]" w s] by (simp add: SQUOTE_def)
  finally show ?thesis .
qed

lemma sh_lex_words:
  "sh_lex Bare (Some u) (concat (map (\<lambda>w. CHR '' '' # shellquote_word w) ws)) = Some (u # ws)"
  by (induction ws arbitrary: u) (auto simp: sh_lex_word)

lemma sh_words_shellquote_list: "sh_words (shellquote_list ws) = Some ws"
proof (cases ws)
  case Nil
  then show ?thesis by (simp add: sh_words_def shellquote_list_def)
next
  case (Cons w vs)
  then show ?thesis
    by (simp add: sh_words_def shellquote_list_Cons sh_lex_word sh_lex_words)
qed

interpretation shq: codec shellquote_list sh_words "\<lambda>_. True"
  by unfold_locales (simp add: sh_words_shellquote_list)


end
