(* ===== verification/GB_Uri.thy ===== *)
theory GB_Uri
  imports GB_Errors
begin

text \<open>
  \<^verbatim>\<open>core/Uri.cc\<close>: parsing, the guarded attributes, path operations and the canonical form on which
  equality of URIs is defined. Members that change the object are state computations over the
  record of \<^verbatim>\<open>Uri::Private\<close>; const members return a result or the exception they throw.
\<close>

record uri =
  u_uristr :: string
  u_scheme :: string
  u_username :: string
  u_password :: string
  u_hostname :: string
  u_path :: string
  u_query :: string
  u_fragment :: string
  u_port :: int

definition new_uri :: uri where
  "new_uri = \<lparr>u_uristr = [], u_scheme = [], u_username = [], u_password = [], u_hostname = [],
     u_path = [], u_query = [], u_fragment = [], u_port = 0\<rparr>"

definition uri_error :: "string \<Rightarrow> gb_exn" where
  "uri_error msg = UriError (strlcpy (''Uri Error: '' @ msg) 512)"

section \<open>Attributes\<close>

definition unsupported :: "string \<Rightarrow> uri \<Rightarrow> gb_exn" where
  "unsupported name u = uri_error (''attribute '' @ [CHR 0x27] @ name @ [CHR 0x27] @ '' unsupported by ''
     @ [CHR 0x27] @ u_scheme u @ [CHR 0x27] @ '' URIs'')"

definition uri_is_http :: "uri \<Rightarrow> bool" where
  "uri_is_http u \<longleftrightarrow> u_scheme u = ''http''"

definition uri_is_https :: "uri \<Rightarrow> bool" where
  "uri_is_https u \<longleftrightarrow> u_scheme u = ''https''"

definition uri_is_httpx :: "uri \<Rightarrow> bool" where
  "uri_is_httpx u \<longleftrightarrow> uri_is_http u \<or> uri_is_https u"

definition uri_is_file :: "uri \<Rightarrow> bool" where
  "uri_is_file u \<longleftrightarrow> u_scheme u = ''file''"

definition require_httpx :: "string \<Rightarrow> (uri, gb_exn, unit) sx" where
  "require_httpx name = (\<lambda>u.
     if u_scheme u \<noteq> ''http'' \<and> u_scheme u \<noteq> ''https'' then (Inl (unsupported name u), u)
     else (Inr (), u))"

definition httpx_get :: "string \<Rightarrow> (uri \<Rightarrow> 'a) \<Rightarrow> uri \<Rightarrow> gb_exn + 'a" where
  "httpx_get name f u = (case fst (require_httpx name u) of Inl e \<Rightarrow> Inl e | Inr _ \<Rightarrow> Inr (f u))"

definition uri_username :: "uri \<Rightarrow> gb_exn + string" where
  "uri_username = httpx_get ''username'' u_username"

definition uri_password :: "uri \<Rightarrow> gb_exn + string" where
  "uri_password = httpx_get ''password'' u_password"

definition uri_hostname :: "uri \<Rightarrow> gb_exn + string" where
  "uri_hostname = httpx_get ''hostname'' u_hostname"

definition uri_port :: "uri \<Rightarrow> gb_exn + int" where
  "uri_port = httpx_get ''port'' u_port"

definition uri_query :: "uri \<Rightarrow> gb_exn + string" where
  "uri_query = httpx_get ''query'' u_query"

definition uri_fragment :: "uri \<Rightarrow> gb_exn + string" where
  "uri_fragment = httpx_get ''fragment'' u_fragment"

text \<open>The scheme is stored before it is checked, so the object keeps an unsupported one.\<close>

definition uri_set_scheme :: "string \<Rightarrow> (uri, gb_exn, unit) sx" where
  "uri_set_scheme s =
     sx_then (sx_modify (\<lambda>u. u\<lparr>u_scheme := str_tolower s\<rparr>))
       (if str_tolower s \<noteq> ''file'' \<and> str_tolower s \<noteq> ''http'' \<and> str_tolower s \<noteq> ''https''
        then sx_throw (uri_error (''Unsupported uri scheme '' @ [CHR 0x27] @ str_tolower s @ [CHR 0x27] @ ''.''))
        else sx_return ())"

definition uri_set_username :: "string \<Rightarrow> (uri, gb_exn, unit) sx" where
  "uri_set_username s = sx_then (require_httpx ''username'') (sx_modify (\<lambda>u. u\<lparr>u_username := s\<rparr>))"

definition uri_set_password :: "string \<Rightarrow> (uri, gb_exn, unit) sx" where
  "uri_set_password s = sx_then (require_httpx ''password'') (sx_modify (\<lambda>u. u\<lparr>u_password := s\<rparr>))"

definition uri_set_hostname :: "string \<Rightarrow> (uri, gb_exn, unit) sx" where
  "uri_set_hostname s =
     sx_then (require_httpx ''hostname'') (sx_modify (\<lambda>u. u\<lparr>u_hostname := str_tolower s\<rparr>))"

definition uri_set_port :: "int \<Rightarrow> (uri, gb_exn, unit) sx" where
  "uri_set_port p = sx_then (require_httpx ''port'') (sx_modify (\<lambda>u. u\<lparr>u_port := p\<rparr>))"

definition uri_set_query :: "string \<Rightarrow> (uri, gb_exn, unit) sx" where
  "uri_set_query s = sx_then (require_httpx ''query'') (sx_modify (\<lambda>u. u\<lparr>u_query := s\<rparr>))"

definition uri_query_push :: "string \<Rightarrow> (uri, gb_exn, unit) sx" where
  "uri_query_push part =
     sx_then (require_httpx ''query'')
       (sx_bind (sx_get u_query) (\<lambda>q.
          if q = [] then uri_set_query part else uri_set_query (q @ ''&'' @ part)))"

definition uri_set_fragment :: "string \<Rightarrow> (uri, gb_exn, unit) sx" where
  "uri_set_fragment s = sx_then (require_httpx ''fragment'') (sx_modify (\<lambda>u. u\<lparr>u_fragment := s\<rparr>))"

section \<open>Paths\<close>

definition uri_set_path :: "string \<Rightarrow> uri \<Rightarrow> uri" where
  "uri_set_path p u = u\<lparr>u_path := p\<rparr>"

definition uri_path_push :: "string \<Rightarrow> uri \<Rightarrow> uri" where
  "uri_path_push part u =
     (if u_path u = [] then uri_set_path part u else uri_set_path (u_path u @ ''/'' @ part) u)"

definition uri_path_pop :: "uri \<Rightarrow> uri" where
  "uri_path_pop u =
     (if u_path u = [] then u
      else (case str_rfind_if (\<lambda>c. c = CHR ''/'') (u_path u) of
              Some slash \<Rightarrow> uri_set_path (take slash (u_path u)) u
            | None \<Rightarrow> u))"

definition uri_leaf :: "uri \<Rightarrow> string" where
  "uri_leaf u = (case str_rfind_if (\<lambda>c. c = CHR ''/'') (u_path u) of
     Some pos \<Rightarrow> drop (pos + 1) (u_path u)
   | None \<Rightarrow> u_path u)"

text \<open>
  The loop of \<^verbatim>\<open>canonicalize_path\<close> over the vector of parts. The parts before the iterator are the
  first argument, the parts from the iterator on the second: \<^verbatim>\<open>erase(p)\<close> drops the head of the
  second, \<^verbatim>\<open>erase(--p)\<close> the last of the first.
\<close>

fun canon_parts :: "string list \<Rightarrow> string list \<Rightarrow> string list" where
  "canon_parts before [] = before"
| "canon_parts before (part # rest) =
     (if part = [] \<or> part = ''.'' then canon_parts before rest
      else if part = ''..'' then
        (if before \<noteq> [] then canon_parts (butlast before) rest else canon_parts before rest)
      else canon_parts (before @ [part]) rest)"

primrec slashed :: "string list \<Rightarrow> string" where
  "slashed [] = []"
| "slashed (p # ps) = CHR ''/'' # p @ slashed ps"

definition canonicalize_path :: "string \<Rightarrow> string" where
  "canonicalize_path path =
     (if path = [] then ''/''
      else let parts = canon_parts [] (str_split (CHR ''/'') path);
               cpath = slashed parts
           in cpath @ (if last path = CHR ''/'' then ''/'' else []))"

definition uri_canonical_path :: "uri \<Rightarrow> string" where
  "uri_canonical_path u = canonicalize_path (u_path u)"

section \<open>Printing\<close>

definition uri_hostport :: "uri \<Rightarrow> gb_exn + string" where
  "uri_hostport u =
     (if u_scheme u = ''file'' then Inr []
      else if u_scheme u = ''http'' \<and> u_port u = 80 then uri_hostname u
      else if u_scheme u = ''https'' \<and> u_port u = 443 then uri_hostname u
      else res_bind (uri_hostname u) (\<lambda>h. res_bind (uri_port u) (\<lambda>p. Inr (h @ '':'' @ int_dec p))))"

definition uri_authority :: "uri \<Rightarrow> gb_exn + string" where
  "uri_authority u =
     (if u_scheme u = ''file'' then Inr []
      else res_bind (uri_hostport u) (\<lambda>hp. Inr (
        (if u_username u \<noteq> []
         then u_username u @ (if u_password u \<noteq> [] then '':'' @ u_password u else []) @ ''@''
         else []) @ hp)))"

definition query_part :: "uri \<Rightarrow> string" where
  "query_part u = (if u_query u \<noteq> [] then ''?'' @ u_query u else [])"

definition fragment_part :: "uri \<Rightarrow> string" where
  "fragment_part u = (if u_fragment u \<noteq> [] then ''#'' @ u_fragment u else [])"

definition uri_str :: "uri \<Rightarrow> gb_exn + string" where
  "uri_str u = res_bind (uri_authority u) (\<lambda>a. Inr (
     u_scheme u @ ''://'' @ a @ (if take 1 (u_path u) \<noteq> ''/'' then ''/'' else []) @ u_path u
     @ query_part u @ fragment_part u))"

definition uri_canonical :: "uri \<Rightarrow> gb_exn + string" where
  "uri_canonical u = res_bind (uri_authority u) (\<lambda>a. Inr (
     u_scheme u @ ''://'' @ a @ uri_canonical_path u @ query_part u @ fragment_part u))"

text \<open>\<^verbatim>\<open>operator ==\<close>: equality of the canonical forms.\<close>

definition uri_eq :: "uri \<Rightarrow> uri \<Rightarrow> gb_exn + bool" where
  "uri_eq l r = res_bind (uri_canonical l) (\<lambda>a. res_bind (uri_canonical r) (\<lambda>b. Inr (a = b)))"

section \<open>Parsing\<close>

definition parse_userinfo :: "string \<Rightarrow> (uri, gb_exn, string) sx" where
  "parse_userinfo authority =
     (case str_find_if (\<lambda>c. c = CHR ''@'') authority of
        None \<Rightarrow> sx_return authority
      | Some pos \<Rightarrow>
          sx_then (uri_set_username (take pos authority))
          (sx_bind (sx_get u_username) (\<lambda>un.
             sx_then
               (case str_find_if (\<lambda>c. c = CHR '':'') un of
                  None \<Rightarrow> sx_return ()
                | Some p \<Rightarrow> sx_then (uri_set_password (drop (p + 1) un)) (uri_set_username (take p un)))
               (sx_return (drop (pos + 1) authority)))))"

definition parse_hostport :: "string \<Rightarrow> (uri, gb_exn, unit) sx" where
  "parse_hostport nl =
     (case str_find_if (\<lambda>c. c = CHR '':'') nl of
        Some pos \<Rightarrow>
          sx_then (uri_set_hostname (take pos nl)) (uri_set_port (atoi (c_str (drop (pos + 1) nl))))
      | None \<Rightarrow> uri_set_hostname nl)"

definition parse_authority :: "string \<Rightarrow> (uri, gb_exn, unit) sx" where
  "parse_authority authority =
     sx_bind (sx_get u_scheme) (\<lambda>scheme.
     if authority = []
     then sx_throw (uri_error (''Authority must be present for '' @ [CHR 0x27] @ scheme @ [CHR 0x27] @ '' uris.''))
     else sx_bind (parse_userinfo authority) parse_hostport)"

definition parse_query_fragment :: "string \<Rightarrow> (uri, gb_exn, string) sx" where
  "parse_query_fragment s =
     sx_bind
       (case str_find_if (\<lambda>c. c = CHR ''#'') s of
          Some pos \<Rightarrow> sx_then (uri_set_fragment (drop (pos + 1) s)) (sx_return (take pos s))
        | None \<Rightarrow> sx_return s)
       (\<lambda>s. case str_find_if (\<lambda>c. c = CHR ''?'') s of
          Some pos \<Rightarrow> sx_then (uri_set_query (drop (pos + 1) s)) (sx_return (take pos s))
        | None \<Rightarrow> sx_return s)"

definition default_port :: "(uri, gb_exn, unit) sx" where
  "default_port = (\<lambda>u.
     if u_port u = 0 then
       sx_then (sx_when (u_scheme u = ''http'') (uri_set_port 80))
               (sx_when (u_scheme u = ''https'') (uri_set_port 443)) u
     else (Inr (), u))"

definition parse_uristr :: "string \<Rightarrow> (uri, gb_exn, unit) sx" where
  "parse_uristr uristr =
     sx_then (sx_modify (\<lambda>u. u\<lparr>u_port := 0\<rparr>))
     (case str_find ''://'' uristr of
        None \<Rightarrow> sx_throw (uri_error (''The string '' @ [CHR 0x27] @ uristr @ [CHR 0x27] @ '' is not parseable as a uri.''))
      | Some pos \<Rightarrow>
          sx_then (uri_set_scheme (take pos uristr))
          (sx_bind (sx_get u_scheme) (\<lambda>scheme.
             let rest = drop (pos + 3) uristr in
             if scheme \<noteq> ''file'' then
               let (authority, rest') =
                 (case str_find_if (\<lambda>c. c \<in> {CHR ''/'', CHR ''?'', CHR ''#''}) rest of
                    Some p \<Rightarrow> (take p rest, drop (p + 1) rest)
                  | None \<Rightarrow> (rest, []))
               in sx_then (parse_authority authority)
                  (sx_bind (parse_query_fragment rest') (\<lambda>path.
                     sx_then default_port (sx_modify (uri_set_path path))))
             else sx_modify (uri_set_path rest))))"

text \<open>\<^verbatim>\<open>Uri::Uri(const string &)\<close>: a failed parse destroys the object and rethrows.\<close>

definition Uri :: "string \<Rightarrow> gb_exn + uri" where
  "Uri s = (case parse_uristr s (new_uri\<lparr>u_uristr := s\<rparr>) of
     (Inl e, _) \<Rightarrow> Inl e
   | (Inr _, u) \<Rightarrow> Inr u)"

text \<open>
  \<^verbatim>\<open>Uri::Uri(const boost::filesystem::path &)\<close>; whether the path is complete and its text come
  from boost.
\<close>

definition Uri_of_path :: "bool \<Rightarrow> string \<Rightarrow> gb_exn + uri" where
  "Uri_of_path is_complete path =
     (if \<not> is_complete then Inl (uri_error (''Uris of scheme '' @ [CHR 0x27] @ ''file'' @ [CHR 0x27] @ '' may not be relative.''))
      else let u = new_uri\<lparr>u_scheme := ''file'', u_path := path\<rparr>
           in res_bind (uri_canonical u) (\<lambda>c. Inr (u\<lparr>u_uristr := c\<rparr>)))"

section \<open>Canonical paths: lemmas\<close>

definition normal_part :: "string \<Rightarrow> bool" where
  "normal_part p \<longleftrightarrow> p \<noteq> [] \<and> p \<noteq> ''.'' \<and> p \<noteq> ''..'' \<and> CHR ''/'' \<notin> set p"

lemma canon_parts_normal:
  "list_all normal_part before \<Longrightarrow> list_all (\<lambda>p. CHR ''/'' \<notin> set p) rest \<Longrightarrow>
   list_all normal_part (canon_parts before rest)"
proof (induction before rest rule: canon_parts.induct)
  case (2 before part rest)
  have "list_all normal_part (butlast before)"
    using 2(5) by (auto simp: list_all_iff dest: in_set_butlastD)
  with 2 show ?case by (cases "part = []"; cases "part = ''.''"; cases "part = ''..''")
      (simp_all add: normal_part_def [of part])
qed simp

lemma canon_parts_id: "list_all normal_part rest \<Longrightarrow> canon_parts before rest = before @ rest"
  by (induction before rest rule: canon_parts.induct) (auto simp: normal_part_def)

lemma canon_parts_snoc_empty: "canon_parts before (rest @ [[]]) = canon_parts before rest"
  by (induction before rest rule: canon_parts.induct) auto

lemma slashed_append: "slashed (ps @ qs) = slashed ps @ slashed qs"
  by (induction ps) simp_all

lemma str_split_slashed:
  "list_all normal_part ps \<Longrightarrow> CHR ''/'' \<notin> set p \<Longrightarrow> str_split (CHR ''/'') (p @ slashed ps) = p # ps"
proof (induction ps arbitrary: p)
  case Nil
  then show ?case by simp
next
  case (Cons q ps)
  then have "str_split (CHR ''/'') (p @ CHR ''/'' # (q @ slashed ps)) = [p] @ (q # ps)"
    by (subst str_split_append) (auto simp: normal_part_def)
  then show ?case by simp
qed

lemma last_slashed:
  assumes "list_all normal_part ps" and "ps \<noteq> []"
  shows "last (slashed ps) \<noteq> CHR ''/''"
proof -
  obtain qs q where ps: "ps = qs @ [q]" using assms(2) by (metis rev_exhaust)
  with assms(1) have q: "q \<noteq> []" "CHR ''/'' \<notin> set q" by (auto simp: normal_part_def)
  then have "last (slashed ps) = last q" by (simp add: ps slashed_append)
  with q show ?thesis by (metis last_in_set)
qed

text \<open>The parts and the trailing slash that a canonical path is made of.\<close>

definition canon_of :: "string list \<Rightarrow> bool \<Rightarrow> string" where
  "canon_of ps trailing = slashed ps @ (if trailing then ''/'' else [])"

lemma canonicalize_canon_of:
  assumes ps: "list_all normal_part ps" and ne: "canon_of ps t \<noteq> []"
  shows "canonicalize_path (canon_of ps t) = canon_of ps t"
proof -
  have split: "str_split (CHR ''/'') (slashed ps) = [] # ps"
    using str_split_slashed [OF ps, of "[]"] by simp
  have "canon_parts [] (str_split (CHR ''/'') (canon_of ps t)) = ps"
  proof (cases t)
    case True
    then have "str_split (CHR ''/'') (canon_of ps t) = str_split (CHR ''/'') (slashed ps) @ [[]]"
      using str_split_append [of "CHR ''/''" "slashed ps" "[]"] by (simp add: canon_of_def)
    then show ?thesis using split canon_parts_id [OF ps] by (simp add: canon_parts_snoc_empty)
  next
    case False
    then show ?thesis using split canon_parts_id [OF ps] by (simp add: canon_of_def)
  qed
  moreover have "last (canon_of ps t) = CHR ''/'' \<longleftrightarrow> t"
    using last_slashed [OF ps] ne by (cases "ps = []") (auto simp: canon_of_def)
  ultimately show ?thesis
    using ne unfolding canonicalize_path_def by (simp add: canon_of_def Let_def)
qed

lemma canonicalize_path_form:
  obtains ps t where "list_all normal_part ps" and "canonicalize_path p = canon_of ps t"
proof (cases "p = []")
  case True
  then have "canonicalize_path p = canon_of [] True" by (simp add: canonicalize_path_def canon_of_def)
  then show ?thesis using that [of "[]" True] by simp
next
  case False
  have "list_all normal_part (canon_parts [] (str_split (CHR ''/'') p))"
    by (rule canon_parts_normal) (auto simp: list_all_iff dest: str_split_parts)
  then show ?thesis
    using that [of _ "last p = CHR ''/''"] False by (simp add: canonicalize_path_def canon_of_def Let_def)
qed

text \<open>
  A canonical path is a sequence of slash-separated parts none of which is empty, a dot or
  two dots, so it cannot climb above its root, with at most one trailing slash.
\<close>

theorem canonicalize_path_normal:
  "\<exists>ps t. list_all normal_part ps \<and> canonicalize_path p = canon_of ps t"
  by (rule canonicalize_path_form [of p]) blast

text \<open>
  Canonicalising a path again changes nothing, except that a path whose parts all cancel,
  for which the code returns the empty text, becomes the root.
\<close>

theorem canonicalize_path_idem:
  "canonicalize_path (canonicalize_path p) =
     (if canonicalize_path p = [] then ''/'' else canonicalize_path p)"
proof (cases "canonicalize_path p = []")
  case True
  then show ?thesis by (simp add: canonicalize_path_def)
next
  case False
  obtain ps t where "list_all normal_part ps" and "canonicalize_path p = canon_of ps t"
    by (rule canonicalize_path_form)
  with False show ?thesis by (metis canonicalize_canon_of)
qed

text \<open>A canonical path minus its leading slash, which is what the parser stores, has the same canonical form.\<close>

lemma canonicalize_tl:
  assumes "canonicalize_path p \<noteq> []"
  shows "canonicalize_path (tl (canonicalize_path p)) = canonicalize_path p"
    and "hd (canonicalize_path p) = CHR ''/''"
proof -
  obtain ps t where ps: "list_all normal_part ps" and c: "canonicalize_path p = canon_of ps t"
    by (rule canonicalize_path_form)
  have hd_eq: "canon_of ps t = CHR ''/'' # tl (canon_of ps t)"
    using assms c by (cases ps) (auto simp: canon_of_def split: if_splits)
  then show "hd (canonicalize_path p) = CHR ''/''" using c by (metis list.sel(1))
  show "canonicalize_path (tl (canonicalize_path p)) = canonicalize_path p"
  proof (cases "tl (canon_of ps t) = []")
    case True
    with hd_eq c show ?thesis by (simp add: canonicalize_path_def)
  next
    case False
    have "str_split (CHR ''/'') (canon_of ps t) = [] # str_split (CHR ''/'') (tl (canon_of ps t))"
      by (subst hd_eq) simp
    then have "canon_parts [] (str_split (CHR ''/'') (tl (canon_of ps t)))
        = canon_parts [] (str_split (CHR ''/'') (canon_of ps t))" by simp
    moreover have "last (tl (canon_of ps t)) = last (canon_of ps t)"
      by (subst (2) hd_eq) (use False in simp)
    moreover have "canonicalize_path (canon_of ps t) = canon_of ps t"
      using canonicalize_canon_of [OF ps] assms c by simp
    ultimately show ?thesis
      using False c assms by (simp add: canonicalize_path_def Let_def)
  qed
qed

lemma set_slashed: "set (slashed ps) \<subseteq> insert (CHR ''/'') (\<Union> (set ` set ps))"
  by (induction ps) auto

lemma canonicalize_path_chars: "c \<in> set (canonicalize_path p) \<Longrightarrow> c = CHR ''/'' \<or> c \<in> set p"
proof -
  have mem: "q \<in> set (canon_parts before rest) \<Longrightarrow> q \<in> set before \<or> q \<in> set rest" for q before rest
    by (induction before rest rule: canon_parts.induct) (auto split: if_splits dest: in_set_butlastD)
  assume "c \<in> set (canonicalize_path p)"
  then show ?thesis
    by (auto simp: canonicalize_path_def Let_def split: if_splits
        dest!: subsetD [OF set_slashed] mem intro: str_split_chars)
qed

text \<open>
  Popping a path undoes pushing a part that holds no slash, and the pushed part is the leaf.
\<close>

theorem path_pop_push:
  assumes "u_path u \<noteq> []" and "CHR ''/'' \<notin> set part"
  shows "uri_path_pop (uri_path_push part u) = u \<and> uri_leaf (uri_path_push part u) = part"
proof -
  have "str_rfind_if (\<lambda>c. c = CHR ''/'') (u_path u @ CHR ''/'' # part) = Some (length (u_path u))"
    using assms(2) by (intro str_rfind_if_snoc) auto
  with assms(1) show ?thesis
    by (simp add: uri_path_push_def uri_path_pop_def uri_leaf_def uri_set_path_def)
qed

theorem path_pop_push_witness:
  "uri_path_pop (uri_path_push ''st-1'' (new_uri\<lparr>u_path := ''v1/status''\<rparr>)) = new_uri\<lparr>u_path := ''v1/status''\<rparr>
   \<and> uri_leaf (uri_path_push ''st-1'' (new_uri\<lparr>u_path := ''v1/status''\<rparr>)) = ''st-1''"
  by (rule path_pop_push) simp_all

section \<open>Parsing and printing: lemmas\<close>

text \<open>The attributes of an HTTP URI whose canonical form can be read back.\<close>

definition clean_of :: "char list \<Rightarrow> string \<Rightarrow> bool" where
  "clean_of bad s \<longleftrightarrow> list_all (\<lambda>c. c \<notin> set bad) s"

definition wf_httpx :: "uri \<Rightarrow> bool" where
  "wf_httpx u \<longleftrightarrow> uri_is_httpx u
     \<and> clean_of '':@/?#'' (u_username u) \<and> clean_of ''@/?#'' (u_password u)
     \<and> (u_username u = [] \<longrightarrow> u_password u = [])
     \<and> u_hostname u \<noteq> [] \<and> clean_of '':@/?#'' (u_hostname u) \<and> str_tolower (u_hostname u) = u_hostname u
     \<and> u_port u \<noteq> 0 \<and> clean_of ''?#'' (u_path u) \<and> clean_of ''#'' (u_query u)"

lemma clean_of_set: "clean_of bad s \<Longrightarrow> c \<in> set bad \<Longrightarrow> c \<notin> set s"
  by (auto simp: clean_of_def list_all_iff)

lemma wf_httpx_parts:
  assumes "wf_httpx u"
  shows "clean_of '':@/?#'' (u_username u)" and "clean_of ''@/?#'' (u_password u)"
    and "clean_of '':@/?#'' (u_hostname u)" and "clean_of ''?#'' (u_path u)" and "clean_of ''#'' (u_query u)"
    and "str_tolower (u_hostname u) = u_hostname u" and "uri_is_httpx u" and "u_hostname u \<noteq> []"
    and "u_port u \<noteq> 0"
  using assms unfolding wf_httpx_def by blast+

lemma wf_httpx_chars:
  assumes "wf_httpx u"
  shows "CHR '':'' \<notin> set (u_username u)" and "CHR ''@'' \<notin> set (u_username u)"
    and "CHR ''@'' \<notin> set (u_password u)" and "CHR '':'' \<notin> set (u_hostname u)"
    and "CHR ''#'' \<notin> set (u_query u)"
  by (rule clean_of_set [OF wf_httpx_parts(1) [OF assms]], simp)
    (rule clean_of_set [OF wf_httpx_parts(1) [OF assms]], simp,
     rule clean_of_set [OF wf_httpx_parts(2) [OF assms]], simp,
     rule clean_of_set [OF wf_httpx_parts(3) [OF assms]], simp,
     rule clean_of_set [OF wf_httpx_parts(5) [OF assms]], simp)

lemma find_char_at: "x \<notin> set s \<Longrightarrow> str_find_if (\<lambda>c. c = x) (s @ x # t) = Some (length s)"
  by (induction s) auto

lemma find_char_None: "x \<notin> set s \<Longrightarrow> str_find_if (\<lambda>c. c = x) s = None"
  by (auto simp: str_find_if_None)

lemma require_httpx_ok [simp]: "uri_is_httpx u \<Longrightarrow> require_httpx n u = (Inr (), u)"
  by (auto simp: require_httpx_def uri_is_httpx_def uri_is_http_def uri_is_https_def)

lemma uri_is_httpx_update [simp]:
  "uri_is_httpx (u\<lparr>u_username := x\<rparr>) = uri_is_httpx u" "uri_is_httpx (u\<lparr>u_password := x\<rparr>) = uri_is_httpx u"
  "uri_is_httpx (u\<lparr>u_hostname := x\<rparr>) = uri_is_httpx u" "uri_is_httpx (u\<lparr>u_path := x\<rparr>) = uri_is_httpx u"
  "uri_is_httpx (u\<lparr>u_query := x\<rparr>) = uri_is_httpx u" "uri_is_httpx (u\<lparr>u_fragment := x\<rparr>) = uri_is_httpx u"
  "uri_is_httpx (u\<lparr>u_port := p\<rparr>) = uri_is_httpx u" "uri_is_httpx (u\<lparr>u_uristr := x\<rparr>) = uri_is_httpx u"
  by (simp_all add: uri_is_httpx_def uri_is_http_def uri_is_https_def)

lemma httpx_setters [simp]:
  assumes "uri_is_httpx u"
  shows "uri_set_username x u = (Inr (), u\<lparr>u_username := x\<rparr>)"
    and "uri_set_password x u = (Inr (), u\<lparr>u_password := x\<rparr>)"
    and "uri_set_hostname x u = (Inr (), u\<lparr>u_hostname := str_tolower x\<rparr>)"
    and "uri_set_port p u = (Inr (), u\<lparr>u_port := p\<rparr>)"
    and "uri_set_query x u = (Inr (), u\<lparr>u_query := x\<rparr>)"
    and "uri_set_fragment x u = (Inr (), u\<lparr>u_fragment := x\<rparr>)"
  using assms
  by (simp_all add: uri_set_username_def uri_set_password_def uri_set_hostname_def uri_set_port_def
      uri_set_query_def uri_set_fragment_def sx_defs)

definition userinfo_text :: "uri \<Rightarrow> string" where
  "userinfo_text u = (if u_username u \<noteq> []
     then u_username u @ (if u_password u \<noteq> [] then '':'' @ u_password u else []) @ ''@'' else [])"

definition at_default_port :: "uri \<Rightarrow> bool" where
  "at_default_port u \<longleftrightarrow> (uri_is_http u \<and> u_port u = 80) \<or> (uri_is_https u \<and> u_port u = 443)"

definition hostport_text :: "uri \<Rightarrow> string" where
  "hostport_text u = u_hostname u @ (if at_default_port u then [] else '':'' @ int_dec (u_port u))"

lemma uri_authority_text:
  assumes "uri_is_httpx u"
  shows "uri_authority u = Inr (userinfo_text u @ hostport_text u)"
proof -
  have "u_scheme u \<noteq> ''file''"
    using assms by (auto simp: uri_is_httpx_def uri_is_http_def uri_is_https_def)
  with assms show ?thesis
    by (auto simp: uri_authority_def uri_hostport_def uri_hostname_def uri_port_def httpx_get_def
        userinfo_text_def hostport_text_def at_default_port_def uri_is_http_def uri_is_https_def)
qed

text \<open>Writing back the value an attribute already has changes nothing, also below a later update.\<close>

lemma uri_keep:
  "u_password st = x \<Longrightarrow> st\<lparr>u_username := y, u_password := x\<rparr> = st\<lparr>u_username := y\<rparr>"
  "u_query st = x \<Longrightarrow> st\<lparr>u_query := x, u_fragment := y\<rparr> = st\<lparr>u_fragment := y\<rparr>"
  "u_fragment st = x \<Longrightarrow> st\<lparr>u_fragment := x\<rparr> = st"
  by (cases st, simp)+

lemma parse_userinfo_at:
  assumes "uri_is_httpx st" and "CHR ''@'' \<notin> set info"
  shows "parse_userinfo (info @ CHR ''@'' # hp) st =
    (Inr hp, case str_find_if (\<lambda>c. c = CHR '':'') info of
        None \<Rightarrow> st\<lparr>u_username := info\<rparr>
      | Some p \<Rightarrow> st\<lparr>u_username := take p info, u_password := drop (p + 1) info\<rparr>)"
  using assms(1)
  by (simp add: parse_userinfo_def find_char_at [OF assms(2)] sx_defs split: option.split)

lemma parse_userinfo_text:
  assumes x: "uri_is_httpx st" and wf: "wf_httpx u" and hp: "clean_of ''@'' hp"
    and st: "u_username st = []" "u_password st = []"
  shows "parse_userinfo (userinfo_text u @ hp) st =
    (Inr hp, st\<lparr>u_username := u_username u, u_password := u_password u\<rparr>)"
proof (cases "u_username u = []")
  case True
  with hp have "str_find_if (\<lambda>c. c = CHR ''@'') (userinfo_text u @ hp) = None"
    by (auto simp: userinfo_text_def str_find_if_None clean_of_def list_all_iff)
  with True st wf show ?thesis
    by (simp add: parse_userinfo_def sx_defs userinfo_text_def wf_httpx_def)
next
  case False
  have at: "CHR ''@'' \<notin> set (u_username u)" "CHR ''@'' \<notin> set (u_password u)"
    and un: "CHR '':'' \<notin> set (u_username u)"
    by (simp_all add: wf_httpx_chars [OF wf])
  show ?thesis
  proof (cases "u_password u = []")
    case True
    have "userinfo_text u @ hp = u_username u @ CHR ''@'' # hp"
      using False True by (simp add: userinfo_text_def)
    then have "parse_userinfo (userinfo_text u @ hp) st = (Inr hp, st\<lparr>u_username := u_username u\<rparr>)"
      using parse_userinfo_at [OF x at(1), of hp] find_char_None [OF un] by simp
    also have "st\<lparr>u_username := u_username u\<rparr> = st\<lparr>u_username := u_username u, u_password := u_password u\<rparr>"
      by (rule uri_keep(1) [symmetric]) (simp add: True st)
    finally show ?thesis .
  next
    case pw: False
    have "CHR ''@'' \<notin> set (u_username u @ CHR '':'' # u_password u)" using at by simp
    from parse_userinfo_at [OF x this, of hp] find_char_at [OF un, of "u_password u"] False pw
    show ?thesis by (simp add: userinfo_text_def)
  qed
qed

lemma parse_hostport_text:
  assumes x: "uri_is_httpx st" and wf: "wf_httpx u"
  shows "parse_hostport (hostport_text u) st =
    (Inr (), st\<lparr>u_hostname := u_hostname u, u_port := (if at_default_port u then u_port st else u_port u)\<rparr>)"
proof -
  note h = wf_httpx_chars(4) [OF wf]
  have low: "str_tolower (u_hostname u) = u_hostname u" using wf unfolding wf_httpx_def by blast
  have "c_str (int_dec (u_port u)) = int_dec (u_port u)"
    using int_dec_chars by (fastforce simp: c_str_def takeWhile_eq_all_conv is_digit_def)
  then show ?thesis
    using x h low find_char_at [OF h, of "int_dec (u_port u)"] find_char_None [OF h]
    by (cases "at_default_port u") (simp_all add: parse_hostport_def hostport_text_def sx_defs)
qed

lemma parse_query_fragment_hash:
  assumes "uri_is_httpx st" and "CHR ''#'' \<notin> set s"
  shows "parse_query_fragment (s @ CHR ''#'' # f) st = parse_query_fragment s (st\<lparr>u_fragment := f\<rparr>)"
  using assms(1)
  by (simp add: parse_query_fragment_def find_char_at [OF assms(2)] find_char_None [OF assms(2)] sx_defs)

lemma parse_query_fragment_quest:
  assumes "uri_is_httpx st" and "CHR ''#'' \<notin> set s" and "CHR ''?'' \<notin> set s" and "CHR ''#'' \<notin> set q"
  shows "parse_query_fragment (s @ CHR ''?'' # q) st = (Inr s, st\<lparr>u_query := q\<rparr>)"
proof -
  have "CHR ''#'' \<notin> set (s @ CHR ''?'' # q)" using assms(2,4) by simp
  from find_char_None [OF this] assms(1) find_char_at [OF assms(3), of q] show ?thesis
    by (simp add: parse_query_fragment_def sx_defs)
qed

lemma parse_query_fragment_plain:
  "CHR ''#'' \<notin> set s \<Longrightarrow> CHR ''?'' \<notin> set s \<Longrightarrow> parse_query_fragment s st = (Inr s, st)"
  by (simp add: parse_query_fragment_def find_char_None sx_defs)

lemma parse_query_fragment_text:
  assumes x: "uri_is_httpx st" and wf: "wf_httpx u" and p: "clean_of ''?#'' p"
    and st: "u_query st = []" "u_fragment st = []"
  shows "parse_query_fragment (p @ query_part u @ fragment_part u) st =
    (Inr p, st\<lparr>u_query := u_query u, u_fragment := u_fragment u\<rparr>)"
proof -
  have p': "CHR ''#'' \<notin> set p" "CHR ''?'' \<notin> set p" and q: "CHR ''#'' \<notin> set (u_query u)"
    by (simp_all add: clean_of_set [OF p] wf_httpx_chars [OF wf])
  then have h: "CHR ''#'' \<notin> set (p @ query_part u)" by (simp add: query_part_def)
  have "parse_query_fragment (p @ query_part u @ fragment_part u) st =
      parse_query_fragment (p @ query_part u) (st\<lparr>u_fragment := u_fragment u\<rparr>)"
    using parse_query_fragment_hash [OF x h, of "u_fragment u"] uri_keep(3) [OF st(2)]
    by (cases "u_fragment u = []") (simp_all add: fragment_part_def)
  also have "\<dots> = (Inr p, st\<lparr>u_query := u_query u, u_fragment := u_fragment u\<rparr>)"
  proof (cases "u_query u = []")
    case True
    then have "parse_query_fragment (p @ query_part u) (st\<lparr>u_fragment := u_fragment u\<rparr>)
        = (Inr p, st\<lparr>u_fragment := u_fragment u\<rparr>)"
      using parse_query_fragment_plain [OF p'] by (simp add: query_part_def)
    moreover have "st\<lparr>u_query := u_query u, u_fragment := u_fragment u\<rparr> = st\<lparr>u_fragment := u_fragment u\<rparr>"
      by (rule uri_keep(2)) (simp add: True st)
    ultimately show ?thesis by (simp only:)
  next
    case False
    then show ?thesis
      using parse_query_fragment_quest [OF _ p' q, of "st\<lparr>u_fragment := u_fragment u\<rparr>"] x
      by (simp add: query_part_def)
  qed
  finally show ?thesis .
qed


text \<open>The text of the parts before the path ends at the path's slash, the first of the three separators.\<close>

lemma authority_text_chars:
  assumes "wf_httpx u" and "c \<in> {CHR ''/'', CHR ''?'', CHR ''#''}"
  shows "c \<notin> set (userinfo_text u @ hostport_text u)"
proof -
  have "c \<notin> set (int_dec (u_port u))"
    using int_dec_chars [of c "u_port u"] assms(2) by (auto simp: is_digit_def)
  moreover have "c \<notin> set (u_username u)" "c \<notin> set (u_password u)" "c \<notin> set (u_hostname u)"
    using clean_of_set [OF wf_httpx_parts(1) [OF assms(1)]] clean_of_set [OF wf_httpx_parts(2) [OF assms(1)]]
      clean_of_set [OF wf_httpx_parts(3) [OF assms(1)]] assms(2) by auto
  ultimately show ?thesis using assms(2) by (auto simp: userinfo_text_def hostport_text_def)
qed

lemma parse_authority_text:
  assumes x: "uri_is_httpx st" and wf: "wf_httpx u" and st: "u_username st = []" "u_password st = []"
  shows "parse_authority (userinfo_text u @ hostport_text u) st =
    (Inr (), st\<lparr>u_username := u_username u, u_password := u_password u, u_hostname := u_hostname u,
       u_port := (if at_default_port u then u_port st else u_port u)\<rparr>)"
proof -
  have "CHR ''@'' \<notin> set (u_hostname u)"
    by (rule clean_of_set [OF wf_httpx_parts(3) [OF wf]]) simp
  then have hp: "clean_of ''@'' (hostport_text u)"
    using int_dec_chars [of "CHR ''@''" "u_port u"]
    by (auto simp: clean_of_def list_all_iff hostport_text_def is_digit_def)
  have "userinfo_text u @ hostport_text u \<noteq> []"
    using wf by (simp add: hostport_text_def wf_httpx_def)
  with parse_userinfo_text [OF x wf hp st]
    parse_hostport_text [OF _ wf, of "st\<lparr>u_username := u_username u, u_password := u_password u\<rparr>"] x
  show ?thesis by (simp add: parse_authority_def sx_defs)
qed

lemma default_port_text:
  assumes "uri_is_httpx st" and "u_scheme st = u_scheme u" and "u_port u \<noteq> 0"
    and "u_port st = (if at_default_port u then 0 else u_port u)"
  shows "default_port st = (Inr (), st\<lparr>u_port := u_port u\<rparr>)"
proof -
  have "st\<lparr>u_port := u_port st\<rparr> = st" by simp
  with assms show ?thesis
    by (auto simp: default_port_def at_default_port_def uri_is_http_def uri_is_https_def
        uri_is_httpx_def uri_set_port_def require_httpx_def sx_defs split: if_splits)
qed

lemma str_find_scheme:
  assumes "uri_is_httpx u"
  shows "str_find ''://'' (u_scheme u @ ''://'' @ s) = Some (length (u_scheme u))"
    and "str_tolower (u_scheme u) = u_scheme u" and "u_scheme u \<noteq> ''file''"
proof -
  from assms consider (http) "u_scheme u = ''http''" | (https) "u_scheme u = ''https''"
    by (auto simp: uri_is_httpx_def uri_is_http_def uri_is_https_def)
  then have "str_find ''://'' (u_scheme u @ ''://'' @ s) = Some (length (u_scheme u))
      \<and> str_tolower (u_scheme u) = u_scheme u \<and> u_scheme u \<noteq> ''file''"
    by cases (simp_all add: str_tolower_def char_tolower_def is_upper_def)
  then show "str_find ''://'' (u_scheme u @ ''://'' @ s) = Some (length (u_scheme u))"
    and "str_tolower (u_scheme u) = u_scheme u" and "u_scheme u \<noteq> ''file''" by blast+
qed

lemma parse_uristr_text:
  assumes wf: "wf_httpx u" and p: "clean_of ''?#'' p"
    and st: "u_username st = []" "u_password st = []" "u_query st = []" "u_fragment st = []"
  shows "parse_uristr (u_scheme u @ ''://'' @ (userinfo_text u @ hostport_text u) @ CHR ''/'' #
      p @ query_part u @ fragment_part u) st = (Inr (), u\<lparr>u_uristr := u_uristr st, u_path := p\<rparr>)"
    (is "parse_uristr (_ @ _ @ ?a @ _ # ?rest) _ = _")
proof -
  note x = wf_httpx_parts(7) [OF wf]
  let ?sep = "\<lambda>c. c \<in> {CHR ''/'', CHR ''?'', CHR ''#''}"
  let ?s1 = "st\<lparr>u_port := 0, u_scheme := u_scheme u\<rparr>"
  have s1: "uri_is_httpx ?s1" and s1': "uri_is_httpx (st\<lparr>u_scheme := u_scheme u\<rparr>)"
    using x by (simp_all add: uri_is_httpx_def uri_is_http_def uri_is_https_def)
  have sep: "str_find_if ?sep (?a @ CHR ''/'' # ?rest) = Some (length ?a)"
    using authority_text_chars [OF wf] by (subst str_find_if_append) auto
  let ?s2 = "?s1\<lparr>u_username := u_username u, u_password := u_password u, u_hostname := u_hostname u,
       u_port := (if at_default_port u then 0 else u_port u)\<rparr>"
  have auth: "parse_authority ?a ?s1 = (Inr (), ?s2)"
    using parse_authority_text [OF s1 wf] st by simp
  let ?s3 = "?s2\<lparr>u_query := u_query u, u_fragment := u_fragment u\<rparr>"
  have s2: "uri_is_httpx ?s2" using s1' by simp
  have qf: "parse_query_fragment ?rest ?s2 = (Inr p, ?s3)"
    by (rule parse_query_fragment_text [OF s2 wf p]) (simp_all add: st)
  have s3: "uri_is_httpx ?s3" using s1' by simp
  have port: "default_port ?s3 = (Inr (), ?s3\<lparr>u_port := u_port u\<rparr>)"
    by (rule default_port_text [OF s3]) (simp_all add: wf_httpx_parts(9) [OF wf])
  have scheme: "uri_set_scheme (u_scheme u) (st\<lparr>u_port := 0\<rparr>) = (Inr (), ?s1)"
    using x str_find_scheme(2) [OF x]
    by (auto simp: uri_set_scheme_def sx_defs uri_is_httpx_def uri_is_http_def uri_is_https_def)
  have "u\<lparr>u_uristr := u_uristr st, u_path := p\<rparr> = uri_set_path p (?s3\<lparr>u_port := u_port u\<rparr>)"
    by (cases u, cases st) (simp add: uri_set_path_def)
  with scheme str_find_scheme [OF x] sep auth qf port show ?thesis
    by (simp add: parse_uristr_def sx_defs del: insert_iff)
qed

lemma canonical_text:
  assumes wf: "wf_httpx u" and ne: "uri_canonical_path u \<noteq> []" and c: "uri_canonical u = Inr c"
  shows "c = u_scheme u @ ''://'' @ (userinfo_text u @ hostport_text u) @ CHR ''/'' #
      tl (uri_canonical_path u) @ query_part u @ fragment_part u"
    and "clean_of ''?#'' (tl (uri_canonical_path u))"
proof -
  let ?p = "tl (uri_canonical_path u)"
  have cp: "uri_canonical_path u = CHR ''/'' # ?p"
    using canonicalize_tl(2) [of "u_path u"] ne by (cases "uri_canonical_path u") (auto simp: uri_canonical_path_def)
  show "c = u_scheme u @ ''://'' @ (userinfo_text u @ hostport_text u) @ CHR ''/'' #
      ?p @ query_part u @ fragment_part u"
    using c uri_authority_text [OF wf_httpx_parts(7) [OF wf]] by (subst (asm) uri_canonical_def, subst (asm) cp) simp
  show "clean_of ''?#'' ?p"
    unfolding clean_of_def list_all_iff
  proof (intro ballI)
    fix d assume "d \<in> set ?p"
    then have "d \<in> set (uri_canonical_path u)" by (cases "uri_canonical_path u") auto
    then have "d = CHR ''/'' \<or> d \<in> set (u_path u)"
      unfolding uri_canonical_path_def by (rule canonicalize_path_chars)
    then show "d \<notin> set ''?#''"
      using clean_of_set [OF wf_httpx_parts(4) [OF wf]] by auto
  qed
qed

lemma canonical_parse:
  assumes wf: "wf_httpx u" and ne: "uri_canonical_path u \<noteq> []" and c: "uri_canonical u = Inr c"
  shows "Uri c = Inr (u\<lparr>u_uristr := c, u_path := tl (uri_canonical_path u)\<rparr>)"
    and "uri_canonical (u\<lparr>u_uristr := c, u_path := tl (uri_canonical_path u)\<rparr>) = Inr c"
proof -
  note text_c = canonical_text [OF assms]
  show "Uri c = Inr (u\<lparr>u_uristr := c, u_path := tl (uri_canonical_path u)\<rparr>)"
    using parse_uristr_text [OF wf text_c(2), of "new_uri\<lparr>u_uristr := c\<rparr>"] text_c(1)
    by (simp add: Uri_def new_uri_def)
  have "uri_canonical (u\<lparr>u_uristr := c, u_path := tl (uri_canonical_path u)\<rparr>) = uri_canonical u"
    using canonicalize_tl(1) [of "u_path u"] ne wf_httpx_parts(7) [OF wf]
    by (simp add: uri_canonical_def uri_authority_text uri_canonical_path_def query_part_def fragment_part_def
        userinfo_text_def hostport_text_def at_default_port_def uri_is_http_def uri_is_https_def)
  with c show "uri_canonical (u\<lparr>u_uristr := c, u_path := tl (uri_canonical_path u)\<rparr>) = Inr c" by simp
qed



section \<open>What a parse establishes\<close>

definition supported_scheme :: "string \<Rightarrow> bool" where
  "supported_scheme s \<longleftrightarrow> s = ''file'' \<or> s = ''http'' \<or> s = ''https''"

definition is_separator :: "char \<Rightarrow> bool" where
  "is_separator c \<longleftrightarrow> c \<in> {CHR ''/'', CHR ''?'', CHR ''#''}"

text \<open>The shape every parsed URI has.\<close>

definition parsed_ok :: "uri \<Rightarrow> bool" where
  "parsed_ok u \<longleftrightarrow> supported_scheme (u_scheme u)
     \<and> (if u_scheme u = ''file''
        then u_hostname u = [] \<and> u_username u = [] \<and> u_password u = [] \<and> u_query u = [] \<and> u_fragment u = []
        else u_port u \<noteq> 0 \<and> str_tolower (u_hostname u) = u_hostname u
           \<and> clean_of ''?#'' (u_path u) \<and> clean_of ''#'' (u_query u))"

text \<open>What the parts of the parser compute on an HTTP URI: none of them fails.\<close>

lemma parse_userinfo_eval:
  assumes "uri_is_httpx st"
  shows "parse_userinfo a st = (case str_find_if (\<lambda>c. c = CHR ''@'') a of
      None \<Rightarrow> (Inr a, st)
    | Some pos \<Rightarrow> (Inr (drop (pos + 1) a), case str_find_if (\<lambda>c. c = CHR '':'') (take pos a) of
        None \<Rightarrow> st\<lparr>u_username := take pos a\<rparr>
      | Some p \<Rightarrow> st\<lparr>u_username := take p (take pos a), u_password := drop (p + 1) (take pos a)\<rparr>))"
  using assms by (simp add: parse_userinfo_def sx_defs split: option.split)

lemma parse_query_fragment_eval:
  assumes "uri_is_httpx st"
  shows "parse_query_fragment s st =
    (let (s1, st1) = (case str_find_if (\<lambda>c. c = CHR ''#'') s of
            None \<Rightarrow> (s, st) | Some pos \<Rightarrow> (take pos s, st\<lparr>u_fragment := drop (pos + 1) s\<rparr>))
     in case str_find_if (\<lambda>c. c = CHR ''?'') s1 of
          None \<Rightarrow> (Inr s1, st1) | Some pos \<Rightarrow> (Inr (take pos s1), st1\<lparr>u_query := drop (pos + 1) s1\<rparr>))"
  using assms by (simp add: parse_query_fragment_def sx_defs split: option.split)

text \<open>Splitting at the first occurrence of a character leaves none of it before the cut.\<close>

lemma find_cut:
  "(case str_find_if (\<lambda>c. c = x) s of None \<Rightarrow> x \<notin> set s | Some pos \<Rightarrow> x \<notin> set (take pos s))"
  using str_find_if_Some [of "\<lambda>c. c = x" s] str_find_if_None [of "\<lambda>c. c = x" s]
  by (cases "str_find_if (\<lambda>c. c = x) s") auto

lemma parse_authority_ok:
  assumes x: "uri_is_httpx st" and ne: "a \<noteq> []"
  shows "\<exists>st'. parse_authority a st = (Inr (), st') \<and> uri_is_httpx st' \<and> u_scheme st' = u_scheme st
    \<and> str_tolower (u_hostname st') = u_hostname st' \<and> u_query st' = u_query st"
proof -
  have "\<exists>hp st1. parse_userinfo a st = (Inr hp, st1) \<and> uri_is_httpx st1 \<and> u_scheme st1 = u_scheme st
      \<and> u_query st1 = u_query st"
    using x by (simp add: parse_userinfo_eval [OF x] split: option.split)
  then obtain hp st1 where 1: "parse_userinfo a st = (Inr hp, st1)" "uri_is_httpx st1"
      "u_scheme st1 = u_scheme st" "u_query st1 = u_query st" by blast
  then have "\<exists>st2. parse_hostport hp st1 = (Inr (), st2) \<and> uri_is_httpx st2 \<and> u_scheme st2 = u_scheme st
      \<and> str_tolower (u_hostname st2) = u_hostname st2 \<and> u_query st2 = u_query st"
    by (cases "str_find_if (\<lambda>c. c = CHR '':'') hp") (simp_all add: parse_hostport_def sx_defs)
  with 1 ne show ?thesis by (auto simp: parse_authority_def sx_defs)
qed

lemma parse_query_fragment_ok:
  assumes x: "uri_is_httpx st" and q: "u_query st = []"
  shows "\<exists>p st'. parse_query_fragment s st = (Inr p, st') \<and> uri_is_httpx st' \<and> u_scheme st' = u_scheme st
    \<and> u_hostname st' = u_hostname st \<and> clean_of ''?#'' p \<and> clean_of ''#'' (u_query st')"
proof -
  let ?c = "case str_find_if (\<lambda>c. c = CHR ''#'') s of
      None \<Rightarrow> (s, st) | Some pos \<Rightarrow> (take pos s, st\<lparr>u_fragment := drop (pos + 1) s\<rparr>)"
  obtain s1 st1 where c: "?c = (s1, st1)" by (cases ?c)
  have hash: "CHR ''#'' \<notin> set s1"
    using find_cut [of "CHR ''#''" s] c by (auto split: option.splits)
  have st1: "uri_is_httpx st1 \<and> u_scheme st1 = u_scheme st \<and> u_hostname st1 = u_hostname st \<and> u_query st1 = []"
    using c x q by (auto split: option.splits)
  have eval: "parse_query_fragment s st = (case str_find_if (\<lambda>c. c = CHR ''?'') s1 of
      None \<Rightarrow> (Inr s1, st1) | Some pos \<Rightarrow> (Inr (take pos s1), st1\<lparr>u_query := drop (pos + 1) s1\<rparr>))"
    by (simp add: parse_query_fragment_eval [OF x] c)
  have cut: "CHR ''#'' \<notin> set (take n s1)" "CHR ''#'' \<notin> set (drop n s1)" for n
    using hash by (auto dest: in_set_takeD in_set_dropD)
  have clean: "clean_of ''?#'' t \<longleftrightarrow> CHR ''?'' \<notin> set t \<and> CHR ''#'' \<notin> set t"
    "clean_of ''#'' t \<longleftrightarrow> CHR ''#'' \<notin> set t" for t
    by (auto simp: clean_of_def list_all_iff)
  show ?thesis
    using find_cut [of "CHR ''?''" s1] st1 hash cut
    by (cases "str_find_if (\<lambda>c. c = CHR ''?'') s1") (simp_all add: eval clean)
qed

lemma default_port_ok:
  assumes "uri_is_httpx st"
  shows "\<exists>p. default_port st = (Inr (), st\<lparr>u_port := p\<rparr>) \<and> p \<noteq> 0"
proof (cases "u_port st = 0")
  case True
  with assms show ?thesis
    by (intro exI [of _ "if uri_is_http st then 80 else 443"])
      (auto simp: default_port_def sx_defs uri_is_httpx_def uri_is_http_def uri_is_https_def
        uri_set_port_def require_httpx_def)
next
  case False
  then show ?thesis by (intro exI [of _ "u_port st"]) (simp add: default_port_def)
qed

lemma find_take:
  "(case str_find_if P s of None \<Rightarrow> s | Some p \<Rightarrow> take p s) = takeWhile (\<lambda>c. \<not> P c) s"
  by (induction s) (auto split: option.splits)

definition uri_authority_of :: "string \<Rightarrow> string" where
  "uri_authority_of rest = takeWhile (\<lambda>c. \<not> is_separator c) rest"

lemma parse_uristr_httpx:
  assumes "str_find ''://'' s = Some pos" and sch: "str_tolower (take pos s) \<in> {''http'', ''https''}"
    and q: "u_query st = []"
  shows "if uri_authority_of (drop (pos + 3) s) = [] then \<exists>e st'. parse_uristr s st = (Inl e, st')
    else \<exists>st'. parse_uristr s st = (Inr (), st') \<and> parsed_ok st' \<and> u_scheme st' = str_tolower (take pos s)"
proof -
  let ?sep = "\<lambda>c. c \<in> {CHR ''/'', CHR ''?'', CHR ''#''}" and ?rest = "drop (pos + 3) s"
  let ?st1 = "st\<lparr>u_port := 0, u_scheme := str_tolower (take pos s)\<rparr>"
  let ?split = "case str_find_if ?sep ?rest of Some p \<Rightarrow> (take p ?rest, drop (p + 1) ?rest) | None \<Rightarrow> (?rest, [])"
  obtain a r where ar: "?split = (a, r)" by (cases ?split)
  have a: "a = uri_authority_of ?rest"
    using find_take [of ?rest ?sep] ar by (auto simp: uri_authority_of_def is_separator_def split: option.splits)
  have x: "uri_is_httpx ?st1" using sch by (auto simp: uri_is_httpx_def uri_is_http_def uri_is_https_def)
  have scheme: "uri_set_scheme (take pos s) (st\<lparr>u_port := 0\<rparr>) = (Inr (), ?st1)"
    using sch by (auto simp: uri_set_scheme_def sx_defs)
  have run: "parse_uristr s st = sx_then (parse_authority a) (sx_bind (parse_query_fragment r) (\<lambda>path.
      sx_then default_port (sx_modify (uri_set_path path)))) ?st1"
    unfolding parse_uristr_def assms(1) using scheme ar sch
    by (auto simp: sx_defs Let_def simp del: insert_iff)
  show ?thesis
  proof (cases "a = []")
    case True
    then have "\<exists>e st'. parse_authority a ?st1 = (Inl e, st')" by (simp add: parse_authority_def sx_defs)
    with run a True show ?thesis by (auto simp: sx_defs)
  next
    case False
    obtain st2 where 2: "parse_authority a ?st1 = (Inr (), st2)" "uri_is_httpx st2"
        "u_scheme st2 = str_tolower (take pos s)" "str_tolower (u_hostname st2) = u_hostname st2" "u_query st2 = []"
      using parse_authority_ok [OF x False] q by auto
    obtain p st3 where 3: "parse_query_fragment r st2 = (Inr p, st3)" "uri_is_httpx st3"
        "u_scheme st3 = u_scheme st2" "u_hostname st3 = u_hostname st2" "clean_of ''?#'' p"
        "clean_of ''#'' (u_query st3)"
      using parse_query_fragment_ok [OF 2(2,5)] by blast
    obtain pt where 4: "default_port st3 = (Inr (), st3\<lparr>u_port := pt\<rparr>)" "pt \<noteq> 0"
      using default_port_ok [OF 3(2)] by blast
    have "parse_uristr s st = (Inr (), uri_set_path p (st3\<lparr>u_port := pt\<rparr>))"
      using run 2(1) 3(1) 4(1) by (simp add: sx_defs)
    moreover have "parsed_ok (uri_set_path p (st3\<lparr>u_port := pt\<rparr>))"
      using 2 3 4 sch by (auto simp: parsed_ok_def uri_set_path_def supported_scheme_def)
    ultimately show ?thesis using a False 2(3) 3(3) by (simp add: uri_set_path_def)
  qed
qed

lemma parse_uristr_file:
  assumes "str_find ''://'' s = Some pos" and "str_tolower (take pos s) = ''file''"
  shows "parse_uristr s st = (Inr (), st\<lparr>u_port := 0, u_scheme := ''file'', u_path := drop (pos + 3) s\<rparr>)"
  using assms by (simp add: parse_uristr_def sx_defs uri_set_scheme_def uri_set_path_def)

lemma parse_uristr_bad:
  assumes "str_find ''://'' s = Some pos" and "\<not> supported_scheme (str_tolower (take pos s))"
  shows "\<exists>e st'. parse_uristr s st = (Inl e, st')"
  using assms by (simp add: parse_uristr_def sx_defs uri_set_scheme_def supported_scheme_def)

definition uri_scheme_of :: "string \<Rightarrow> string" where
  "uri_scheme_of s = (case str_find ''://'' s of None \<Rightarrow> [] | Some pos \<Rightarrow> str_tolower (take pos s))"

definition uri_parseable :: "string \<Rightarrow> bool" where
  "uri_parseable s = (case str_find ''://'' s of
     None \<Rightarrow> False
   | Some pos \<Rightarrow> supported_scheme (uri_scheme_of s)
       \<and> (uri_scheme_of s = ''file'' \<or> uri_authority_of (drop (pos + 3) s) \<noteq> []))"


text \<open>
  A query that follows the authority at once is lost: the parser drops whichever separator ended
  the authority, so what came after the question mark is taken for the path.
\<close>

theorem Uri_query_after_authority:
  "map_sum (\<lambda>_. ()) (\<lambda>u. (u_path u, u_query u)) (Uri ''http://h?q=1'') = Inr (''q=1'', [])"
  by code_simp

end
