(* ===== verification/GB_Json.thy ===== *)
theory GB_Json
  imports GB_Errors
begin

text \<open>
  \<^verbatim>\<open>core/Json.cc\<close>: the JSON value, its typed and keyed access, autovivification, comparison
  and copying. A \<^verbatim>\<open>Json\<close> object with the objects below it is one tree; where the code asks a node
  for its place in the document (\<^verbatim>\<open>context()\<close>, which follows the parent pointers), the model
  passes the path of the node. The type of doubles and the operations on them are a parameter.
\<close>

section \<open>Values\<close>

datatype 'd json =
    JUndef
  | JBool bool
  | JInt int
  | JDouble 'd
  | JString string
  | JObject "(string \<times> 'd json) list"
  | JArray "'d json list"

datatype json_type = Json_UNDEF | Json_BOOL | Json_INT | Json_DOUBLE | Json_STRING | Json_OBJECT | Json_ARRAY

primrec json_type_of :: "'d json \<Rightarrow> json_type" where
  "json_type_of JUndef = Json_UNDEF"
| "json_type_of (JBool b) = Json_BOOL"
| "json_type_of (JInt i) = Json_INT"
| "json_type_of (JDouble d) = Json_DOUBLE"
| "json_type_of (JString s) = Json_STRING"
| "json_type_of (JObject o') = Json_OBJECT"
| "json_type_of (JArray a) = Json_ARRAY"

primrec typeToName :: "json_type \<Rightarrow> string" where
  "typeToName Json_UNDEF = ''null''"
| "typeToName Json_BOOL = ''boolean''"
| "typeToName Json_INT = ''integer''"
| "typeToName Json_DOUBLE = ''double''"
| "typeToName Json_STRING = ''string''"
| "typeToName Json_OBJECT = ''object''"
| "typeToName Json_ARRAY = ''array''"

definition json_typeName :: "'d json \<Rightarrow> string" where
  "json_typeName j = typeToName (json_type_of j)"

text \<open>
  The callbacks of the yajl parser and the calls of the yajl generator are one alphabet: the text
  of a number, a string, a key or a bracket.
\<close>

datatype json_event =
    EvNull
  | EvBool bool
  | EvNumber string
  | EvString string
  | EvStartMap
  | EvMapKey string
  | EvEndMap
  | EvStartArray
  | EvEndArray

text \<open>
  What the code uses of doubles and of the libraries it calls: comparison, conversion from an
  integer, printing with 15 significant digits (\<^verbatim>\<open>"%.15g"\<close>, also the stream format at that
  precision) and reading of doubles; \<^verbatim>\<open>boost::regex_match\<close>, which throws on a bad pattern;
  \<^verbatim>\<open>inet_pton\<close>; the regular expression for URIs; yajl's lexer, as the callbacks it makes and the error
  it stops with, and yajl's printer.
\<close>

record 'd json_lib =
  d_eq :: "'d \<Rightarrow> 'd \<Rightarrow> bool"
  d_le :: "'d \<Rightarrow> 'd \<Rightarrow> bool"
  d_of_int :: "int \<Rightarrow> 'd"
  d_show :: "'d \<Rightarrow> string"
  d_read :: "string \<Rightarrow> 'd option"
  regex_match :: "string \<Rightarrow> string \<Rightarrow> gb_exn + bool"
  inet_pton4 :: "string \<Rightarrow> bool"
  inet_pton6 :: "string \<Rightarrow> bool"
  uri_regex :: "string \<Rightarrow> bool"
  yajl_lex :: "string \<Rightarrow> json_event list \<times> string option"
  yajl_print :: "json_event list \<Rightarrow> string"

section \<open>Errors and their place in the document\<close>

datatype json_step = Key string | Index nat

primrec step_text :: "json_step \<Rightarrow> string" where
  "step_text (Key k) = ''['' @ [CHR 0x22] @ k @ [CHR 0x22] @ '']''"
| "step_text (Index i) = ''['' @ nat_dec i @ '']''"

definition json_context :: "json_step list \<Rightarrow> string" where
  "json_context path = concat (map step_text path)"

text \<open>\<^verbatim>\<open>JsonError(ctx, msg)\<close>, thrown by the default handler \<^verbatim>\<open>onErrorThrow\<close>.\<close>

definition json_error_at :: "string \<Rightarrow> string \<Rightarrow> gb_exn" where
  "json_error_at ctx msg =
     JsonError (strlcpy (''Json Exception: '' @ msg @ (if ctx \<noteq> [] then '' at: '' @ ctx else [])) 512)"

definition handleError :: "string \<Rightarrow> json_step list \<Rightarrow> gb_exn + 'a" where
  "handleError msg path = Inl (json_error_at (json_context path) msg)"

section \<open>Reading\<close>

definition assertType :: "json_type \<Rightarrow> json_step list \<Rightarrow> 'd json \<Rightarrow> gb_exn + unit" where
  "assertType t path j =
     (if json_type_of j \<noteq> t
      then handleError (''cannot convert '' @ json_typeName j @ '' to '' @ typeToName t) path
      else Inr ())"

definition json_as_bool :: "json_step list \<Rightarrow> 'd json \<Rightarrow> gb_exn + bool" where
  "json_as_bool path j = (case j of JBool b \<Rightarrow> Inr b
     | _ \<Rightarrow> res_bind (assertType Json_BOOL path j) (\<lambda>_. Inr False))"

definition json_as_int64 :: "json_step list \<Rightarrow> 'd json \<Rightarrow> gb_exn + int" where
  "json_as_int64 path j = (case j of JInt i \<Rightarrow> Inr i
     | _ \<Rightarrow> res_bind (assertType Json_INT path j) (\<lambda>_. Inr 0))"

text \<open>\<^verbatim>\<open>as<int>()\<close> returns the stored 64-bit value through a 32-bit return type.\<close>

definition wrap_s32 :: "int \<Rightarrow> int" where
  "wrap_s32 i = sint (word_of_int i :: 32 word)"

definition json_as_int :: "json_step list \<Rightarrow> 'd json \<Rightarrow> gb_exn + int" where
  "json_as_int path j = res_bind (json_as_int64 path j) (\<lambda>i. Inr (wrap_s32 i))"

definition json_as_string :: "json_step list \<Rightarrow> 'd json \<Rightarrow> gb_exn + string" where
  "json_as_string path j = (case j of JString s \<Rightarrow> Inr s
     | _ \<Rightarrow> res_bind (assertType Json_STRING path j) (\<lambda>_. Inr []))"

definition json_as_object :: "json_step list \<Rightarrow> 'd json \<Rightarrow> gb_exn + (string, 'd json) smap" where
  "json_as_object path j = (case j of JObject o' \<Rightarrow> Inr o'
     | _ \<Rightarrow> res_bind (assertType Json_OBJECT path j) (\<lambda>_. Inr []))"

definition json_as_array :: "json_step list \<Rightarrow> 'd json \<Rightarrow> gb_exn + 'd json list" where
  "json_as_array path j = (case j of JArray a \<Rightarrow> Inr a
     | _ \<Rightarrow> res_bind (assertType Json_ARRAY path j) (\<lambda>_. Inr []))"

definition json_length :: "'d json \<Rightarrow> int" where
  "json_length j = (case j of JArray a \<Rightarrow> int (length a) | _ \<Rightarrow> -1)"

definition json_empty :: "'d json \<Rightarrow> bool" where
  "json_empty j = (case j of
     JUndef \<Rightarrow> True
   | JString s \<Rightarrow> s = []
   | JObject o' \<Rightarrow> o' = []
   | JArray a \<Rightarrow> a = []
   | _ \<Rightarrow> False)"

definition json_hasKey :: "string \<Rightarrow> 'd json \<Rightarrow> bool" where
  "json_hasKey k j = (case j of JObject o' \<Rightarrow> smap_find o' k \<noteq> None | _ \<Rightarrow> False)"

definition quoted :: "string \<Rightarrow> string" where
  "quoted k = [CHR 0x22] @ k @ [CHR 0x22]"

text \<open>The const \<^verbatim>\<open>operator[]\<close>, by key and by index.\<close>

definition json_get :: "json_step list \<Rightarrow> string \<Rightarrow> 'd json \<Rightarrow> gb_exn + 'd json" where
  "json_get path k j = (case j of
     JObject o' \<Rightarrow> (case smap_find o' k of
        None \<Rightarrow> handleError (''key '' @ k @ '' not found in object'') path
      | Some v \<Rightarrow> Inr v)
   | _ \<Rightarrow> handleError (''cannot access object key '' @ quoted k @ '' on type '' @ json_typeName j) path)"

definition json_at :: "json_step list \<Rightarrow> int \<Rightarrow> 'd json \<Rightarrow> gb_exn + 'd json" where
  "json_at path i j = (case j of
     JArray a \<Rightarrow> (if length a > unat (word_of_int i :: 32 word) then Inr (a ! nat i)
                   else handleError ''index out of range'' path)
   | _ \<Rightarrow> handleError (''cannot access array index on type '' @ json_typeName j) path)"

section \<open>Writing\<close>

text \<open>
  The non-const \<^verbatim>\<open>operator[]\<close> returns a reference into the tree and makes the place exist first
  (autovivification): a null node becomes a container, a missing member or element a null node.
  \<open>json_ref_key\<close> and \<open>json_ref_at\<close> are the node after that; \<open>json_upd_key\<close> and \<open>json_upd_at\<close> then
  run a write through the reference.
\<close>

definition json_addKey :: "json_step list \<Rightarrow> string \<Rightarrow> 'd json \<Rightarrow> gb_exn + 'd json" where
  "json_addKey path k j = (case j of
     JObject o' \<Rightarrow> Inr (JObject (smap_insert k JUndef o'))
   | _ \<Rightarrow> handleError (''cannot add key '' @ quoted k @ '' to type '' @ json_typeName j) path)"

definition json_ref_key :: "json_step list \<Rightarrow> string \<Rightarrow> 'd json \<Rightarrow> gb_exn + 'd json" where
  "json_ref_key path k j = (case j of
     JObject o' \<Rightarrow> (case smap_find o' k of None \<Rightarrow> json_addKey path k j | Some v \<Rightarrow> Inr j)
   | JUndef \<Rightarrow> json_addKey path k (JObject [])
   | _ \<Rightarrow> handleError (''cannot access object key '' @ quoted k @ '' on type '' @ json_typeName j) path)"

definition growArray :: "json_step list \<Rightarrow> nat \<Rightarrow> 'd json \<Rightarrow> gb_exn + 'd json" where
  "growArray path n j = (case j of
     JArray a \<Rightarrow> Inr (JArray (if length a < n then a @ replicate (n - length a) JUndef else a))
   | _ \<Rightarrow> handleError (''cannot grow a type '' @ json_typeName j) path)"

definition json_ref_at :: "json_step list \<Rightarrow> nat \<Rightarrow> 'd json \<Rightarrow> gb_exn + 'd json" where
  "json_ref_at path i j = (case j of
     JArray a \<Rightarrow> growArray path (i + 1) j
   | JUndef \<Rightarrow> growArray path (i + 1) (JArray [])
   | _ \<Rightarrow> handleError (''cannot access array index on type '' @ json_typeName j) path)"

definition json_upd_key ::
    "json_step list \<Rightarrow> string \<Rightarrow> ('d json \<Rightarrow> gb_exn + 'd json) \<Rightarrow> 'd json \<Rightarrow> gb_exn + 'd json" where
  "json_upd_key path k f j =
     res_bind (json_ref_key path k j) (\<lambda>j'.
     res_bind (json_as_object path j') (\<lambda>o'.
     case smap_find o' k of
       None \<Rightarrow> Inr j'
     | Some v \<Rightarrow> res_bind (f v) (\<lambda>v'. Inr (JObject (smap_put k v' o')))))"

definition json_upd_at ::
    "json_step list \<Rightarrow> nat \<Rightarrow> ('d json \<Rightarrow> gb_exn + 'd json) \<Rightarrow> 'd json \<Rightarrow> gb_exn + 'd json" where
  "json_upd_at path i f j =
     res_bind (json_ref_at path i j) (\<lambda>j'.
     res_bind (json_as_array path j') (\<lambda>a.
     res_bind (f (a ! i)) (\<lambda>v'. Inr (JArray (a[i := v'])))))"

text \<open>\<^verbatim>\<open>j[k] = v\<close> and \<^verbatim>\<open>j[i] = v\<close>.\<close>

definition json_set :: "string \<Rightarrow> 'd json \<Rightarrow> 'd json \<Rightarrow> gb_exn + 'd json" where
  "json_set k v = json_upd_key [] k (\<lambda>_. Inr v)"

definition json_set_at :: "nat \<Rightarrow> 'd json \<Rightarrow> 'd json \<Rightarrow> gb_exn + 'd json" where
  "json_set_at i v = json_upd_at [] i (\<lambda>_. Inr v)"

definition json_deleteKey :: "json_step list \<Rightarrow> string \<Rightarrow> 'd json \<Rightarrow> gb_exn + bool \<times> 'd json" where
  "json_deleteKey path k j = (case j of
     JObject o' \<Rightarrow> (case smap_find o' k of
        None \<Rightarrow> Inr (False, j)
      | Some _ \<Rightarrow> Inr (True, JObject (smap_erase k o')))
   | _ \<Rightarrow> handleError (''delKey() called on type '' @ json_typeName j) path)"

section \<open>Comparison and copying\<close>

lemma smap_find_size [termination_simp]:
  "smap_find m k = Some v \<Longrightarrow> size v < Suc (size_list (size_prod (\<lambda>x. 0) size) m)"
  unfolding smap_find_def by (induction m) (auto split: if_splits)

lemma list_elem_size: "x \<in> set a \<Longrightarrow> size x < Suc (size_list size a)"
  by (induction a) auto

lemma zip_elem_size [termination_simp]:
  "(x, y) \<in> set (zip a b) \<Longrightarrow> size x + size y < Suc (Suc (size_list size b + size_list size a))"
  using list_elem_size [of x a] list_elem_size [of y b] set_zip_leftD [of x y a b] set_zip_rightD [of x y a b]
  by fastforce

lemma entry_elem_size [termination_simp]:
  "(k, v) \<in> set m \<Longrightarrow> size v < Suc (size_list (size_prod (\<lambda>x. 0) size) m)"
  by (induction m) auto

text \<open>\<^verbatim>\<open>equals\<close>. Two empty values are equal whatever their types are.\<close>

function json_equals :: "('d \<Rightarrow> 'd \<Rightarrow> bool) \<Rightarrow> 'd json \<Rightarrow> 'd json \<Rightarrow> bool" where
  "json_equals deq this other =
     (if json_empty other \<and> json_empty this then True
      else if json_empty other \<or> json_empty this then False
      else (case (this, other) of
          (JObject o1, JObject o2) \<Rightarrow>
            length o1 = length o2
            \<and> list_all (\<lambda>(k, v). case smap_find o1 k of None \<Rightarrow> False | Some w \<Rightarrow> json_equals deq w v) o2
        | (JArray b, JArray a) \<Rightarrow>
            length b = length a \<and> list_all (\<lambda>(x, y). json_equals deq x y) (zip a b)
        | (JBool x, JBool y) \<Rightarrow> x = y
        | (JInt x, JInt y) \<Rightarrow> x = y
        | (JDouble x, JDouble y) \<Rightarrow> deq x y
        | (JString x, JString y) \<Rightarrow> x = y
        | _ \<Rightarrow> False))"
  by pat_completeness auto

termination
  by (relation "measure (\<lambda>(_, x, y). size x + size y)")
    (auto dest!: smap_find_size entry_elem_size zip_elem_size)

text \<open>\<^verbatim>\<open>copy\<close> rebuilds the tree node by node; an object is rebuilt by inserting its entries in order.\<close>

function json_copy :: "'d json \<Rightarrow> 'd json" where
  "json_copy JUndef = JUndef"
| "json_copy (JBool b) = JBool b"
| "json_copy (JInt i) = JInt i"
| "json_copy (JDouble d) = JDouble d"
| "json_copy (JString s) = JString s"
| "json_copy (JObject o') =
     JObject (fold (\<lambda>(k, v) m. smap_insert k v m) (map (\<lambda>(k, v). (k, json_copy v)) o') [])"
| "json_copy (JArray a) = JArray (map json_copy a)"
  by pat_completeness auto

termination
  by (relation "measure size") (auto simp: entry_elem_size list_elem_size)

section \<open>Well-formed values\<close>

definition in_int64 :: "int \<Rightarrow> bool" where
  "in_int64 i \<longleftrightarrow> - (2 ^ 63) \<le> i \<and> i < 2 ^ 63"

fun json_wf :: "'d json \<Rightarrow> bool" where
  "json_wf (JInt i) = in_int64 i"
| "json_wf (JObject o') = (smap_wf o' \<and> list_all (\<lambda>(k, v). json_wf v) o')"
| "json_wf (JArray a) = list_all json_wf a"
| "json_wf _ = True"

lemma json_wf_find: "json_wf (JObject o') \<Longrightarrow> smap_find o' k = Some v \<Longrightarrow> json_wf v"
  by (auto simp: smap_find_def list_all_iff dest!: map_of_SomeD)

lemma json_wf_put: "json_wf (JObject o') \<Longrightarrow> json_wf v \<Longrightarrow> json_wf (JObject (smap_put k v o'))"
  using set_smap_put [of k v o'] by (fastforce simp: smap_wf_put list_all_iff)

lemma json_wf_erase: "json_wf (JObject o') \<Longrightarrow> json_wf (JObject (smap_erase k o'))"
  using set_smap_erase [of k o'] by (auto simp: smap_wf_erase list_all_iff)

lemma put_after_addKey: "smap_wf o' \<Longrightarrow> smap_put k v (smap_insert k w o') = smap_put k v o'"
  by (simp add: smap_insert_def smap.put_put)

lemma json_set_object: "smap_wf o' \<Longrightarrow> json_set k v (JObject o') = Inr (JObject (smap_put k v o'))"
  by (auto simp: json_set_def json_upd_key_def json_ref_key_def json_addKey_def json_as_object_def
      put_after_addKey smap_insert_def smap_find_put smap.put_put split: option.splits)

lemma json_set_undef: "json_set k v JUndef = Inr (JObject [(k, v)])"
  using json_set_object [of "[]" k v]
  by (simp add: json_set_def json_upd_key_def json_ref_key_def json_addKey_def json_as_object_def
      smap_insert_def smap_find_def)

text \<open>The members a node can be read at: a null node reads like an object without any.\<close>

definition members :: "'d json \<Rightarrow> (string, 'd json) smap" where
  "members j = (case j of JObject o' \<Rightarrow> o' | _ \<Rightarrow> [])"

definition is_objectlike :: "'d json \<Rightarrow> bool" where
  "is_objectlike j \<longleftrightarrow> json_type_of j = Json_OBJECT \<or> json_type_of j = Json_UNDEF"

lemma json_set_members:
  assumes "json_wf j" and "is_objectlike j"
  shows "json_set k v j = Inr (JObject (smap_put k v (members j)))"
  using assms by (cases j) (simp_all add: is_objectlike_def json_set_object json_set_undef members_def)

lemma json_upd_key_const:
  assumes "json_wf j" and "is_objectlike j"
  shows "json_upd_key path k (\<lambda>_. Inr v) j = Inr (JObject (smap_put k v (members j)))"
proof -
  have "json_upd_key path k (\<lambda>_. Inr v) j = json_set k v j"
    using assms(2) by (cases j) (auto simp: is_objectlike_def json_set_def json_upd_key_def json_ref_key_def
        json_addKey_def json_as_object_def split: option.splits)
  with json_set_members [OF assms] show ?thesis by simp
qed

text \<open>
  Assignment through a key. On an object, or on null, which becomes one, \<^verbatim>\<open>j[k] = v\<close> makes the
  key read as the new value, leaves what every other key reads as, keeps the value well formed;
  on any other type it is an error that names the key, and nothing is written.
\<close>

lemma json_set_spec:
  assumes "json_wf j" and "json_wf v"
  shows "if is_objectlike j
    then \<exists>j'. json_set k v j = Inr j' \<and> json_wf j' \<and> json_type_of j' = Json_OBJECT
      \<and> (\<forall>p k'. json_get p k' j' =
           (if k' = k then Inr v else json_get p k' (JObject (members j))))
    else json_set k v j =
      handleError (''cannot access object key '' @ quoted k @ '' on type '' @ json_typeName j) []"
proof (cases "is_objectlike j")
  case True
  have "json_wf (JObject (members j))"
    using assms(1) True by (cases j) (simp_all add: members_def is_objectlike_def)
  with True assms(2) show ?thesis
    by (simp add: json_set_members [OF assms(1)] json_wf_put json_get_def smap_find_put del: json_wf.simps)
next
  case False
  then show ?thesis
    by (cases j) (simp_all add: is_objectlike_def json_set_def json_upd_key_def json_ref_key_def
        handleError_def)
qed

lemma json_set_spec_witness:
  "\<exists>j'. json_set ''b'' (JInt 7 :: nat json) (JObject [(''a'', JBool True)]) = Inr j' \<and> json_wf j'
    \<and> json_type_of j' = Json_OBJECT
    \<and> (\<forall>p k'. json_get p k' j' =
         (if k' = ''b'' then Inr (JInt 7) else json_get p k' (JObject (members (JObject [(''a'', JBool True)])))))"
proof -
  have "json_wf (JObject [(''a'', JBool True)] :: nat json)" "json_wf (JInt 7 :: nat json)"
    by (simp_all add: in_int64_def)
  from json_set_spec [OF this, of "''b''"] show ?thesis by (simp add: is_objectlike_def)
qed

section \<open>Copies\<close>

lemma fold_insert_append:
  "smap_wf (m @ kvs) \<Longrightarrow> fold (\<lambda>(k, v) m. smap_insert k v m) kvs m = m @ kvs"
proof (induction kvs arbitrary: m)
  case (Cons kv kvs)
  obtain k v where kv: "kv = (k, v)" by (cases kv)
  have below: "\<forall>(a, b) \<in> set m. a < k"
    using Cons.prems kv by (auto simp: smap_wf_def sorted_wrt_append)
  then have "smap_find m k = None" by (auto simp: smap_find_def map_of_eq_None_iff)
  moreover from below have "smap_put k v m = m @ [(k, v)]"
    by (induction k v m rule: smap_put.induct) auto
  ultimately have "smap_insert k v m = m @ [(k, v)]" by (simp add: smap_insert_def)
  with Cons kv show ?case by simp
qed simp

lemma smap_wf_map_values: "smap_wf (map (\<lambda>(k, v). (k, f v)) m) = smap_wf m"
  by (simp add: smap_wf_def comp_def split_def)

lemma json_copy_same: "json_wf j \<Longrightarrow> json_copy j = j"
proof (induction j)
  case (JObject o')
  have "map (\<lambda>(k, v). (k, json_copy v)) o' = o'"
    by (rule map_idI) (use JObject in \<open>auto simp: list_all_iff\<close>)
  with JObject.prems show ?case using fold_insert_append [of "[]" o'] by simp
next
  case (JArray a)
  then show ?case by (auto simp: list_all_iff intro: map_idI)
qed simp_all

section \<open>Comparison: what it decides\<close>

text \<open>The value with every empty node, of whatever type, made null.\<close>

function json_norm :: "'d json \<Rightarrow> 'd json" where
  "json_norm j = (if json_empty j then JUndef else
     (case j of
        JObject o' \<Rightarrow> JObject (map (\<lambda>(k, v). (k, json_norm v)) o')
      | JArray a \<Rightarrow> JArray (map json_norm a)
      | _ \<Rightarrow> j))"
  by pat_completeness auto

termination
  by (relation "measure size") (auto simp: entry_elem_size list_elem_size)

declare json_equals.simps [simp del] json_norm.simps [simp del]

lemma json_norm_empty: "json_norm j = JUndef \<longleftrightarrow> json_empty j"
  by (subst json_norm.simps) (auto simp: json_empty_def split: json.splits)

lemma json_norm_nonempty:
  assumes "\<not> json_empty j"
  shows "json_norm j = (case j of
        JObject o' \<Rightarrow> JObject (map (\<lambda>(k, v). (k, json_norm v)) o')
      | JArray a \<Rightarrow> JArray (map json_norm a)
      | _ \<Rightarrow> j)"
  using assms by (simp add: json_norm.simps [of j])

lemma smap_find_map_values:
  "smap_find (map (\<lambda>(k, v). (k, f v)) m) k = map_option f (smap_find m k)"
  by (induction m) (auto simp: smap_find_def)

lemma smap_find_member: "smap_wf m \<Longrightarrow> (k, v) \<in> set m \<longleftrightarrow> smap_find m k = Some v"
  using smap.distinct_entries [of m] by (auto simp: smap_find_def)

text \<open>Two maps of one size agree entry by entry if the entries of one are found in the other.\<close>

lemma smap_eq_by_entries:
  assumes wf: "smap_wf m1" "smap_wf m2" and len: "length m1 = length m2"
    and ent: "\<forall>(k, v) \<in> set m2. \<exists>w. smap_find m1 k = Some w \<and> f w = f v"
  shows "map (\<lambda>(k, v). (k, f v)) m1 = map (\<lambda>(k, v). (k, f v)) m2"
proof (rule smap_wf_ext)
  have sub: "fst ` set m2 \<subseteq> fst ` set m1"
    using ent by (force simp: smap_find_def dest: map_of_SomeD)
  have "card (fst ` set m1) = length m1" "card (fst ` set m2) = length m2"
    using smap.distinct_entries wf by (metis distinct_card length_map list.set_map)+
  with sub len have keys: "fst ` set m1 = fst ` set m2"
    by (metis List.finite_set card_subset_eq finite_imageI)
  show "smap_find (map (\<lambda>(k, v). (k, f v)) m1) k = smap_find (map (\<lambda>(k, v). (k, f v)) m2) k" for k
  proof (cases "smap_find m2 k")
    case None
    then have "smap_find m1 k = None" using keys by (auto simp: smap_find_def map_of_eq_None_iff)
    with None show ?thesis by (simp add: smap_find_map_values)
  next
    case (Some v)
    then have "(k, v) \<in> set m2" using smap_find_member wf(2) by metis
    with ent Some show ?thesis by (auto simp: smap_find_map_values)
  qed
qed (simp_all add: smap_wf_map_values wf)

lemma smap_entries_by_eq:
  assumes wf: "smap_wf m1" "smap_wf m2" and eq: "map (\<lambda>(k, v). (k, f v)) m1 = map (\<lambda>(k, v). (k, f v)) m2"
  shows "\<forall>(k, v) \<in> set m2. \<exists>w. smap_find m1 k = Some w \<and> f w = f v"
proof clarify
  fix k v assume "(k, v) \<in> set m2"
  then have "smap_find (map (\<lambda>(k, v). (k, f v)) m2) k = Some (f v)"
    using smap_find_member [OF wf(2)] by (simp add: smap_find_map_values)
  then have "map_option f (smap_find m1 k) = Some (f v)"
    by (simp add: smap_find_map_values flip: eq)
  then show "\<exists>w. smap_find m1 k = Some w \<and> f w = f v" by auto
qed

lemma json_equals_object:
  assumes ne: "o1 \<noteq> []" "o2 \<noteq> []" and wf: "json_wf (JObject o1)" "json_wf (JObject o2)"
    and IH: "\<And>k v w. (k, v) \<in> set o2 \<Longrightarrow> smap_find o1 k = Some w \<Longrightarrow>
      json_equals (=) w v \<longleftrightarrow> json_norm w = json_norm v"
  shows "json_equals (=) (JObject o1) (JObject o2) \<longleftrightarrow> json_norm (JObject o1) = json_norm (JObject o2)"
proof -
  have w: "smap_wf o1" "smap_wf o2" using wf by auto
  have "json_equals (=) (JObject o1) (JObject o2) \<longleftrightarrow> length o1 = length o2
      \<and> (\<forall>(k, v) \<in> set o2. \<exists>w. smap_find o1 k = Some w \<and> json_norm w = json_norm v)"
    using ne IH
    by (subst json_equals.simps) (fastforce simp: json_empty_def list_all_iff split: option.splits)
  also have "\<dots> \<longleftrightarrow> map (\<lambda>(k, v). (k, json_norm v)) o1 = map (\<lambda>(k, v). (k, json_norm v)) o2"
    (is "_ \<longleftrightarrow> ?n1 = ?n2")
  proof
    assume "?n1 = ?n2"
    with smap_entries_by_eq [OF w this] map_eq_imp_length_eq [OF this]
    show "length o1 = length o2 \<and> (\<forall>(k, v) \<in> set o2. \<exists>w. smap_find o1 k = Some w \<and> json_norm w = json_norm v)"
      by blast
  qed (use smap_eq_by_entries [OF w, of json_norm] in blast)
  finally show ?thesis using ne by (simp add: json_norm_nonempty json_empty_def)
qed

lemma json_equals_array:
  assumes ne: "b \<noteq> []" "a \<noteq> []"
    and IH: "\<And>x y. (x, y) \<in> set (zip a b) \<Longrightarrow> json_equals (=) x y \<longleftrightarrow> json_norm x = json_norm y"
  shows "json_equals (=) (JArray b) (JArray a) \<longleftrightarrow> json_norm (JArray b) = json_norm (JArray a)"
proof -
  have "json_equals (=) (JArray b) (JArray a) \<longleftrightarrow>
      length b = length a \<and> (\<forall>(x, y) \<in> set (zip a b). json_norm x = json_norm y)"
    using ne IH by (subst json_equals.simps) (auto simp: json_empty_def list_all_iff)
  also have "\<dots> \<longleftrightarrow> list_all2 (\<lambda>x y. json_norm x = json_norm y) a b"
    by (auto simp: list_all2_iff)
  also have "\<dots> \<longleftrightarrow> map json_norm b = map json_norm a"
    by (auto simp: list_all2_conv_all_nth list_eq_iff_nth_eq)
  finally show ?thesis using ne by (simp add: json_norm_nonempty json_empty_def)
qed

lemma json_equals_norm:
  fixes a b :: "'d json"
  shows "json_wf a \<Longrightarrow> json_wf b \<Longrightarrow> json_equals (=) a b \<longleftrightarrow> json_norm a = json_norm b"
proof (induction "(=) :: 'd \<Rightarrow> 'd \<Rightarrow> bool" a b rule: json_equals.induct)
  case (1 this other)
  show ?case
  proof (cases "json_empty this \<or> json_empty other")
    case True
    then show ?thesis
      using json_norm_empty [of this] json_norm_empty [of other]
      by (subst json_equals.simps) auto
  next
    case ne: False
    consider (obj) o1 o2 where "this = JObject o1" "other = JObject o2"
      | (arr) b a where "this = JArray b" "other = JArray a"
      | (leaf) "json_type_of this \<noteq> json_type_of other \<or>
          json_type_of this \<noteq> Json_OBJECT \<and> json_type_of this \<noteq> Json_ARRAY"
      by (cases this; cases other) auto
    then show ?thesis
    proof cases
      case obj
      have wf: "json_wf (JObject o1)" "json_wf (JObject o2)" using 1(3,4) obj by simp_all
      show ?thesis
        unfolding obj
      proof (rule json_equals_object [OF _ _ wf])
        fix k v w assume kv: "(k, v) \<in> set o2" "smap_find o1 k = Some w"
        have "json_wf v" using wf(2) kv(1) by (auto simp: list_all_iff)
        with 1(1) [OF _ _ _ _ _ kv(1) refl kv(2)] json_wf_find [OF wf(1) kv(2)] ne obj
        show "json_equals (=) w v \<longleftrightarrow> json_norm w = json_norm v" by simp
      qed (use ne obj in \<open>auto simp: json_empty_def\<close>)
    next
      case arr
      show ?thesis
        unfolding arr
      proof (rule json_equals_array)
        fix x y assume xy: "(x, y) \<in> set (zip a b)"
        have "json_wf x" "json_wf y"
          using 1(3,4) arr set_zip_leftD [OF xy] set_zip_rightD [OF xy] by (simp_all add: list_all_iff)
        with 1(2) [OF _ _ _ _ _ xy refl] ne arr
        show "json_equals (=) x y \<longleftrightarrow> json_norm x = json_norm y" by simp
      qed (use ne arr in \<open>auto simp: json_empty_def\<close>)
    next
      case leaf
      with ne show ?thesis
        by (subst json_equals.simps) (cases this; cases other; simp add: json_norm_nonempty json_empty_def)
    qed
  qed
qed

text \<open>
  \<^verbatim>\<open>operator==\<close> decides equality of the two documents up to the type of empty nodes: null, the
  empty string, the empty object and the empty array count as one value, at every depth.
\<close>

lemma json_equals_iff:
  assumes "json_wf a" and "json_wf b"
  shows "json_equals (=) a b \<longleftrightarrow> json_norm a = json_norm b"
  by (rule json_equals_norm) fact+

lemma json_equals_iff_witness:
  "json_equals (=) (JObject [(''a'', JString [])] :: nat json) (JObject [(''a'', JArray [])])
    \<longleftrightarrow> json_norm (JObject [(''a'', JString [])] :: nat json) = json_norm (JObject [(''a'', JArray [])])"
  by (rule json_equals_iff) simp_all

end
