(* ===== verification/GB_JsonSchema.thy ===== *)
theory GB_JsonSchema
  imports GB_Json
begin

text \<open>
  \<^verbatim>\<open>core/JsonSchema.cc\<close> and the \<^verbatim>\<open>validate\<close> members of \<^verbatim>\<open>core/Json.cc\<close>. Every check reports through
  \<^verbatim>\<open>handleError\<close>, whose handler is always the one that throws, so a check either throws or lets
  the validation go on. A node of a schema comes with its path, as a node of a document does; a
  child whose parent pointer the code redirects has the step \<open>Key ''?''\<close> that \<^verbatim>\<open>context()\<close> prints for it.
\<close>

type_synonym 'd schema = "'d json"

section \<open>Formats\<close>

definition digits_at :: "string \<Rightarrow> bool" where
  "digits_at s \<longleftrightarrow> list_all is_digit s"

definition dec_in :: "string \<Rightarrow> nat \<Rightarrow> nat \<Rightarrow> bool" where
  "dec_in s lo hi \<longleftrightarrow> length s = 2 \<and> digits_at s \<and> lo \<le> dec_val s \<and> dec_val s \<le> hi"

text \<open>\<^verbatim>\<open>\d{4}-MM-DD\<close> with the day bounded by the month, day 00 included, as the expression has it.\<close>

definition month_day_ok :: "string \<Rightarrow> bool" where
  "month_day_ok s \<longleftrightarrow> (let mm = take 2 s; dd = drop 3 s in
     length s = 5 \<and> s ! 2 = CHR ''-''
     \<and> (mm \<in> {''01'', ''03'', ''05'', ''07'', ''08'', ''10'', ''12''} \<and> dec_in dd 0 31
        \<or> mm \<in> {''04'', ''06'', ''09'', ''11''} \<and> dec_in dd 0 30
        \<or> mm = ''02'' \<and> dec_in dd 0 29))"

definition DateFormatChecker :: "string \<Rightarrow> bool" where
  "DateFormatChecker s \<longleftrightarrow>
     length s = 10 \<and> digits_at (take 4 s) \<and> s ! 4 = CHR ''-'' \<and> month_day_ok (drop 5 s)"

definition time_ok :: "string \<Rightarrow> bool" where
  "time_ok s \<longleftrightarrow> s = ''24:00:00''
     \<or> length s = 8 \<and> s ! 2 = CHR '':'' \<and> s ! 5 = CHR '':''
       \<and> dec_in (take 2 s) 0 23 \<and> dec_in (take 2 (drop 3 s)) 0 59 \<and> dec_in (drop 6 s) 0 59"

definition zone_ok :: "string \<Rightarrow> bool" where
  "zone_ok s \<longleftrightarrow> s = ''Z''
     \<or> length s = 6 \<and> s ! 0 \<in> {CHR ''-'', CHR ''+''} \<and> s ! 3 = CHR '':''
       \<and> dec_in (take 2 (drop 1 s)) 0 23 \<and> dec_in (drop 4 s) 0 59"

definition DateTimeFormatChecker :: "string \<Rightarrow> bool" where
  "DateTimeFormatChecker s \<longleftrightarrow>
     11 < length s \<and> DateFormatChecker (take 10 s) \<and> s ! 10 = CHR ''T''
     \<and> time_ok (take 8 (drop 11 s)) \<and> zone_ok (drop 19 s)"

definition is_xdigit :: "char \<Rightarrow> bool" where
  "is_xdigit c \<longleftrightarrow> is_digit c \<or> c \<in> set ''abcdefABCDEF''"

definition MacFormatChecker :: "string \<Rightarrow> bool" where
  "MacFormatChecker s \<longleftrightarrow> (let parts = str_split (CHR '':'') s in
     length parts = 6 \<and> list_all (\<lambda>p. (length p = 1 \<or> length p = 2) \<and> list_all is_xdigit p) parts)"

text \<open>The static members of the class: the registered formats and the default one.\<close>

record schema_statics =
  sch_formats :: "(string, string \<Rightarrow> bool) smap"
  sch_default_format :: string

definition FormatMap :: "'d json_lib \<Rightarrow> schema_statics" where
  "FormatMap lib = \<lparr>sch_formats = fold (\<lambda>(k, v) m. smap_put k v m)
      [(''date-time'', DateTimeFormatChecker), (''date'', DateFormatChecker), (''uri'', uri_regex lib),
       (''ip-address'', \<lambda>s. inet_pton4 lib (c_str s)), (''ipv4'', \<lambda>s. inet_pton4 lib (c_str s)),
       (''ipv6'', \<lambda>s. inet_pton6 lib (c_str s)), (''mac-address'', MacFormatChecker)] [],
     sch_default_format = []\<rparr>"

definition setFormat :: "string \<Rightarrow> (string \<Rightarrow> bool) \<Rightarrow> schema_statics \<Rightarrow> schema_statics" where
  "setFormat name checker st = st\<lparr>sch_formats := smap_put name checker (sch_formats st)\<rparr>"

definition defaultFormat :: "string \<Rightarrow> schema_statics \<Rightarrow> schema_statics" where
  "defaultFormat name st = st\<lparr>sch_default_format := name\<rparr>"

section \<open>Types\<close>

primrec typeToSchemaType :: "json_type \<Rightarrow> string" where
  "typeToSchemaType Json_UNDEF = ''null''"
| "typeToSchemaType Json_STRING = ''string''"
| "typeToSchemaType Json_INT = ''integer''"
| "typeToSchemaType Json_DOUBLE = ''number''"
| "typeToSchemaType Json_BOOL = ''boolean''"
| "typeToSchemaType Json_OBJECT = ''object''"
| "typeToSchemaType Json_ARRAY = ''array''"

definition type_matches :: "string \<Rightarrow> string \<Rightarrow> bool" where
  "type_matches t docType \<longleftrightarrow> t = ''any'' \<or> t = docType \<or> t = ''number'' \<and> docType = ''integer''"

fun typeListLoop :: "json_step list \<Rightarrow> nat \<Rightarrow> 'd json list \<Rightarrow> string \<Rightarrow> gb_exn + bool" where
  "typeListLoop sp i [] docType = Inr False"
| "typeListLoop sp i (t # ts) docType =
     res_bind (json_as_string (sp @ [Index i]) t) (\<lambda>ty.
       if type_matches ty docType then Inr True else typeListLoop sp (i + 1) ts docType)"

definition typeListContains :: "json_step list \<Rightarrow> 'd schema \<Rightarrow> string \<Rightarrow> string \<Rightarrow> gb_exn + bool" where
  "typeListContains sp schema name docType =
     res_bind (json_get sp name schema) (\<lambda>tl. case tl of
       JArray a \<Rightarrow> typeListLoop (sp @ [Key name]) 0 a docType
     | _ \<Rightarrow> res_bind (json_as_string (sp @ [Key name]) tl) (\<lambda>ty. Inr (type_matches ty docType)))"

definition validType :: "json_step list \<Rightarrow> 'd schema \<Rightarrow> json_step list \<Rightarrow> 'd json \<Rightarrow> gb_exn + unit" where
  "validType sp schema path j =
     (let docType = typeToSchemaType (json_type_of j) in
      if \<not> json_hasKey ''type'' schema \<and> \<not> json_hasKey ''disallow'' schema then Inr ()
      else res_bind (if json_hasKey ''type'' schema then typeListContains sp schema ''type'' docType
                     else Inr False) (\<lambda>allowed.
        if allowed then Inr ()
        else res_bind (if json_hasKey ''disallow'' schema
                       then map_sum id Not (typeListContains sp schema ''disallow'' docType)
                       else Inr False) (\<lambda>not_disallowed.
          if not_disallowed then Inr ()
          else handleError (''schema does not allow for type '' @ quoted docType) path)))"

text \<open>\<^verbatim>\<open>typeFixup\<close>: an integer where the schema says number is stored as a double, through \<^verbatim>\<open>as<int>\<close>.\<close>

definition fixup_one :: "'d json_lib \<Rightarrow> string \<Rightarrow> 'd json \<Rightarrow> 'd json" where
  "fixup_one lib ty j = (case j of
     JInt i \<Rightarrow> if ty = ''number'' then JDouble (d_of_int lib (wrap_s32 i)) else j
   | _ \<Rightarrow> j)"

fun fixup_loop :: "'d json_lib \<Rightarrow> json_step list \<Rightarrow> nat \<Rightarrow> 'd json list \<Rightarrow> 'd json \<Rightarrow> gb_exn + 'd json" where
  "fixup_loop lib sp i [] j = Inr j"
| "fixup_loop lib sp i (t # ts) j =
     res_bind (json_as_string (sp @ [Index i]) t) (\<lambda>ty. fixup_loop lib sp (i + 1) ts (fixup_one lib ty j))"

definition typeFixup :: "'d json_lib \<Rightarrow> json_step list \<Rightarrow> 'd schema \<Rightarrow> 'd json \<Rightarrow> gb_exn + 'd json" where
  "typeFixup lib sp schema j =
     (if \<not> json_hasKey ''type'' schema then Inr j
      else res_bind (json_get sp ''type'' schema) (\<lambda>tl. case tl of
          JArray a \<Rightarrow> fixup_loop lib (sp @ [Key ''type'']) 0 a j
        | _ \<Rightarrow> res_bind (json_as_string (sp @ [Key ''type'']) tl) (\<lambda>ty. Inr (fixup_one lib ty j))))"

section \<open>Array sizes\<close>

definition to_u32 :: "int \<Rightarrow> nat" where
  "to_u32 i = unat (word_of_int i :: 32 word)"

definition to_u64 :: "int \<Rightarrow> nat" where
  "to_u64 i = unat (word_of_int i :: 64 word)"

definition validMaxSize :: "json_step list \<Rightarrow> 'd schema \<Rightarrow> json_step list \<Rightarrow> nat \<Rightarrow> gb_exn + unit" where
  "validMaxSize sp schema path sz =
     (if json_hasKey ''maxItems'' schema then
        res_bind (json_get sp ''maxItems'' schema) (\<lambda>m.
        res_bind (json_as_int (sp @ [Key ''maxItems'']) m) (\<lambda>i.
        if sz > to_u32 i
        then handleError (''array size is larger than schema maximum size '' @ nat_dec (to_u32 i)) path
        else Inr ()))
      else Inr ())"

text \<open>The schema that additional properties must meet. \<^verbatim>\<open>true\<close> and an absent member are overwritten with it.\<close>

definition any_schema :: "'d schema" where
  "any_schema = JObject [(''type'', JString ''any'')]"

definition getAdditionalProperties ::
    "json_step list \<Rightarrow> 'd schema \<Rightarrow> gb_exn + 'd schema option \<times> 'd schema" where
  "getAdditionalProperties sp schema =
     (if json_hasKey ''additionalProperties'' schema then
        res_bind (json_get sp ''additionalProperties'' schema) (\<lambda>ap. case ap of
            JBool True \<Rightarrow>
              res_bind (json_upd_key sp ''additionalProperties'' (\<lambda>_. Inr any_schema) schema) (\<lambda>schema'.
                Inr (Some any_schema, schema'))
          | JObject _ \<Rightarrow> Inr (Some ap, schema)
          | _ \<Rightarrow> Inr (None, schema))
      else res_bind (json_upd_key sp ''additionalProperties'' (\<lambda>_. Inr any_schema) schema) (\<lambda>schema'.
             Inr (Some any_schema, schema')))"

definition validMinSize :: "json_step list \<Rightarrow> 'd schema \<Rightarrow> json_step list \<Rightarrow> nat \<Rightarrow> gb_exn + unit" where
  "validMinSize sp schema path sz =
     res_bind
       (if json_hasKey ''minItems'' schema then
          res_bind (json_get sp ''minItems'' schema) (\<lambda>m.
          res_bind (json_as_int (sp @ [Key ''minItems'']) m) (\<lambda>i.
          if sz < to_u32 i
          then handleError (''array size '' @ nat_dec sz @ '' is less than schema minimum size ''
                 @ nat_dec (to_u32 i)) path
          else Inr ()))
        else Inr ()) (\<lambda>_.
     if json_hasKey ''items'' schema then
       res_bind (json_get sp ''items'' schema) (\<lambda>items. case items of
         JArray its \<Rightarrow>
           res_bind (getAdditionalProperties sp schema) (\<lambda>(addProp, _).
           if addProp \<noteq> None then Inr ()
           else if length its \<noteq> sz
           then handleError (''array size '' @ nat_dec sz @ '' does not match schema required size of tuple type ''
                  @ nat_dec (length its)) path
           else Inr ())
       | _ \<Rightarrow> Inr ())
     else Inr ())"

section \<open>Child schemas\<close>

definition getChildSchema_at ::
    "json_step list \<Rightarrow> 'd schema \<Rightarrow> nat \<Rightarrow> json_step list \<Rightarrow> gb_exn + json_step list \<times> 'd schema" where
  "getChildSchema_at sp schema index path =
     res_bind (getAdditionalProperties sp schema) (\<lambda>(addProp, _).
     if json_hasKey ''items'' schema then
       res_bind (json_get sp ''items'' schema) (\<lambda>items. case items of
         JArray its \<Rightarrow>
           (if index \<ge> length its then
              (case addProp of
                 Some ap \<Rightarrow> Inr (sp @ [Key ''additionalProperties''], ap)
               | None \<Rightarrow> handleError (''out of bounds: schema does not allow for elements at index ''
                     @ nat_dec index) path)
            else Inr (sp @ [Key ''?''], its ! index))
       | _ \<Rightarrow> Inr (sp @ [Key ''items''], items))
     else (case addProp of
         Some ap \<Rightarrow> Inr (sp @ [Key ''additionalProperties''], ap)
       | None \<Rightarrow> handleError ''out of bounds: schema does not allow for any elements in array'' path))"

definition getChildSchema_key ::
    "json_step list \<Rightarrow> 'd schema \<Rightarrow> string \<Rightarrow> json_step list \<Rightarrow> gb_exn + json_step list \<times> 'd schema" where
  "getChildSchema_key sp schema key path =
     res_bind (getAdditionalProperties sp schema) (\<lambda>(addProp, _).
     if json_hasKey ''properties'' schema then
       res_bind (json_get sp ''properties'' schema) (\<lambda>props.
       if json_hasKey key props then
         res_bind (json_get (sp @ [Key ''properties'']) key props) (\<lambda>s. Inr (sp @ [Key ''?''], s))
       else (case addProp of
           Some ap \<Rightarrow> Inr (sp @ [Key ''additionalProperties''], ap)
         | None \<Rightarrow> handleError (''invalid property '' @ quoted key
               @ '': schema does not allow for this property'') path))
     else (case addProp of
         Some ap \<Rightarrow> Inr (sp @ [Key ''additionalProperties''], ap)
       | None \<Rightarrow> handleError (''invalid property '' @ quoted key @ '': schema allows for no properties'') path))"

section \<open>Values\<close>

text \<open>\<^verbatim>\<open>operator<<\<close> on a scalar, with the stream precision set to 15.\<close>

definition scalar_text :: "'d json_lib \<Rightarrow> 'd json \<Rightarrow> string" where
  "scalar_text lib j = (case j of
     JBool b \<Rightarrow> (if b then ''true'' else ''false'')
   | JInt i \<Rightarrow> int_dec i
   | JDouble d \<Rightarrow> d_show lib d
   | JString s \<Rightarrow> s
   | _ \<Rightarrow> ''null'')"

text \<open>
  \<^verbatim>\<open>validMin\<close> and \<^verbatim>\<open>validMax\<close> at the type of the bound. An integer is compared with a double as a
  double; a value that is not a number fails.
\<close>

definition validMin :: "'d json_lib \<Rightarrow> 'd json \<Rightarrow> 'd json \<Rightarrow> bool" where
  "validMin lib j bound = (case (j, bound) of
     (JInt i, JInt m) \<Rightarrow> i \<ge> m
   | (JInt i, JDouble m) \<Rightarrow> d_le lib m (d_of_int lib i)
   | (JDouble d, JInt m) \<Rightarrow> d_le lib (d_of_int lib m) d
   | (JDouble d, JDouble m) \<Rightarrow> d_le lib m d
   | _ \<Rightarrow> False)"

definition validMax :: "'d json_lib \<Rightarrow> 'd json \<Rightarrow> 'd json \<Rightarrow> bool" where
  "validMax lib j bound = (case (j, bound) of
     (JInt i, JInt m) \<Rightarrow> i \<le> m
   | (JInt i, JDouble m) \<Rightarrow> d_le lib (d_of_int lib i) m
   | (JDouble d, JInt m) \<Rightarrow> d_le lib d (d_of_int lib m)
   | (JDouble d, JDouble m) \<Rightarrow> d_le lib d m
   | _ \<Rightarrow> False)"

definition is_number :: "'d json \<Rightarrow> bool" where
  "is_number j \<longleftrightarrow> json_type_of j = Json_INT \<or> json_type_of j = Json_DOUBLE"

definition check_minimum :: "'d json_lib \<Rightarrow> json_step list \<Rightarrow> 'd schema \<Rightarrow> json_step list \<Rightarrow> 'd json \<Rightarrow> gb_exn + unit" where
  "check_minimum lib sp schema path j =
     (if json_hasKey ''minimum'' schema then
        res_bind (json_get sp ''minimum'' schema) (\<lambda>m.
        if is_number m \<and> \<not> validMin lib j m
        then handleError (''value '' @ scalar_text lib j @ '' is less than schema minimum value '' @ scalar_text lib m) path
        else Inr ())
      else Inr ())"

definition check_maximum :: "'d json_lib \<Rightarrow> json_step list \<Rightarrow> 'd schema \<Rightarrow> json_step list \<Rightarrow> 'd json \<Rightarrow> gb_exn + unit" where
  "check_maximum lib sp schema path j =
     (if json_hasKey ''maximum'' schema then
        res_bind (json_get sp ''maximum'' schema) (\<lambda>m.
        if is_number m \<and> \<not> validMax lib j m
        then handleError (''value '' @ scalar_text lib j @ '' is larger than schema maximum value '' @ scalar_text lib m) path
        else Inr ())
      else Inr ())"

text \<open>
  The number of decimals: the length of the printed value, minus the position of the dot, minus
  one, in 64-bit arithmetic where a missing dot has the position \<^verbatim>\<open>npos\<close>, kept in 32 bits.
\<close>

definition npos :: "64 word" where
  "npos = - 1"

definition decimals_of :: "string \<Rightarrow> nat" where
  "decimals_of s = unat (ucast
     ((of_nat (length s) :: 64 word)
      - (case str_find_if (\<lambda>c. c = CHR ''.'') s of None \<Rightarrow> npos | Some i \<Rightarrow> of_nat i) - 1) :: 32 word)"

definition check_maxDecimal :: "'d json_lib \<Rightarrow> json_step list \<Rightarrow> 'd schema \<Rightarrow> json_step list \<Rightarrow> 'd json \<Rightarrow> gb_exn + unit" where
  "check_maxDecimal lib sp schema path j = (case j of
     JDouble d \<Rightarrow>
       (if json_hasKey ''maxDecimal'' schema then
          res_bind (json_get sp ''maxDecimal'' schema) (\<lambda>m.
          res_bind (json_as_int64 (sp @ [Key ''maxDecimal'']) m) (\<lambda>mx.
          if decimals_of (d_show lib d) > to_u64 mx
          then handleError (''value '' @ d_show lib d @ '' has '' @ nat_dec (decimals_of (d_show lib d))
                 @ '' decimal places, but the schema has specified maximum of '' @ nat_dec (to_u64 mx)
                 @ '' decimal places'') path
          else Inr ()))
        else Inr ())
   | _ \<Rightarrow> Inr ())"

definition check_minLength :: "json_step list \<Rightarrow> 'd schema \<Rightarrow> json_step list \<Rightarrow> string \<Rightarrow> gb_exn + unit" where
  "check_minLength sp schema path str =
     (if json_hasKey ''minLength'' schema then
        res_bind (json_get sp ''minLength'' schema) (\<lambda>m.
        res_bind (json_as_int64 (sp @ [Key ''minLength'']) m) (\<lambda>mn.
        if length str < to_u64 mn
        then handleError (''string length '' @ nat_dec (length str) @ '' is less than schema minimum length ''
               @ nat_dec (to_u64 mn)) path
        else Inr ()))
      else Inr ())"

definition check_maxLength :: "json_step list \<Rightarrow> 'd schema \<Rightarrow> json_step list \<Rightarrow> string \<Rightarrow> gb_exn + unit" where
  "check_maxLength sp schema path str =
     (if json_hasKey ''maxLength'' schema then
        res_bind (json_get sp ''maxLength'' schema) (\<lambda>m.
        res_bind (json_as_int64 (sp @ [Key ''maxLength'']) m) (\<lambda>mx.
        if length str > to_u64 mx
        then handleError (''string length '' @ nat_dec (length str) @ '' is larger than schema maximum length ''
               @ nat_dec (to_u64 mx)) path
        else Inr ()))
      else Inr ())"

definition check_format :: "schema_statics \<Rightarrow> json_step list \<Rightarrow> 'd schema \<Rightarrow> json_step list \<Rightarrow> string \<Rightarrow> gb_exn + unit" where
  "check_format st sp schema path str =
     res_bind (if json_hasKey ''format'' schema
               then res_bind (json_get sp ''format'' schema) (json_as_string (sp @ [Key ''format'']))
               else Inr (sch_default_format st)) (\<lambda>format.
     if format = [] then Inr ()
     else (case smap_find (sch_formats st) format of
             None \<Rightarrow> Inr ()
           | Some checker \<Rightarrow>
               if \<not> checker str then handleError (''value does not match required schema format '' @ format) path
               else Inr ()))"

definition check_pattern :: "'d json_lib \<Rightarrow> json_step list \<Rightarrow> 'd schema \<Rightarrow> json_step list \<Rightarrow> string \<Rightarrow> gb_exn + unit" where
  "check_pattern lib sp schema path str =
     (if json_hasKey ''pattern'' schema then
        res_bind (json_get sp ''pattern'' schema) (\<lambda>p.
        res_bind (json_as_string (sp @ [Key ''pattern'']) p) (\<lambda>rx.
        res_bind (regex_match lib rx str) (\<lambda>matches.
        if \<not> matches then handleError (''value does not match schema pattern '' @ quoted rx) path
        else Inr ())))
      else Inr ())"

text \<open>The enumeration compares scalars of the same type; a member that is no array allows nothing.\<close>

definition enum_match :: "'d json_lib \<Rightarrow> 'd json \<Rightarrow> 'd json \<Rightarrow> bool" where
  "enum_match lib e j = (case (e, j) of
     (JInt x, JInt y) \<Rightarrow> x = y
   | (JDouble x, JDouble y) \<Rightarrow> d_eq lib x y
   | (JBool x, JBool y) \<Rightarrow> x = y
   | (JString x, JString y) \<Rightarrow> x = y
   | _ \<Rightarrow> False)"

definition check_enum :: "'d json_lib \<Rightarrow> json_step list \<Rightarrow> 'd schema \<Rightarrow> json_step list \<Rightarrow> 'd json \<Rightarrow> gb_exn + unit" where
  "check_enum lib sp schema path j =
     (if json_hasKey ''enum'' schema then
        res_bind (json_get sp ''enum'' schema) (\<lambda>e.
        if list_ex (\<lambda>x. enum_match lib x j) (case e of JArray a \<Rightarrow> a | _ \<Rightarrow> [])
        then Inr ()
        else handleError ''value is not valid in schema enum'' path)
      else Inr ())"

definition validValue ::
    "'d json_lib \<Rightarrow> schema_statics \<Rightarrow> json_step list \<Rightarrow> 'd schema \<Rightarrow> json_step list \<Rightarrow> 'd json \<Rightarrow> gb_exn + unit" where
  "validValue lib st sp schema path j =
     res_bind (check_minimum lib sp schema path j) (\<lambda>_.
     res_bind (check_maximum lib sp schema path j) (\<lambda>_.
     res_bind (check_maxDecimal lib sp schema path j) (\<lambda>_.
     res_bind (case j of
         JString str \<Rightarrow>
           res_bind (check_minLength sp schema path str) (\<lambda>_.
           res_bind (check_maxLength sp schema path str) (\<lambda>_.
           res_bind (check_format st sp schema path str) (\<lambda>_.
           check_pattern lib sp schema path str)))
       | _ \<Rightarrow> Inr ()) (\<lambda>_.
     check_enum lib sp schema path j))))"

section \<open>Required and default properties\<close>

definition is_optional :: "json_step list \<Rightarrow> 'd schema \<Rightarrow> gb_exn + bool" where
  "is_optional sp s =
     (if json_hasKey ''optional'' s
      then res_bind (json_get sp ''optional'' s) (json_as_bool (sp @ [Key ''optional'']))
      else Inr False)"

definition require_key :: "string \<Rightarrow> json_step list \<Rightarrow> 'd json \<Rightarrow> string \<Rightarrow> gb_exn + unit" where
  "require_key prop path object req =
     (if \<not> json_hasKey req object
      then handleError (''property '' @ quoted prop @ '' requires additional property '' @ quoted req
             @ '' to be set according to schema'') path
      else Inr ())"

fun require_keys :: "json_step list \<Rightarrow> nat \<Rightarrow> string \<Rightarrow> json_step list \<Rightarrow> 'd json \<Rightarrow> 'd json list \<Rightarrow> gb_exn + unit" where
  "require_keys sp i prop path object [] = Inr ()"
| "require_keys sp i prop path object (r # rs) =
     res_bind (json_as_string (sp @ [Index i]) r) (\<lambda>req.
     res_bind (require_key prop path object req) (\<lambda>_. require_keys sp (i + 1) prop path object rs))"

definition check_requires :: "json_step list \<Rightarrow> 'd schema \<Rightarrow> string \<Rightarrow> json_step list \<Rightarrow> 'd json \<Rightarrow> gb_exn + unit" where
  "check_requires sp s prop path object =
     res_bind (if json_hasKey ''requires'' s then is_optional sp s else Inr False) (\<lambda>opt.
     if opt \<and> json_hasKey prop object then
       res_bind (json_get sp ''requires'' s) (\<lambda>r. case r of
         JString req \<Rightarrow> require_key prop path object req
       | JArray rs \<Rightarrow> require_keys (sp @ [Key ''requires'']) 0 prop path object rs
       | _ \<Rightarrow> Inr ())
     else Inr ())"

fun requires_loop :: "json_step list \<Rightarrow> (string \<times> 'd schema) list \<Rightarrow> json_step list \<Rightarrow> 'd json \<Rightarrow> gb_exn + unit" where
  "requires_loop sp [] path object = Inr ()"
| "requires_loop sp ((prop, s) # props) path object =
     res_bind (check_requires (sp @ [Key prop]) s prop path object) (\<lambda>_.
     res_bind (is_optional (sp @ [Key prop]) s) (\<lambda>opt.
     if opt then requires_loop sp props path object
     else if \<not> json_hasKey prop object
     then handleError (''non-optional property '' @ quoted prop @ '' is missing'') path
     else requires_loop sp props path object))"

definition schema_properties :: "json_step list \<Rightarrow> 'd schema \<Rightarrow> gb_exn + (string \<times> 'd schema) list" where
  "schema_properties sp schema =
     (if json_hasKey ''properties'' schema
      then res_bind (json_get sp ''properties'' schema) (json_as_object (sp @ [Key ''properties'']))
      else Inr [])"

definition validRequires :: "json_step list \<Rightarrow> 'd schema \<Rightarrow> json_step list \<Rightarrow> 'd json \<Rightarrow> gb_exn + unit" where
  "validRequires sp schema path object =
     res_bind (schema_properties sp schema) (\<lambda>props. requires_loop (sp @ [Key ''properties'']) props path object)"

fun defaults_loop :: "'d json_lib \<Rightarrow> json_step list \<Rightarrow> (string \<times> 'd schema) list \<Rightarrow> 'd json \<Rightarrow> gb_exn + 'd json" where
  "defaults_loop lib sp [] object = Inr object"
| "defaults_loop lib sp ((prop, s) # props) object =
     (if json_hasKey ''default'' s \<and> \<not> json_hasKey prop object then
        res_bind (json_get (sp @ [Key prop]) ''default'' s) (\<lambda>d.
        res_bind (typeFixup lib (sp @ [Key prop]) s d) (\<lambda>d'.
        res_bind (json_set prop (json_copy d') object) (\<lambda>object'.
        defaults_loop lib sp props object')))
      else defaults_loop lib sp props object)"

definition setDefaults :: "'d json_lib \<Rightarrow> json_step list \<Rightarrow> 'd schema \<Rightarrow> 'd json \<Rightarrow> gb_exn + 'd json" where
  "setDefaults lib sp schema object =
     res_bind (schema_properties sp schema) (\<lambda>props. defaults_loop lib (sp @ [Key ''properties'']) props object)"

section \<open>Validation of a document\<close>

lemma fixup_one_container [simp]:
  "fixup_one lib ty j = JObject o' \<longleftrightarrow> j = JObject o'" "fixup_one lib ty j = JArray a \<longleftrightarrow> j = JArray a"
  by (auto simp: fixup_one_def split: json.splits)

lemma fixup_loop_container:
  "fixup_loop lib sp i ts j = Inr (JObject o') \<Longrightarrow> j = JObject o'"
  "fixup_loop lib sp i ts j = Inr (JArray a) \<Longrightarrow> j = JArray a"
  by (induction lib sp i ts j rule: fixup_loop.induct) (auto simp: res_bind_def split: sum.splits)

lemma typeFixup_container:
  "typeFixup lib sp schema j = Inr (JObject o') \<Longrightarrow> j = JObject o'"
  "typeFixup lib sp schema j = Inr (JArray a) \<Longrightarrow> j = JArray a"
  by (auto simp: typeFixup_def res_bind_def split: if_splits sum.splits json.splits
      dest: fixup_loop_container)

text \<open>
  \<^verbatim>\<open>validate\<close>, \<^verbatim>\<open>validateObject\<close> and \<^verbatim>\<open>validateArray\<close>: the value as the validation leaves it, with
  numbers fixed up and default properties filled in. Members are visited in key order.
\<close>

function (sequential)
  validate :: "'d json_lib \<Rightarrow> schema_statics \<Rightarrow> json_step list \<Rightarrow> 'd schema \<Rightarrow> json_step list \<Rightarrow> 'd json \<Rightarrow> gb_exn + 'd json"
and validate_members :: "'d json_lib \<Rightarrow> schema_statics \<Rightarrow> json_step list \<Rightarrow> 'd schema \<Rightarrow> json_step list
      \<Rightarrow> (string \<times> 'd json) list \<Rightarrow> gb_exn + (string \<times> 'd json) list"
and validate_elems :: "'d json_lib \<Rightarrow> schema_statics \<Rightarrow> json_step list \<Rightarrow> 'd schema \<Rightarrow> json_step list
      \<Rightarrow> nat \<Rightarrow> 'd json list \<Rightarrow> gb_exn + 'd json list"
where
  "validate lib st sp schema path j =
     res_bind (validType sp schema path j) (\<lambda>_.
     res_bind (typeFixup lib sp schema j) (\<lambda>j'. case j' of
       JUndef \<Rightarrow> Inr j'
     | JObject o' \<Rightarrow>
         res_bind (validate_members lib st sp schema path o') (\<lambda>o2.
         res_bind (setDefaults lib sp schema (JObject o2)) (\<lambda>j2.
         res_bind (validRequires sp schema path j2) (\<lambda>_. Inr j2)))
     | JArray a \<Rightarrow>
         res_bind (validMinSize sp schema path (length a)) (\<lambda>_.
         res_bind (validMaxSize sp schema path (length a)) (\<lambda>_.
         res_bind (validate_elems lib st sp schema path 0 a) (\<lambda>a2. Inr (JArray a2))))
     | _ \<Rightarrow> res_bind (validValue lib st sp schema path j') (\<lambda>_. Inr j')))"
| "validate_members lib st sp schema path [] = Inr []"
| "validate_members lib st sp schema path ((k, v) # kvs) =
     res_bind (getChildSchema_key sp schema k (path @ [Key k])) (\<lambda>(sp', s').
     res_bind (validate lib st sp' s' (path @ [Key k]) v) (\<lambda>v'.
     res_bind (validate_members lib st sp schema path kvs) (\<lambda>kvs'. Inr ((k, v') # kvs'))))"
| "validate_elems lib st sp schema path i [] = Inr []"
| "validate_elems lib st sp schema path i (v # vs) =
     res_bind (getChildSchema_at sp schema i (path @ [Index i])) (\<lambda>(sp', s').
     res_bind (validate lib st sp' s' (path @ [Index i]) v) (\<lambda>v'.
     res_bind (validate_elems lib st sp schema path (i + 1) vs) (\<lambda>vs'. Inr (v' # vs'))))"
  by pat_completeness auto

termination
  by (relation "measure (\<lambda>x. case x of
        Inl (_, _, _, _, _, j) \<Rightarrow> Suc (2 * size j)
      | Inr (Inl (_, _, _, _, _, kvs)) \<Rightarrow> 2 * size_list (size_prod (\<lambda>_. 0) size) kvs
      | Inr (Inr (_, _, _, _, _, _, vs)) \<Rightarrow> 2 * size_list size vs)")
    (auto dest!: typeFixup_container)

text \<open>\<^verbatim>\<open>Json::validate\<close> on a whole document.\<close>

definition json_validate :: "'d json_lib \<Rightarrow> schema_statics \<Rightarrow> 'd schema \<Rightarrow> 'd json \<Rightarrow> gb_exn + 'd json" where
  "json_validate lib st schema j = validate lib st [] schema [] j"

section \<open>What a validated object satisfies\<close>

lemma res_bind_Inr: "res_bind m f = Inr y \<longleftrightarrow> (\<exists>x. m = Inr x \<and> f x = Inr y)"
  by (cases m) (auto simp: res_bind_def)

lemma handleError_not_Inr [simp]: "handleError msg path \<noteq> Inr x"
  by (simp add: handleError_def)

lemma json_hasKey_find: "json_hasKey k (JObject o') \<longleftrightarrow> (\<exists>v. smap_find o' k = Some v)"
  by (auto simp: json_hasKey_def)

lemma json_set_object_find:
  assumes "json_set k v (JObject o') = Inr j"
  obtains o2 where "j = JObject o2" and "\<And>k'. smap_find o2 k' = (if k' = k then Some v else smap_find o' k')"
  using assms that
  by (auto simp: json_set_def json_upd_key_def json_ref_key_def json_addKey_def json_as_object_def
      smap_insert_def smap_find_put res_bind_Inr split: option.splits if_splits)

lemma validate_members_keys:
  "validate_members lib st sp schema path kvs = Inr kvs' \<Longrightarrow> map fst kvs' = map fst kvs"
  by (induction kvs arbitrary: kvs') (auto simp: res_bind_Inr)

text \<open>Filling in defaults keeps every member that is there and adds only members of the schema.\<close>

lemma defaults_loop_keys:
  assumes "defaults_loop lib sp props (JObject o') = Inr j"
  shows "\<exists>o2. j = JObject o2 \<and> (\<forall>k. smap_find o' k \<noteq> None \<longrightarrow> smap_find o2 k = smap_find o' k)
    \<and> (\<forall>k. smap_find o2 k \<noteq> None \<longrightarrow> smap_find o' k \<noteq> None \<or> k \<in> fst ` set props)"
  using assms
proof (induction props arbitrary: o')
  case (Cons ps props)
  obtain nm s where ps: "ps = (nm, s)" by (cases ps)
  show ?case
  proof (cases "json_hasKey ''default'' s \<and> \<not> json_hasKey nm (JObject o')")
    case True
    with Cons.prems ps obtain d j1 where set1: "json_set nm d (JObject o') = Inr j1"
      and rest: "defaults_loop lib sp props j1 = Inr j"
      by (auto simp: res_bind_Inr)
    obtain o1 where o1: "j1 = JObject o1" "\<And>k'. smap_find o1 k' = (if k' = nm then Some d else smap_find o' k')"
      by (rule json_set_object_find [OF set1]) blast
    from Cons.IH [of o1] rest o1(1) obtain o2 where oo: "j = JObject o2"
      "\<forall>k. smap_find o1 k \<noteq> None \<longrightarrow> smap_find o2 k = smap_find o1 k"
      "\<forall>k. smap_find o2 k \<noteq> None \<longrightarrow> smap_find o1 k \<noteq> None \<or> k \<in> fst ` set props" by auto
    have "smap_find o' nm = None" using True by (simp add: json_hasKey_def)
    with o1(2) oo ps show ?thesis by (intro exI [of _ o2]) (auto split: if_splits)
  next
    case False
    with Cons.prems ps have "defaults_loop lib sp props (JObject o') = Inr j" by auto
    from Cons.IH [OF this] ps show ?thesis by (simp, blast)
  qed
qed auto

lemma requires_loop_present:
  "requires_loop sp props path object = Inr () \<Longrightarrow> (p, s) \<in> set props \<Longrightarrow>
   is_optional (sp @ [Key p]) s = Inr True \<or> json_hasKey p object"
  by (induction props) (auto simp: res_bind_Inr split: if_splits)

text \<open>A property whose schema does not say that it is optional.\<close>

definition required_property :: "'d schema \<Rightarrow> bool" where
  "required_property s \<longleftrightarrow> (case s of
     JObject o' \<Rightarrow> (case smap_find o' ''optional'' of Some (JBool b) \<Rightarrow> \<not> b | _ \<Rightarrow> True)
   | _ \<Rightarrow> True)"

lemma is_optional_required: "is_optional sp s = Inr True \<Longrightarrow> \<not> required_property s"
  by (auto simp: is_optional_def required_property_def json_hasKey_def json_get_def json_as_bool_def
      assertType_def handleError_def res_bind_def split: json.splits option.splits if_splits)

text \<open>The members a schema object gives its properties and the ones it excludes.\<close>

definition no_additional :: "(string, 'd json) smap \<Rightarrow> bool" where
  "no_additional sch \<longleftrightarrow> smap_find sch ''additionalProperties'' = Some (JBool False)"

lemma getAdditionalProperties_none:
  "no_additional sch \<Longrightarrow> getAdditionalProperties sp (JObject sch) = Inr (None, JObject sch)"
  by (simp add: no_additional_def getAdditionalProperties_def json_hasKey_def json_get_def res_bind_def)

lemma validate_members_allowed:
  assumes "no_additional sch" and "smap_find sch ''properties'' = Some (JObject props)"
    and "validate_members lib st sp (JObject sch) path kvs = Inr kvs'"
  shows "\<forall>k \<in> fst ` set kvs. k \<in> fst ` set props"
  using assms(3)
proof (induction kvs arbitrary: kvs')
  case (Cons kv kvs)
  obtain k v where kv: "kv = (k, v)" by (cases kv)
  from Cons.prems kv obtain r vs where child: "getChildSchema_key sp (JObject sch) k (path @ [Key k]) = Inr r"
    and rest: "validate_members lib st sp (JObject sch) path kvs = Inr vs"
    by (auto simp: res_bind_Inr)
  have "smap_find props k \<noteq> None"
    using child assms(1,2)
    by (auto simp: getChildSchema_key_def getAdditionalProperties_none json_hasKey_def json_get_def
        handleError_def res_bind_def split: if_splits)
  then have "k \<in> fst ` set props" by (force simp: smap_find_def dest: map_of_SomeD)
  with Cons.IH [OF rest] kv show ?case by simp
qed simp

lemma fixup_loop_object: "fixup_loop lib sp i ts (JObject o') = Inr x \<Longrightarrow> x = JObject o'"
  by (induction ts arbitrary: i) (auto simp: res_bind_Inr fixup_one_def)

lemma typeFixup_object: "typeFixup lib sp schema (JObject o') = Inr x \<Longrightarrow> x = JObject o'"
proof (cases "json_get sp ''type'' schema")
  case (Inr tl)
  then show "typeFixup lib sp schema (JObject o') = Inr x \<Longrightarrow> x = JObject o'"
    by (cases tl) (auto simp: typeFixup_def res_bind_Inr fixup_one_def split: if_splits dest: fixup_loop_object)
qed (auto simp: typeFixup_def res_bind_Inr split: if_splits)

text \<open>
  C14: an object that validates keeps all its members, has every property the schema does not mark
  optional, and, where the schema rules additional properties out, no member the schema does not name.
\<close>

theorem validate_object_sound:
  assumes ok: "json_validate lib st (JObject sch) (JObject o1) = Inr j"
    and props: "smap_find sch ''properties'' = Some (JObject props)"
  shows "\<exists>o2. j = JObject o2
    \<and> (\<forall>k. json_hasKey k (JObject o1) \<longrightarrow> json_hasKey k j)
    \<and> (\<forall>(p, s) \<in> set props. required_property s \<longrightarrow> json_hasKey p j)
    \<and> (no_additional sch \<longrightarrow> (\<forall>k. json_hasKey k j \<longrightarrow> k \<in> fst ` set props))"
proof -
  have schp: "schema_properties sp (JObject sch) = Inr props" for sp
    using props by (simp add: schema_properties_def json_hasKey_def json_get_def json_as_object_def)
  have "typeFixup lib [] (JObject sch) (JObject o1) = Inr x \<Longrightarrow> x = JObject o1" for x
    by (rule typeFixup_object)
  with ok obtain o2 j2 where mem: "validate_members lib st [] (JObject sch) [] o1 = Inr o2"
    and def: "defaults_loop lib [Key ''properties''] props (JObject o2) = Inr j2"
    and req: "requires_loop [Key ''properties''] props [] j2 = Inr ()" and j: "j = j2"
    by (auto simp: json_validate_def res_bind_Inr setDefaults_def validRequires_def schp)
  obtain o3 where o3: "j2 = JObject o3" "\<forall>k. smap_find o2 k \<noteq> None \<longrightarrow> smap_find o3 k = smap_find o2 k"
      "\<forall>k. smap_find o3 k \<noteq> None \<longrightarrow> smap_find o2 k \<noteq> None \<or> k \<in> fst ` set props"
    using defaults_loop_keys [OF def] by blast
  have keys: "smap_find o2 k \<noteq> None \<longleftrightarrow> smap_find o1 k \<noteq> None" for k
    using validate_members_keys [OF mem] by (auto simp: smap_find_def map_of_eq_None_iff simp flip: set_map)
  have "required_property s \<Longrightarrow> json_hasKey p j" if "(p, s) \<in> set props" for p s
    using requires_loop_present [OF req that] is_optional_required j by blast
  moreover have "json_hasKey k j" if "json_hasKey k (JObject o1)" for k
    using that o3(1,2) keys j by (auto simp: json_hasKey_def)
  moreover have "k \<in> fst ` set props" if "no_additional sch" "json_hasKey k j" for k
  proof -
    have "smap_find o2 k \<noteq> None \<or> k \<in> fst ` set props" using that(2) o3(1,3) j by (auto simp: json_hasKey_def)
    moreover have "k \<in> fst ` set o1" if "smap_find o2 k \<noteq> None"
      using that keys by (force simp: smap_find_def dest: map_of_SomeD)
    ultimately show ?thesis using validate_members_allowed [OF that(1) props mem] by blast
  qed
  ultimately show ?thesis using j o3(1) by blast
qed

text \<open>A library whose doubles are natural numbers, to evaluate the definitions with.\<close>

definition demo_lib :: "nat json_lib" where
  "demo_lib = \<lparr>d_eq = (=), d_le = (\<le>), d_of_int = nat, d_show = nat_dec, d_read = (\<lambda>_. None),
     regex_match = (\<lambda>_ _. Inr True), inet_pton4 = (\<lambda>_. True), inet_pton6 = (\<lambda>_. True),
     uri_regex = (\<lambda>_. True), yajl_lex = (\<lambda>_. ([], None)), yajl_print = (\<lambda>_. [])\<rparr>"

definition demo_props :: "(string \<times> nat json) list" where
  "demo_props = [(''a'', JObject [(''type'', JString ''string'')]),
     (''b'', JObject [(''default'', JInt 3), (''optional'', JBool True)])]"

definition demo_sch :: "(string \<times> nat json) list" where
  "demo_sch = [(''additionalProperties'', JBool False), (''properties'', JObject demo_props)]"

theorem validate_object_sound_witness:
  "\<exists>o2. (JObject [(''a'', JString ''x''), (''b'', JInt 3)] :: nat json) = JObject o2
    \<and> (\<forall>k. json_hasKey k (JObject [(''a'', JString ''x'')] :: nat json)
         \<longrightarrow> json_hasKey k (JObject [(''a'', JString ''x''), (''b'', JInt 3)] :: nat json))
    \<and> (\<forall>(p, s) \<in> set demo_props. required_property s
         \<longrightarrow> json_hasKey p (JObject [(''a'', JString ''x''), (''b'', JInt 3)] :: nat json))
    \<and> (no_additional demo_sch \<longrightarrow> (\<forall>k. json_hasKey k (JObject [(''a'', JString ''x''), (''b'', JInt 3)] :: nat json)
         \<longrightarrow> k \<in> fst ` set demo_props))"
proof (rule validate_object_sound)
  show "json_validate demo_lib (FormatMap demo_lib) (JObject demo_sch) (JObject [(''a'', JString ''x'')])
      = Inr (JObject [(''a'', JString ''x''), (''b'', JInt 3)])" by code_simp
  show "smap_find demo_sch ''properties'' = Some (JObject demo_props)" by code_simp
qed

text \<open>
  The fix-up of numbers goes through a 32-bit integer: where the schema asks for a number, an
  integer that does not fit is replaced by the double of its low 32 bits.
\<close>

theorem typeFixup_truncates:
  "json_validate lib st (JObject [(''type'', JString ''number'')]) (JInt (2 ^ 32 + 1))
     = Inr (JDouble (d_of_int lib 1))"
  by (simp add: json_validate_def validType_def typeListContains_def typeFixup_def fixup_one_def json_hasKey_def
      json_get_def json_as_string_def smap_find_def type_matches_def validValue_def check_minimum_def
      check_maximum_def check_maxDecimal_def check_enum_def wrap_s32_def)

text \<open>
  A double that prints without a dot is counted as having as many decimals as it has
  characters, so a schema that allows no decimals rejects a whole number.
\<close>

theorem maxDecimal_rejects_whole:
  assumes "CHR ''.'' \<notin> set (d_show lib d)" and "d_show lib d \<noteq> []" and "length (d_show lib d) < 2 ^ 32"
  shows "decimals_of (d_show lib d) = length (d_show lib d)
    \<and> (\<exists>e. json_validate lib st (JObject [(''maxDecimal'', JInt 0)]) (JDouble d) = Inl e)"
proof -
  have "str_find_if (\<lambda>c. c = CHR ''.'') (d_show lib d) = None"
    using assms(1) by (auto simp: str_find_if_None)
  then have dec: "decimals_of (d_show lib d) = length (d_show lib d)"
    using assms(3) by (simp add: decimals_of_def npos_def unsigned_of_nat take_bit_eq_mod)
  have "to_u64 0 < decimals_of (d_show lib d)" using dec assms(2) by (simp add: to_u64_def)
  then have "\<exists>e. json_validate lib st (JObject [(''maxDecimal'', JInt 0)]) (JDouble d) = Inl e"
    by (simp add: json_validate_def validType_def typeFixup_def json_hasKey_def json_get_def smap_find_def
        validValue_def check_minimum_def check_maximum_def check_maxDecimal_def json_as_int64_def handleError_def)
  with dec show ?thesis by blast
qed

theorem maxDecimal_rejects_whole_witness:
  "decimals_of (d_show demo_lib 5) = length (d_show demo_lib 5)
    \<and> (\<exists>e. json_validate demo_lib (FormatMap demo_lib) (JObject [(''maxDecimal'', JInt 0)]) (JDouble 5) = Inl e)"
proof -
  have "d_show demo_lib 5 = ''5''" by code_simp
  then show ?thesis by (intro maxDecimal_rejects_whole) simp_all
qed

section \<open>Additional properties\<close>

lemma additional_properties_any:
  "smap_find m ''additionalProperties'' = Some any_schema \<Longrightarrow>
   getAdditionalProperties sp (JObject m) = Inr (Some any_schema, JObject m)"
  by (simp add: getAdditionalProperties_def json_hasKey_def json_get_def any_schema_def)

text \<open>The call leaves an object schema as it is or writes the permissive one into it.\<close>

lemma additional_properties_cases:
  assumes "getAdditionalProperties sp schema = Inr (r, schema')"
  obtains (same) "schema' = schema" and "json_type_of schema = Json_OBJECT"
    | (written) "r = Some any_schema"
        and "json_upd_key sp ''additionalProperties'' (\<lambda>_. Inr any_schema) schema = Inr schema'"
proof (cases "json_hasKey ''additionalProperties'' schema")
  case True
  then obtain m v where m: "schema = JObject m" "smap_find m ''additionalProperties'' = Some v"
    by (cases schema) (auto simp: json_hasKey_def)
  have eval: "json_get sp ''additionalProperties'' schema = Inr v" using m by (simp add: json_get_def)
  show ?thesis
  proof (cases "v = JBool True")
    case bool: True
    with assms True eval show ?thesis
      by (intro written) (auto simp: getAdditionalProperties_def res_bind_Inr)
  next
    case False
    with assms True eval m(1) show ?thesis
      by (intro same) (cases v; auto simp: getAdditionalProperties_def split: bool.splits)+
  qed
next
  case False
  with assms show ?thesis
    by (intro written) (auto simp: getAdditionalProperties_def res_bind_Inr)
qed

text \<open>
  The schema that \<^verbatim>\<open>getAdditionalProperties\<close> writes back says what it said before: asking again gives
  the same answer and changes nothing, and no other member of the schema reads differently.
\<close>

theorem additional_properties_stable:
  assumes "json_wf schema" and "getAdditionalProperties sp schema = Inr (r, schema')"
  shows "getAdditionalProperties sp schema' = Inr (r, schema')
    \<and> (\<forall>k p. k \<noteq> ''additionalProperties'' \<longrightarrow> json_get p k schema' = json_get p k (JObject (members schema)))"
proof (cases "is_objectlike schema")
  case True
  have upd: "json_upd_key sp ''additionalProperties'' (\<lambda>_. Inr any_schema) schema
      = Inr (JObject (smap_put ''additionalProperties'' any_schema (members schema)))"
    by (rule json_upd_key_const [OF assms(1) True])
  from assms(2) show ?thesis
  proof (cases rule: additional_properties_cases)
    case same
    with assms(2) have "json_get p k schema' = json_get p k (JObject (members schema))" for p k
      by (cases schema) (simp_all add: members_def)
    with same assms(2) show ?thesis by simp
  next
    case written
    with upd have s': "schema' = JObject (smap_put ''additionalProperties'' any_schema (members schema))" by simp
    have "smap_find (smap_put ''additionalProperties'' any_schema (members schema)) ''additionalProperties''
        = Some any_schema" by (simp only: smap_find_put refl if_True)
    from additional_properties_any [OF this] written s' show ?thesis
      by (simp add: json_get_def smap_find_put)
  qed
next
  case False
  with assms(2) show ?thesis
    by (cases schema) (auto simp: is_objectlike_def getAdditionalProperties_def json_hasKey_def json_upd_key_def
        json_ref_key_def res_bind_Inr)
qed

theorem additional_properties_stable_witness:
  "let sch = JObject [(''additionalProperties'', any_schema), (''type'', JString ''object'')] :: nat json
   in getAdditionalProperties [] sch = Inr (Some any_schema, sch) \<and> json_get [] ''type'' sch = Inr (JString ''object'')"
proof -
  have wf: "json_wf (JObject [(''type'', JString ''object'')] :: nat json)" by simp
  have ask: "getAdditionalProperties [] (JObject [(''type'', JString ''object'')] :: nat json)
     = Inr (Some any_schema, JObject [(''additionalProperties'', any_schema), (''type'', JString ''object'')])"
    by code_simp
  have old: "json_get [] ''type'' (JObject (members (JObject [(''type'', JString ''object'')])) :: nat json)
      = Inr (JString ''object'')" by code_simp
  have "''type'' \<noteq> ''additionalProperties''" by simp
  with additional_properties_stable [OF wf ask] old show ?thesis unfolding Let_def by metis
qed

end
