(* ===== verification/GB_JsonIO.thy ===== *)
theory GB_JsonIO
  imports GB_JsonSchema
begin

text \<open>
  \<^verbatim>\<open>core/JsonParser.cc\<close> and \<^verbatim>\<open>core/JsonGenerator.cc\<close>. The parser is the set of callbacks that yajl
  drives: a cursor into the tree under construction and a cursor into the schema. The cursor is a
  zipper: the node and, outwards, the containers it sits in. The generator is the sequence of
  yajl calls. Text is on the other side of yajl, which is a parameter.
\<close>

section \<open>The generator\<close>

function generate :: "'d json_lib \<Rightarrow> 'd json \<Rightarrow> json_event list"
  and generate_members :: "'d json_lib \<Rightarrow> (string \<times> 'd json) list \<Rightarrow> json_event list"
  and generate_elems :: "'d json_lib \<Rightarrow> 'd json list \<Rightarrow> json_event list" where
  "generate lib JUndef = [EvNull]"
| "generate lib (JBool b) = [EvBool b]"
| "generate lib (JInt i) = [EvNumber (int_dec i)]"
| "generate lib (JDouble d) = [EvNumber (d_show lib d)]"
| "generate lib (JString s) = [EvString s]"
| "generate lib (JObject o') = EvStartMap # generate_members lib o' @ [EvEndMap]"
| "generate lib (JArray a) = EvStartArray # generate_elems lib a @ [EvEndArray]"
| "generate_members lib [] = []"
| "generate_members lib ((k, v) # kvs) = EvMapKey k # generate lib v @ generate_members lib kvs"
| "generate_elems lib [] = []"
| "generate_elems lib (v # vs) = generate lib v @ generate_elems lib vs"
  by pat_completeness auto

termination
  by (relation "measure (\<lambda>x. case x of
        Inl (_, j) \<Rightarrow> Suc (2 * size j)
      | Inr (Inl (_, kvs)) \<Rightarrow> 2 * size_list (size_prod (\<lambda>_. 0) size) kvs
      | Inr (Inr (_, vs)) \<Rightarrow> 2 * size_list size vs)") auto

definition json_serialize :: "'d json_lib \<Rightarrow> 'd json \<Rightarrow> string" where
  "json_serialize lib j = yajl_print lib (generate lib j)"

section \<open>The parser's state\<close>

datatype 'd frame =
    InObject "(string \<times> 'd json) list" string
  | InArray "'d json list"

text \<open>
  The members of \<^verbatim>\<open>Context\<close>: the node at the cursor, none once the cursor has left the root; the
  containers around it, innermost first; the finished root; the schemas from the current one
  outwards, none when the document is parsed without a schema.
\<close>

record 'd pctx =
  p_cursor :: "'d json option"
  p_frames :: "'d frame list"
  p_root :: "'d json"
  p_schemas :: "(json_step list \<times> 'd schema) list"

primrec frame_step :: "'d frame \<Rightarrow> json_step" where
  "frame_step (InObject es k) = Key k"
| "frame_step (InArray es) = Index (length es)"

definition cursor_path :: "'d pctx \<Rightarrow> json_step list" where
  "cursor_path c = rev (map frame_step (p_frames c))"

primrec plug :: "'d frame \<Rightarrow> 'd json \<Rightarrow> 'd json" where
  "plug (InObject es k) v = JObject (smap_put k v es)"
| "plug (InArray es) v = JArray (es @ [v])"

text \<open>
  A callback returns 1, or 0 after it stored the text of the exception it caught. With no node at
  the cursor it dereferences a null pointer, and the asserts abort: both are the outcome \<open>None\<close>.
\<close>

type_synonym 'd callback = "'d pctx \<Rightarrow> (string + 'd pctx) option"

definition caught :: "gb_exn + 'a \<Rightarrow> ('a \<Rightarrow> (string + 'd pctx) option) \<Rightarrow> (string + 'd pctx) option" where
  "caught r f = (case r of Inl e \<Rightarrow> Some (Inl (err_what e)) | Inr x \<Rightarrow> f x)"

definition setJsonUp :: "'d json \<Rightarrow> 'd pctx \<Rightarrow> 'd pctx" where
  "setJsonUp v c = (case p_frames c of
     [] \<Rightarrow> c\<lparr>p_cursor := None, p_root := v, p_schemas := tl (p_schemas c)\<rparr>
   | f # fs \<Rightarrow> c\<lparr>p_cursor := Some (plug f v), p_frames := fs, p_schemas := tl (p_schemas c)\<rparr>)"

text \<open>
  \<^verbatim>\<open>getObj\<close>: inside an array the cursor first moves to a new element, under the schema of that
  element. The array counts the new element when its size is checked.
\<close>

definition getObj :: "'d pctx \<Rightarrow> ('d json \<Rightarrow> 'd callback) \<Rightarrow> (string + 'd pctx) option" where
  "getObj c f = (case p_cursor c of
     None \<Rightarrow> None
   | Some (JArray es) \<Rightarrow>
       (let c' = c\<lparr>p_cursor := Some JUndef, p_frames := InArray es # p_frames c\<rparr> in
        case p_schemas c of
          [] \<Rightarrow> f JUndef c'
        | (sp, s) # ss \<Rightarrow>
            caught (validMaxSize sp s (cursor_path c) (length es + 1)) (\<lambda>_.
            caught (getChildSchema_at sp s (length es) (cursor_path c)) (\<lambda>child.
            f JUndef (c'\<lparr>p_schemas := child # p_schemas c\<rparr>))))
   | Some j \<Rightarrow> f j c)"

definition with_schema ::
    "'d pctx \<Rightarrow> (json_step list \<Rightarrow> 'd schema \<Rightarrow> gb_exn + 'a) \<Rightarrow> 'a \<Rightarrow> ('a \<Rightarrow> (string + 'd pctx) option) \<Rightarrow> (string + 'd pctx) option" where
  "with_schema c check dflt f = (case p_schemas c of
     [] \<Rightarrow> f dflt
   | (sp, s) # _ \<Rightarrow> caught (check sp s) f)"

section \<open>The callbacks\<close>

definition parse_null :: "'d callback" where
  "parse_null c = getObj c (\<lambda>cur c.
     if cur \<noteq> JUndef then None
     else with_schema c (\<lambda>sp s. validType sp s (cursor_path c) cur) () (\<lambda>_. Some (Inr (setJsonUp cur c))))"

definition parse_boolean :: "'d json_lib \<Rightarrow> schema_statics \<Rightarrow> bool \<Rightarrow> 'd callback" where
  "parse_boolean lib st b c = getObj c (\<lambda>cur c.
     if cur \<noteq> JUndef then None
     else with_schema c (\<lambda>sp s. res_bind (validType sp s (cursor_path c) (JBool b)) (\<lambda>_.
            validValue lib st sp s [] (JBool b))) ()
          (\<lambda>_. Some (Inr (setJsonUp (JBool b) c))))"

definition bad_lexical_cast :: gb_exn where
  "bad_lexical_cast = StdError ''bad lexical cast: source type value could not be interpreted as target''"

definition number_value :: "'d json_lib \<Rightarrow> string \<Rightarrow> gb_exn + 'd json" where
  "number_value lib t =
     (if str_find_if (\<lambda>c. c = CHR ''.'') t = None then
        (case lexical_cast_int t of
           Some i \<Rightarrow> if in_int64 i then Inr (JInt i) else Inl bad_lexical_cast
         | None \<Rightarrow> Inl bad_lexical_cast)
      else (case d_read lib t of Some d \<Rightarrow> Inr (JDouble d) | None \<Rightarrow> Inl bad_lexical_cast))"

definition parse_number :: "'d json_lib \<Rightarrow> schema_statics \<Rightarrow> string \<Rightarrow> 'd callback" where
  "parse_number lib st t c = getObj c (\<lambda>cur c.
     caught (number_value lib t) (\<lambda>v.
     with_schema c (\<lambda>sp s.
         res_bind (validType sp s (cursor_path c) v) (\<lambda>_.
         res_bind (validValue lib st sp s (cursor_path c) v) (\<lambda>_.
         typeFixup lib sp s v))) v
       (\<lambda>v'. Some (Inr (setJsonUp v' c)))))"

definition parse_string :: "'d json_lib \<Rightarrow> schema_statics \<Rightarrow> string \<Rightarrow> 'd callback" where
  "parse_string lib st str c = getObj c (\<lambda>cur c.
     if cur \<noteq> JUndef then None
     else with_schema c (\<lambda>sp s. res_bind (validType sp s (cursor_path c) (JString str)) (\<lambda>_.
            validValue lib st sp s (cursor_path c) (JString str))) ()
          (\<lambda>_. Some (Inr (setJsonUp (JString str) c))))"

definition parse_start_map :: "'d callback" where
  "parse_start_map c = getObj c (\<lambda>cur c.
     if cur \<noteq> JUndef then None
     else with_schema c (\<lambda>sp s. validType sp s (cursor_path c) (JObject [])) ()
          (\<lambda>_. Some (Inr (c\<lparr>p_cursor := Some (JObject [])\<rparr>))))"

definition parse_map_key :: "string \<Rightarrow> 'd callback" where
  "parse_map_key k c = (case p_cursor c of
     Some (JObject es) \<Rightarrow>
       with_schema c (\<lambda>sp s. map_sum id (\<lambda>child. [child]) (getChildSchema_key sp s k (cursor_path c))) []
         (\<lambda>child.
            if smap_find es k \<noteq> None then Some (Inl (''duplicate key name found: '' @ k))
            else Some (Inr (c\<lparr>p_cursor := Some JUndef, p_frames := InObject es k # p_frames c,
                              p_schemas := child @ p_schemas c\<rparr>)))
   | _ \<Rightarrow> None)"

definition parse_end_map :: "'d json_lib \<Rightarrow> 'd callback" where
  "parse_end_map lib c = (case p_cursor c of
     Some (JObject es) \<Rightarrow>
       with_schema c (\<lambda>sp s. res_bind (setDefaults lib sp s (JObject es)) (\<lambda>j.
           res_bind (validRequires sp s (cursor_path c) j) (\<lambda>_. Inr j))) (JObject es)
         (\<lambda>j. Some (Inr (setJsonUp j c)))
   | _ \<Rightarrow> None)"

definition parse_start_array :: "'d callback" where
  "parse_start_array c = getObj c (\<lambda>cur c.
     if cur \<noteq> JUndef then None
     else with_schema c (\<lambda>sp s. validType sp s (cursor_path c) (JArray [])) ()
          (\<lambda>_. Some (Inr (c\<lparr>p_cursor := Some (JArray [])\<rparr>))))"

definition parse_end_array :: "'d callback" where
  "parse_end_array c = (case p_cursor c of
     Some (JArray es) \<Rightarrow>
       with_schema c (\<lambda>sp s. validMinSize sp s (cursor_path c) (length es)) ()
         (\<lambda>_. Some (Inr (setJsonUp (JArray es) c)))
   | _ \<Rightarrow> None)"

section \<open>A parse\<close>

primrec parse_event :: "'d json_lib \<Rightarrow> schema_statics \<Rightarrow> json_event \<Rightarrow> 'd callback" where
  "parse_event lib st EvNull = parse_null"
| "parse_event lib st (EvBool b) = parse_boolean lib st b"
| "parse_event lib st (EvNumber t) = parse_number lib st t"
| "parse_event lib st (EvString s) = parse_string lib st s"
| "parse_event lib st EvStartMap = parse_start_map"
| "parse_event lib st (EvMapKey k) = parse_map_key k"
| "parse_event lib st EvEndMap = parse_end_map lib"
| "parse_event lib st EvStartArray = parse_start_array"
| "parse_event lib st EvEndArray = parse_end_array"

text \<open>yajl makes the callbacks in order and stops at the first that returns 0.\<close>

fun parse_events :: "'d json_lib \<Rightarrow> schema_statics \<Rightarrow> json_event list \<Rightarrow> 'd callback" where
  "parse_events lib st [] c = Some (Inr c)"
| "parse_events lib st (ev # evs) c = (case parse_event lib st ev c of
     Some (Inr c') \<Rightarrow> parse_events lib st evs c'
   | r \<Rightarrow> r)"

text \<open>
  \<^verbatim>\<open>Json::Parser::parse\<close>, for a document that is a root. A stored exception text is thrown first, then
  the parse error of yajl. The value is what the tree holds at the end: if no callback moved the
  cursor off the root, the unfinished root.
\<close>

definition root_of :: "'d pctx \<Rightarrow> 'd json" where
  "root_of c = (case p_cursor c of None \<Rightarrow> p_root c | Some j \<Rightarrow> foldl (\<lambda>v f. plug f v) j (p_frames c))"

definition json_parse ::
    "'d json_lib \<Rightarrow> schema_statics \<Rightarrow> 'd schema option \<Rightarrow> string \<Rightarrow> (gb_exn + 'd json) option" where
  "json_parse lib st schema content =
     (let (evs, err) = yajl_lex lib content;
          c0 = \<lparr>p_cursor = Some JUndef, p_frames = [], p_root = JUndef,
                p_schemas = (case schema of None \<Rightarrow> [] | Some s \<Rightarrow> [([], s)])\<rparr>
      in case parse_events lib st evs c0 of
           None \<Rightarrow> None
         | Some (Inl msg) \<Rightarrow>
             Some (Inl (if msg \<noteq> [] then JsonError (strlcpy msg 512)
                        else json_error_at [] (''parse error: '' @ (case err of None \<Rightarrow> [] | Some e \<Rightarrow> e))))
         | Some (Inr c) \<Rightarrow>
             Some (case err of
                Some e \<Rightarrow> Inl (json_error_at [] (''parse error: '' @ e))
              | None \<Rightarrow> Inr (root_of c)))"

section \<open>Serialising and parsing: lemmas\<close>

text \<open>The doubles of a document print with a dot and read back as themselves.\<close>

fun doubles_ok :: "'d json_lib \<Rightarrow> 'd json \<Rightarrow> bool" where
  "doubles_ok lib (JDouble d) = (CHR ''.'' \<in> set (d_show lib d) \<and> d_read lib (d_show lib d) = Some d)"
| "doubles_ok lib (JObject o') = list_all (\<lambda>(k, v). doubles_ok lib v) o'"
| "doubles_ok lib (JArray a) = list_all (doubles_ok lib) a"
| "doubles_ok lib _ = True"

text \<open>A cursor at which a value may come, without a schema: on a null node or on an array.\<close>

definition ready :: "'d pctx \<Rightarrow> bool" where
  "ready c \<longleftrightarrow> p_schemas c = [] \<and> (p_cursor c = Some JUndef \<or> (\<exists>es. p_cursor c = Some (JArray es)))"

definition opened :: "'d pctx \<Rightarrow> 'd pctx" where
  "opened c = (case p_cursor c of
     Some (JArray es) \<Rightarrow> c\<lparr>p_cursor := Some JUndef, p_frames := InArray es # p_frames c\<rparr>
   | _ \<Rightarrow> c)"

definition deliver :: "'d json \<Rightarrow> 'd pctx \<Rightarrow> 'd pctx" where
  "deliver v c = setJsonUp v (opened c)"

lemma getObj_ready: "ready c \<Longrightarrow> getObj c f = f JUndef (opened c)"
  by (auto simp: ready_def getObj_def opened_def Let_def)

lemma opened_schemas [simp]: "p_schemas (opened c) = p_schemas c"
  by (simp add: opened_def split: option.split json.split)

lemma with_schema_none: "p_schemas c = [] \<Longrightarrow> with_schema c chk dflt f = f dflt"
  by (simp add: with_schema_def)

lemma ready_opened: "ready c \<Longrightarrow> p_cursor (opened c) = Some JUndef \<and> p_schemas c = []"
  by (auto simp: ready_def opened_def)

lemma deliver_array:
  "p_cursor c = Some (JArray es) \<Longrightarrow> p_schemas c = [] \<Longrightarrow>
   deliver v c = c\<lparr>p_cursor := Some (JArray (es @ [v]))\<rparr>"
  by (simp add: deliver_def opened_def setJsonUp_def)

lemma number_value_int: "in_int64 i \<Longrightarrow> number_value lib (int_dec i) = Inr (JInt i)"
proof -
  have "CHR ''.'' \<notin> set (int_dec i)" using int_dec_chars [of "CHR ''.''" i] by (auto simp: is_digit_def)
  then have "str_find_if (\<lambda>c. c = CHR ''.'') (int_dec i) = None" by (auto simp: str_find_if_None)
  then show "in_int64 i \<Longrightarrow> number_value lib (int_dec i) = Inr (JInt i)" by (simp add: number_value_def)
qed

lemma number_value_double:
  "CHR ''.'' \<in> set (d_show lib d) \<Longrightarrow> d_read lib (d_show lib d) = Some d \<Longrightarrow>
   number_value lib (d_show lib d) = Inr (JDouble d)"
  using str_find_if_None [of "\<lambda>c. c = CHR ''.''" "d_show lib d"] by (auto simp: number_value_def)

lemma smap_put_last: "smap_wf (es @ [(k, v)]) \<Longrightarrow> smap_put k v es = es @ [(k, v)]"
  using fold_insert_append [of es "[(k, v)]"]
  by (auto simp: smap_insert_def smap_wf_def sorted_wrt_append smap_find_def map_of_eq_None_iff
      split: if_splits)

lemma parse_generate:
  "json_wf j \<Longrightarrow> doubles_ok lib j \<Longrightarrow> ready c \<Longrightarrow>
     parse_events lib st (generate lib j @ evs) c = parse_events lib st evs (deliver j c)"
  "list_all (\<lambda>(k, v). json_wf v) kvs \<Longrightarrow> list_all (\<lambda>(k, v). doubles_ok lib v) kvs \<Longrightarrow> smap_wf (es @ kvs) \<Longrightarrow>
     p_schemas c = [] \<Longrightarrow> p_cursor c = Some (JObject es) \<Longrightarrow>
     parse_events lib st (generate_members lib kvs @ evs) c =
     parse_events lib st evs (c\<lparr>p_cursor := Some (JObject (es @ kvs))\<rparr>)"
  "list_all json_wf vs \<Longrightarrow> list_all (doubles_ok lib) vs \<Longrightarrow>
     p_schemas c = [] \<Longrightarrow> p_cursor c = Some (JArray as) \<Longrightarrow>
     parse_events lib st (generate_elems lib vs @ evs) c =
     parse_events lib st evs (c\<lparr>p_cursor := Some (JArray (as @ vs))\<rparr>)"
proof (induction lib j and lib kvs and lib vs arbitrary: c evs and c es evs and c as evs
    rule: generate_generate_members_generate_elems.induct)
  case (6 lib o')
  let ?c = "(opened c)\<lparr>p_cursor := Some (JObject [])\<rparr>"
  have "parse_events lib st (generate lib (JObject o') @ evs) c
      = parse_events lib st (generate_members lib o' @ EvEndMap # evs) ?c"
    using 6 ready_opened [of c] by (simp add: parse_start_map_def getObj_ready with_schema_none)
  also have "\<dots> = parse_events lib st (EvEndMap # evs) (?c\<lparr>p_cursor := Some (JObject o')\<rparr>)"
    using 6 ready_opened [of c] by (subst 6(1) [where es = "[]"]) simp_all
  also have "\<dots> = parse_events lib st evs (deliver (JObject o') c)"
    using 6(4) ready_opened [of c]
    by (simp add: parse_end_map_def with_schema_none deliver_def setJsonUp_def split: list.split)
  finally show ?case .
next
  case (7 lib a)
  let ?c = "(opened c)\<lparr>p_cursor := Some (JArray [])\<rparr>"
  have "parse_events lib st (generate lib (JArray a) @ evs) c
      = parse_events lib st (generate_elems lib a @ EvEndArray # evs) ?c"
    using 7 ready_opened [of c] by (simp add: parse_start_array_def getObj_ready with_schema_none)
  also have "\<dots> = parse_events lib st (EvEndArray # evs) (?c\<lparr>p_cursor := Some (JArray a)\<rparr>)"
    using 7 ready_opened [of c] by (subst 7(1) [where as = "[]"]) simp_all
  also have "\<dots> = parse_events lib st evs (deliver (JArray a) c)"
    using 7(4) ready_opened [of c]
    by (simp add: parse_end_array_def with_schema_none deliver_def setJsonUp_def split: list.split)
  finally show ?case .
next
  case (8 lib)
  have "c\<lparr>p_cursor := Some (JObject es)\<rparr> = c" using 8(5) by (cases c) simp
  then show ?case by simp
next
  case (10 lib)
  have "c\<lparr>p_cursor := Some (JArray as)\<rparr> = c" using 10(4) by (cases c) simp
  then show ?case by simp
next
  case (9 lib k v kvs)
  have wf: "smap_wf (es @ [(k, v)])" "smap_wf ((es @ [(k, v)]) @ kvs)" and fresh: "smap_find es k = None"
    using 9(5) by (auto simp: smap_wf_def sorted_wrt_append smap_find_def map_of_eq_None_iff)
  let ?c = "c\<lparr>p_cursor := Some JUndef, p_frames := InObject es k # p_frames c\<rparr>"
  have "parse_events lib st (generate_members lib ((k, v) # kvs) @ evs) c
      = parse_events lib st (generate lib v @ generate_members lib kvs @ evs) ?c"
    using 9(7) fresh by (simp add: parse_map_key_def with_schema_none [OF 9(6)])
  also have "\<dots> = parse_events lib st (generate_members lib kvs @ evs) (deliver v ?c)"
    using 9 by (subst 9(1)) (simp_all add: ready_def)
  also have "deliver v ?c = c\<lparr>p_cursor := Some (JObject (es @ [(k, v)]))\<rparr>"
    using 9(6) smap_put_last [OF wf(1)] by (simp add: deliver_def opened_def setJsonUp_def)
  also have "parse_events lib st (generate_members lib kvs @ evs) \<dots>
      = parse_events lib st evs (c\<lparr>p_cursor := Some (JObject (es @ (k, v) # kvs))\<rparr>)"
    using 9 wf(2) by (subst 9(2) [where es = "es @ [(k, v)]"]) simp_all
  finally show ?case .
next
  case (11 lib v vs)
  have "parse_events lib st (generate_elems lib (v # vs) @ evs) c
      = parse_events lib st (generate_elems lib vs @ evs) (deliver v c)"
    using 11 by (simp add: 11(1) ready_def)
  also have "\<dots> = parse_events lib st evs (c\<lparr>p_cursor := Some (JArray (as @ v # vs))\<rparr>)"
    using 11 by (simp add: deliver_array 11(2) [where as = "as @ [v]"])
  finally show ?case .
qed (simp_all add: parse_null_def parse_boolean_def parse_number_def parse_string_def getObj_ready
    with_schema_none ready_opened deliver_def number_value_int number_value_double caught_def)

lemma parse_serialize:
  assumes "json_wf j" and "doubles_ok lib j"
    and yajl: "yajl_lex lib (yajl_print lib (generate lib j)) = (generate lib j, None)"
  shows "json_parse lib st None (json_serialize lib j) = Some (Inr j)"
proof -
  let ?c = "\<lparr>p_cursor = Some JUndef, p_frames = [], p_root = JUndef, p_schemas = []\<rparr>"
  have "ready ?c" by (simp add: ready_def)
  from parse_generate(1) [OF assms(1,2) this, of st "[]"]
  have "parse_events lib st (generate lib j) ?c = Some (Inr (deliver j ?c))" by simp
  with yajl show ?thesis
    by (simp add: json_parse_def json_serialize_def deliver_def opened_def setJsonUp_def root_of_def)
qed


text \<open>A printer and lexer of single documents, enough to evaluate the round trip.\<close>

definition demo_io_lib :: "string json_lib" where
  "demo_io_lib = \<lparr>d_eq = (=), d_le = (\<lambda>_ _. True), d_of_int = int_dec, d_show = id, d_read = Some,
     regex_match = (\<lambda>_ _. Inr True), inet_pton4 = (\<lambda>_. True), inet_pton6 = (\<lambda>_. True),
     uri_regex = (\<lambda>_. True),
     yajl_lex = (\<lambda>s. (if s = ''{a:[1.5,-7],b:null}'' then [EvStartMap, EvMapKey ''a'', EvStartArray, EvNumber ''1.5'',
        EvNumber ''-7'', EvEndArray, EvMapKey ''b'', EvNull, EvEndMap] else [], None)),
     yajl_print = (\<lambda>_. ''{a:[1.5,-7],b:null}'')\<rparr>"


text \<open>
  A double that prints without a dot does not come back as a double: the parser takes the text for
  an integer, and throws where it is no integer.
\<close>

lemma whole_double_not_roundtrip:
  assumes "CHR ''.'' \<notin> set (d_show lib d)"
    and "yajl_lex lib (yajl_print lib (generate lib (JDouble d))) = (generate lib (JDouble d), None)"
  shows "json_parse lib st None (json_serialize lib (JDouble d)) =
    Some (case lexical_cast_int (d_show lib d) of
        Some i \<Rightarrow> if in_int64 i then Inr (JInt i) else Inl (JsonError (strlcpy (err_what bad_lexical_cast) 512))
      | None \<Rightarrow> Inl (JsonError (strlcpy (err_what bad_lexical_cast) 512)))"
proof -
  have "str_find_if (\<lambda>c. c = CHR ''.'') (d_show lib d) = None"
    using assms(1) by (auto simp: str_find_if_None)
  then have nv: "number_value lib (d_show lib d) = (case lexical_cast_int (d_show lib d) of
        Some i \<Rightarrow> if in_int64 i then Inr (JInt i) else Inl bad_lexical_cast | None \<Rightarrow> Inl bad_lexical_cast)"
    by (simp add: number_value_def)
  show ?thesis
    using assms(2)
    by (simp add: json_parse_def json_serialize_def parse_number_def getObj_def nv caught_def with_schema_def
        setJsonUp_def root_of_def bad_lexical_cast_def split: option.split)
qed

definition demo_whole_lib :: "string json_lib" where
  "demo_whole_lib = demo_io_lib\<lparr>yajl_lex := (\<lambda>s. ([EvNumber s], None)), yajl_print := (\<lambda>_. ''5'')\<rparr>"

lemma whole_double_not_roundtrip_witness:
  "json_parse demo_whole_lib (FormatMap demo_whole_lib) None (json_serialize demo_whole_lib (JDouble ''5''))
    = Some (Inr (JInt 5))"
proof -
  have "lexical_cast_int (d_show demo_whole_lib ''5'') = Some 5" by code_simp
  moreover have "in_int64 5" by (simp add: in_int64_def)
  ultimately show ?thesis
    by (subst whole_double_not_roundtrip) (code_simp, code_simp, simp)
qed


section \<open>Text as a carrier of documents\<close>

text \<open>\<^verbatim>\<open>parse\<close> as the callers see it: the document, or the exception.\<close>

definition parse_text :: "'d json_lib \<Rightarrow> schema_statics \<Rightarrow> 'd schema option \<Rightarrow> string \<Rightarrow> gb_exn + 'd json" where
  "parse_text lib st sch t = (case json_parse lib st sch t of None \<Rightarrow> Inl NullDereference | Some r \<Rightarrow> r)"

definition text_safe :: "'d json_lib \<Rightarrow> 'd json \<Rightarrow> bool" where
  "text_safe lib j \<longleftrightarrow> json_wf j \<and> doubles_ok lib j"

text \<open>The documented behaviour of yajl: its lexer reads back the calls its printer was given.\<close>

locale json_text =
  fixes lib :: "'d json_lib"
  assumes faithful: "text_safe lib j \<Longrightarrow> yajl_lex lib (yajl_print lib (generate lib j)) = (generate lib j, None)"
begin

lemma parse_text_serialize: "text_safe lib j \<Longrightarrow> parse_text lib st None (json_serialize lib j) = Inr j"
  using parse_serialize [of j lib st] faithful [of j] by (simp add: parse_text_def text_safe_def)

end

sublocale json_text \<subseteq> document: codec "json_serialize lib"
    "\<lambda>t. case parse_text lib st None t of Inl _ \<Rightarrow> None | Inr j \<Rightarrow> Some j" "text_safe lib"
  by unfold_locales (simp add: parse_text_serialize)

text \<open>A printer and a lexer that satisfy it: every call is a tag, its text with each character marked, and an end mark.\<close>

primrec wire_event :: "json_event \<Rightarrow> char \<times> string" where
  "wire_event EvNull = (CHR ''0'', [])"
| "wire_event (EvBool b) = (if b then CHR ''t'' else CHR ''f'', [])"
| "wire_event (EvNumber t) = (CHR ''n'', t)"
| "wire_event (EvString t) = (CHR ''s'', t)"
| "wire_event EvStartMap = (CHR ''{'', [])"
| "wire_event (EvMapKey t) = (CHR ''k'', t)"
| "wire_event EvEndMap = (CHR ''}'', [])"
| "wire_event EvStartArray = (CHR ''['', [])"
| "wire_event EvEndArray = (CHR '']'', [])"

definition event_of :: "char \<Rightarrow> string \<Rightarrow> json_event" where
  "event_of c t = (if c = CHR ''0'' then EvNull else if c = CHR ''t'' then EvBool True
     else if c = CHR ''f'' then EvBool False else if c = CHR ''n'' then EvNumber t
     else if c = CHR ''s'' then EvString t else if c = CHR ''{'' then EvStartMap
     else if c = CHR ''k'' then EvMapKey t else if c = CHR ''}'' then EvEndMap
     else if c = CHR ''['' then EvStartArray else EvEndArray)"

definition wire_print :: "json_event list \<Rightarrow> string" where
  "wire_print evs = concat (map (\<lambda>ev. case wire_event ev of (c, t) \<Rightarrow> c # concat (map (\<lambda>x. [CHR ''.'', x]) t) @ '';'') evs)"

fun wire_scan :: "char option \<Rightarrow> string \<Rightarrow> string \<Rightarrow> json_event list \<times> string option" where
  "wire_scan None acc [] = ([], None)"
| "wire_scan None acc (c # cs) = wire_scan (Some c) [] cs"
| "wire_scan (Some c) acc (m # x # cs) =
     (if m = CHR ''.'' then wire_scan (Some c) (acc @ [x]) cs
      else apfst ((#) (event_of c acc)) (wire_scan None [] (x # cs)))"
| "wire_scan (Some c) acc [m] = (if m = CHR '';'' then ([event_of c acc], None) else ([], Some ''premature end''))"
| "wire_scan (Some c) acc [] = ([], Some ''premature end'')"

definition wire_lib :: "string json_lib" where
  "wire_lib = \<lparr>d_eq = (=), d_le = (\<lambda>_ _. True), d_of_int = int_dec, d_show = id, d_read = Some,
     regex_match = (\<lambda>_ _. Inr True), inet_pton4 = (\<lambda>_. True), inet_pton6 = (\<lambda>_. True),
     uri_regex = (\<lambda>_. True), yajl_lex = wire_scan None [], yajl_print = wire_print\<rparr>"

lemma event_of_wire: "case wire_event ev of (c, t) \<Rightarrow> event_of c t = ev"
  by (cases ev) (simp_all add: event_of_def)

lemma wire_scan_text:
  "wire_scan (Some c) acc (concat (map (\<lambda>x. [CHR ''.'', x]) t) @ '';'' @ rest)
     = apfst ((#) (event_of c (acc @ t))) (wire_scan None [] rest)"
  by (induction t arbitrary: acc) (cases rest; simp)+

lemma wire_scan_print: "wire_scan None [] (wire_print evs) = (evs, None)"
proof (induction evs)
  case (Cons ev evs)
  obtain c t where w: "wire_event ev = (c, t)" by (cases "wire_event ev")
  with event_of_wire [of ev] have "event_of c t = ev" by simp
  with w Cons wire_scan_text [of c "[]" t "wire_print evs"] show ?case by (simp add: wire_print_def)
qed (simp add: wire_print_def)

interpretation wire: json_text wire_lib
  by unfold_locales (simp add: wire_lib_def wire_scan_print)

end
