(* ===== verification/GB_JsonTypes.thy ===== *)
theory GB_JsonTypes
  imports GB_JsonIO
begin

text \<open>
  Type soundness of the parser of \<^verbatim>\<open>core/JsonParser.cc\<close>: whatever callbacks yajl makes, in whatever order, the tree under construction, the containers
  around the cursor and the schemas on the stack stay well formed. Well formed means that integers fit in 64 bits and
  that the members of every object are in the order of their keys without duplicates.
\<close>

section \<open>Schemas\<close>

lemma json_get_wf: "json_get p k j = Inr v \<Longrightarrow> json_wf j \<Longrightarrow> json_wf v"
  by (cases j) (auto simp: json_get_def handleError_def split: option.splits dest: json_wf_find [rotated] simp del: json_wf.simps)

lemma any_schema_wf: "json_wf any_schema"
  by (simp add: any_schema_def)

lemma additional_wf:
  assumes "getAdditionalProperties sp s = Inr (Some ap, s')" and "json_wf s"
  shows "json_wf ap"
proof (cases "json_hasKey ''additionalProperties'' s")
  case True
  then obtain v where v: "json_get sp ''additionalProperties'' s = Inr v"
    using assms(1) by (auto simp: getAdditionalProperties_def res_bind_Inr)
  then have "json_wf v" using assms(2) by (rule json_get_wf)
  then show ?thesis
    using assms(1) True v by (cases v) (auto simp: getAdditionalProperties_def res_bind_def any_schema_wf split: bool.splits sum.splits)
next
  case False
  then show ?thesis using assms(1) by (auto simp: getAdditionalProperties_def res_bind_Inr any_schema_wf)
qed

text \<open>The schema of a child: a part of the schema, or what additional properties must meet.\<close>

lemma child_at_wf:
  assumes "getChildSchema_at sp s i p = Inr (sp', c)" and "json_wf s"
  shows "json_wf c"
proof -
  obtain ap s' where ap: "getAdditionalProperties sp s = Inr (ap, s')"
    using assms(1) by (auto simp: getChildSchema_at_def res_bind_Inr)
  have add: "ap = Some x \<Longrightarrow> json_wf x" for x using ap additional_wf assms(2) by blast
  show ?thesis
  proof (cases "json_hasKey ''items'' s")
    case True
    then obtain v where v: "json_get sp ''items'' s = Inr v" using assms(1) ap by (auto simp: getChildSchema_at_def res_bind_Inr)
    then have "json_wf v" using assms(2) by (rule json_get_wf)
    then show ?thesis using assms(1) True v ap add
      by (cases v) (auto simp: getChildSchema_at_def res_bind_def handleError_def list_all_length split: if_splits option.splits)
  next
    case False
    then show ?thesis using assms(1) ap add by (auto simp: getChildSchema_at_def res_bind_def handleError_def split: option.splits)
  qed
qed

lemma child_key_wf:
  assumes "getChildSchema_key sp s k p = Inr (sp', c)" and "json_wf s"
  shows "json_wf c"
proof -
  obtain ap s' where ap: "getAdditionalProperties sp s = Inr (ap, s')"
    using assms(1) by (auto simp: getChildSchema_key_def res_bind_Inr)
  have add: "ap = Some x \<Longrightarrow> json_wf x" for x using ap additional_wf assms(2) by blast
  show ?thesis
  proof (cases "json_hasKey ''properties'' s")
    case True
    then obtain v where v: "json_get sp ''properties'' s = Inr v" using assms(1) ap by (auto simp: getChildSchema_key_def res_bind_Inr)
    have "json_wf v" by (rule json_get_wf [OF v assms(2)])
    then have "json_get q k v = Inr x \<Longrightarrow> json_wf x" for q x by (rule json_get_wf [rotated])
    then show ?thesis using assms(1) True v ap add
      by (auto simp: getChildSchema_key_def res_bind_def handleError_def split: if_splits option.splits sum.splits)
  next
    case False
    then show ?thesis using assms(1) ap add by (auto simp: getChildSchema_key_def res_bind_def handleError_def split: option.splits)
  qed
qed

section \<open>Values\<close>

lemma fixup_one_wf: "json_wf j \<Longrightarrow> json_wf (fixup_one lib ty j)"
  by (cases j) (simp_all add: fixup_one_def)

lemma fixup_loop_wf: "fixup_loop lib sp i ts j = Inr j' \<Longrightarrow> json_wf j \<Longrightarrow> json_wf j'"
  by (induction lib sp i ts j rule: fixup_loop.induct) (auto simp: res_bind_Inr fixup_one_wf)

lemma typeFixup_wf:
  assumes "typeFixup lib sp s j = Inr j'" and "json_wf j"
  shows "json_wf j'"
proof (cases "json_hasKey ''type'' s")
  case True
  then obtain t where t: "json_get sp ''type'' s = Inr t" using assms(1) by (auto simp: typeFixup_def res_bind_Inr)
  show ?thesis using assms True t
    by (cases t) (auto simp: typeFixup_def res_bind_def fixup_one_wf fixup_loop_wf split: sum.splits)
qed (use assms in \<open>simp add: typeFixup_def\<close>)

lemma json_set_wf:
  assumes "json_set k v j = Inr j'" and "json_wf j" and "json_wf v"
  shows "json_wf j'"
proof (cases "is_objectlike j")
  case True
  have "json_wf (JObject (members j))"
    using assms(2) True by (cases j) (simp_all add: members_def is_objectlike_def)
  with assms True show ?thesis by (auto simp: json_set_members json_wf_put simp del: json_wf.simps)
next
  case False
  with assms(1) show ?thesis
    by (cases j) (simp_all add: is_objectlike_def json_set_def json_upd_key_def json_ref_key_def handleError_def res_bind_def)
qed

lemma defaults_loop_wf:
  assumes "defaults_loop lib sp props j = Inr j'" and "list_all (\<lambda>(k, s). json_wf s) props" and "json_wf j"
  shows "json_wf j'"
  using assms
proof (induction lib sp props j rule: defaults_loop.induct)
  case (2 lib sp pr s props j)
  show ?case
  proof (cases "json_hasKey ''default'' s \<and> \<not> json_hasKey pr j")
    case True
    with 2(3) obtain d d' j1 where s: "json_get (sp @ [Key pr]) ''default'' s = Inr d" "typeFixup lib (sp @ [Key pr]) s d = Inr d'"
      "json_set pr (json_copy d') j = Inr j1" "defaults_loop lib sp props j1 = Inr j'"
      by (auto simp: res_bind_Inr)
    have "json_wf d'" using typeFixup_wf [OF s(2)] json_get_wf [OF s(1)] 2(4) by simp
    then have "json_wf j1" using json_set_wf [OF s(3) 2(5)] by (simp add: json_copy_same)
    then show ?thesis using 2(1) [OF True s(1,2,3,4)] 2(4) by simp
  qed (use 2 in auto)
qed simp

lemma properties_wf:
  assumes "schema_properties sp s = Inr props" and "json_wf s"
  shows "list_all (\<lambda>(k, s). json_wf s) props"
proof (cases "json_hasKey ''properties'' s")
  case True
  then obtain v where v: "json_get sp ''properties'' s = Inr v" "json_as_object (sp @ [Key ''properties'']) v = Inr props"
    using assms(1) by (auto simp: schema_properties_def res_bind_Inr)
  have "json_wf v" by (rule json_get_wf [OF v(1) assms(2)])
  with v(2) show ?thesis by (cases v) (auto simp: json_as_object_def res_bind_Inr)
qed (use assms in \<open>simp add: schema_properties_def\<close>)

lemma setDefaults_wf: "setDefaults lib sp s j = Inr j' \<Longrightarrow> json_wf s \<Longrightarrow> json_wf j \<Longrightarrow> json_wf j'"
  by (auto simp: setDefaults_def res_bind_Inr dest: properties_wf intro: defaults_loop_wf)

lemma number_value_wf: "number_value lib t = Inr v \<Longrightarrow> json_wf v"
  by (auto simp: number_value_def split: if_splits option.splits)

section \<open>The state of a parse\<close>

primrec frame_wf :: "'d frame \<Rightarrow> bool" where
  "frame_wf (InObject es k) = json_wf (JObject es)"
| "frame_wf (InArray es) = list_all json_wf es"

definition pctx_wf :: "'d pctx \<Rightarrow> bool" where
  "pctx_wf c \<longleftrightarrow> pred_option json_wf (p_cursor c) \<and> list_all frame_wf (p_frames c) \<and> json_wf (p_root c)
     \<and> list_all (\<lambda>(_, s). json_wf s) (p_schemas c)"

lemma plug_wf: "frame_wf f \<Longrightarrow> json_wf v \<Longrightarrow> json_wf (plug f v)"
  by (cases f) (auto simp: json_wf_put simp del: json_wf.simps(2))

lemma foldl_plug_wf: "list_all frame_wf fs \<Longrightarrow> json_wf v \<Longrightarrow> json_wf (foldl (\<lambda>v f. plug f v) v fs)"
  by (induction fs arbitrary: v) (simp_all add: plug_wf)

lemma root_of_wf: "pctx_wf c \<Longrightarrow> json_wf (root_of c)"
  by (cases "p_cursor c") (simp_all add: root_of_def pctx_wf_def foldl_plug_wf)

lemma tl_schemas_wf: "list_all P xs \<Longrightarrow> list_all P (tl xs)"
  by (cases xs) simp_all

lemma setJsonUp_wf: "pctx_wf c \<Longrightarrow> json_wf v \<Longrightarrow> pctx_wf (setJsonUp v c)"
  by (cases "p_frames c") (auto simp: setJsonUp_def pctx_wf_def plug_wf tl_schemas_wf)

lemma caught_Some: "caught r f = Some (Inr c) \<longleftrightarrow> (\<exists>x. r = Inr x \<and> f x = Some (Inr c))"
  by (auto simp: caught_def split: sum.split)

text \<open>What the code after \<^verbatim>\<open>getObj\<close> starts from, and what it knows of the value a schema let through.\<close>

lemma getObj_wf:
  assumes "getObj c f = Some (Inr c')" and "pctx_wf c"
  obtains cur c1 where "f cur c1 = Some (Inr c')" and "json_wf cur" and "pctx_wf c1"
proof -
  obtain j where j: "p_cursor c = Some j" using assms(1) by (auto simp: getObj_def split: option.splits)
  with assms(2) have wf: "json_wf j" by (simp add: pctx_wf_def)
  show ?thesis
  proof (cases "\<exists>es. j = JArray es")
    case True
    then obtain es where es: "j = JArray es" by blast
    let ?c = "c\<lparr>p_cursor := Some JUndef, p_frames := InArray es # p_frames c\<rparr>"
    have c: "pctx_wf ?c" using assms(2) wf es by (simp add: pctx_wf_def)
    show ?thesis
    proof (cases "p_schemas c")
      case Nil
      with assms(1) j es have "f JUndef ?c = Some (Inr c')" by (simp add: getObj_def Let_def)
      with c that show ?thesis by simp
    next
      case (Cons s ss)
      obtain sp t where s: "s = (sp, t)" by (cases s)
      with assms(1) j es Cons obtain child where child: "getChildSchema_at sp t (length es) (cursor_path c) = Inr child"
        "f JUndef (?c\<lparr>p_schemas := child # p_schemas c\<rparr>) = Some (Inr c')"
        by (auto simp: getObj_def Let_def caught_Some)
      have "json_wf t" using assms(2) Cons s by (simp add: pctx_wf_def)
      then have "json_wf (snd child)" using child_at_wf child(1) by (metis prod.collapse)
      with c have "pctx_wf (?c\<lparr>p_schemas := child # p_schemas c\<rparr>)" by (simp add: pctx_wf_def case_prod_beta)
      with child(2) that show ?thesis by simp
    qed
  next
    case False
    with assms(1) j have "f j c = Some (Inr c')" by (cases j) (auto simp: getObj_def)
    with wf assms(2) that show ?thesis by blast
  qed
qed

lemma with_schema_wf:
  assumes "with_schema c check dflt f = Some (Inr c')" and "pctx_wf c"
  obtains "f dflt = Some (Inr c')" | sp s x where "json_wf s" and "check sp s = Inr x" and "f x = Some (Inr c')"
  using assms by (cases "p_schemas c") (auto simp: with_schema_def caught_Some pctx_wf_def)

section \<open>The callbacks\<close>

lemma parse_null_wf: "parse_null c = Some (Inr c') \<Longrightarrow> pctx_wf c \<Longrightarrow> pctx_wf c'"
  unfolding parse_null_def
  by (erule getObj_wf, assumption) (auto split: if_splits elim!: with_schema_wf intro: setJsonUp_wf)

lemma parse_boolean_wf: "parse_boolean lib st b c = Some (Inr c') \<Longrightarrow> pctx_wf c \<Longrightarrow> pctx_wf c'"
  unfolding parse_boolean_def
  by (erule getObj_wf, assumption) (auto split: if_splits elim!: with_schema_wf intro: setJsonUp_wf)

lemma parse_string_wf: "parse_string lib st t c = Some (Inr c') \<Longrightarrow> pctx_wf c \<Longrightarrow> pctx_wf c'"
  unfolding parse_string_def
  by (erule getObj_wf, assumption) (auto split: if_splits elim!: with_schema_wf intro: setJsonUp_wf)

lemma parse_number_wf: "parse_number lib st t c = Some (Inr c') \<Longrightarrow> pctx_wf c \<Longrightarrow> pctx_wf c'"
  unfolding parse_number_def
  by (erule getObj_wf, assumption)
    (auto simp: caught_Some res_bind_Inr elim!: with_schema_wf intro!: setJsonUp_wf intro: number_value_wf typeFixup_wf [OF _ number_value_wf])

lemma parse_start_map_wf: "parse_start_map c = Some (Inr c') \<Longrightarrow> pctx_wf c \<Longrightarrow> pctx_wf c'"
  unfolding parse_start_map_def
  by (erule getObj_wf, assumption) (auto split: if_splits elim!: with_schema_wf simp: pctx_wf_def)

lemma parse_start_array_wf: "parse_start_array c = Some (Inr c') \<Longrightarrow> pctx_wf c \<Longrightarrow> pctx_wf c'"
  unfolding parse_start_array_def
  by (erule getObj_wf, assumption) (auto split: if_splits elim!: with_schema_wf simp: pctx_wf_def)

lemma parse_end_array_wf: "parse_end_array c = Some (Inr c') \<Longrightarrow> pctx_wf c \<Longrightarrow> pctx_wf c'"
  by (auto simp: parse_end_array_def split: option.splits json.splits elim!: with_schema_wf intro!: setJsonUp_wf)
    (simp_all add: pctx_wf_def)

lemma parse_map_key_wf:
  assumes "parse_map_key k c = Some (Inr c')" and "pctx_wf c"
  shows "pctx_wf c'"
proof -
  obtain es where es: "p_cursor c = Some (JObject es)"
    using assms(1) by (auto simp: parse_map_key_def split: option.splits json.splits)
  show ?thesis
  proof (cases "p_schemas c")
    case Nil
    with assms es show ?thesis by (auto simp: parse_map_key_def with_schema_def pctx_wf_def split: if_splits)
  next
    case (Cons a ss)
    obtain sp s where a: "a = (sp, s)" by (cases a)
    with assms(1) es Cons obtain child where child: "getChildSchema_key sp s k (cursor_path c) = Inr child"
      "c' = c\<lparr>p_cursor := Some JUndef, p_frames := InObject es k # p_frames c, p_schemas := child # p_schemas c\<rparr>"
      by (cases "getChildSchema_key sp s k (cursor_path c)") (auto simp: parse_map_key_def with_schema_def caught_Some split: if_splits)
    have "json_wf s" using assms(2) Cons a by (simp add: pctx_wf_def)
    then have "json_wf (snd child)" using child_key_wf child(1) by (metis prod.collapse)
    with assms(2) es child(2) show ?thesis by (simp add: pctx_wf_def case_prod_beta)
  qed
qed

lemma parse_end_map_wf: "parse_end_map lib c = Some (Inr c') \<Longrightarrow> pctx_wf c \<Longrightarrow> pctx_wf c'"
proof -
  assume a: "parse_end_map lib c = Some (Inr c')" and wf: "pctx_wf c"
  obtain es where es: "p_cursor c = Some (JObject es)"
    using a by (auto simp: parse_end_map_def split: option.splits json.splits)
  then have obj: "json_wf (JObject es)" using wf by (simp add: pctx_wf_def)
  show ?thesis using a es wf obj
    by (auto simp: parse_end_map_def res_bind_Inr simp del: json_wf.simps elim!: with_schema_wf intro!: setJsonUp_wf dest: setDefaults_wf)
qed

lemmas callbacks_wf = parse_null_wf parse_boolean_wf parse_string_wf parse_number_wf parse_start_map_wf parse_map_key_wf
  parse_end_map_wf parse_start_array_wf parse_end_array_wf

lemma parse_event_wf: "parse_event lib st ev c = Some (Inr c') \<Longrightarrow> pctx_wf c \<Longrightarrow> pctx_wf c'"
  by (cases ev) (simp_all add: callbacks_wf)

lemma parse_events_wf: "parse_events lib st evs c = Some (Inr c') \<Longrightarrow> pctx_wf c \<Longrightarrow> pctx_wf c'"
  by (induction evs arbitrary: c) (auto split: option.splits sum.splits dest: parse_event_wf)


text \<open>A schema with a default for a member.\<close>

definition demo_defaults :: "string schema" where
  "demo_defaults = JObject [(''properties'', JObject [(''a'', JObject [(''default'', JInt 3), (''type'', JString ''number'')])])]"



section \<open>No callback meets a null cursor\<close>

text \<open>
  The order in which yajl makes its callbacks, as its documentation promises it: those of a document, or of the beginning of one when the text
  ends early or is rejected. The state is what may come next and, for each container around it, what may come after it.
\<close>

datatype expected = WantValue | WantElem | WantKey | Ended

type_synonym yajl_state = "expected \<times> expected list"

fun after_value :: "expected list \<Rightarrow> yajl_state" where
  "after_value [] = (Ended, [])"
| "after_value (x # xs) = (x, xs)"

fun yajl_step :: "json_event \<Rightarrow> yajl_state \<Rightarrow> yajl_state option" where
  "yajl_step EvStartMap (WantValue, xs) = Some (WantKey, xs)"
| "yajl_step EvStartMap (WantElem, xs) = Some (WantKey, WantElem # xs)"
| "yajl_step EvStartArray (WantValue, xs) = Some (WantElem, xs)"
| "yajl_step EvStartArray (WantElem, xs) = Some (WantElem, WantElem # xs)"
| "yajl_step (EvMapKey k) (WantKey, xs) = Some (WantValue, WantKey # xs)"
| "yajl_step EvEndMap (WantKey, xs) = Some (after_value xs)"
| "yajl_step EvEndArray (WantElem, xs) = Some (after_value xs)"
| "yajl_step EvNull (WantValue, xs) = Some (after_value xs)"
| "yajl_step EvNull (WantElem, xs) = Some (WantElem, xs)"
| "yajl_step (EvBool b) (WantValue, xs) = Some (after_value xs)"
| "yajl_step (EvBool b) (WantElem, xs) = Some (WantElem, xs)"
| "yajl_step (EvNumber t) (WantValue, xs) = Some (after_value xs)"
| "yajl_step (EvNumber t) (WantElem, xs) = Some (WantElem, xs)"
| "yajl_step (EvString t) (WantValue, xs) = Some (after_value xs)"
| "yajl_step (EvString t) (WantElem, xs) = Some (WantElem, xs)"
| "yajl_step ev y = None"

fun yajl_orderly :: "yajl_state \<Rightarrow> json_event list \<Rightarrow> bool" where
  "yajl_orderly y [] = True"
| "yajl_orderly y (ev # evs) = (case yajl_step ev y of None \<Rightarrow> False | Some y' \<Rightarrow> yajl_orderly y' evs)"

text \<open>The cursor is where the next callback needs it, and so it will be when the containers around it are closed.\<close>

fun frame_fits :: "'d frame \<Rightarrow> expected \<Rightarrow> bool" where
  "frame_fits (InObject es k) x = (x = WantKey)"
| "frame_fits (InArray es) x = (x = WantElem)"

fun cursor_fits :: "'d json option \<Rightarrow> expected \<Rightarrow> bool" where
  "cursor_fits (Some JUndef) WantValue = True"
| "cursor_fits (Some (JArray es)) WantElem = True"
| "cursor_fits (Some (JObject es)) WantKey = True"
| "cursor_fits c Ended = True"
| "cursor_fits c x = False"

definition in_step :: "yajl_state \<Rightarrow> 'd pctx \<Rightarrow> bool" where
  "in_step y c \<longleftrightarrow> cursor_fits (p_cursor c) (fst y) \<and> list_all2 frame_fits (p_frames c) (snd y)"

lemma cursor_wants:
  "cursor_fits c WantValue \<longleftrightarrow> c = Some JUndef" "cursor_fits c WantElem \<longleftrightarrow> (\<exists>es. c = Some (JArray es))" "cursor_fits c WantKey \<longleftrightarrow> (\<exists>es. c = Some (JObject es))"
  by (cases c rule: option.exhaust; simp; rename_tac j; case_tac j; simp)+

text \<open>A callback that comes back leaves the cursor in step with the new state of yajl.\<close>

definition survives :: "yajl_state \<Rightarrow> (string + 'd pctx) option \<Rightarrow> bool" where
  "survives y r \<longleftrightarrow> (case r of None \<Rightarrow> False | Some (Inl _) \<Rightarrow> True | Some (Inr c) \<Rightarrow> in_step y c)"

named_theorems surviving "callbacks that come back"

lemma caught_survives [surviving]: "(\<And>x. survives y (f x)) \<Longrightarrow> survives y (caught r f)"
  by (simp add: caught_def survives_def split: sum.split)

lemma with_schema_survives [surviving]: "(\<And>x. survives y (f x)) \<Longrightarrow> survives y (with_schema c check d f)"
  unfolding with_schema_def by (cases "p_schemas c") (auto intro: caught_survives)

definition around :: "expected \<Rightarrow> expected list \<Rightarrow> expected list" where
  "around m xs = (if m = WantElem then WantElem # xs else xs)"

lemma getObj_survives [surviving]:
  assumes "in_step (m, xs) c" and "m = WantValue \<or> m = WantElem"
    and "\<And>c'. p_cursor c' = Some JUndef \<Longrightarrow> list_all2 frame_fits (p_frames c') (around m xs) \<Longrightarrow> survives y (f JUndef c')"
  shows "survives y (getObj c f)"
  using assms(2)
proof
  assume "m = WantValue"
  with assms(1,3) show ?thesis by (simp add: getObj_def in_step_def cursor_wants around_def)
next
  assume m: "m = WantElem"
  with assms(1) obtain es where es: "p_cursor c = Some (JArray es)" and fs: "list_all2 frame_fits (p_frames c) xs" by (auto simp: in_step_def cursor_wants)
  have "survives y (f JUndef (c\<lparr>p_cursor := Some JUndef, p_frames := InArray es # p_frames c, p_schemas := ss\<rparr>))"
      "survives y (f JUndef (c\<lparr>p_cursor := Some JUndef, p_frames := InArray es # p_frames c\<rparr>))" for ss
    using fs m by (auto intro!: assms(3) simp: around_def)
  with es show ?thesis
    by (cases "p_schemas c") (auto simp: getObj_def Let_def intro!: surviving)
qed

lemma setJsonUp_survives [surviving]: "list_all2 frame_fits (p_frames c) xs \<Longrightarrow> survives (after_value xs) (Some (Inr (setJsonUp v c)))"
  by (cases "p_frames c"; cases xs) (auto simp: survives_def setJsonUp_def in_step_def cursor_wants elim!: frame_fits.elims)

lemma opened_survives [surviving]:
  "list_all2 frame_fits (p_frames c) xs \<Longrightarrow> survives (WantKey, xs) (Some (Inr (c\<lparr>p_cursor := Some (JObject [])\<rparr>)))"
  "list_all2 frame_fits (p_frames c) xs \<Longrightarrow> survives (WantElem, xs) (Some (Inr (c\<lparr>p_cursor := Some (JArray [])\<rparr>)))"
  by (simp_all add: survives_def in_step_def)

text \<open>Where a value may come, a value or the beginning of one survives.\<close>

lemma value_survives:
  assumes "in_step (m, xs) c" and "m = WantValue \<or> m = WantElem"
  shows "survives (after_value (around m xs)) (parse_null c)" and "survives (after_value (around m xs)) (parse_boolean lib st b c)"
    and "survives (after_value (around m xs)) (parse_number lib st t c)" and "survives (after_value (around m xs)) (parse_string lib st t c)"
    and "survives (WantKey, around m xs) (parse_start_map c)" and "survives (WantElem, around m xs) (parse_start_array c)"
  unfolding parse_null_def parse_boolean_def parse_number_def parse_string_def parse_start_map_def parse_start_array_def
  by (auto intro!: getObj_survives [OF assms] surviving)

lemma key_survives:
  assumes "in_step (WantKey, xs) c"
  shows "survives (WantValue, WantKey # xs) (parse_map_key k c)" and "survives (after_value xs) (parse_end_map lib c)"
proof -
  obtain es where es: "p_cursor c = Some (JObject es)" "list_all2 frame_fits (p_frames c) xs" using assms by (auto simp: in_step_def cursor_wants)
  then show "survives (WantValue, WantKey # xs) (parse_map_key k c)"
    by (auto simp: parse_map_key_def intro!: with_schema_survives) (auto simp: survives_def in_step_def)
  from es show "survives (after_value xs) (parse_end_map lib c)" by (auto simp: parse_end_map_def intro!: surviving)
qed

lemma elem_survives:
  assumes "in_step (WantElem, xs) c"
  shows "survives (after_value xs) (parse_end_array c)"
proof -
  obtain es where "p_cursor c = Some (JArray es)" "list_all2 frame_fits (p_frames c) xs" using assms by (auto simp: in_step_def cursor_wants)
  then show ?thesis by (auto simp: parse_end_array_def intro!: surviving)
qed

lemma event_survives:
  assumes "yajl_step ev y = Some y'" and "in_step y c"
  shows "survives y' (parse_event lib st ev c)"
  using assms value_survives [of _ _ c] key_survives [of _ c] elem_survives [of _ c]
  by (cases "(ev, y)" rule: yajl_step.cases) (fastforce simp: around_def)+

lemma events_survive:
  assumes "yajl_orderly y evs" and "in_step y c"
  shows "parse_events lib st evs c \<noteq> None"
  using assms
proof (induction evs arbitrary: y c)
  case (Cons ev evs)
  then obtain y' where y': "yajl_step ev y = Some y'" "yajl_orderly y' evs" by (auto split: option.splits)
  from event_survives [OF y'(1) Cons.prems(2), of lib st] Cons.IH [OF y'(2)] show ?case
    by (auto simp: survives_def split: option.splits sum.splits)
qed simp

lemma parse_ends:
  assumes "yajl_orderly (WantValue, []) (fst (yajl_lex lib t))"
  shows "(\<exists>j. json_parse lib st schema t = Some (Inr j)) \<or> (\<exists>m. json_parse lib st schema t = Some (Inl (JsonError m)))"
proof -
  let ?c0 = "\<lparr>p_cursor = Some JUndef, p_frames = [], p_root = JUndef, p_schemas = (case schema of None \<Rightarrow> [] | Some s \<Rightarrow> [([], s)])\<rparr>"
  have "parse_events lib st (fst (yajl_lex lib t)) ?c0 \<noteq> None" by (rule events_survive [OF assms]) (simp add: in_step_def)
  then show ?thesis by (auto simp: json_parse_def Let_def json_error_at_def split: prod.splits option.splits sum.splits)
qed

lemma parse_text_ends:
  "yajl_orderly (WantValue, []) (fst (yajl_lex lib t)) \<Longrightarrow> parse_text lib st schema t = Inl e \<Longrightarrow> \<exists>m. e = JsonError m"
  using parse_ends [of lib t st schema] by (auto simp: parse_text_def)

text \<open>
  C16: parsing does not crash. As long as yajl makes its callbacks in the order of a document, or of the beginning of one, no callback dereferences a null cursor and
  no assertion fails, whatever the text, with or without a schema and whatever the schema is: the parse ends with a document or with an exception of
  the class for JSON errors.
\<close>

theorem parse_survives:
  assumes "yajl_orderly (WantValue, []) (fst (yajl_lex lib t))"
  shows "(\<exists>j. json_parse lib st schema t = Some (Inr j)) \<or> (\<exists>m. json_parse lib st schema t = Some (Inl (JsonError m)))"
  by (rule parse_ends [OF assms])

theorem parse_survives_witness:
  "(\<exists>j. json_parse wire_lib (FormatMap wire_lib) (Some demo_defaults) ''{;k.b;s.x;'' = Some (Inr j))
   \<or> (\<exists>m. json_parse wire_lib (FormatMap wire_lib) (Some demo_defaults) ''{;k.b;s.x;'' = Some (Inl (JsonError m)))"
  by (rule parse_survives) code_simp

end
