(* ===== verification/GB_Status.thy ===== *)
theory GB_Status
  imports GB_JsonIO GB_Uri
begin

text \<open>
  \<^verbatim>\<open>job/Status.cc\<close> and \<^verbatim>\<open>job/StatusImpl.cc\<close>: the state machine of a job status, the attributes every
  implementation keeps in memory, and the operations that are written once in terms of virtual
  members. The virtual members a \<^verbatim>\<open>Status\<close> reaches are a record of functions, one per
  implementation; what they promise is the locale \<open>status_impl\<close>.
\<close>

section \<open>States and events\<close>

datatype status_state =
    STATE_UNKNOWN
  | STATE_PENDING
  | STATE_RUNNING
  | STATE_STOPPING
  | STATE_STOPPED
  | STATE_CANCELLING
  | STATE_CANCELLED
  | STATE_COMPLETED

datatype status_event = EVENT_UNKNOWN | EVENT_PRECANCEL | EVENT_CANCEL

definition str2event :: "string \<Rightarrow> status_event" where
  "str2event s = (if s = ''PRECANCEL'' then EVENT_PRECANCEL
     else if s = ''CANCEL'' then EVENT_CANCEL else EVENT_UNKNOWN)"

primrec event2str :: "status_event \<Rightarrow> string" where
  "event2str EVENT_PRECANCEL = ''PRECANCEL''"
| "event2str EVENT_CANCEL = ''CANCEL''"
| "event2str EVENT_UNKNOWN = ''UNKNOWN''"

definition str2state :: "string \<Rightarrow> status_state" where
  "str2state str = (let istr = str_toupper str in
     if istr = ''PENDING'' then STATE_PENDING
     else if istr = ''RUNNING'' then STATE_RUNNING
     else if istr = ''CANCELLING'' then STATE_CANCELLING
     else if istr = ''CANCELLED'' then STATE_CANCELLED
     else if istr = ''COMPLETED'' then STATE_COMPLETED
     else if istr = ''STOPPING'' then STATE_STOPPING
     else if istr = ''STOPPED'' then STATE_STOPPED
     else STATE_UNKNOWN)"

primrec state2str :: "status_state \<Rightarrow> string" where
  "state2str STATE_PENDING = ''PENDING''"
| "state2str STATE_RUNNING = ''RUNNING''"
| "state2str STATE_CANCELLING = ''CANCELLING''"
| "state2str STATE_CANCELLED = ''CANCELLED''"
| "state2str STATE_COMPLETED = ''COMPLETED''"
| "state2str STATE_STOPPING = ''STOPPING''"
| "state2str STATE_STOPPED = ''STOPPED''"
| "state2str STATE_UNKNOWN = ''UNKNOWN''"

definition validStateTransition :: "status_state \<Rightarrow> status_state \<Rightarrow> bool" where
  "validStateTransition from_st to =
     (if to = STATE_UNKNOWN then True
      else if to = from_st then True
      else (case from_st of
          STATE_UNKNOWN \<Rightarrow> True
        | STATE_PENDING \<Rightarrow> to = STATE_RUNNING \<or> to = STATE_CANCELLED \<or> to = STATE_COMPLETED
        | STATE_RUNNING \<Rightarrow> to = STATE_COMPLETED \<or> to = STATE_STOPPING
        | STATE_STOPPING \<Rightarrow> to = STATE_STOPPED \<or> to = STATE_COMPLETED
        | STATE_STOPPED \<Rightarrow> to = STATE_CANCELLING
        | STATE_COMPLETED \<Rightarrow> to = STATE_CANCELLING
        | STATE_CANCELLING \<Rightarrow> to = STATE_CANCELLED \<or> to = STATE_COMPLETED
        | STATE_CANCELLED \<Rightarrow> False))"

section \<open>The attributes in memory\<close>

record 'd status =
  s_messages :: "string list"
  s_children :: "string list"
  s_name :: string
  s_operation :: string
  s_meta :: "'d json"
  s_progress :: nat
  s_code :: int
  s_resource_uri :: string
  s_parent_uri :: string
  s_ctime :: int
  s_mtime :: int
  s_ytime :: int
  s_base_uri :: string
  s_state :: status_state
  s_failures :: nat
  s_component :: string
  s_concurrency :: nat

definition new_status :: "int \<Rightarrow> 'd status" where
  "new_status now = \<lparr>s_messages = [], s_children = [], s_name = [], s_operation = [], s_meta = JUndef,
     s_progress = 0, s_code = -1, s_resource_uri = [], s_parent_uri = [], s_ctime = now, s_mtime = now,
     s_ytime = -1, s_base_uri = [], s_state = STATE_UNKNOWN, s_failures = 0, s_component = [], s_concurrency = 0\<rparr>"

text \<open>
  The members of \<^verbatim>\<open>StatusImpl\<close>. Those that record a modification set the modification time
  through the virtual \<^verbatim>\<open>mtime\<close>; here on the attributes alone.
\<close>

definition touch :: "int \<Rightarrow> 'd status \<Rightarrow> 'd status" where
  "touch now s = s\<lparr>s_mtime := now\<rparr>"

definition set_messages :: "string list \<Rightarrow> 'd status \<Rightarrow> 'd status" where
  "set_messages ms s = s\<lparr>s_messages := ms\<rparr>"

definition add_message :: "int \<Rightarrow> string \<Rightarrow> 'd status \<Rightarrow> 'd status" where
  "add_message now m s = touch now (s\<lparr>s_messages := s_messages s @ [m]\<rparr>)"

definition set_children :: "string list \<Rightarrow> 'd status \<Rightarrow> 'd status" where
  "set_children cs s = s\<lparr>s_children := cs\<rparr>"

definition add_child :: "int \<Rightarrow> string \<Rightarrow> 'd status \<Rightarrow> 'd status" where
  "add_child now c s = touch now (s\<lparr>s_children := s_children s @ [c]\<rparr>)"

definition set_name :: "int \<Rightarrow> string \<Rightarrow> 'd status \<Rightarrow> 'd status" where
  "set_name now n s = touch now (s\<lparr>s_name := n\<rparr>)"

definition set_operation :: "int \<Rightarrow> string \<Rightarrow> 'd status \<Rightarrow> 'd status" where
  "set_operation now op s = touch now (s\<lparr>s_operation := op\<rparr>)"

definition status_uri :: "'d status \<Rightarrow> string" where
  "status_uri s = s_base_uri s @ ''/status/'' @ s_name s"

definition set_resource_uri :: "int \<Rightarrow> string \<Rightarrow> 'd status \<Rightarrow> 'd status" where
  "set_resource_uri now u s = touch now (s\<lparr>s_resource_uri := u\<rparr>)"

definition set_component :: "int \<Rightarrow> string \<Rightarrow> 'd status \<Rightarrow> 'd status" where
  "set_component now c s = touch now (s\<lparr>s_component := c\<rparr>)"

definition set_meta :: "int \<Rightarrow> 'd json \<Rightarrow> 'd status \<Rightarrow> 'd status" where
  "set_meta now m s = touch now (s\<lparr>s_meta := m\<rparr>)"

definition set_meta_key :: "int \<Rightarrow> string \<Rightarrow> 'd json \<Rightarrow> 'd status \<Rightarrow> gb_exn + 'd status" where
  "set_meta_key now k v s =
     res_bind (json_set k (json_copy v) (s_meta s)) (\<lambda>m. Inr (touch now (s\<lparr>s_meta := m\<rparr>)))"

definition set_progress :: "int \<Rightarrow> nat \<Rightarrow> 'd status \<Rightarrow> 'd status" where
  "set_progress now p s = touch now (s\<lparr>s_progress := p\<rparr>)"

definition set_code :: "int \<Rightarrow> 'd status \<Rightarrow> 'd status" where
  "set_code c s = s\<lparr>s_code := c\<rparr>"

definition set_parent_uri :: "int \<Rightarrow> string \<Rightarrow> 'd status \<Rightarrow> 'd status" where
  "set_parent_uri now p s = touch now (s\<lparr>s_parent_uri := p\<rparr>)"

definition set_ctime :: "int \<Rightarrow> 'd status \<Rightarrow> 'd status" where
  "set_ctime t s = s\<lparr>s_ctime := t\<rparr>"

definition set_ytime :: "int \<Rightarrow> 'd status \<Rightarrow> 'd status" where
  "set_ytime t s = s\<lparr>s_ytime := t\<rparr>"

definition set_base_uri :: "string \<Rightarrow> 'd status \<Rightarrow> 'd status" where
  "set_base_uri b s = s\<lparr>s_base_uri := b\<rparr>"

definition set_failures :: "nat \<Rightarrow> 'd status \<Rightarrow> 'd status" where
  "set_failures n s = s\<lparr>s_failures := n\<rparr>"

definition set_concurrency :: "nat \<Rightarrow> 'd status \<Rightarrow> 'd status" where
  "set_concurrency n s = s\<lparr>s_concurrency := n\<rparr>"

text \<open>
  \<^verbatim>\<open>StatusImpl::state(State)\<close>: an invalid change is refused; a change to a stopping or cancelling
  state does not count as a modification.
\<close>

definition quiet_state :: "status_state \<Rightarrow> bool" where
  "quiet_state st \<longleftrightarrow> st \<in> {STATE_STOPPING, STATE_STOPPED, STATE_CANCELLING, STATE_CANCELLED}"

definition set_state :: "int \<Rightarrow> status_state \<Rightarrow> 'd status \<Rightarrow> bool \<times> 'd status" where
  "set_state now st s =
     (let valid = validStateTransition (s_state s) st in
      if \<not> valid \<and> st \<noteq> STATE_UNKNOWN then (False, s)
      else let s' = s\<lparr>s_state := st\<rparr>
           in (True, if quiet_state st then s' else touch now s'))"

section \<open>Virtual members\<close>

record 'w status_vtbl =
  v_state :: "('w, gb_exn, status_state) sx"
  v_set_state :: "status_state \<Rightarrow> ('w, gb_exn, bool) sx"
  v_progress :: "('w, gb_exn, nat) sx"
  v_set_progress :: "nat \<Rightarrow> ('w, gb_exn, unit) sx"
  v_code :: "('w, gb_exn, int) sx"
  v_set_code :: "int \<Rightarrow> ('w, gb_exn, unit) sx"
  v_set_mtime :: "('w, gb_exn, unit) sx"
  v_sync :: "('w, gb_exn, unit) sx"
  v_fail :: "int \<Rightarrow> ('w, gb_exn, unit) sx"
  v_cancel :: "('w, gb_exn, unit) sx"
  v_success :: "('w, gb_exn, unit) sx"

definition invalid_change :: "status_state \<Rightarrow> string \<Rightarrow> gb_exn" where
  "invalid_change st to = ERR_INTERNAL_SERVER_ERROR
     (''Invalid status state change from '' @ state2str st @ '' to '' @ to)"

text \<open>\<^verbatim>\<open>StatusImpl::fail\<close>, \<^verbatim>\<open>cancel\<close> and \<^verbatim>\<open>success\<close>, for the classes that do not override them.\<close>

definition StatusImpl_end :: "'w status_vtbl \<Rightarrow> int \<Rightarrow> ('w, gb_exn, unit) sx" where
  "StatusImpl_end vt c =
     sx_bind (v_set_state vt STATE_COMPLETED) (\<lambda>ok.
     if \<not> ok then sx_bind (v_state vt) (\<lambda>st. sx_throw (invalid_change st ''COMPLETED''))
     else sx_then (v_set_mtime vt) (sx_then (v_set_code vt c) (v_set_progress vt 100)))"

definition StatusImpl_fail :: "'w status_vtbl \<Rightarrow> int \<Rightarrow> ('w, gb_exn, unit) sx" where
  "StatusImpl_fail vt c = StatusImpl_end vt c"

definition StatusImpl_success :: "'w status_vtbl \<Rightarrow> ('w, gb_exn, unit) sx" where
  "StatusImpl_success vt = StatusImpl_end vt 0"

definition StatusImpl_cancel :: "'w status_vtbl \<Rightarrow> ('w, gb_exn, unit) sx" where
  "StatusImpl_cancel vt =
     sx_bind (v_state vt) (\<lambda>st.
     if st = STATE_CANCELLED then sx_return ()
     else sx_bind (v_set_state vt STATE_CANCELLED) (\<lambda>ok.
       if \<not> ok then sx_bind (v_state vt) (\<lambda>st. sx_throw (invalid_change st ''CANCELLED''))
       else sx_bind (v_progress vt) (\<lambda>p.
         if p < 100 then sx_then (v_set_code vt 409) (v_set_progress vt 100)
         else sx_return ())))"

section \<open>The operations of Status\<close>

text \<open>\<^verbatim>\<open>Status::progress(p)\<close> never lowers the progress.\<close>

definition Status_progress :: "'w status_vtbl \<Rightarrow> nat \<Rightarrow> ('w, gb_exn, unit) sx" where
  "Status_progress vt p =
     sx_bind (v_progress vt) (\<lambda>cp.
     if p > cp then v_set_progress vt p else sx_return ())"

definition Status_has_completed :: "'w status_vtbl \<Rightarrow> ('w, gb_exn, bool) sx" where
  "Status_has_completed vt = sx_bind (v_progress vt) (\<lambda>p. sx_return (p = 100))"

definition Status_is_success :: "'w status_vtbl \<Rightarrow> ('w, gb_exn, bool) sx" where
  "Status_is_success vt =
     sx_bind (v_progress vt) (\<lambda>p.
     if p \<noteq> 100 then sx_throw (StdError ''is_success is invalid on in-complete status'')
     else sx_bind (v_code vt) (\<lambda>c. sx_return (c = 0)))"

text \<open>\<^verbatim>\<open>Status::checkpoint\<close>: where a long-running job finds out that it has been told to stop.\<close>

definition Status_checkpoint :: "'w status_vtbl \<Rightarrow> ('w, gb_exn, unit) sx" where
  "Status_checkpoint vt =
     sx_then (v_sync vt)
     (sx_bind (v_state vt) (\<lambda>st.
      if st \<in> {STATE_STOPPING, STATE_STOPPED, STATE_CANCELLING, STATE_CANCELLED} then
        sx_bind (v_set_state vt STATE_STOPPED) (\<lambda>ok.
        sx_then (if ok then sx_then (v_set_code vt 410) (v_set_progress vt 100) else sx_return ())
        (sx_throw WorkerStop))
      else sx_return ()))"

section \<open>Texts of states and events\<close>

lemma toupper_upper: "is_upper c \<Longrightarrow> char_toupper c = c"
  by (auto simp: char_toupper_def is_upper_def is_lower_def)

interpretation state_text: codec state2str "\<lambda>s. Some (str2state s)" "\<lambda>_. True"
proof unfold_locales
  fix x show "Some (str2state (state2str x)) = Some x" by (cases x; hypsubst; code_simp)
qed

interpretation event_text: codec event2str "\<lambda>s. Some (str2event s)" "\<lambda>_. True"
proof unfold_locales
  fix x show "Some (str2event (event2str x)) = Some x" by (cases x) (simp_all add: str2event_def)
qed

text \<open>
  The text of a state reads back as the state, whatever the case of its letters, and no two
  states share a text.
\<close>

theorem state_text_roundtrip:
  "str2state (state2str st) = st \<and> str2state (str_tolower (state2str st)) = st
   \<and> (state2str st = state2str st' \<longleftrightarrow> st = st')"
proof -
  have "str2state (str_tolower (state2str st)) = st" by (cases st; hypsubst; code_simp)
  moreover have "str2state (state2str st) = st" using state_text.dec_enc [of st] by simp
  moreover have "state2str st = state2str st' \<longleftrightarrow> st = st'" by (rule state_text.enc_eq_iff) simp_all
  ultimately show ?thesis by blast
qed

section \<open>The state machine\<close>

text \<open>
  The changes a status can go through once it has a state: every accepted change except the reset
  to unknown, which only \<^verbatim>\<open>sync\<close> makes, on the copy in memory before it is read again.
\<close>

inductive state_run :: "status_state \<Rightarrow> status_state list \<Rightarrow> status_state \<Rightarrow> bool" where
  stay: "state_run st [] st"
| change: "state_run st trace st1 \<Longrightarrow> validStateTransition st1 st2 \<Longrightarrow> st2 \<noteq> STATE_UNKNOWN \<Longrightarrow>
    state_run st (trace @ [st2]) st2"

inductive_cases state_run_snocE: "state_run st (trace @ [x]) st'"

lemma state_run_append:
  "state_run a t b \<Longrightarrow> state_run b u c \<Longrightarrow> state_run a (t @ u) c"
  by (rotate_tac, induction rule: state_run.induct)
    (auto intro: state_run.intros simp flip: append_assoc)

lemma cancelled_final: "state_run st trace st' \<Longrightarrow> st = STATE_CANCELLED \<Longrightarrow>
    st' = STATE_CANCELLED \<and> set trace \<subseteq> {STATE_CANCELLED}"
  by (induction rule: state_run.induct) (auto simp: validStateTransition_def split: if_splits)

definition finished :: "status_state \<Rightarrow> bool" where
  "finished st \<longleftrightarrow> st \<in> {STATE_STOPPED, STATE_COMPLETED, STATE_CANCELLING, STATE_CANCELLED}"

lemma finished_stays: "state_run st trace st' \<Longrightarrow> finished st \<Longrightarrow> finished st' \<and> list_all finished trace"
  by (induction rule: state_run.induct)
    (auto simp: validStateTransition_def finished_def split: if_splits)

lemma state_run_known: "state_run st trace st' \<Longrightarrow> st \<noteq> STATE_UNKNOWN \<Longrightarrow> st' \<noteq> STATE_UNKNOWN"
  by (induction rule: state_run.induct) auto

lemma stopped_was_stopping:
  "state_run st trace st' \<Longrightarrow> st = STATE_PENDING \<Longrightarrow> st' = STATE_STOPPED \<or> st' = STATE_STOPPING \<Longrightarrow>
   STATE_RUNNING \<in> set trace \<and> STATE_STOPPING \<in> set trace"
proof (induction rule: state_run.induct)
  case (change st trace st1 st2)
  have running: "state_run a t b \<Longrightarrow> a = STATE_PENDING \<Longrightarrow> b = STATE_RUNNING \<Longrightarrow> STATE_RUNNING \<in> set t" for a t b
    by (induction rule: state_run.induct) auto
  from change have "st1 = STATE_STOPPED \<or> st1 = STATE_STOPPING \<or> st1 = STATE_RUNNING \<and> st2 = STATE_STOPPING"
    using state_run_known [OF change(1)]
    by (cases st1) (auto simp: validStateTransition_def split: if_splits)
  with change running [OF change(1)] show ?case by auto
qed auto

text \<open>
  C4: the life of a status. Nothing leaves the cancelled state; a status that is stopped,
  completed, being cancelled or cancelled never runs again; and a pending status is stopped only after it
  was running and was asked to stop.
\<close>

theorem status_lifecycle:
  assumes run: "state_run st trace st'"
  shows "(st = STATE_CANCELLED \<longrightarrow> st' = STATE_CANCELLED)
    \<and> (finished st \<longrightarrow> STATE_RUNNING \<notin> set trace \<and> finished st')
    \<and> (st = STATE_PENDING \<and> st' = STATE_STOPPED \<longrightarrow> STATE_RUNNING \<in> set trace \<and> STATE_STOPPING \<in> set trace)"
  using cancelled_final [OF run] finished_stays [OF run] stopped_was_stopping [OF run]
  by (auto simp: finished_def list_all_iff)

theorem status_lifecycle_witness:
  "\<exists>trace. state_run STATE_PENDING trace STATE_STOPPED \<and> STATE_RUNNING \<in> set trace \<and> STATE_STOPPING \<in> set trace"
proof -
  have "state_run STATE_PENDING ((([] @ [STATE_RUNNING]) @ [STATE_STOPPING]) @ [STATE_STOPPED]) STATE_STOPPED"
    by (rule state_run.change, rule state_run.change, rule state_run.change, rule state_run.stay)
      (simp_all add: validStateTransition_def)
  then show ?thesis using status_lifecycle [where st = STATE_PENDING and st' = STATE_STOPPED] by blast
qed

definition told_to_stop :: "status_state \<Rightarrow> bool" where
  "told_to_stop st \<longleftrightarrow> st \<in> {STATE_STOPPING, STATE_STOPPED, STATE_CANCELLING, STATE_CANCELLED}"

section \<open>What an implementation promises\<close>

text \<open>
  A status as its clients see it: a state, a progress and a code. Reading them changes nothing,
  an invalid state change is refused and changes nothing, an accepted write changes what it names
  and keeps the rest, and the progress is only ever written upwards.
\<close>

locale status_impl =
  fixes vt :: "'w status_vtbl"
    and inv :: "'w \<Rightarrow> bool"
    and st :: "'w \<Rightarrow> status_state"
    and pr :: "'w \<Rightarrow> nat"
    and cd :: "'w \<Rightarrow> int"
  assumes state_get: "inv w \<Longrightarrow> v_state vt w = (Inr (st w), w)"
    and progress_get: "inv w \<Longrightarrow> v_progress vt w = (Inr (pr w), w)"
    and code_get: "inv w \<Longrightarrow> v_code vt w = (Inr (cd w), w)"
    and state_set: "inv w \<Longrightarrow> validStateTransition (st w) s \<Longrightarrow>
      \<exists>w'. v_set_state vt s w = (Inr True, w') \<and> inv w' \<and> st w' = s \<and> pr w' = pr w \<and> cd w' = cd w"
    and state_set_bad: "inv w \<Longrightarrow> \<not> validStateTransition (st w) s \<Longrightarrow> v_set_state vt s w = (Inr False, w)"
    and progress_set: "inv w \<Longrightarrow> pr w \<le> p \<Longrightarrow>
      \<exists>w'. v_set_progress vt p w = (Inr (), w') \<and> inv w' \<and> st w' = st w \<and> pr w' = p \<and> cd w' = cd w"
    and code_set: "inv w \<Longrightarrow>
      \<exists>w'. v_set_code vt c w = (Inr (), w') \<and> inv w' \<and> st w' = st w \<and> pr w' = pr w \<and> cd w' = c"
    and mtime_set: "inv w \<Longrightarrow>
      \<exists>w'. v_set_mtime vt w = (Inr (), w') \<and> inv w' \<and> st w' = st w \<and> pr w' = pr w \<and> cd w' = cd w"
    and sync_same: "inv w \<Longrightarrow>
      \<exists>w'. v_sync vt w = (Inr (), w') \<and> inv w' \<and> st w' = st w \<and> pr w' = pr w \<and> cd w' = cd w"
begin

lemma code_progress_set:
  assumes "inv w" and "pr w \<le> 100"
  shows "\<exists>w'. sx_then (v_set_code vt c) (v_set_progress vt 100) w = (Inr (), w')
    \<and> inv w' \<and> st w' = st w \<and> pr w' = 100 \<and> cd w' = c"
proof -
  obtain w1 where 1: "v_set_code vt c w = (Inr (), w1)" "inv w1" "st w1 = st w" "pr w1 = pr w" "cd w1 = c"
    using code_set [OF assms(1)] by blast
  moreover obtain w2 where "v_set_progress vt 100 w1 = (Inr (), w2)" "inv w2" "st w2 = st w1" "pr w2 = 100" "cd w2 = c"
    using progress_set [OF 1(2), of 100] assms(2) 1(4,5) by auto
  ultimately show ?thesis by (simp add: sx_defs)
qed

text \<open>Ending a status: completed with the code given, or an error that leaves it as it was.\<close>

lemma end_spec:
  assumes "inv w" and "pr w \<le> 100"
  shows "if validStateTransition (st w) STATE_COMPLETED
    then \<exists>w'. StatusImpl_end vt c w = (Inr (), w') \<and> inv w' \<and> st w' = STATE_COMPLETED \<and> pr w' = 100 \<and> cd w' = c
    else StatusImpl_end vt c w = (Inl (invalid_change (st w) ''COMPLETED''), w)"
proof (cases "validStateTransition (st w) STATE_COMPLETED")
  case True
  obtain w1 where 1: "v_set_state vt STATE_COMPLETED w = (Inr True, w1)" "inv w1" "st w1 = STATE_COMPLETED"
      "pr w1 = pr w" using state_set [OF assms(1) True] by blast
  obtain w2 where 2: "v_set_mtime vt w1 = (Inr (), w2)" "inv w2" "st w2 = STATE_COMPLETED" "pr w2 = pr w"
    using mtime_set [OF 1(2)] 1(3,4) by auto
  obtain w3 where "sx_then (v_set_code vt c) (v_set_progress vt 100) w2 = (Inr (), w3)"
      "inv w3" "st w3 = STATE_COMPLETED" "pr w3 = 100" "cd w3 = c"
    using code_progress_set [OF 2(2), of c] assms(2) 2(3,4) by auto
  with 1(1) 2(1) True show ?thesis by (simp add: StatusImpl_end_def sx_defs)
next
  case False
  with state_set_bad [OF assms(1) False] state_get [OF assms(1)] show ?thesis
    by (simp add: StatusImpl_end_def sx_defs)
qed

lemma cancel_spec:
  assumes "inv w" and "pr w \<le> 100"
  shows "if validStateTransition (st w) STATE_CANCELLED
    then \<exists>w'. StatusImpl_cancel vt w = (Inr (), w') \<and> inv w' \<and> st w' = STATE_CANCELLED
      \<and> (if st w = STATE_CANCELLED then w' = w else pr w' = 100 \<and> cd w' = (if pr w < 100 then 409 else cd w))
    else StatusImpl_cancel vt w = (Inl (invalid_change (st w) ''CANCELLED''), w)"
proof (cases "st w = STATE_CANCELLED")
  case True
  with state_get [OF assms(1)] assms(1) show ?thesis
    by (simp add: StatusImpl_cancel_def sx_defs validStateTransition_def)
next
  case ne: False
  show ?thesis
  proof (cases "validStateTransition (st w) STATE_CANCELLED")
    case True
    obtain w1 where 1: "v_set_state vt STATE_CANCELLED w = (Inr True, w1)" "inv w1" "st w1 = STATE_CANCELLED"
        "pr w1 = pr w" "cd w1 = cd w" using state_set [OF assms(1) True] by blast
    obtain w2 where "sx_then (v_set_code vt 409) (v_set_progress vt 100) w1 = (Inr (), w2)"
        "inv w2" "st w2 = STATE_CANCELLED" "pr w2 = 100" "cd w2 = 409"
      using code_progress_set [OF 1(2), of 409] assms(2) 1(3,4) by auto
    with 1 True ne assms state_get [OF assms(1)] progress_get [OF 1(2)] show ?thesis
      by (cases "pr w < 100") (auto simp: StatusImpl_cancel_def sx_defs)
  next
    case False
    with state_set_bad [OF assms(1) False] state_get [OF assms(1)] ne show ?thesis
      by (simp add: StatusImpl_cancel_def sx_defs)
  qed
qed

text \<open>The progress a client sees never goes down.\<close>

lemma progress_monotone:
  assumes "inv w"
  shows "\<exists>w'. Status_progress vt p w = (Inr (), w') \<and> inv w' \<and> st w' = st w \<and> cd w' = cd w
    \<and> pr w' = max p (pr w)"
proof (cases "p > pr w")
  case True
  with progress_set [OF assms, of p] progress_get [OF assms] show ?thesis
    by (auto simp: Status_progress_def sx_defs max_def)
next
  case False
  with assms progress_get [OF assms] show ?thesis by (auto simp: Status_progress_def sx_defs max_def)
qed

lemma is_success_spec:
  assumes "inv w"
  shows "Status_is_success vt w =
    (if pr w = 100 then Inr (cd w = 0) else Inl (StdError ''is_success is invalid on in-complete status''), w)"
  using progress_get [OF assms] code_get [OF assms] by (simp add: Status_is_success_def sx_defs)

text \<open>
  A checkpoint lets a job go on unless it was told to stop or was cancelled; then it throws, and a
  job that was stopping is left stopped, complete and with the code of \<^verbatim>\<open>ERR_GONE\<close>.
\<close>

lemma checkpoint_spec:
  assumes "inv w" and "pr w \<le> 100"
  shows "\<exists>w'. Status_checkpoint vt w = (if told_to_stop (st w) then Inl WorkerStop else Inr (), w') \<and> inv w'
    \<and> (if st w = STATE_STOPPING \<or> st w = STATE_STOPPED
       then st w' = STATE_STOPPED \<and> pr w' = 100 \<and> cd w' = 410
       else st w' = st w \<and> pr w' = pr w \<and> cd w' = cd w)"
proof -
  obtain w1 where 1: "v_sync vt w = (Inr (), w1)" "inv w1" "st w1 = st w" "pr w1 = pr w" "cd w1 = cd w"
    using sync_same [OF assms(1)] by blast
  show ?thesis
  proof (cases "st w = STATE_STOPPING \<or> st w = STATE_STOPPED")
    case True
    then have "validStateTransition (st w1) STATE_STOPPED" using 1(3) by (auto simp: validStateTransition_def)
    then obtain w2 where 2: "v_set_state vt STATE_STOPPED w1 = (Inr True, w2)" "inv w2" "st w2 = STATE_STOPPED"
        "pr w2 = pr w" using state_set [OF 1(2)] 1(4) by metis
    obtain w3 where "sx_then (v_set_code vt 410) (v_set_progress vt 100) w2 = (Inr (), w3)"
        "inv w3" "st w3 = STATE_STOPPED" "pr w3 = 100" "cd w3 = 410"
      using code_progress_set [OF 2(2), of 410] assms(2) 2(3,4) by auto
    with 1 2 True state_get [OF 1(2)] show ?thesis
      by (auto simp: Status_checkpoint_def told_to_stop_def sx_defs)
  next
    case False
    then have "st w1 \<in> {STATE_CANCELLING, STATE_CANCELLED} \<Longrightarrow> v_set_state vt STATE_STOPPED w1 = (Inr False, w1)"
      using state_set_bad [OF 1(2)] by (auto simp: validStateTransition_def)
    with 1 False state_get [OF 1(2)] show ?thesis
      by (auto simp: Status_checkpoint_def told_to_stop_def sx_defs)
  qed
qed

end

text \<open>
  A status with its endings: completing it, successfully or not, and cancelling it, as virtual members
  that the implementations write differently. The code is only promised where the status had not
  ended yet.
\<close>

locale status_endings = status_impl +
  assumes fail_ok: "inv w \<Longrightarrow> pr w \<le> 100 \<Longrightarrow> validStateTransition (st w) STATE_COMPLETED \<Longrightarrow>
      \<exists>w'. v_fail vt c w = (Inr (), w') \<and> inv w' \<and> st w' = STATE_COMPLETED \<and> pr w' = 100 \<and> (pr w < 100 \<longrightarrow> cd w' = c)"
    and fail_bad: "inv w \<Longrightarrow> pr w \<le> 100 \<Longrightarrow> \<not> validStateTransition (st w) STATE_COMPLETED \<Longrightarrow>
      \<exists>w'. v_fail vt c w = (Inl (invalid_change (st w) ''COMPLETED''), w') \<and> inv w'
        \<and> st w' = st w \<and> pr w' = pr w \<and> cd w' = cd w"
    and success_as_fail: "inv w \<Longrightarrow> v_success vt w = v_fail vt 0 w"
begin

text \<open>A job that runs and succeeds is seen as complete and successful.\<close>

lemma success_seen:
  assumes "inv w" and "pr w < 100" and "validStateTransition (st w) STATE_COMPLETED"
  shows "\<exists>w'. v_success vt w = (Inr (), w') \<and> st w' = STATE_COMPLETED \<and> Status_is_success vt w' = (Inr True, w')"
proof -
  from fail_ok [OF assms(1) _ assms(3), of 0] assms(2) obtain w' where
    "v_fail vt 0 w = (Inr (), w')" "inv w'" "st w' = STATE_COMPLETED" "pr w' = 100" "cd w' = 0" by auto
  with success_as_fail [OF assms(1)] is_success_spec [of w'] show ?thesis by auto
qed

end

end
