(* ===== verification/GB_StatusTransient.thy ===== *)
theory GB_StatusTransient
  imports GB_Status
begin

text \<open>
  \<^verbatim>\<open>job/TransientStatusImpl.cc\<close>: statuses kept in the memory of the process. An object holds its own
  attributes and shares a data block with every other object for the same status; the blocks
  are found through a queue of the last hundred that were inserted. The blocks live in an explicit
  store, because two objects that share one see each other's writes.
\<close>

definition MAX_QUEUE :: nat where
  "MAX_QUEUE = 100"

record 'd tdata =
  td_attrs :: "'d status"
  td_handlers :: "status_event \<Rightarrow> (string \<times> string) option"

record 'd tworld =
  t_store :: "nat \<Rightarrow> 'd tdata option"
  t_next :: nat
  t_db :: "nat list"
  t_obj :: "'d status"
  t_ref :: "nat option"

definition t_data :: "'d tworld \<Rightarrow> 'd tdata option" where
  "t_data w = (case t_ref w of None \<Rightarrow> None | Some r \<Rightarrow> t_store w r)"

definition t_put_data :: "'d tdata \<Rightarrow> 'd tworld \<Rightarrow> 'd tworld" where
  "t_put_data d w = (case t_ref w of
     None \<Rightarrow> w
   | Some r \<Rightarrow> w\<lparr>t_store := (t_store w)(r := Some d)\<rparr>)"

text \<open>A write to the shared block, if there is one, and a write to the object's own attributes.\<close>

definition t_upd_data :: "('d status \<Rightarrow> 'd status) \<Rightarrow> 'd tworld \<Rightarrow> 'd tworld" where
  "t_upd_data f w = (case t_data w of
     None \<Rightarrow> w
   | Some d \<Rightarrow> t_put_data (d\<lparr>td_attrs := f (td_attrs d)\<rparr>) w)"

definition t_upd_obj :: "('d status \<Rightarrow> 'd status) \<Rightarrow> 'd tworld \<Rightarrow> 'd tworld" where
  "t_upd_obj f w = w\<lparr>t_obj := f (t_obj w)\<rparr>"

definition t_both :: "('d status \<Rightarrow> 'd status) \<Rightarrow> 'd tworld \<Rightarrow> 'd tworld" where
  "t_both f w = t_upd_obj f (t_upd_data f w)"

text \<open>\<^verbatim>\<open>mtime\<close> is virtual: every base member that records a modification also stamps the block.\<close>

definition t_mtime :: "int \<Rightarrow> 'd tworld \<Rightarrow> 'd tworld" where
  "t_mtime t w = t_both (touch t) w"

definition t_deref :: "('d tworld \<Rightarrow> 'd tworld) \<Rightarrow> ('d tworld, gb_exn, unit) sx" where
  "t_deref f = (\<lambda>w. if t_data w = None then (Inl NullDereference, w) else (Inr (), f w))"

section \<open>Members\<close>

definition t_messages :: "string list \<Rightarrow> ('d tworld, gb_exn, unit) sx" where
  "t_messages ms = t_deref (t_both (set_messages ms))"

definition t_add_message :: "int \<Rightarrow> string \<Rightarrow> ('d tworld, gb_exn, unit) sx" where
  "t_add_message now m = t_deref (t_both (add_message now m))"

definition t_children :: "string list \<Rightarrow> ('d tworld, gb_exn, unit) sx" where
  "t_children cs = t_deref (t_both (set_children cs))"

definition t_add_child :: "int \<Rightarrow> string \<Rightarrow> ('d tworld, gb_exn, unit) sx" where
  "t_add_child now c = t_deref (t_both (add_child now c))"

definition t_name :: "int \<Rightarrow> string \<Rightarrow> 'd tworld \<Rightarrow> 'd tworld" where
  "t_name now n = t_both (set_name now n)"

definition t_operation :: "int \<Rightarrow> string \<Rightarrow> 'd tworld \<Rightarrow> 'd tworld" where
  "t_operation now op = t_both (set_operation now op)"

definition t_resource_uri :: "int \<Rightarrow> string \<Rightarrow> 'd tworld \<Rightarrow> 'd tworld" where
  "t_resource_uri now u = t_both (set_resource_uri now u)"

definition t_component :: "int \<Rightarrow> string \<Rightarrow> 'd tworld \<Rightarrow> 'd tworld" where
  "t_component now c = t_both (set_component now c)"

definition t_meta :: "int \<Rightarrow> 'd json \<Rightarrow> 'd tworld \<Rightarrow> 'd tworld" where
  "t_meta now m = t_both (set_meta now m)"

text \<open>\<^verbatim>\<open>meta(key, value)\<close> writes the block first, then the object; either may throw where its metadata is no object.\<close>

definition t_meta_key :: "int \<Rightarrow> string \<Rightarrow> 'd json \<Rightarrow> ('d tworld, gb_exn, unit) sx" where
  "t_meta_key now k v = (\<lambda>w.
     let write_obj = (\<lambda>w. case set_meta_key now k v (t_obj w) of
           Inl e \<Rightarrow> (Inl e, w)
         | Inr s \<Rightarrow> (Inr (), t_mtime now (w\<lparr>t_obj := s\<rparr>)))
     in case t_data w of
          None \<Rightarrow> write_obj w
        | Some d \<Rightarrow> (case json_set k (json_copy v) (s_meta (td_attrs d)) of
              Inl e \<Rightarrow> (Inl e, w)
            | Inr m \<Rightarrow> write_obj (t_upd_data (\<lambda>a. a\<lparr>s_meta := m\<rparr>) w)))"

definition t_progress :: "int \<Rightarrow> nat \<Rightarrow> ('d tworld, gb_exn, unit) sx" where
  "t_progress now p = t_deref (t_both (set_progress now p))"

definition t_code :: "int \<Rightarrow> ('d tworld, gb_exn, unit) sx" where
  "t_code c = t_deref (t_both (set_code c))"

definition t_parent_uri :: "int \<Rightarrow> string \<Rightarrow> ('d tworld, gb_exn, unit) sx" where
  "t_parent_uri now p = t_deref (t_both (set_parent_uri now p))"

definition t_ctime :: "int \<Rightarrow> ('d tworld, gb_exn, unit) sx" where
  "t_ctime t = t_deref (t_both (set_ctime t))"

definition t_ytime :: "int \<Rightarrow> 'd tworld \<Rightarrow> 'd tworld" where
  "t_ytime t = t_both (set_ytime t)"

definition t_failures :: "nat \<Rightarrow> 'd tworld \<Rightarrow> 'd tworld" where
  "t_failures n = t_both (set_failures n)"

definition t_concurrency :: "nat \<Rightarrow> 'd tworld \<Rightarrow> 'd tworld" where
  "t_concurrency n = t_both (set_concurrency n)"

definition t_starting :: "'d tworld \<Rightarrow> 'd tworld" where
  "t_starting w = t_concurrency (unat (of_nat (s_concurrency (t_obj w)) + 1 :: 32 word)) w"

definition t_stopping :: "'d tworld \<Rightarrow> 'd tworld" where
  "t_stopping w = t_concurrency (unat (of_nat (s_concurrency (t_obj w)) - 1 :: 32 word)) w"

text \<open>The base class's \<^verbatim>\<open>state(State)\<close> on this class: an accepted change stamps the block as well.\<close>

definition t_super_state :: "int \<Rightarrow> status_state \<Rightarrow> 'd tworld \<Rightarrow> bool \<times> 'd tworld" where
  "t_super_state now st w = (case set_state now st (t_obj w) of
     (False, _) \<Rightarrow> (False, w)
   | (True, s) \<Rightarrow> (True, (if quiet_state st then id else t_mtime now) (w\<lparr>t_obj := s\<rparr>)))"

definition t_set_state :: "int \<Rightarrow> status_state \<Rightarrow> 'd tworld \<Rightarrow> bool \<times> 'd tworld" where
  "t_set_state now st w = (case t_data w of
     None \<Rightarrow> t_super_state now st w
   | Some d \<Rightarrow>
       if \<not> validStateTransition (s_state (td_attrs d)) st then (False, w)
       else t_super_state now st (t_upd_data (\<lambda>a. a\<lparr>s_state := st\<rparr>) w))"

definition t_on :: "status_event \<Rightarrow> string \<Rightarrow> string \<Rightarrow> ('d tworld, gb_exn, unit) sx" where
  "t_on e job_name envelope = (\<lambda>w. case t_data w of
     None \<Rightarrow> (Inl NullDereference, w)
   | Some d \<Rightarrow> (Inr (), t_put_data (d\<lparr>td_handlers := (td_handlers d)(e := Some (job_name, envelope))\<rparr>) w))"

definition t_on_job :: "status_event \<Rightarrow> ('d tworld, gb_exn, (string \<times> string) option) sx" where
  "t_on_job e = (\<lambda>w. case t_data w of
     None \<Rightarrow> (Inl NullDereference, w)
   | Some d \<Rightarrow> (Inr (td_handlers d e), w))"

section \<open>Loading, inserting and synchronising\<close>

definition t_find :: "string \<Rightarrow> 'd tworld \<Rightarrow> nat option" where
  "t_find n w = find (\<lambda>r. case t_store w r of None \<Rightarrow> False | Some d \<Rightarrow> s_name (td_attrs d) = n) (rev (t_db w))"

text \<open>The attributes of the block, except the failures, copied to the object member by member.\<close>

definition t_refresh :: "int \<Rightarrow> 'd status \<Rightarrow> 'd tworld \<Rightarrow> 'd tworld" where
  "t_refresh now a w =
     (let w1 = t_upd_obj (set_children (s_children a) \<circ> set_messages (s_messages a)) w;
          w2 = t_mtime now (t_upd_obj (\<lambda>s. s\<lparr>s_operation := s_operation a, s_resource_uri := s_resource_uri a,
                 s_component := s_component a\<rparr>) w1);
          w3 = snd (t_super_state now (s_state a) w2);
          w4 = t_mtime now (t_upd_obj (\<lambda>s. s\<lparr>s_meta := s_meta a, s_progress := s_progress a,
                 s_code := s_code a, s_parent_uri := s_parent_uri a, s_ctime := s_ctime a,
                 s_ytime := s_ytime a\<rparr>) w3);
          w5 = t_mtime (s_mtime a) w4
      in t_upd_obj (set_concurrency (s_concurrency a)) w5)"

text \<open>\<^verbatim>\<open>load\<close> takes the last block with the name in the queue; without one it keeps the block it has.\<close>

definition t_load :: "int \<Rightarrow> ('d tworld, gb_exn, unit) sx" where
  "t_load now = (\<lambda>w0.
     let w = (case t_find (s_name (t_obj w0)) w0 of None \<Rightarrow> w0 | Some r \<Rightarrow> w0\<lparr>t_ref := Some r\<rparr>) in
     case t_data w of
       None \<Rightarrow> (Inl (ERR_NOT_FOUND (''status '' @ s_name (t_obj w) @ '' not found'')), w)
     | Some d \<Rightarrow> (Inr (), t_refresh now (td_attrs d) w))"

definition t_insert :: "int \<Rightarrow> 'd tworld \<Rightarrow> 'd tworld" where
  "t_insert now w =
     (let r = t_next w;
          db = (if length (t_db w) = MAX_QUEUE then tl (t_db w) else t_db w);
          d = \<lparr>td_attrs = new_status now, td_handlers = (\<lambda>_. None)\<rparr>;
          w1 = w\<lparr>t_db := db @ [r], t_store := (t_store w)(r := Some d), t_next := r + 1, t_ref := Some r\<rparr>;
          s = t_obj w;
          w2 = t_component now (s_component s) (t_resource_uri now (s_resource_uri s)
                 (t_operation now (s_operation s) (t_name now (s_name s) w1)));
          w3 = snd (t_set_state now (s_state (t_obj w2)) w2)
      in t_meta now (s_meta (t_obj w3)) w3)"

definition t_sync :: "int \<Rightarrow> ('d tworld, gb_exn, unit) sx" where
  "t_sync now = (\<lambda>w. t_load now (snd (t_super_state now STATE_UNKNOWN w)))"

definition transient_base_uri :: string where
  "transient_base_uri = ''http://localhost:4080/transient''"

section \<open>Creating and fetching\<close>

text \<open>\<^verbatim>\<open>StatusManager::create\<close> and \<^verbatim>\<open>StatusManager::fetch\<close> for transient statuses.\<close>

definition t_new :: "int \<Rightarrow> string \<Rightarrow> 'd tworld \<Rightarrow> 'd tworld" where
  "t_new now base w = w\<lparr>t_obj := set_base_uri base (new_status now), t_ref := None\<rparr>"

definition t_create :: "int \<Rightarrow> string \<Rightarrow> string \<Rightarrow> string \<Rightarrow> string \<Rightarrow> string \<Rightarrow> 'd tworld \<Rightarrow> 'd tworld" where
  "t_create now base n op uri compo w =
     (let w1 = t_component now compo (t_resource_uri now uri (t_operation now op (t_name now n (t_new now base w))));
          w2 = snd (t_set_state now STATE_PENDING w1)
      in t_insert now w2)"

definition t_fetch :: "int \<Rightarrow> string \<Rightarrow> string \<Rightarrow> ('d tworld, gb_exn, unit) sx" where
  "t_fetch now base n = (\<lambda>w. t_load now (t_name now n (t_new now base w)))"

section \<open>The virtual members\<close>

definition lift_pure :: "('w \<Rightarrow> 'w) \<Rightarrow> ('w, gb_exn, unit) sx" where
  "lift_pure f = (\<lambda>w. (Inr (), f w))"

text \<open>The class does not override \<^verbatim>\<open>fail\<close>, \<^verbatim>\<open>cancel\<close> and \<^verbatim>\<open>success\<close>: they are the base members run on its table.\<close>

definition transient_base_vt :: "int \<Rightarrow> 'd tworld status_vtbl" where
  "transient_base_vt now = \<lparr>
     v_state = (\<lambda>w. (Inr (s_state (t_obj w)), w)),
     v_set_state = (\<lambda>st w. let (b, w') = t_set_state now st w in (Inr b, w')),
     v_progress = (\<lambda>w. (Inr (s_progress (t_obj w)), w)),
     v_set_progress = t_progress now,
     v_code = (\<lambda>w. (Inr (s_code (t_obj w)), w)),
     v_set_code = t_code,
     v_set_mtime = lift_pure (t_mtime now),
     v_sync = t_sync now,
     v_fail = (\<lambda>_. sx_return ()), v_cancel = sx_return (), v_success = sx_return ()\<rparr>"

definition transient_vt :: "int \<Rightarrow> 'd tworld status_vtbl" where
  "transient_vt now = (transient_base_vt now)\<lparr>
     v_fail := StatusImpl_fail (transient_base_vt now),
     v_cancel := StatusImpl_cancel (transient_base_vt now),
     v_success := StatusImpl_success (transient_base_vt now)\<rparr>"

section \<open>How the writes act\<close>

named_theorems status_writes "the attribute writes of the base class"

lemmas [status_writes] = touch_def set_messages_def add_message_def set_children_def add_child_def set_name_def
  set_operation_def set_resource_uri_def set_component_def set_meta_def set_progress_def set_code_def
  set_parent_uri_def set_ctime_def set_ytime_def set_base_uri_def set_failures_def set_concurrency_def

lemma t_upd_data_simps [simp]:
  "t_obj (t_upd_data f w) = t_obj w" "t_ref (t_upd_data f w) = t_ref w" "t_db (t_upd_data f w) = t_db w"
  "t_data (t_upd_data f w) = map_option (\<lambda>d. d\<lparr>td_attrs := f (td_attrs d)\<rparr>) (t_data w)"
  by (auto simp: t_upd_data_def t_put_data_def t_data_def split: option.splits)

lemma t_upd_obj_simps [simp]:
  "t_obj (t_upd_obj f w) = f (t_obj w)" "t_ref (t_upd_obj f w) = t_ref w" "t_db (t_upd_obj f w) = t_db w"
  "t_data (t_upd_obj f w) = t_data w" "t_store (t_upd_obj f w) = t_store w"
  by (simp_all add: t_upd_obj_def t_data_def split: option.split)

lemma t_both_simps [simp]:
  "t_obj (t_both f w) = f (t_obj w)" "t_ref (t_both f w) = t_ref w" "t_db (t_both f w) = t_db w"
  "t_data (t_both f w) = map_option (\<lambda>d. d\<lparr>td_attrs := f (td_attrs d)\<rparr>) (t_data w)"
  by (simp_all add: t_both_def)

lemma t_data_obj [simp]: "t_data (w\<lparr>t_obj := s\<rparr>) = t_data w"
  by (simp add: t_data_def split: option.split)

text \<open>A write that keeps names does not change what a lookup by name finds.\<close>

definition keeps_name :: "('d status \<Rightarrow> 'd status) \<Rightarrow> bool" where
  "keeps_name f \<longleftrightarrow> (\<forall>a. s_name (f a) = s_name a)"

lemma t_find_upd_data [simp]: "keeps_name f \<Longrightarrow> t_find n (t_upd_data f w) = t_find n w"
proof -
  assume f: "keeps_name f"
  have "(case t_store (t_upd_data f w) r of None \<Rightarrow> False | Some d \<Rightarrow> s_name (td_attrs d) = n) =
      (case t_store w r of None \<Rightarrow> False | Some d \<Rightarrow> s_name (td_attrs d) = n)" for r
    using f by (auto simp: t_upd_data_def t_put_data_def t_data_def keeps_name_def split: option.splits)
  then show ?thesis by (simp add: t_find_def)
qed

lemma t_find_upd_obj [simp]: "t_find n (t_upd_obj f w) = t_find n w" "t_find n (w\<lparr>t_obj := s\<rparr>) = t_find n w"
  "t_find n (w\<lparr>t_ref := r\<rparr>) = t_find n w"
  by (simp_all add: t_find_def)

lemma t_find_both [simp]: "keeps_name f \<Longrightarrow> t_find n (t_both f w) = t_find n w"
  by (simp add: t_both_def)

lemma keeps_name_writes [simp]:
  "keeps_name (touch now)" "keeps_name (set_progress now p)" "keeps_name (set_code c)"
  "keeps_name (\<lambda>a. a\<lparr>s_state := st\<rparr>)"
  by (simp_all add: keeps_name_def status_writes)

section \<open>The contract\<close>

definition t_agrees :: "'d tdata \<Rightarrow> 'd status \<Rightarrow> bool" where
  "t_agrees d s \<longleftrightarrow> s_name (td_attrs d) = s_name s \<and> s_state (td_attrs d) = s_state s
     \<and> s_progress (td_attrs d) = s_progress s \<and> s_code (td_attrs d) = s_code s"

text \<open>The object has its block, agrees with it, and a lookup of its name finds no other block.\<close>

definition t_inv :: "'d tworld \<Rightarrow> bool" where
  "t_inv w \<longleftrightarrow> (\<exists>d. t_data w = Some d \<and> t_agrees d (t_obj w))
     \<and> (\<forall>r. t_find (s_name (t_obj w)) w = Some r \<longrightarrow> t_ref w = Some r)"

lemma t_inv_both:
  assumes "t_inv w" and "keeps_name f"
    and "\<And>a b. s_state a = s_state b \<Longrightarrow> s_state (f a) = s_state (f b)"
    and "\<And>a b. s_progress a = s_progress b \<Longrightarrow> s_progress (f a) = s_progress (f b)"
    and "\<And>a b. s_code a = s_code b \<Longrightarrow> s_code (f a) = s_code (f b)"
  shows "t_inv (t_both f w)"
proof -
  obtain d where d: "t_data w = Some d" "t_agrees d (t_obj w)" using assms(1) by (auto simp: t_inv_def)
  have "t_agrees (d\<lparr>td_attrs := f (td_attrs d)\<rparr>) (f (t_obj w))"
    using d(2) assms(2) assms(3-5) [of "td_attrs d" "t_obj w"] by (simp add: t_agrees_def keeps_name_def)
  with d(1) assms(1,2) show ?thesis by (simp add: t_inv_def keeps_name_def)
qed

lemma t_set_state_inv:
  assumes "t_inv w"
  shows "if validStateTransition (s_state (t_obj w)) st
    then \<exists>w'. t_set_state now st w = (True, w') \<and> t_inv w' \<and> s_state (t_obj w') = st
      \<and> s_progress (t_obj w') = s_progress (t_obj w) \<and> s_code (t_obj w') = s_code (t_obj w)
    else t_set_state now st w = (False, w)"
proof -
  obtain d where d: "t_data w = Some d" "t_agrees d (t_obj w)" using assms by (auto simp: t_inv_def)
  show ?thesis
  proof (cases "validStateTransition (s_state (t_obj w)) st")
    case True
    let ?w1 = "t_upd_data (\<lambda>a. a\<lparr>s_state := st\<rparr>) w"
    let ?w2 = "?w1\<lparr>t_obj := snd (set_state now st (t_obj w))\<rparr>"
    have obj: "s_name (t_obj ?w2) = s_name (t_obj w)" "s_state (t_obj ?w2) = st"
      "s_progress (t_obj ?w2) = s_progress (t_obj w)" "s_code (t_obj ?w2) = s_code (t_obj w)"
      using True by (simp_all add: set_state_def Let_def touch_def)
    have inv2: "t_inv ?w2"
      using assms d obj by (auto simp: t_inv_def t_agrees_def)
    have "t_set_state now st w = (True, (if quiet_state st then id else t_mtime now) ?w2)"
      using d True by (simp add: t_set_state_def t_agrees_def t_super_state_def set_state_def Let_def)
    moreover have "t_inv (t_mtime now ?w2)"
      unfolding t_mtime_def by (rule t_inv_both [OF inv2]) (simp_all add: touch_def)
    ultimately show ?thesis using True inv2 obj by (auto simp: t_mtime_def touch_def)
  next
    case False
    with d show ?thesis by (simp add: t_set_state_def t_agrees_def)
  qed
qed

lemma t_super_state_unknown:
  assumes "s_state (t_obj w) = STATE_UNKNOWN"
  shows "snd (t_super_state now st w) =
    (if quiet_state st then id else t_mtime now \<circ> t_upd_obj (touch now)) (t_upd_obj (\<lambda>s. s\<lparr>s_state := st\<rparr>) w)"
  using assms
  by (simp add: t_super_state_def set_state_def validStateTransition_def t_upd_obj_def touch_def)

text \<open>A refresh from an unknown state makes the object a copy of the block and leaves the block alone.\<close>

lemma t_refresh_unknown:
  assumes "s_state (t_obj w) = STATE_UNKNOWN"
  shows "t_obj (t_refresh now a w) = a\<lparr>s_name := s_name (t_obj w), s_base_uri := s_base_uri (t_obj w),
      s_failures := s_failures (t_obj w)\<rparr>"
    and "t_ref (t_refresh now a w) = t_ref w"
    and "t_find n (t_refresh now a w) = t_find n w"
    and "t_data (t_refresh now a w) = map_option (\<lambda>d. d\<lparr>td_attrs := td_attrs d\<lparr>s_mtime := s_mtime a\<rparr>\<rparr>) (t_data w)"
proof -
  note res = t_refresh_def [of now a w] Let_def t_super_state_unknown t_mtime_def status_writes assms
  show "t_obj (t_refresh now a w) = a\<lparr>s_name := s_name (t_obj w), s_base_uri := s_base_uri (t_obj w),
      s_failures := s_failures (t_obj w)\<rparr>"
    by (rule status.equality) (simp_all add: res)
  show "t_ref (t_refresh now a w) = t_ref w" and "t_find n (t_refresh now a w) = t_find n w"
    by (simp_all add: res keeps_name_def)
  show "t_data (t_refresh now a w) = map_option (\<lambda>d. d\<lparr>td_attrs := td_attrs d\<lparr>s_mtime := s_mtime a\<rparr>\<rparr>) (t_data w)"
    by (cases "t_data w") (simp_all add: res)
qed

text \<open>Loading an object that has a block refreshes the object from it.\<close>

lemma t_load_refresh:
  assumes data: "t_data w = Some d" and name: "s_name (td_attrs d) = s_name (t_obj w)"
    and find: "\<forall>r. t_find (s_name (t_obj w)) w = Some r \<longrightarrow> t_ref w = Some r"
    and unk: "s_state (t_obj w) = STATE_UNKNOWN"
  shows "\<exists>w'. t_load now w = (Inr (), w') \<and> t_inv w' \<and> t_data w' = Some d \<and> t_ref w' = t_ref w
    \<and> t_obj w' = (td_attrs d)\<lparr>s_base_uri := s_base_uri (t_obj w), s_failures := s_failures (t_obj w)\<rparr>"
proof -
  have ref: "(case t_find (s_name (t_obj w)) w of None \<Rightarrow> w | Some r \<Rightarrow> w\<lparr>t_ref := Some r\<rparr>) = w"
    using find by (cases "t_find (s_name (t_obj w)) w"; cases w) auto
  have run: "t_load now w = (Inr (), t_refresh now (td_attrs d) w)"
    unfolding t_load_def Let_def ref by (simp add: data)
  let ?res = "t_refresh now (td_attrs d) w"
  have "t_inv ?res"
    using t_refresh_unknown [OF unk] find name data by (simp add: t_inv_def t_agrees_def)
  with run t_refresh_unknown [OF unk] name data show ?thesis by simp
qed

lemma t_sync_inv:
  assumes "t_inv w"
  shows "\<exists>w' d. t_sync now w = (Inr (), w') \<and> t_inv w' \<and> t_data w = Some d \<and> t_obj w' = (td_attrs d)\<lparr>s_mtime := now,
      s_base_uri := s_base_uri (t_obj w), s_failures := s_failures (t_obj w)\<rparr>"
proof -
  obtain d where d: "t_data w = Some d" "t_agrees d (t_obj w)"
    and f: "\<forall>r. t_find (s_name (t_obj w)) w = Some r \<longrightarrow> t_ref w = Some r"
    using assms by (auto simp: t_inv_def)
  let ?w = "t_mtime now (t_upd_obj (\<lambda>s. s\<lparr>s_state := STATE_UNKNOWN\<rparr>) w)"
  have w: "snd (t_super_state now STATE_UNKNOWN w) = ?w"
    by (simp add: t_super_state_def set_state_def quiet_state_def t_mtime_def t_both_def t_upd_obj_def
        validStateTransition_def touch_def t_upd_data_def t_data_def t_put_data_def split: option.split)
  have "\<exists>w'. t_load now ?w = (Inr (), w') \<and> t_inv w' \<and> t_data w' = Some (d\<lparr>td_attrs := touch now (td_attrs d)\<rparr>)
      \<and> t_ref w' = t_ref ?w \<and> t_obj w' = (td_attrs (d\<lparr>td_attrs := touch now (td_attrs d)\<rparr>))\<lparr>s_base_uri := s_base_uri (t_obj ?w),
      s_failures := s_failures (t_obj ?w)\<rparr>"
    by (rule t_load_refresh) (use d f in \<open>simp_all add: t_mtime_def touch_def t_agrees_def keeps_name_def\<close>)
  then show ?thesis
    using d(1) w by (auto simp: t_sync_def t_mtime_def touch_def)
qed

interpretation transient_base: status_impl "transient_base_vt now" t_inv
    "\<lambda>w. s_state (t_obj w)" "\<lambda>w. s_progress (t_obj w)" "\<lambda>w. s_code (t_obj w)"
proof unfold_locales
  fix w :: "'a tworld" and st p c
  assume inv: "t_inv w"
  then have ne: "t_data w \<noteq> None" by (auto simp: t_inv_def)
  show "v_state (transient_base_vt now) w = (Inr (s_state (t_obj w)), w)"
    "v_progress (transient_base_vt now) w = (Inr (s_progress (t_obj w)), w)"
    "v_code (transient_base_vt now) w = (Inr (s_code (t_obj w)), w)"
    by (simp_all add: transient_base_vt_def)
  show "\<exists>w'. v_set_state (transient_base_vt now) st w = (Inr True, w') \<and> t_inv w' \<and> s_state (t_obj w') = st
      \<and> s_progress (t_obj w') = s_progress (t_obj w) \<and> s_code (t_obj w') = s_code (t_obj w)"
    if "validStateTransition (s_state (t_obj w)) st"
    using t_set_state_inv [OF inv, of st now] that by (auto simp: transient_base_vt_def)
  show "v_set_state (transient_base_vt now) st w = (Inr False, w)"
    if "\<not> validStateTransition (s_state (t_obj w)) st"
    using t_set_state_inv [OF inv, of st now] that by (auto simp: transient_base_vt_def)
  have "t_inv (t_both (set_progress now p) w)" "t_inv (t_both (set_code c) w)" "t_inv (t_both (touch now) w)"
    by (rule t_inv_both [OF inv]; simp add: status_writes)+
  then show "\<exists>w'. v_set_progress (transient_base_vt now) p w = (Inr (), w') \<and> t_inv w'
      \<and> s_state (t_obj w') = s_state (t_obj w) \<and> s_progress (t_obj w') = p \<and> s_code (t_obj w') = s_code (t_obj w)"
    and "\<exists>w'. v_set_code (transient_base_vt now) c w = (Inr (), w') \<and> t_inv w'
      \<and> s_state (t_obj w') = s_state (t_obj w) \<and> s_progress (t_obj w') = s_progress (t_obj w) \<and> s_code (t_obj w') = c"
    and "\<exists>w'. v_set_mtime (transient_base_vt now) w = (Inr (), w') \<and> t_inv w'
      \<and> s_state (t_obj w') = s_state (t_obj w) \<and> s_progress (t_obj w') = s_progress (t_obj w)
      \<and> s_code (t_obj w') = s_code (t_obj w)"
    using ne by (auto simp: transient_base_vt_def t_progress_def t_code_def t_deref_def lift_pure_def t_mtime_def
        status_writes)
  show "\<exists>w'. v_sync (transient_base_vt now) w = (Inr (), w') \<and> t_inv w'
      \<and> s_state (t_obj w') = s_state (t_obj w) \<and> s_progress (t_obj w') = s_progress (t_obj w)
      \<and> s_code (t_obj w') = s_code (t_obj w)"
    using t_sync_inv [OF inv, of now] inv by (auto simp: transient_base_vt_def t_inv_def t_agrees_def)
qed

text \<open>The table with the endings differs from the base table only in them.\<close>

lemma transient_vt_same:
  "v_state (transient_vt now) = v_state (transient_base_vt now)"
  "v_set_state (transient_vt now) = v_set_state (transient_base_vt now)"
  "v_progress (transient_vt now) = v_progress (transient_base_vt now)"
  "v_set_progress (transient_vt now) = v_set_progress (transient_base_vt now)"
  "v_code (transient_vt now) = v_code (transient_base_vt now)"
  "v_set_code (transient_vt now) = v_set_code (transient_base_vt now)"
  "v_set_mtime (transient_vt now) = v_set_mtime (transient_base_vt now)"
  "v_sync (transient_vt now) = v_sync (transient_base_vt now)"
  by (simp_all add: transient_vt_def)

interpretation transient: status_endings "transient_vt now" t_inv
    "\<lambda>w. s_state (t_obj w)" "\<lambda>w. s_progress (t_obj w)" "\<lambda>w. s_code (t_obj w)"
proof unfold_locales
  fix w :: "'a tworld" and c
  assume inv: "t_inv w"
  show "v_success (transient_vt now) w = v_fail (transient_vt now) 0 w"
    by (simp add: transient_vt_def StatusImpl_success_def StatusImpl_fail_def)
  assume le: "s_progress (t_obj w) \<le> 100"
  note spec = transient_base.end_spec [OF inv le, of now c]
  show "\<exists>w'. v_fail (transient_vt now) c w = (Inr (), w') \<and> t_inv w' \<and> s_state (t_obj w') = STATE_COMPLETED
      \<and> s_progress (t_obj w') = 100 \<and> (s_progress (t_obj w) < 100 \<longrightarrow> s_code (t_obj w') = c)"
    if "validStateTransition (s_state (t_obj w)) STATE_COMPLETED"
    using spec that by (auto simp: transient_vt_def StatusImpl_fail_def)
  show "\<exists>w'. v_fail (transient_vt now) c w = (Inl (invalid_change (s_state (t_obj w)) ''COMPLETED''), w') \<and> t_inv w'
      \<and> s_state (t_obj w') = s_state (t_obj w) \<and> s_progress (t_obj w') = s_progress (t_obj w)
      \<and> s_code (t_obj w') = s_code (t_obj w)"
    if "\<not> validStateTransition (s_state (t_obj w)) STATE_COMPLETED"
    using spec that inv by (simp add: transient_vt_def StatusImpl_fail_def)
qed (unfold transient_vt_same, (rule transient_base.state_get transient_base.progress_get transient_base.code_get
    transient_base.state_set transient_base.state_set_bad transient_base.progress_set transient_base.code_set
    transient_base.mtime_set transient_base.sync_same; assumption)+)

section \<open>Properties\<close>


definition t_empty :: "'d tworld" where
  "t_empty = \<lparr>t_store = (\<lambda>_. None), t_next = 0, t_db = [], t_obj = new_status 0, t_ref = None\<rparr>"

text \<open>A fresh block holds what was set before the insert, and the object agrees with it.\<close>

lemma t_both_empty: "t_data w = None \<Longrightarrow> t_both f w = t_upd_obj f w"
  by (simp add: t_both_def t_upd_data_def)

lemma t_super_state_db [simp]: "t_db (snd (t_super_state now st w)) = t_db w"
  by (auto simp: t_super_state_def t_mtime_def split: prod.splits bool.splits)

lemma t_set_state_object [simp]:
  "t_ref (snd (t_set_state now st w)) = t_ref w" "t_db (snd (t_set_state now st w)) = t_db w"
  by (auto simp: t_set_state_def t_super_state_def set_state_def Let_def t_mtime_def split: option.splits prod.splits bool.splits)

lemma t_insert_result:
  assumes "t_obj w = s"
  shows "\<exists>d. t_data (t_insert now w) = Some d
      \<and> td_attrs d = (new_status now)\<lparr>s_name := s_name s, s_operation := s_operation s, s_resource_uri := s_resource_uri s,
          s_component := s_component s, s_state := s_state s, s_meta := s_meta s\<rparr>"
    and "t_ref (t_insert now w) = Some (t_next w)"
    and "t_db (t_insert now w) = (if length (t_db w) = MAX_QUEUE then tl (t_db w) else t_db w) @ [t_next w]"
    and "t_obj (t_insert now w) = s\<lparr>s_mtime := now\<rparr>"
proof -
  let ?db = "if length (t_db w) = MAX_QUEUE then tl (t_db w) else t_db w"
  let ?w1 = "w\<lparr>t_db := ?db @ [t_next w],
    t_store := (t_store w)(t_next w := Some \<lparr>td_attrs = new_status now, td_handlers = (\<lambda>_. None)\<rparr>),
    t_next := t_next w + 1, t_ref := Some (t_next w)\<rparr>"
  let ?w2 = "t_component now (s_component s) (t_resource_uri now (s_resource_uri s)
      (t_operation now (s_operation s) (t_name now (s_name s) ?w1)))"
  let ?w3 = "snd (t_set_state now (s_state s) ?w2)"
  note writes = t_component_def t_resource_uri_def t_operation_def t_name_def t_meta_def t_mtime_def status_writes
  have d1: "t_data ?w1 = Some \<lparr>td_attrs = new_status now, td_handlers = (\<lambda>_. None)\<rparr>"
    by (simp add: t_data_def)
  have o2: "t_obj ?w2 = s\<lparr>s_mtime := now\<rparr>" 
    by (rule status.equality) (simp_all add: writes assms)
  obtain d2 where d2: "t_data ?w2 = Some d2" "td_attrs d2 = (new_status now)\<lparr>s_name := s_name s,
      s_operation := s_operation s, s_resource_uri := s_resource_uri s, s_component := s_component s\<rparr>"
    using d1 by (simp add: writes new_status_def)
  have same: "validStateTransition st st" "validStateTransition STATE_UNKNOWN st" for st
    by (simp_all add: validStateTransition_def)
  have unk: "s_state (td_attrs d2) = STATE_UNKNOWN" using d2(2) by (simp add: new_status_def)
  have o3: "t_obj ?w3 = s\<lparr>s_mtime := now\<rparr>"
    using o2 d2(1) unk same by (simp add: t_set_state_def t_super_state_def set_state_def Let_def t_mtime_def touch_def)
  have d3: "map_option td_attrs (t_data ?w3) = Some ((td_attrs d2)\<lparr>s_state := s_state s, s_mtime := now\<rparr>)"
    using o2 d2 unk same
    by (simp add: t_set_state_def t_super_state_def set_state_def Let_def t_mtime_def touch_def new_status_def)
  have ins: "t_insert now w = t_meta now (s_meta s) ?w3"
    using assms o2 o3 by (simp add: t_insert_def Let_def)
  show "\<exists>d. t_data (t_insert now w) = Some d
      \<and> td_attrs d = (new_status now)\<lparr>s_name := s_name s, s_operation := s_operation s, s_resource_uri := s_resource_uri s,
          s_component := s_component s, s_state := s_state s, s_meta := s_meta s\<rparr>"
    using d3 d2(2) unfolding ins by (auto simp: writes new_status_def)
  show "t_ref (t_insert now w) = Some (t_next w)" "t_db (t_insert now w) = ?db @ [t_next w]"
    unfolding ins by (simp_all add: writes)
  show "t_obj (t_insert now w) = s\<lparr>s_mtime := now\<rparr>"
    unfolding ins t_meta_def using o3 by (simp add: writes)
qed

text \<open>The status a create makes.\<close>

definition created :: "int \<Rightarrow> string \<Rightarrow> string \<Rightarrow> string \<Rightarrow> string \<Rightarrow> string \<Rightarrow> 'd status" where
  "created now base n op uri compo = (new_status now)\<lparr>s_base_uri := base, s_name := n, s_operation := op,
     s_resource_uri := uri, s_component := compo, s_state := STATE_PENDING\<rparr>"

lemma t_create_object:
  "t_obj (snd (t_set_state now STATE_PENDING (t_component now compo (t_resource_uri now uri
     (t_operation now op (t_name now n (t_new now base w))))))) = created now base n op uri compo"
  (is "t_obj (snd (t_set_state _ _ ?w)) = _")
proof -
  have d: "t_data (t_new now base w) = None" by (simp add: t_new_def t_data_def)
  have o1: "t_obj ?w = (new_status now)\<lparr>s_base_uri := base, s_name := n, s_operation := op,
     s_resource_uri := uri, s_component := compo\<rparr>"
    by (simp add: t_component_def t_resource_uri_def t_operation_def t_name_def t_new_def status_writes new_status_def)
  have "t_data ?w = None" using d by (simp add: t_component_def t_resource_uri_def t_operation_def t_name_def)
  with o1 show ?thesis
    by (simp add: t_set_state_def t_super_state_def set_state_def quiet_state_def validStateTransition_def
        t_mtime_def touch_def created_def new_status_def)
qed

lemma t_create_result:
  "\<exists>d. t_data (t_create now base n op uri compo w) = Some d
     \<and> td_attrs d = (created now base n op uri compo)\<lparr>s_base_uri := []\<rparr>"
  "t_ref (t_create now base n op uri compo w) = Some (t_next w)"
  "t_db (t_create now base n op uri compo w) =
     (if length (t_db w) = MAX_QUEUE then tl (t_db w) else t_db w) @ [t_next w]"
  "t_obj (t_create now base n op uri compo w) = created now base n op uri compo"
proof -
  let ?w = "snd (t_set_state now STATE_PENDING (t_component now compo (t_resource_uri now uri
     (t_operation now op (t_name now n (t_new now base w))))))"
  have c: "t_create now base n op uri compo w = t_insert now ?w" by (simp add: t_create_def)
  have db: "t_db ?w = t_db w"
    by (simp add: t_component_def t_resource_uri_def t_operation_def t_name_def t_new_def)
  have none: "t_ref ?w = None" "t_next ?w = t_next w"
    by (simp_all add: t_component_def t_resource_uri_def t_operation_def t_name_def t_new_def t_both_def
        t_upd_obj_def t_upd_data_def t_data_def t_set_state_def t_super_state_def set_state_def Let_def t_mtime_def
        new_status_def validStateTransition_def touch_def)
  note res = t_insert_result [OF t_create_object, of now now compo uri op n base w]
  show "\<exists>d. t_data (t_create now base n op uri compo w) = Some d
     \<and> td_attrs d = (created now base n op uri compo)\<lparr>s_base_uri := []\<rparr>"
    using res(1) unfolding c by (auto simp: created_def new_status_def)
  show "t_ref (t_create now base n op uri compo w) = Some (t_next w)"
    "t_db (t_create now base n op uri compo w) =
       (if length (t_db w) = MAX_QUEUE then tl (t_db w) else t_db w) @ [t_next w]"
    using res(2,3) db none unfolding c by simp_all
  show "t_obj (t_create now base n op uri compo w) = created now base n op uri compo"
    using res(4) unfolding c by (simp add: created_def new_status_def)
qed

lemma t_create_inv: "t_inv (t_create now base n op uri compo w)"
proof -
  let ?c = "t_create now base n op uri compo w"
  obtain d where d: "t_data ?c = Some d" "td_attrs d = (created now base n op uri compo)\<lparr>s_base_uri := []\<rparr>"
    using t_create_result(1) by blast
  have "t_store ?c (t_next w) = Some d" using d(1) t_create_result(2) [of now base n op uri compo w]
    by (simp add: t_data_def)
  then have "t_find n ?c = Some (t_next w)" using d(2) by (simp add: t_find_def t_create_result(3) created_def)
  with d t_create_result(2,4) [of now base n op uri compo w] show ?thesis
    by (simp add: t_inv_def t_agrees_def created_def)
qed

text \<open>
  A transient status that was just created is what a fetch of its name returns, whatever was stored
  under that name before: pending, with progress 0, no code, and the attributes it was created with.
  The queue never grows beyond its limit.
\<close>

theorem transient_create_fetch:
  "\<exists>w'. t_fetch now' base' n (t_create now base n op uri compo w) = (Inr (), w')
     \<and> t_obj w' = (created now base n op uri compo)\<lparr>s_base_uri := base'\<rparr> \<and> t_inv w'
     \<and> length (t_db w') \<le> (if length (t_db w) \<le> MAX_QUEUE then MAX_QUEUE else length (t_db w) + 1)"
proof -
  let ?c = "t_create now base n op uri compo w"
  let ?w1 = "t_name now' n (t_new now' base' ?c)" and ?r = "t_next w"
  let ?w2 = "?w1\<lparr>t_ref := Some ?r\<rparr>"
  obtain d where d: "t_data ?c = Some d" "td_attrs d = (created now base n op uri compo)\<lparr>s_base_uri := []\<rparr>"
    using t_create_result(1) by blast
  have store: "t_store ?c ?r = Some d" using d(1) t_create_result(2) [of now base n op uri compo w]
    by (simp add: t_data_def)
  have w1: "t_store ?w1 = t_store ?c" "t_db ?w1 = t_db ?c" "t_obj ?w1 = (new_status now')\<lparr>s_base_uri := base', s_name := n\<rparr>"
    by (simp_all add: t_name_def t_new_def t_both_def t_upd_data_def t_data_def t_upd_obj_def status_writes new_status_def)
  have name: "s_name (td_attrs d) = n" using d(2) by (simp add: created_def)
  have find: "t_find n ?w1 = Some ?r"
    by (simp add: t_find_def w1 t_create_result(3) store name)
  have data2: "t_data ?w2 = Some d" by (simp add: t_data_def w1 store)
  have unk: "s_state (t_obj ?w2) = STATE_UNKNOWN" using w1(3) by (simp add: new_status_def)
  have run: "t_fetch now' base' n ?c = (Inr (), t_refresh now' (td_attrs d) ?w2)"
    using find data2 w1(3) by (simp add: t_fetch_def t_load_def)
  note ref = t_refresh_unknown [OF unk, where now = now' and a = "td_attrs d"]
  have obj: "t_obj (t_refresh now' (td_attrs d) ?w2) = (created now base n op uri compo)\<lparr>s_base_uri := base'\<rparr>"
    using ref(1) w1(3) d(2) by (simp add: created_def new_status_def)
  have "t_inv (t_refresh now' (td_attrs d) ?w2)"
    unfolding t_inv_def t_agrees_def using ref(2-4) obj data2 d(2) find
    by (simp add: created_def new_status_def)
  moreover have "t_db (t_refresh now' (td_attrs d) ?w2) = t_db ?c"
    using w1(2) by (simp add: t_refresh_def Let_def t_mtime_def)
  ultimately show ?thesis
    using run obj t_create_result(3) [of now base n op uri compo w] by (auto simp: MAX_QUEUE_def)
qed


text \<open>
  Two things a refresh gets wrong. Synchronising a transient status stamps it with the current
  time, in the shared block too, although nothing was modified; and it does not read the number of
  failures, so an object never sees the failures another object recorded.
\<close>

theorem transient_sync_defects:
  assumes "t_inv w"
  shows "\<exists>w' d. t_sync now w = (Inr (), w') \<and> t_data w = Some d \<and> s_mtime (t_obj w') = now
    \<and> s_failures (t_obj w') = s_failures (t_obj w)
    \<and> s_messages (t_obj w') = s_messages (td_attrs d)"
  using t_sync_inv [OF assms, of now] by auto

theorem transient_sync_defects_witness:
  "\<exists>w' d. t_sync 9 (t_create 5 [] ''st-1'' [] [] [] (t_empty :: nat tworld)) = (Inr (), w')
    \<and> t_data (t_create 5 [] ''st-1'' [] [] [] (t_empty :: nat tworld)) = Some d \<and> s_mtime (t_obj w') = 9
    \<and> s_failures (t_obj w') = s_failures (t_obj (t_create 5 [] ''st-1'' [] [] [] (t_empty :: nat tworld)))
    \<and> s_messages (t_obj w') = s_messages (td_attrs d)"
  by (rule transient_sync_defects) (rule t_create_inv)

end
