(* ===== verification/GB_StatusSql.thy ===== *)
theory GB_StatusSql
  imports GB_Status
begin

text \<open>
  \<^verbatim>\<open>plugins/status/sql/SQLStatusImpl.cc\<close>: statuses kept in a database that all processes share. An
  object caches the attributes of its row and loads them lazily. A statement that fails is tried
  again until it succeeds, so the model runs the attempt that succeeds, and a member whose every
  attempt fails has no result; what a transaction does under its lock is one step. Metadata values
  are stored serialised; the table here holds the values.
\<close>

section \<open>The tables\<close>

record status_row =
  r_operation :: string
  r_component :: string
  r_progress :: nat
  r_code :: int
  r_resource_uri :: string
  r_parent_uri :: string
  r_ctime :: int
  r_mtime :: int
  r_ytime :: int
  r_state :: string
  r_failures :: nat
  r_concurrency :: int

record 'd sqldb =
  db_status :: "string \<Rightarrow> status_row option"
  db_messages :: "(string \<times> string) list"
  db_children :: "(string \<times> string \<times> string) list"
  db_meta :: "((string \<times> string) \<times> 'd json) list"
  db_events :: "string \<times> string \<Rightarrow> (string \<times> string) option"

record 'd sworld =
  q_db :: "'d sqldb"
  q_obj :: "'d status"
  q_loaded :: bool
  q_should_load :: bool
  q_messages_loaded :: bool
  q_children_loaded :: bool
  q_meta_loaded :: bool

definition q_row :: "'d sworld \<Rightarrow> status_row option" where
  "q_row w = db_status (q_db w) (s_name (q_obj w))"

text \<open>\<^verbatim>\<open>UPDATE status SET ... WHERE name = :name\<close>: no row, no effect.\<close>

definition upd_row :: "string \<Rightarrow> (status_row \<Rightarrow> status_row) \<Rightarrow> 'd sqldb \<Rightarrow> 'd sqldb" where
  "upd_row n f db = db\<lparr>db_status := (db_status db)(n := map_option f (db_status db n))\<rparr>"

definition q_update :: "(status_row \<Rightarrow> status_row) \<Rightarrow> 'd sworld \<Rightarrow> 'd sworld" where
  "q_update f w = w\<lparr>q_db := upd_row (s_name (q_obj w)) f (q_db w)\<rparr>"

definition q_upd_obj :: "('d status \<Rightarrow> 'd status) \<Rightarrow> 'd sworld \<Rightarrow> 'd sworld" where
  "q_upd_obj f w = w\<lparr>q_obj := f (q_obj w)\<rparr>"

section \<open>Loading\<close>

definition q_load :: "'d sworld \<Rightarrow> 'd sworld" where
  "q_load w = w\<lparr>q_should_load := True\<rparr>"

text \<open>
  \<^verbatim>\<open>really_load\<close>: the columns of the row through the members of the base class. Those stamp the time of
  the modification, so the stored time is set last; the state is only taken if the change from
  the cached state is valid.
\<close>

definition load_row :: "int \<Rightarrow> status_row \<Rightarrow> 'd status \<Rightarrow> 'd status" where
  "load_row now r s =
     (let s1 = s\<lparr>s_operation := r_operation r, s_component := r_component r, s_progress := r_progress r,
                 s_code := r_code r, s_resource_uri := r_resource_uri r, s_parent_uri := r_parent_uri r,
                 s_ctime := r_ctime r, s_ytime := r_ytime r\<rparr>;
          s2 = snd (set_state now (str2state (r_state r)) s1)
      in s2\<lparr>s_failures := r_failures r, s_mtime := r_mtime r\<rparr>)"

definition really_load :: "int \<Rightarrow> ('d sworld, gb_exn, unit) sx" where
  "really_load now = (\<lambda>w. case q_row w of
     None \<Rightarrow> (Inl (ERR_NOT_FOUND (''status '' @ s_name (q_obj w) @ '' not found'')), w)
   | Some r \<Rightarrow> (Inr (), w\<lparr>q_obj := load_row now r (q_obj w), q_loaded := True, q_should_load := True\<rparr>))"

definition q_lazy :: "int \<Rightarrow> ('d status \<Rightarrow> 'a) \<Rightarrow> ('d sworld, gb_exn, 'a) sx" where
  "q_lazy now g = (\<lambda>w. if q_loaded w then (Inr (g (q_obj w)), w)
     else sx_then (really_load now) (\<lambda>w. (Inr (g (q_obj w)), w)) w)"

definition q_messages :: "'d sworld \<Rightarrow> 'd sworld" where
  "q_messages w = (if q_messages_loaded w then w else
     (let msgs = map snd (filter (\<lambda>(n, _). n = s_name (q_obj w)) (db_messages (q_db w)))
      in w\<lparr>q_obj := set_messages msgs (q_obj w), q_messages_loaded := True\<rparr>))"

definition q_children :: "'d sworld \<Rightarrow> 'd sworld" where
  "q_children w = (if q_children_loaded w then w else
     (let uris = map (\<lambda>(_, u, _). u) (filter (\<lambda>(n, _). n = s_name (q_obj w)) (db_children (q_db w)))
      in w\<lparr>q_obj := set_children uris (q_obj w), q_children_loaded := True\<rparr>))"

text \<open>Loading the metadata adds the stored members to the cached ones and keeps the time of the modification.\<close>

fun meta_loop :: "(string \<times> 'd json) list \<Rightarrow> 'd json \<Rightarrow> gb_exn + 'd json" where
  "meta_loop [] m = Inr m"
| "meta_loop ((k, v) # kvs) m = res_bind (json_set k (json_copy v) m) (meta_loop kvs)"

definition stored_meta :: "string \<Rightarrow> 'd sqldb \<Rightarrow> (string \<times> 'd json) list" where
  "stored_meta n db = map (\<lambda>((_, k), v). (k, v)) (filter (\<lambda>((n', _), _). n' = n) (db_meta db))"

definition q_meta :: "('d sworld, gb_exn, 'd json) sx" where
  "q_meta = (\<lambda>w. if q_meta_loaded w then (Inr (s_meta (q_obj w)), w) else
     (case meta_loop (stored_meta (s_name (q_obj w)) (q_db w)) (s_meta (q_obj w)) of
        Inl e \<Rightarrow> (Inl e, w)
      | Inr m \<Rightarrow> (Inr m, w\<lparr>q_obj := (q_obj w)\<lparr>s_meta := m\<rparr>, q_meta_loaded := True\<rparr>)))"

text \<open>\<^verbatim>\<open>sync\<close> reads the row again and forgets the lazily loaded lists.\<close>

definition forget_messages :: "'d sworld \<Rightarrow> 'd sworld" where
  "forget_messages w = (let w1 = q_messages w in
     (if s_messages (q_obj w1) \<noteq> [] then q_upd_obj (set_messages []) w1 else w1)\<lparr>q_messages_loaded := False\<rparr>)"

definition forget_children :: "'d sworld \<Rightarrow> 'd sworld" where
  "forget_children w = (let w1 = q_children w in
     (if s_children (q_obj w1) \<noteq> [] then q_upd_obj (set_children []) w1 else w1)\<lparr>q_children_loaded := False\<rparr>)"

definition forget_meta :: "int \<Rightarrow> ('d sworld, gb_exn, unit) sx" where
  "forget_meta now = sx_bind q_meta (\<lambda>m w.
     (Inr (), (if \<not> json_empty m then q_upd_obj (set_meta now JUndef) w else w)\<lparr>q_meta_loaded := False\<rparr>))"

definition q_sync :: "int \<Rightarrow> ('d sworld, gb_exn, unit) sx" where
  "q_sync now = (\<lambda>w.
     sx_then (really_load now) (\<lambda>w. forget_meta now (forget_children (forget_messages w)))
       (q_upd_obj (\<lambda>s. snd (set_state now STATE_UNKNOWN s)) w))"

section \<open>Writing\<close>

text \<open>The name is the primary key of the table: inserting it a second time never succeeds.\<close>

definition q_insert :: "'d sworld \<Rightarrow> 'd sworld option" where
  "q_insert w = (let s = q_obj w in
     if q_row w \<noteq> None then None else Some (
     w\<lparr>q_db := (q_db w)\<lparr>db_status := (db_status (q_db w))(s_name s := Some
        \<lparr>r_operation = s_operation s, r_component = s_component s, r_progress = s_progress s, r_code = s_code s,
         r_resource_uri = s_resource_uri s, r_parent_uri = s_parent_uri s, r_ctime = s_ctime s,
         r_mtime = s_mtime s, r_ytime = s_ytime s, r_state = state2str (s_state s),
         r_failures = s_failures s, r_concurrency = 0\<rparr>)\<rparr>\<rparr>))"

definition q_add_message :: "int \<Rightarrow> string \<Rightarrow> 'd sworld \<Rightarrow> 'd sworld" where
  "q_add_message now m w =
     (let w1 = q_upd_obj (add_message now m) (if q_messages_loaded w then q_messages w else w);
          w2 = w1\<lparr>q_db := (q_db w1)\<lparr>db_messages := db_messages (q_db w1) @ [(s_name (q_obj w1), m)]\<rparr>\<rparr>
      in q_update (\<lambda>r. r\<lparr>r_mtime := s_mtime (q_obj w2)\<rparr>) w2)"

text \<open>A child that is no URI makes every attempt throw; its leaf is the id of the child.\<close>

definition q_add_child :: "int \<Rightarrow> string \<Rightarrow> 'd sworld \<Rightarrow> 'd sworld option" where
  "q_add_child now c w =
     (let w1 = q_upd_obj (add_child now c) (if \<not> q_children_loaded w then q_children w else w)
      in case Uri c of
           Inl e \<Rightarrow> None
         | Inr u \<Rightarrow>
             (let w2 = w1\<lparr>q_db := (q_db w1)\<lparr>db_children := db_children (q_db w1) @ [(s_name (q_obj w1), c, uri_leaf u)]\<rparr>\<rparr>
              in Some (q_update (\<lambda>r. r\<lparr>r_mtime := s_mtime (q_obj w2)\<rparr>) w2)))"

definition q_parent_uri :: "int \<Rightarrow> string \<Rightarrow> 'd sworld \<Rightarrow> 'd sworld" where
  "q_parent_uri now p w = (let w1 = q_upd_obj (set_parent_uri now p) w in
     q_update (\<lambda>r. r\<lparr>r_parent_uri := p, r_mtime := s_mtime (q_obj w1)\<rparr>) w1)"

definition meta_replace :: "string \<Rightarrow> string \<Rightarrow> 'd json \<Rightarrow> 'd sqldb \<Rightarrow> 'd sqldb" where
  "meta_replace n k v db = db\<lparr>db_meta := filter (\<lambda>(nk, _). nk \<noteq> (n, k)) (db_meta db) @ [((n, k), v)]\<rparr>"

definition q_meta_key :: "int \<Rightarrow> string \<Rightarrow> 'd json \<Rightarrow> ('d sworld, gb_exn, unit) sx" where
  "q_meta_key now k v = (\<lambda>w. case set_meta_key now k v (q_obj w) of
     Inl e \<Rightarrow> (Inl e, w)
   | Inr s \<Rightarrow>
       (let w1 = w\<lparr>q_obj := s, q_db := meta_replace (s_name s) k v (q_db w)\<rparr>
        in (Inr (), q_update (\<lambda>r. r\<lparr>r_mtime := s_mtime s\<rparr>) w1)))"

text \<open>\<^verbatim>\<open>meta(Json)\<close> empties the table of the status, then sets each member; the cached members stay.\<close>

definition q_meta_all :: "int \<Rightarrow> 'd json \<Rightarrow> ('d sworld, gb_exn, unit) sx" where
  "q_meta_all now m = (\<lambda>w.
     let n = s_name (q_obj w);
         w1 = q_update (\<lambda>r. r\<lparr>r_mtime := s_mtime (q_obj w)\<rparr>)
                (w\<lparr>q_db := (q_db w)\<lparr>db_meta := filter (\<lambda>((n', _), _). n' \<noteq> n) (db_meta (q_db w))\<rparr>\<rparr>)
     in case json_as_object [] m of
          Inl e \<Rightarrow> (Inl e, w1)
        | Inr o' \<Rightarrow> sx_mapM (\<lambda>(k, v). q_meta_key now k v) o' w1)"

text \<open>The progress of the row only goes up.\<close>

definition q_progress :: "int \<Rightarrow> nat \<Rightarrow> 'd sworld \<Rightarrow> 'd sworld" where
  "q_progress now p w = (let w1 = q_upd_obj (set_progress now p) w in
     q_update (\<lambda>r. if r_progress r < p then r\<lparr>r_progress := p, r_mtime := s_mtime (q_obj w1)\<rparr> else r) w1)"

definition q_code :: "int \<Rightarrow> 'd sworld \<Rightarrow> 'd sworld" where
  "q_code c w = (let w1 = q_upd_obj (set_code c) w in
     q_update (\<lambda>r. r\<lparr>r_code := c, r_mtime := s_mtime (q_obj w1)\<rparr>) w1)"

definition q_ytime :: "int \<Rightarrow> 'd sworld \<Rightarrow> 'd sworld" where
  "q_ytime t w = (let w1 = q_upd_obj (set_ytime t) w in
     q_update (\<lambda>r. r\<lparr>r_ytime := t, r_mtime := s_mtime (q_obj w1)\<rparr>) w1)"

definition q_failures :: "nat \<Rightarrow> 'd sworld \<Rightarrow> 'd sworld" where
  "q_failures n w = (let w1 = q_upd_obj (set_failures n) w in
     q_update (\<lambda>r. r\<lparr>r_failures := n, r_mtime := s_mtime (q_obj w1)\<rparr>) w1)"

definition q_on :: "status_event \<Rightarrow> string \<Rightarrow> string \<Rightarrow> 'd sworld \<Rightarrow> 'd sworld" where
  "q_on e job_name envelope w = w\<lparr>q_db := (q_db w)\<lparr>db_events :=
     (db_events (q_db w))((s_name (q_obj w), event2str e) := Some (job_name, envelope))\<rparr>\<rparr>"

definition q_on_job :: "status_event \<Rightarrow> 'd sworld \<Rightarrow> (string \<times> string) option" where
  "q_on_job e w = db_events (q_db w) (s_name (q_obj w), event2str e)"

definition q_starting :: "'d sworld \<Rightarrow> 'd sworld" where
  "q_starting = q_update (\<lambda>r. r\<lparr>r_concurrency := r_concurrency r + 1\<rparr>)"

definition q_stopping :: "'d sworld \<Rightarrow> 'd sworld" where
  "q_stopping = q_update (\<lambda>r. r\<lparr>r_concurrency := r_concurrency r - 1\<rparr>)"

section \<open>State changes\<close>

text \<open>
  The state the transaction finds: that of the row; without a row the text stays empty. The
  transaction writes only if the change from there is valid, whatever the object had cached.
\<close>

definition current_state :: "'d sworld \<Rightarrow> status_state" where
  "current_state w = str2state (case q_row w of None \<Rightarrow> [] | Some r \<Rightarrow> r_state r)"

definition state_commit :: "status_state \<Rightarrow> 'd sworld \<Rightarrow> bool \<times> 'd sworld" where
  "state_commit st w =
     (if \<not> validStateTransition (current_state w) st then (False, w)
      else (True, q_update (\<lambda>r. r\<lparr>r_state := state2str (s_state (q_obj w)), r_mtime := s_mtime (q_obj w)\<rparr>) w))"

definition q_set_state :: "int \<Rightarrow> status_state \<Rightarrow> ('d sworld, gb_exn, bool) sx" where
  "q_set_state now st =
     sx_then (\<lambda>w. if q_should_load w \<and> \<not> q_loaded w then really_load now w else (Inr (), w))
     (\<lambda>w. case set_state now st (q_obj w) of
        (False, _) \<Rightarrow> (Inr False, w)
      | (True, s) \<Rightarrow> (let (b, w') = state_commit st (w\<lparr>q_obj := s\<rparr>) in (Inr b, w')))"

definition end_commit :: "status_state \<Rightarrow> 'd sworld \<Rightarrow> 'd sworld" where
  "end_commit st w =
     (if \<not> validStateTransition (current_state w) st then w
      else q_update (\<lambda>r. r\<lparr>r_progress := s_progress (q_obj w), r_code := s_code (q_obj w),
             r_state := state2str (s_state (q_obj w))\<rparr>) w)"

definition q_end :: "int \<Rightarrow> int \<Rightarrow> status_state \<Rightarrow> ('d sworld, gb_exn, unit) sx" where
  "q_end now c st =
     sx_then (\<lambda>w. if \<not> q_loaded w then really_load now w else q_sync now w)
     (\<lambda>w. case set_state now st (q_obj w) of
        (False, _) \<Rightarrow> (Inl (invalid_change (s_state (q_obj w)) (state2str st)), w)
      | (True, s) \<Rightarrow>
          (let s' = (if s_progress s < 100 then set_progress now 100 (set_code c s) else s)
           in (Inr (), end_commit st (w\<lparr>q_obj := s'\<rparr>))))"

definition q_fail :: "int \<Rightarrow> int \<Rightarrow> ('d sworld, gb_exn, unit) sx" where
  "q_fail now c = q_end now c STATE_COMPLETED"

definition q_success :: "int \<Rightarrow> ('d sworld, gb_exn, unit) sx" where
  "q_success now = q_end now 0 STATE_COMPLETED"

definition q_cancel :: "int \<Rightarrow> ('d sworld, gb_exn, unit) sx" where
  "q_cancel now =
     sx_bind (q_lazy now s_state) (\<lambda>st.
     if st = STATE_CANCELLED then sx_return ()
     else sx_bind (q_lazy now s_code) (\<lambda>c. q_end now (if c = -1 then 409 else c) STATE_CANCELLED))"

definition sql_vt :: "int \<Rightarrow> 'd sworld status_vtbl" where
  "sql_vt now = \<lparr>
     v_state = q_lazy now s_state,
     v_set_state = q_set_state now,
     v_progress = q_lazy now s_progress,
     v_set_progress = (\<lambda>p w. (Inr (), q_progress now p w)),
     v_code = q_lazy now s_code,
     v_set_code = (\<lambda>c w. (Inr (), q_code c w)),
     v_set_mtime = (\<lambda>w. (Inr (), q_upd_obj (touch now) w)),
     v_sync = q_sync now,
     v_fail = q_fail now, v_cancel = q_cancel now, v_success = q_success now\<rparr>"

section \<open>The contract\<close>

definition q_agrees :: "status_row \<Rightarrow> 'd status \<Rightarrow> bool" where
  "q_agrees r s \<longleftrightarrow> str2state (r_state r) = s_state s \<and> r_progress r = s_progress s \<and> r_code r = s_code s"

text \<open>The object is loaded, its row is there, and the two agree; its metadata is an object or absent.\<close>

definition q_inv :: "'d sworld \<Rightarrow> bool" where
  "q_inv w \<longleftrightarrow> q_loaded w \<and> (\<exists>r. q_row w = Some r \<and> q_agrees r (q_obj w)) \<and> is_objectlike (s_meta (q_obj w))"

lemma str2state_of_state [simp]: "str2state (state2str st) = st"
  using state_text.dec_enc [of st] by simp

lemma q_update_simps [simp]:
  "q_obj (q_update f w) = q_obj w" "q_loaded (q_update f w) = q_loaded w"
  "q_row (q_update f w) = map_option f (q_row w)"
  by (simp_all add: q_update_def q_row_def upd_row_def)

lemma q_upd_obj_simps [simp]:
  "q_obj (q_upd_obj f w) = f (q_obj w)" "q_loaded (q_upd_obj f w) = q_loaded w" "q_db (q_upd_obj f w) = q_db w"
  "s_name (f (q_obj w)) = s_name (q_obj w) \<Longrightarrow> q_row (q_upd_obj f w) = q_row w"
  by (simp_all add: q_upd_obj_def q_row_def)

lemma set_state_valid:
  "validStateTransition (s_state s) st \<Longrightarrow> set_state now st s =
     (True, if quiet_state st then s\<lparr>s_state := st\<rparr> else s\<lparr>s_state := st, s_mtime := now\<rparr>)"
  by (simp add: set_state_def touch_def)

lemma set_state_invalid: "\<not> validStateTransition (s_state s) st \<Longrightarrow> set_state now st s = (False, s)"
  by (auto simp: set_state_def validStateTransition_def)

lemma q_set_state_inv:
  assumes "q_inv w"
  shows "if validStateTransition (s_state (q_obj w)) st
    then \<exists>w'. q_set_state now st w = (Inr True, w') \<and> q_inv w' \<and> s_state (q_obj w') = st
      \<and> s_progress (q_obj w') = s_progress (q_obj w) \<and> s_code (q_obj w') = s_code (q_obj w)
    else q_set_state now st w = (Inr False, w)"
proof (cases "validStateTransition (s_state (q_obj w)) st")
  case True
  obtain r where r: "q_row w = Some r" "q_agrees r (q_obj w)" using assms by (auto simp: q_inv_def)
  let ?s = "if quiet_state st then (q_obj w)\<lparr>s_state := st\<rparr> else (q_obj w)\<lparr>s_state := st, s_mtime := now\<rparr>"
  have row: "q_row (w\<lparr>q_obj := ?s\<rparr>) = Some r" using r(1) by (simp add: q_row_def)
  then have cur: "current_state (w\<lparr>q_obj := ?s\<rparr>) = s_state (q_obj w)"
    using r(2) by (simp add: current_state_def q_agrees_def)
  have "q_set_state now st w = (Inr True, q_update (\<lambda>r. r\<lparr>r_state := state2str st, r_mtime := s_mtime ?s\<rparr>) (w\<lparr>q_obj := ?s\<rparr>))"
    using assms True cur
    by (simp add: q_set_state_def sx_defs q_inv_def set_state_valid state_commit_def)
  with assms row r show ?thesis by (simp add: True q_inv_def q_agrees_def)
next
  case False
  with assms show ?thesis by (simp add: q_set_state_def sx_defs q_inv_def set_state_invalid)
qed

text \<open>Reading the row into an object in the unknown state makes them agree.\<close>

lemma load_row_unknown:
  assumes "s_state s = STATE_UNKNOWN"
  shows "q_agrees r (load_row now r s)" "s_name (load_row now r s) = s_name s" "s_meta (load_row now r s) = s_meta s"
    "s_mtime (load_row now r s) = r_mtime r"
  using assms by (simp_all add: load_row_def Let_def set_state_valid validStateTransition_def q_agrees_def)

lemma objectlike_undef [simp]: "is_objectlike JUndef"
  by (simp add: is_objectlike_def)

lemma meta_loop_object:
  "is_objectlike m \<Longrightarrow> \<exists>m'. meta_loop kvs m = Inr m' \<and> is_objectlike m'"
proof (induction kvs arbitrary: m)
  case (Cons kv kvs)
  obtain k v where kv: "kv = (k, v)" by (cases kv)
  have "\<exists>m1. json_set k (json_copy v) m = Inr m1 \<and> is_objectlike m1"
    using Cons.prems by (cases m) (auto simp: is_objectlike_def json_set_def json_upd_key_def json_ref_key_def
        json_addKey_def json_as_object_def smap_insert_def smap_find_put smap_find_def split: option.splits)
  with Cons.IH kv show ?case by auto
qed simp

lemma forget_keeps:
  assumes "is_objectlike (s_meta (q_obj w))" and "q_row w = Some r" and "q_agrees r (q_obj w)" and "q_loaded w"
  shows "\<exists>w'. forget_meta now (forget_children (forget_messages w)) = (Inr (), w') \<and> q_inv w'
    \<and> q_db w' = q_db w \<and> s_state (q_obj w') = s_state (q_obj w) \<and> s_progress (q_obj w') = s_progress (q_obj w)
    \<and> s_code (q_obj w') = s_code (q_obj w) \<and> s_name (q_obj w') = s_name (q_obj w)"
proof -
  define w1 where "w1 = forget_children (forget_messages w)"
  have w1: "q_db w1 = q_db w" "q_loaded w1" "s_meta (q_obj w1) = s_meta (q_obj w)" "s_name (q_obj w1) = s_name (q_obj w)"
    "s_state (q_obj w1) = s_state (q_obj w)" "s_progress (q_obj w1) = s_progress (q_obj w)"
    "s_code (q_obj w1) = s_code (q_obj w)"
    using assms(4) by (simp_all add: w1_def forget_children_def forget_messages_def q_children_def q_messages_def
        Let_def set_messages_def set_children_def q_upd_obj_def)
  obtain m where m: "meta_loop (stored_meta (s_name (q_obj w1)) (q_db w1)) (s_meta (q_obj w1)) = Inr m" "is_objectlike m"
    using meta_loop_object assms(1) w1(3) by metis
  have "\<exists>w'. forget_meta now w1 = (Inr (), w') \<and> q_loaded w' \<and> is_objectlike (s_meta (q_obj w'))
      \<and> q_db w' = q_db w1 \<and> s_state (q_obj w') = s_state (q_obj w1) \<and> s_progress (q_obj w') = s_progress (q_obj w1)
      \<and> s_code (q_obj w') = s_code (q_obj w1) \<and> s_name (q_obj w') = s_name (q_obj w1)"
    using m w1(2,3) assms(1)
    by (simp add: forget_meta_def sx_defs q_meta_def q_upd_obj_def set_meta_def touch_def)
  then obtain w' where w': "forget_meta now w1 = (Inr (), w')" "q_loaded w'" "is_objectlike (s_meta (q_obj w'))"
      "q_db w' = q_db w1" "s_state (q_obj w') = s_state (q_obj w1)" "s_progress (q_obj w') = s_progress (q_obj w1)"
      "s_code (q_obj w') = s_code (q_obj w1)" "s_name (q_obj w') = s_name (q_obj w1)" by blast
  have "q_inv w'" using w' w1 assms(2,3) by (simp add: q_inv_def q_row_def q_agrees_def)
  with w' w1 show ?thesis by (simp add: w1_def)
qed

text \<open>
  A synchronisation of any object whose row exists, however stale, leaves it in agreement with the row.
\<close>

lemma q_sync_refresh:
  assumes "q_row w = Some r" and "is_objectlike (s_meta (q_obj w))"
  shows "\<exists>w'. q_sync now w = (Inr (), w') \<and> q_inv w' \<and> q_db w' = q_db w
    \<and> s_state (q_obj w') = str2state (r_state r) \<and> s_progress (q_obj w') = r_progress r
    \<and> s_code (q_obj w') = r_code r \<and> s_name (q_obj w') = s_name (q_obj w)"
proof -
  let ?w0 = "q_upd_obj (\<lambda>s. snd (set_state now STATE_UNKNOWN s)) w"
  have w0: "s_state (q_obj ?w0) = STATE_UNKNOWN" "s_name (q_obj ?w0) = s_name (q_obj w)"
    "s_meta (q_obj ?w0) = s_meta (q_obj w)" "q_row ?w0 = Some r" "q_db ?w0 = q_db w"
    using assms(1) by (simp_all add: set_state_def validStateTransition_def quiet_state_def touch_def)
  let ?w1 = "?w0\<lparr>q_obj := load_row now r (q_obj ?w0), q_loaded := True, q_should_load := True\<rparr>"
  note lr = load_row_unknown [OF w0(1), where r = r and now = now]
  have row1: "q_row ?w1 = Some r" using w0(2,4) lr(2) by (simp add: q_row_def)
  have load: "really_load now ?w0 = (Inr (), ?w1)" using w0(4) by (simp add: really_load_def)
  have "is_objectlike (s_meta (q_obj ?w1))" using lr(3) w0(3) assms(2) by simp
  from forget_keeps [OF this row1, of now] lr(1,2) w0 load show ?thesis
    by (auto simp: q_sync_def sx_defs q_agrees_def)
qed

lemma q_end_inv:
  assumes inv: "q_inv w"
  shows "if validStateTransition (s_state (q_obj w)) st
    then \<exists>w'. q_end now c st w = (Inr (), w') \<and> q_inv w' \<and> s_state (q_obj w') = st
      \<and> s_progress (q_obj w') = max 100 (s_progress (q_obj w))
      \<and> s_code (q_obj w') = (if s_progress (q_obj w) < 100 then c else s_code (q_obj w))
    else \<exists>w'. q_end now c st w = (Inl (invalid_change (s_state (q_obj w)) (state2str st)), w') \<and> q_inv w'
      \<and> s_state (q_obj w') = s_state (q_obj w) \<and> s_progress (q_obj w') = s_progress (q_obj w)
      \<and> s_code (q_obj w') = s_code (q_obj w)"
proof -
  obtain r where r: "q_row w = Some r" "q_agrees r (q_obj w)" and ld: "q_loaded w"
    and om: "is_objectlike (s_meta (q_obj w))" using inv by (auto simp: q_inv_def)
  obtain w1 where w1: "q_sync now w = (Inr (), w1)" "q_inv w1" "s_state (q_obj w1) = s_state (q_obj w)"
      "s_progress (q_obj w1) = s_progress (q_obj w)" "s_code (q_obj w1) = s_code (q_obj w)"
    using q_sync_refresh [OF r(1) om, of now] r(2) by (auto simp: q_agrees_def)
  show ?thesis
  proof (cases "validStateTransition (s_state (q_obj w)) st")
    case True
    let ?s0 = "if quiet_state st then (q_obj w1)\<lparr>s_state := st\<rparr> else (q_obj w1)\<lparr>s_state := st, s_mtime := now\<rparr>"
    let ?s = "if s_progress ?s0 < 100 then set_progress now 100 (set_code c ?s0) else ?s0"
    obtain r1 where r1: "q_row w1 = Some r1" "q_agrees r1 (q_obj w1)" "q_loaded w1" "is_objectlike (s_meta (q_obj w1))"
      using w1(2) by (auto simp: q_inv_def)
    have s: "s_name ?s = s_name (q_obj w1)" "s_state ?s = st" "s_meta ?s = s_meta (q_obj w1)"
      by (simp_all add: set_progress_def set_code_def touch_def)
    have row: "q_row (w1\<lparr>q_obj := ?s\<rparr>) = Some r1" using r1(1) s(1) by (simp add: q_row_def)
    then have cur: "current_state (w1\<lparr>q_obj := ?s\<rparr>) = s_state (q_obj w)"
      using r1(2) w1(3) by (simp add: current_state_def q_agrees_def)
    have "q_end now c st w = (Inr (), end_commit st (w1\<lparr>q_obj := ?s\<rparr>))"
      using ld w1 True by (simp add: q_end_def sx_defs set_state_valid)
    moreover have "end_commit st (w1\<lparr>q_obj := ?s\<rparr>) = q_update (\<lambda>r. r\<lparr>r_progress := s_progress ?s, r_code := s_code ?s,
        r_state := state2str st\<rparr>) (w1\<lparr>q_obj := ?s\<rparr>)"
      unfolding end_commit_def cur using True s(2) by simp
    moreover have "q_inv \<dots>" unfolding q_inv_def q_agrees_def using row r1 s by simp
    ultimately show ?thesis using True w1(4,5) s(2)
      by (auto simp: set_progress_def set_code_def touch_def)
  next
    case False
    with ld w1 show ?thesis by (simp add: q_end_def sx_defs set_state_invalid)
  qed
qed

interpretation sql: status_endings "sql_vt now" q_inv
    "\<lambda>w. s_state (q_obj w)" "\<lambda>w. s_progress (q_obj w)" "\<lambda>w. s_code (q_obj w)"
proof unfold_locales
  fix w :: "'a sworld" and st p c
  assume inv: "q_inv w"
  then obtain r where r: "q_row w = Some r" "q_agrees r (q_obj w)" and ld: "q_loaded w"
    and om: "is_objectlike (s_meta (q_obj w))" by (auto simp: q_inv_def)
  show "v_state (sql_vt now) w = (Inr (s_state (q_obj w)), w)"
    "v_progress (sql_vt now) w = (Inr (s_progress (q_obj w)), w)"
    "v_code (sql_vt now) w = (Inr (s_code (q_obj w)), w)"
    using ld by (simp_all add: sql_vt_def q_lazy_def)
  show "\<exists>w'. v_set_state (sql_vt now) st w = (Inr True, w') \<and> q_inv w' \<and> s_state (q_obj w') = st
      \<and> s_progress (q_obj w') = s_progress (q_obj w) \<and> s_code (q_obj w') = s_code (q_obj w)"
    if "validStateTransition (s_state (q_obj w)) st"
    using q_set_state_inv [OF inv, of st now] that by (simp add: sql_vt_def)
  show "v_set_state (sql_vt now) st w = (Inr False, w)" if "\<not> validStateTransition (s_state (q_obj w)) st"
    using q_set_state_inv [OF inv, of st now] that by (simp add: sql_vt_def)
  show "\<exists>w'. v_set_progress (sql_vt now) p w = (Inr (), w') \<and> q_inv w' \<and> s_state (q_obj w') = s_state (q_obj w)
      \<and> s_progress (q_obj w') = p \<and> s_code (q_obj w') = s_code (q_obj w)" if "s_progress (q_obj w) \<le> p"
    using that r ld om by (simp add: sql_vt_def q_progress_def Let_def q_inv_def q_agrees_def set_progress_def touch_def)
  show "\<exists>w'. v_set_code (sql_vt now) c w = (Inr (), w') \<and> q_inv w' \<and> s_state (q_obj w') = s_state (q_obj w)
      \<and> s_progress (q_obj w') = s_progress (q_obj w) \<and> s_code (q_obj w') = c"
    using r ld om by (simp add: sql_vt_def q_code_def Let_def q_inv_def q_agrees_def set_code_def)
  show "\<exists>w'. v_set_mtime (sql_vt now) w = (Inr (), w') \<and> q_inv w' \<and> s_state (q_obj w') = s_state (q_obj w)
      \<and> s_progress (q_obj w') = s_progress (q_obj w) \<and> s_code (q_obj w') = s_code (q_obj w)"
    using r ld om by (simp add: sql_vt_def q_inv_def q_agrees_def touch_def)
  show "\<exists>w'. v_sync (sql_vt now) w = (Inr (), w') \<and> q_inv w' \<and> s_state (q_obj w') = s_state (q_obj w)
      \<and> s_progress (q_obj w') = s_progress (q_obj w) \<and> s_code (q_obj w') = s_code (q_obj w)"
    using q_sync_refresh [OF r(1) om, of now] r(2) by (auto simp: sql_vt_def q_agrees_def)
  show "v_success (sql_vt now) w = v_fail (sql_vt now) 0 w"
    by (simp add: sql_vt_def q_success_def q_fail_def)
  assume le: "s_progress (q_obj w) \<le> 100"
  show "\<exists>w'. v_fail (sql_vt now) c w = (Inr (), w') \<and> q_inv w' \<and> s_state (q_obj w') = STATE_COMPLETED
      \<and> s_progress (q_obj w') = 100 \<and> (s_progress (q_obj w) < 100 \<longrightarrow> s_code (q_obj w') = c)"
    if "validStateTransition (s_state (q_obj w)) STATE_COMPLETED"
    using q_end_inv [OF inv, of STATE_COMPLETED now c] that le by (auto simp: sql_vt_def q_fail_def max_def)
  show "\<exists>w'. v_fail (sql_vt now) c w = (Inl (invalid_change (s_state (q_obj w)) ''COMPLETED''), w') \<and> q_inv w'
      \<and> s_state (q_obj w') = s_state (q_obj w) \<and> s_progress (q_obj w') = s_progress (q_obj w)
      \<and> s_code (q_obj w') = s_code (q_obj w)"
    if "\<not> validStateTransition (s_state (q_obj w)) STATE_COMPLETED"
    using q_end_inv [OF inv, of STATE_COMPLETED now c] that by (simp add: sql_vt_def q_fail_def)
qed

section \<open>Many processes on one database\<close>

text \<open>
  What one process does to the shared tables in one transaction. The object it works with is any
  object at all: its cached attributes may be out of date in every respect, because other
  processes have written since they were read. \<^verbatim>\<open>end\<close> reaches its transaction with the state it is
  to write cached; nothing outside \<^verbatim>\<open>sync\<close> asks for the unknown state.
\<close>

inductive db_step :: "'d sqldb \<Rightarrow> 'd sqldb \<Rightarrow> bool" where
  insert: "q_insert w = Some w' \<Longrightarrow> db_step (q_db w) (q_db w')"
| state: "st \<noteq> STATE_UNKNOWN \<Longrightarrow> q_set_state now st w = (res, w') \<Longrightarrow> db_step (q_db w) (q_db w')"
| finish: "st \<noteq> STATE_UNKNOWN \<Longrightarrow> s_state (q_obj w) = st \<Longrightarrow> db_step (q_db w) (q_db (end_commit st w))"
| progress: "db_step (q_db w) (q_db (q_progress now p w))"
| code: "db_step (q_db w) (q_db (q_code c w))"
| ytime: "db_step (q_db w) (q_db (q_ytime t w))"
| failures: "db_step (q_db w) (q_db (q_failures n w))"
| parent: "db_step (q_db w) (q_db (q_parent_uri now p w))"
| message: "db_step (q_db w) (q_db (q_add_message now m w))"
| child: "q_add_child now c w = Some w' \<Longrightarrow> db_step (q_db w) (q_db w')"
| meta: "q_meta_key now k v w = (res, w') \<Longrightarrow> db_step (q_db w) (q_db w')"
| event: "db_step (q_db w) (q_db (q_on e job_name envelope w))"
| starting: "db_step (q_db w) (q_db (q_starting w))"
| stopping: "db_step (q_db w) (q_db (q_stopping w))"
| sync: "q_sync now w = (res, w') \<Longrightarrow> db_step (q_db w) (q_db w')"

definition row_state :: "string \<Rightarrow> 'd sqldb \<Rightarrow> status_state option" where
  "row_state n db = map_option (\<lambda>r. str2state (r_state r)) (db_status db n)"

text \<open>An update that leaves the state column alone leaves every state alone.\<close>

lemma row_state_update [simp]:
  "\<forall>r. r_state (f r) = r_state r \<Longrightarrow> row_state n (q_db (q_update f w)) = row_state n (q_db w)"
  by (simp add: row_state_def q_update_def upd_row_def option.map_comp comp_def)

lemma row_state_other [simp]:
  "row_state n (q_db (q_upd_obj f w)) = row_state n (q_db w)"
  "row_state n (q_db (w\<lparr>q_obj := s\<rparr>)) = row_state n (q_db w)"
  "row_state n (db\<lparr>db_messages := x\<rparr>) = row_state n db" "row_state n (db\<lparr>db_children := y\<rparr>) = row_state n db"
  "row_state n (db\<lparr>db_meta := z\<rparr>) = row_state n db" "row_state n (db\<lparr>db_events := v\<rparr>) = row_state n db"
  by (simp_all add: row_state_def q_upd_obj_def)

definition state_move :: "status_state option \<Rightarrow> status_state option \<Rightarrow> bool" where
  "state_move a b \<longleftrightarrow> (case a of None \<Rightarrow> True
     | Some x \<Rightarrow> b = Some x \<or> (\<exists>y. b = Some y \<and> y \<noteq> STATE_UNKNOWN \<and> validStateTransition x y))"

lemma state_move_refl [simp]: "state_move a a"
  by (simp add: state_move_def split: option.split)

text \<open>The update of a commit, for the row of the object and for every other row.\<close>

lemma row_state_commit:
  assumes "\<forall>r. r_state (f r) = state2str st" and "st \<noteq> STATE_UNKNOWN" and "validStateTransition (current_state w) st"
  shows "state_move (row_state n (q_db w)) (row_state n (q_db (q_update f w)))"
proof (cases "n = s_name (q_obj w)")
  case True
  with assms show ?thesis
    by (auto simp: state_move_def row_state_def q_update_def upd_row_def current_state_def q_row_def
        split: option.splits)
next
  case False
  then show ?thesis by (simp add: row_state_def q_update_def upd_row_def)
qed

lemma really_load_db: "really_load now w = (res, w') \<Longrightarrow> q_db w' = q_db w"
  by (auto simp: really_load_def split: option.splits)

lemma forget_db [simp]:
  "q_db (forget_messages w) = q_db w" "q_db (forget_children w) = q_db w"
  "q_db (snd (forget_meta now w)) = q_db w"
  by (simp_all add: forget_messages_def forget_children_def forget_meta_def q_messages_def q_children_def
      q_meta_def sx_defs Let_def q_upd_obj_def split: sum.split)

lemma q_sync_db:
  assumes "q_sync now w = (res, w')"
  shows "q_db w' = q_db w"
proof -
  let ?w0 = "q_upd_obj (\<lambda>s. snd (set_state now STATE_UNKNOWN s)) w"
  obtain r w1 where l: "really_load now ?w0 = (r, w1)" by (cases "really_load now ?w0")
  then have "q_db w1 = q_db w" using really_load_db by (metis q_upd_obj_simps(3))
  moreover have "w' = w1 \<or> w' = snd (forget_meta now (forget_children (forget_messages w1)))"
    using assms l by (cases r) (auto simp: q_sync_def sx_defs)
  ultimately show ?thesis by auto
qed

lemma set_state_result: "set_state now st s = (True, s') \<Longrightarrow> s_state s' = st \<and> s_name s' = s_name s"
  by (auto simp: set_state_def Let_def touch_def split: if_splits)

lemma state_commit_move:
  assumes "st \<noteq> STATE_UNKNOWN" and "s_state (q_obj w) = st" and "state_commit st w = (b, w')"
  shows "state_move (row_state n (q_db w)) (row_state n (q_db w'))"
  using assms row_state_commit [OF _ assms(1), of _ w n]
  by (auto simp: state_commit_def split: if_splits)

lemma q_set_state_move:
  assumes "st \<noteq> STATE_UNKNOWN" and run: "q_set_state now st w = (res, w')"
  shows "state_move (row_state n (q_db w)) (row_state n (q_db w'))"
proof -
  define w1 where "w1 = snd ((if q_should_load w \<and> \<not> q_loaded w then really_load now w else (Inr (), w)) :: _ \<times> 'a sworld)"
  have db1: "q_db w1 = q_db w"
    unfolding w1_def using really_load_db [of now w] by (cases "really_load now w") auto
  show ?thesis
  proof (cases "fst (set_state now st (q_obj w1))")
    case True
    let ?s = "snd (set_state now st (q_obj w1))"
    have s: "s_state ?s = st" using True set_state_result [of now st "q_obj w1" ?s] by (metis prod.collapse)
    have "w' = snd (state_commit st (w1\<lparr>q_obj := ?s\<rparr>)) \<or> w' = w1"
      using run True by (auto simp: q_set_state_def sx_defs w1_def split: sum.splits prod.splits bool.splits if_splits)
    moreover have "state_move (row_state n (q_db w)) (row_state n (q_db (snd (state_commit st (w1\<lparr>q_obj := ?s\<rparr>)))))"
      using state_commit_move [OF assms(1), of "w1\<lparr>q_obj := ?s\<rparr>" _ _ n] s db1
      by (cases "state_commit st (w1\<lparr>q_obj := ?s\<rparr>)") auto
    ultimately show ?thesis using db1 by auto
  next
    case False
    then have "w' = w1"
      using run by (auto simp: q_set_state_def sx_defs w1_def split: sum.splits prod.splits bool.splits if_splits)
    then show ?thesis using db1 by simp
  qed
qed

lemma db_step_move: "db_step db db' \<Longrightarrow> state_move (row_state n db) (row_state n db')"
proof (induction rule: db_step.induct)
  case (insert w w')
  then show ?case
    by (auto simp: q_insert_def Let_def state_move_def row_state_def q_row_def split: if_splits option.splits)
next
  case (state st now w res w')
  then show ?case by (rule q_set_state_move)
next
  case (finish st w)
  then show ?case using row_state_commit [of _ st w n] by (auto simp: end_commit_def)
next
  case (child now c w w')
  then show ?case
    by (auto simp: q_add_child_def q_children_def Let_def split: sum.splits if_splits)
next
  case (meta now k v w res w')
  then show ?case by (auto simp: q_meta_key_def meta_replace_def Let_def split: sum.splits)
next
  case (sync now w res w')
  then show ?case by (simp add: q_sync_db)
qed (simp_all add: q_progress_def q_code_def q_ytime_def q_failures_def q_parent_uri_def q_add_message_def
    q_messages_def q_on_def q_starting_def q_stopping_def Let_def)

text \<open>
  C3: the state of a status in the shared database only ever moves along the state machine, whatever
  the processes do, in whatever order, and however stale what they have cached is.
\<close>

theorem sql_states_follow_machine:
  assumes "db_step\<^sup>*\<^sup>* db db'" and "row_state n db = Some st"
  shows "\<exists>st' trace. row_state n db' = Some st' \<and> state_run st trace st'"
  using assms(1)
proof (induction rule: rtranclp_induct)
  case base
  then show ?case using assms(2) state_run.stay by blast
next
  case (step db1 db2)
  then obtain st1 trace where 1: "row_state n db1 = Some st1" "state_run st trace st1" by blast
  with db_step_move [OF step(2), of n] show ?case
    by (auto simp: state_move_def intro: state_run.change)
qed

text \<open>A database with one running status and a process that has it loaded.\<close>

definition demo_row :: status_row where
  "demo_row = \<lparr>r_operation = ''create'', r_component = ''test'', r_progress = 40, r_code = -1, r_resource_uri = [],
     r_parent_uri = [], r_ctime = 1, r_mtime = 2, r_ytime = -1, r_state = ''RUNNING'', r_failures = 0, r_concurrency = 0\<rparr>"

definition demo_sworld :: "nat sworld" where
  "demo_sworld = \<lparr>q_db = \<lparr>db_status = [''s'' \<mapsto> demo_row], db_messages = [], db_children = [],
       db_meta = [((''s'', ''a''), JInt 1)], db_events = (\<lambda>_. None)\<rparr>,
     q_obj = (load_row 2 demo_row (new_status 2))\<lparr>s_name := ''s''\<rparr>, q_loaded = True, q_should_load = True,
     q_messages_loaded = False, q_children_loaded = False, q_meta_loaded = False\<rparr>"

theorem sql_states_follow_machine_witness:
  "\<exists>st' trace. row_state ''s'' (q_db (snd (q_set_state 5 STATE_STOPPING demo_sworld))) = Some st'
     \<and> state_run STATE_RUNNING trace st'"
proof (rule sql_states_follow_machine)
  obtain res w' where run: "q_set_state 5 STATE_STOPPING demo_sworld = (res, w')"
    by (cases "q_set_state 5 STATE_STOPPING demo_sworld")
  then have "db_step (q_db demo_sworld) (q_db w')" by (intro db_step.state [OF _ run]) simp
  with run show "db_step\<^sup>*\<^sup>* (q_db demo_sworld) (q_db (snd (q_set_state 5 STATE_STOPPING demo_sworld)))" by simp
  show "row_state ''s'' (q_db demo_sworld) = Some STATE_RUNNING" by code_simp
qed


lemma demo_sworld_inv: "q_inv demo_sworld"
proof -
  have "q_row demo_sworld = Some demo_row" by (simp add: q_row_def demo_sworld_def)
  moreover have "q_agrees demo_row (q_obj demo_sworld)" by code_simp
  moreover have "is_objectlike (s_meta (q_obj demo_sworld))" by code_simp
  ultimately show ?thesis by (simp add: q_inv_def) (simp add: demo_sworld_def)
qed




text \<open>
  What happens to cached metadata. Replacing all metadata deletes the stored members but leaves
  the cached ones, so the object still shows a member that is gone from the table; and a
  synchronisation of a status that has metadata reports the current time as its modification time, not the
  stored one.
\<close>

theorem sql_metadata_defects:
  "let w = snd (q_meta demo_sworld); w' = snd (q_meta_all 9 (JObject [(''b'', JInt 2)]) w)
   in stored_meta ''s'' (q_db w') = [(''b'', JInt 2)]
     \<and> s_meta (q_obj w') = JObject [(''a'', JInt 1), (''b'', JInt 2)]
     \<and> map_option r_mtime (q_row (snd (q_sync 9 demo_sworld))) = Some 2
     \<and> s_mtime (q_obj (snd (q_sync 9 demo_sworld))) = 9"
  by code_simp

end
