(* ===== verification/GB_StatusJson.thy ===== *)
theory GB_StatusJson
  imports GB_Status
begin

text \<open>
  The JSON form of a status: \<^verbatim>\<open>StatusImpl::serialize\<close> writes it, \<^verbatim>\<open>JsonStatusImpl::load\<close> reads it back into
  the attributes, one guarded member at a time. Also the choice of an implementation by
  \<^verbatim>\<open>StatusManager\<close>.
\<close>

section \<open>Building and reading documents\<close>

text \<open>A sequence of statements that each may throw, over one value.\<close>

primrec res_seq :: "('a \<Rightarrow> 'e + 'a) list \<Rightarrow> 'a \<Rightarrow> 'e + 'a" where
  "res_seq [] x = Inr x"
| "res_seq (f # fs) x = res_bind (f x) (res_seq fs)"

definition res_when :: "bool \<Rightarrow> ('a \<Rightarrow> 'e + 'a) \<Rightarrow> 'a \<Rightarrow> 'e + 'a" where
  "res_when b f x = (if b then f x else Inr x)"

text \<open>\<^verbatim>\<open>out[k][i] = f(xs[i])\<close> for every index from \<open>i\<close> on.\<close>

primrec put_elems ::
    "string \<Rightarrow> ('a \<Rightarrow> gb_exn + 'd json) \<Rightarrow> nat \<Rightarrow> 'a list \<Rightarrow> 'd json \<Rightarrow> gb_exn + 'd json" where
  "put_elems k f i [] j = Inr j"
| "put_elems k f i (x # xs) j =
     res_bind (f x) (\<lambda>v.
     res_bind (json_upd_key [] k (json_upd_at [Key k] i (\<lambda>_. Inr v)) j)
       (put_elems k f (Suc i) xs))"

text \<open>\<^verbatim>\<open>if( data.hasKey(k) ) ... data[k] ...\<close>\<close>

definition when_key :: "string \<Rightarrow> 'd json \<Rightarrow> ('d json \<Rightarrow> ('s, gb_exn, unit) sx) \<Rightarrow> ('s, gb_exn, unit) sx" where
  "when_key k data f =
     (if json_hasKey k data then sx_bind (sx_lift (json_get [] k data)) f else sx_return ())"

definition when_string :: "string \<Rightarrow> 'd json \<Rightarrow> (string \<Rightarrow> ('s, gb_exn, unit) sx) \<Rightarrow> ('s, gb_exn, unit) sx" where
  "when_string k data f = when_key k data (\<lambda>v. sx_bind (sx_lift (json_as_string [Key k] v)) f)"

definition when_int :: "string \<Rightarrow> 'd json \<Rightarrow> (int \<Rightarrow> ('s, gb_exn, unit) sx) \<Rightarrow> ('s, gb_exn, unit) sx" where
  "when_int k data f = when_key k data (\<lambda>v. sx_bind (sx_lift (json_as_int64 [Key k] v)) f)"

text \<open>The elements of \<^verbatim>\<open>data[k]\<close> as strings; a value that is no array has length -1 and no elements.\<close>

fun each_string :: "string \<Rightarrow> nat \<Rightarrow> 'd json list \<Rightarrow> (string \<Rightarrow> ('s, gb_exn, unit) sx) \<Rightarrow> ('s, gb_exn, unit) sx" where
  "each_string k i [] f = sx_return ()"
| "each_string k i (v # vs) f =
     sx_then (sx_bind (sx_lift (json_as_string [Key k, Index i] v)) f) (each_string k (Suc i) vs f)"

definition array_elems :: "'d json \<Rightarrow> 'd json list" where
  "array_elems j = (case j of JArray a \<Rightarrow> a | _ \<Rightarrow> [])"

section \<open>Writing a status\<close>

definition default_base :: string where
  "default_base = ''http://localhost:4080/internal''"

text \<open>Children on the internal host are shown under the host of the base URI.\<close>

definition child_text :: "uri \<Rightarrow> string \<Rightarrow> gb_exn + 'd json" where
  "child_text base c =
     res_bind (Uri c) (\<lambda>u.
     res_bind (uri_hostname u) (\<lambda>h.
     if h = ''localhost''
     then res_bind (uri_hostname base) (\<lambda>bh.
          case uri_set_hostname bh u of
            (Inl e, _) \<Rightarrow> Inl e
          | (Inr _, u') \<Rightarrow> res_bind (uri_canonical u') (\<lambda>t. Inr (JString t)))
     else res_bind (uri_canonical u) (\<lambda>t. Inr (JString t))))"

definition status_to_json :: "'d status \<Rightarrow> gb_exn + 'd json" where
  "status_to_json s =
     res_bind (Uri (if s_base_uri s = [] then default_base else s_base_uri s)) (\<lambda>base.
     res_bind (uri_canonical base) (\<lambda>cbase.
     res_seq
      [json_set ''operation'' (JString (s_operation s)),
       json_set ''component'' (JString (s_component s)),
       json_set ''state'' (JString (state2str (s_state s))),
       json_set ''uri'' (JString (s_resource_uri s)),
       json_set ''status_uri'' (JString (cbase @ ''/status/'' @ s_name s)),
       json_set ''progress'' (JInt (int (s_progress s))),
       res_when (s_progress s = 100) (json_set ''code'' (JInt (s_code s))),
       json_set ''messages'' (JArray []),
       put_elems ''messages'' (\<lambda>m. Inr (JString m)) 0 (s_messages s),
       json_set ''children'' (JArray []),
       put_elems ''children'' (child_text base) 0 (s_children s),
       res_when (\<not> json_empty (s_meta s)) (json_set ''meta'' (json_copy (s_meta s))),
       res_when (s_parent_uri s \<noteq> []) (json_set ''parent_uri'' (JString (s_parent_uri s))),
       json_set ''failures'' (JInt (int (s_failures s))),
       json_set ''ctime'' (JInt (s_ctime s)),
       json_set ''mtime'' (JInt (s_mtime s)),
       res_when (s_ytime s > 0) (json_set ''ytime'' (JInt (s_ytime s))),
       json_set ''concurrency'' (JInt (int (s_concurrency s)))] JUndef))"

definition status_serialize :: "'d json_lib \<Rightarrow> 'd status \<Rightarrow> gb_exn + string" where
  "status_serialize lib s = res_bind (status_to_json s) (\<lambda>j. Inr (json_serialize lib j))"

section \<open>Reading a status\<close>

definition upd :: "('s \<Rightarrow> 's) \<Rightarrow> ('s, gb_exn, unit) sx" where
  "upd f = sx_modify f"

text \<open>A 64-bit value passed to a parameter of type \<^verbatim>\<open>unsigned int\<close> or \<^verbatim>\<open>uint32_t\<close>.\<close>

definition wrap_u32 :: "int \<Rightarrow> nat" where
  "wrap_u32 i = unat (word_of_int i :: 32 word)"

definition load_status_uri :: "string \<Rightarrow> int \<Rightarrow> ('d status, gb_exn, unit) sx" where
  "load_status_uri t now =
     sx_bind (sx_lift (Uri t)) (\<lambda>uri.
     sx_then (upd (set_name now (uri_leaf uri)))
     (sx_bind (sx_lift (uri_canonical (uri_path_pop (uri_path_pop uri)))) (\<lambda>c.
        upd (set_base_uri c))))"

definition JsonStatus_load :: "int \<Rightarrow> 'd json \<Rightarrow> ('d status, gb_exn, unit) sx" where
  "JsonStatus_load now data =
     sx_then (when_string ''operation'' data (\<lambda>v. upd (set_operation now v)))
     (sx_then (when_string ''component'' data (\<lambda>v. upd (set_component now v)))
     (sx_then (when_string ''state'' data (\<lambda>v. upd (\<lambda>s. snd (set_state now (str2state v) s))))
     (sx_then (when_string ''uri'' data (\<lambda>v. upd (set_resource_uri now v)))
     (sx_then (when_string ''status_uri'' data (\<lambda>v. load_status_uri v now))
     (sx_then (when_key ''meta'' data (\<lambda>v. upd (set_meta now (json_copy v))))
     (sx_then (when_int ''progress'' data (\<lambda>v. upd (set_progress now (wrap_u32 v))))
     (sx_then (when_int ''code'' data (\<lambda>v. upd (set_code (wrap_s32 v))))
     (sx_then (when_key ''messages'' data (\<lambda>v.
         sx_then (upd (set_messages []))
           (each_string ''messages'' 0 (array_elems v) (\<lambda>m. upd (add_message now m)))))
     (sx_then (when_key ''children'' data (\<lambda>v.
         sx_then (upd (set_children []))
           (each_string ''children'' 0 (array_elems v) (\<lambda>c. upd (add_child now c)))))
     (sx_then (when_string ''parent_uri'' data (\<lambda>v. upd (set_parent_uri now v)))
     (sx_then (when_int ''failures'' data (\<lambda>v. upd (set_failures (wrap_u32 v))))
     (sx_then (when_int ''ctime'' data (\<lambda>v. upd (set_ctime v)))
     (sx_then (when_int ''mtime'' data (\<lambda>v. upd (touch v)))
     (sx_then (when_int ''ytime'' data (\<lambda>v. upd (set_ytime v)))
              (when_int ''concurrency'' data (\<lambda>v. upd (set_concurrency (wrap_u32 v))))))))))))))))))"

definition JsonStatus_insert :: "('d status, gb_exn, unit) sx" where
  "JsonStatus_insert = sx_throw (StdError ''json status insert not implemented'')"

definition JsonStatus_sync :: "int \<Rightarrow> 'd json \<Rightarrow> ('d status, gb_exn, unit) sx" where
  "JsonStatus_sync now data =
     sx_then (upd (\<lambda>s. snd (set_state now STATE_UNKNOWN s))) (JsonStatus_load now data)"

definition JsonStatus_on :: "('d status, gb_exn, unit) sx" where
  "JsonStatus_on = sx_throw (ERR_NOT_IMPLEMENTED ''cannot set event handlers for remote json status object'')"

definition JsonStatus_starting :: "('d status, gb_exn, unit) sx" where
  "JsonStatus_starting = sx_throw (ERR_NOT_IMPLEMENTED ''cannot update concurrency for remote json status object'')"

definition JsonStatus_stopping :: "('d status, gb_exn, unit) sx" where
  "JsonStatus_stopping = sx_throw (ERR_NOT_IMPLEMENTED ''cannot update concurrency for remote json status object'')"

text \<open>\<^verbatim>\<open>StatusManager::fetch(const Json &)\<close>.\<close>

definition fetch_json :: "int \<Rightarrow> 'd json \<Rightarrow> gb_exn + 'd status" where
  "fetch_json now data = (case JsonStatus_load now (json_copy data) (new_status now) of
     (Inl e, _) \<Rightarrow> Inl e
   | (Inr _, s) \<Rightarrow> Inr s)"

section \<open>Documents: lemmas\<close>

lemma json_upd_key_present:
  assumes "smap_find ms k = Some v" and "f v = Inr v'"
  shows "json_upd_key path k f (JObject ms) = Inr (JObject (smap_put k v' ms))"
  using assms by (simp add: json_upd_key_def json_ref_key_def json_as_object_def)

lemma json_upd_at_end: "json_upd_at path (length a) (\<lambda>_. Inr v) (JArray a) = Inr (JArray (a @ [v]))"
  by (simp add: json_upd_at_def json_ref_at_def growArray_def json_as_array_def)

lemma put_elems_spec:
  assumes "smap_wf ms" and "smap_find ms k = Some (JArray a)" and "list_all2 (\<lambda>x v. f x = Inr v) xs vs"
  shows "put_elems k f (length a) xs (JObject ms) = Inr (JObject (smap_put k (JArray (a @ vs)) ms))"
  using assms
proof (induction xs arbitrary: a ms vs)
  case Nil
  then show ?case using smap.put_idem [of ms k "JArray a"] by simp
next
  case (Cons x xs)
  then obtain v us where vs: "vs = v # us" "f x = Inr v" "list_all2 (\<lambda>x v. f x = Inr v) xs us"
    by (auto simp: list_all2_Cons1)
  have "json_upd_key [] k (json_upd_at [Key k] (length a) (\<lambda>_. Inr v)) (JObject ms)
      = Inr (JObject (smap_put k (JArray (a @ [v])) ms))"
    by (rule json_upd_key_present [OF Cons.prems(2)]) (rule json_upd_at_end)
  with vs Cons.IH [of "smap_put k (JArray (a @ [v])) ms" "a @ [v]" us] Cons.prems(1) show ?case
    by (simp add: smap_wf_put smap_find_put smap.put_put)
qed

lemma when_key_simps:
  "smap_find ms k = None \<Longrightarrow> when_key k (JObject ms) f = sx_return ()"
  "smap_find ms k = Some v \<Longrightarrow> when_key k (JObject ms) f = f v"
  by (simp_all add: when_key_def json_hasKey_def json_get_def sx_defs)

lemma when_string_simps:
  "smap_find ms k = None \<Longrightarrow> when_string k (JObject ms) g = sx_return ()"
  "smap_find ms k = Some (JString t) \<Longrightarrow> when_string k (JObject ms) g = g t"
  by (simp_all add: when_string_def when_key_simps json_as_string_def) (simp add: sx_defs)

lemma when_int_simps:
  "smap_find ms k = None \<Longrightarrow> when_int k (JObject ms) g = sx_return ()"
  "smap_find ms k = Some (JInt i) \<Longrightarrow> when_int k (JObject ms) g = g i"
  by (simp_all add: when_int_def when_key_simps json_as_int64_def) (simp add: sx_defs)

lemmas when_simps = when_key_simps when_string_simps when_int_simps

lemma upd_apply: "upd f s = (Inr (), f s)"
  by (simp add: upd_def sx_defs)

lemma each_string_upd:
  "each_string k i (map JString ts) (\<lambda>t. upd (f t)) s = (Inr (), fold f ts s)"
  by (induction ts arbitrary: i s) (simp_all add: sx_defs upd_def json_as_string_def)

lemma fold_add_message:
  "fold (add_message now) ms s = (if ms = [] then s else s\<lparr>s_messages := s_messages s @ ms, s_mtime := now\<rparr>)"
  by (induction ms arbitrary: s) (auto simp: add_message_def touch_def)

lemma fold_add_child:
  "fold (add_child now) cs s = (if cs = [] then s else s\<lparr>s_children := s_children s @ cs, s_mtime := now\<rparr>)"
  by (induction cs arbitrary: s) (auto simp: add_child_def touch_def)

lemma wrap_u32_id: "n < 2 ^ 32 \<Longrightarrow> wrap_u32 (int n) = n"
  by (simp add: wrap_u32_def unat_of_nat)

lemma wrap_s32_id: "- (2 ^ 31) \<le> i \<Longrightarrow> i < 2 ^ 31 \<Longrightarrow> wrap_s32 i = i"
  by (simp add: wrap_s32_def sint_sbintrunc' signed_take_bit_int_eq_self)

section \<open>URIs of statuses\<close>

text \<open>A text that is the canonical form of an HTTP URI, and one that can be a base.\<close>

definition canonical_form :: "uri \<Rightarrow> string \<Rightarrow> bool" where
  "canonical_form u c \<longleftrightarrow> wf_httpx u \<and> uri_canonical_path u \<noteq> [] \<and> uri_canonical u = Inr c"

definition base_form :: "uri \<Rightarrow> string \<Rightarrow> bool" where
  "base_form u b \<longleftrightarrow> canonical_form u b \<and> u_query u = [] \<and> u_fragment u = []"


lemma canonical_form_parse:
  assumes "canonical_form u c"
  shows "Uri c = Inr (u\<lparr>u_uristr := c, u_path := tl (uri_canonical_path u)\<rparr>)"
    and "uri_canonical (u\<lparr>u_uristr := c, u_path := tl (uri_canonical_path u)\<rparr>) = Inr c"
  using canonical_parse [of u c] assms by (auto simp: canonical_form_def)

lemma uri_canonical_uristr: "uri_canonical (u\<lparr>u_uristr := x, u_path := p\<rparr>) = uri_canonical (u\<lparr>u_uristr := y, u_path := p\<rparr>)"
  by (simp add: uri_canonical_def uri_authority_def uri_hostport_def uri_hostname_def uri_port_def httpx_get_def
      require_httpx_def unsupported_def uri_canonical_path_def query_part_def fragment_part_def)

lemma status_uri_parts:
  assumes "base_form u b" and "clean_of ''/?#'' n"
  shows "\<exists>v. Uri (b @ ''/status/'' @ n) = Inr v \<and> uri_leaf v = n
    \<and> uri_canonical (uri_path_pop (uri_path_pop v)) = Inr b"
proof -
  have wf: "wf_httpx u" and ne: "uri_canonical_path u \<noteq> []" and c: "uri_canonical u = Inr b"
    and qf: "u_query u = []" "u_fragment u = []"
    using assms(1) by (simp_all add: base_form_def canonical_form_def)
  let ?cp = "tl (uri_canonical_path u)" and ?t = "b @ ''/status/'' @ n"
  let ?p = "?cp @ ''/status/'' @ n" and ?v = "u\<lparr>u_uristr := ?t, u_path := ?cp @ ''/status/'' @ n\<rparr>"
  note text_b = canonical_text [OF wf ne c]
  have n: "CHR ''/'' \<notin> set n" "CHR ''?'' \<notin> set n" "CHR ''#'' \<notin> set n"
    by (rule clean_of_set [OF assms(2)], simp)+
  have p: "clean_of ''?#'' ?p"
    using canonical_text(2) [OF wf ne c] n by (auto simp: clean_of_def list_all_iff)
  have "?t = u_scheme u @ ''://'' @ (userinfo_text u @ hostport_text u) @ CHR ''/'' #
      ?p @ query_part u @ fragment_part u"
    using text_b(1) qf by (simp add: query_part_def fragment_part_def)
  then have "Uri ?t = Inr ?v"
    using parse_uristr_text [OF wf p, of "new_uri\<lparr>u_uristr := ?t\<rparr>"] by (simp add: Uri_def new_uri_def)
  moreover have "str_rfind_if (\<lambda>c. c = CHR ''/'') ((?cp @ ''/status'') @ CHR ''/'' # n) = Some (length (?cp @ ''/status''))"
    using n(1) by (intro str_rfind_if_snoc) auto
  moreover have "str_rfind_if (\<lambda>c. c = CHR ''/'') (?cp @ CHR ''/'' # ''status'') = Some (length ?cp)"
    by (intro str_rfind_if_snoc) auto
  ultimately show ?thesis
    using canonical_form_parse(2) [of u b] assms(1) uri_canonical_uristr [where u = u and x = ?t and y = b and p = ?cp]
    by (simp add: uri_leaf_def uri_path_pop_def uri_set_path_def base_form_def)
qed


lemma child_text_same:
  assumes "canonical_form v c" and "u_hostname v = ''localhost'' \<longrightarrow> u_hostname base = ''localhost''"
    and "uri_is_httpx base"
  shows "child_text base c = Inr (JString c)"
proof -
  let ?w = "v\<lparr>u_uristr := c, u_path := tl (uri_canonical_path v)\<rparr>"
  note parse = canonical_form_parse [OF assms(1)]
  have x: "uri_is_httpx v" "uri_is_httpx ?w" using assms(1) by (auto simp: canonical_form_def dest: wf_httpx_parts(7))
  have low: "str_tolower ''localhost'' = ''localhost''" by code_simp
  show ?thesis
  proof (cases "u_hostname v = ''localhost''")
    case True
    then have same: "v\<lparr>u_uristr := c, u_path := tl (uri_canonical_path v), u_hostname := ''localhost''\<rparr> = ?w" by (cases v) simp
    have "uri_canonical (v\<lparr>u_uristr := c, u_path := tl (uri_canonical_path v), u_hostname := ''localhost''\<rparr>) = Inr c"
      unfolding same by (rule parse(2))
    with True parse(1) x assms(2,3) low show ?thesis
      by (simp add: child_text_def uri_hostname_def httpx_get_def)
  next
    case False
    with parse x show ?thesis by (simp add: child_text_def uri_hostname_def httpx_get_def)
  qed
qed

section \<open>Writing and reading back\<close>

text \<open>
  A status that its JSON form can carry: the base and the children are canonical URIs, the name is
  a path part, and the numbers fit the types that read them.
\<close>

definition status_shown :: "uri \<Rightarrow> 'd status \<Rightarrow> bool" where
  "status_shown base s \<longleftrightarrow> base_form base (s_base_uri s) \<and> clean_of ''/?#'' (s_name s)
     \<and> list_all (\<lambda>c. \<exists>v. canonical_form v c \<and> (u_hostname v = ''localhost'' \<longrightarrow> u_hostname base = ''localhost''))
         (s_children s)
     \<and> json_wf (s_meta s) \<and> (json_empty (s_meta s) \<longrightarrow> s_meta s = JUndef)
     \<and> s_progress s < 2 ^ 32 \<and> s_failures s < 2 ^ 32 \<and> s_concurrency s < 2 ^ 32
     \<and> - (2 ^ 31) \<le> s_code s \<and> s_code s < 2 ^ 31
     \<and> in_int64 (s_ctime s) \<and> in_int64 (s_mtime s) \<and> in_int64 (s_ytime s)"

definition put_when :: "bool \<Rightarrow> string \<Rightarrow> 'd json \<Rightarrow> (string, 'd json) smap \<Rightarrow> (string, 'd json) smap" where
  "put_when b k v m = (if b then smap_put k v m else m)"

definition status_members :: "'d status \<Rightarrow> (string, 'd json) smap" where
  "status_members s =
     (smap_put ''concurrency'' (JInt (int (s_concurrency s)))
     (put_when (s_ytime s > 0) ''ytime'' (JInt (s_ytime s))
     (smap_put ''mtime'' (JInt (s_mtime s))
     (smap_put ''ctime'' (JInt (s_ctime s))
     (smap_put ''failures'' (JInt (int (s_failures s)))
     (put_when (s_parent_uri s \<noteq> []) ''parent_uri'' (JString (s_parent_uri s))
     (put_when (\<not> json_empty (s_meta s)) ''meta'' (json_copy (s_meta s))
     (smap_put ''children'' (JArray (map JString (s_children s)))
     (smap_put ''messages'' (JArray (map JString (s_messages s)))
     (put_when (s_progress s = 100) ''code'' (JInt (s_code s))
     (smap_put ''progress'' (JInt (int (s_progress s)))
     (smap_put ''status_uri'' (JString (s_base_uri s @ ''/status/'' @ s_name s))
     (smap_put ''uri'' (JString (s_resource_uri s))
     (smap_put ''state'' (JString (state2str (s_state s)))
     (smap_put ''component'' (JString (s_component s))
     (smap_put ''operation'' (JString (s_operation s)) []))))))))))))))))"

lemma put_when_simps [simp]:
  "smap_wf m \<Longrightarrow> smap_wf (put_when b k v m)"
  "smap_find (put_when b k v m) k' = (if b \<and> k' = k then Some v else smap_find m k')"
  by (simp_all add: put_when_def smap_wf_put smap_find_put)

lemma res_when_set:
  "smap_wf m \<Longrightarrow> res_when b (json_set k v) (JObject m) = Inr (JObject (put_when b k v m))"
  by (simp add: res_when_def put_when_def json_set_object)

lemma json_set_first: "json_set k v JUndef = Inr (JObject (smap_put k v []))"
  by (simp add: json_set_undef)

lemma put_strings:
  assumes "smap_wf ms" and "list_all (\<lambda>x. f x = Inr (JString x)) xs"
  shows "put_elems k f 0 xs (JObject (smap_put k (JArray []) ms)) = Inr (JObject (smap_put k (JArray (map JString xs)) ms))"
proof -
  have "list_all2 (\<lambda>x v. f x = Inr v) xs (map JString xs)"
    using assms(2) by (induction xs) auto
  with put_elems_spec [of "smap_put k (JArray []) ms" k "[]" f xs "map JString xs"] assms(1) show ?thesis
    by (simp add: smap_wf_put smap_find_put smap.put_put)
qed

lemma status_to_json_members:
  assumes "status_shown base s"
  shows "status_to_json s = Inr (JObject (status_members s))"
proof -
  have base: "base_form base (s_base_uri s)" and cf: "canonical_form base (s_base_uri s)"
    using assms by (simp_all add: status_shown_def base_form_def)
  let ?b = "base\<lparr>u_uristr := s_base_uri s, u_path := tl (uri_canonical_path base)\<rparr>"
  note parse = canonical_form_parse [OF cf]
  have ne: "s_base_uri s \<noteq> []"
    using canonical_text(1) [of base "s_base_uri s"] cf by (auto simp: canonical_form_def)
  have x: "uri_is_httpx ?b" using cf by (auto simp: canonical_form_def dest: wf_httpx_parts(7))
  have kids: "list_all (\<lambda>c. child_text ?b c = Inr (JString c)) (s_children s)"
    using assms child_text_same [OF _ _ x] by (fastforce simp: status_shown_def list_all_iff)
  have msgs: "list_all (\<lambda>m. (Inr (JString m) :: gb_exn + 'd json) = Inr (JString m)) (s_messages s)"
    by (simp add: list_all_iff)
  show ?thesis
    using parse ne
    by (simp add: status_to_json_def status_members_def json_set_first json_set_object res_when_set smap_wf_put
        put_strings [OF _ kids] put_strings [OF _ msgs]
        del: smap_put.simps)
qed


lemma status_members_wf:
  assumes "status_shown base s"
  shows "json_wf (JObject (status_members s))"
proof -
  have put: "json_wf (JObject m) \<Longrightarrow> (b \<Longrightarrow> json_wf v) \<Longrightarrow> json_wf (JObject (put_when b k v m))" for m b k v
    by (simp add: put_when_def json_wf_put del: json_wf.simps)
  have nums: "in_int64 (int (s_progress s))" "in_int64 (s_code s)" "in_int64 (int (s_failures s))"
    "in_int64 (int (s_concurrency s))"
    using assms by (simp_all add: status_shown_def in_int64_def)
  have "json_wf (json_copy (s_meta s))" using assms by (simp add: status_shown_def json_copy_same)
  moreover have "json_wf (JObject [])" by simp
  ultimately show ?thesis
    unfolding status_members_def using nums assms
    by (intro json_wf_put put) (simp_all add: list_all_iff status_shown_def)
qed

definition as_shown :: "'d status \<Rightarrow> 'd status" where
  "as_shown s = s\<lparr>s_code := (if s_progress s = 100 then s_code s else -1),
     s_ytime := (if s_ytime s > 0 then s_ytime s else -1)\<rparr>"

lemma set_state_unknown:
  "s_state s = STATE_UNKNOWN \<Longrightarrow> snd (set_state now st s) = (if quiet_state st then s\<lparr>s_state := st\<rparr> else s\<lparr>s_state := st, s_mtime := now\<rparr>)"
  by (simp add: set_state_def validStateTransition_def touch_def Let_def)

lemma load_members:
  assumes "status_shown base s"
  shows "JsonStatus_load now (JObject (status_members s)) (new_status now) = (Inr (), as_shown s)"
proof -
  obtain v where v: "Uri (s_base_uri s @ ''/status/'' @ s_name s) = Inr v" "uri_leaf v = s_name s"
      "uri_canonical (uri_path_pop (uri_path_pop v)) = Inr (s_base_uri s)"
    using status_uri_parts [of base "s_base_uri s" "s_name s"] assms by (auto simp: status_shown_def)
  have copy: "json_copy (json_copy (s_meta s)) = s_meta s" and meta: "json_empty (s_meta s) \<Longrightarrow> s_meta s = JUndef"
    using assms by (auto simp: status_shown_def json_copy_same)
  have state: "str2state (state2str (s_state s)) = s_state s" using state_text.dec_enc [of "s_state s"] by simp
  have nums: "wrap_u32 (int (s_progress s)) = s_progress s" "wrap_u32 (int (s_failures s)) = s_failures s"
    "wrap_u32 (int (s_concurrency s)) = s_concurrency s" "wrap_s32 (s_code s) = s_code s"
    using assms by (auto simp: status_shown_def intro!: wrap_u32_id wrap_s32_id)
  have finds: "smap_find (status_members s) k =
      (if k = ''concurrency'' then Some (JInt (int (s_concurrency s)))
       else if 0 < s_ytime s \<and> k = ''ytime'' then Some (JInt (s_ytime s))
       else if k = ''mtime'' then Some (JInt (s_mtime s))
       else if k = ''ctime'' then Some (JInt (s_ctime s))
       else if k = ''failures'' then Some (JInt (int (s_failures s)))
       else if s_parent_uri s \<noteq> [] \<and> k = ''parent_uri'' then Some (JString (s_parent_uri s))
       else if \<not> json_empty (s_meta s) \<and> k = ''meta'' then Some (json_copy (s_meta s))
       else if k = ''children'' then Some (JArray (map JString (s_children s)))
       else if k = ''messages'' then Some (JArray (map JString (s_messages s)))
       else if s_progress s = 100 \<and> k = ''code'' then Some (JInt (s_code s))
       else if k = ''progress'' then Some (JInt (int (s_progress s)))
       else if k = ''status_uri'' then Some (JString (s_base_uri s @ ''/status/'' @ s_name s))
       else if k = ''uri'' then Some (JString (s_resource_uri s))
       else if k = ''state'' then Some (JString (state2str (s_state s)))
       else if k = ''component'' then Some (JString (s_component s))
       else if k = ''operation'' then Some (JString (s_operation s)) else None)" for k
    unfolding status_members_def by (simp only: smap_find_put put_when_simps smap.find_emp)
  let ?d = "JObject (status_members s)"
  have strs: "when_string ''operation'' ?d f = f (s_operation s)" "when_string ''component'' ?d f = f (s_component s)"
      "when_string ''state'' ?d f = f (state2str (s_state s))" "when_string ''uri'' ?d f = f (s_resource_uri s)"
      "when_string ''status_uri'' ?d f = f (s_base_uri s @ ''/status/'' @ s_name s)"
      "when_string ''parent_uri'' ?d f = (if s_parent_uri s = [] then sx_return () else f (s_parent_uri s))" for f
    by (simp_all add: when_string_simps finds)
  have ints: "when_int ''progress'' ?d g = g (int (s_progress s))" "when_int ''failures'' ?d g = g (int (s_failures s))"
      "when_int ''ctime'' ?d g = g (s_ctime s)" "when_int ''mtime'' ?d g = g (s_mtime s)"
      "when_int ''concurrency'' ?d g = g (int (s_concurrency s))"
      "when_int ''code'' ?d g = (if s_progress s = 100 then g (s_code s) else sx_return ())"
      "when_int ''ytime'' ?d g = (if s_ytime s > 0 then g (s_ytime s) else sx_return ())" for g
    by (simp_all add: when_int_simps finds)
  have keys: "when_key ''meta'' ?d h = (if json_empty (s_meta s) then sx_return () else h (json_copy (s_meta s)))"
      "when_key ''messages'' ?d h = h (JArray (map JString (s_messages s)))"
      "when_key ''children'' ?d h = h (JArray (map JString (s_children s)))" for h
    by (simp_all add: when_key_simps finds)
  show ?thesis
    unfolding JsonStatus_load_def strs ints keys
    using v copy meta state nums
    by (simp add: sx_defs upd_apply load_status_uri_def array_elems_def each_string_upd fold_add_message fold_add_child
        set_operation_def set_component_def set_resource_uri_def set_name_def set_base_uri_def set_meta_def
        set_progress_def set_code_def set_messages_def set_children_def set_parent_uri_def set_failures_def
        set_ctime_def set_ytime_def set_concurrency_def touch_def set_state_unknown new_status_def as_shown_def)
      (cases s, simp, metis)
qed

lemma fetch_json_members:
  assumes "status_shown base s"
  shows "fetch_json now (JObject (status_members s)) = Inr (as_shown s)"
  using load_members [OF assms, of now] json_copy_same [OF status_members_wf [OF assms]]
  by (simp add: fetch_json_def del: json_copy.simps)


definition demo_base :: uri where
  "demo_base = new_uri\<lparr>u_scheme := ''http'', u_hostname := ''gb.example'', u_port := 4080, u_path := ''v1''\<rparr>"

definition demo_status :: "nat status" where
  "demo_status = (new_status 7)\<lparr>s_name := ''s-1'', s_base_uri := ''http://gb.example:4080/v1'',
     s_state := STATE_RUNNING, s_progress := 40, s_messages := [''hello''],
     s_children := [''http://gb.example:4080/v1''], s_meta := JObject [(''k'', JInt 3)]\<rparr>"


end
