(* ===== verification/GB_Job.thy ===== *)
theory GB_Job
  imports GB_StatusJson
begin

text \<open>
  \<^verbatim>\<open>job/Job.cc\<close>, \<^verbatim>\<open>job/JobImpl.cc\<close> and \<^verbatim>\<open>core/Hash.cc\<close>: the attributes of a job, the attributes its name implies, and the
  envelope, the JSON document in which a job travels. A job is its attributes, the jobs registered for
  its events and the status of the event it was started for; the connection it runs on is not part
  of it.
\<close>

section \<open>Job types and events\<close>

datatype job_type = JOB_UNKNOWN | JOB_SYNC | JOB_ASYNC

datatype http_method = METHOD_GET | METHOD_DELETE | METHOD_POST | METHOD_PUT | METHOD_HEAD | METHOD_UNKNOWN

datatype job_event =
    JEVENT_UNKNOWN
  | JEVENT_COMPLETED
  | JEVENT_FAILED
  | JEVENT_SUCCEEDED
  | JEVENT_STARTED
  | JEVENT_STOPPED
  | JEVENT_CANCELLED

primrec event_num :: "job_event \<Rightarrow> nat" where
  "event_num JEVENT_UNKNOWN = 0"
| "event_num JEVENT_COMPLETED = 1"
| "event_num JEVENT_FAILED = 2"
| "event_num JEVENT_SUCCEEDED = 3"
| "event_num JEVENT_STARTED = 4"
| "event_num JEVENT_STOPPED = 5"
| "event_num JEVENT_CANCELLED = 6"

lemma event_num_eq: "event_num a = event_num b \<longleftrightarrow> a = b"
  by (cases a; cases b) simp_all

text \<open>The order of the enumeration, in which a \<^verbatim>\<open>std::map\<close> keyed by events is visited.\<close>

instantiation job_event :: linorder
begin

definition less_eq_job_event :: "job_event \<Rightarrow> job_event \<Rightarrow> bool" where
  "less_eq_job_event a b \<longleftrightarrow> event_num a \<le> event_num b"

definition less_job_event :: "job_event \<Rightarrow> job_event \<Rightarrow> bool" where
  "less_job_event a b \<longleftrightarrow> event_num a < event_num b"

instance
  by standard (auto simp: less_eq_job_event_def less_job_event_def event_num_eq)

end

primrec job_event2str :: "job_event \<Rightarrow> string" where
  "job_event2str JEVENT_COMPLETED = ''COMPLETED''"
| "job_event2str JEVENT_FAILED = ''FAILED''"
| "job_event2str JEVENT_SUCCEEDED = ''SUCCEEDED''"
| "job_event2str JEVENT_STARTED = ''STARTED''"
| "job_event2str JEVENT_STOPPED = ''STOPPED''"
| "job_event2str JEVENT_CANCELLED = ''CANCELLED''"
| "job_event2str JEVENT_UNKNOWN = ''UNKNOWN''"

definition job_str2event :: "string \<Rightarrow> job_event" where
  "job_str2event ev =
     (if ev = ''COMPLETED'' then JEVENT_COMPLETED
      else if ev = ''FAILED'' then JEVENT_FAILED
      else if ev = ''SUCCEEDED'' then JEVENT_SUCCEEDED
      else if ev = ''STARTED'' then JEVENT_STARTED
      else if ev = ''STOPPED'' then JEVENT_STOPPED
      else if ev = ''CANCELLED'' then JEVENT_CANCELLED
      else JEVENT_UNKNOWN)"

interpretation job_event_text: codec job_event2str "\<lambda>s. Some (job_str2event s)" "\<lambda>_. True"
proof unfold_locales
  fix x show "Some (job_str2event (job_event2str x)) = Some x" by (cases x) (simp_all add: job_str2event_def)
qed

section \<open>Hashes\<close>

type_synonym hash = "(string, string) smap"

definition hash_has_key :: "string \<Rightarrow> hash \<Rightarrow> bool" where
  "hash_has_key k h \<longleftrightarrow> smap_find h k \<noteq> None"

text \<open>The const \<^verbatim>\<open>operator[]\<close>.\<close>

definition hash_get :: "string \<Rightarrow> hash \<Rightarrow> gb_exn + string" where
  "hash_get k h = (case smap_find h k of
     None \<Rightarrow> Inl (StdError (''key '' @ k @ '' not found in const Hash''))
   | Some v \<Rightarrow> Inr v)"

definition hash_get_default :: "string \<Rightarrow> string \<Rightarrow> hash \<Rightarrow> string" where
  "hash_get_default k dflt h = (case smap_find h k of None \<Rightarrow> dflt | Some v \<Rightarrow> v)"

section \<open>Attributes\<close>

record job_attrs =
  j_name :: string
  j_version :: string
  j_operation :: string
  j_component :: string
  j_resource_type :: string
  j_resource_name :: string
  j_base_uri :: string
  j_parent_uri :: string
  j_remote_ip :: string
  j_remote_user :: string
  j_type :: job_type
  j_method :: http_method
  j_content :: string
  j_arguments :: "string list"
  j_matrix_arguments :: hash
  j_query_params :: hash
  j_headers :: hash
  j_environ :: hash
  j_status :: string
  j_timeout :: int

definition new_job_attrs :: job_attrs where
  "new_job_attrs = \<lparr>j_name = [], j_version = [], j_operation = [], j_component = [], j_resource_type = [],
     j_resource_name = [], j_base_uri = ''http://localhost:4080/internal'', j_parent_uri = [], j_remote_ip = [],
     j_remote_user = [], j_type = JOB_ASYNC, j_method = METHOD_UNKNOWN, j_content = [], j_arguments = [],
     j_matrix_arguments = [], j_query_params = [], j_headers = [], j_environ = [], j_status = [], j_timeout = 600\<rparr>"

text \<open>
  A job: its attributes, the handlers of its events in the order of the events, some of them null,
  and the status of the event.
\<close>

datatype 'd job = Job (attrs: job_attrs) (handlers: "(job_event \<times> 'd job option) list") (event_status: "'d status option")

definition upd_attrs :: "(job_attrs \<Rightarrow> job_attrs) \<Rightarrow> 'd job \<Rightarrow> 'd job" where
  "upd_attrs f j = Job (f (attrs j)) (handlers j) (event_status j)"

definition set_job_operation :: "string \<Rightarrow> job_attrs \<Rightarrow> job_attrs" where
  "set_job_operation op a =
     (if op = ''put'' then a\<lparr>j_operation := ''create''\<rparr>
      else if op = ''post'' then a\<lparr>j_operation := ''update''\<rparr>
      else a\<lparr>j_operation := op\<rparr>)"

definition add_argument :: "string \<Rightarrow> job_attrs \<Rightarrow> job_attrs" where
  "add_argument v a = a\<lparr>j_arguments := j_arguments a @ [v]\<rparr>"

definition add_matrix_argument :: "string \<Rightarrow> string \<Rightarrow> job_attrs \<Rightarrow> job_attrs" where
  "add_matrix_argument k v a = a\<lparr>j_matrix_arguments := smap_put k v (j_matrix_arguments a)\<rparr>"

definition add_query_param :: "string \<Rightarrow> string \<Rightarrow> job_attrs \<Rightarrow> job_attrs" where
  "add_query_param k v a = a\<lparr>j_query_params := smap_put k v (j_query_params a)\<rparr>"

definition add_header :: "string \<Rightarrow> string \<Rightarrow> job_attrs \<Rightarrow> job_attrs" where
  "add_header k v a = a\<lparr>j_headers := smap_put k v (j_headers a)\<rparr>"

definition add_environ :: "string \<Rightarrow> string \<Rightarrow> job_attrs \<Rightarrow> job_attrs" where
  "add_environ k v a = a\<lparr>j_environ := smap_put k v (j_environ a)\<rparr>"

text \<open>\<^verbatim>\<open>on(e, job)\<close> registers a handler; \<^verbatim>\<open>on(e)\<close> looks one up, and leaves a null entry where there was none.\<close>

definition job_on :: "job_event \<Rightarrow> 'd job \<Rightarrow> 'd job \<Rightarrow> 'd job" where
  "job_on e h j = Job (attrs j) (smap_put e (Some h) (handlers j)) (event_status j)"

definition job_handler :: "job_event \<Rightarrow> 'd job \<Rightarrow> 'd job option \<times> 'd job" where
  "job_handler e j = (case smap_find (handlers j) e of
     Some h \<Rightarrow> (h, j)
   | None \<Rightarrow> (None, Job (attrs j) (smap_put e None (handlers j)) (event_status j)))"

definition job_resource_uri :: "job_attrs \<Rightarrow> gb_exn + string" where
  "job_resource_uri a = res_bind (Uri (j_base_uri a)) (\<lambda>u.
     uri_canonical (uri_path_push (j_resource_name a) (uri_path_push (j_resource_type a) u)))"

section \<open>Names\<close>

definition invalid_argument :: "string \<Rightarrow> string \<Rightarrow> gb_exn" where
  "invalid_argument name what = StdError (''The string '' @ [CHR 0x27] @ name @ [CHR 0x27] @ what)"

definition is_underscore :: "char \<Rightarrow> bool" where
  "is_underscore c \<longleftrightarrow> c = CHR ''_''"

text \<open>The text after the last underscore, or the whole text.\<close>

definition after_last :: "string \<Rightarrow> string" where
  "after_last name = (case str_rfind_if is_underscore name of None \<Rightarrow> name | Some i \<Rightarrow> drop (i + 1) name)"

definition has_version :: "string \<Rightarrow> bool" where
  "has_version v \<longleftrightarrow> (case v of c # d # _ \<Rightarrow> c = CHR ''v'' \<and> is_digit d | _ \<Rightarrow> False)"

text \<open>\<^verbatim>\<open>set_job_from_name\<close>: what was set before a part is found missing stays set.\<close>

definition set_job_from_name :: "string \<Rightarrow> (job_attrs, gb_exn, unit) sx" where
  "set_job_from_name name =
     (case str_find_if is_underscore name of
        None \<Rightarrow> sx_throw (invalid_argument name '' is not a valid job name.'')
      | Some pos \<Rightarrow>
          if take 3 name \<noteq> ''do_'' then sx_throw (invalid_argument name '' is not a valid job name.'')
          else (case str_find_if_from is_underscore (pos + 1) name of
            None \<Rightarrow> sx_throw (invalid_argument name '' is not a valid job name.'')
          | Some p1 \<Rightarrow>
              if \<not> has_version (after_last name) then sx_throw (invalid_argument name '' is missing a version.'')
              else
                sx_then (sx_modify (\<lambda>a. a\<lparr>j_version := after_last name\<rparr>))
                (sx_then (sx_modify (set_job_operation (take (p1 - pos - 1) (drop (pos + 1) name))))
                (case str_find_if_from is_underscore (p1 + 1) name of
                   None \<Rightarrow> sx_throw (invalid_argument name '' is missing a valid component.'')
                 | Some p2 \<Rightarrow>
                     sx_then (sx_modify (\<lambda>a. a\<lparr>j_component := take (p2 - p1 - 1) (drop (p1 + 1) name)\<rparr>))
                     (case str_find_if_from is_underscore (p2 + 1) name of
                        None \<Rightarrow> sx_throw (invalid_argument name '' is missing a valid resource type.'')
                      | Some p3 \<Rightarrow>
                          sx_modify (\<lambda>a. a\<lparr>j_resource_type := take (p3 - p2 - 1) (drop (p2 + 1) name)\<rparr>))))))"

definition set_job_name :: "string \<Rightarrow> (job_attrs, gb_exn, unit) sx" where
  "set_job_name name =
     sx_then (sx_modify (\<lambda>a. a\<lparr>j_name := name\<rparr>))
       (if str_find ''://'' name = None then set_job_from_name name else sx_return ())"

section \<open>The envelope\<close>

text \<open>\<^verbatim>\<open>job_data[k][name] = value\<close> for every entry of a hash.\<close>

primrec put_members :: "string \<Rightarrow> hash \<Rightarrow> 'd json \<Rightarrow> gb_exn + 'd json" where
  "put_members k [] j = Inr j"
| "put_members k (e # es) j =
     res_bind (json_upd_key [] k (json_upd_key [Key k] (fst e) (\<lambda>_. Inr (JString (snd e)))) j) (put_members k es)"

definition set_in :: "string \<Rightarrow> string \<Rightarrow> string \<Rightarrow> 'd json \<Rightarrow> gb_exn + 'd json" where
  "set_in k k2 v = json_upd_key [] k (json_upd_key [Key k] k2 (\<lambda>_. Inr (JString v)))"

text \<open>The members of \<^verbatim>\<open>to_json\<close> before the event handlers, and those after.\<close>

definition put_attrs :: "job_attrs \<Rightarrow> 'd json \<Rightarrow> gb_exn + 'd json" where
  "put_attrs a = res_seq
     [json_set ''version'' (JString (j_version a)),
      json_set ''job_type'' (JString (if j_type a = JOB_SYNC then ''sync'' else ''async'')),
      json_set ''operation'' (JString (j_operation a)),
      json_set ''component'' (JString (j_component a)),
      set_in ''resource'' ''type'' (j_resource_type a),
      res_when (j_resource_name a \<noteq> []) (set_in ''resource'' ''name'' (j_resource_name a)),
      res_when (j_remote_ip a \<noteq> []) (set_in ''remote'' ''ip'' (j_remote_ip a)),
      res_when (j_remote_user a \<noteq> []) (set_in ''remote'' ''user'' (j_remote_user a)),
      res_when (j_base_uri a \<noteq> []) (json_set ''base_uri'' (JString (j_base_uri a))),
      res_when (j_parent_uri a \<noteq> []) (json_set ''parent_uri'' (JString (j_parent_uri a))),
      res_when (j_status a \<noteq> []) (json_set ''status'' (JString (j_status a))),
      json_set ''arguments'' (JArray []),
      put_elems ''arguments'' (\<lambda>v. Inr (JString v)) 0 (j_arguments a),
      json_set ''matrix_arguments'' (JObject []),
      put_members ''matrix_arguments'' (j_matrix_arguments a),
      json_set ''headers'' (JObject []),
      put_members ''headers'' (j_headers a),
      json_set ''environ'' (JObject []),
      put_members ''environ'' (j_environ a),
      json_set ''query_params'' (JObject []),
      put_members ''query_params'' (j_query_params a)]"

text \<open>A handler and the status of an event travel as text that is parsed into the envelope.\<close>

definition set_handler :: "string \<Rightarrow> string \<Rightarrow> 'd json \<Rightarrow> 'd json \<Rightarrow> gb_exn + 'd json" where
  "set_handler ev name doc j =
     res_bind (json_upd_key [] ''on'' (json_upd_key [Key ''on''] ev
         (json_upd_key [Key ''on'', Key ev] ''name'' (\<lambda>_. Inr (JString name)))) j)
       (json_upd_key [] ''on'' (json_upd_key [Key ''on''] ev
         (json_upd_key [Key ''on'', Key ev] ''envelope'' (\<lambda>_. Inr doc))))"

definition put_event_status :: "'d json_lib \<Rightarrow> schema_statics \<Rightarrow> 'd status option \<Rightarrow> 'd json \<Rightarrow> gb_exn + 'd json" where
  "put_event_status lib st es j = (case es of
     None \<Rightarrow> Inr j
   | Some s \<Rightarrow>
       res_bind (status_serialize lib s) (\<lambda>t.
       res_bind (parse_text lib st None t) (\<lambda>d. json_set ''event_status'' d j)))"

function job_to_json :: "'d json_lib \<Rightarrow> schema_statics \<Rightarrow> 'd job \<Rightarrow> gb_exn + 'd json"
  and put_handlers :: "'d json_lib \<Rightarrow> schema_statics \<Rightarrow> (job_event \<times> 'd job option) list \<Rightarrow> 'd json \<Rightarrow> gb_exn + 'd json" where
  "job_to_json lib st (Job a hs es) =
     res_bind (put_attrs a JUndef) (\<lambda>j.
     res_bind (put_handlers lib st hs j) (\<lambda>j.
     res_bind (put_event_status lib st es j)
       (res_when (j_content a \<noteq> []) (json_set ''content'' (JString (j_content a))))))"
| "put_handlers lib st [] j = Inr j"
| "put_handlers lib st ((e, None) # hs) j = put_handlers lib st hs j"
| "put_handlers lib st ((e, Some h) # hs) j =
     res_bind (job_to_json lib st h) (\<lambda>d.
     res_bind (parse_text lib st None (json_serialize lib d)) (\<lambda>d.
     res_bind (set_handler (job_event2str e) (j_name (attrs h)) d j) (put_handlers lib st hs)))"
  by pat_completeness auto

termination
  by (relation "measure (\<lambda>x. case x of
        Inl (_, _, j) \<Rightarrow> 2 * size j
      | Inr (_, _, hs, _) \<Rightarrow> Suc (2 * size_list (size_prod (\<lambda>_. 0) (size_option size)) hs))") auto

definition job_serialize :: "'d json_lib \<Rightarrow> schema_statics \<Rightarrow> 'd job \<Rightarrow> gb_exn + string" where
  "job_serialize lib st j = res_bind (job_to_json lib st j) (\<lambda>d. Inr (json_serialize lib d))"

section \<open>Names: lemmas\<close>

lemma split_find:
  "str_split (CHR ''_'') s = (case str_find_if is_underscore s of
      None \<Rightarrow> [s] | Some i \<Rightarrow> take i s # str_split (CHR ''_'') (drop (i + 1) s))"
  by (induction s) (auto simp: is_underscore_def split: option.splits list.splits)

lemma split_find_from:
  "str_split (CHR ''_'') (drop n s) = (case str_find_if_from is_underscore n s of
      None \<Rightarrow> [drop n s] | Some i \<Rightarrow> take (i - n) (drop n s) # str_split (CHR ''_'') (drop (i + 1) s))"
  by (subst split_find) (auto simp: str_find_if_from_def add.commute add.left_commute split: option.splits)

lemma split_single: "str_split sep s = [p] \<Longrightarrow> sep \<notin> set s"
  by (induction s arbitrary: p) (auto split: if_splits list.splits)

lemma after_last_split: "after_last s = last (str_split (CHR ''_'') s)"
proof (induction s)
  case (Cons c s)
  obtain p ps where p: "str_split (CHR ''_'') s = p # ps" by (cases "str_split (CHR ''_'') s") auto
  show ?case
  proof (cases "str_rfind_if is_underscore s")
    case None
    then have "CHR ''_'' \<notin> set s" using str_rfind_if_None [of is_underscore s] by (auto simp: is_underscore_def)
    then have "str_split (CHR ''_'') s = [s]" by (rule str_split_no_sep)
    with None show ?thesis by (simp add: after_last_def is_underscore_def)
  next
    case (Some i)
    then have "CHR ''_'' \<in> set s" using str_rfind_if_None [of is_underscore s] by (auto simp: is_underscore_def)
    then have "ps \<noteq> []" using p split_single [of "CHR ''_''" s p] by auto
    then have "last (str_split (CHR ''_'') (c # s)) = last ps" using p by simp
    moreover have "after_last (c # s) = after_last s" using Some by (simp add: after_last_def)
    ultimately show ?thesis using Cons.IH p \<open>ps \<noteq> []\<close> by simp
  qed
qed (simp add: after_last_def)

text \<open>What the parts of a name between underscores say, the reference for \<^verbatim>\<open>set_job_from_name\<close>.\<close>

definition name_spec :: "string \<Rightarrow> (job_attrs, gb_exn, unit) sx" where
  "name_spec name a = (case str_split (CHR ''_'') name of
     d # op # r # rs \<Rightarrow>
       if d \<noteq> ''do'' then (Inl (invalid_argument name '' is not a valid job name.''), a)
       else if \<not> has_version (last (r # rs)) then (Inl (invalid_argument name '' is missing a version.''), a)
       else let a1 = set_job_operation op (a\<lparr>j_version := last (r # rs)\<rparr>) in
         (case rs of
            [] \<Rightarrow> (Inl (invalid_argument name '' is missing a valid component.''), a1)
          | [_] \<Rightarrow> (Inl (invalid_argument name '' is missing a valid resource type.''), a1\<lparr>j_component := r\<rparr>)
          | t # _ # _ \<Rightarrow> (Inr (), a1\<lparr>j_component := r, j_resource_type := t\<rparr>))
   | _ \<Rightarrow> (Inl (invalid_argument name '' is not a valid job name.''), a))"

lemma first_part_do:
  assumes "str_find_if is_underscore name = Some pos"
  shows "take 3 name = ''do_'' \<longleftrightarrow> take pos name = ''do''"
proof -
  note f = str_find_if_Some [OF assms]
  show ?thesis
  proof
    assume *: "take 3 name = ''do_''"
    then have n: "name = ''do_'' @ drop 3 name" by (metis append_take_drop_id)
    have "str_find_if is_underscore (''do_'' @ drop 3 name) = Some 2" by (simp add: is_underscore_def)
    with n assms have "pos = 2" by simp
    with n show "take pos name = ''do''" by (metis append_Cons append_Nil numeral_2_eq_2 take_Suc_Cons take_0)
  next
    assume *: "take pos name = ''do''"
    then have "pos = 2" using f by (metis length_Cons length_take list.size(3) min.absorb4 numeral_2_eq_2)
    moreover have "take (Suc pos) name = take pos name @ [name ! pos]" using f by (simp add: take_Suc_conv_app_nth)
    ultimately show "take 3 name = ''do_''" using * f by (simp add: is_underscore_def numeral_3_eq_3)
  qed
qed

lemma set_job_from_name_spec: "set_job_from_name name = name_spec name"
proof
  fix a
  show "set_job_from_name name a = name_spec name a"
  proof (cases "str_find_if is_underscore name")
    case None
    then show ?thesis by (subst name_spec_def, subst split_find) (simp add: set_job_from_name_def sx_defs)
  next
    case (Some pos)
    note s0 = split_find [of name, unfolded Some option.case]
    note s1 = split_find_from [of "pos + 1" name]
    show ?thesis
    proof (cases "str_find_if_from is_underscore (pos + 1) name")
      case None
      with s0 s1 Some show ?thesis by (simp add: name_spec_def set_job_from_name_def sx_defs)
    next
      case p1: (Some p1)
      note s2 = split_find_from [of "p1 + 1" name]
      show ?thesis
      proof (cases "str_find_if_from is_underscore (p1 + 1) name")
        case None
        with s0 s1 s2 Some p1 show ?thesis
          by (auto simp: name_spec_def set_job_from_name_def sx_defs after_last_split first_part_do Let_def)
      next
        case p2: (Some p2)
        note s3 = split_find_from [of "p2 + 1" name]
        with s0 s1 s2 Some p1 p2 show ?thesis
          by (auto simp: name_spec_def set_job_from_name_def sx_defs after_last_split first_part_do Let_def
              split: option.splits list.splits)
      qed
    qed
  qed
qed

text \<open>
  C32: which names are job names and what they mean. A name is split at its underscores: it must begin with
  \<^verbatim>\<open>do\<close>, and its last part must be a version; the second part is the operation (put reads as create, post as update), the
  third the component, the fourth the resource type, and there must be a part after it. Each missing part has its
  own error, and the attributes found before it stay set.
\<close>

theorem job_name_equiv:
  "set_job_name name a = (let a' = a\<lparr>j_name := name\<rparr> in
     if str_find ''://'' name = None then name_spec name a' else (Inr (), a'))"
  by (simp add: set_job_name_def sx_defs set_job_from_name_spec Let_def)

end
