(* ===== verification/GB_Config.thy ===== *)
theory GB_Config
  imports GB_JsonIO
begin

text \<open>
  \<^verbatim>\<open>core/ConfigFile.cc\<close>: a configuration is a JSON document read from a file, completed by the files of a
  configuration directory, and kept in a process-wide cache. The file system, the glob and yajl are
  parameters.
\<close>

section \<open>Reading files\<close>

text \<open>
  What the code takes from outside: \<^verbatim>\<open>slurp\<close> of a file, the tree that a parse which throws leaves in the
  object, \<^verbatim>\<open>glob\<close>, \<^verbatim>\<open>bfs::basename\<close> and the server root of the environment.
\<close>

record 'd cfg_env =
  ce_lib :: "'d json_lib"
  ce_statics :: schema_statics
  ce_slurp :: "string \<Rightarrow> gb_exn + string"
  ce_left :: "string \<Rightarrow> 'd json"
  ce_glob :: "string \<Rightarrow> string list"
  ce_basename :: "string \<Rightarrow> string"
  ce_root :: string

text \<open>\<^verbatim>\<open>parseFile\<close> into a fresh value: what it throws and what it leaves.\<close>

definition parseFile :: "'d cfg_env \<Rightarrow> string \<Rightarrow> gb_exn option \<times> 'd json" where
  "parseFile env path = (case ce_slurp env path of
     Inl e \<Rightarrow> (Some e, JUndef)
   | Inr content \<Rightarrow> (case json_parse (ce_lib env) (ce_statics env) None content of
        None \<Rightarrow> (Some NullDereference, ce_left env content)
      | Some (Inl e) \<Rightarrow> (Some e, ce_left env content)
      | Some (Inr j) \<Rightarrow> (None, j)))"

definition server_abspath :: "string \<Rightarrow> string \<Rightarrow> gb_exn + string" where
  "server_abspath root path = (case path of
     [] \<Rightarrow> Inl (StdError ''basic_string::at'')
   | f # _ \<Rightarrow> Inr (if f \<noteq> CHR ''/'' \<and> f \<noteq> CHR ''.'' then root @ ''/'' @ path else path))"

section \<open>Merging the configuration directory\<close>

text \<open>One entry of a section file: it is added unless the section has that key.\<close>

definition merge_entry :: "string \<Rightarrow> string \<times> 'd json \<Rightarrow> 'd json \<Rightarrow> gb_exn + 'd json" where
  "merge_entry base = (\<lambda>(k, v).
     json_upd_key [] base (\<lambda>sec.
       if json_hasKey k sec then Inr sec
       else json_upd_key [Key base] k (\<lambda>_. Inr (json_copy v)) sec))"

text \<open>The loop over the entries: an exception ends it, with what was merged so far.\<close>

fun merge_entries :: "string \<Rightarrow> (string \<times> 'd json) list \<Rightarrow> 'd json \<Rightarrow> 'd json" where
  "merge_entries base [] content = content"
| "merge_entries base (e # es) content = (case merge_entry base e content of
     Inl _ \<Rightarrow> content
   | Inr content' \<Rightarrow> merge_entries base es content')"

definition merge_file :: "'d cfg_env \<Rightarrow> string \<Rightarrow> 'd json \<Rightarrow> 'd json" where
  "merge_file env path content =
     (let base = ce_basename env path in
      if json_hasKey base content then
        (case parseFile env path of
           (None, JObject es) \<Rightarrow> merge_entries base es content
         | _ \<Rightarrow> content)
      else (case json_upd_key [] base (\<lambda>_. Inr (snd (parseFile env path))) content of
           Inl _ \<Rightarrow> content
         | Inr content' \<Rightarrow> content'))"

definition config_dir :: "'d cfg_env \<Rightarrow> 'd json \<Rightarrow> gb_exn + string" where
  "config_dir env content =
     (if json_hasKey ''config_dir'' content then
        res_bind (json_get [] ''config_dir'' content) (\<lambda>v.
        res_bind (json_as_string [Key ''config_dir''] v) (server_abspath (ce_root env)))
      else Inr (ce_root env @ ''/config.d''))"

definition config_load :: "'d cfg_env \<Rightarrow> string \<Rightarrow> gb_exn option \<times> 'd json" where
  "config_load env path = (case parseFile env path of
     (Some e, j) \<Rightarrow> (Some e, j)
   | (None, j) \<Rightarrow> (case config_dir env j of
        Inl e \<Rightarrow> (Some e, j)
      | Inr dir \<Rightarrow> (None, fold (merge_file env) (ce_glob env (dir @ ''/*.conf'')) j)))"

text \<open>\<^verbatim>\<open>ConfigFile::Private\<close>: the cache entry is made before the file is read.\<close>

type_synonym 'd config_map = "string \<Rightarrow> 'd json option"

definition ConfigFile :: "'d cfg_env \<Rightarrow> string \<Rightarrow> ('d config_map, gb_exn, 'd json) sx" where
  "ConfigFile env path = (\<lambda>cache. case cache path of
     Some j \<Rightarrow> (Inr j, cache)
   | None \<Rightarrow> (case config_load env path of
        (Some e, j) \<Rightarrow> (Inl e, cache(path \<mapsto> j))
      | (None, j) \<Rightarrow> (Inr j, cache(path \<mapsto> j))))"

section \<open>Settings\<close>

definition has_setting :: "string \<Rightarrow> string \<Rightarrow> 'd json \<Rightarrow> bool" where
  "has_setting sec key cfg = (json_hasKey sec cfg \<and>
     (case json_get [] sec cfg of Inr s \<Rightarrow> json_hasKey key s | Inl _ \<Rightarrow> False))"

definition get_setting :: "string \<Rightarrow> string \<Rightarrow> 'd json \<Rightarrow> gb_exn + 'd json" where
  "get_setting sec key cfg = res_bind (json_get [] sec cfg) (json_get [Key sec] key)"

definition get_string2 :: "string \<Rightarrow> string \<Rightarrow> 'd json \<Rightarrow> gb_exn + string" where
  "get_string2 sec key cfg =
     (if has_setting sec key cfg
      then res_bind (get_setting sec key cfg) (json_as_string [Key sec, Key key]) else Inr [])"

definition get_string2_default :: "string \<Rightarrow> string \<Rightarrow> string \<Rightarrow> 'd json \<Rightarrow> gb_exn + string" where
  "get_string2_default sec key dflt cfg =
     (if has_setting sec key cfg
      then res_bind (get_setting sec key cfg) (json_as_string [Key sec, Key key]) else Inr dflt)"

definition get_int2 :: "string \<Rightarrow> string \<Rightarrow> 'd json \<Rightarrow> gb_exn + int" where
  "get_int2 sec key cfg =
     (if has_setting sec key cfg
      then res_bind (get_setting sec key cfg) (json_as_int64 [Key sec, Key key]) else Inr 0)"

definition get_int2_default :: "string \<Rightarrow> string \<Rightarrow> int \<Rightarrow> 'd json \<Rightarrow> gb_exn + int" where
  "get_int2_default sec key dflt cfg =
     (if has_setting sec key cfg
      then res_bind (get_setting sec key cfg) (json_as_int64 [Key sec, Key key]) else Inr dflt)"

definition get_string :: "string \<Rightarrow> 'd json \<Rightarrow> gb_exn + string" where
  "get_string key cfg =
     (if json_hasKey key cfg then res_bind (json_get [] key cfg) (json_as_string [Key key]) else Inr [])"

definition get_string_default :: "string \<Rightarrow> string \<Rightarrow> 'd json \<Rightarrow> gb_exn + string" where
  "get_string_default key dflt cfg =
     (if json_hasKey key cfg then res_bind (json_get [] key cfg) (json_as_string [Key key]) else Inr dflt)"

definition get_int :: "string \<Rightarrow> 'd json \<Rightarrow> gb_exn + int" where
  "get_int key cfg =
     (if json_hasKey key cfg then res_bind (json_get [] key cfg) (json_as_int64 [Key key]) else Inr 0)"

definition get_int_default :: "string \<Rightarrow> int \<Rightarrow> 'd json \<Rightarrow> gb_exn + int" where
  "get_int_default key dflt cfg =
     (if json_hasKey key cfg then res_bind (json_get [] key cfg) (json_as_int64 [Key key]) else Inr dflt)"

definition get_json :: "string \<Rightarrow> 'd json \<Rightarrow> gb_exn + 'd json" where
  "get_json key cfg = (if json_hasKey key cfg then json_get [] key cfg else Inr JUndef)"

definition get_path2 :: "string \<Rightarrow> string \<Rightarrow> string \<Rightarrow> 'd json \<Rightarrow> gb_exn + string" where
  "get_path2 root sec key cfg =
     (if has_setting sec key cfg
      then res_bind (get_setting sec key cfg) (\<lambda>v.
           res_bind (json_as_string [Key sec, Key key] v) (server_abspath root)) else Inr [])"

definition get_path :: "string \<Rightarrow> string \<Rightarrow> 'd json \<Rightarrow> gb_exn + string" where
  "get_path root key cfg =
     (if json_hasKey key cfg
      then res_bind (json_get [] key cfg) (\<lambda>v. res_bind (json_as_string [Key key] v) (server_abspath root))
      else Inr [])"

definition get_path2_default :: "string \<Rightarrow> string \<Rightarrow> string \<Rightarrow> string \<Rightarrow> 'd json \<Rightarrow> gb_exn + string" where
  "get_path2_default root sec key dflt cfg = (if has_setting sec key cfg then get_path2 root sec key cfg else Inr dflt)"

definition get_path_default :: "string \<Rightarrow> string \<Rightarrow> string \<Rightarrow> 'd json \<Rightarrow> gb_exn + string" where
  "get_path_default root key dflt cfg = (if json_hasKey key cfg then get_path root key cfg else Inr dflt)"

section \<open>The directory only adds\<close>

text \<open>
  \<open>extends v w\<close>: \<open>w\<close> has every member of \<open>v\<close> unchanged, and is \<open>v\<close> where \<open>v\<close> is no container of
  members.
\<close>

definition extends :: "'d json \<Rightarrow> 'd json \<Rightarrow> bool" where
  "extends v w = (case v of
     JObject ms \<Rightarrow> (\<exists>ms'. w = JObject ms' \<and> smap_wf ms' \<and> (\<forall>k x. smap_find ms k = Some x \<longrightarrow> smap_find ms' k = Some x))
   | JUndef \<Rightarrow> True
   | _ \<Rightarrow> w = v)"

definition keeps_sections :: "(string, 'd json) smap \<Rightarrow> 'd json \<Rightarrow> bool" where
  "keeps_sections ms j \<longleftrightarrow> (\<exists>ms'. j = JObject ms' \<and> smap_wf ms'
     \<and> (\<forall>sec v. smap_find ms sec = Some v \<longrightarrow> (\<exists>w. smap_find ms' sec = Some w \<and> extends v w)))"

lemma json_upd_key_object:
  assumes "smap_wf ms"
  shows "json_upd_key path k (\<lambda>_. Inr v) (JObject ms) = Inr (JObject (smap_put k v ms))"
  using assms by (auto simp: json_upd_key_def json_ref_key_def json_addKey_def json_as_object_def
      put_after_addKey smap_insert_def smap_find_put smap.put_put split: option.splits)

lemma json_upd_key_scalar:
  "json_upd_key path k f j = Inr j' \<Longrightarrow> is_objectlike j"
  by (cases j) (auto simp: json_upd_key_def json_ref_key_def is_objectlike_def handleError_def)

lemma extends_add:
  assumes "extends x s" and "\<not> json_hasKey k s" and "json_upd_key path k (\<lambda>_. Inr v) s = Inr s'"
  shows "extends x s'"
proof (cases x)
  case (JObject ms)
  then obtain ms' where ms': "s = JObject ms'" "smap_wf ms'"
      "\<And>k y. smap_find ms k = Some y \<Longrightarrow> smap_find ms' k = Some y"
    using assms(1) by (auto simp: extends_def)
  then have "s' = JObject (smap_put k v ms')" using assms(3) by (simp add: json_upd_key_object)
  with ms' JObject assms(2) show ?thesis
    by (auto simp: extends_def smap_wf_put smap_find_put json_hasKey_def)
qed (use assms json_upd_key_scalar [OF assms(3)] in \<open>auto simp: extends_def is_objectlike_def\<close>)

lemma merge_entry_keeps:
  assumes "keeps_sections ms j" and "merge_entry base (k, v) j = Inr j'" and "json_hasKey base j"
  shows "keeps_sections ms j' \<and> json_hasKey base j'"
proof -
  obtain ms' where j: "j = JObject ms'" "smap_wf ms'"
    and keep: "\<And>sec v. smap_find ms sec = Some v \<Longrightarrow> \<exists>w. smap_find ms' sec = Some w \<and> extends v w"
    using assms(1) by (auto simp: keeps_sections_def)
  obtain s where s: "smap_find ms' base = Some s" using assms(3) j by (auto simp: json_hasKey_def)
  define add where "add = (\<lambda>sec. if json_hasKey k sec then Inr sec
       else json_upd_key [Key base] k (\<lambda>_. Inr (json_copy v)) sec)"
  obtain s' where s': "add s = Inr s'" and j': "j' = JObject (smap_put base s' ms')"
    using assms(2) s j unfolding merge_entry_def add_def
    by (auto simp: json_upd_key_def json_ref_key_def json_as_object_def res_bind_Inr_iff)
  have "extends x s'" if "extends x s" for x
    using that s' extends_add [OF that] by (auto simp: add_def split: if_splits)
  with keep s j' j(2) show ?thesis
    by (fastforce simp: keeps_sections_def json_hasKey_def smap_find_put smap_wf_put)
qed


lemma merge_entries_keeps:
  "keeps_sections ms j \<Longrightarrow> json_hasKey base j \<Longrightarrow> keeps_sections ms (merge_entries base es j)"
proof (induction base es j rule: merge_entries.induct)
  case (2 base e es j)
  then show ?case
    using merge_entry_keeps [of ms j base "fst e" "snd e"] by (auto split: sum.split)
qed simp

lemma merge_file_keeps:
  assumes "keeps_sections ms j"
  shows "keeps_sections ms (merge_file env path j)"
proof (cases "json_hasKey (ce_basename env path) j")
  case True
  with assms show ?thesis
    by (auto simp: merge_file_def Let_def merge_entries_keeps split: prod.split option.split json.split)
next
  case False
  obtain ms' where j: "j = JObject ms'" "smap_wf ms'" using assms by (auto simp: keeps_sections_def)
  then have eq: "merge_file env path j = JObject (smap_put (ce_basename env path) (snd (parseFile env path)) ms')"
    using False by (simp add: merge_file_def json_upd_key_object)
  have "smap_find ms' (ce_basename env path) = None" using False j by (simp add: json_hasKey_def)
  with assms j show ?thesis unfolding eq
    by (fastforce simp: keeps_sections_def smap_wf_put smap_find_put)
qed

lemma fold_merge_keeps: "keeps_sections ms j \<Longrightarrow> keeps_sections ms (fold (merge_file env) paths j)"
  by (induction paths arbitrary: j) (auto simp: merge_file_keeps)

lemma extends_refl: "json_wf v \<Longrightarrow> extends v v"
  by (cases v) (auto simp: extends_def)

text \<open>
  C31: the settings of the top-level file take precedence. Whatever the files of the configuration directory hold,
  and whichever of them fail to parse, every section of the top-level file is still there, every setting in it
  reads as the top-level file has it, and a section that is no object is untouched.
\<close>

theorem config_top_level_wins:
  assumes "parseFile env path = (None, JObject ms)" and "json_wf (JObject ms)"
    and "config_load env path = (None, cfg)"
  shows "keeps_sections ms cfg"
proof -
  have "keeps_sections ms (JObject ms)"
    using assms(2) json_wf_find [OF assms(2)] extends_refl by (auto simp: keeps_sections_def)
  from fold_merge_keeps [OF this] assms(1,3) show ?thesis
    by (auto simp: config_load_def split: sum.splits)
qed

text \<open>
  A configuration file that cannot be read is reported once. The cache entry was made before the file was
  read, so the next construction with the same name, in the same process, succeeds with a configuration
  that has no settings: every string reads as empty and every default applies.
\<close>

theorem config_failure_cached:
  assumes "cache path = None" and "ce_slurp env path = Inl e" and "ConfigFile env path cache = (res, cache')"
  shows "res = Inl e \<and> ConfigFile env path cache' = (Inr JUndef, cache')
    \<and> get_string key JUndef = Inr [] \<and> get_int_default key dflt JUndef = Inr dflt"
  using assms by (auto simp: ConfigFile_def config_load_def parseFile_def get_string_def get_int_default_def json_hasKey_def)

text \<open>A file system with one configuration file and two files in the directory, one for a section that exists.\<close>

definition demo_cfg_lib :: "string json_lib" where
  "demo_cfg_lib = demo_io_lib\<lparr>yajl_lex := (\<lambda>t.
     if t = ''top'' then (generate demo_io_lib (JObject [(''gearman'', JObject [(''port'', JInt 7)])]), None)
     else if t = ''gm'' then (generate demo_io_lib (JObject [(''host'', JString ''h''), (''port'', JInt 1)]), None)
     else ([], Some ''lexical error''))\<rparr>"

definition demo_cfg_env :: "string cfg_env" where
  "demo_cfg_env = \<lparr>ce_lib = demo_cfg_lib, ce_statics = FormatMap demo_cfg_lib,
     ce_slurp = (\<lambda>p. if p = ''gb.conf'' then Inr ''top'' else if p = ''gearman'' then Inr ''gm'' else Inr ''bad''),
     ce_left = (\<lambda>_. JUndef), ce_glob = (\<lambda>_. [''gearman'', ''other'']), ce_basename = (\<lambda>p. p), ce_root = ''/etc/gearbox''\<rparr>"

theorem config_top_level_wins_witness:
  "keeps_sections [(''gearman'', JObject [(''port'', JInt 7)])]
     (JObject [(''gearman'', JObject [(''host'', JString ''h''), (''port'', JInt 7)]), (''other'', JUndef :: string json)])"
proof (rule config_top_level_wins)
  show "json_wf (JObject [(''gearman'', JObject [(''port'', JInt 7)])] :: string json)" by (simp add: in_int64_def)
  show "parseFile demo_cfg_env ''gb.conf'' = (None, JObject [(''gearman'', JObject [(''port'', JInt 7)])])"
    by code_simp
  show "config_load demo_cfg_env ''gb.conf'' =
     (None, JObject [(''gearman'', JObject [(''host'', JString ''h''), (''port'', JInt 7)]), (''other'', JUndef)])"
    by code_simp
qed

theorem config_failure_cached_witness:
  "\<exists>cache' :: string config_map. ConfigFile (demo_cfg_env\<lparr>ce_slurp := (\<lambda>_. Inl (StdError ''no file''))\<rparr>) ''x'' cache' = (Inr JUndef, cache')"
proof -
  let ?env = "demo_cfg_env\<lparr>ce_slurp := (\<lambda>_. Inl (StdError ''no file''))\<rparr>"
  obtain res cache' where run: "ConfigFile ?env ''x'' (\<lambda>_. None) = (res, cache')"
    by (cases "ConfigFile ?env ''x'' (\<lambda>_. None)")
  from config_failure_cached [OF _ _ run] show ?thesis by auto
qed

end
