(* ===== verification/GB_JobManager.thy ===== *)
theory GB_JobManager
  imports GB_Job GB_Config GB_Util
begin

text \<open>
  \<^verbatim>\<open>job/JobManager.cc\<close>, first part: the jobs a process may run, the schemas it has loaded, and how a job is made,
  from its name, from a URI, or from the envelope in which it arrived. The state is the manager's members
  and the process-wide statics it shares with all others.
\<close>

section \<open>State and environment\<close>

record 'd jm_world =
  w_cfg :: "'d json"
  w_parent_uri :: string
  w_base_uri :: string
  w_runnable :: "(string, int) smap"
  w_schemadir :: "string option"
  w_schemas :: "(string, 'd schema option) smap"
  w_require_schemas :: bool

text \<open>
  What comes from outside: the file system, the names of the files in the directories that match
  \<^verbatim>\<open>*handlers[._]d\<close>, the compiled-in data directory, the outcome of connecting a gearman client, and the time.
\<close>

record 'd jm_env =
  je_cfg :: "'d cfg_env"
  je_stat :: "string \<Rightarrow> bool"
  je_handler_files :: "string \<Rightarrow> string list"
  je_datadir :: string
  je_gearman :: "string \<Rightarrow> int \<Rightarrow> gb_exn option"
  je_now :: int

definition upd_schemas :: "((string, 'd schema option) smap \<Rightarrow> (string, 'd schema option) smap) \<Rightarrow> 'd jm_world \<Rightarrow> 'd jm_world" where
  "upd_schemas f w = w\<lparr>w_schemas := f (w_schemas w)\<rparr>"

section \<open>Schemas\<close>

text \<open>The directory is looked up once, with the configuration of the first caller.\<close>

definition schemadir :: "'d jm_env \<Rightarrow> ('d jm_world, gb_exn, string) sx" where
  "schemadir env = (\<lambda>w. case w_schemadir w of
     Some d \<Rightarrow> (Inr d, w)
   | None \<Rightarrow> (case get_path_default (ce_root (je_cfg env)) ''schemadir'' (je_datadir env) (w_cfg w) of
        Inl e \<Rightarrow> (Inl e, w)
      | Inr d \<Rightarrow> (Inr d, w\<lparr>w_schemadir := Some d\<rparr>)))"

text \<open>
  \<^verbatim>\<open>Gearbox::getSchema\<close>: the file is read the first time a schema is asked for. The entry is made before the
  file is parsed, and holds what the parse left if it throws.
\<close>

definition load_schema :: "'d jm_env \<Rightarrow> string \<Rightarrow> ('d jm_world, gb_exn, 'd schema option) sx" where
  "load_schema env name =
     sx_bind (schemadir env) (\<lambda>dir.
     let schema = dir @ ''/'' @ name @ ''.js'' in
     sx_then (\<lambda>w.
       if smap_find (w_schemas w) schema \<noteq> None then (Inr (), w)
       else if je_stat env schema then
         (case parseFile (je_cfg env) schema of
            (None, j) \<Rightarrow> (Inr (), upd_schemas (smap_put schema (Some j)) w)
          | (Some e, j) \<Rightarrow> (Inl e, upd_schemas (smap_put schema (Some j)) w))
       else (Inr (), upd_schemas (smap_put schema None) w))
     (sx_get (\<lambda>w. case smap_find (w_schemas w) schema of None \<Rightarrow> None | Some s \<Rightarrow> s)))"

definition schema_missing :: "string \<Rightarrow> gb_exn" where
  "schema_missing name = StdError (''Required schema for job '' @ name @ '' not found!'')"

text \<open>\<^verbatim>\<open>JobManager::getSchema\<close>: the schema of the component, else the global one, else a complaint if one is required.\<close>

definition getSchema :: "'d jm_env \<Rightarrow> job_attrs \<Rightarrow> ('d jm_world, gb_exn, 'd schema option) sx" where
  "getSchema env a =
     sx_bind (load_schema env (j_operation a @ ''-'' @ j_component a @ ''-'' @ j_resource_type a @ ''-'' @ j_version a)) (\<lambda>s.
     case s of
       Some _ \<Rightarrow> sx_return s
     | None \<Rightarrow>
         sx_bind (load_schema env (j_operation a @ ''-global'' @ ''-'' @ j_resource_type a @ ''-'' @ j_version a)) (\<lambda>s.
         case s of
           Some _ \<Rightarrow> sx_return s
         | None \<Rightarrow>
             sx_bind (\<lambda>w. (get_int_default ''require_schemas'' (- 1) (w_cfg w), w)) (\<lambda>needed64.
             let needed = wrap_s32 needed64 in
             sx_bind (sx_get w_require_schemas) (\<lambda>global.
             if (needed = - 1 \<and> global) \<or> needed = 1 then sx_throw (schema_missing (j_name a))
             else sx_return None))))"

definition requireSchemas :: "bool \<Rightarrow> 'd jm_world \<Rightarrow> 'd jm_world" where
  "requireSchemas b w = w\<lparr>w_require_schemas := b\<rparr>"

section \<open>Runnable jobs\<close>

text \<open>\<^verbatim>\<open>runnable_jobs[name]\<close> makes a zero entry where there is none.\<close>

definition runnable :: "string \<Rightarrow> ('d jm_world, gb_exn, int) sx" where
  "runnable name = (\<lambda>w. case smap_find (w_runnable w) name of
     Some v \<Rightarrow> (Inr v, w)
   | None \<Rightarrow> (Inr 0, w\<lparr>w_runnable := smap_put name 0 (w_runnable w)\<rparr>))"

definition enable :: "string \<Rightarrow> ('d jm_world, gb_exn, unit) sx" where
  "enable name = sx_modify (\<lambda>w. w\<lparr>w_runnable := smap_put name 1 (w_runnable w)\<rparr>)"

text \<open>A file name counts as a job name if it contains \<^verbatim>\<open>do_\<close> anywhere.\<close>

definition handler_file :: "string \<Rightarrow> bool" where
  "handler_file f = (case str_find ''do_'' f of
     None \<Rightarrow> False
   | Some s \<Rightarrow> str_find_if_from is_underscore s f \<noteq> None)"

definition enable_from_file :: "'d jm_env \<Rightarrow> string \<Rightarrow> ('d jm_world, gb_exn, unit) sx" where
  "enable_from_file env path = (case parseFile (je_cfg env) path of
     (Some e, _) \<Rightarrow> sx_throw e
   | (None, hcfg) \<Rightarrow>
       sx_bind (sx_lift (res_bind (json_ref_key [] ''handlers'' hcfg) (json_get [] ''handlers''))) (\<lambda>hs.
       each_string ''handlers'' 0 (array_elems hs) enable))"

definition build_runnable_jobs :: "'d jm_env \<Rightarrow> ('d jm_world, gb_exn, unit) sx" where
  "build_runnable_jobs env =
     sx_bind (\<lambda>w. (get_string ''handlers_file'' (w_cfg w), w)) (\<lambda>job_file.
     sx_then (sx_when (job_file \<noteq> []) (enable_from_file env job_file))
     (sx_bind (\<lambda>w. (get_string2_default ''gearbox'' ''conf'' (ce_root (je_cfg env)) (w_cfg w), w)) (\<lambda>confdir.
      sx_mapM (\<lambda>f. sx_when (handler_file f) (enable f)) (je_handler_files env confdir))))"

definition known_job_name :: "'d jm_env \<Rightarrow> string \<Rightarrow> ('d jm_world, gb_exn, bool) sx" where
  "known_job_name env name =
     sx_bind (\<lambda>w. (get_int_default ''allow_unknown_jobs'' 0 (w_cfg w), w)) (\<lambda>allow.
     if allow \<noteq> 0 then sx_return True
     else sx_bind (runnable name) (\<lambda>r.
          sx_then (sx_when (r = 0) (build_runnable_jobs env))
          (sx_bind (runnable name) (\<lambda>r. sx_return (r \<noteq> 0)))))"

section \<open>Making a job\<close>

text \<open>\<^verbatim>\<open>GearmanJobImpl::GearmanJobImpl\<close>: the connection parameters, then a connected client.\<close>

definition new_gearman_job :: "'d jm_env \<Rightarrow> ('d jm_world, gb_exn, job_attrs) sx" where
  "new_gearman_job env =
     sx_bind (\<lambda>w. (get_string2_default ''gearman'' ''host'' ''localhost'' (w_cfg w), w)) (\<lambda>host.
     sx_bind (\<lambda>w. (get_int2_default ''gearman'' ''port'' 4730 (w_cfg w), w)) (\<lambda>port.
     case je_gearman env host (wrap_s32 port) of
       Some e \<Rightarrow> sx_throw e
     | None \<Rightarrow> sx_return new_job_attrs))"

definition no_such_job :: "string \<Rightarrow> gb_exn" where
  "no_such_job name = StdError (''No such job '' @ [CHR 0x27] @ name @ [CHR 0x27] @ '' enabled in config.'')"

text \<open>The attributes are local until the job is returned; only the manager's state outlives a throw.\<close>

definition on_attrs :: "(job_attrs, gb_exn, unit) sx \<Rightarrow> job_attrs \<Rightarrow> gb_exn + job_attrs" where
  "on_attrs m a = (case m a of (Inl e, _) \<Rightarrow> Inl e | (Inr _, a') \<Rightarrow> Inr a')"

definition job_named :: "'d jm_env \<Rightarrow> string \<Rightarrow> ('d jm_world, gb_exn, 'd job) sx" where
  "job_named env name =
     sx_bind (known_job_name env name) (\<lambda>known.
     if \<not> known then sx_throw (no_such_job name)
     else sx_bind (new_gearman_job env) (\<lambda>a.
          sx_bind (sx_get (\<lambda>w. a\<lparr>j_base_uri := w_base_uri w, j_parent_uri := w_parent_uri w\<rparr>)) (\<lambda>a.
          sx_bind (sx_lift (on_attrs (set_job_name name) a)) (\<lambda>a. sx_return (Job a [] None)))))"

definition job_uri :: "http_method \<Rightarrow> uri \<Rightarrow> ('d jm_world, gb_exn, 'd job) sx" where
  "job_uri m uri =
     sx_bind (sx_get (\<lambda>w. new_job_attrs\<lparr>j_base_uri := w_base_uri w, j_parent_uri := w_parent_uri w, j_method := m\<rparr>)) (\<lambda>a.
     sx_bind (sx_lift (uri_canonical uri)) (\<lambda>name.
     sx_bind (sx_lift (on_attrs (set_job_name name) a)) (\<lambda>a. sx_return (Job a [] None))))"

section \<open>Reading an envelope\<close>

definition envelope_type :: "'d json \<Rightarrow> (job_attrs, gb_exn, unit) sx" where
  "envelope_type d = when_string ''job_type'' d (\<lambda>t.
     if t = ''sync'' then sx_modify (\<lambda>a. a\<lparr>j_type := JOB_SYNC\<rparr>)
     else if t = ''async'' then sx_modify (\<lambda>a. a\<lparr>j_type := JOB_ASYNC\<rparr>)
     else sx_throw (StdError ''job envelope does not contain a valid job_type''))"

definition envelope_on :: "'d json \<Rightarrow> gb_exn + (string \<times> 'd json) list" where
  "envelope_on d = (if json_hasKey ''on'' d
     then res_bind (json_get [] ''on'' d) (json_as_object [Key ''on'']) else Inr [])"

text \<open>An entry of \<^verbatim>\<open>on\<close>: the name of the handler and its envelope, null if there is none.\<close>

definition handler_parts :: "string \<Rightarrow> 'd json \<Rightarrow> gb_exn + string \<times> 'd json" where
  "handler_parts ev x =
     res_bind (json_ref_key [Key ''on'', Key ev] ''name'' x) (\<lambda>x'.
     res_bind (json_get [] ''name'' x') (\<lambda>n.
     res_bind (json_as_string [Key ''on'', Key ev, Key ''name''] n) (\<lambda>name.
     Inr (name, case x of JObject ms \<Rightarrow> (case smap_find ms ''envelope'' of None \<Rightarrow> JUndef | Some d \<Rightarrow> d) | _ \<Rightarrow> JUndef))))"

text \<open>The attributes read before the base URI, then those read after the schema was looked up.\<close>

definition envelope_head :: "'d json \<Rightarrow> (job_attrs, gb_exn, unit) sx" where
  "envelope_head d =
     sx_then (when_string ''version'' d (\<lambda>v. sx_modify (\<lambda>a. a\<lparr>j_version := v\<rparr>)))
     (sx_then (when_string ''operation'' d (\<lambda>v. sx_modify (set_job_operation v)))
     (sx_then (when_string ''component'' d (\<lambda>v. sx_modify (\<lambda>a. a\<lparr>j_component := v\<rparr>)))
     (sx_then (when_key ''resource'' d (\<lambda>r.
        sx_then (if json_hasKey ''type'' r then sx_bind (sx_lift (res_bind (json_get [Key ''resource''] ''type'' r)
              (json_as_string [Key ''resource'', Key ''type'']))) (\<lambda>v. sx_modify (\<lambda>a. a\<lparr>j_resource_type := v\<rparr>))
           else sx_return ())
          (if json_hasKey ''name'' r then sx_bind (sx_lift (res_bind (json_get [Key ''resource''] ''name'' r)
              (json_as_string [Key ''resource'', Key ''name'']))) (\<lambda>v. sx_modify (\<lambda>a. a\<lparr>j_resource_name := v\<rparr>))
           else sx_return ())))
     (when_string ''parent_uri'' d (\<lambda>v. sx_modify (\<lambda>a. a\<lparr>j_parent_uri := v\<rparr>))))))"

fun each_member :: "string \<Rightarrow> (string \<times> 'd json) list \<Rightarrow> (string \<Rightarrow> string \<Rightarrow> ('s, gb_exn, unit) sx) \<Rightarrow> ('s, gb_exn, unit) sx" where
  "each_member k [] f = sx_return ()"
| "each_member k ((n, v) # es) f =
     sx_then (sx_bind (sx_lift (json_as_string [Key k, Key n] v)) (f n)) (each_member k es f)"

definition when_members :: "string \<Rightarrow> 'd json \<Rightarrow> (string \<Rightarrow> string \<Rightarrow> ('s, gb_exn, unit) sx) \<Rightarrow> ('s, gb_exn, unit) sx" where
  "when_members k d f = when_key k d (\<lambda>v. sx_bind (sx_lift (json_as_object [Key k] v)) (\<lambda>es. each_member k es f))"

definition envelope_tail :: "'d json \<Rightarrow> (job_attrs, gb_exn, unit) sx" where
  "envelope_tail d =
     sx_then (when_string ''content'' d (\<lambda>v. sx_modify (\<lambda>a. a\<lparr>j_content := v\<rparr>)))
     (sx_then (when_members ''headers'' d (\<lambda>n v.
        if n = ''y-status-parent-uri'' then sx_modify (\<lambda>a. a\<lparr>j_parent_uri := v\<rparr>) else sx_modify (add_header n v)))
     (sx_then (when_members ''matrix_arguments'' d (\<lambda>n v. sx_modify (add_matrix_argument n v)))
     (sx_then (when_members ''environ'' d (\<lambda>n v. sx_modify (add_environ n v)))
     (sx_then (when_members ''query_params'' d (\<lambda>n v. sx_modify (add_query_param n v)))
     (when_key ''arguments'' d (\<lambda>v. sx_bind (sx_lift (json_as_array [Key ''arguments''] v)) (\<lambda>es.
        each_string ''arguments'' 0 es (\<lambda>v. sx_modify (add_argument v)))))))))"

definition envelope_event_status :: "'d jm_env \<Rightarrow> 'd json \<Rightarrow> ('d jm_world, gb_exn, 'd status option) sx" where
  "envelope_event_status env d =
     (if json_hasKey ''event_status'' d then
        sx_bind (\<lambda>w. (get_string2_default ''status'' ''persistence_type'' ''sql'' (w_cfg w), w)) (\<lambda>_.
        sx_lift (res_bind (json_get [] ''event_status'' d) (\<lambda>v. res_bind (fetch_json (je_now env) v) (\<lambda>s. Inr (Some s)))))
      else sx_return None)"

text \<open>Name, type: what is read before the handlers.\<close>

definition envelope_start :: "'d jm_env \<Rightarrow> string \<Rightarrow> 'd json \<Rightarrow> ('d jm_world, gb_exn, job_attrs) sx" where
  "envelope_start env name d =
     sx_then (known_job_name env name)
     (sx_bind (new_gearman_job env) (\<lambda>a.
      sx_lift (res_bind (on_attrs (set_job_name name) a) (on_attrs (envelope_type d)))))"

text \<open>The base URI of the envelope also becomes the base URI of the manager.\<close>

definition envelope_rest :: "'d jm_env \<Rightarrow> 'd json \<Rightarrow> job_attrs \<Rightarrow> (job_event \<times> 'd job option) list \<Rightarrow> ('d jm_world, gb_exn, 'd job) sx" where
  "envelope_rest env d a hs =
     sx_bind (sx_lift (on_attrs (envelope_head d) a)) (\<lambda>a.
     sx_bind (if json_hasKey ''base_uri'' d then
          sx_bind (sx_lift (res_bind (json_get [] ''base_uri'' d) (json_as_string [Key ''base_uri'']))) (\<lambda>b.
          sx_then (sx_modify (\<lambda>w. w\<lparr>w_base_uri := b\<rparr>)) (sx_return (a\<lparr>j_base_uri := b\<rparr>)))
        else sx_return a) (\<lambda>a.
     sx_bind (sx_lift (on_attrs (when_string ''status'' d (\<lambda>v. sx_modify (\<lambda>a. a\<lparr>j_status := v\<rparr>))) a)) (\<lambda>a.
     sx_then (getSchema env a)
     (sx_bind (sx_lift (on_attrs (envelope_tail d) a)) (\<lambda>a.
      sx_bind (envelope_event_status env d) (\<lambda>es. sx_return (Job a hs es)))))))"

lemma envelope_on_size [termination_simp]:
  "envelope_on d = Inr es \<Longrightarrow> size_list (size_prod (\<lambda>_. 0) size) es < Suc (size d)"
  by (cases d) (auto simp: envelope_on_def json_hasKey_def json_get_def json_as_object_def res_bind_def assertType_def
      handleError_def split: if_splits option.splits json.splits dest: smap_find_size)

lemma handler_parts_size [termination_simp]:
  "handler_parts ev x = Inr (n, d) \<Longrightarrow> size d < Suc (size x)"
  by (cases x) (auto simp: handler_parts_def res_bind_def split: sum.splits option.splits dest: smap_find_size)

function job_of_envelope :: "'d jm_env \<Rightarrow> string \<Rightarrow> 'd json \<Rightarrow> ('d jm_world, gb_exn, 'd job) sx"
  and job_handlers :: "'d jm_env \<Rightarrow> (string \<times> 'd json) list \<Rightarrow> (job_event \<times> 'd job option) list
      \<Rightarrow> ('d jm_world, gb_exn, (job_event \<times> 'd job option) list) sx" where
  "job_of_envelope env name d w = (case envelope_start env name d w of
     (Inl e, w1) \<Rightarrow> (Inl e, w1)
   | (Inr a, w1) \<Rightarrow> (case envelope_on d of
        Inl e \<Rightarrow> (Inl e, w1)
      | Inr es \<Rightarrow> (case job_handlers env es [] w1 of
           (Inl e, w2) \<Rightarrow> (Inl e, w2)
         | (Inr hs, w2) \<Rightarrow> envelope_rest env d a hs w2)))"
| "job_handlers env [] hs w = (Inr hs, w)"
| "job_handlers env ((ev, x) # es) hs w = (case handler_parts ev x of
     Inl e \<Rightarrow> (Inl e, w)
   | Inr (n, d) \<Rightarrow> (case job_of_envelope env n d w of
        (Inl e, w1) \<Rightarrow> (Inl e, w1)
      | (Inr h, w1) \<Rightarrow> job_handlers env es (smap_put (job_str2event ev) (Some h) hs) w1))"
  by pat_completeness auto

termination
  by (relation "measure (\<lambda>x. case x of
        Inl (_, _, d, _) \<Rightarrow> Suc (2 * size d)
      | Inr (_, es, _, _) \<Rightarrow> 2 * size_list (size_prod (\<lambda>_. 0) size) es)")
    (auto dest!: envelope_on_size handler_parts_size)

text \<open>\<^verbatim>\<open>JobManager::job(name, envelope)\<close> from text: checked against the schema of envelopes first.\<close>

definition job_of_text :: "'d jm_env \<Rightarrow> string \<Rightarrow> string \<Rightarrow> ('d jm_world, gb_exn, 'd job) sx" where
  "job_of_text env name envelope =
     sx_bind (load_schema env ''job-envelope'') (\<lambda>sch.
     sx_bind (sx_lift (parse_text (ce_lib (je_cfg env)) (ce_statics (je_cfg env)) sch envelope))
       (job_of_envelope env name))"

text \<open>
  A schema file that does not parse is reported once. The entry of the cache is made before the file is parsed
  and stays when the parse throws, so the next caller that asks for the schema gets whatever the parse had left,
  as if it had been read, and no error.
\<close>

theorem schema_failure_cached:
  assumes "w_schemadir w = Some dir" and "smap_find (w_schemas w) (dir @ ''/'' @ name @ ''.js'') = None"
    and "je_stat env (dir @ ''/'' @ name @ ''.js'')"
    and "parseFile (je_cfg env) (dir @ ''/'' @ name @ ''.js'') = (Some e, j)"
    and "load_schema env name w = (r, w')"
  shows "r = Inl e \<and> load_schema env name w' = (Inr (Some j), w')"
  using assms by (auto simp: load_schema_def schemadir_def upd_schemas_def sx_defs Let_def smap_find_put)

definition demo_jm_env :: "string jm_env" where
  "demo_jm_env = \<lparr>je_cfg = \<lparr>ce_lib = wire_lib, ce_statics = FormatMap wire_lib,
     ce_slurp = (\<lambda>_. Inl (StdError ''no file'')), ce_left = (\<lambda>_. JUndef), ce_glob = (\<lambda>_. []), ce_basename = id, ce_root = ''/r''\<rparr>,
     je_stat = (\<lambda>_. False), je_handler_files = (\<lambda>_. []), je_datadir = ''/d'', je_gearman = (\<lambda>_ _. None), je_now = 7\<rparr>"

definition demo_jm_world :: "string jm_world" where
  "demo_jm_world = \<lparr>w_cfg = JObject [(''allow_unknown_jobs'', JInt 1)], w_parent_uri = [], w_base_uri = [], w_runnable = [],
     w_schemadir = None, w_schemas = [], w_require_schemas = False\<rparr>"

theorem schema_failure_cached_witness:
  "\<exists>w'. load_schema \<lparr>je_cfg = demo_cfg_env\<lparr>ce_slurp := (\<lambda>_. Inl (StdError ''unreadable''))\<rparr>, je_stat = (\<lambda>_. True),
       je_handler_files = (\<lambda>_. []), je_datadir = [], je_gearman = (\<lambda>_ _. None), je_now = 7\<rparr> ''job-envelope'' w' = (Inr (Some JUndef), w')"
proof -
  let ?env = "\<lparr>je_cfg = demo_cfg_env\<lparr>ce_slurp := (\<lambda>_. Inl (StdError ''unreadable''))\<rparr>, je_stat = (\<lambda>_. True),
     je_handler_files = (\<lambda>_. []), je_datadir = [], je_gearman = (\<lambda>_ _. None), je_now = 7\<rparr>"
  let ?w = "\<lparr>w_cfg = JObject [], w_parent_uri = [], w_base_uri = [], w_runnable = [], w_schemadir = Some ''/d'', w_schemas = [],
     w_require_schemas = False\<rparr>"
  obtain r w' where run: "load_schema ?env ''job-envelope'' ?w = (r, w')" by (cases "load_schema ?env ''job-envelope'' ?w")
  have "parseFile (je_cfg ?env) (''/d'' @ ''/'' @ ''job-envelope'' @ ''.js'') = (Some (StdError ''unreadable''), JUndef)"
    by (simp add: parseFile_def)
  from schema_failure_cached [OF _ _ _ this run] show ?thesis by (auto simp: smap.find_emp)
qed

end
