(* ===== verification/GB_Envelope.thy ===== *)
theory GB_Envelope
  imports GB_JobManager
begin

text \<open>
  A job sent and received: what \<^verbatim>\<open>JobImpl::to_json\<close> writes, \<^verbatim>\<open>JobManager::job(name, envelope)\<close> reads back, handlers
  and the status of the event included.
\<close>

section \<open>Documents that survive as text\<close>

lemma text_safe_put:
  assumes "text_safe lib (JObject m)" and "text_safe lib v"
  shows "text_safe lib (JObject (smap_put k v m))"
  using assms set_smap_put [of k v m] json_wf_put [of m v k]
  by (fastforce simp: text_safe_def list_all_iff simp del: json_wf.simps)

lemma text_safe_simps [simp]:
  "text_safe lib (JString t)" "text_safe lib (JObject [])" "text_safe lib JUndef"
  "text_safe lib (JInt i) \<longleftrightarrow> in_int64 i"
  "text_safe lib (JArray vs) \<longleftrightarrow> list_all (text_safe lib) vs"
  by (auto simp: text_safe_def list_all_iff)

lemma text_safe_put_when:
  assumes "text_safe lib (JObject m)" and "b \<Longrightarrow> text_safe lib v"
  shows "text_safe lib (JObject (put_when b k v m))"
  using assms by (simp add: put_when_def text_safe_put)

lemma text_safe_strings: "smap_wf h \<Longrightarrow> text_safe lib (JObject (map (apsnd JString) h))"
  by (auto simp: text_safe_def list_all_iff smap_wf_def comp_def)

lemma text_safe_find: "text_safe lib (JObject m) \<Longrightarrow> smap_wf m"
  by (simp add: text_safe_def)

section \<open>Writing the attributes\<close>

lemma set_in_new:
  assumes "smap_wf m" and "smap_find m k = None"
  shows "set_in k k2 v (JObject m) = Inr (JObject (smap_put k (JObject [(k2, JString v)]) m))"
  using assms
  by (simp add: set_in_def json_upd_key_def json_ref_key_def json_addKey_def json_as_object_def smap_insert_def
      smap_find_put smap.put_put)
    (simp add: smap_find_def smap.put_put)

lemma set_in_old:
  assumes "smap_wf m" and "smap_wf ms" and "smap_find m k = Some (JObject ms)"
  shows "set_in k k2 v (JObject m) = Inr (JObject (smap_put k (JObject (smap_put k2 (JString v) ms)) m))"
  using assms json_upd_key_present [of m k "JObject ms" "json_upd_key [Key k] k2 (\<lambda>_. Inr (JString v))"]
  by (simp add: set_in_def json_upd_key_object)

lemma put_members_spec:
  assumes "smap_wf m" and "smap_wf ms" and "smap_find m k = Some (JObject ms)"
  shows "put_members k h (JObject m)
    = Inr (JObject (smap_put k (JObject (fold (\<lambda>(n, v). smap_put n (JString v)) h ms)) m))"
  using assms
proof (induction h arbitrary: m ms)
  case Nil
  then show ?case using smap.put_idem [of m k] by simp
next
  case (Cons e h)
  have "json_upd_key [] k (json_upd_key [Key k] (fst e) (\<lambda>_. Inr (JString (snd e)))) (JObject m)
      = Inr (JObject (smap_put k (JObject (smap_put (fst e) (JString (snd e)) ms)) m))"
    using set_in_old [OF Cons.prems, of "fst e" "snd e"] by (simp add: set_in_def)
  with Cons.IH [of "smap_put k (JObject (smap_put (fst e) (JString (snd e)) ms)) m" "smap_put (fst e) (JString (snd e)) ms"]
    Cons.prems show ?case
    by (simp add: smap_wf_put smap_find_put smap.put_put split_beta)
qed

lemma fold_put_strings:
  assumes "smap_wf h"
  shows "fold (\<lambda>(n, v). smap_put n (JString v)) h [] = (map (apsnd JString) h :: (string, 'd json) smap)"
proof -
  have "fold (\<lambda>(n, v). smap_put n (JString v)) h m = fold (\<lambda>(n, v). smap_put n v) (map (apsnd JString) h) m"
    for m :: "(string, 'd json) smap"
    by (induction h arbitrary: m) auto
  moreover have "smap_wf (map (apsnd JString) h :: (string, 'd json) smap)" using assms by (simp add: smap_wf_def comp_def)
  ultimately show ?thesis using smap.rebuild by metis
qed

lemma put_hash:
  assumes "smap_wf m" and "smap_wf h"
  shows "put_members k h (JObject (smap_put k (JObject []) m)) = Inr (JObject (smap_put k (JObject (map (apsnd JString) h)) m))"
  using put_members_spec [of "smap_put k (JObject []) m" "[]" k h] assms(1)
  by (simp add: smap_wf_put smap_find_put smap.put_put fold_put_strings [OF assms(2)])

definition hashes_ok :: "job_attrs \<Rightarrow> bool" where
  "hashes_ok a \<longleftrightarrow> smap_wf (j_matrix_arguments a) \<and> smap_wf (j_headers a) \<and> smap_wf (j_environ a) \<and> smap_wf (j_query_params a)"

definition resource_members :: "job_attrs \<Rightarrow> (string, 'd json) smap" where
  "resource_members a = put_when (j_resource_name a \<noteq> []) ''name'' (JString (j_resource_name a)) [(''type'', JString (j_resource_type a))]"

definition remote_members :: "job_attrs \<Rightarrow> (string, 'd json) smap" where
  "remote_members a = put_when (j_remote_user a \<noteq> []) ''user'' (JString (j_remote_user a))
     (put_when (j_remote_ip a \<noteq> []) ''ip'' (JString (j_remote_ip a)) [])"

definition attr_members :: "job_attrs \<Rightarrow> (string, 'd json) smap" where
  "attr_members a =
     smap_put ''query_params'' (JObject (map (apsnd JString) (j_query_params a)))
     (smap_put ''environ'' (JObject (map (apsnd JString) (j_environ a)))
     (smap_put ''headers'' (JObject (map (apsnd JString) (j_headers a)))
     (smap_put ''matrix_arguments'' (JObject (map (apsnd JString) (j_matrix_arguments a)))
     (smap_put ''arguments'' (JArray (map JString (j_arguments a)))
     (put_when (j_status a \<noteq> []) ''status'' (JString (j_status a))
     (put_when (j_parent_uri a \<noteq> []) ''parent_uri'' (JString (j_parent_uri a))
     (put_when (j_base_uri a \<noteq> []) ''base_uri'' (JString (j_base_uri a))
     (put_when (j_remote_ip a \<noteq> [] \<or> j_remote_user a \<noteq> []) ''remote'' (JObject (remote_members a))
     (smap_put ''resource'' (JObject (resource_members a))
     (smap_put ''component'' (JString (j_component a))
     (smap_put ''operation'' (JString (j_operation a))
     (smap_put ''job_type'' (JString (if j_type a = JOB_SYNC then ''sync'' else ''async''))
     (smap_put ''version'' (JString (j_version a)) [])))))))))))))"

lemma put_resource:
  assumes "smap_wf m" and "smap_find m ''resource'' = None"
  shows "res_seq (set_in ''resource'' ''type'' (j_resource_type a)
      # res_when (j_resource_name a \<noteq> []) (set_in ''resource'' ''name'' (j_resource_name a)) # fs) (JObject m)
    = res_seq fs (JObject (smap_put ''resource'' (JObject (resource_members a)) m))"
  using assms set_in_new [OF assms] set_in_old [of "smap_put ''resource'' (JObject [(''type'', JString (j_resource_type a))]) m"
      "[(''type'', JString (j_resource_type a))]" "''resource''" "''name''" "j_resource_name a"]
  by (simp add: resource_members_def put_when_def res_when_def smap_wf_put smap_find_put smap.put_put del: smap_put.simps)

lemma put_remote:
  assumes "smap_wf m" and "smap_find m ''remote'' = None"
  shows "res_seq (res_when (j_remote_ip a \<noteq> []) (set_in ''remote'' ''ip'' (j_remote_ip a))
      # res_when (j_remote_user a \<noteq> []) (set_in ''remote'' ''user'' (j_remote_user a)) # fs) (JObject m)
    = res_seq fs (JObject (put_when (j_remote_ip a \<noteq> [] \<or> j_remote_user a \<noteq> []) ''remote'' (JObject (remote_members a)) m))"
  using assms set_in_new [OF assms] set_in_old [of "smap_put ''remote'' (JObject [(''ip'', JString (j_remote_ip a))]) m"
      "[(''ip'', JString (j_remote_ip a))]" "''remote''" "''user''" "j_remote_user a"]
  by (simp add: remote_members_def put_when_def res_when_def smap_wf_put smap_find_put smap.put_put)

lemma put_attrs_members:
  assumes "hashes_ok a"
  shows "put_attrs a JUndef = Inr (JObject (attr_members a))"
proof -
  have "list_all (\<lambda>m. (Inr (JString m) :: gb_exn + 'd json) = Inr (JString m)) (j_arguments a)"
    by (simp add: list_all_iff)
  note args = put_strings [OF _ this]
  have first: "res_seq (json_set k v # fs) (JUndef :: 'd json) = res_seq fs (JObject (smap_put k v []))" for k v fs
    by (simp add: json_set_first)
  have step: "smap_wf m \<Longrightarrow> res_seq (json_set k v # fs) (JObject m) = res_seq fs (JObject (smap_put k v m))" for m k fs and v :: "'d json"
    by (simp add: json_set_object)
  have cond: "smap_wf m \<Longrightarrow> res_seq (res_when b (json_set k v) # fs) (JObject m) = res_seq fs (JObject (put_when b k v m))"
    for m k fs b and v :: "'d json"
    by (simp add: res_when_set)
  have args: "smap_wf m \<Longrightarrow> res_seq (put_elems k (\<lambda>v. Inr (JString v)) 0 (j_arguments a) # fs) (JObject (smap_put k (JArray []) m))
      = res_seq fs (JObject (smap_put k (JArray (map JString (j_arguments a))) m))" for m k fs
    by (simp add: args)
  have hash: "smap_wf m \<Longrightarrow> smap_wf h \<Longrightarrow> res_seq (put_members k h # fs) (JObject (smap_put k (JObject []) m))
      = res_seq fs (JObject (smap_put k (JObject (map (apsnd JString) h)) (m :: (string, 'd json) smap)))" for m k fs h
    by (simp add: put_hash)
  show ?thesis
    unfolding put_attrs_def attr_members_def using assms
    by (simp add: first step cond args hash put_resource put_remote smap_wf_put smap_find_put smap.find_emp hashes_ok_def
        del: res_seq.simps(2) smap_put.simps)
qed

section \<open>Reading the attributes\<close>

text \<open>The members of a whole envelope: those of the attributes, and those that are there only when needed.\<close>

definition envelope_members ::
    "job_attrs \<Rightarrow> (string, 'd json) smap \<Rightarrow> 'd json option \<Rightarrow> (string, 'd json) smap" where
  "envelope_members a on_ms es =
     put_when (j_content a \<noteq> []) ''content'' (JString (j_content a))
     (put_when (es \<noteq> None) ''event_status'' (the es)
     (put_when (on_ms \<noteq> []) ''on'' (JObject on_ms) (attr_members a)))"

lemma attr_find:
  "smap_find (attr_members a) k =
     (if k = ''query_params'' then Some (JObject (map (apsnd JString) (j_query_params a)))
      else if k = ''environ'' then Some (JObject (map (apsnd JString) (j_environ a)))
      else if k = ''headers'' then Some (JObject (map (apsnd JString) (j_headers a)))
      else if k = ''matrix_arguments'' then Some (JObject (map (apsnd JString) (j_matrix_arguments a)))
      else if k = ''arguments'' then Some (JArray (map JString (j_arguments a)))
      else if j_status a \<noteq> [] \<and> k = ''status'' then Some (JString (j_status a))
      else if j_parent_uri a \<noteq> [] \<and> k = ''parent_uri'' then Some (JString (j_parent_uri a))
      else if j_base_uri a \<noteq> [] \<and> k = ''base_uri'' then Some (JString (j_base_uri a))
      else if (j_remote_ip a \<noteq> [] \<or> j_remote_user a \<noteq> []) \<and> k = ''remote'' then Some (JObject (remote_members a))
      else if k = ''resource'' then Some (JObject (resource_members a))
      else if k = ''component'' then Some (JString (j_component a))
      else if k = ''operation'' then Some (JString (j_operation a))
      else if k = ''job_type'' then Some (JString (if j_type a = JOB_SYNC then ''sync'' else ''async''))
      else if k = ''version'' then Some (JString (j_version a)) else None)"
  unfolding attr_members_def by (simp only: smap_find_put put_when_simps smap.find_emp)

lemma envelope_find:
  "smap_find (envelope_members a on_ms es) k =
     (if j_content a \<noteq> [] \<and> k = ''content'' then Some (JString (j_content a))
      else if es \<noteq> None \<and> k = ''event_status'' then es
      else if on_ms \<noteq> [] \<and> k = ''on'' then Some (JObject on_ms)
      else smap_find (attr_members a) k)"
  unfolding envelope_members_def by (cases es) (simp_all only: put_when_simps option.sel option.simps simp_thms if_False)

lemma read_type:
  "on_attrs (envelope_type (JObject (envelope_members a on_ms es))) x
     = Inr (x\<lparr>j_type := (if j_type a = JOB_SYNC then JOB_SYNC else JOB_ASYNC)\<rparr>)"
  by (simp add: envelope_type_def when_string_simps envelope_find attr_find on_attrs_def sx_defs)

lemma resource_find:
  "smap_find (resource_members a) ''type'' = Some (JString (j_resource_type a))"
  "smap_find (resource_members a) ''name'' = (if j_resource_name a \<noteq> [] then Some (JString (j_resource_name a)) else None)"
  by (simp_all add: resource_members_def) (simp_all add: smap_find_def)

lemma read_head:
  "on_attrs (envelope_head (JObject (envelope_members a on_ms es))) x
     = Inr ((set_job_operation (j_operation a) x)\<lparr>j_version := j_version a, j_component := j_component a,
         j_resource_type := j_resource_type a,
         j_resource_name := (if j_resource_name a \<noteq> [] then j_resource_name a else j_resource_name x),
         j_parent_uri := (if j_parent_uri a \<noteq> [] then j_parent_uri a else j_parent_uri x)\<rparr>)"
proof -
  let ?d = "JObject (envelope_members a on_ms es)"
  have strs: "when_string ''version'' ?d f = f (j_version a)" "when_string ''operation'' ?d f = f (j_operation a)"
      "when_string ''component'' ?d f = f (j_component a)"
      "when_string ''parent_uri'' ?d f = (if j_parent_uri a = [] then sx_return () else f (j_parent_uri a))"
      "when_key ''resource'' ?d g = g (JObject (resource_members a))" for f g
    by (simp_all add: when_string_simps when_key_simps envelope_find attr_find)
  show ?thesis
    unfolding envelope_head_def strs
    by (simp add: sx_defs on_attrs_def json_hasKey_def json_get_def json_as_string_def resource_find set_job_operation_def)
qed

lemma sx_modify_apply: "sx_modify f s = (Inr (), f s)"
  by (simp add: sx_defs)

lemma each_member_modify:
  "each_member k (map (apsnd JString) h) (\<lambda>n v. sx_modify (f n v)) s = (Inr (), fold (\<lambda>(n, v). f n v) h s)"
  by (induction h arbitrary: s) (auto simp: sx_defs json_as_string_def)

lemma each_string_modify:
  "each_string k i (map JString ts) (\<lambda>t. sx_modify (f t)) s = (Inr (), fold f ts s)"
  using each_string_upd [of k i ts f s] by (simp add: upd_def [abs_def])

lemma fold_hash:
  "fold (\<lambda>(n, v). add_header n v) h x = x\<lparr>j_headers := fold (\<lambda>(n, v). smap_put n v) h (j_headers x)\<rparr>"
  "fold (\<lambda>(n, v). add_matrix_argument n v) h x = x\<lparr>j_matrix_arguments := fold (\<lambda>(n, v). smap_put n v) h (j_matrix_arguments x)\<rparr>"
  "fold (\<lambda>(n, v). add_environ n v) h x = x\<lparr>j_environ := fold (\<lambda>(n, v). smap_put n v) h (j_environ x)\<rparr>"
  "fold (\<lambda>(n, v). add_query_param n v) h x = x\<lparr>j_query_params := fold (\<lambda>(n, v). smap_put n v) h (j_query_params x)\<rparr>"
  "fold add_argument ts x = x\<lparr>j_arguments := j_arguments x @ ts\<rparr>"
proof -
  show "fold (\<lambda>(n, v). add_header n v) h x = x\<lparr>j_headers := fold (\<lambda>(n, v). smap_put n v) h (j_headers x)\<rparr>"
    by (induction h arbitrary: x) (auto simp: add_header_def)
  show "fold (\<lambda>(n, v). add_matrix_argument n v) h x = x\<lparr>j_matrix_arguments := fold (\<lambda>(n, v). smap_put n v) h (j_matrix_arguments x)\<rparr>"
    by (induction h arbitrary: x) (auto simp: add_matrix_argument_def)
  show "fold (\<lambda>(n, v). add_environ n v) h x = x\<lparr>j_environ := fold (\<lambda>(n, v). smap_put n v) h (j_environ x)\<rparr>"
    by (induction h arbitrary: x) (auto simp: add_environ_def)
  show "fold (\<lambda>(n, v). add_query_param n v) h x = x\<lparr>j_query_params := fold (\<lambda>(n, v). smap_put n v) h (j_query_params x)\<rparr>"
    by (induction h arbitrary: x) (auto simp: add_query_param_def)
  show "fold add_argument ts x = x\<lparr>j_arguments := j_arguments x @ ts\<rparr>"
    by (induction ts arbitrary: x) (auto simp: add_argument_def)
qed

lemma each_header:
  assumes "smap_find h ''y-status-parent-uri'' = None"
  shows "each_member k (map (apsnd JString) h) (\<lambda>n v.
      if n = ''y-status-parent-uri'' then sx_modify (\<lambda>a. a\<lparr>j_parent_uri := v\<rparr>) else sx_modify (add_header n v)) s
    = (Inr (), fold (\<lambda>(n, v). add_header n v) h s)"
  using assms
  by (induction h arbitrary: s) (auto simp: sx_defs json_as_string_def smap_find_def split: if_splits)

lemma read_tail:
  fixes on_ms :: "(string, 'd json) smap"
  assumes "hashes_ok a" and "smap_find (j_headers a) ''y-status-parent-uri'' = None"
    and "j_headers x = []" "j_matrix_arguments x = []" "j_environ x = []" "j_query_params x = []" "j_arguments x = []"
      "j_content x = []"
  shows "on_attrs (envelope_tail (JObject (envelope_members a on_ms es))) x
     = Inr (x\<lparr>j_content := j_content a, j_headers := j_headers a, j_matrix_arguments := j_matrix_arguments a,
         j_environ := j_environ a, j_query_params := j_query_params a, j_arguments := j_arguments a\<rparr>)"
proof -
  let ?d = "JObject (envelope_members a on_ms es)"
  have keys: "when_string ''content'' ?d f = (if j_content a = [] then sx_return () else f (j_content a))"
      "when_members ''headers'' ?d g = each_member ''headers'' (map (apsnd JString) (j_headers a) :: (string, 'd json) smap) g"
      "when_members ''matrix_arguments'' ?d g = each_member ''matrix_arguments'' (map (apsnd JString) (j_matrix_arguments a) :: (string, 'd json) smap) g"
      "when_members ''environ'' ?d g = each_member ''environ'' (map (apsnd JString) (j_environ a) :: (string, 'd json) smap) g"
      "when_members ''query_params'' ?d g = each_member ''query_params'' (map (apsnd JString) (j_query_params a) :: (string, 'd json) smap) g"
      "when_key ''arguments'' ?d i = i (JArray (map JString (j_arguments a)))" for f g i
    by (simp_all add: when_string_simps when_members_def when_key_simps envelope_find attr_find json_as_object_def)
      (simp_all add: sx_defs)
  have wf: "smap_wf (j_matrix_arguments a)" "smap_wf (j_headers a)" "smap_wf (j_environ a)" "smap_wf (j_query_params a)"
    using assms(1) by (simp_all add: hashes_ok_def)
  from assms(2-) show ?thesis
    unfolding envelope_tail_def keys
    by (auto simp: sx_then_def sx_bind_def sx_return_def sx_lift_def on_attrs_def json_as_array_def each_header
        each_member_modify each_string_modify fold_hash smap.rebuild [OF wf(1)] smap.rebuild [OF wf(2)]
        smap.rebuild [OF wf(3)] smap.rebuild [OF wf(4)] sx_modify_apply intro: job_attrs.equality)
qed

section \<open>A manager that can make jobs\<close>

text \<open>
  The configuration allows the job, the gearman client connects, the schema files that are there parse, and no
  schema is required.
\<close>

definition jm_ok :: "'d jm_env \<Rightarrow> 'd jm_world \<Rightarrow> bool" where
  "jm_ok env w \<longleftrightarrow>
     (\<exists>v. get_int_default ''allow_unknown_jobs'' 0 (w_cfg w) = Inr v \<and> v \<noteq> 0)
     \<and> (\<exists>h p. get_string2_default ''gearman'' ''host'' ''localhost'' (w_cfg w) = Inr h
          \<and> get_int2_default ''gearman'' ''port'' 4730 (w_cfg w) = Inr p \<and> je_gearman env h (wrap_s32 p) = None)
     \<and> (\<exists>t. get_string2_default ''status'' ''persistence_type'' ''sql'' (w_cfg w) = Inr t)
     \<and> (\<exists>d. get_path_default (ce_root (je_cfg env)) ''schemadir'' (je_datadir env) (w_cfg w) = Inr d)
     \<and> (\<forall>p. je_stat env p \<longrightarrow> fst (parseFile (je_cfg env) p) = None)
     \<and> (\<exists>n. get_int_default ''require_schemas'' (- 1) (w_cfg w) = Inr n
          \<and> wrap_s32 n \<noteq> 1 \<and> \<not> (wrap_s32 n = - 1 \<and> w_require_schemas w))"

lemma jm_ok_cong:
  "w_cfg w' = w_cfg w \<Longrightarrow> w_require_schemas w' = w_require_schemas w \<Longrightarrow> jm_ok env w \<Longrightarrow> jm_ok env w'"
  by (simp add: jm_ok_def)

definition same_jm :: "'d jm_world \<Rightarrow> 'd jm_world \<Rightarrow> bool" where
  "same_jm w w' \<longleftrightarrow> w_cfg w' = w_cfg w \<and> w_require_schemas w' = w_require_schemas w
     \<and> w_base_uri w' = w_base_uri w \<and> w_parent_uri w' = w_parent_uri w"

lemma schemadir_ok:
  assumes "jm_ok env w"
  shows "\<exists>d w'. schemadir env w = (Inr d, w') \<and> same_jm w w'"
  using assms by (auto simp: schemadir_def jm_ok_def same_jm_def split: option.split)

lemma load_schema_ok:
  assumes "jm_ok env w"
  shows "\<exists>s w'. load_schema env n w = (Inr s, w') \<and> same_jm w w'"
proof -
  obtain d w1 where 1: "schemadir env w = (Inr d, w1)" "same_jm w w1" using schemadir_ok [OF assms] by blast
  have ok: "je_stat env p \<Longrightarrow> fst (parseFile (je_cfg env) p) = None" for p using assms by (simp add: jm_ok_def)
  show ?thesis
    using 1 ok [of "d @ ''/'' @ n @ ''.js''"]
    by (auto simp: load_schema_def sx_defs Let_def upd_schemas_def same_jm_def split: prod.split option.split)
qed

lemma same_jm_ok: "same_jm w w' \<Longrightarrow> jm_ok env w \<Longrightarrow> jm_ok env w'"
  by (rule jm_ok_cong) (simp_all add: same_jm_def)

lemma getSchema_ok:
  assumes "jm_ok env w"
  shows "\<exists>s w'. getSchema env a w = (Inr s, w') \<and> same_jm w w'"
proof -
  let ?n1 = "j_operation a @ ''-'' @ j_component a @ ''-'' @ j_resource_type a @ ''-'' @ j_version a"
  let ?n2 = "j_operation a @ ''-global'' @ ''-'' @ j_resource_type a @ ''-'' @ j_version a"
  obtain s1 w1 where 1: "load_schema env ?n1 w = (Inr s1, w1)" "same_jm w w1" using load_schema_ok [OF assms] by blast
  note ok1 = same_jm_ok [OF 1(2) assms]
  obtain s2 w2 where 2: "load_schema env ?n2 w1 = (Inr s2, w2)" "same_jm w1 w2" using load_schema_ok [OF ok1] by blast
  have trans: "same_jm w w2" using 1(2) 2(2) by (simp add: same_jm_def)
  obtain n where n: "get_int_default ''require_schemas'' (- 1) (w_cfg w2) = Inr n"
      "\<not> (wrap_s32 n = - 1 \<and> w_require_schemas w2 \<or> wrap_s32 n = 1)"
    using same_jm_ok [OF trans assms] by (auto simp: jm_ok_def)
  show ?thesis
    using 1 2 n trans by (cases s1; cases s2) (auto simp: getSchema_def sx_defs Let_def)
qed

lemma envelope_start_ok:
  assumes "jm_ok env w" and "on_attrs (set_job_name name) new_job_attrs = Inr a"
  shows "envelope_start env name d w = (on_attrs (envelope_type d) a, w)"
  using assms
  by (auto simp: envelope_start_def known_job_name_def new_gearman_job_def sx_defs jm_ok_def)

section \<open>Sending and receiving\<close>

definition attrs_sendable :: "job_attrs \<Rightarrow> bool" where
  "attrs_sendable a \<longleftrightarrow> hashes_ok a \<and> smap_find (j_headers a) ''y-status-parent-uri'' = None
     \<and> j_operation a \<noteq> ''put'' \<and> j_operation a \<noteq> ''post''
     \<and> (\<exists>x. on_attrs (set_job_name (j_name a)) new_job_attrs = Inr x)"

definition status_sendable :: "'d json_lib \<Rightarrow> 'd status option \<Rightarrow> bool" where
  "status_sendable lib es \<longleftrightarrow> (case es of None \<Rightarrow> True
     | Some s \<Rightarrow> (\<exists>base. status_shown base s) \<and> doubles_ok lib (s_meta s))"

lemma handler_size [termination_simp]:
  "(e, Some h) \<in> set hs \<Longrightarrow> size h < Suc (size_list (size_prod (\<lambda>_. 0) (size_option size)) hs + n)"
  by (induction hs) auto

function sendable :: "'d json_lib \<Rightarrow> 'd job \<Rightarrow> bool" where
  "sendable lib (Job a hs es) = (attrs_sendable a \<and> smap_wf hs \<and> status_sendable lib es
     \<and> list_all (\<lambda>(e, h). case h of None \<Rightarrow> True | Some h \<Rightarrow> sendable lib h) hs)"
  by pat_completeness auto

termination
  by (relation "measure (\<lambda>(_, j). size j)") (auto simp: handler_size less_SucI)

text \<open>
  What arrives: the type is synchronous or not, the method, the time-out and the remote address are the
  defaults, a missing base URI is the default one, and null handlers are gone.
\<close>

definition sent_attrs :: "job_attrs \<Rightarrow> job_attrs" where
  "sent_attrs a = a\<lparr>j_type := (if j_type a = JOB_SYNC then JOB_SYNC else JOB_ASYNC), j_method := METHOD_UNKNOWN,
     j_timeout := 600, j_remote_ip := [], j_remote_user := [],
     j_base_uri := (if j_base_uri a = [] then j_base_uri new_job_attrs else j_base_uri a)\<rparr>"

fun live_handlers :: "(job_event \<times> 'd job option) list \<Rightarrow> (job_event \<times> 'd job) list" where
  "live_handlers [] = []"
| "live_handlers ((e, None) # hs) = live_handlers hs"
| "live_handlers ((e, Some h) # hs) = (e, h) # live_handlers hs"

lemma live_handlers_set: "(e, h) \<in> set (live_handlers hs) \<longleftrightarrow> (e, Some h) \<in> set hs"
  by (induction hs rule: live_handlers.induct) auto

function as_sent :: "'d job \<Rightarrow> 'd job" where
  "as_sent (Job a hs es) = Job (sent_attrs a) (map (\<lambda>(e, h). (e, Some (as_sent h))) (live_handlers hs)) (map_option as_shown es)"
  by pat_completeness auto

termination
  by (relation "measure size") (auto simp: live_handlers_set handler_size less_SucI)

section \<open>The handlers\<close>

lemma json_upd_key_absent:
  assumes "smap_wf m" and "smap_find m k = None" and "f JUndef = Inr v"
  shows "json_upd_key path k f (JObject m) = Inr (JObject (smap_put k v m))"
  using assms by (simp add: json_upd_key_def json_ref_key_def json_addKey_def json_as_object_def smap_insert_def
      smap_find_put smap.put_put)

lemma json_upd_key_undef: "json_upd_key path k f JUndef = json_upd_key path k f (JObject [])"
  by (simp add: json_upd_key_def json_ref_key_def smap_find_def)

lemma set_handler_spec:
  assumes "smap_wf m" and "smap_wf ms" and "smap_find ms ev = None"
    and on: "smap_find m ''on'' = (if ms = [] then None else Some (JObject ms))"
  shows "set_handler ev n d (JObject m) =
    Inr (JObject (smap_put ''on'' (JObject (smap_put ev (JObject [(''envelope'', d), (''name'', JString n)]) ms)) m))"
proof -
  let ?f1 = "json_upd_key [Key ''on'', Key ev] ''name'' (\<lambda>_. Inr (JString n))"
  let ?f2 = "json_upd_key [Key ''on'', Key ev] ''envelope'' (\<lambda>_. Inr d)"
  let ?e1 = "JObject [(''name'', JString n)]" and ?e2 = "JObject [(''envelope'', d), (''name'', JString n)]"
  have f1: "?f1 JUndef = Inr ?e1" unfolding json_upd_key_undef by (simp add: json_upd_key_object)
  have f2: "?f2 ?e1 = Inr ?e2" by (simp add: json_upd_key_object)
  have 1: "json_upd_key [Key ''on''] ev ?f1 (JObject ms) = Inr (JObject (smap_put ev ?e1 ms))"
    by (rule json_upd_key_absent [OF assms(2,3)]) (rule f1)
  have "json_upd_key [] ''on'' (json_upd_key [Key ''on''] ev ?f1) (JObject m)
      = Inr (JObject (smap_put ''on'' (JObject (smap_put ev ?e1 ms)) m))"
  proof (cases "ms = []")
    case True
    show ?thesis
      by (rule json_upd_key_absent [OF assms(1)]) (use on True 1 in \<open>simp_all add: json_upd_key_undef\<close>)
  next
    case False
    show ?thesis by (rule json_upd_key_present) (use on False 1 in simp_all)
  qed
  moreover have "json_upd_key [Key ''on''] ev ?f2 (JObject (smap_put ev ?e1 ms)) = Inr (JObject (smap_put ev ?e2 ms))"
    using json_upd_key_present [of "smap_put ev ?e1 ms" ev ?e1 ?f2 ?e2] f2 assms(2) by (simp add: smap_find_put smap.put_put)
  then have "json_upd_key [] ''on'' (json_upd_key [Key ''on''] ev ?f2) (JObject (smap_put ''on'' (JObject (smap_put ev ?e1 ms)) m))
      = Inr (JObject (smap_put ''on'' (JObject (smap_put ev ?e2 ms)) m))"
    using json_upd_key_present [of "smap_put ''on'' (JObject (smap_put ev ?e1 ms)) m" "''on''"
        "JObject (smap_put ev ?e1 ms)" "json_upd_key [Key ''on''] ev ?f2"] assms(1)
    by (simp add: smap_find_put smap.put_put)
  ultimately show ?thesis by (simp add: set_handler_def)
qed

definition handler_entry :: "('d job \<Rightarrow> 'd json) \<Rightarrow> job_event \<times> 'd job \<Rightarrow> string \<times> 'd json" where
  "handler_entry D = (\<lambda>(e, h). (job_event2str e, JObject [(''envelope'', D h), (''name'', JString (j_name (attrs h)))]))"

definition handler_map :: "('d job \<Rightarrow> 'd json) \<Rightarrow> (job_event \<times> 'd job) list \<Rightarrow> (string, 'd json) smap \<Rightarrow> (string, 'd json) smap" where
  "handler_map D hs ms = fold (\<lambda>(k, v). smap_put k v) (map (handler_entry D) hs) ms"

lemma handler_map_not_Nil: "ms \<noteq> [] \<Longrightarrow> handler_map D hs ms \<noteq> []"
proof (induction hs arbitrary: ms)
  case (Cons x hs)
  have "smap_put k v ms \<noteq> []" for k v by (cases "(k, v, ms)" rule: smap_put.cases) auto
  with Cons show ?case by (simp add: handler_map_def split_beta)
qed (simp add: handler_map_def)

lemma job_event2str_eq: "job_event2str a = job_event2str b \<longleftrightarrow> a = b"
  by (rule job_event_text.enc_eq_iff) simp_all

lemma live_handlers_distinct: "smap_wf hs \<Longrightarrow> distinct (map fst (live_handlers hs))"
proof (induction hs rule: live_handlers.induct)
  case (3 e h hs)
  then have "\<forall>h'. (e, Some h') \<notin> set hs" by fastforce
  with 3 show ?case by (auto simp: live_handlers_set)
qed auto

lemma put_handlers_spec:
  assumes "smap_wf m" and "smap_wf ms" and "smap_wf hs"
    and on: "smap_find m ''on'' = (if ms = [] then None else Some (JObject ms))"
    and new: "\<And>e h. (e, h) \<in> set (live_handlers hs) \<Longrightarrow> smap_find ms (job_event2str e) = None"
    and docs: "\<And>e h. (e, h) \<in> set (live_handlers hs) \<Longrightarrow> job_to_json lib st h = Inr (D h)
      \<and> parse_text lib st None (json_serialize lib (D h)) = Inr (D h)"
  shows "put_handlers lib st hs (JObject m) =
    Inr (JObject (let ms' = handler_map D (live_handlers hs) ms in put_when (ms' \<noteq> []) ''on'' (JObject ms') m))"
  using assms
proof (induction hs arbitrary: m ms rule: live_handlers.induct)
  case 1
  then show ?case using smap.put_idem [of m "''on''" "JObject ms"] by (simp add: handler_map_def put_when_def Let_def)
next
  case (2 e hs)
  then show ?case by simp
next
  case (3 e h hs)
  let ?x = "JObject [(''envelope'', D h), (''name'', JString (j_name (attrs h)))]"
  let ?ms = "smap_put (job_event2str e) ?x ms"
  have h: "job_to_json lib st h = Inr (D h)" "parse_text lib st None (json_serialize lib (D h)) = Inr (D h)"
    using 3(7) [of e h] by simp_all
  have none: "smap_find ms (job_event2str e) = None" by (rule 3(6) [of e h]) simp
  have step: "set_handler (job_event2str e) (j_name (attrs h)) (D h) (JObject m) = Inr (JObject (smap_put ''on'' (JObject ?ms) m))"
    by (rule set_handler_spec) (use 3 none in simp_all)
  have ne: "?ms \<noteq> []" by (cases ms) (auto split: if_splits)
  have "put_handlers lib st hs (JObject (smap_put ''on'' (JObject ?ms) m))
      = Inr (JObject (let ms' = handler_map D (live_handlers hs) ?ms in put_when (ms' \<noteq> []) ''on'' (JObject ms') (smap_put ''on'' (JObject ?ms) m)))"
  proof (rule 3(1))
    fix e' h' assume in_hs: "(e', h') \<in> set (live_handlers hs)"
    then have "e' \<noteq> e" using 3(4) by (auto simp: live_handlers_set)
    then show "smap_find ?ms (job_event2str e') = None"
      using 3(6) [of e' h'] in_hs by (simp add: smap_find_put job_event2str_eq)
    show "job_to_json lib st h' = Inr (D h') \<and> parse_text lib st None (json_serialize lib (D h')) = Inr (D h')"
      using 3(7) [of e' h'] in_hs by simp
  qed (use 3(2-5) ne in \<open>simp_all add: smap_wf_put smap_find_put\<close>)
  moreover have "handler_map D (live_handlers hs) ?ms \<noteq> []" by (rule handler_map_not_Nil [OF ne])
  moreover have "handler_map D (live_handlers ((e, Some h) # hs)) ms = handler_map D (live_handlers hs) ?ms"
    by (simp add: handler_map_def handler_entry_def)
  ultimately show ?case using h step 3(2) by (simp add: Let_def put_when_def smap.put_put)
qed

lemma set_fold_put:
  assumes "smap_wf m" and "distinct (map fst kvs)" and "\<And>k v. (k, v) \<in> set kvs \<Longrightarrow> smap_find m k = None"
  shows "set (fold (\<lambda>(k, v). smap_put k v) kvs m) = set m \<union> set kvs"
proof -
  let ?n = "fold (\<lambda>(k, v). smap_put k v) kvs m"
  have wf: "smap_wf ?n" by (rule smap.wf_fold_put [OF assms(1)])
  have "(k, v) \<in> set ?n \<longleftrightarrow> (k, v) \<in> set m \<union> set kvs" for k v
  proof -
    have "(k, v) \<in> set ?n \<longleftrightarrow> smap_find ?n k = Some v"
      using smap.distinct_entries [OF wf] by (simp add: smap_find_def)
    also have "\<dots> \<longleftrightarrow> (case map_of kvs k of Some x \<Rightarrow> x = v | None \<Rightarrow> smap_find m k = Some v)"
      by (simp add: smap.find_fold_put [OF assms(1,2)] split: option.split)
    also have "\<dots> \<longleftrightarrow> (k, v) \<in> set m \<union> set kvs"
      using assms(2,3) smap.distinct_entries [OF assms(1)]
      by (auto simp: smap_find_def map_of_eq_None_iff split: option.split dest: map_of_SomeD)
        (force dest: map_of_SomeD eq_key_imp_eq_value simp: map_of_eq_None_iff)+
    finally show ?thesis .
  qed
  then show ?thesis by auto
qed

text \<open>The received handlers, whatever the order in which their texts are visited.\<close>

definition received :: "(job_event \<times> 'd job) list \<Rightarrow> (job_event \<times> 'd job option) list" where
  "received hs = map (\<lambda>(e, h). (e, Some (as_sent h))) hs"

definition receives :: "'d jm_env \<Rightarrow> ('d job \<Rightarrow> 'd json) \<Rightarrow> 'd job \<Rightarrow> bool" where
  "receives env D h \<longleftrightarrow> (\<forall>w. jm_ok env w \<longrightarrow>
     (\<exists>w'. job_of_envelope env (j_name (attrs h)) (D h) w = (Inr (as_sent h), w') \<and> jm_ok env w'))"

lemma handler_parts_entry:
  "handler_parts ev (JObject [(''envelope'', d), (''name'', JString n)]) = Inr (n, d)"
  by (simp add: handler_parts_def json_ref_key_def json_get_def json_as_string_def smap_find_def)

lemma job_handlers_entries:
  assumes "\<And>e h. (e, h) \<in> set xs \<Longrightarrow> receives env D h" and "jm_ok env w"
  shows "\<exists>w'. job_handlers env (map (handler_entry D) xs) acc w
    = (Inr (fold (\<lambda>(e, h). smap_put e h) (received xs) acc), w') \<and> jm_ok env w'"
  using assms
proof (induction xs arbitrary: acc w)
  case Nil
  then show ?case by (simp add: received_def)
next
  case (Cons x xs)
  obtain e h where x: "x = (e, h)" by (cases x)
  obtain w1 where 1: "job_of_envelope env (j_name (attrs h)) (D h) w = (Inr (as_sent h), w1)" "jm_ok env w1"
    using Cons.prems x unfolding receives_def by fastforce
  have ev: "job_str2event (job_event2str e) = e" using job_event_text.dec_enc [of e] by simp
  from Cons.IH [OF _ 1(2), of "smap_put e (Some (as_sent h)) acc"] Cons.prems(1) obtain w2 where
    "job_handlers env (map (handler_entry D) xs) (smap_put e (Some (as_sent h)) acc) w1
      = (Inr (fold (\<lambda>(e, h). smap_put e h) (received xs) (smap_put e (Some (as_sent h)) acc)), w2)" "jm_ok env w2"
    by fastforce
  with x 1 ev show ?case by (simp add: handler_entry_def handler_parts_entry received_def del: job_of_envelope.simps)
qed

lemma handler_map_order:
  assumes "distinct (map fst hs)"
  shows "\<exists>xs. handler_map D hs [] = map (handler_entry D) xs \<and> set xs = set hs \<and> distinct (map fst xs)"
proof -
  let ?kvs = "map (handler_entry D) hs" and ?n = "handler_map D hs []"
  define unent where "unent = (\<lambda>(k, v :: 'a json). (job_str2event k, the (map_of hs (job_str2event k))))"
  have "map fst ?kvs = map job_event2str (map fst hs)" by (simp add: handler_entry_def split_beta)
  moreover have "inj_on job_event2str (set (map fst hs))" by (simp add: inj_on_def job_event2str_eq)
  ultimately have dist: "distinct (map fst ?kvs)" using assms by (simp only: distinct_map [of job_event2str])
  have set_n: "set ?n = set ?kvs"
    unfolding handler_map_def using set_fold_put [OF _ dist, of "[]"] by (simp add: smap_find_def)
  have unent: "unent (handler_entry D x) = x" if "x \<in> set hs" for x
  proof -
    obtain e h where x: "x = (e, h)" by fastforce
    with that assms have "map_of hs e = Some h" by simp
    then show ?thesis using x job_event_text.dec_enc [of e] by (simp add: handler_entry_def unent_def)
  qed
  have "map (handler_entry D) (map unent ?n) = ?n"
    using set_n unent by (auto simp: o_def intro!: map_idI)
  moreover have "set (map unent ?n) = set hs" using set_n unent by force
  moreover have "distinct (map fst (map unent ?n))"
  proof -
    have "smap_wf ?n" unfolding handler_map_def by (rule smap.wf_fold_put) simp
    then have d: "distinct (map fst ?n)" by (rule smap.distinct_entries)
    have "map fst (map unent ?n) = map job_str2event (map fst ?n)" by (simp add: unent_def split_beta)
    moreover have "inj_on job_str2event (set (map fst ?n))"
      using set_n job_event_text.dec_enc by (fastforce simp: inj_on_def handler_entry_def)
    ultimately show ?thesis using d by (simp only: distinct_map)
  qed
  ultimately show ?thesis by metis
qed

lemma received_order:
  assumes "smap_wf hs" and "set xs = set (live_handlers hs)" and "distinct (map fst xs)"
  shows "fold (\<lambda>(e, h). smap_put e h) (received xs) [] = received (live_handlers hs)"
proof (rule smap_wf_ext)
  have d: "distinct (map fst (live_handlers hs))" by (rule live_handlers_distinct [OF assms(1)])
  have fst_rec: "map fst (received ys) = map fst ys" for ys :: "(job_event \<times> 'a job) list"
    by (simp add: received_def split_beta)
  show "smap_wf (fold (\<lambda>(e, h). smap_put e h) (received xs) [])" by (rule smap.wf_fold_put) simp
  have "sorted_wrt (<) (map fst (live_handlers hs))"
    using assms(1) by (induction hs rule: live_handlers.induct) (auto simp: smap_wf_def live_handlers_set, force)
  then show "smap_wf (received (live_handlers hs))" unfolding smap_wf_def fst_rec .
  have "map_of (received xs) = map_of (received (live_handlers hs))"
    by (subst map_of_inject_set) (simp_all add: fst_rec assms(3) d, simp add: received_def assms(2))
  then show "smap_find (fold (\<lambda>(e, h). smap_put e h) (received xs) []) k = smap_find (received (live_handlers hs)) k" for k
    using smap.find_fold_put [of "[]" "received xs" k] assms(3) fst_rec [of xs]
    by (simp add: smap_find_def split: option.splits)
qed

section \<open>The whole envelope\<close>

lemma attr_members_safe:
  assumes "hashes_ok a"
  shows "text_safe lib (JObject (attr_members a))"
proof -
  have "text_safe lib (JObject (resource_members a))" "text_safe lib (JObject (remote_members a))"
    unfolding resource_members_def remote_members_def
    by (intro text_safe_put_when; simp add: text_safe_def smap_wf_def)+
  with assms show ?thesis
    unfolding attr_members_def
    by (intro text_safe_put text_safe_put_when text_safe_strings) (simp_all add: hashes_ok_def list_all_iff)
qed

lemma status_members_safe:
  assumes "status_shown base s" and "doubles_ok lib (s_meta s)"
  shows "text_safe lib (JObject (status_members s))"
proof -
  have put: "doubles_ok lib (JObject m) \<Longrightarrow> (b \<Longrightarrow> doubles_ok lib v) \<Longrightarrow> doubles_ok lib (JObject (put_when b k v m))" for m b k v
    using set_smap_put [of k v m] by (fastforce simp: put_when_def list_all_iff)
  have put1: "doubles_ok lib (JObject m) \<Longrightarrow> doubles_ok lib v \<Longrightarrow> doubles_ok lib (JObject (smap_put k v m))" for m k v
    using put [of m True v k] by (simp add: put_when_def del: doubles_ok.simps)
  have "doubles_ok lib (json_copy (s_meta s))" using assms by (simp add: status_shown_def json_copy_same)
  moreover have "doubles_ok lib (JObject [])" by simp
  ultimately have "doubles_ok lib (JObject (status_members s))"
    unfolding status_members_def by (intro put put1) (simp_all add: list_all_iff)
  with status_members_wf [OF assms(1)] show ?thesis by (simp add: text_safe_def)
qed

definition status_doc :: "'d status option \<Rightarrow> 'd json option" where
  "status_doc es = map_option (\<lambda>s. JObject (status_members s)) es"

lemma put_event_status_spec:
  assumes "json_text lib" and "status_sendable lib es" and "smap_wf m"
  shows "put_event_status lib st es (JObject m)
    = Inr (JObject (put_when (status_doc es \<noteq> None) ''event_status'' (the (status_doc es)) m))"
proof (cases es)
  case None
  then show ?thesis by (simp add: put_event_status_def status_doc_def put_when_def)
next
  case (Some s)
  with assms(2) obtain base where b: "status_shown base s" "doubles_ok lib (s_meta s)" by (auto simp: status_sendable_def)
  have "parse_text lib st None (json_serialize lib (JObject (status_members s))) = Inr (JObject (status_members s))"
    by (rule json_text.parse_text_serialize [OF assms(1) status_members_safe [OF b]])
  with Some status_to_json_members [OF b(1)] assms(3) show ?thesis
    by (simp add: put_event_status_def status_serialize_def status_doc_def put_when_def json_set_object)
qed

lemma read_event_status:
  assumes "jm_ok env w" and "status_sendable lib es"
  shows "envelope_event_status env (JObject (envelope_members a on_ms (status_doc es))) w = (Inr (map_option as_shown es), w)"
proof (cases es)
  case None
  then show ?thesis
    by (simp add: envelope_event_status_def json_hasKey_def envelope_find attr_find status_doc_def sx_defs)
next
  case (Some s)
  with assms(2) obtain base where "status_shown base s" by (auto simp: status_sendable_def)
  from fetch_json_members [OF this] Some assms(1) show ?thesis
    by (auto simp: envelope_event_status_def json_hasKey_def json_get_def envelope_find status_doc_def sx_defs jm_ok_def)
qed

lemma set_job_name_frame:
  assumes "on_attrs (set_job_name n) x = Inr y"
  shows "\<exists>v op c rt. y = x\<lparr>j_name := n, j_version := v, j_operation := op, j_component := c, j_resource_type := rt\<rparr>"
proof -
  have "\<exists>op'. set_job_operation op z = z\<lparr>j_operation := op'\<rparr>" for op z by (auto simp: set_job_operation_def)
  then obtain g where g: "set_job_operation op z = z\<lparr>j_operation := g op z\<rparr>" for op z by metis
  have "x\<lparr>j_name := n\<rparr> = x\<lparr>j_name := n, j_version := j_version x, j_operation := j_operation x, j_component := j_component x,
      j_resource_type := j_resource_type x\<rparr>" by simp
  then have "\<exists>v op c rt. x\<lparr>j_name := n\<rparr> = x\<lparr>j_name := n, j_version := v, j_operation := op, j_component := c, j_resource_type := rt\<rparr>"
    by blast
  with assms show ?thesis
    by (auto simp: on_attrs_def set_job_name_def set_job_from_name_def sx_defs g split: if_splits option.splits)
qed

lemma read_rest:
  assumes "jm_ok env w" and "attrs_sendable a" and "status_sendable lib es"
    and "on_attrs (set_job_name (j_name a)) new_job_attrs = Inr x"
  shows "\<exists>w'. envelope_rest env (JObject (envelope_members a on_ms (status_doc es)))
      (x\<lparr>j_type := (if j_type a = JOB_SYNC then JOB_SYNC else JOB_ASYNC)\<rparr>) hs w
    = (Inr (Job (sent_attrs a) hs (map_option as_shown es)), w') \<and> jm_ok env w'"
proof -
  let ?d = "JObject (envelope_members a on_ms (status_doc es))"
  let ?t = "if j_type a = JOB_SYNC then JOB_SYNC else JOB_ASYNC"
  obtain v op c rt where x: "x = new_job_attrs\<lparr>j_name := j_name a, j_version := v, j_operation := op, j_component := c,
      j_resource_type := rt\<rparr>" using set_job_name_frame [OF assms(4)] by blast
  define y where "y = new_job_attrs\<lparr>j_name := j_name a, j_version := j_version a, j_operation := j_operation a,
      j_component := j_component a, j_resource_type := j_resource_type a, j_resource_name := j_resource_name a,
      j_parent_uri := j_parent_uri a, j_type := ?t\<rparr>"
  define z where "z = y\<lparr>j_base_uri := (if j_base_uri a = [] then j_base_uri new_job_attrs else j_base_uri a), j_status := j_status a\<rparr>"
  define w1 where "w1 = (if j_base_uri a = [] then w else w\<lparr>w_base_uri := j_base_uri a\<rparr>)"
  have head: "on_attrs (envelope_head ?d) (x\<lparr>j_type := ?t\<rparr>) = Inr y"
    using assms(2) by (simp add: read_head x y_def set_job_operation_def attrs_sendable_def new_job_attrs_def)
  have base: "(if json_hasKey ''base_uri'' ?d then
          sx_bind (sx_lift (res_bind (json_get [] ''base_uri'' ?d) (json_as_string [Key ''base_uri'']))) (\<lambda>b.
          sx_then (sx_modify (\<lambda>w. w\<lparr>w_base_uri := b\<rparr>)) (sx_return (y\<lparr>j_base_uri := b\<rparr>)))
        else sx_return y) w = (Inr (y\<lparr>j_base_uri := j_base_uri z\<rparr>), w1)"
    by (simp add: json_hasKey_def json_get_def json_as_string_def envelope_find attr_find sx_defs w1_def z_def y_def new_job_attrs_def)
  have status: "on_attrs (when_string ''status'' ?d (\<lambda>v. sx_modify (\<lambda>a. a\<lparr>j_status := v\<rparr>))) (y\<lparr>j_base_uri := j_base_uri z\<rparr>) = Inr z"
  proof -
    have "when_string ''status'' ?d f = (if j_status a = [] then sx_return () else f (j_status a))" for f :: "string \<Rightarrow> (job_attrs, gb_exn, unit) sx"
      by (simp add: when_string_simps envelope_find attr_find)
    then show ?thesis by (simp add: on_attrs_def sx_defs z_def y_def new_job_attrs_def)
  qed
  have ok1: "jm_ok env w1" by (rule jm_ok_cong [OF _ _ assms(1)]) (simp_all add: w1_def)
  obtain sc w2 where sc: "getSchema env z w1 = (Inr sc, w2)" "same_jm w1 w2" using getSchema_ok [OF ok1] by blast
  have ok2: "jm_ok env w2" by (rule same_jm_ok [OF sc(2) ok1])
  have tail: "on_attrs (envelope_tail ?d) z = Inr (sent_attrs a)"
    using assms(2) by (simp add: read_tail attrs_sendable_def z_def y_def new_job_attrs_def sent_attrs_def)
  have "envelope_rest env ?d (x\<lparr>j_type := ?t\<rparr>) hs w = (Inr (Job (sent_attrs a) hs (map_option as_shown es)), w2)"
    unfolding envelope_rest_def
    using head base status sc tail read_event_status [OF ok2 assms(3)] by (simp add: sx_bind_def sx_then_def sx_lift_def sx_return_def)
  with ok2 show ?thesis by blast
qed

definition sent_doc :: "'d json_lib \<Rightarrow> schema_statics \<Rightarrow> 'd job \<Rightarrow> 'd json" where
  "sent_doc lib st J = (case job_to_json lib st J of Inr d \<Rightarrow> d | Inl _ \<Rightarrow> JUndef)"

lemma handler_map_safe:
  assumes "\<And>e h. (e, h) \<in> set hs \<Longrightarrow> text_safe lib (D h)" and "text_safe lib (JObject ms)"
  shows "text_safe lib (JObject (handler_map D hs ms))"
  using assms
proof (induction hs arbitrary: ms)
  case (Cons x hs)
  have "text_safe lib (JObject [(''envelope'', D (snd x)), (''name'', JString (j_name (attrs (snd x))))])"
    using Cons.prems(1) [of "fst x" "snd x"] by (simp add: text_safe_def smap_wf_def)
  note put = text_safe_put [OF Cons.prems(2) this, of "job_event2str (fst x)"]
  have "text_safe lib (JObject (handler_map D hs (smap_put (job_event2str (fst x))
      (JObject [(''envelope'', D (snd x)), (''name'', JString (j_name (attrs (snd x))))]) ms)))"
  proof (rule Cons.IH [OF _ put])
    show "text_safe lib (D h)" if "(e, h) \<in> set hs" for e h using Cons.prems(1) [of e h] that by simp
  qed
  then show ?case by (simp add: handler_map_def handler_entry_def split_beta)
qed (simp add: handler_map_def)

lemma job_document:
  assumes "json_text lib" and "attrs_sendable a" and "smap_wf hs" and "status_sendable lib es"
    and docs: "\<And>e h. (e, h) \<in> set (live_handlers hs) \<Longrightarrow> job_to_json lib st h = Inr (D h) \<and> text_safe lib (D h)"
  shows "job_to_json lib st (Job a hs es)
    = Inr (JObject (envelope_members a (handler_map D (live_handlers hs) []) (status_doc es)))"
    "text_safe lib (JObject (envelope_members a (handler_map D (live_handlers hs) []) (status_doc es)))"
proof -
  let ?on = "handler_map D (live_handlers hs) []"
  let ?m = "put_when (?on \<noteq> []) ''on'' (JObject ?on) (attr_members a)"
  have hash: "hashes_ok a" using assms(2) by (simp add: attrs_sendable_def)
  have safe: "text_safe lib (JObject (attr_members a))" by (rule attr_members_safe [OF hash])
  have on: "text_safe lib (JObject ?on)" by (rule handler_map_safe) (use docs in simp_all)
  have safe_m: "text_safe lib (JObject ?m)" using safe on by (intro text_safe_put_when)
  have "put_handlers lib st hs (JObject (attr_members a)) = Inr (JObject ?m)"
    using put_handlers_spec [OF text_safe_find [OF safe] _ assms(3), of "[]" lib st D] docs
      json_text.parse_text_serialize [OF assms(1)]
    by (simp add: attr_find smap.find_emp Let_def)
  moreover have "put_event_status lib st es (JObject ?m)
      = Inr (JObject (put_when (status_doc es \<noteq> None) ''event_status'' (the (status_doc es)) ?m))"
    by (rule put_event_status_spec [OF assms(1,4) text_safe_find [OF safe_m]])
  moreover have doc: "text_safe lib (JObject (put_when (status_doc es \<noteq> None) ''event_status'' (the (status_doc es)) ?m))"
    by (rule text_safe_put_when [OF safe_m])
      (use assms(4) in \<open>auto simp: status_doc_def status_sendable_def intro: status_members_safe\<close>)
  ultimately show "job_to_json lib st (Job a hs es) = Inr (JObject (envelope_members a ?on (status_doc es)))"
    by (simp add: put_attrs_members [OF hash] envelope_members_def res_when_set [OF text_safe_find [OF doc]] del: not_None_eq)
  show "text_safe lib (JObject (envelope_members a ?on (status_doc es)))"
    unfolding envelope_members_def by (rule text_safe_put_when [OF doc]) simp
qed

lemma job_received:
  assumes "attrs_sendable a" and "smap_wf hs" and "status_sendable lib es" and "jm_ok env w"
    and "\<And>e h. (e, h) \<in> set (live_handlers hs) \<Longrightarrow> receives env D h"
  shows "\<exists>w'. job_of_envelope env (j_name a) (JObject (envelope_members a (handler_map D (live_handlers hs) []) (status_doc es))) w
    = (Inr (as_sent (Job a hs es)), w') \<and> jm_ok env w'"
proof -
  let ?on = "handler_map D (live_handlers hs) []"
  let ?d = "JObject (envelope_members a ?on (status_doc es))"
  let ?t = "if j_type a = JOB_SYNC then JOB_SYNC else JOB_ASYNC"
  obtain x where x: "on_attrs (set_job_name (j_name a)) new_job_attrs = Inr x" using assms(1) by (auto simp: attrs_sendable_def)
  have start: "envelope_start env (j_name a) ?d w = (Inr (x\<lparr>j_type := ?t\<rparr>), w)"
    using envelope_start_ok [OF assms(4) x] read_type by metis
  have on: "envelope_on ?d = Inr ?on"
    by (simp add: envelope_on_def json_hasKey_def json_get_def json_as_object_def envelope_find attr_find)
  obtain xs where xs: "?on = map (handler_entry D) xs" "set xs = set (live_handlers hs)" "distinct (map fst xs)"
    using handler_map_order [OF live_handlers_distinct [OF assms(2)]] by blast
  have "\<exists>w'. job_handlers env (map (handler_entry D) xs) [] w
      = (Inr (fold (\<lambda>(e, h). smap_put e h) (received xs) []), w') \<and> jm_ok env w'"
  proof (rule job_handlers_entries [OF _ assms(4)])
    show "receives env D h" if "(e, h) \<in> set xs" for e h using that xs(2) assms(5) by simp
  qed
  then obtain w1 where w1: "job_handlers env ?on [] w = (Inr (received (live_handlers hs)), w1)" "jm_ok env w1"
    using received_order [OF assms(2) xs(2,3)] xs(1) by metis
  obtain w2 where w2: "envelope_rest env ?d (x\<lparr>j_type := ?t\<rparr>) (received (live_handlers hs)) w1
      = (Inr (Job (sent_attrs a) (received (live_handlers hs)) (map_option as_shown es)), w2)" "jm_ok env w2"
    using read_rest [OF w1(2) assms(1,3) x] by blast
  show ?thesis
    using start on w1(1) w2 unfolding job_of_envelope.simps(1) by (simp add: received_def)
qed

lemma job_sent:
  assumes "json_text lib" and "sendable lib J"
  shows "job_to_json lib st J = Inr (sent_doc lib st J) \<and> text_safe lib (sent_doc lib st J) \<and> receives env (sent_doc lib st) J"
  using assms
proof (induction lib J rule: sendable.induct)
  case (1 lib a hs es)
  let ?D = "sent_doc lib st"
  have IH: "job_to_json lib st h = Inr (?D h)" "text_safe lib (?D h)" "receives env ?D h"
    if "(e, h) \<in> set (live_handlers hs)" for e h
    using 1 that by (fastforce simp: live_handlers_set list_all_iff)+
  have ok: "attrs_sendable a" "smap_wf hs" "status_sendable lib es" using 1(3) by simp_all
  let ?on = "handler_map ?D (live_handlers hs) []"
  have docs: "job_to_json lib st h = Inr (?D h) \<and> text_safe lib (?D h)" if "(e, h) \<in> set (live_handlers hs)" for e h
    using IH(1,2) [OF that] by simp
  have json: "job_to_json lib st (Job a hs es) = Inr (JObject (envelope_members a ?on (status_doc es)))"
    by (rule job_document(1) [OF 1(2) ok]) (rule docs)
  have safe: "text_safe lib (JObject (envelope_members a ?on (status_doc es)))"
    by (rule job_document(2) [OF 1(2) ok]) (rule docs)
  have D: "?D (Job a hs es) = JObject (envelope_members a ?on (status_doc es))"
    using json by (simp add: sent_doc_def)
  have "\<exists>w'. job_of_envelope env (j_name a) (?D (Job a hs es)) w = (Inr (as_sent (Job a hs es)), w') \<and> jm_ok env w'"
    if "jm_ok env w" for w
    unfolding D by (rule job_received [OF ok that]) (rule IH(3))
  then have "receives env ?D (Job a hs es)" unfolding receives_def by simp
  then show ?case using json safe unfolding D by simp
qed


definition demo_attrs :: "string \<Rightarrow> job_attrs" where
  "demo_attrs n = new_job_attrs\<lparr>j_name := n, j_version := ''v1'', j_operation := ''get'', j_component := ''c'', j_resource_type := ''t'',
     j_content := ''x'', j_headers := [(''h'', ''1'')], j_arguments := [''a'', ''b'']\<rparr>"

definition demo_job :: "string job" where
  "demo_job = Job (demo_attrs ''do_get_c_t_v1'') [(JEVENT_COMPLETED, Some (Job (demo_attrs ''do_get_c_u_v1'') [] None))] None"

lemma demo_jm_ok: "jm_ok demo_jm_env demo_jm_world"
  by (simp add: jm_ok_def demo_jm_env_def demo_jm_world_def get_int_default_def get_string2_default_def get_int2_default_def
      get_path_default_def json_hasKey_def json_get_def json_as_int64_def smap_find_def has_setting_def wrap_s32_def)

lemma demo_attrs_sendable:
  assumes "n \<in> {''do_get_c_t_v1'', ''do_get_c_u_v1''}"
  shows "attrs_sendable (demo_attrs n)"
proof -
  have "case on_attrs (set_job_name ''do_get_c_t_v1'') new_job_attrs of Inl _ \<Rightarrow> False | Inr _ \<Rightarrow> True"
    "case on_attrs (set_job_name ''do_get_c_u_v1'') new_job_attrs of Inl _ \<Rightarrow> False | Inr _ \<Rightarrow> True" by code_simp+
  with assms show ?thesis
    by (auto simp: attrs_sendable_def hashes_ok_def demo_attrs_def new_job_attrs_def smap_wf_def smap_find_def split: sum.splits)
qed

lemma demo_job_sendable: "sendable wire_lib demo_job" "as_sent demo_job = demo_job"
  by (simp_all add: demo_job_def demo_attrs_sendable status_sendable_def smap_wf_def sent_attrs_def)
    (simp_all add: demo_attrs_def new_job_attrs_def)


end
