(* ===== verification/GB_JobQueue.thy ===== *)
theory GB_JobQueue
  imports GB_JobManager "HOL-Library.Multiset"
begin

text \<open>
  \<^verbatim>\<open>JobManager::job_queue\<close> and \<^verbatim>\<open>job_queue_run\<close>: a configuration of jobs that require one another is turned into
  batches, and the batches are run one after the other. The topological sort of the boost graph library is a
  parameter.
\<close>

section \<open>The jobs\<close>

definition node_type :: "string \<Rightarrow> 'd json \<Rightarrow> gb_exn + job_type" where
  "node_type k v =
     (if json_hasKey ''type'' v
      then res_bind (json_get [Key k] ''type'' v) (\<lambda>t.
           res_bind (json_as_string [Key k, Key ''type''] t) (\<lambda>s.
           Inr (if s = ''SYNC'' then JOB_SYNC else JOB_ASYNC)))
      else Inr JOB_ASYNC)"

definition node_method :: "string \<Rightarrow> http_method" where
  "node_method m =
     (if m = ''PUT'' then METHOD_PUT else if m = ''POST'' then METHOD_POST
      else if m = ''DELETE'' then METHOD_DELETE else METHOD_GET)"

definition node_timeout :: "string \<Rightarrow> 'd json \<Rightarrow> gb_exn + int" where
  "node_timeout k v =
     (if json_hasKey ''timeout'' v
      then res_bind (json_get [Key k] ''timeout'' v) (json_as_int [Key k, Key ''timeout'']) else Inr 0)"

definition queue_node :: "'d jm_env \<Rightarrow> string \<Rightarrow> 'd json \<Rightarrow> ('d jm_world, gb_exn, 'd job) sx" where
  "queue_node env k v =
     sx_bind (sx_lift (node_type k v)) (\<lambda>t.
     sx_bind (if json_hasKey ''method'' v
        then sx_bind (sx_lift (res_bind (json_get [Key k] ''method'' v) (json_as_string [Key k, Key ''method'']))) (\<lambda>m.
             sx_bind (sx_lift (Uri k)) (\<lambda>u.
             sx_bind (job_uri (node_method m) u) (\<lambda>j. sx_return (upd_attrs (\<lambda>a. a\<lparr>j_type := JOB_UNKNOWN\<rparr>) j))))
        else sx_bind (job_named env k) (\<lambda>j. sx_return (upd_attrs (\<lambda>a. a\<lparr>j_type := t\<rparr>) j))) (\<lambda>j.
     sx_bind (sx_get (\<lambda>w. upd_attrs (\<lambda>a. a\<lparr>j_base_uri := w_base_uri w, j_parent_uri := w_parent_uri w\<rparr>) j)) (\<lambda>j.
     sx_bind (sx_lift (node_timeout k v)) (\<lambda>n. sx_return (upd_attrs (\<lambda>a. a\<lparr>j_timeout := n\<rparr>) j)))))"

fun queue_nodes :: "'d jm_env \<Rightarrow> (string \<times> 'd json) list \<Rightarrow> ('d jm_world, gb_exn, 'd job list) sx" where
  "queue_nodes env [] = sx_return []"
| "queue_nodes env ((k, v) # es) =
     sx_bind (queue_node env k v) (\<lambda>j. sx_bind (queue_nodes env es) (\<lambda>js. sx_return (j # js)))"

definition job_name :: "'d job \<Rightarrow> string" where
  "job_name j = j_name (attrs j)"

section \<open>The graph\<close>

type_synonym graph = "(nat \<times> nat) list"

fun find_node :: "string \<Rightarrow> 'd job list \<Rightarrow> nat option" where
  "find_node r [] = None"
| "find_node r (j # js) = (if r = job_name j then Some 0 else map_option Suc (find_node r js))"

definition undefined_dependency :: "string \<Rightarrow> string \<Rightarrow> gb_exn" where
  "undefined_dependency node r = ERR_INTERNAL_SERVER_ERROR
     (''Agent: '' @ [CHR 0x27] @ node @ [CHR 0x27] @ '' has undefined dependency '' @ [CHR 0x27] @ r @ [CHR 0x27])"

definition cyclic_dependency :: "string \<Rightarrow> gb_exn" where
  "cyclic_dependency node = ERR_INTERNAL_SERVER_ERROR
     (''Agent: '' @ [CHR 0x27] @ node @ [CHR 0x27] @ '' defines a cyclic dependency!'')"

fun require_edges :: "string \<Rightarrow> 'd job list \<Rightarrow> nat \<Rightarrow> nat \<Rightarrow> 'd json list \<Rightarrow> gb_exn + graph" where
  "require_edges node nodes i j [] = Inr []"
| "require_edges node nodes i j (v # vs) =
     res_bind (json_as_string [Key node, Key ''require'', Index j] v) (\<lambda>r.
     case find_node r nodes of
       None \<Rightarrow> Inl (undefined_dependency node r)
     | Some k \<Rightarrow>
         if i = k then Inl (cyclic_dependency node)
         else res_bind (require_edges node nodes i (Suc j) vs) (\<lambda>es. Inr ((k, i) # es)))"

text \<open>
  The entry of a job is looked up under the name of the job, which for a remote job is the canonical form of its key:
  where the key was not canonical, the lookup makes a null entry and the code dereferences it.
\<close>

definition node_edges :: "(string, 'd json) smap \<Rightarrow> 'd job list \<Rightarrow> nat \<Rightarrow> string \<Rightarrow> gb_exn + graph" where
  "node_edges sa nodes i node = (case smap_find sa node of
     None \<Rightarrow> Inl NullDereference
   | Some v \<Rightarrow>
       if \<not> json_hasKey ''require'' v then Inr []
       else res_bind (json_get [Key node] ''require'' v) (\<lambda>r. require_edges node nodes i 0 (array_elems r)))"

fun all_edges :: "(string, 'd json) smap \<Rightarrow> 'd job list \<Rightarrow> nat \<Rightarrow> 'd job list \<Rightarrow> gb_exn + graph" where
  "all_edges sa nodes i [] = Inr []"
| "all_edges sa nodes i (j # js) =
     res_bind (node_edges sa nodes i (job_name j)) (\<lambda>es.
     res_bind (all_edges sa nodes (Suc i) js) (\<lambda>es'. Inr (es @ es')))"

section \<open>The batches\<close>

definition in_sources :: "graph \<Rightarrow> nat \<Rightarrow> nat list" where
  "in_sources g i = map fst (filter (\<lambda>e. snd e = i) g)"

fun count_edges :: "nat \<Rightarrow> nat list \<Rightarrow> nat \<Rightarrow> nat list \<Rightarrow> nat list" where
  "count_edges i [] maxdist ec = ec"
| "count_edges i (s # ss) maxdist ec =
     (let m = max (ec ! s) maxdist in count_edges i ss m (ec[i := m + 1]))"

definition group_push :: "nat \<Rightarrow> 'a \<Rightarrow> (nat, 'a list) smap \<Rightarrow> (nat, 'a list) smap" where
  "group_push l x gr = smap_put l ((case smap_find gr l of None \<Rightarrow> [] | Some xs \<Rightarrow> xs) @ [x]) gr"

fun group_nodes :: "graph \<Rightarrow> 'a list \<Rightarrow> nat list \<Rightarrow> nat list \<Rightarrow> (nat, 'a list) smap \<Rightarrow> gb_exn + (nat, 'a list) smap" where
  "group_nodes g nodes [] ec gr = Inr gr"
| "group_nodes g nodes (i # is) ec gr =
     (if i \<ge> length nodes then Inl (StdError ''vector::_M_range_check'')
      else if in_sources g i = [] then group_nodes g nodes is ec (group_push 0 (nodes ! i) gr)
      else (let ec' = count_edges i (in_sources g i) 0 ec
            in group_nodes g nodes is ec' (group_push (ec' ! i) (nodes ! i) gr)))"

definition cycle_detected :: "string \<Rightarrow> gb_exn" where
  "cycle_detected e = ERR_INTERNAL_SERVER_ERROR (''Cycle detected in configuration: '' @ e)"

definition queue_batches ::
    "(nat \<Rightarrow> graph \<Rightarrow> string + nat list) \<Rightarrow> graph \<Rightarrow> 'a list \<Rightarrow> gb_exn + 'a list list" where
  "queue_batches topological_sort g nodes = (case topological_sort (length nodes) g of
     Inl e \<Rightarrow> Inl (cycle_detected e)
   | Inr order \<Rightarrow> res_bind (group_nodes g nodes order (replicate (length nodes) 0) []) (\<lambda>gr. Inr (map snd gr)))"

definition job_queue ::
    "'d jm_env \<Rightarrow> (nat \<Rightarrow> graph \<Rightarrow> string + nat list) \<Rightarrow> 'd json \<Rightarrow> ('d jm_world, gb_exn, 'd job list list) sx" where
  "job_queue env topological_sort job_config =
     (if json_empty job_config then sx_return []
      else sx_bind (sx_lift (json_as_object [] job_config)) (\<lambda>sa.
           sx_bind (queue_nodes env sa) (\<lambda>nodes.
           sx_lift (res_bind (all_edges sa nodes 0 nodes) (\<lambda>g. queue_batches topological_sort g nodes)))))"

section \<open>What the sort promises\<close>

definition precedes :: "'a list \<Rightarrow> 'a \<Rightarrow> 'a \<Rightarrow> bool" where
  "precedes xs a b \<longleftrightarrow> b \<in> set xs \<and> a \<in> set (takeWhile (\<lambda>x. x \<noteq> b) xs)"

definition is_order :: "nat \<Rightarrow> graph \<Rightarrow> nat list \<Rightarrow> bool" where
  "is_order n g order \<longleftrightarrow> distinct order \<and> set order = {..<n} \<and> list_all (\<lambda>(a, b). precedes order a b) g"

text \<open>The graph has an order, and then one is returned; otherwise it is not a DAG, and that is thrown.\<close>

definition sorts_topologically :: "(nat \<Rightarrow> graph \<Rightarrow> string + nat list) \<Rightarrow> bool" where
  "sorts_topologically topological_sort \<longleftrightarrow> (\<forall>n g. list_all (\<lambda>(a, b). a < n \<and> b < n) g \<longrightarrow>
     (case topological_sort n g of Inr order \<Rightarrow> is_order n g order | Inl _ \<Rightarrow> \<not> acyclic (set g)))"

section \<open>Levels\<close>

lemma in_sources_iff: "a \<in> set (in_sources g b) \<longleftrightarrow> (a, b) \<in> set g"
  by (force simp: in_sources_def)

lemma count_edges_spec:
  assumes "i < length ec" and "i \<notin> set ss"
  shows "count_edges i ss m ec = (if ss = [] then ec else ec[i := Suc (foldl max m (map ((!) ec) ss))])"
  using assms
proof (induction ss arbitrary: m ec)
  case (Cons s ss)
  let ?m = "max (ec ! s) m"
  have same: "map ((!) (ec[i := ?m + 1])) ss = map ((!) ec) ss" using Cons.prems by (intro map_cong) (auto simp: nth_list_update)
  have "count_edges i ss ?m (ec[i := ?m + 1]) = (if ss = [] then ec[i := ?m + 1] else ec[i := Suc (foldl max ?m (map ((!) ec) ss))])"
    using Cons.IH [of "ec[i := ?m + 1]" ?m] Cons.prems unfolding same by simp
  then show ?case by (auto simp: Let_def max.commute)
qed simp

lemma foldl_max: "foldl max m xs = Max (set (m # xs))" for m :: nat
  by (simp add: Max.set_eq_fold foldl_conv_fold max.commute del: list.set)

text \<open>\<open>levels g ec xs\<close>: the counts of the nodes \<open>xs\<close> are their distances from the nodes that require nothing.\<close>

definition level_ok :: "graph \<Rightarrow> nat list \<Rightarrow> nat \<Rightarrow> bool" where
  "level_ok g ec i \<longleftrightarrow> ec ! i = (if in_sources g i = [] then 0 else Suc (Max ((!) ec ` set (in_sources g i))))"

lemma level_ok_less: "level_ok g ec b \<Longrightarrow> (a, b) \<in> set g \<Longrightarrow> ec ! a < ec ! b"
  using in_sources_iff [of a g b] by (force simp: level_ok_def less_Suc_eq_le intro: Max_ge)

lemma level_ok_pred:
  assumes "level_ok g ec b" and "0 < ec ! b"
  shows "\<exists>a. (a, b) \<in> set g \<and> Suc (ec ! a) = ec ! b"
proof -
  have ne: "in_sources g b \<noteq> []" and eq: "ec ! b = Suc (Max ((!) ec ` set (in_sources g b)))"
    using assms by (auto simp: level_ok_def split: if_splits)
  have "Max ((!) ec ` set (in_sources g b)) \<in> (!) ec ` set (in_sources g b)" using ne by (intro Max_in) auto
  with eq show ?thesis by (force simp: in_sources_iff)
qed

lemma level_ok_cong: "(\<And>a. (a, b) \<in> set g \<Longrightarrow> ec' ! a = ec ! a) \<Longrightarrow> ec' ! b = ec ! b \<Longrightarrow> level_ok g ec' b = level_ok g ec b"
  by (simp add: level_ok_def in_sources_iff cong: image_cong_simp)

lemma count_edges_level:
  assumes "i < length ec" and "(i, i) \<notin> set g" and "in_sources g i \<noteq> []"
  shows "count_edges i (in_sources g i) 0 ec = ec[i := Suc (Max ((!) ec ` set (in_sources g i)))]"
proof -
  have "foldl max 0 (map ((!) ec) (in_sources g i)) = Max ((!) ec ` set (in_sources g i))"
    unfolding foldl_max using assms(3) by (simp add: Max_insert)
  with count_edges_spec [OF assms(1), of "in_sources g i" 0] assms(2,3) show ?thesis by (simp add: in_sources_iff)
qed

text \<open>The groups hold the nodes seen so far, by level, in the order in which they were seen.\<close>

definition groups_ok :: "'a list \<Rightarrow> nat list \<Rightarrow> nat list \<Rightarrow> (nat, 'a list) smap \<Rightarrow> bool" where
  "groups_ok nodes ec seen gr \<longleftrightarrow> smap_wf gr \<and>
     (\<forall>l. smap_find gr l = (let xs = filter (\<lambda>i. ec ! i = l) seen in if xs = [] then None else Some (map ((!) nodes) xs)))"

lemma groups_ok_push:
  assumes "groups_ok nodes ec seen gr"
  shows "groups_ok nodes ec (seen @ [i]) (group_push (ec ! i) (nodes ! i) gr)"
  using assms by (auto simp: groups_ok_def group_push_def smap_wf_put smap_find_put Let_def)

lemma groups_ok_cong: "(\<And>i. i \<in> set seen \<Longrightarrow> ec' ! i = ec ! i) \<Longrightarrow> groups_ok nodes ec' seen gr = groups_ok nodes ec seen gr"
  by (simp add: groups_ok_def cong: filter_cong)

lemma precedes_prefix: "precedes (xs @ ys) a b \<Longrightarrow> b \<in> set xs \<Longrightarrow> a \<in> set xs"
  using set_takeWhileD by (fastforce simp: precedes_def takeWhile_append1)

lemma precedes_next: "precedes (xs @ b # ys) a b \<Longrightarrow> b \<notin> set xs \<Longrightarrow> a \<in> set xs"
  by (induction xs) (auto simp: precedes_def)

lemma group_nodes_spec:
  assumes "is_order (length nodes) g (seen @ rest)" and "length ec = length nodes"
    and "\<And>i. i \<in> set seen \<Longrightarrow> level_ok g ec i" and "\<And>i. i \<in> set rest \<Longrightarrow> ec ! i = 0" and "groups_ok nodes ec seen gr"
  shows "\<exists>ec' gr'. group_nodes g nodes rest ec gr = Inr gr' \<and> length ec' = length nodes
    \<and> (\<forall>i\<in>set (seen @ rest). level_ok g ec' i) \<and> groups_ok nodes ec' (seen @ rest) gr'"
  using assms
proof (induction rest arbitrary: seen ec gr)
  case Nil
  then show ?case by auto
next
  case (Cons i rest)
  have ord: "distinct (seen @ i # rest)" "set (seen @ i # rest) = {..<length nodes}"
      and before: "\<And>a b. (a, b) \<in> set g \<Longrightarrow> precedes (seen @ i # rest) a b"
    using Cons.prems(1) by (auto simp: is_order_def list_all_iff)
  have i: "i < length nodes" "i \<notin> set seen" "i \<notin> set rest" using ord by auto
  have src: "a \<in> set seen" if "(a, b) \<in> set g" "b \<in> set seen \<or> b = i" for a b
    using before [OF that(1)] that(2) i(2) precedes_prefix [of seen "i # rest" a b] precedes_next [of seen b rest a] by auto
  have loop: "(i, i) \<notin> set g" using src [of i i] i(2) by auto
  define ec' where "ec' = (if in_sources g i = [] then ec else ec[i := Suc (Max ((!) ec ` set (in_sources g i)))])"
  have len: "length ec' = length nodes" using Cons.prems(2) by (simp add: ec'_def)
  have same: "ec' ! a = ec ! a" if "a \<noteq> i" for a using that by (simp add: ec'_def)
  have seen: "level_ok g ec' b" if "b \<in> set seen" for b
  proof -
    have "level_ok g ec' b = level_ok g ec b"
    proof (rule level_ok_cong)
      show "ec' ! a = ec ! a" if "(a, b) \<in> set g" for a using src [OF that] \<open>b \<in> set seen\<close> i(2) same [of a] by auto
      show "ec' ! b = ec ! b" using that i(2) same [of b] by auto
    qed
    with Cons.prems(3) [OF that] show ?thesis by simp
  qed
  have img: "(!) ec' ` set (in_sources g i) = (!) ec ` set (in_sources g i)"
    using loop by (intro image_cong) (auto simp: in_sources_iff intro!: same)
  have new: "level_ok g ec' i"
    using Cons.prems(2) Cons.prems(4) [of i] i(1) img by (auto simp: level_ok_def ec'_def)
  have gr: "groups_ok nodes ec' (seen @ [i]) (group_push (ec' ! i) (nodes ! i) gr)"
    using groups_ok_push [of nodes ec' seen gr i] Cons.prems(5) groups_ok_cong [of seen ec' ec nodes gr] same i(2) by force
  have zero: "ec' ! j = 0" if "j \<in> set rest" for j using that same [of j] Cons.prems(4) [of j] i(3) by auto
  have step: "group_nodes g nodes (i # rest) ec gr = group_nodes g nodes rest ec' (group_push (ec' ! i) (nodes ! i) gr)"
    using i(1) Cons.prems(2) Cons.prems(4) [of i] count_edges_level [OF _ loop, of ec] by (simp add: ec'_def Let_def)
  have ord': "is_order (length nodes) g ((seen @ [i]) @ rest)" using Cons.prems(1) by simp
  have levels: "level_ok g ec' b" if "b \<in> set (seen @ [i])" for b using that seen new by auto
  from Cons.IH [OF ord' len levels zero gr] show ?case unfolding step by simp
qed

lemma down_closed_nat:
  fixes K :: "nat set"
  assumes "finite K" and "\<And>l. Suc l \<in> K \<Longrightarrow> l \<in> K"
  shows "K = {..<card K}"
proof (cases "K = {}")
  case False
  have down: "l \<in> K" if "Suc l \<le> m" "m \<in> K" for l m
    using that by (induction "m - Suc l" arbitrary: l) (metis assms(2) diff_is_0_eq le_antisym, metis Suc_diff_Suc Suc_leI assms(2) less_Suc_eq_le nat.inject zero_less_Suc zero_less_diff)
  have "K = {..Max K}"
  proof
    show "K \<subseteq> {..Max K}" using Max_ge [OF assms(1)] by auto
    show "{..Max K} \<subseteq> K" 
    proof
      fix x assume "x \<in> {..Max K}"
      then show "x \<in> K" using down [of x "Max K"] Max_in [OF assms(1) False] by (cases "x = Max K") auto
    qed
  qed
  then show ?thesis by (metis card_atMost lessThan_Suc_atMost)
qed simp

lemma smap_keys_iff: "smap_wf m \<Longrightarrow> k \<in> fst ` set m \<longleftrightarrow> smap_find m k \<noteq> None"
  by (auto simp: smap_find_def map_of_eq_None_iff image_iff)

lemma batches_spec:
  assumes "is_order (length nodes) g order" and "topo (length nodes) g = Inr order"
  shows "\<exists>ec jq. queue_batches topo g nodes = Inr jq \<and> (\<forall>i<length nodes. level_ok g ec i \<and> ec ! i < length jq)
    \<and> (\<forall>l<length jq. jq ! l = map ((!) nodes) (filter (\<lambda>i. ec ! i = l) order)) \<and> [] \<notin> set jq"
proof -
  have start: "groups_ok nodes (replicate (length nodes) 0) [] []" by (simp add: groups_ok_def smap.find_emp smap.wf_emp)
  have order: "set order = {..<length nodes}" and edges: "\<And>a b. (a, b) \<in> set g \<Longrightarrow> a < length nodes"
    using assms(1) set_takeWhileD by (fastforce simp: is_order_def precedes_def list_all_iff)+
  obtain ec gr where run: "group_nodes g nodes order (replicate (length nodes) 0) [] = Inr gr"
      and levels: "\<And>i. i < length nodes \<Longrightarrow> level_ok g ec i" and gr: "groups_ok nodes ec order gr"
    using group_nodes_spec [of nodes g "[]" order "replicate (length nodes) 0" "[]"] assms(1) start order by auto
  have wf: "smap_wf gr" using gr by (simp add: groups_ok_def)
  have keys: "fst ` set gr = {ec ! i | i. i < length nodes}"
  proof (rule set_eqI)
    fix l
    have "smap_find gr l \<noteq> None \<longleftrightarrow> (\<exists>i\<in>set order. ec ! i = l)"
      using gr by (auto simp: groups_ok_def Let_def filter_empty_conv)
    then show "l \<in> fst ` set gr \<longleftrightarrow> l \<in> {ec ! i | i. i < length nodes}" using smap_keys_iff [OF wf, of l] order by auto
  qed
  have "fst ` set gr = {..<card (fst ` set gr)}"
  proof (rule down_closed_nat)
    show "l \<in> fst ` set gr" if l: "Suc l \<in> fst ` set gr" for l
    proof -
      from l keys obtain i where i: "i < length nodes" "ec ! i = Suc l" by auto
      with level_ok_pred [OF levels [OF i(1)]] obtain a where "(a, i) \<in> set g" "ec ! a = l" by auto
      with keys edges show ?thesis by auto
    qed
  qed simp
  moreover have "card (fst ` set gr) = length gr"
    using smap.distinct_entries [OF wf] distinct_card [of "map fst gr"] by simp
  ultimately have all: "fst ` set gr = {..<length gr}" by simp
  have "map fst gr = [0..<length gr]"
    using wf all by (intro strict_sorted_equal) (auto simp: smap_wf_def)
  then have nth: "fst (gr ! l) = l" if "l < length gr" for l using that by (metis add_0 nth_map nth_upt)
  have batch: "map snd gr ! l = map ((!) nodes) (filter (\<lambda>i. ec ! i = l) order) \<and> map snd gr ! l \<noteq> []" if l: "l < length gr" for l
  proof -
    have "(l, snd (gr ! l)) \<in> set gr" using nth [OF l] nth_mem [OF l] by (metis prod.collapse)
    then have "smap_find gr l = Some (snd (gr ! l))" using smap.distinct_entries [OF wf] by (simp add: smap_find_def)
    with gr l show ?thesis by (auto simp: groups_ok_def Let_def split: if_splits)
  qed
  have "[] \<notin> set (map snd gr)" using batch by (metis in_set_conv_nth length_map)
  moreover have "ec ! i < length gr" if "i < length nodes" for i using keys all that by auto
  ultimately show ?thesis
    using run assms(2) levels batch by (intro exI [of _ ec] exI [of _ "map snd gr"]) (auto simp: queue_batches_def)
qed

section \<open>Requirements\<close>

text \<open>The names a job requires, read off the configuration.\<close>

definition strings_of :: "'d json list \<Rightarrow> string list" where
  "strings_of vs = concat (map (\<lambda>v. case v of JString s \<Rightarrow> [s] | _ \<Rightarrow> []) vs)"

definition requirements :: "(string, 'd json) smap \<Rightarrow> string \<Rightarrow> string list" where
  "requirements sa node = (case smap_find sa node of
     Some (JObject ms) \<Rightarrow> (case smap_find ms ''require'' of Some (JArray vs) \<Rightarrow> strings_of vs | _ \<Rightarrow> [])
   | _ \<Rightarrow> [])"

lemma find_node_Some: "find_node r js = Some k \<Longrightarrow> k < length js \<and> job_name (js ! k) = r"
  by (induction r js arbitrary: k rule: find_node.induct) (auto split: if_splits)

lemma json_as_string_Inr: "json_as_string p v = Inr s \<longleftrightarrow> v = JString s"
  by (cases v) (auto simp: json_as_string_def assertType_def handleError_def)

lemma strings_of_simps: "strings_of [] = []" "strings_of (JString r # vs) = r # strings_of vs"
  by (simp_all add: strings_of_def)

lemma require_edges_spec:
  assumes "require_edges node nodes i j vs = Inr es"
  shows "(\<forall>r\<in>set (strings_of vs). \<exists>k. find_node r nodes = Some k \<and> k \<noteq> i \<and> (k, i) \<in> set es)
    \<and> (\<forall>e\<in>set es. snd e = i \<and> (\<exists>r\<in>set (strings_of vs). find_node r nodes = Some (fst e)))"
  using assms
proof (induction node nodes i j vs arbitrary: es rule: require_edges.induct)
  case (2 node nodes i j v vs)
  from 2(2) obtain r k es' where *: "v = JString r" "find_node r nodes = Some k" "i \<noteq> k"
      "require_edges node nodes i (Suc j) vs = Inr es'" "es = (k, i) # es'"
    by (auto simp: res_bind_def json_as_string_Inr split: sum.splits option.splits if_splits)
  have "json_as_string [Key node, Key ''require'', Index j] v = Inr r" by (simp add: *(1) json_as_string_def)
  from 2(1) [OF this *(2,3,4)] * show ?case by (fastforce simp: strings_of_simps)
qed (simp add: strings_of_simps)

lemma node_edges_spec:
  assumes "node_edges sa nodes i node = Inr es"
  shows "(\<forall>r\<in>set (requirements sa node). \<exists>k. find_node r nodes = Some k \<and> k \<noteq> i \<and> (k, i) \<in> set es)
    \<and> (\<forall>e\<in>set es. snd e = i \<and> (\<exists>r\<in>set (requirements sa node). find_node r nodes = Some (fst e)))"
proof -
  from assms obtain v where v: "smap_find sa node = Some v" by (auto simp: node_edges_def split: option.splits)
  show ?thesis
  proof (cases "\<exists>ms r. v = JObject ms \<and> smap_find ms ''require'' = Some r")
    case True
    then obtain ms r where r: "v = JObject ms" "smap_find ms ''require'' = Some r" by blast
    have "require_edges node nodes i 0 (array_elems r) = Inr es"
      using assms v r by (simp add: node_edges_def json_hasKey_def json_get_def)
    moreover have "requirements sa node = strings_of (array_elems r)"
      using v r by (auto simp: requirements_def array_elems_def strings_of_def split: json.split)
    ultimately show ?thesis using require_edges_spec by metis
  next
    case False
    then have "es = [] \<and> requirements sa node = []"
      using assms v by (cases v) (auto simp: node_edges_def requirements_def json_hasKey_def split: option.splits)
    then show ?thesis by simp
  qed
qed

lemma all_edges_spec:
  assumes "all_edges sa nodes i js = Inr g"
  shows "(\<forall>m<length js. \<forall>r\<in>set (requirements sa (job_name (js ! m))).
        \<exists>k. find_node r nodes = Some k \<and> k \<noteq> i + m \<and> (k, i + m) \<in> set g)
    \<and> (\<forall>e\<in>set g. \<exists>m<length js. snd e = i + m \<and> (\<exists>r\<in>set (requirements sa (job_name (js ! m))). find_node r nodes = Some (fst e)))"
  using assms
proof (induction sa nodes i js arbitrary: g rule: all_edges.induct)
  case (2 sa nodes i j js)
  from 2(2) obtain es es' where *: "node_edges sa nodes i (job_name j) = Inr es" "all_edges sa nodes (Suc i) js = Inr es'" "g = es @ es'"
    by (auto simp: res_bind_def split: sum.splits)
  note IH = 2(1) [OF *(1,2)]
  show ?case
  proof (intro conjI allI impI ballI)
    fix m r assume m: "m < length (j # js)" "r \<in> set (requirements sa (job_name ((j # js) ! m)))"
    show "\<exists>k. find_node r nodes = Some k \<and> k \<noteq> i + m \<and> (k, i + m) \<in> set g"
      using m IH node_edges_spec [OF *(1)] *(3) by (cases m) fastforce+
  next
    fix e assume "e \<in> set g"
    then consider "e \<in> set es" | "e \<in> set es'" using *(3) by auto
    then show "\<exists>m<length (j # js). snd e = i + m \<and> (\<exists>r\<in>set (requirements sa (job_name ((j # js) ! m))). find_node r nodes = Some (fst e))"
    proof cases
      case 1
      with node_edges_spec [OF *(1)] show ?thesis by (intro exI [of _ 0]) auto
    next
      case 2
      with IH obtain m where "m < length js" "snd e = Suc i + m" "\<exists>r\<in>set (requirements sa (job_name (js ! m))). find_node r nodes = Some (fst e)"
        by blast
      then show ?thesis by (intro exI [of _ "Suc m"]) auto
    qed
  qed
qed simp

lemma mset_levels:
  "mset (concat (map (\<lambda>l. filter (\<lambda>i. f i = l) xs) [0..<m])) = mset (filter (\<lambda>i. f i < m) xs)" for f :: "'a \<Rightarrow> nat"
proof (induction m)
  case (Suc m)
  have "mset (filter (\<lambda>i. f i < Suc m) xs) = mset (filter (\<lambda>i. f i < m) xs) + mset (filter (\<lambda>i. f i = m) xs)"
    by (induction xs) (auto simp: less_Suc_eq)
  with Suc show ?case by simp
qed simp

lemma mset_permuted:
  assumes "distinct order" and "set order = {..<length nodes}"
  shows "mset (map ((!) nodes) order) = mset nodes"
proof -
  have "mset order = mset [0..<length nodes]"
    using assms set_eq_iff_mset_eq_distinct [of order "[0..<length nodes]"] by (simp add: atLeast0LessThan)
  then have "mset (map ((!) nodes) order) = mset (map ((!) nodes) [0..<length nodes])" by simp
  then show ?thesis by (simp add: map_nth)
qed

text \<open>The batches of a sorted graph hold every job once; a job is in the batch of its level, and a batch has only jobs of its level.\<close>

lemma queue_batches_jobs:
  assumes "is_order (length nodes) g order" and "topo (length nodes) g = Inr order"
  obtains jq ec where "queue_batches topo g nodes = Inr jq" and "[] \<notin> set jq" and "mset (concat jq) = mset nodes"
    and "\<And>i. i < length nodes \<Longrightarrow> level_ok g ec i \<and> nodes ! i \<in> set (jq ! (ec ! i))"
    and "\<And>b J. b < length jq \<Longrightarrow> J \<in> set (jq ! b) \<Longrightarrow> \<exists>i<length nodes. ec ! i = b \<and> J = nodes ! i"
proof -
  have set_order: "set order = {..<length nodes}" "distinct order" using assms(1) by (auto simp: is_order_def)
  from batches_spec [of nodes g order topo, OF assms] obtain ec jq where jq: "queue_batches topo g nodes = Inr jq" "[] \<notin> set jq"
      and level: "\<And>i. i < length nodes \<Longrightarrow> level_ok g ec i \<and> ec ! i < length jq"
      and batch: "\<And>l. l < length jq \<Longrightarrow> jq ! l = map ((!) nodes) (filter (\<lambda>i. ec ! i = l) order)" by blast
  have "jq = map (map ((!) nodes) \<circ> (\<lambda>l. filter (\<lambda>i. ec ! i = l) order)) [0..<length jq]"
    by (rule nth_equalityI) (simp_all add: batch)
  then have "mset (concat jq) = mset (map ((!) nodes) (filter (\<lambda>i. ec ! i < length jq) order))"
    using mset_levels [of "\<lambda>i. ec ! i" order "length jq"] by (metis map_concat map_map mset_map)
  also have "filter (\<lambda>i. ec ! i < length jq) order = order" using level set_order by (simp add: filter_id_conv)
  also have "mset (map ((!) nodes) order) = mset nodes" by (rule mset_permuted [OF set_order(2,1)])
  finally have all: "mset (concat jq) = mset nodes" .
  have mem: "level_ok g ec i \<and> nodes ! i \<in> set (jq ! (ec ! i))" if "i < length nodes" for i
    using batch [of "ec ! i"] level [OF that] that set_order by auto
  have node: "\<exists>i<length nodes. ec ! i = b \<and> J = nodes ! i" if "b < length jq" "J \<in> set (jq ! b)" for b J
    using that batch [OF that(1)] set_order by auto
  show ?thesis by (rule that [OF jq all mem node])
qed

text \<open>
  C11: a queue of jobs respects their requirements. When \<^verbatim>\<open>job_queue\<close> returns, every job of the configuration is in
  exactly one batch and no batch is empty; whatever a job requires is in an earlier batch; and no job waits longer
  than it must: a job that is not in the first batch requires a job of the batch right before its own.
  And it does return whenever each requirement names another job and the requirements have no cycle.
\<close>

theorem job_queue_batches:
  assumes "sorts_topologically topo" and "job_config = JObject sa" and "queue_nodes env sa w = (Inr nodes, w')"
    and "all_edges sa nodes 0 nodes = Inr g"
  shows "case job_queue env topo job_config w of
      (Inl e, _) \<Rightarrow> \<not> acyclic (set g)
    | (Inr jq, _) \<Rightarrow> mset (concat jq) = mset nodes \<and> [] \<notin> set jq \<and>
        (\<forall>b<length jq. \<forall>J\<in>set (jq ! b).
           (\<forall>r\<in>set (requirements sa (job_name J)). \<exists>c<b. \<exists>K\<in>set (jq ! c). job_name K = r) \<and>
           (0 < b \<longrightarrow> (\<exists>r\<in>set (requirements sa (job_name J)). \<exists>K\<in>set (jq ! (b - 1)). job_name K = r)))"
proof (cases "sa = []")
  case True
  with assms show ?thesis by (simp add: job_queue_def json_empty_def sx_return_def)
next
  case False
  have run: "job_queue env topo job_config w = (queue_batches topo g nodes, w')"
    using assms(2-4) False by (simp add: job_queue_def json_empty_def json_as_object_def sx_defs)
  note edges = all_edges_spec [OF assms(4), simplified]
  have req: "\<exists>k. (k, i) \<in> set g \<and> k < length nodes \<and> job_name (nodes ! k) = r"
    if "i < length nodes" "r \<in> set (requirements sa (job_name (nodes ! i)))" for i r
    using edges that find_node_Some by blast
  have edge: "i < length nodes \<and> k < length nodes \<and> (\<exists>r\<in>set (requirements sa (job_name (nodes ! i))). job_name (nodes ! k) = r)"
    if "(k, i) \<in> set g" for k i
    using edges that find_node_Some by fastforce
  have "list_all (\<lambda>(a, b). a < length nodes \<and> b < length nodes) g" using edge by (auto simp: list_all_iff)
  with assms(1) have sorted: "case topo (length nodes) g of Inr order \<Rightarrow> is_order (length nodes) g order | Inl _ \<Rightarrow> \<not> acyclic (set g)"
    by (simp add: sorts_topologically_def)
  show ?thesis
  proof (cases "topo (length nodes) g")
    case (Inl e)
    with sorted run show ?thesis by (simp add: queue_batches_def)
  next
    case (Inr order)
    with sorted have order: "is_order (length nodes) g order" by simp
    obtain jq ec where jq: "queue_batches topo g nodes = Inr jq" "[] \<notin> set jq" "mset (concat jq) = mset nodes"
        and level: "\<And>i. i < length nodes \<Longrightarrow> level_ok g ec i \<and> nodes ! i \<in> set (jq ! (ec ! i))"
        and node: "\<And>b J. b < length jq \<Longrightarrow> J \<in> set (jq ! b) \<Longrightarrow> \<exists>i<length nodes. ec ! i = b \<and> J = nodes ! i"
      by (rule queue_batches_jobs [of nodes g order topo, OF order Inr]) blast
    have "\<exists>c<b. \<exists>K\<in>set (jq ! c). job_name K = r"
      if bJ: "b < length jq" "J \<in> set (jq ! b)" and r: "r \<in> set (requirements sa (job_name J))" for b J r
    proof -
      obtain i where i: "i < length nodes" "ec ! i = b" "J = nodes ! i" using node [OF bJ] by blast
      obtain k where k: "(k, i) \<in> set g" "k < length nodes" "job_name (nodes ! k) = r" using req [OF i(1)] r i(3) by blast
      have "ec ! k < b" using level_ok_less [of g ec i k] level [OF i(1)] k(1) i(2) by blast
      with level [OF k(2)] k(3) show ?thesis by blast
    qed
    moreover have "\<exists>r\<in>set (requirements sa (job_name J)). \<exists>K\<in>set (jq ! (b - 1)). job_name K = r"
      if bJ: "b < length jq" "J \<in> set (jq ! b)" and b: "0 < b" for b J
    proof -
      obtain i where i: "i < length nodes" "ec ! i = b" "J = nodes ! i" using node [OF bJ] by blast
      obtain a where a: "(a, i) \<in> set g" "Suc (ec ! a) = b" using level_ok_pred [of g ec i] level [OF i(1)] i(2) b by auto
      from a(2) have "ec ! a = b - 1" by simp
      with level [of a] edge [OF a(1)] i(3) show ?thesis by auto
    qed
    ultimately show ?thesis using run jq by simp
  qed
qed

section \<open>A sort that keeps the promise\<close>

definition ready_node :: "graph \<Rightarrow> nat list \<Rightarrow> nat \<Rightarrow> bool" where
  "ready_node g seen i \<longleftrightarrow> list_all (\<lambda>(a, b). b = i \<longrightarrow> a \<in> set seen) g"

fun visit_nodes :: "nat \<Rightarrow> graph \<Rightarrow> nat list \<Rightarrow> nat list \<Rightarrow> string + nat list" where
  "visit_nodes 0 g rest seen = (if rest = [] then Inr seen else Inl ''not a dag'')"
| "visit_nodes (Suc n) g rest seen = (case filter (ready_node g seen) rest of
     [] \<Rightarrow> (if rest = [] then Inr seen else Inl ''not a dag'')
   | i # _ \<Rightarrow> visit_nodes n g (remove1 i rest) (seen @ [i]))"

definition simple_sort :: "nat \<Rightarrow> graph \<Rightarrow> string + nat list" where
  "simple_sort n g = visit_nodes n g [0..<n] []"

lemma stuck_cyclic:
  assumes "filter (ready_node g seen) rest = []" and "rest \<noteq> []" and "\<And>a b. (a, b) \<in> set g \<Longrightarrow> a \<in> set (seen @ rest)"
  shows "\<not> acyclic (set g)"
proof
  assume "acyclic (set g)"
  then have "wf (set g)" by (simp add: finite_acyclic_wf)
  then obtain z where z: "z \<in> set rest" "\<And>y. (y, z) \<in> set g \<Longrightarrow> y \<notin> set rest"
    using assms(2) by (metis wfE_min set_empty ex_in_conv)
  with assms(1) obtain a where "(a, z) \<in> set g" "a \<notin> set seen" by (auto simp: filter_empty_conv ready_node_def list_all_iff)
  with assms(3) [of a z] z(2) [of a] show False by auto
qed

lemma precedes_snoc: "precedes xs a b \<Longrightarrow> precedes (xs @ ys) a b"
  by (auto simp: precedes_def takeWhile_append1)

lemma visit_nodes_sorts:
  assumes "distinct (seen @ rest)" and "set (seen @ rest) = {..<n}" and "m = length rest"
    and "\<And>a b. (a, b) \<in> set g \<Longrightarrow> a < n \<and> b < n" and "\<And>a b. (a, b) \<in> set g \<Longrightarrow> b \<in> set seen \<Longrightarrow> precedes seen a b"
  shows "case visit_nodes m g rest seen of Inr order \<Rightarrow> is_order n g order | Inl _ \<Rightarrow> \<not> acyclic (set g)"
  using assms
proof (induction m g rest seen rule: visit_nodes.induct)
  case (1 g rest seen)
  then show ?case by (auto simp: is_order_def list_all_iff)
next
  case (2 m g rest seen)
  show ?case
  proof (cases "filter (ready_node g seen) rest")
    case Nil
    have rng: "a \<in> set (seen @ rest)" if "(a, b) \<in> set g" for a b using 2(3) 2(5) [OF that] by simp
    have ne: "rest \<noteq> []" using 2(4) by auto
    have "\<not> acyclic (set g)" by (rule stuck_cyclic [OF Nil ne]) (rule rng)
    with Nil ne show ?thesis by simp
  next
    case (Cons i js)
    then have "i \<in> set (filter (ready_node g seen) rest)" by simp
    then have i: "i \<in> set rest" "ready_node g seen i" by simp_all
    have fresh: "i \<notin> set seen" using 2(2) i(1) by auto
    have prec: "precedes (seen @ [i]) a b" if "(a, b) \<in> set g" "b \<in> set (seen @ [i])" for a b
    proof (cases "b = i")
      case True
      with that(1) i(2) have "a \<in> set seen" by (auto simp: ready_node_def list_all_iff)
      moreover have "takeWhile (\<lambda>x. x \<noteq> i) (seen @ [i]) = seen" using fresh by (induction seen) auto
      ultimately show ?thesis using True by (simp add: precedes_def)
    next
      case False
      with that 2(6) [OF that(1)] show ?thesis by (intro precedes_snoc) simp
    qed
    have "case visit_nodes m g (remove1 i rest) (seen @ [i]) of Inr order \<Rightarrow> is_order n g order | Inl _ \<Rightarrow> \<not> acyclic (set g)"
    proof (rule 2(1) [OF Cons])
      show "distinct ((seen @ [i]) @ remove1 i rest)" "set ((seen @ [i]) @ remove1 i rest) = {..<n}" "m = length (remove1 i rest)"
        using 2(2-4) i(1) by (auto simp: length_remove1)
    qed (use 2(5) prec in auto)
    then show ?thesis by (simp add: Cons)
  qed
qed

lemma simple_sort_sorts: "sorts_topologically simple_sort"
  unfolding sorts_topologically_def simple_sort_def
  by (intro allI impI visit_nodes_sorts) (auto simp: list_all_iff)

definition demo_queue :: "(string, string json) smap" where
  "demo_queue = [(''do_get_c_a_v1'', JObject [(''require'', JArray [JString ''do_get_c_b_v1''])]), (''do_get_c_b_v1'', JObject [])]"

theorem job_queue_batches_witness:
  "\<exists>J K w'. job_queue demo_jm_env simple_sort (JObject demo_queue) demo_jm_world = (Inr [[J], [K]], w')
     \<and> job_name J = ''do_get_c_b_v1'' \<and> job_name K = ''do_get_c_a_v1''"
proof -
  obtain nodes w' where run: "queue_nodes demo_jm_env demo_queue demo_jm_world = (Inr nodes, w')"
      and names: "map job_name nodes = [''do_get_c_a_v1'', ''do_get_c_b_v1'']"
  proof -
    have "case queue_nodes demo_jm_env demo_queue demo_jm_world of
        (Inl _, _) \<Rightarrow> False | (Inr nodes, _) \<Rightarrow> map job_name nodes = [''do_get_c_a_v1'', ''do_get_c_b_v1'']" by code_simp
    with that show ?thesis by (auto split: prod.splits sum.splits)
  qed
  from names obtain A B where nodes: "nodes = [A, B]" "job_name A = ''do_get_c_a_v1''" "job_name B = ''do_get_c_b_v1''"
    by (auto simp: map_eq_Cons_conv)
  have "find_node ''do_get_c_b_v1'' nodes = Some 1" by (simp add: nodes)
  then have edges: "all_edges demo_queue nodes 0 nodes = Inr [(1, 0)]"
    by (simp add: nodes node_edges_def demo_queue_def smap_find_def json_hasKey_def json_get_def array_elems_def json_as_string_def)
  have "queue_batches simple_sort [(1, 0)] nodes = Inr [[B], [A]]"
    by (simp add: nodes queue_batches_def simple_sort_def ready_node_def in_sources_def group_push_def smap_find_def upt_rec numeral_2_eq_2)
  then have q: "job_queue demo_jm_env simple_sort (JObject demo_queue) demo_jm_world = (Inr [[B], [A]], w')"
    using run edges by (simp add: job_queue_def json_empty_def json_as_object_def sx_defs demo_queue_def)
  from job_queue_batches [OF simple_sort_sorts refl run edges] q nodes(2,3) show ?thesis by blast
qed

end
