(* ===== verification/GB_Objects.thy ===== *)
theory GB_Objects
  imports GB_StatusTransient GB_StatusSql GB_JobManager
begin

text \<open>
  The status objects of a process: \<^verbatim>\<open>Status\<close> holds one of the implementation classes and forwards every call to
  it. An object is the value of its members; what objects share (the blocks of the transient statuses, the
  database) is in the world of the process. \<^verbatim>\<open>StatusManager\<close> makes the objects. Computations may also not
  return: a loop that waits for something that never happens has no result.
\<close>

section \<open>Computations that may not return\<close>

named_theorems px_defs "unfolding rules of the computations that may not return"

type_synonym ('s, 'e, 'a) px = "'s \<Rightarrow> (('e + 'a) \<times> 's) option"

definition px_of :: "('s, 'e, 'a) sx \<Rightarrow> ('s, 'e, 'a) px" where
  "px_of m = (\<lambda>s. Some (m s))"

definition px_bind :: "('s, 'e, 'a) px \<Rightarrow> ('a \<Rightarrow> ('s, 'e, 'b) px) \<Rightarrow> ('s, 'e, 'b) px" where
  "px_bind m f = (\<lambda>s. case m s of None \<Rightarrow> None | Some (Inl e, s') \<Rightarrow> Some (Inl e, s') | Some (Inr a, s') \<Rightarrow> f a s')"

definition px_then :: "('s, 'e, 'a) px \<Rightarrow> ('s, 'e, 'b) px \<Rightarrow> ('s, 'e, 'b) px" where
  "px_then m n = px_bind m (\<lambda>_. n)"

definition px_catch :: "('s, 'e, 'a) px \<Rightarrow> ('e \<Rightarrow> ('s, 'e, 'a) px) \<Rightarrow> ('s, 'e, 'a) px" where
  "px_catch m h = (\<lambda>s. case m s of None \<Rightarrow> None | Some (Inl e, s') \<Rightarrow> h e s' | Some (Inr a, s') \<Rightarrow> Some (Inr a, s'))"

definition px_return :: "'a \<Rightarrow> ('s, 'e, 'a) px" where
  "px_return a = (\<lambda>s. Some (Inr a, s))"

definition px_throw :: "'e \<Rightarrow> ('s, 'e, 'a) px" where
  "px_throw e = (\<lambda>s. Some (Inl e, s))"

definition px_get :: "('s \<Rightarrow> 'a) \<Rightarrow> ('s, 'e, 'a) px" where
  "px_get f = (\<lambda>s. Some (Inr (f s), s))"

definition px_modify :: "('s \<Rightarrow> 's) \<Rightarrow> ('s, 'e, unit) px" where
  "px_modify f = (\<lambda>s. Some (Inr (), f s))"

definition px_lift :: "'e + 'a \<Rightarrow> ('s, 'e, 'a) px" where
  "px_lift r = (\<lambda>s. Some (r, s))"

definition px_when :: "bool \<Rightarrow> ('s, 'e, unit) px \<Rightarrow> ('s, 'e, unit) px" where
  "px_when b m = (if b then m else px_return ())"

declare px_of_def [px_defs] px_bind_def [px_defs] px_then_def [px_defs] px_catch_def [px_defs] px_return_def [px_defs]
  px_throw_def [px_defs] px_get_def [px_defs] px_modify_def [px_defs] px_lift_def [px_defs] px_when_def [px_defs]

lemma px_bind_of: "px_bind (px_of m) (\<lambda>a. px_of (f a)) = px_of (sx_bind m f)"
  by (rule ext) (simp add: px_defs sx_bind_def split: prod.split sum.split)

lemma px_bind_Inr: "px_bind m f s = Some (Inr b, s') \<longleftrightarrow> (\<exists>a t. m s = Some (Inr a, t) \<and> f a t = Some (Inr b, s'))"
  by (auto simp: px_bind_def split: option.splits prod.splits sum.splits)

text \<open>Loops are fixed points in this monad.\<close>

lemma px_bind_option: "px_bind m f s = Option.bind (m s) (\<lambda>(r, s'). case r of Inl e \<Rightarrow> Some (Inl e, s') | Inr a \<Rightarrow> f a s')"
  by (simp add: px_bind_def split: option.split prod.split sum.split)

lemma px_bind_mono [partial_function_mono]:
  assumes "mono_option (\<lambda>F. m F s)" and "\<And>a s'. mono_option (\<lambda>F. f F a s')"
  shows "mono_option (\<lambda>F. px_bind (m F) (f F) s)"
proof -
  have "mono_option (\<lambda>F. case y of (r, s') \<Rightarrow> (case r of Inl e \<Rightarrow> Some (Inl e, s') | Inr a \<Rightarrow> f F a s'))" for y
    using assms(2) by (cases y; cases "fst y") (auto intro: option.const_mono)
  from bind_mono [OF assms(1), of "\<lambda>y F. case y of (r, s') \<Rightarrow> (case r of Inl e \<Rightarrow> Some (Inl e, s') | Inr a \<Rightarrow> f F a s')", OF this]
  show ?thesis unfolding px_bind_option .
qed

section \<open>Loops that repeat an attempt\<close>

text \<open>
  The contract of a loop that makes the same attempt until one of them ends it. An attempt may not return; it asks for another one, or it has the result
  of the loop. The loop is the least solution of its equation: a result has been reached in finitely many attempts.
\<close>

fun ends_after :: "('s \<Rightarrow> ('r option \<times> 's) option) \<Rightarrow> nat \<Rightarrow> 's \<Rightarrow> 'r \<times> 's \<Rightarrow> bool" where
  "ends_after att 0 s y \<longleftrightarrow> att s = Some (Some (fst y), snd y)"
| "ends_after att (Suc n) s y \<longleftrightarrow> (\<exists>s'. att s = Some (None, s') \<and> ends_after att n s' y)"

locale retried =
  fixes attempt :: "'s \<Rightarrow> ('r option \<times> 's) option" and loop :: "'s \<Rightarrow> ('r \<times> 's) option"
  assumes loop_step: "loop s = (case attempt s of None \<Rightarrow> None | Some (None, s') \<Rightarrow> loop s' | Some (Some r, s') \<Rightarrow> Some (r, s'))"
    and loop_least: "loop s = Some y \<Longrightarrow> (\<And>s r s'. attempt s = Some (Some r, s') \<Longrightarrow> P s (r, s'))
      \<Longrightarrow> (\<And>s s' y. attempt s = Some (None, s') \<Longrightarrow> P s' y \<Longrightarrow> P s y) \<Longrightarrow> P s y"
begin

lemma after_returns: "ends_after attempt n s y \<Longrightarrow> loop s = Some y"
  by (induction n arbitrary: s) (auto simp: loop_step)

lemma returns_iff: "loop s = Some y \<longleftrightarrow> (\<exists>n. ends_after attempt n s y)"
proof
  assume "loop s = Some y"
  then show "\<exists>n. ends_after attempt n s y"
  proof (rule loop_least [where P = "\<lambda>s y. \<exists>n. ends_after attempt n s y"])
    show "\<exists>n. ends_after attempt n s (r, s')" if "attempt s = Some (Some r, s')" for s r s'
      using that by (intro exI [of _ 0]) simp
    show "\<exists>n. ends_after attempt n s y" if "attempt s = Some (None, s')" and "\<exists>n. ends_after attempt n s' y" for s s' y
      using that by (metis ends_after.simps(2))
  qed
qed (use after_returns in blast)

text \<open>A loop none of whose attempts can succeed does not return.\<close>

lemma stuck:
  assumes "I s" and "\<And>s r s'. I s \<Longrightarrow> attempt s \<noteq> Some (Some r, s')" and "\<And>s s'. I s \<Longrightarrow> attempt s = Some (None, s') \<Longrightarrow> I s'"
  shows "loop s = None"
proof (rule ccontr)
  assume "loop s \<noteq> None"
  then obtain y where "loop s = Some y" by blast
  then have "\<not> I s" by (rule loop_least [where P = "\<lambda>s y. \<not> I s"]) (use assms(2,3) in blast)+
  with assms(1) show False by blast
qed

text \<open>What every attempt that ends the loop leaves, the loop leaves.\<close>

lemma result:
  assumes "loop s = Some (r, s')" and "\<And>s r s'. attempt s = Some (Some r, s') \<Longrightarrow> Q r"
  shows "Q r"
  using assms(1) by (rule loop_least [where P = "\<lambda>s y. Q (fst y)" and y = "(r, s')", simplified]) (use assms(2) in auto)

text \<open>A loop every attempt of which comes back, and each repetition of which brings the end nearer, returns.\<close>

lemma returns:
  assumes "I s" and "\<And>s. I s \<Longrightarrow> attempt s \<noteq> None" and "\<And>s s'. I s \<Longrightarrow> attempt s = Some (None, s') \<Longrightarrow> I s' \<and> f s' < (f s :: nat)"
  shows "\<exists>y. loop s = Some y"
  using assms(1)
proof (induction "f s" arbitrary: s rule: less_induct)
  case less
  obtain x s' where x: "attempt s = Some (x, s')" using assms(2) [OF less.prems] by (cases "attempt s") auto
  show ?case
  proof (cases x)
    case None
    with x assms(3) [OF less.prems] less.hyps [of s'] show ?thesis by (subst loop_step) auto
  qed (use x in \<open>subst loop_step, auto\<close>)
qed

end

text \<open>The loop itself, for an attempt on a state.\<close>

partial_function (option) repeat_until :: "('s \<Rightarrow> ('r option \<times> 's) option) \<Rightarrow> 's \<Rightarrow> ('r \<times> 's) option" where
  "repeat_until att s = (case att s of
     None \<Rightarrow> None
   | Some x \<Rightarrow> (case fst x of None \<Rightarrow> repeat_until att (snd x) | Some r \<Rightarrow> Some (r, snd x)))"

interpretation repeat: retried att "repeat_until att" for att
proof
  fix s show "repeat_until att s = (case att s of None \<Rightarrow> None | Some (None, s') \<Rightarrow> repeat_until att s' | Some (Some r, s') \<Rightarrow> Some (r, s'))"
    by (subst repeat_until.simps) (simp split: option.split prod.split)
next
  fix s y P
  assume "repeat_until att s = Some y" and "\<And>s r s'. att s = Some (Some r, s') \<Longrightarrow> P s (r, s')"
    and "\<And>s s' y. att s = Some (None, s') \<Longrightarrow> P s' y \<Longrightarrow> P s y"
  then show "P s y"
    by (rule_tac repeat_until.raw_induct [where P = "\<lambda>a s y. a = att \<longrightarrow> P s y", rule_format])
      (auto split: option.splits prod.splits)
qed

text \<open>The attempt of a loop whose body says whether it is to be repeated, and the one of a loop whose body gives a result and a verdict on it.\<close>

definition while_again :: "('s, 'e, bool) px \<Rightarrow> 's \<Rightarrow> (('e + unit) option \<times> 's) option" where
  "while_again m s = (case m s of None \<Rightarrow> None | Some (Inl e, s') \<Rightarrow> Some (Some (Inl e), s')
     | Some (Inr again, s') \<Rightarrow> Some (if again then None else Some (Inr ()), s'))"

lemma while_again_simps:
  "while_again m s = Some (None, s') \<longleftrightarrow> m s = Some (Inr True, s')"
  "while_again m s = Some (Some r, s') \<longleftrightarrow> (\<exists>e. r = Inl e \<and> m s = Some (Inl e, s')) \<or> (r = Inr () \<and> m s = Some (Inr False, s'))"
  by (auto simp: while_again_def split: option.splits prod.splits sum.splits if_splits)

definition until_ok :: "('s, 'e, 'a) px \<Rightarrow> ('a \<Rightarrow> ('s, 'e, bool) px) \<Rightarrow> 's \<Rightarrow> (('e + 'a) option \<times> 's) option" where
  "until_ok m ok s = (case px_bind m (\<lambda>r. px_bind (ok r) (\<lambda>b. px_return (b, r))) s of None \<Rightarrow> None | Some (Inl e, s') \<Rightarrow> Some (Some (Inl e), s')
     | Some (Inr (b, r), s') \<Rightarrow> Some (if b then Some (Inr r) else None, s'))"

lemma until_ok_simps:
  "until_ok m ok s = Some (None, s') \<longleftrightarrow> (\<exists>r t. m s = Some (Inr r, t) \<and> ok r t = Some (Inr False, s'))"
  "until_ok m ok s = Some (Some (Inr r), s') \<longleftrightarrow> (\<exists>t. m s = Some (Inr r, t) \<and> ok r t = Some (Inr True, s'))"
  by (auto simp: until_ok_def px_defs split: option.splits prod.splits sum.splits if_splits)

section \<open>Objects\<close>

record ('d, 'x) rworld =
  rw_jm :: "'d jm_world"
  rw_t :: "'d tworld"
  rw_db :: "'d sqldb"
  rw_heap :: nat
  rw_x :: 'x

datatype job_kind = GearmanKind | RestKind

text \<open>A job status keeps the job that fetches it, through gearman or over HTTP.\<close>

datatype 'd sobj =
    TransientObj (o_attrs: "'d status") (o_block: "nat option")
  | SqlObj (o_attrs: "'d status") (o_loaded: bool) (o_should_load: bool) (o_messages_loaded: bool)
      (o_children_loaded: bool) (o_meta_loaded: bool)
  | JobObj (o_attrs: "'d status") (o_data: "'d json") (o_kind: job_kind) (o_job: "'d job")

type_synonym ('d, 'x, 'a) on_obj = "('d sobj \<times> ('d, 'x) rworld, gb_exn, 'a) sx"

text \<open>A member of an object: the implementation its class has for it.\<close>

definition on_transient :: "('d tworld, gb_exn, 'a) sx \<Rightarrow> 'd status \<Rightarrow> nat option \<Rightarrow> ('d, 'x) rworld
    \<Rightarrow> (gb_exn + 'a) \<times> 'd sobj \<times> ('d, 'x) rworld" where
  "on_transient m s b w = (let (r, t) = m ((rw_t w)\<lparr>t_obj := s, t_ref := b\<rparr>)
     in (r, TransientObj (t_obj t) (t_ref t), w\<lparr>rw_t := t\<rparr>))"

definition sql_view :: "'d sobj \<Rightarrow> ('d, 'x) rworld \<Rightarrow> 'd sworld" where
  "sql_view ob w = \<lparr>q_db = rw_db w, q_obj = o_attrs ob, q_loaded = o_loaded ob, q_should_load = o_should_load ob,
     q_messages_loaded = o_messages_loaded ob, q_children_loaded = o_children_loaded ob, q_meta_loaded = o_meta_loaded ob\<rparr>"

definition sql_back :: "'d sworld \<Rightarrow> ('d, 'x) rworld \<Rightarrow> 'd sobj \<times> ('d, 'x) rworld" where
  "sql_back q w = (SqlObj (q_obj q) (q_loaded q) (q_should_load q) (q_messages_loaded q) (q_children_loaded q) (q_meta_loaded q),
     w\<lparr>rw_db := q_db q\<rparr>)"

definition obj_call :: "('d tworld, gb_exn, 'a) sx \<Rightarrow> ('d sworld, gb_exn, 'a) sx \<Rightarrow> ('d status, gb_exn, 'a) sx
    \<Rightarrow> ('d, 'x, 'a) on_obj" where
  "obj_call mt mq mj = (\<lambda>(ob, w). case ob of
     TransientObj s b \<Rightarrow> on_transient mt s b w
   | SqlObj _ _ _ _ _ _ \<Rightarrow> (let (r, q) = mq (sql_view ob w) in (r, sql_back q w))
   | JobObj s d k j \<Rightarrow> (let (r, s') = mj s in (r, JobObj s' d k j, w)))"

text \<open>The members of \<^verbatim>\<open>JobStatusImpl\<close>, which are those of the base class on the attributes alone.\<close>

definition base_vt :: "int \<Rightarrow> 'd status status_vtbl" where
  "base_vt now = \<lparr>
     v_state = sx_get s_state,
     v_set_state = (\<lambda>st s. let (b, s') = set_state now st s in (Inr b, s')),
     v_progress = sx_get s_progress,
     v_set_progress = (\<lambda>p. sx_modify (set_progress now p)),
     v_code = sx_get s_code,
     v_set_code = (\<lambda>c. sx_modify (set_code c)),
     v_set_mtime = sx_modify (touch now),
     v_sync = sx_return (),
     v_fail = (\<lambda>_. sx_return ()), v_cancel = sx_return (), v_success = sx_return ()\<rparr>"

definition so_name :: "'d sobj \<Rightarrow> string" where
  "so_name ob = s_name (o_attrs ob)"

definition so_uri :: "'d sobj \<Rightarrow> string" where
  "so_uri ob = (case ob of
     TransientObj s _ \<Rightarrow> transient_base_uri @ ''/status/'' @ s_name s
   | _ \<Rightarrow> status_uri (o_attrs ob))"

definition so_impltype :: "'d sobj \<Rightarrow> string" where
  "so_impltype ob = (case ob of TransientObj _ _ \<Rightarrow> ''transient'' | SqlObj _ _ _ _ _ _ \<Rightarrow> ''sql'' | JobObj _ _ _ _ \<Rightarrow> ''job'')"

definition so_state :: "int \<Rightarrow> ('d, 'x, status_state) on_obj" where
  "so_state now = obj_call (v_state (transient_vt now)) (v_state (sql_vt now)) (v_state (base_vt now))"

definition so_set_state :: "int \<Rightarrow> status_state \<Rightarrow> ('d, 'x, bool) on_obj" where
  "so_set_state now st = obj_call (v_set_state (transient_vt now) st) (v_set_state (sql_vt now) st) (v_set_state (base_vt now) st)"

definition so_progress :: "int \<Rightarrow> ('d, 'x, nat) on_obj" where
  "so_progress now = obj_call (v_progress (transient_vt now)) (v_progress (sql_vt now)) (v_progress (base_vt now))"

definition so_set_progress :: "int \<Rightarrow> nat \<Rightarrow> ('d, 'x, unit) on_obj" where
  "so_set_progress now p = obj_call (v_set_progress (transient_vt now) p) (v_set_progress (sql_vt now) p) (v_set_progress (base_vt now) p)"

definition so_code :: "int \<Rightarrow> ('d, 'x, int) on_obj" where
  "so_code now = obj_call (v_code (transient_vt now)) (v_code (sql_vt now)) (v_code (base_vt now))"

definition so_fail :: "int \<Rightarrow> int \<Rightarrow> ('d, 'x, unit) on_obj" where
  "so_fail now c = obj_call (v_fail (transient_vt now) c) (v_fail (sql_vt now) c) (StatusImpl_fail (base_vt now) c)"

definition so_success :: "int \<Rightarrow> ('d, 'x, unit) on_obj" where
  "so_success now = obj_call (v_success (transient_vt now)) (v_success (sql_vt now)) (StatusImpl_success (base_vt now))"

definition so_cancel :: "int \<Rightarrow> ('d, 'x, unit) on_obj" where
  "so_cancel now = obj_call (v_cancel (transient_vt now)) (v_cancel (sql_vt now)) (StatusImpl_cancel (base_vt now))"

definition so_is_success :: "int \<Rightarrow> ('d, 'x, bool) on_obj" where
  "so_is_success now = obj_call (Status_is_success (transient_vt now)) (Status_is_success (sql_vt now)) (Status_is_success (base_vt now))"

definition so_add_message :: "int \<Rightarrow> string \<Rightarrow> ('d, 'x, unit) on_obj" where
  "so_add_message now m = obj_call (t_add_message now m) (sx_modify (q_add_message now m)) (sx_modify (add_message now m))"

definition so_messages :: "('d, 'x, string list) on_obj" where
  "so_messages = obj_call (sx_get (\<lambda>w. s_messages (t_obj w))) (\<lambda>w. let w' = q_messages w in (Inr (s_messages (q_obj w')), w'))
     (sx_get s_messages)"

definition so_ytime :: "int \<Rightarrow> ('d, 'x, unit) on_obj" where
  "so_ytime t = obj_call (sx_modify (t_ytime t)) (sx_modify (q_ytime t)) (sx_modify (set_ytime t))"

definition so_failures :: "int \<Rightarrow> ('d, 'x, nat) on_obj" where
  "so_failures now = obj_call (sx_get (\<lambda>w. s_failures (t_obj w))) (q_lazy now s_failures) (sx_get s_failures)"

definition so_set_failures :: "nat \<Rightarrow> ('d, 'x, unit) on_obj" where
  "so_set_failures n = obj_call (sx_modify (t_failures n)) (sx_modify (q_failures n)) (sx_modify (set_failures n))"

text \<open>Counting the jobs that run under a status is not implemented for remote ones.\<close>

definition so_starting :: "('d, 'x, unit) on_obj" where
  "so_starting = obj_call (sx_modify t_starting) (sx_modify q_starting) JsonStatus_starting"

definition so_stopping :: "('d, 'x, unit) on_obj" where
  "so_stopping = obj_call (sx_modify t_stopping) (sx_modify q_stopping) JsonStatus_stopping"

section \<open>The status manager\<close>

datatype status_type = STATUS_NONE | STATUS_PLUGIN | STATUS_TRANSIENT | STATUS_JOB

definition string_to_type :: "string \<Rightarrow> status_type" where
  "string_to_type str = (if str = ''transient'' then STATUS_TRANSIENT else if str = ''job'' then STATUS_JOB else STATUS_PLUGIN)"

record status_manager =
  sm_base_uri :: string
  sm_typestr :: string
  sm_type :: status_type

definition StatusManager_typed :: "string \<Rightarrow> status_manager" where
  "StatusManager_typed t = \<lparr>sm_base_uri = [], sm_typestr = t, sm_type = string_to_type t\<rparr>"

definition StatusManager :: "'d json \<Rightarrow> gb_exn + status_manager" where
  "StatusManager cfg = res_bind (get_string2_default ''status'' ''persistence_type'' ''sql'' cfg) (\<lambda>t. Inr (StatusManager_typed t))"

text \<open>Assignment copies all members but the name of the type.\<close>

definition StatusManager_assign :: "status_manager \<Rightarrow> status_manager \<Rightarrow> status_manager" where
  "StatusManager_assign self copy = self\<lparr>sm_base_uri := sm_base_uri copy, sm_type := sm_type copy\<rparr>"

definition no_plugin :: "string \<Rightarrow> gb_exn" where
  "no_plugin t = ERR_INTERNAL_SERVER_ERROR (''no plugin found for status persistence type of '' @ t)"

text \<open>
  \<^verbatim>\<open>newStatusImpl\<close>: an object without a name, of the class the type asks for; of the plugins, the one for SQL is
  installed. A job status without a job is dereferenced as soon as it is loaded.
\<close>

definition newStatusImpl :: "int \<Rightarrow> status_manager \<Rightarrow> gb_exn + 'd sobj" where
  "newStatusImpl now sm = (case sm_type sm of
     STATUS_PLUGIN \<Rightarrow> (if sm_typestr sm = ''sql'' then Inr (SqlObj (new_status now) False False False False False)
        else Inl (no_plugin (sm_typestr sm)))
   | STATUS_TRANSIENT \<Rightarrow> Inr (TransientObj (new_status now) None)
   | STATUS_JOB \<Rightarrow> Inr (JobObj (new_status now) JUndef GearmanKind (Job new_job_attrs [] None))
   | STATUS_NONE \<Rightarrow> Inl (ERR_INTERNAL_SERVER_ERROR ''Unknown Status Implementation Type''))"

text \<open>\<^verbatim>\<open>create\<close>: inserting an SQL status under a name that is taken never succeeds, and there is no insert for job statuses.\<close>

definition sm_create :: "int \<Rightarrow> status_manager \<Rightarrow> string \<Rightarrow> string \<Rightarrow> string \<Rightarrow> string
    \<Rightarrow> (('d, 'x) rworld, gb_exn, 'd sobj) px" where
  "sm_create now sm n op uri compo =
     px_bind (px_lift (newStatusImpl now sm)) (\<lambda>ob w. case ob of
       TransientObj _ _ \<Rightarrow>
         (let t = t_create now (sm_base_uri sm) n op uri compo (rw_t w)
          in Some (Inr (TransientObj (t_obj t) (t_ref t)), w\<lparr>rw_t := t\<rparr>))
     | SqlObj s l sl ml cl mel \<Rightarrow>
         (let s' = set_component now compo (set_resource_uri now uri (set_operation now op (set_name now n (set_base_uri (sm_base_uri sm) s))));
              (_, q) = q_set_state now STATE_PENDING (sql_view (SqlObj s' l sl ml cl mel) w)
          in case q_insert q of None \<Rightarrow> None | Some q' \<Rightarrow> (let (ob', w') = sql_back q' w in Some (Inr ob', w')))
     | JobObj _ _ _ _ \<Rightarrow> Some (Inl (StdError ''job status insert not implemented''), w))"

definition sm_fetch :: "int \<Rightarrow> status_manager \<Rightarrow> string \<Rightarrow> (('d, 'x) rworld, gb_exn, 'd sobj) px" where
  "sm_fetch now sm n =
     px_bind (px_lift (newStatusImpl now sm)) (\<lambda>ob w. case ob of
       TransientObj _ _ \<Rightarrow>
         (case t_fetch now (sm_base_uri sm) n (rw_t w) of
            (Inl e, t) \<Rightarrow> Some (Inl e, w\<lparr>rw_t := t\<rparr>)
          | (Inr _, t) \<Rightarrow> Some (Inr (TransientObj (t_obj t) (t_ref t)), w\<lparr>rw_t := t\<rparr>))
     | SqlObj s l sl ml cl mel \<Rightarrow>
         (let q = q_load (sql_view (SqlObj (set_name now n (set_base_uri (sm_base_uri sm) s)) l sl ml cl mel) w);
              (ob', w') = sql_back q w in Some (Inr ob', w'))
     | JobObj _ _ _ _ \<Rightarrow> Some (Inl NullDereference, w))"

end
