(* ===== verification/GB_Http.thy ===== *)
theory GB_Http
  imports GB_Job
begin

text \<open>
  \<^verbatim>\<open>core/HttpClient.cc\<close> and \<^verbatim>\<open>core/REST.cc\<close>: the HTTP client on top of libcurl and the calls that speak JSON through it. What the
  client tells libcurl is a list of options; the transfer is a parameter, which gets the options and what is left of the
  body, and gives the result code, the lines of the headers, the content and how much of the body was read.
\<close>

section \<open>Exceptions\<close>

definition http_what :: "string \<Rightarrow> string" where
  "http_what msg = strlcpy (''HttpClient Error: '' @ msg) 512"

definition HttpClientError :: "string \<Rightarrow> gb_exn" where
  "HttpClientError msg = StdError (http_what msg)"

text \<open>What an attempt throws: the two classes after which it may be repeated, and everything else.\<close>

datatype http_exn = RetryTimeoutError string | RetryConnectError string | NoRetry gb_exn

section \<open>Responses\<close>

definition line_field :: "string \<Rightarrow> (string \<times> string) option" where
  "line_field line = (case str_find_if (\<lambda>c. c = CHR '':'') line of
     None \<Rightarrow> None
   | Some i \<Rightarrow> Some (str_tolower (take i line), rev (dropWhile is_space (rev (dropWhile is_space (drop (i + 1) line))))))"

text \<open>\<^verbatim>\<open>_read_response_headers\<close>, called for every line: values of the same field are joined with commas.\<close>

definition add_field :: "string \<Rightarrow> string \<Rightarrow> hash \<Rightarrow> hash" where
  "add_field f v h = (let stored = hash_get_default f [] h in
     smap_put f ((if stored \<noteq> [] then stored @ '','' else []) @ v) h)"

definition read_response_headers :: "string \<Rightarrow> hash \<Rightarrow> hash" where
  "read_response_headers line h =
     (if take 5 line = ''HTTP/'' then []
      else case line_field line of None \<Rightarrow> h | Some (f, v) \<Rightarrow> add_field f v h)"

record http_response =
  hr_code :: int
  hr_headers :: hash

definition response_header :: "string \<Rightarrow> http_response \<Rightarrow> string option" where
  "response_header field r = smap_find (hr_headers r) (str_tolower field)"

definition response_header_text :: "string \<Rightarrow> http_response \<Rightarrow> string" where
  "response_header_text field r = (case response_header field r of None \<Rightarrow> [] | Some v \<Rightarrow> v)"

definition get_headers :: "http_response \<Rightarrow> hash \<Rightarrow> hash" where
  "get_headers r h = fold (\<lambda>(k, v). smap_put k v) (hr_headers r) h"

section \<open>The client\<close>

record http_client =
  hc_follow :: bool
  hc_headers :: hash
  hc_http_proxy :: string
  hc_socks_proxy :: string
  hc_timeout :: "http_method \<Rightarrow> int"
  hc_attempts :: "http_method \<Rightarrow> int"
  hc_idle :: "http_method \<Rightarrow> int"
  hc_connect_attempts :: int
  hc_cookies :: hash
  hc_cookiejar :: string

definition new_client :: http_client where
  "new_client = \<lparr>hc_follow = False, hc_headers = [], hc_http_proxy = [], hc_socks_proxy = [],
     hc_timeout = (\<lambda>m. if m = METHOD_GET \<or> m = METHOD_HEAD then 15 else if m = METHOD_UNKNOWN then 0 else 300),
     hc_attempts = (\<lambda>m. if m = METHOD_GET \<or> m = METHOD_HEAD then 3 else if m = METHOD_UNKNOWN then 0 else 1),
     hc_idle = (\<lambda>_. 0), hc_connect_attempts = 10, hc_cookies = [], hc_cookiejar = []\<rparr>"

text \<open>The copy constructor.\<close>

definition copy_client :: "http_client \<Rightarrow> http_client" where
  "copy_client src = \<lparr>hc_follow = hc_follow src, hc_headers = hc_headers src, hc_http_proxy = hc_http_proxy src,
     hc_socks_proxy = hc_socks_proxy src, hc_timeout = hc_timeout src, hc_attempts = hc_attempts src, hc_idle = hc_timeout src,
     hc_connect_attempts = 10, hc_cookies = [], hc_cookiejar = []\<rparr>"

definition get_header :: "string \<Rightarrow> http_client \<Rightarrow> string" where
  "get_header f c = (case smap_find (hc_headers c) (str_tolower f) of None \<Rightarrow> [] | Some v \<Rightarrow> v)"

definition set_header :: "string \<Rightarrow> string \<Rightarrow> http_client \<Rightarrow> http_client" where
  "set_header f v c = c\<lparr>hc_headers := smap_put (str_tolower f) v (hc_headers c)\<rparr>"

definition client_with :: "hash \<Rightarrow> http_client" where
  "client_with h = fold (\<lambda>(k, v). set_header k v) h new_client"

definition set_content_type :: "string \<Rightarrow> http_client \<Rightarrow> http_client" where
  "set_content_type t = set_header ''content-type'' t"

definition set_accept_type :: "string \<Rightarrow> http_client \<Rightarrow> http_client" where
  "set_accept_type t = set_header ''accept'' t"

definition set_timeout :: "http_method \<Rightarrow> int \<Rightarrow> http_client \<Rightarrow> http_client" where
  "set_timeout m secs c = c\<lparr>hc_timeout := (hc_timeout c)(m := secs)\<rparr>"

definition set_timeout_attempts :: "http_method \<Rightarrow> int \<Rightarrow> http_client \<Rightarrow> http_client" where
  "set_timeout_attempts m n c = c\<lparr>hc_attempts := (hc_attempts c)(m := n)\<rparr>"

definition set_idle_timeout :: "http_method \<Rightarrow> int \<Rightarrow> http_client \<Rightarrow> http_client" where
  "set_idle_timeout m secs c = c\<lparr>hc_idle := (hc_idle c)(m := secs)\<rparr>"

definition set_http_proxy :: "string \<Rightarrow> http_client \<Rightarrow> http_client" where
  "set_http_proxy hostport c = c\<lparr>hc_http_proxy := hostport\<rparr>"

definition set_socks_proxy :: "string \<Rightarrow> http_client \<Rightarrow> http_client" where
  "set_socks_proxy hostport c = c\<lparr>hc_socks_proxy := hostport\<rparr>"

definition follow_redirects :: "bool \<Rightarrow> http_client \<Rightarrow> http_client" where
  "follow_redirects follow c = c\<lparr>hc_follow := follow\<rparr>"

definition set_cookiejar :: "string \<Rightarrow> http_client \<Rightarrow> http_client" where
  "set_cookiejar f c = c\<lparr>hc_cookiejar := f\<rparr>"

definition set_cookie :: "string \<Rightarrow> string \<Rightarrow> http_client \<Rightarrow> http_client" where
  "set_cookie n v c = c\<lparr>hc_cookies := smap_put n v (hc_cookies c)\<rparr>"

section \<open>What libcurl is told\<close>

datatype curl_opt =
    OPT_PROXY string
  | OPT_PROXYTYPE_SOCKS4
  | OPT_FOLLOWLOCATION
  | OPT_HTTPHEADER "string list"
  | OPT_CAINFO string
  | OPT_HTTPGET
  | OPT_CUSTOMREQUEST string
  | OPT_POST
  | OPT_UPLOAD
  | OPT_NOBODY
  | OPT_TIMEOUT int
  | OPT_LOW_SPEED int int
  | OPT_SEEK_FAILS
  | OPT_COOKIEFILE string
  | OPT_COOKIEJAR string
  | OPT_COOKIE string
  | OPT_POSTFIELDSIZE nat
  | OPT_READ_STREAM
  | OPT_READ_FILE
  | OPT_WRITE_STRING
  | OPT_WRITE_FILE
  | OPT_URL string

record curl_result =
  cr_result :: nat
  cr_error :: string
  cr_lines :: "string list"
  cr_content :: string
  cr_code :: int
  cr_taken :: nat

record 'x http_env =
  he_init :: bool
  he_datadir :: string
  he_jar :: string
  he_perform :: "curl_opt list \<Rightarrow> string \<Rightarrow> 'x \<Rightarrow> curl_result \<times> 'x"
  he_fopen :: "string \<Rightarrow> string \<Rightarrow> 'x \<Rightarrow> gb_exn option \<times> 'x"

text \<open>The cookie jar of all clients of the process.\<close>

definition set_global_cookiejar :: "string \<Rightarrow> 'x http_env \<Rightarrow> 'x http_env" where
  "set_global_cookiejar f env = env\<lparr>he_jar := f\<rparr>"

definition method_opts :: "http_method \<Rightarrow> gb_exn + curl_opt list" where
  "method_opts m = (case m of
     METHOD_GET \<Rightarrow> Inr [OPT_HTTPGET]
   | METHOD_DELETE \<Rightarrow> Inr [OPT_CUSTOMREQUEST ''DELETE'']
   | METHOD_POST \<Rightarrow> Inr [OPT_POST]
   | METHOD_PUT \<Rightarrow> Inr [OPT_UPLOAD]
   | METHOD_HEAD \<Rightarrow> Inr [OPT_NOBODY]
   | METHOD_UNKNOWN \<Rightarrow> Inl (HttpClientError ''setup got a nonsensical method!''))"

fun cookie_text :: "(string \<times> string) list \<Rightarrow> string \<Rightarrow> string" where
  "cookie_text [] t = t"
| "cookie_text ((n, v) # cs) t = cookie_text cs ((if t \<noteq> [] then t @ ''; '' else []) @ n @ ''='' @ v)"

definition setup_curl :: "'x http_env \<Rightarrow> http_client \<Rightarrow> http_method \<Rightarrow> gb_exn + curl_opt list" where
  "setup_curl env c m =
     (if \<not> he_init env then Inl (HttpClientError ''Could not initialize libcurl.'')
      else res_bind (method_opts m) (\<lambda>mo. Inr (
        (if hc_http_proxy c \<noteq> [] then [OPT_PROXY (hc_http_proxy c)] else []) @
        (if hc_socks_proxy c \<noteq> [] then [OPT_PROXY (hc_socks_proxy c), OPT_PROXYTYPE_SOCKS4] else []) @
        (if hc_follow c then [OPT_FOLLOWLOCATION] else []) @
        [OPT_HTTPHEADER (map (\<lambda>(k, v). k @ '': '' @ v) (hc_headers c)), OPT_CAINFO (he_datadir env @ ''/ssl/certs/ca-bundle.crt'')] @
        mo @
        (if hc_timeout c m > 0 then [OPT_TIMEOUT (hc_timeout c m)] else []) @
        (if hc_idle c m > 0 then [OPT_LOW_SPEED 1 (hc_idle c m)] else []) @
        [OPT_SEEK_FAILS] @
        (if hc_cookiejar c \<noteq> [] then [OPT_COOKIEFILE (hc_cookiejar c), OPT_COOKIEJAR (hc_cookiejar c)]
         else if he_jar env \<noteq> [] then [OPT_COOKIEFILE (he_jar env), OPT_COOKIEJAR (he_jar env)] else []) @
        (if hc_cookies c \<noteq> [] then [OPT_COOKIE (cookie_text (hc_cookies c) [])] else []))))"

section \<open>One attempt\<close>

text \<open>
  Where the body comes from and where the content goes. The stream or the file the body is read from is opened once for
  all attempts, and so is the file the content is written to; a string for the content is cleared by every
  attempt.
\<close>

datatype http_source = NoBody | FromString string | FromFile string
datatype http_sink = NoContent | ToString | ToFile

record 'x transfer =
  tr_pos :: nat
  tr_out :: string
  tr_x :: 'x

primrec source_text :: "http_source \<Rightarrow> string" where
  "source_text NoBody = []"
| "source_text (FromString b) = b"
| "source_text (FromFile b) = b"

primrec source_opts :: "http_source \<Rightarrow> curl_opt list" where
  "source_opts NoBody = []"
| "source_opts (FromString b) = [OPT_POSTFIELDSIZE (length b), OPT_READ_STREAM]"
| "source_opts (FromFile b) = [OPT_READ_FILE]"

primrec sink_opts :: "http_sink \<Rightarrow> curl_opt list" where
  "sink_opts NoContent = []"
| "sink_opts ToString = [OPT_WRITE_STRING]"
| "sink_opts ToFile = [OPT_WRITE_FILE]"

definition request_error :: "string \<Rightarrow> curl_result \<Rightarrow> http_exn" where
  "request_error uri r = (let e = ''Error connecting to '' @ uri @ '': '' @ cr_error r @ '' [code '' @ nat_dec (cr_result r) @ '']'' in
     if cr_result r \<in> {28, 52, 55, 56, 18} then RetryTimeoutError (http_what e)
     else if cr_result r \<in> {7, 6} then RetryConnectError (http_what e)
     else NoRetry (HttpClientError e))"

definition make_request :: "'x http_env \<Rightarrow> curl_opt list \<Rightarrow> http_source \<Rightarrow> http_sink \<Rightarrow> uri \<Rightarrow> ('x transfer, http_exn, http_response) sx" where
  "make_request env opts src sink u = (\<lambda>s. case uri_canonical u of
     Inl e \<Rightarrow> (Inl (NoRetry e), s)
   | Inr t \<Rightarrow>
       let (r, x) = he_perform env (opts @ [OPT_URL t]) (drop (tr_pos s) (source_text src)) (tr_x s);
           s' = s\<lparr>tr_pos := min (length (source_text src)) (tr_pos s + cr_taken r),
                  tr_out := (if sink = NoContent then tr_out s else tr_out s @ cr_content r), tr_x := x\<rparr>
       in if cr_result r \<noteq> 0 then (Inl (request_error t r), s')
          else (Inr \<lparr>hr_code = cr_code r, hr_headers = fold read_response_headers (cr_lines r) []\<rparr>, s'))"

definition attempt_request :: "'x http_env \<Rightarrow> http_client \<Rightarrow> http_method \<Rightarrow> http_source \<Rightarrow> http_sink \<Rightarrow> uri
    \<Rightarrow> ('x transfer, http_exn, http_response) sx" where
  "attempt_request env c m src sink u = (\<lambda>s. case setup_curl env c m of
     Inl e \<Rightarrow> (Inl (NoRetry e), s)
   | Inr opts \<Rightarrow> make_request env (opts @ source_opts src @ sink_opts sink) src sink u
       (if sink = ToString then s\<lparr>tr_out := []\<rparr> else s))"

section \<open>Attempts until one of the counters is used up\<close>

text \<open>The counters are of type \<^verbatim>\<open>int\<close>: one that is set below zero counts down all the way around.\<close>

fun request_loop :: "('s \<Rightarrow> (http_exn + http_response) \<times> 's) \<Rightarrow> nat \<Rightarrow> nat \<Rightarrow> 's \<Rightarrow> (gb_exn + http_response) \<times> 's" where
  "request_loop att 0 c s = (Inr \<lparr>hr_code = 500, hr_headers = []\<rparr>, s)"
| "request_loop att (Suc t) 0 s = (Inr \<lparr>hr_code = 500, hr_headers = []\<rparr>, s)"
| "request_loop att (Suc t) (Suc c) s = (case att s of
     (Inr r, s') \<Rightarrow> (Inr r, s')
   | (Inl e, s') \<Rightarrow> (case e of
        RetryTimeoutError m \<Rightarrow> if t = 0 then (Inl (StdError m), s') else request_loop att t (Suc c) s'
      | RetryConnectError m \<Rightarrow> if c = 0 then (Inl (StdError m), s') else request_loop att (Suc t) c s'
      | NoRetry x \<Rightarrow> (Inl x, s')))"

definition http_request :: "'x http_env \<Rightarrow> http_client \<Rightarrow> http_method \<Rightarrow> http_source \<Rightarrow> http_sink \<Rightarrow> uri
    \<Rightarrow> 'x \<Rightarrow> (gb_exn + http_response) \<times> 'x transfer" where
  "http_request env c m src sink u x =
     request_loop (attempt_request env c m src sink u) (wrap_u32 (hc_attempts c m)) (wrap_u32 (hc_connect_attempts c))
       \<lparr>tr_pos = 0, tr_out = [], tr_x = x\<rparr>"

text \<open>\<^verbatim>\<open>FileAutoPtr\<close> opens the file of a request before the first attempt, or throws.\<close>

definition with_file :: "'x http_env \<Rightarrow> string \<Rightarrow> string \<Rightarrow> ('x \<Rightarrow> (gb_exn + http_response) \<times> 'x transfer) \<Rightarrow> 'x
    \<Rightarrow> (gb_exn + http_response) \<times> 'x transfer" where
  "with_file env path mode m x = (case he_fopen env path mode x of
     (Some e, x') \<Rightarrow> (Inl e, \<lparr>tr_pos = 0, tr_out = [], tr_x = x'\<rparr>)
   | (None, x') \<Rightarrow> m x')"

definition http_DELETE :: "'x http_env \<Rightarrow> http_client \<Rightarrow> uri \<Rightarrow> 'x \<Rightarrow> (gb_exn + http_response) \<times> 'x transfer" where
  "http_DELETE env c u = http_request env c METHOD_DELETE NoBody ToString u"

definition http_DELETE_file :: "'x http_env \<Rightarrow> http_client \<Rightarrow> uri \<Rightarrow> string \<Rightarrow> 'x \<Rightarrow> (gb_exn + http_response) \<times> 'x transfer" where
  "http_DELETE_file env c u path = with_file env path ''w'' (http_request env c METHOD_DELETE NoBody ToFile u)"

definition http_GET :: "'x http_env \<Rightarrow> http_client \<Rightarrow> uri \<Rightarrow> 'x \<Rightarrow> (gb_exn + http_response) \<times> 'x transfer" where
  "http_GET env c u = http_request env c METHOD_GET NoBody ToString u"

definition http_GET_file :: "'x http_env \<Rightarrow> http_client \<Rightarrow> uri \<Rightarrow> string \<Rightarrow> 'x \<Rightarrow> (gb_exn + http_response) \<times> 'x transfer" where
  "http_GET_file env c u path = with_file env path ''w'' (http_request env c METHOD_GET NoBody ToFile u)"

definition http_HEAD :: "'x http_env \<Rightarrow> http_client \<Rightarrow> uri \<Rightarrow> 'x \<Rightarrow> (gb_exn + http_response) \<times> 'x transfer" where
  "http_HEAD env c u = http_request env c METHOD_HEAD NoBody NoContent u"

definition http_POST :: "'x http_env \<Rightarrow> http_client \<Rightarrow> uri \<Rightarrow> string \<Rightarrow> 'x \<Rightarrow> (gb_exn + http_response) \<times> 'x transfer" where
  "http_POST env c u body = http_request env c METHOD_POST (FromString body) ToString u"

definition http_PUT :: "'x http_env \<Rightarrow> http_client \<Rightarrow> uri \<Rightarrow> string \<Rightarrow> 'x \<Rightarrow> (gb_exn + http_response) \<times> 'x transfer" where
  "http_PUT env c u body = http_request env c METHOD_PUT (FromString body) ToString u"

definition http_PUT_file :: "'x http_env \<Rightarrow> http_client \<Rightarrow> uri \<Rightarrow> string \<Rightarrow> string \<Rightarrow> 'x \<Rightarrow> (gb_exn + http_response) \<times> 'x transfer" where
  "http_PUT_file env c u path file_content = with_file env path ''r'' (http_request env c METHOD_PUT (FromFile file_content) ToString u)"

section \<open>Requests that speak JSON\<close>

text \<open>
  \<^verbatim>\<open>REST.cc\<close>: headers that every request of the process gets, and the request itself. What a parse that fails leaves in the response is
  a parameter.
\<close>

definition add_global_header :: "string \<Rightarrow> string \<Rightarrow> hash \<Rightarrow> hash" where
  "add_global_header k v g = smap_put k v g"

definition del_global_header :: "string \<Rightarrow> hash \<Rightarrow> hash" where
  "del_global_header k g = smap_erase k g"

definition rest_client :: "hash \<Rightarrow> hash \<Rightarrow> http_client" where
  "rest_client g headers =
     fold (\<lambda>(k, v). set_header k v) g
       (let c = client_with headers in if get_header ''content-type'' c = [] then set_content_type ''application/json'' c else c)"

definition rest_send :: "'x http_env \<Rightarrow> http_client \<Rightarrow> http_method \<Rightarrow> uri \<Rightarrow> string \<Rightarrow> 'x \<Rightarrow> (gb_exn + http_response) \<times> 'x transfer" where
  "rest_send env c m u post x = (case m of
     METHOD_GET \<Rightarrow> http_GET env c u x
   | METHOD_DELETE \<Rightarrow> http_DELETE env c u x
   | METHOD_POST \<Rightarrow> http_POST env c u post x
   | METHOD_PUT \<Rightarrow> http_PUT env c u post x
   | METHOD_HEAD \<Rightarrow> http_HEAD env c u x
   | METHOD_UNKNOWN \<Rightarrow> (Inl (ERR_INTERNAL_SERVER_ERROR ''Unknown method type''), \<lparr>tr_pos = 0, tr_out = [], tr_x = x\<rparr>))"

definition rest_method_text :: "http_method \<Rightarrow> string" where
  "rest_method_text m = (case m of METHOD_GET \<Rightarrow> ''GET'' | METHOD_POST \<Rightarrow> ''POST'' | METHOD_DELETE \<Rightarrow> ''DELETE'' | METHOD_PUT \<Rightarrow> ''PUT''
     | METHOD_HEAD \<Rightarrow> ''HEAD'' | METHOD_UNKNOWN \<Rightarrow> ''UNKNOWN'')"

definition rest_content :: "'d json_lib \<Rightarrow> schema_statics \<Rightarrow> (string \<Rightarrow> 'd json) \<Rightarrow> http_method \<Rightarrow> string \<Rightarrow> 'd json \<Rightarrow> 'd json" where
  "rest_content lib st left m t response =
     (let d = (if m = METHOD_HEAD then response else case parse_text lib st None t of Inr d \<Rightarrow> d | Inl _ \<Rightarrow> left t)
      in if d = JUndef then JObject [] else d)"

definition rest_error :: "http_method \<Rightarrow> string \<Rightarrow> int \<Rightarrow> 'd json \<Rightarrow> gb_exn" where
  "rest_error m url code d =
     (let start = ''Failed to '' @ rest_method_text m @ '' '' @ url @ '' got: '' in
      if json_hasKey ''message'' d
      then (case res_bind (json_get [] ''message'' d) (json_as_string [Key ''message'']) of
              Inl e \<Rightarrow> e | Inr t \<Rightarrow> throw_from_code code (start @ t))
      else throw_from_code code (start @ ''invalid error response''))"

definition rest_request :: "'x http_env \<Rightarrow> 'd json_lib \<Rightarrow> schema_statics \<Rightarrow> (string \<Rightarrow> 'd json) \<Rightarrow> hash \<Rightarrow> http_method \<Rightarrow> string \<Rightarrow> string
    \<Rightarrow> hash \<Rightarrow> 'd json \<Rightarrow> 'x \<Rightarrow> (gb_exn + int \<times> 'd json) \<times> 'x" where
  "rest_request env lib st left g m url post headers response x = (case Uri url of
     Inl e \<Rightarrow> (Inl (if m = METHOD_UNKNOWN then ERR_INTERNAL_SERVER_ERROR ''Unknown method type'' else e), x)
   | Inr u \<Rightarrow> (case rest_send env (rest_client g headers) m u post x of
        (Inl e, s) \<Rightarrow> (Inl e, tr_x s)
      | (Inr r, s) \<Rightarrow>
          (let d = rest_content lib st left m (tr_out s) response in
           if hr_code r \<ge> 400 then (Inl (rest_error m url (hr_code r) d), tr_x s) else (Inr (hr_code r, d), tr_x s))))"

definition rest_data :: "'d json_lib \<Rightarrow> 'd json \<Rightarrow> string" where
  "rest_data lib d = (if d = JUndef then ''{ }'' else json_serialize lib d)"

text \<open>The transfer a job over HTTP makes: a client of its own with the headers of the job.\<close>

definition client_http :: "'x http_env \<Rightarrow> http_method \<Rightarrow> string \<Rightarrow> hash \<Rightarrow> string \<Rightarrow> 'x \<Rightarrow> (gb_exn + int \<times> hash \<times> string) \<times> 'x" where
  "client_http env m uri headers body x = (case Uri uri of
     Inl e \<Rightarrow> (Inl e, x)
   | Inr u \<Rightarrow> (case rest_send env (new_client\<lparr>hc_headers := headers\<rparr>) m u body x of
        (Inl e, s) \<Rightarrow> (Inl e, tr_x s)
      | (Inr r, s) \<Rightarrow> (Inr (hr_code r, get_headers r [], tr_out s), tr_x s)))"

section \<open>Headers of a response\<close>

fun comma_join :: "string list \<Rightarrow> string" where
  "comma_join [] = []"
| "comma_join [v] = v"
| "comma_join (v # vs) = v @ '','' @ comma_join vs"

text \<open>The values a list of lines has for a field, in the order of the lines.\<close>

fun field_values :: "string \<Rightarrow> string list \<Rightarrow> string list" where
  "field_values f [] = []"
| "field_values f (l # ls) = (case line_field l of
     Some (g, v) \<Rightarrow> if g = f then v # field_values f ls else field_values f ls
   | None \<Rightarrow> field_values f ls)"

lemma comma_join_snoc: "vs \<noteq> [] \<Longrightarrow> comma_join (vs @ [v]) = comma_join vs @ '','' @ v"
  by (induction vs rule: comma_join.induct) simp_all

lemma comma_join_eq_Nil: "[] \<notin> set vs \<Longrightarrow> comma_join vs = [] \<longleftrightarrow> vs = []"
  by (induction vs rule: comma_join.induct) simp_all

lemma field_values_append: "field_values f (ls @ ms) = field_values f ls @ field_values f ms"
  by (induction ls) (auto split: option.split)

lemma read_lines:
  assumes "list_all (\<lambda>l. take 5 l \<noteq> ''HTTP/'') ls" and "[] \<notin> set (field_values f ls)"
  shows "hash_get_default f [] (fold read_response_headers ls []) = comma_join (field_values f ls)"
  using assms
proof (induction ls rule: rev_induct)
  case Nil
  then show ?case by (simp add: hash_get_default_def smap.find_emp)
next
  case (snoc l ls)
  let ?h = "fold read_response_headers ls []"
  have IH: "hash_get_default f [] ?h = comma_join (field_values f ls)"
    using snoc by (simp add: field_values_append)
  show ?case
  proof (cases "line_field l")
    case None
    with IH snoc.prems(1) show ?thesis by (simp add: read_response_headers_def [of l] field_values_append)
  next
    case (Some p)
    obtain g v where p: "p = (g, v)" by (cases p)
    have h: "fold read_response_headers (ls @ [l]) [] = add_field g v ?h"
      using Some p snoc.prems(1) by (simp add: read_response_headers_def [of l])
    have nil: "field_values f ls = [] \<longleftrightarrow> comma_join (field_values f ls) = []"
      using snoc.prems(2) by (simp add: field_values_append comma_join_eq_Nil)
    show ?thesis
    proof (cases "g = f")
      case True
      then show ?thesis unfolding h using IH nil Some p
        by (cases "field_values f ls = []") (simp_all add: add_field_def Let_def hash_get_default_def [of f _ "smap_put _ _ _"] smap_find_put field_values_append comma_join_snoc)
    next
      case False
      then show ?thesis unfolding h using IH Some p
        by (simp add: add_field_def Let_def hash_get_default_def [of f _ "smap_put _ _ _"] hash_get_default_def [of f _ ?h] smap_find_put
            field_values_append)
    qed
  qed
qed



section \<open>How often a request is sent\<close>

lemma request_loop_calls:
  assumes "\<And>s. calls (snd (att s)) \<le> calls s + 1"
  shows "calls (snd (request_loop att t c s)) \<le> calls s + (t + c - 1)"
  using assms
proof (induction att t c s rule: request_loop.induct)
  case (3 att t c s)
  obtain r s' where a: "att s = (r, s')" by (cases "att s")
  have step: "calls s' \<le> calls s + 1" using 3(3) [of s] a by simp
  show ?case
  proof (cases r)
    case (Inr x)
    with a step show ?thesis by simp
  next
    case (Inl e)
    show ?thesis
    proof (cases e)
      case (RetryTimeoutError m)
      have "t \<noteq> 0 \<Longrightarrow> calls (snd (request_loop att t (Suc c) s')) \<le> calls s' + (t + Suc c - 1)"
        using 3(1) [OF a [symmetric] Inl RetryTimeoutError] 3(3) by blast
      with a step Inl RetryTimeoutError show ?thesis by (cases "t = 0") auto
    next
      case (RetryConnectError m)
      have "c \<noteq> 0 \<Longrightarrow> calls (snd (request_loop att (Suc t) c s')) \<le> calls s' + (Suc t + c - 1)"
        using 3(2) [OF a [symmetric] Inl RetryConnectError] 3(3) by blast
      with a step Inl RetryConnectError show ?thesis by (cases "c = 0") auto
    next
      case (NoRetry x)
      with a step Inl show ?thesis by simp
    qed
  qed
qed simp_all

lemma attempt_state:
  "tr_x (snd (attempt_request env c m src sink u s)) = tr_x s
   \<or> (\<exists>opts b. tr_x (snd (attempt_request env c m src sink u s)) = snd (he_perform env opts b (tr_x s)))"
proof (cases "setup_curl env c m")
  case (Inr opts)
  then show ?thesis
    by (cases "uri_canonical u") (auto simp: attempt_request_def make_request_def Let_def split_beta)
qed (simp add: attempt_request_def)

lemma attempt_calls:
  fixes calls :: "'x \<Rightarrow> nat"
  assumes "\<And>opts b x. calls (snd (he_perform env opts b x)) \<le> calls x + 1"
  shows "calls (tr_x (snd (attempt_request env c m src sink u s))) \<le> calls (tr_x s) + 1"
  using attempt_state [of env c m src sink u s] assms [where x = "tr_x s"] by auto

lemma wrap_u32_nat: "0 \<le> i \<Longrightarrow> i < 2 ^ 31 \<Longrightarrow> wrap_u32 i = nat i"
  using wrap_u32_id [of "nat i"] by simp

text \<open>
  C37: a request is not sent without end. With so many attempts for time-outs and so many for connections, both at least one, libcurl
  performs at most one transfer less than their sum, whatever the transfers do: however they fail, the
  counters go down. Whatever is counted, it grows by at most one with a transfer.
\<close>

theorem request_bound:
  fixes calls :: "'x \<Rightarrow> nat"
  assumes "\<And>opts b x. calls (snd (he_perform env opts b x)) \<le> calls x + 1"
    and "0 < hc_attempts c m" and "hc_attempts c m < 2 ^ 31" and "0 < hc_connect_attempts c" and "hc_connect_attempts c < 2 ^ 31"
  shows "calls (tr_x (snd (http_request env c m src sink u x)))
    \<le> calls x + (nat (hc_attempts c m) + nat (hc_connect_attempts c) - 1)"
proof -
  have "wrap_u32 (hc_attempts c m) = nat (hc_attempts c m)" "wrap_u32 (hc_connect_attempts c) = nat (hc_connect_attempts c)"
    using assms(2-5) by (simp_all add: wrap_u32_nat)
  then show ?thesis
    using request_loop_calls [of "\<lambda>s. calls (tr_x s)" "attempt_request env c m src sink u" "nat (hc_attempts c m)"
        "nat (hc_connect_attempts c)" "\<lparr>tr_pos = 0, tr_out = [], tr_x = x\<rparr>", OF attempt_calls [where calls = calls, OF assms(1)]]
    by (simp add: http_request_def)
qed

definition demo_http_env :: "nat http_env" where
  "demo_http_env = \<lparr>he_init = True, he_datadir = [], he_jar = [],
     he_perform = (\<lambda>opts b n. (\<lparr>cr_result = (if n = 0 then 18 else 0), cr_error = [], cr_lines = [''HTTP/1.1 200''],
       cr_content = (if n = 0 then ''ab'' else ''abcd''), cr_code = 200, cr_taken = length b\<rparr>, n + 1)),
     he_fopen = (\<lambda>_ _ n. (None, n))\<rparr>"

definition demo_uri :: uri where
  "demo_uri = (case Uri ''http://h/f'' of Inr u \<Rightarrow> u | Inl _ \<Rightarrow> new_uri)"

theorem request_bound_witness:
  "tr_x (snd (http_request demo_http_env new_client METHOD_GET NoBody ToString demo_uri 0)) \<le> 12"
proof -
  have "id (snd (he_perform demo_http_env opts b x)) \<le> id x + 1" for opts b x by (simp add: demo_http_env_def)
  from request_bound [of id demo_http_env, OF this, of new_client METHOD_GET NoBody ToString demo_uri 0] show ?thesis
    by (simp add: new_client_def)
qed

section \<open>Attempts that are repeated\<close>

lemma request_again:
  assumes "att s = (Inl (RetryTimeoutError e), s1)" and "att s1 = (Inr r, s2)"
  shows "request_loop att (Suc (Suc t)) (Suc c) s = (Inr r, s2)"
  using assms by simp

text \<open>
  A file that is fetched again begins with what came of it the first time. A transfer that broke off is repeated (three attempts
  are the default), but the file is neither truncated nor rewound between the attempts; so after a partial transfer and
  a complete one, which the caller is told about as a success, the file holds the one followed by the other.
\<close>

lemma get_file_keeps_partial:
  assumes "setup_curl env c METHOD_GET = Inr opts" and "uri_canonical u = Inr t" and "he_fopen env path ''w'' x = (None, x0)"
    and "hc_attempts c METHOD_GET = 3" and "hc_connect_attempts c = 10"
    and "he_perform env (opts @ [OPT_WRITE_FILE, OPT_URL t]) [] x0 = (r1, x1)" and "cr_result r1 = 18"
    and "he_perform env (opts @ [OPT_WRITE_FILE, OPT_URL t]) [] x1 = (r2, x2)" and "cr_result r2 = 0"
  shows "\<exists>r s. http_GET_file env c u path x = (Inr r, s) \<and> hr_code r = cr_code r2 \<and> tr_out s = cr_content r1 @ cr_content r2"
proof -
  have n: "wrap_u32 (hc_attempts c METHOD_GET) = Suc (Suc 1)" "wrap_u32 (hc_connect_attempts c) = Suc 9"
    using assms(4,5) by (simp_all add: wrap_u32_nat)
  let ?s = "\<lambda>out x. \<lparr>tr_pos = 0, tr_out = out, tr_x = x\<rparr>"
  have 1: "attempt_request env c METHOD_GET NoBody ToFile u (?s [] x0)
      = (Inl (RetryTimeoutError (http_what (''Error connecting to '' @ t @ '': '' @ cr_error r1 @ '' [code '' @ nat_dec 18 @ '']''))), ?s (cr_content r1) x1)"
    using assms(1,2,6,7) by (simp add: attempt_request_def make_request_def Let_def request_error_def)
  have 2: "attempt_request env c METHOD_GET NoBody ToFile u (?s (cr_content r1) x1)
      = (Inr \<lparr>hr_code = cr_code r2, hr_headers = fold read_response_headers (cr_lines r2) []\<rparr>, ?s (cr_content r1 @ cr_content r2) x2)"
    using assms(1,2,8,9) by (simp add: attempt_request_def make_request_def Let_def)
  show ?thesis using request_again [OF 1 2, of 1 9] assms(3) by (simp add: http_GET_file_def with_file_def http_request_def n)
qed

lemma get_file_keeps_partial_witness:
  "\<exists>r s. http_GET_file demo_http_env new_client demo_uri ''f'' 0 = (Inr r, s) \<and> hr_code r = 200 \<and> tr_out s = ''ababcd''"
proof -
  obtain opts where o: "setup_curl demo_http_env new_client METHOD_GET = Inr opts"
    by (simp add: setup_curl_def method_opts_def demo_http_env_def)
  have u: "uri_canonical demo_uri = Inr ''http://h/f''" by code_simp
  obtain r1 r2 where p: "he_perform demo_http_env (opts @ [OPT_WRITE_FILE, OPT_URL ''http://h/f'']) [] 0 = (r1, 1)"
      "he_perform demo_http_env (opts @ [OPT_WRITE_FILE, OPT_URL ''http://h/f'']) [] 1 = (r2, 2)"
    and r: "cr_result r1 = 18" "cr_content r1 = ''ab''" "cr_result r2 = 0" "cr_content r2 = ''abcd''" "cr_code r2 = 200"
    by (simp add: demo_http_env_def)
  have "he_fopen demo_http_env ''f'' ''w'' 0 = (None, 0)" by (simp add: demo_http_env_def)
  from get_file_keeps_partial [OF o u this _ _ p(1) r(1) p(2) r(3)] r show ?thesis by (simp add: new_client_def)
qed

text \<open>
  A body that was read is not sent again. The stream of the body is made once for all attempts; when a request timed out after its body was
  read, the next attempt announces the length of the body and finds nothing to send.
\<close>

theorem post_retry_empty_body:
  assumes "setup_curl env c METHOD_POST = Inr opts" and "uri_canonical u = Inr t"
    and "1 < hc_attempts c METHOD_POST" and "hc_attempts c METHOD_POST < 2 ^ 31" and "hc_connect_attempts c = 10"
    and "he_perform env (opts @ [OPT_POSTFIELDSIZE (length body), OPT_READ_STREAM, OPT_WRITE_STRING, OPT_URL t]) body x = (r1, x1)"
    and "cr_result r1 = 28" and "cr_taken r1 = length body"
    and "he_perform env (opts @ [OPT_POSTFIELDSIZE (length body), OPT_READ_STREAM, OPT_WRITE_STRING, OPT_URL t]) [] x1 = (r2, x2)"
    and "cr_result r2 = 0"
  shows "\<exists>r s. http_POST env c u body x = (Inr r, s) \<and> hr_code r = cr_code r2 \<and> tr_out s = cr_content r2 \<and> tr_x s = x2"
proof -
  obtain k where k: "wrap_u32 (hc_attempts c METHOD_POST) = Suc (Suc k)"
    using assms(3,4) by (intro that [of "nat (hc_attempts c METHOD_POST) - 2"]) (simp add: wrap_u32_nat)
  have n: "wrap_u32 (hc_connect_attempts c) = Suc 9" using assms(5) by (simp add: wrap_u32_nat)
  let ?s = "\<lambda>pos out x. \<lparr>tr_pos = pos, tr_out = out, tr_x = x\<rparr>"
  have 1: "attempt_request env c METHOD_POST (FromString body) ToString u (?s 0 [] x)
      = (Inl (RetryTimeoutError (http_what (''Error connecting to '' @ t @ '': '' @ cr_error r1 @ '' [code '' @ nat_dec 28 @ '']''))),
         ?s (length body) (cr_content r1) x1)"
    using assms(1,2,6-8) by (simp add: attempt_request_def make_request_def Let_def request_error_def)
  have 2: "attempt_request env c METHOD_POST (FromString body) ToString u (?s (length body) (cr_content r1) x1)
      = (Inr \<lparr>hr_code = cr_code r2, hr_headers = fold read_response_headers (cr_lines r2) []\<rparr>, ?s (length body) (cr_content r2) x2)"
    using assms(1,2,9,10) by (simp add: attempt_request_def make_request_def Let_def)
  show ?thesis using request_again [OF 1 2, of k 9] by (simp add: http_POST_def http_request_def n k)
qed

definition demo_slow_env :: "nat http_env" where
  "demo_slow_env = demo_http_env\<lparr>he_perform := (\<lambda>opts b n. (\<lparr>cr_result = (if n = 0 then 28 else 0), cr_error = [], cr_lines = [],
     cr_content = b, cr_code = 200, cr_taken = length b\<rparr>, n + 1))\<rparr>"

text \<open>A server that returns the body it is sent.\<close>

theorem post_retry_empty_body_witness:
  "\<exists>r s. http_POST demo_slow_env (set_timeout_attempts METHOD_POST 2 new_client) demo_uri ''body'' 0 = (Inr r, s) \<and> hr_code r = 200 \<and> tr_out s = []"
proof -
  let ?c = "set_timeout_attempts METHOD_POST 2 new_client"
  obtain opts where o: "setup_curl demo_slow_env ?c METHOD_POST = Inr opts"
    by (simp add: setup_curl_def method_opts_def demo_slow_env_def demo_http_env_def)
  have u: "uri_canonical demo_uri = Inr ''http://h/f''" by code_simp
  let ?o = "opts @ [OPT_POSTFIELDSIZE (length ''body''), OPT_READ_STREAM, OPT_WRITE_STRING, OPT_URL ''http://h/f'']"
  obtain r1 r2 where p: "he_perform demo_slow_env ?o ''body'' 0 = (r1, 1)" "he_perform demo_slow_env ?o [] 1 = (r2, 2)"
    and r: "cr_result r1 = 28" "cr_taken r1 = length ''body''" "cr_result r2 = 0" "cr_content r2 = []" "cr_code r2 = 200"
    by (simp add: demo_slow_env_def)
  from post_retry_empty_body [OF o u _ _ _ p(1) r(1,2) p(2) r(3)] r show ?thesis
    by (auto simp: set_timeout_attempts_def new_client_def)
qed

end
