(* ===== verification/GB_JobRun.thy ===== *)
theory GB_JobRun
  imports GB_Objects GB_Http
begin

text \<open>
  Running a job: \<^verbatim>\<open>Job::run\<close>, \<^verbatim>\<open>GearmanJobImpl.cc\<close>, \<^verbatim>\<open>RestJobImpl.cc\<close>, \<^verbatim>\<open>JobStatusImpl.cc\<close> and \<^verbatim>\<open>JobResponse.cc\<close>. The calls of
  the gearman client library, the HTTP transfer, the compression and the source of random ids are
  parameters; they act on a part of the world that the model does not look into.
\<close>

record ('d, 'x) rt_env =
  rt_jm :: "'d jm_env"
  rt_compress :: "string \<Rightarrow> string"
  rt_uuid :: "'x \<Rightarrow> (64 word \<times> 64 word) \<times> 'x"
  rt_echo :: "'x \<Rightarrow> bool \<times> 'x"
  rt_do_background :: "string \<Rightarrow> string \<Rightarrow> 'x \<Rightarrow> string option \<times> 'x"
  rt_do :: "string \<Rightarrow> string \<Rightarrow> 'x \<Rightarrow> (string option \<times> string option) \<times> 'x"
  rt_http :: "http_method \<Rightarrow> string \<Rightarrow> hash \<Rightarrow> string \<Rightarrow> 'x \<Rightarrow> (gb_exn + int \<times> hash \<times> string) \<times> 'x"

abbreviation rt_now :: "('d, 'x) rt_env \<Rightarrow> int" where
  "rt_now env \<equiv> je_now (rt_jm env)"

abbreviation rt_lib :: "('d, 'x) rt_env \<Rightarrow> 'd json_lib" where
  "rt_lib env \<equiv> ce_lib (je_cfg (rt_jm env))"

abbreviation rt_statics :: "('d, 'x) rt_env \<Rightarrow> schema_statics" where
  "rt_statics env \<equiv> ce_statics (je_cfg (rt_jm env))"

record 'd job_response =
  jr_content :: string
  jr_headers :: hash
  jr_status :: "'d sobj option"
  jr_code :: int
  jr_job :: "(nat \<times> 'd job) option"

definition new_response :: "'d job_response" where
  "new_response = \<lparr>jr_content = [], jr_headers = [], jr_status = None, jr_code = - 1, jr_job = None\<rparr>"

definition jr_add_header :: "string \<Rightarrow> string \<Rightarrow> 'd job_response \<Rightarrow> 'd job_response" where
  "jr_add_header k v r = r\<lparr>jr_headers := smap_put k v (jr_headers r)\<rparr>"

section \<open>Small steps\<close>

definition on_jm :: "('d jm_world, gb_exn, 'a) sx \<Rightarrow> (('d, 'x) rworld, gb_exn, 'a) px" where
  "on_jm m = (\<lambda>w. let (r, j) = m (rw_jm w) in Some (r, w\<lparr>rw_jm := j\<rparr>))"

definition on_x :: "('x \<Rightarrow> 'a \<times> 'x) \<Rightarrow> (('d, 'x) rworld, gb_exn, 'a) px" where
  "on_x f = (\<lambda>w. let (a, x) = f (rw_x w) in Some (Inr a, w\<lparr>rw_x := x\<rparr>))"

text \<open>A call of a member of a status object that is a local variable.\<close>

definition with_obj :: "'d sobj \<Rightarrow> ('d, 'x, 'a) on_obj \<Rightarrow> (('d, 'x) rworld, gb_exn, 'a \<times> 'd sobj) px" where
  "with_obj ob m = (\<lambda>w. case m (ob, w) of
     (Inl e, (_, w')) \<Rightarrow> Some (Inl e, w')
   | (Inr a, (ob', w')) \<Rightarrow> Some (Inr (a, ob'), w'))"

text \<open>\<^verbatim>\<open>JobImpl::job\<close>: a new object, at an address of its own.\<close>

definition new_job_ptr :: "'d job \<Rightarrow> (('d, 'x) rworld, gb_exn, nat \<times> 'd job) px" where
  "new_job_ptr j = (\<lambda>w. Some (Inr (rw_heap w, j), w\<lparr>rw_heap := rw_heap w + 1\<rparr>))"

definition new_id :: "('d, 'x) rt_env \<Rightarrow> string \<Rightarrow> (('d, 'x) rworld, gb_exn, string) px" where
  "new_id env prefix = px_bind (on_x (rt_uuid env)) (\<lambda>u. px_return (gen_id u prefix))"

definition cfg_get :: "('d json \<Rightarrow> gb_exn + 'a) \<Rightarrow> (('d, 'x) rworld, gb_exn, 'a) px" where
  "cfg_get f = (\<lambda>w. Some (f (w_cfg (rw_jm w)), w))"

text \<open>\<^verbatim>\<open>JobManager jm(this)\<close>: the process-wide parts are shared, the URIs are those of the job.\<close>

definition with_jm :: "string \<Rightarrow> string \<Rightarrow> ('d jm_world, gb_exn, 'a) sx \<Rightarrow> (('d, 'x) rworld, gb_exn, 'a) px" where
  "with_jm base parent m = (\<lambda>w.
     let jw = rw_jm w; (r, jw') = m (jw\<lparr>w_base_uri := base, w_parent_uri := parent\<rparr>)
     in Some (r, w\<lparr>rw_jm := jw'\<lparr>w_base_uri := w_base_uri jw, w_parent_uri := w_parent_uri jw\<rparr>\<rparr>))"

section \<open>The gearman connection\<close>

fun check_connection_loop :: "('d, 'x) rt_env \<Rightarrow> nat \<Rightarrow> (('d, 'x) rworld, gb_exn, unit) px" where
  "check_connection_loop env 0 = px_return ()"
| "check_connection_loop env (Suc n) =
     px_bind (on_x (rt_echo env)) (\<lambda>ok.
     if ok then px_return ()
     else if n = 0 then px_throw (ERR_INTERNAL_SERVER_ERROR ''Lost connection to backend queue'')
     else check_connection_loop env n)"

definition check_connection :: "('d, 'x) rt_env \<Rightarrow> (('d, 'x) rworld, gb_exn, unit) px" where
  "check_connection env =
     px_bind (cfg_get (get_int_default ''gearman_timeout'' 60)) (\<lambda>t. check_connection_loop env (nat (wrap_s32 t)))"

section \<open>Synchronous jobs\<close>

text \<open>The transient status of a job that is waited for.\<close>

definition transient_status :: "('d, 'x) rt_env \<Rightarrow> 'd job \<Rightarrow> (('d, 'x) rworld, gb_exn, 'd sobj) px" where
  "transient_status env j =
     px_bind (new_id env ''st'') (\<lambda>i.
     px_bind (px_lift (job_resource_uri (attrs j))) (\<lambda>uri.
     sm_create (rt_now env) (StatusManager_typed ''transient'') i (j_operation (attrs j)) uri (j_component (attrs j))))"

definition not_running :: "string \<Rightarrow> string \<Rightarrow> gb_exn" where
  "not_running st n = ERR_PRECONDITION_FAILED
     (''Invalid status state transition from '' @ quoted st @ '' to '' @ quoted ''RUNNING'' @ '' for status '' @ n)"

text \<open>
  The status must go to RUNNING; if it does not, the state it has is read again for the message. A transient
  status is read from its block.
\<close>

definition set_running :: "('d, 'x) rt_env \<Rightarrow> 'd sobj \<Rightarrow> (('d, 'x) rworld, gb_exn, 'd sobj) px" where
  "set_running env ob =
     px_bind (with_obj ob (so_set_state (rt_now env) STATE_RUNNING)) (\<lambda>(ok, ob).
     if ok then px_return ob
     else px_bind (with_obj ob (obj_call (t_sync (rt_now env)) (q_sync (rt_now env)) (sx_return ()))) (\<lambda>(_, ob).
          px_bind (with_obj ob (so_state (rt_now env))) (\<lambda>(st, ob). px_throw (not_running (state2str st) (so_name ob)))))"

text \<open>What the worker answered.\<close>

definition response_code :: "'d json \<Rightarrow> gb_exn + int" where
  "response_code d = res_bind (json_ref_key [] ''code'' d) (\<lambda>d. res_bind (json_get [] ''code'' d) (json_as_int [Key ''code'']))"

definition response_message :: "'d json \<Rightarrow> gb_exn + string" where
  "response_message d = res_bind (json_ref_key [] ''message'' d) (\<lambda>d. res_bind (json_get [] ''message'' d) (json_as_string [Key ''message'']))"

fun response_headers :: "(string \<times> 'd json) list \<Rightarrow> 'd job_response \<Rightarrow> gb_exn + 'd job_response" where
  "response_headers [] r = Inr r"
| "response_headers ((k, v) # hs) r =
     res_bind (json_as_string [Key ''headers'', Key k] v) (\<lambda>t. response_headers hs (jr_add_header k t r))"

definition read_response :: "'d json \<Rightarrow> 'd job_response \<Rightarrow> gb_exn + 'd job_response" where
  "read_response d r =
     res_bind (if json_hasKey ''content'' d
        then res_bind (json_get [] ''content'' d) (\<lambda>v. res_bind (json_as_string [Key ''content''] v) (\<lambda>t. Inr (r\<lparr>jr_content := t\<rparr>)))
        else Inr r) (\<lambda>r.
     res_bind (response_code d) (\<lambda>c.
     if json_hasKey ''headers'' d
     then res_bind (json_get [] ''headers'' d) (\<lambda>h. res_bind (json_as_object [Key ''headers''] h) (\<lambda>hs. response_headers hs (r\<lparr>jr_code := c\<rparr>)))
     else Inr (r\<lparr>jr_code := c\<rparr>)))"

definition finish_transient :: "('d, 'x) rt_env \<Rightarrow> 'd json \<Rightarrow> 'd job_response \<Rightarrow> 'd sobj \<Rightarrow> (('d, 'x) rworld, gb_exn, 'd sobj) px" where
  "finish_transient env d r ob =
     (if so_impltype ob \<noteq> ''transient'' then px_return ob
      else if jr_code r \<ge> 300 then
        px_bind (px_lift (response_message d)) (\<lambda>m.
        px_bind (with_obj ob (so_add_message (rt_now env) m)) (\<lambda>(_, ob).
        px_bind (with_obj ob (so_fail (rt_now env) (jr_code r))) (\<lambda>(_, ob). px_return ob)))
      else px_bind (with_obj ob (so_success (rt_now env))) (\<lambda>(_, ob). px_return ob))"

text \<open>
  \<^verbatim>\<open>run_sync\<close>. The loop around the call of the client ends after one turn whatever the call returned, so an error
  only adds a message; the text parsed afterwards is then empty.
\<close>

definition run_sync :: "('d, 'x) rt_env \<Rightarrow> 'd job \<Rightarrow> 'd json \<Rightarrow> (('d, 'x) rworld, gb_exn, 'd job_response) px" where
  "run_sync env j job_data =
     px_bind (new_job_ptr j) (\<lambda>p.
     px_bind (transient_status env j) (\<lambda>ob.
     px_bind (px_lift (json_set ''status'' (JString (so_name ob)) job_data)) (\<lambda>job_data.
     px_bind (set_running env ob) (\<lambda>ob.
     px_bind (on_x (rt_do env (j_name (attrs j)) (rt_compress env (json_serialize (rt_lib env) job_data)))) (\<lambda>(err, response).
     px_bind (case err of None \<Rightarrow> px_return ob
       | Some e \<Rightarrow> px_bind (with_obj ob (so_add_message (rt_now env) (''Failed to run sync job '' @ j_name (attrs j) @ '': '' @ e)))
           (\<lambda>(_, ob). px_return ob)) (\<lambda>ob.
     px_bind (px_lift (parse_text (rt_lib env) (rt_statics env) None (case response of None \<Rightarrow> [] | Some t \<Rightarrow> t))) (\<lambda>d.
     px_bind (px_lift (read_response d (new_response\<lparr>jr_job := Some p\<rparr>))) (\<lambda>r.
     px_bind (finish_transient env d r ob) (\<lambda>ob.
     px_return (r\<lparr>jr_status := Some ob\<rparr>))))))))))"

text \<open>\<^verbatim>\<open>Job::run\<close> for a job that is not asynchronous: its content must be valid, the connection alive.\<close>

definition check_content :: "('d, 'x) rt_env \<Rightarrow> 'd job \<Rightarrow> (('d, 'x) rworld, gb_exn, unit) px" where
  "check_content env j =
     px_bind (on_jm (getSchema (rt_jm env) (attrs j))) (\<lambda>s. case s of
       None \<Rightarrow> px_return ()
     | Some sch \<Rightarrow> px_bind (px_lift (parse_text (rt_lib env) (rt_statics env) (Some sch)
           (if j_content (attrs j) = [] then ''null'' else j_content (attrs j)))) (\<lambda>_. px_return ()))"

definition job_data :: "('d, 'x) rt_env \<Rightarrow> 'd job \<Rightarrow> (('d, 'x) rworld, gb_exn, 'd json) px" where
  "job_data env j = px_lift (job_to_json (rt_lib env) (rt_statics env) j)"

definition run_sync_job :: "('d, 'x) rt_env \<Rightarrow> 'd job \<Rightarrow> (('d, 'x) rworld, gb_exn, 'd job_response) px" where
  "run_sync_job env j =
     px_then (check_content env j)
     (px_then (check_connection env) (px_bind (job_data env j) (run_sync env j)))"

section \<open>Statuses behind a job\<close>

text \<open>
  \<^verbatim>\<open>JobStatusImpl::load\<close> runs the job of the status until it succeeds, then loads the attributes from what the job
  returned. A response without a complete status makes \<^verbatim>\<open>is_success\<close> throw.
\<close>

definition response_ok :: "('d, 'x) rt_env \<Rightarrow> 'd job_response \<Rightarrow> (('d, 'x) rworld, gb_exn, bool) px" where
  "response_ok env r = (case jr_status r of
     None \<Rightarrow> px_throw NullDereference
   | Some ob \<Rightarrow> px_bind (with_obj ob (so_is_success (rt_now env))) (\<lambda>(ok, _). px_return ok))"

partial_function (option) job_status_loop ::
    "('d, 'x) rt_env \<Rightarrow> 'd job \<Rightarrow> ('d, 'x) rworld \<Rightarrow> ((gb_exn + 'd job_response) \<times> ('d, 'x) rworld) option" where
  "job_status_loop env j w = px_bind (run_sync_job env j) (\<lambda>r.
     px_bind (response_ok env r) (\<lambda>ok w. if ok then px_return r w else job_status_loop env j w)) w"

interpretation status_poll: retried "until_ok (run_sync_job env j) (response_ok env)" "job_status_loop env j" for env j
proof
  fix w show "job_status_loop env j w = (case until_ok (run_sync_job env j) (response_ok env) w of None \<Rightarrow> None
      | Some (None, w') \<Rightarrow> job_status_loop env j w' | Some (Some r, w') \<Rightarrow> Some (r, w'))"
    by (subst job_status_loop.simps) (simp add: until_ok_def px_defs split: option.split prod.split sum.split)
next
  fix w y P
  assume "job_status_loop env j w = Some y" and "\<And>w r w'. until_ok (run_sync_job env j) (response_ok env) w = Some (Some r, w') \<Longrightarrow> P w (r, w')"
    and "\<And>w w' y. until_ok (run_sync_job env j) (response_ok env) w = Some (None, w') \<Longrightarrow> P w' y \<Longrightarrow> P w y"
  then show "P w y"
    by (rule_tac job_status_loop.raw_induct [where P = "\<lambda>e k w y. e = env \<longrightarrow> k = j \<longrightarrow> P w y", rule_format])
      (auto simp: until_ok_def px_defs split: option.splits prod.splits sum.splits if_splits)
qed

text \<open>The loop gives the response of the first run whose status is a success, and throws what a run throws.\<close>

lemma status_poll_response:
  assumes "job_status_loop env j w = Some (Inr r, w')"
  shows "\<exists>n w1 w2. run_sync_job env j w1 = Some (Inr r, w2) \<and> response_ok env r w2 = Some (Inr True, w')
    \<and> ends_after (until_ok (run_sync_job env j) (response_ok env)) n w (Inr r, w')"
proof -
  obtain n where n: "ends_after (until_ok (run_sync_job env j) (response_ok env)) n w (Inr r, w')"
    using assms unfolding status_poll.returns_iff by blast
  then have "\<exists>w1 w2. run_sync_job env j w1 = Some (Inr r, w2) \<and> response_ok env r w2 = Some (Inr True, w')"
    by (induction n arbitrary: w) (auto simp: until_ok_simps)
  with n show ?thesis by blast
qed

definition load_content :: "('d, 'x) rt_env \<Rightarrow> 'd status \<Rightarrow> job_kind \<Rightarrow> 'd job \<Rightarrow> 'd job_response
    \<Rightarrow> (('d, 'x) rworld, gb_exn, 'd sobj) px" where
  "load_content env s k j r =
     px_bind (px_lift (parse_text (rt_lib env) (rt_statics env) None (jr_content r))) (\<lambda>d.
     case JsonStatus_load (rt_now env) d s of
       (Inl e, _) \<Rightarrow> px_throw e
     | (Inr _, s') \<Rightarrow> px_return (JobObj s' d k j))"

definition JobStatus_load :: "('d, 'x) rt_env \<Rightarrow> 'd status \<Rightarrow> 'd job \<Rightarrow> (('d, 'x) rworld, gb_exn, 'd sobj) px" where
  "JobStatus_load env s j = px_bind (job_status_loop env j) (load_content env s GearmanKind j)"

text \<open>\<^verbatim>\<open>StatusManager::fetch(job)\<close>.\<close>

definition sm_fetch_job :: "('d, 'x) rt_env \<Rightarrow> string \<Rightarrow> 'd job \<Rightarrow> (('d, 'x) rworld, gb_exn, 'd sobj) px" where
  "sm_fetch_job env base j = JobStatus_load env (set_base_uri base (new_status (rt_now env))) j"

section \<open>Asynchronous jobs\<close>

definition global_job :: "('d, 'x) rt_env \<Rightarrow> job_attrs \<Rightarrow> string \<Rightarrow> (job_attrs \<Rightarrow> job_attrs) \<Rightarrow> (('d, 'x) rworld, gb_exn, 'd job) px" where
  "global_job env a name f =
     px_bind (with_jm (j_base_uri a) (j_parent_uri a) (job_named (rt_jm env) name)) (\<lambda>j.
     px_return (upd_attrs (\<lambda>x. f (x\<lparr>j_type := JOB_SYNC\<rparr>)) j))"

text \<open>The document that asks the gearbox worker to make a status for this job.\<close>

definition status_request :: "job_attrs \<Rightarrow> string \<Rightarrow> gb_exn + 'd json" where
  "status_request a i =
     res_bind (json_set ''name'' (JString i) JUndef) (\<lambda>d.
     res_bind (json_set ''operation'' (JString (j_operation a)) d) (\<lambda>d.
     res_bind (json_set ''component'' (JString (j_component a)) d) (\<lambda>d.
     res_bind (job_resource_uri a) (\<lambda>u.
     res_bind (json_set ''uri'' (JString u) d)
       (res_when (j_parent_uri a \<noteq> []) (json_set ''parent_uri'' (JString (j_parent_uri a))))))))"

definition child_request :: "string \<Rightarrow> gb_exn + 'd json" where
  "child_request uri = json_upd_key [] ''children'' (\<lambda>c. json_upd_at [Key ''children''] 0 (\<lambda>_. Inr (JString uri)) c) JUndef"

text \<open>Adding a child to the status of the parent, by a job of the gearbox worker.\<close>

definition add_child_job :: "('d, 'x) rt_env \<Rightarrow> job_attrs \<Rightarrow> string \<Rightarrow> (('d, 'x) rworld, gb_exn, unit) px" where
  "add_child_job env a child =
     px_bind (global_job env a ''do_update_global_status_v1'' id) (\<lambda>j.
     px_bind (px_lift (Uri (j_parent_uri a))) (\<lambda>u.
     px_bind (px_lift (child_request child)) (\<lambda>d.
     px_bind (run_sync_job env (upd_attrs (\<lambda>x. (add_argument (uri_leaf u) (x\<lparr>j_resource_name := uri_leaf u\<rparr>))
         \<lparr>j_content := json_serialize (rt_lib env) d\<rparr>) j)) (\<lambda>_. px_return ()))))"

text \<open>A status that failed is reported through its first message, which the code takes without asking if there is one.\<close>

definition status_of :: "'d job_response \<Rightarrow> (('d, 'x) rworld, gb_exn, 'd sobj) px" where
  "status_of r = (case jr_status r of None \<Rightarrow> px_throw NullDereference | Some ob \<Rightarrow> px_return ob)"

definition require_created :: "('d, 'x) rt_env \<Rightarrow> 'd job_response \<Rightarrow> (('d, 'x) rworld, gb_exn, unit) px" where
  "require_created env r =
     px_bind (status_of r) (\<lambda>ob.
     px_bind (with_obj ob (so_code (rt_now env))) (\<lambda>(c, ob).
     if c > 0 then px_bind (with_obj ob so_messages) (\<lambda>(ms, _).
       case ms of [] \<Rightarrow> px_throw NullDereference | m # _ \<Rightarrow> px_throw (throw_from_code c m))
     else px_return ()))"

definition create_status :: "('d, 'x) rt_env \<Rightarrow> 'd job \<Rightarrow> (('d, 'x) rworld, gb_exn, 'd sobj) px" where
  "create_status env j = (let a = attrs j in
     if j_type a \<noteq> JOB_ASYNC then transient_status env j
     else if j_status a \<noteq> [] then
       px_bind (cfg_get StatusManager) (\<lambda>sm. sm_fetch (rt_now env) sm (j_status a))
     else
       px_bind (new_id env ''s'') (\<lambda>i.
       px_bind (global_job env a ''do_create_global_status_v1'' (\<lambda>x. x\<lparr>j_resource_name := i\<rparr>)) (\<lambda>cj.
       px_bind (px_lift (status_request a i)) (\<lambda>d.
       px_bind (run_sync_job env (upd_attrs (\<lambda>x. x\<lparr>j_content := json_serialize (rt_lib env) d\<rparr>) cj)) (\<lambda>r.
       px_then (require_created env r)
       (px_bind (cfg_get StatusManager) (\<lambda>_.
        px_bind (global_job env a ''do_get_global_status_v1'' (\<lambda>x. add_argument i (x\<lparr>j_resource_name := i\<rparr>))) (\<lambda>gj.
        px_then (px_when (j_parent_uri a \<noteq> []) (add_child_job env a (j_base_uri a @ ''/status/'' @ i)))
          (sm_fetch_job env (j_base_uri a) gj))))))))) "

definition accepted :: "job_attrs \<Rightarrow> string \<Rightarrow> gb_exn + 'd json" where
  "accepted a n =
     res_bind (json_set ''operation'' (JString (j_operation a)) JUndef) (\<lambda>d.
     res_bind (job_resource_uri a) (\<lambda>u.
     res_bind (json_set ''uri'' (JString u) d) (\<lambda>d.
     res_bind (Uri (j_base_uri a)) (\<lambda>b.
     res_bind (uri_canonical (uri_path_push n (uri_path_push ''status'' b))) (\<lambda>t.
     res_bind (json_set ''status_uri'' (JString t) d) (json_set ''progress'' (JInt 0)))))))"

definition run_async :: "('d, 'x) rt_env \<Rightarrow> 'd job \<Rightarrow> 'd json \<Rightarrow> (('d, 'x) rworld, gb_exn, 'd job_response) px" where
  "run_async env j d =
     px_bind (new_job_ptr j) (\<lambda>p.
     px_bind (create_status env j) (\<lambda>ob.
     px_bind (px_lift (json_set ''status'' (JString (so_name ob)) d)) (\<lambda>d.
     px_bind (on_x (rt_do_background env (j_name (attrs j)) (rt_compress env (json_serialize (rt_lib env) d)))) (\<lambda>err.
     px_bind (case err of None \<Rightarrow> px_return ob
       | Some e \<Rightarrow> px_bind (with_obj ob (so_add_message (rt_now env) (''Failed to run async job'' @ j_name (attrs j) @ '': '' @ e)))
           (\<lambda>(_, ob). px_return ob)) (\<lambda>ob.
     px_bind (px_lift (accepted (attrs j) (so_name ob))) (\<lambda>c.
     px_return \<lparr>jr_content = json_serialize (rt_lib env) c, jr_headers = [], jr_status = Some ob, jr_code = 202,
       jr_job = Some p\<rparr>))))))"

text \<open>\<^verbatim>\<open>Job::run\<close> of a gearman job.\<close>

definition gearman_run :: "('d, 'x) rt_env \<Rightarrow> 'd job \<Rightarrow> (('d, 'x) rworld, gb_exn, 'd job_response) px" where
  "gearman_run env j =
     px_then (check_content env j)
     (px_then (check_connection env)
     (px_bind (job_data env j) (if j_type (attrs j) = JOB_ASYNC then run_async env j else run_sync env j)))"

section \<open>Jobs over HTTP\<close>

text \<open>The URI of the request: the name of the job and its arguments. The headers: those of the job and the parent status.\<close>

definition rest_uri :: "job_attrs \<Rightarrow> gb_exn + string" where
  "rest_uri a = res_bind (Uri (j_name a)) (\<lambda>u. uri_canonical (fold uri_path_push (j_arguments a) u))"

definition rest_headers :: "job_attrs \<Rightarrow> hash" where
  "rest_headers a = (let c = client_with (j_headers a) in
     hc_headers (if j_parent_uri a \<noteq> [] then set_header ''Status-Parent-Uri'' (j_parent_uri a) c else c))"

definition method_text :: "http_method \<Rightarrow> string" where
  "method_text m = (if m = METHOD_POST then ''POST'' else if m = METHOD_DELETE then ''DELETE''
     else if m = METHOD_PUT then ''PUT'' else if m = METHOD_GET then ''GET'' else ''UNKNOWN'')"

definition rest_call :: "('d, 'x) rt_env \<Rightarrow> job_attrs \<Rightarrow> string \<Rightarrow> (('d, 'x) rworld, gb_exn, int \<times> hash \<times> string) px" where
  "rest_call env a uri =
     (if j_method a \<in> {METHOD_DELETE, METHOD_POST, METHOD_PUT, METHOD_GET}
      then px_bind (on_x (rt_http env (j_method a) uri (rest_headers a)
             (if j_method a \<in> {METHOD_POST, METHOD_PUT} then j_content a else []))) px_lift
      else px_throw (ERR_INTERNAL_SERVER_ERROR ''Invalid HTTP method.''))"

definition bad_response :: "string \<Rightarrow> string \<Rightarrow> gb_exn" where
  "bad_response name t = ERR_INTERNAL_SERVER_ERROR (''Invalid json returned from remote job '' @ quoted name @ '': '' @ t)"

definition first_message :: "'d json \<Rightarrow> gb_exn + string" where
  "first_message d =
     (if json_hasKey ''messages'' d
      then res_bind (json_get [] ''messages'' d) (\<lambda>ms.
           res_bind (json_ref_at [Key ''messages''] 0 ms) (\<lambda>ms. 
           res_bind (json_at [Key ''messages''] 0 ms) (json_as_string [Key ''messages'', Index 0])))
      else Inr ''invalid response'')"

definition rest_transient :: "('d, 'x) rt_env \<Rightarrow> 'd job \<Rightarrow> (('d, 'x) rworld, gb_exn, 'd sobj) px" where
  "rest_transient env j =
     px_bind (new_id env ''st'') (\<lambda>i.
     px_bind (px_lift (job_resource_uri (attrs j))) (\<lambda>uri.
     sm_create (rt_now env) (StatusManager_typed ''transient'') i (j_operation (attrs j)) uri ''internal''))"

definition rest_failed :: "('d, 'x) rt_env \<Rightarrow> 'd job \<Rightarrow> string \<Rightarrow> 'd json \<Rightarrow> 'd job_response \<Rightarrow> int
    \<Rightarrow> (('d, 'x) rworld, gb_exn, 'd job_response) px" where
  "rest_failed env j uri d r c =
     px_bind (rest_transient env j) (\<lambda>ob.
     px_bind (set_running env ob) (\<lambda>ob.
     px_bind (px_lift (first_message d)) (\<lambda>m.
     px_bind (with_obj ob (so_add_message (rt_now env)
        (''Failed to '' @ method_text (j_method (attrs j)) @ '' '' @ uri @ '' got: '' @ m))) (\<lambda>(_, ob).
     px_bind (with_obj ob (so_fail (rt_now env) c)) (\<lambda>(_, ob).
     px_return (r\<lparr>jr_status := Some ob, jr_code := c\<rparr>))))))"

definition rest_done :: "('d, 'x) rt_env \<Rightarrow> 'd job \<Rightarrow> 'd job_response \<Rightarrow> (('d, 'x) rworld, gb_exn, 'd job_response) px" where
  "rest_done env j r =
     px_bind (rest_transient env j) (\<lambda>ob.
     px_bind (set_running env ob) (\<lambda>ob.
     px_bind (with_obj ob (so_success (rt_now env))) (\<lambda>(_, ob). px_return (r\<lparr>jr_status := Some ob, jr_code := 0\<rparr>))))"

text \<open>The request and its response: what the job learns before it looks at the code.\<close>

definition rest_exchange :: "('d, 'x) rt_env \<Rightarrow> 'd job \<Rightarrow> (('d, 'x) rworld, gb_exn, string \<times> int \<times> 'd json \<times> 'd job_response) px" where
  "rest_exchange env j =
     px_bind (px_lift (rest_uri (attrs j))) (\<lambda>uri.
     px_bind (new_job_ptr j) (\<lambda>p.
     px_bind (rest_call env (attrs j) uri) (\<lambda>(c, hs, t).
     px_bind (px_lift (case parse_text (rt_lib env) (rt_statics env) None t of
         Inl _ \<Rightarrow> Inl (bad_response (j_name (attrs j)) t) | Inr d \<Rightarrow> Inr d)) (\<lambda>d.
     px_return (uri, c, d, new_response\<lparr>jr_job := Some p, jr_content := t, jr_headers := hs\<rparr>)))))"

text \<open>The job that fetches a status by its URI, and the base URI under which the status is loaded.\<close>

definition status_get_job :: "string \<Rightarrow> ('d jm_world, gb_exn, 'd job \<times> string) sx" where
  "status_get_job s =
     sx_bind (sx_lift (Uri s)) (\<lambda>u.
     sx_bind (sx_lift (uri_canonical (uri_path_pop (uri_path_pop u)))) (\<lambda>base.
     sx_bind (sx_lift (res_bind (uri_canonical u) Uri)) (\<lambda>c.
     sx_bind (job_uri METHOD_GET c) (\<lambda>j.
     sx_return (upd_attrs (\<lambda>x. x\<lparr>j_type := JOB_SYNC, j_base_uri := base, j_parent_uri := []\<rparr>) j, base)))))"

definition load_fetched :: "('d, 'x) rt_env \<Rightarrow> string \<Rightarrow> 'd job \<Rightarrow> 'd job_response \<Rightarrow> (('d, 'x) rworld, gb_exn, 'd sobj) px" where
  "load_fetched env base gj r = load_content env (set_base_uri base (new_status (rt_now env))) RestKind gj r"

definition accepted_uri :: "'d json \<Rightarrow> gb_exn + string" where
  "accepted_uri d = res_bind (json_ref_key [] ''status_uri'' d) (\<lambda>d.
     res_bind (json_get [] ''status_uri'' d) (json_as_string [Key ''status_uri'']))"

text \<open>
  \<^verbatim>\<open>RestJobImpl::run\<close>. A response 202 names a status that another server keeps; it is fetched at once, with a job that
  is run until it succeeds, and that job may be told 202 in turn. The flag says that the job is repeated until it
  succeeds.
\<close>

partial_function (option) rest_run ::
    "('d, 'x) rt_env \<Rightarrow> bool \<Rightarrow> 'd job \<Rightarrow> ('d, 'x) rworld \<Rightarrow> ((gb_exn + 'd job_response) \<times> ('d, 'x) rworld) option" where
  "rest_run env again j w =
     (if again
      then px_bind (rest_run env False j) (\<lambda>r.
           px_bind (response_ok env r) (\<lambda>ok w. if ok then px_return r w else rest_run env True j w)) w
      else px_bind (px_then (check_content env j) (rest_exchange env j)) (\<lambda>x w. case x of (uri, c, d, r) \<Rightarrow>
           if c \<ge> 300 then rest_failed env j uri d r c w
           else if c \<noteq> 202 then rest_done env j r w
           else px_bind (px_bind (px_lift (accepted_uri d)) (\<lambda>s.
                  px_then (px_when (j_parent_uri (attrs j) \<noteq> []) (add_child_job env (attrs j) s)) (px_return s))) (\<lambda>s.
                px_bind (\<lambda>w. if s = [] then rest_transient env j w
                  else px_bind (on_jm (status_get_job s)) (\<lambda>y w. case y of (gj, base) \<Rightarrow>
                       px_bind (rest_run env True gj) (load_fetched env base gj) w) w) (\<lambda>ob.
                px_return (r\<lparr>jr_status := Some ob, jr_code := 0\<rparr>))) w) w)"

text \<open>\<^verbatim>\<open>sync\<close>, now for all classes: the one of a job status forgets the state and loads again.\<close>

definition so_sync :: "('d, 'x) rt_env \<Rightarrow> 'd sobj \<Rightarrow> (('d, 'x) rworld, gb_exn, 'd sobj) px" where
  "so_sync env ob = (case ob of
     JobObj s _ k j \<Rightarrow> (let s' = snd (set_state (rt_now env) STATE_UNKNOWN s) in
       case k of GearmanKind \<Rightarrow> JobStatus_load env s' j
       | RestKind \<Rightarrow> px_bind (rest_run env True j) (load_content env s' RestKind j))
   | _ \<Rightarrow> px_bind (with_obj ob (obj_call (t_sync (rt_now env)) (q_sync (rt_now env)) (sx_return ()))) (\<lambda>(_, ob). px_return ob))"

text \<open>\<^verbatim>\<open>Job::run\<close>, by the class of the job.\<close>

definition Job_run :: "('d, 'x) rt_env \<Rightarrow> job_kind \<Rightarrow> 'd job \<Rightarrow> (('d, 'x) rworld, gb_exn, 'd job_response) px" where
  "Job_run env k j = (case k of GearmanKind \<Rightarrow> gearman_run env j | RestKind \<Rightarrow> rest_run env False j)"

end
