(* ===== verification/GB_JobDelay.thy ===== *)
theory GB_JobDelay
  imports GB_JobRun
begin

text \<open>
  \<^verbatim>\<open>JobManager::delay\<close>, \<^verbatim>\<open>retry\<close> and \<^verbatim>\<open>job_queue_run\<close>: handing a job to the delay queue of the gearbox worker, trying a job
  again later and later, and running the batches of a queue. The arithmetic of the C math library and the
  clock are parameters.
\<close>

section \<open>Delaying a job\<close>

definition delay_request :: "('d, 'x) rt_env \<Rightarrow> 'd job \<Rightarrow> int \<Rightarrow> gb_exn + 'd json" where
  "delay_request env j t =
     res_bind (json_set ''name'' (JString (j_name (attrs j))) JUndef) (\<lambda>d.
     res_bind (job_serialize (rt_lib env) (rt_statics env) j) (\<lambda>e.
     res_bind (parse_text (rt_lib env) (rt_statics env) None e) (\<lambda>e.
     res_bind (json_set ''envelope'' e d) (json_set ''time'' (JInt t)))))"

text \<open>The status of the job gets the time at which the job will run.\<close>

definition note_wakeup :: "('d, 'x) rt_env \<Rightarrow> 'd job \<Rightarrow> int \<Rightarrow> 'd json \<Rightarrow> (('d, 'x) rworld, gb_exn, 'd json) px" where
  "note_wakeup env j t d =
     (if j_status (attrs j) = [] then px_return d
      else px_bind (cfg_get StatusManager) (\<lambda>sm.
           px_bind (sm_fetch (rt_now env) sm (j_status (attrs j))) (\<lambda>ob.
           px_bind (with_obj ob (so_ytime t)) (\<lambda>(_, ob).
           px_lift (json_set ''status_name'' (JString (so_name ob)) d)))))"

text \<open>Whether the delay job failed; its last message is looked at for the log, whether there is one or not.\<close>

definition delay_failed :: "('d, 'x) rt_env \<Rightarrow> 'd job_response \<Rightarrow> (('d, 'x) rworld, gb_exn, bool) px" where
  "delay_failed env r =
     px_bind (status_of r) (\<lambda>ob.
     px_bind (with_obj ob (so_progress (rt_now env))) (\<lambda>(p, ob).
     if p \<noteq> 100 then px_return False
     else px_bind (with_obj ob (so_is_success (rt_now env))) (\<lambda>(ok, ob).
          if ok then px_return False
          else px_bind (with_obj ob so_messages) (\<lambda>(ms, _). if ms = [] then px_throw NullDereference else px_return True))))"

definition delay_try :: "('d, 'x) rt_env \<Rightarrow> 'd job \<Rightarrow> (('d, 'x) rworld, gb_exn, bool) px" where
  "delay_try env dj = px_bind (gearman_run env dj) (delay_failed env)"

text \<open>The loop goes on after every failure and every exception; there is none to catch where the process dies.\<close>

definition delay_attempt :: "('d, 'x) rt_env \<Rightarrow> 'd job \<Rightarrow> (('d, 'x) rworld, gb_exn, bool) px" where
  "delay_attempt env dj = px_catch (delay_try env dj) (\<lambda>e. if e = NullDereference then px_throw e else px_return True)"

partial_function (option) delay_loop ::
    "('d, 'x) rt_env \<Rightarrow> 'd job \<Rightarrow> ('d, 'x) rworld \<Rightarrow> ((gb_exn + unit) \<times> ('d, 'x) rworld) option" where
  "delay_loop env dj w = px_bind (delay_attempt env dj) (\<lambda>again w. if again then delay_loop env dj w else px_return () w) w"

definition jm_delay :: "('d, 'x) rt_env \<Rightarrow> 'd job \<Rightarrow> int \<Rightarrow> (('d, 'x) rworld, gb_exn, unit) px" where
  "jm_delay env j seconds =
     px_bind (on_jm (job_named (rt_jm env) ''do_put_delay_job_v1'')) (\<lambda>dj.
     px_bind (px_lift (delay_request env j (rt_now env + seconds))) (\<lambda>d.
     px_bind (note_wakeup env j (rt_now env + seconds) d) (\<lambda>d.
     delay_loop env (upd_attrs (\<lambda>a. a\<lparr>j_type := JOB_SYNC, j_content := json_serialize (rt_lib env) d\<rparr>) dj))))"

section \<open>Trying again\<close>

definition MAX_DELAY :: int where
  "MAX_DELAY = 9220695"

text \<open>
  The delay of an attempt: the Fibonacci number of the attempt as the math library computes it, at most the maximum,
  plus a random part of the jitter.
\<close>

definition retry_seconds :: "(int \<Rightarrow> int) \<Rightarrow> (int \<Rightarrow> int) \<Rightarrow> int \<Rightarrow> int \<Rightarrow> int \<Rightarrow> int" where
  "retry_seconds fib jitter retry max_delay max_jitter =
     (let max_delay = (if max_delay > MAX_DELAY then MAX_DELAY else max_delay);
          delay = (if retry < 35 then fib retry else max_delay);
          delay = (if delay > max_delay then max_delay else delay)
      in if delay > max_jitter then delay + jitter max_jitter else delay)"

text \<open>How often the job was tried, counted in its status.\<close>

definition count_retry :: "('d, 'x) rt_env \<Rightarrow> 'd job \<Rightarrow> (('d, 'x) rworld, gb_exn, int) px" where
  "count_retry env j =
     (if j_status (attrs j) = [] then px_return 1
      else px_bind (cfg_get StatusManager) (\<lambda>sm.
           px_bind (sm_fetch (rt_now env) sm (j_status (attrs j))) (\<lambda>ob.
           px_bind (with_obj ob (so_failures (rt_now env))) (\<lambda>(n, ob).
           (let retry = wrap_s32 (int n + 1) in
            px_bind (with_obj ob (so_set_failures (wrap_u32 retry))) (\<lambda>_. px_return retry))))))"

definition jm_retry :: "('d, 'x) rt_env \<Rightarrow> (int \<Rightarrow> int) \<Rightarrow> (int \<Rightarrow> int) \<Rightarrow> 'd job \<Rightarrow> int \<Rightarrow> int
    \<Rightarrow> (('d, 'x) rworld, gb_exn, unit) px" where
  "jm_retry env fib jitter j max_delay max_jitter =
     px_bind (count_retry env j) (\<lambda>retry. jm_delay env j (retry_seconds fib jitter retry max_delay max_jitter))"

section \<open>Running a queue\<close>

type_synonym 'd job_ptr = "nat \<times> job_kind \<times> 'd job"
type_synonym timers = "(nat, int \<times> int) smap"

definition agent_failed :: "'d job_response \<Rightarrow> int \<Rightarrow> gb_exn" where
  "agent_failed r c = ERR_INTERNAL_SERVER_ERROR
     (''Agent '' @ [CHR 0x27] @ (case jr_job r of None \<Rightarrow> [] | Some p \<Rightarrow> j_name (attrs (snd p))) @ [CHR 0x27]
       @ '' returned status code '' @ int_dec c)"

definition agent_timeout :: "'d job_response \<Rightarrow> gb_exn" where
  "agent_timeout r = ERR_INTERNAL_SERVER_ERROR
     (''Agent '' @ [CHR 0x27] @ (case jr_job r of None \<Rightarrow> [] | Some p \<Rightarrow> j_name (attrs (snd p))) @ [CHR 0x27]
       @ '' exceeded timeout!'')"

text \<open>The timer of a job is kept under the address of the job in the queue, and looked up under that of the job in the response.\<close>

definition response_timer :: "timers \<Rightarrow> 'd job_response \<Rightarrow> (int \<times> int) option" where
  "response_timer timer r = (case jr_job r of None \<Rightarrow> None | Some p \<Rightarrow> smap_find timer (fst p))"

fun dispatch :: "('d, 'x) rt_env \<Rightarrow> ('x \<Rightarrow> int) \<Rightarrow> timers \<Rightarrow> 'd job_ptr list
    \<Rightarrow> (('d, 'x) rworld, gb_exn, timers \<times> 'd job_response list) px" where
  "dispatch env clock timer [] = px_return (timer, [])"
| "dispatch env clock timer ((p, k, j) # js) =
     px_bind (px_get (\<lambda>w. if j_timeout (attrs j) \<noteq> 0 then smap_put p (clock (rw_x w), j_timeout (attrs j)) timer else timer)) (\<lambda>timer.
     px_bind (Job_run env k j) (\<lambda>r.
     px_bind (dispatch env clock timer js) (\<lambda>(timer, rs). px_return (timer, r # rs))))"

text \<open>While the process sleeps, others go on with the database and the services.\<close>

definition pause_for :: "('d sqldb \<times> 'x \<Rightarrow> 'd sqldb \<times> 'x) \<Rightarrow> (('d, 'x) rworld, gb_exn, unit) px" where
  "pause_for pause = px_modify (\<lambda>w. let (db, x) = pause (rw_db w, rw_x w) in w\<lparr>rw_db := db, rw_x := x\<rparr>)"

definition check_timer :: "('x \<Rightarrow> int) \<Rightarrow> timers \<Rightarrow> 'd job_response \<Rightarrow> (('d, 'x) rworld, gb_exn, unit) px" where
  "check_timer clock timer r = (case response_timer timer r of
     None \<Rightarrow> px_return ()
   | Some (start, limit) \<Rightarrow> px_bind (px_get (\<lambda>w. clock (rw_x w))) (\<lambda>t.
       if limit \<noteq> 0 \<and> t - start \<ge> limit then px_throw (agent_timeout r) else px_return ()))"

text \<open>One look at the response at the head of the queue: whether it is done.\<close>

definition poll_one :: "('d, 'x) rt_env \<Rightarrow> ('x \<Rightarrow> int) \<Rightarrow> ('d sqldb \<times> 'x \<Rightarrow> 'd sqldb \<times> 'x) \<Rightarrow> timers \<Rightarrow> 'd job_response
    \<Rightarrow> (('d, 'x) rworld, gb_exn, bool \<times> 'd job_response) px" where
  "poll_one env clock pause timer r =
     px_bind (status_of r) (\<lambda>ob.
     px_bind (so_sync env ob) (\<lambda>ob.
     px_bind (with_obj ob (so_progress (rt_now env))) (\<lambda>(p, ob).
     if p \<noteq> 100 then
       px_bind (check_timer clock timer r) (\<lambda>_.
       px_bind (pause_for pause) (\<lambda>_.
       px_return (False, r\<lparr>jr_status := Some ob\<rparr>)))
     else px_bind (with_obj ob (so_code (rt_now env))) (\<lambda>(c, ob).
       if c \<noteq> 0 then px_throw (agent_failed r c) else px_return (True, r\<lparr>jr_status := Some ob\<rparr>)))))"

partial_function (option) poll_loop ::
    "('d, 'x) rt_env \<Rightarrow> ('x \<Rightarrow> int) \<Rightarrow> ('d sqldb \<times> 'x \<Rightarrow> 'd sqldb \<times> 'x) \<Rightarrow> timers \<Rightarrow> 'd job_response list \<Rightarrow> ('d, 'x) rworld
      \<Rightarrow> ((gb_exn + unit) \<times> ('d, 'x) rworld) option" where
  "poll_loop env clock pause timer q w = (case q of
     [] \<Rightarrow> Some (Inr (), w)
   | r # rs \<Rightarrow> px_bind (poll_one env clock pause timer r) (\<lambda>x w. case x of (gone, r') \<Rightarrow>
       poll_loop env clock pause timer (if gone then rs else r' # rs) w) w)"

fun run_batches :: "('d, 'x) rt_env \<Rightarrow> ('x \<Rightarrow> int) \<Rightarrow> ('d sqldb \<times> 'x \<Rightarrow> 'd sqldb \<times> 'x) \<Rightarrow> timers \<Rightarrow> 'd job_ptr list list
    \<Rightarrow> (('d, 'x) rworld, gb_exn, unit) px" where
  "run_batches env clock pause timer [] = px_return ()"
| "run_batches env clock pause timer (batch # jobs) =
     px_bind (dispatch env clock timer batch) (\<lambda>(timer, q).
     px_then (poll_loop env clock pause timer q) (run_batches env clock pause timer jobs))"

definition job_queue_run :: "('d, 'x) rt_env \<Rightarrow> ('x \<Rightarrow> int) \<Rightarrow> ('d sqldb \<times> 'x \<Rightarrow> 'd sqldb \<times> 'x) \<Rightarrow> 'd job_ptr list list
    \<Rightarrow> (('d, 'x) rworld, gb_exn, unit) px" where
  "job_queue_run env clock pause jobs = run_batches env clock pause [] jobs"

section \<open>Delays stay within bounds\<close>


section \<open>When a delay returns\<close>

text \<open>The world after so many attempts that failed.\<close>

fun after_failures :: "('d, 'x) rt_env \<Rightarrow> 'd job \<Rightarrow> nat \<Rightarrow> ('d, 'x) rworld \<Rightarrow> ('d, 'x) rworld option" where
  "after_failures env dj 0 w = Some w"
| "after_failures env dj (Suc n) w = (case delay_attempt env dj w of
     Some (Inr True, w1) \<Rightarrow> after_failures env dj n w1 | _ \<Rightarrow> None)"

definition delayed_after :: "('d, 'x) rt_env \<Rightarrow> 'd job \<Rightarrow> nat \<Rightarrow> ('d, 'x) rworld \<Rightarrow> ('d, 'x) rworld \<Rightarrow> bool" where
  "delayed_after env dj n w w' \<longleftrightarrow> (case after_failures env dj n w of
     None \<Rightarrow> False
   | Some w1 \<Rightarrow> (case delay_attempt env dj w1 of Some (Inr False, w2) \<Rightarrow> w2 = w' | _ \<Rightarrow> False))"

interpretation delaying: retried "while_again (delay_attempt env dj)" "delay_loop env dj" for env dj
proof
  fix w show "delay_loop env dj w = (case while_again (delay_attempt env dj) w of None \<Rightarrow> None | Some (None, w') \<Rightarrow> delay_loop env dj w'
      | Some (Some r, w') \<Rightarrow> Some (r, w'))"
    by (subst delay_loop.simps) (simp add: while_again_def px_bind_def px_return_def split: option.split prod.split sum.split)
next
  fix w y P
  assume "delay_loop env dj w = Some y" and "\<And>w r w'. while_again (delay_attempt env dj) w = Some (Some r, w') \<Longrightarrow> P w (r, w')"
    and "\<And>w w' y. while_again (delay_attempt env dj) w = Some (None, w') \<Longrightarrow> P w' y \<Longrightarrow> P w y"
  then show "P w y"
    by (rule_tac delay_loop.raw_induct [where P = "\<lambda>e j w y. e = env \<longrightarrow> j = dj \<longrightarrow> P w y", rule_format])
      (auto simp: while_again_simps px_bind_def px_return_def split: option.splits prod.splits sum.splits if_splits)
qed

lemma delayed_after_0: "delayed_after env dj 0 w w' \<longleftrightarrow> delay_attempt env dj w = Some (Inr False, w')"
  by (auto simp: delayed_after_def split: option.splits sum.splits bool.splits)

lemma delayed_after_Suc: "delayed_after env dj (Suc n) w w' \<longleftrightarrow> (\<exists>w1. delay_attempt env dj w = Some (Inr True, w1) \<and> delayed_after env dj n w1 w')"
proof (cases "delay_attempt env dj w")
  case None
  then show ?thesis by (simp add: delayed_after_def)
next
  case (Some y)
  obtain res w1 where y: "y = (res, w1)" by (cases y)
  show ?thesis
  proof (cases res)
    case (Inl e)
    with Some y show ?thesis by (simp add: delayed_after_def)
  next
    case (Inr again)
    with Some y show ?thesis by (cases again) (simp_all add: delayed_after_def)
  qed
qed

lemma delayed_after_ends: "delayed_after env dj n w w' \<longleftrightarrow> ends_after (while_again (delay_attempt env dj)) n w (Inr (), w')"
  by (induction n arbitrary: w) (simp_all add: delayed_after_0 delayed_after_Suc while_again_simps)

lemma delay_attempt_throws: "delay_attempt env dj w = Some (Inl e, w') \<Longrightarrow> e = NullDereference"
  by (auto simp: delay_attempt_def px_catch_def px_throw_def px_return_def split: option.splits sum.splits if_splits)


section \<open>Addresses\<close>

text \<open>Every computation of the process only ever allocates.\<close>

definition allocates :: "(('d, 'x) rworld, gb_exn, 'a) px \<Rightarrow> bool" where
  "allocates m \<longleftrightarrow> (\<forall>w r w'. m w = Some (r, w') \<longrightarrow> rw_heap w \<le> rw_heap w')"

named_theorems alloc "computations that only allocate"

lemma allocatesD: "allocates m \<Longrightarrow> m w = Some (r, w') \<Longrightarrow> rw_heap w \<le> rw_heap w'"
  by (simp add: allocates_def)

lemma allocates_bind [alloc]:
  assumes "allocates m" and "\<And>a. allocates (f a)"
  shows "allocates (px_bind m f)"
  using assms unfolding allocates_def px_bind_def
  by (fastforce split: option.splits prod.splits sum.splits intro: order_trans)

lemma allocates_then [alloc]: "allocates m \<Longrightarrow> allocates n \<Longrightarrow> allocates (px_then m n)"
  unfolding px_then_def by (rule allocates_bind)

lemma allocates_basic [alloc]:
  "allocates (px_return a)" "allocates (px_throw e)" "allocates (px_lift r)" "allocates (px_get g)"
  "allocates (new_job_ptr j)" "allocates (cfg_get h)"
  by (auto simp: allocates_def px_defs new_job_ptr_def cfg_get_def)

lemma allocates_on [alloc]: "allocates (on_jm m)" "allocates (on_x f)" "allocates (with_jm b p m)"
  by (auto simp: allocates_def on_jm_def on_x_def with_jm_def Let_def split: prod.splits)

lemma allocates_when [alloc]: "allocates m \<Longrightarrow> allocates (px_when b m)"
  by (simp add: px_when_def alloc)

lemma allocates_if [alloc]: "allocates m \<Longrightarrow> allocates n \<Longrightarrow> allocates (if b then m else n)"
  by simp

lemma allocates_fun_if [alloc]: "allocates m \<Longrightarrow> allocates n \<Longrightarrow> allocates (\<lambda>w. if b then m w else n w)"
  by (cases b) simp_all

lemma allocates_option [alloc]: "allocates m \<Longrightarrow> (\<And>x. allocates (f x)) \<Longrightarrow> allocates (case ob of None \<Rightarrow> m | Some x \<Rightarrow> f x)"
  by (simp split: option.split)

lemma allocates_prod [alloc]: "(\<And>a b. allocates (f a b)) \<Longrightarrow> allocates (case p of (a, b) \<Rightarrow> f a b)"
  by (simp split: prod.split)

lemma allocates_fun_prod [alloc]: "(\<And>a b. allocates (f a b)) \<Longrightarrow> allocates (\<lambda>w. case p of (a, b) \<Rightarrow> f a b w)"
  by (cases p) simp

lemma with_obj_call_heap: "obj_call mt mq mj (ob, w) = (r, ob', w') \<Longrightarrow> rw_heap w' = rw_heap w"
  by (auto simp: obj_call_def on_transient_def sql_back_def Let_def split: sobj.splits prod.splits)

lemma allocates_obj [alloc]: "allocates (with_obj ob (obj_call mt mq mj))"
  by (auto simp: allocates_def with_obj_def split: prod.splits sum.splits dest!: with_obj_call_heap)

lemmas so_defs = so_state_def so_set_state_def so_progress_def so_set_progress_def so_code_def so_fail_def so_success_def
  so_cancel_def so_is_success_def so_add_message_def so_messages_def so_ytime_def so_failures_def so_set_failures_def
  so_starting_def so_stopping_def

lemma allocates_so [alloc]:
  "allocates (with_obj ob (so_state now))" "allocates (with_obj ob (so_set_state now st))" "allocates (with_obj ob (so_progress now))"
  "allocates (with_obj ob (so_code now))" "allocates (with_obj ob (so_fail now c))" "allocates (with_obj ob (so_success now))"
  "allocates (with_obj ob (so_is_success now))" "allocates (with_obj ob (so_add_message now m))" "allocates (with_obj ob so_messages)"
  "allocates (with_obj ob (so_ytime t))" "allocates (with_obj ob (so_failures now))" "allocates (with_obj ob (so_set_failures n))"
  unfolding so_defs by (rule alloc)+

lemma allocates_create [alloc]: "allocates (sm_create now sm n op uri c)"
  by (auto simp: allocates_def sm_create_def px_bind_def px_lift_def sql_back_def Let_def
      split: sobj.splits option.splits prod.splits sum.splits)

lemma allocates_fetch [alloc]: "allocates (sm_fetch now sm n)"
  by (auto simp: allocates_def sm_fetch_def px_bind_def px_lift_def sql_back_def Let_def
      split: sobj.splits option.splits prod.splits sum.splits)

lemma allocates_sum [alloc]: "(\<And>a. allocates (f a)) \<Longrightarrow> (\<And>b. allocates (g b)) \<Longrightarrow> allocates (case x of Inl a \<Rightarrow> f a | Inr b \<Rightarrow> g b)"
  by (simp split: sum.split)

lemma allocates_list [alloc]: "allocates m \<Longrightarrow> (\<And>x xs. allocates (f x xs)) \<Longrightarrow> allocates (case ys of [] \<Rightarrow> m | x # xs \<Rightarrow> f x xs)"
  by (simp split: list.split)

lemma allocates_sync [alloc]:
  "allocates (check_connection_loop env n)" "allocates (check_connection env)" "allocates (new_id env i)"
  "allocates (transient_status env j)" "allocates (set_running env ob)" "allocates (finish_transient env d r ob)"
  "allocates (run_sync env j d)" "allocates (check_content env j)" "allocates (job_data env j)"
  "allocates (run_sync_job env j)" "allocates (response_ok env r)"
proof -
  show loop: "allocates (check_connection_loop env n)" for n by (induction n) (auto intro!: alloc)
  show "allocates (check_connection env)" unfolding check_connection_def by (intro alloc loop)
  show i: "allocates (new_id env i)" for i unfolding new_id_def by (intro alloc)
  show t: "allocates (transient_status env j)" unfolding transient_status_def by (intro alloc i)
  show r: "allocates (set_running env ob)" for ob unfolding set_running_def by (intro alloc)
  show f: "allocates (finish_transient env d r ob)" for d r ob unfolding finish_transient_def by (intro alloc)
  show s: "allocates (run_sync env j d)" for d unfolding run_sync_def by (intro alloc t r f)
  show c: "allocates (check_content env j)" unfolding check_content_def by (intro alloc)
  show d: "allocates (job_data env j)" unfolding job_data_def by (intro alloc)
  show "allocates (run_sync_job env j)"
    unfolding run_sync_job_def check_connection_def by (intro alloc s c d loop)
  show "allocates (response_ok env r)" unfolding response_ok_def by (intro alloc)
qed

lemma allocates_status_loop [alloc]: "allocates (job_status_loop env j)"
proof -
  have "rw_heap w \<le> rw_heap (snd y)" if "job_status_loop env j w = Some y" for w y
  proof (rule job_status_loop.raw_induct [where P = "\<lambda>env j w y. rw_heap w \<le> rw_heap (snd y)", OF _ that])
    fix loop env j w y
    assume IH: "\<And>env j w y. loop env j w = Some y \<Longrightarrow> rw_heap w \<le> rw_heap (snd y)"
      and run: "px_bind (run_sync_job env j) (\<lambda>r. px_bind (response_ok env r) (\<lambda>ok w. if ok then px_return r w else loop env j w)) w = Some y"
    have "allocates (loop env j)" using IH unfolding allocates_def by fastforce
    then have "allocates (px_bind (run_sync_job env j) (\<lambda>r. px_bind (response_ok env r) (\<lambda>ok w. if ok then px_return r w else loop env j w)))"
      by (intro alloc)
    from allocatesD [OF this] run show "rw_heap w \<le> rw_heap (snd y)" by (cases y) simp
  qed
  then show ?thesis unfolding allocates_def by force
qed

lemma allocates_load [alloc]: "allocates (load_content env s k j r)"
  unfolding load_content_def by (intro alloc)

lemma allocates_async [alloc]:
  "allocates (JobStatus_load env s j)" "allocates (sm_fetch_job env b j)" "allocates (global_job env a n f)"
  "allocates (add_child_job env a c)" "allocates (status_of r)" "allocates (require_created env r)" "allocates (create_status env j)"
  "allocates (run_async env j d)" "allocates (gearman_run env j)"
proof -
  show l: "allocates (JobStatus_load env s j)" for s j unfolding JobStatus_load_def by (intro alloc)
  show f: "allocates (sm_fetch_job env b j)" for b j unfolding sm_fetch_job_def by (intro l)
  show g: "allocates (global_job env a n f)" for a n f unfolding global_job_def by (intro alloc)
  show c: "allocates (add_child_job env a c)" for a c unfolding add_child_job_def by (intro alloc g)
  show st: "allocates (status_of r)" for r unfolding status_of_def by (intro alloc)
  show r: "allocates (require_created env r)" for r unfolding require_created_def by (intro alloc st)
  show cs: "allocates (create_status env j)" for j unfolding create_status_def Let_def by (intro alloc g c r f)
  show a: "allocates (run_async env j d)" for j d unfolding run_async_def by (intro alloc cs)
  have "allocates ((if b then run_async env j else run_sync env j) d)" for b d using a by (simp add: alloc)
  then show "allocates (gearman_run env j)" unfolding gearman_run_def by (intro alloc)
qed

lemmas px_bind_Some = px_bind_Inr

text \<open>A response names the copy of the job that was made for it.\<close>

definition names_new :: "(('d, 'x) rworld, gb_exn, 'd job_response) px \<Rightarrow> bool" where
  "names_new m \<longleftrightarrow> (\<forall>w r w' p. m w = Some (Inr r, w') \<longrightarrow> jr_job r = Some p \<longrightarrow> rw_heap w \<le> fst p)"

lemma names_new_bind: "allocates m \<Longrightarrow> (\<And>a. names_new (f a)) \<Longrightarrow> names_new (px_bind m f)"
  unfolding names_new_def px_bind_Some by (meson allocatesD order_trans)

lemma names_new_then: "allocates m \<Longrightarrow> names_new n \<Longrightarrow> names_new (px_then m n)"
  unfolding px_then_def by (rule names_new_bind)

lemma response_headers_job: "response_headers hs r = Inr r' \<Longrightarrow> jr_job r' = jr_job r"
  by (induction hs r rule: response_headers.induct) (auto simp: res_bind_def jr_add_header_def split: sum.splits)

lemma read_response_job: "read_response d r = Inr r' \<Longrightarrow> jr_job r' = jr_job r"
  by (auto simp: read_response_def res_bind_def split: if_splits sum.splits dest: response_headers_job)

lemma names_new_sync: "names_new (run_sync env j d)"
  unfolding names_new_def run_sync_def px_bind_Some
  by (auto simp: new_job_ptr_def px_return_def px_lift_def px_bind_Some split_beta dest!: read_response_job)

lemma names_new_async: "names_new (run_async env j d)"
  unfolding names_new_def run_async_def px_bind_Some
  by (auto simp: new_job_ptr_def px_return_def px_bind_Some split_beta)

lemma names_new_gearman: "names_new (gearman_run env j)"
proof -
  have "names_new ((if b then run_async env j else run_sync env j) d)" for b d
    by (simp add: names_new_sync names_new_async)
  then show ?thesis unfolding gearman_run_def by (intro names_new_then names_new_bind alloc)
qed

lemma allocates_rest [alloc]:
  "allocates (rest_call env a u)" "allocates (rest_transient env j)" "allocates (rest_failed env j u d r c)"
  "allocates (rest_done env j r)" "allocates (rest_exchange env j)" "allocates (load_fetched env b j r)"
proof -
  show c: "allocates (rest_call env a u)" for a u unfolding rest_call_def by (intro alloc)
  show t: "allocates (rest_transient env j)" unfolding rest_transient_def by (intro alloc)
  show "allocates (rest_failed env j u d r c)" unfolding rest_failed_def by (intro alloc t)
  show "allocates (rest_done env j r)" unfolding rest_done_def by (intro alloc t)
  show "allocates (rest_exchange env j)" unfolding rest_exchange_def by (intro alloc c)
  show "allocates (load_fetched env b j r)" unfolding load_fetched_def by (intro alloc)
qed

text \<open>The response of an exchange names the copy made for it, and what follows keeps that.\<close>

definition keeps_job :: "'d job_response \<Rightarrow> (('d, 'x) rworld, gb_exn, 'd job_response) px \<Rightarrow> bool" where
  "keeps_job r m \<longleftrightarrow> (\<forall>w r' w'. m w = Some (Inr r', w') \<longrightarrow> jr_job r' = jr_job r)"

lemma keeps_job_intros:
  "(\<And>a. keeps_job r (f a)) \<Longrightarrow> keeps_job r (px_bind m f)" "keeps_job r (px_return (r\<lparr>jr_status := s, jr_code := c\<rparr>))"
  "keeps_job r n \<Longrightarrow> keeps_job r n' \<Longrightarrow> keeps_job r (\<lambda>w. if b then n w else n' w)"
  by (auto simp: keeps_job_def px_bind_Some px_return_def)

lemma keeps_job_prod: "(\<And>a b. keeps_job r (f a b)) \<Longrightarrow> keeps_job r (case p of (a, b) \<Rightarrow> f a b)"
  by (cases p) simp

lemma keeps_job_rest: "keeps_job r (rest_failed env j u d r c)" "keeps_job r (rest_done env j r)"
  unfolding rest_failed_def rest_done_def by (intro keeps_job_intros keeps_job_prod)+

lemma exchange_names_new:
  assumes "rest_exchange env j w = Some (Inr (u, c, d, r), w')"
  shows "jr_job r = Some (rw_heap w, j)"
  using assms unfolding rest_exchange_def px_bind_Some
  by (auto simp: px_bind_Some px_lift_def px_return_def new_job_ptr_def split_beta)

lemma names_new_exchange:
  assumes "\<And>u c d r. keeps_job r (f u c d r)"
  shows "names_new (px_bind (px_then (check_content env j) (rest_exchange env j)) (\<lambda>x w. case x of (u, c, d, r) \<Rightarrow> f u c d r w))"
  unfolding names_new_def
proof (intro allI impI)
  fix w r' w' p
  assume "px_bind (px_then (check_content env j) (rest_exchange env j)) (\<lambda>x w. case x of (u, c, d, r) \<Rightarrow> f u c d r w) w = Some (Inr r', w')"
    and p: "jr_job r' = Some p"
  then obtain w1 u c d r w2 where 1: "check_content env j w = Some (Inr (), w1)" "rest_exchange env j w1 = Some (Inr (u, c, d, r), w2)"
      "f u c d r w2 = Some (Inr r', w')"
    by (auto simp: px_bind_Some px_then_def)
  have "rw_heap w \<le> rw_heap w1" by (rule allocatesD [OF allocates_sync(8) 1(1)])
  with exchange_names_new [OF 1(2)] assms [of r u c d] 1(3) p show "rw_heap w \<le> fst p" unfolding keeps_job_def by fastforce
qed

lemma new_response_facts:
  assumes "allocates m" and "names_new m" and "m w = Some y"
  shows "rw_heap w \<le> rw_heap (snd y) \<and> (\<forall>r p. fst y = Inr r \<longrightarrow> jr_job r = Some p \<longrightarrow> rw_heap w \<le> fst p)"
  using assms unfolding allocates_def names_new_def by (cases y) auto

lemma rest_run_new:
  fixes env :: "('d, 'x) rt_env"
  shows "allocates (rest_run env again j) \<and> names_new (rest_run env again j)"
proof -
  let ?P = "\<lambda>(env :: ('d, 'x) rt_env) (again :: bool) (j :: 'd job) w y. rw_heap w \<le> rw_heap (snd y) \<and> (\<forall>r p. fst y = Inr r \<longrightarrow> jr_job r = Some p \<longrightarrow> rw_heap w \<le> fst p)"
  have "?P env again j w y" if "rest_run env again j w = Some y" for env again j w y
  proof (rule rest_run.raw_induct [where P = ?P, OF _ that])
    fix loop :: "('d, 'x) rt_env \<Rightarrow> bool \<Rightarrow> 'd job \<Rightarrow> ('d, 'x) rworld \<Rightarrow> ((gb_exn + 'd job_response) \<times> ('d, 'x) rworld) option"
      and env again j w y
    let ?again = "\<lambda>env j. px_bind (loop env False j) (\<lambda>r. px_bind (response_ok env r) (\<lambda>ok w. if ok then px_return r w else loop env True j w))"
    let ?tail = "\<lambda>env j. \<lambda>uri c d r w. if c \<ge> 300 then rest_failed env j uri d r c w
           else if c \<noteq> 202 then rest_done env j r w
           else px_bind (px_bind (px_lift (accepted_uri d)) (\<lambda>s.
                  px_then (px_when (j_parent_uri (attrs j) \<noteq> []) (add_child_job env (attrs j) s)) (px_return s))) (\<lambda>s.
                px_bind (\<lambda>w. if s = [] then rest_transient env j w
                  else px_bind (on_jm (status_get_job s)) (\<lambda>y w. case y of (gj, base) \<Rightarrow>
                       px_bind (loop env True gj) (load_fetched env base gj) w) w) (\<lambda>ob.
                px_return (r\<lparr>jr_status := Some ob, jr_code := 0\<rparr>))) w"
    let ?once = "\<lambda>env j. px_bind (px_then (check_content env j) (rest_exchange env j)) (\<lambda>x w. case x of (uri, c, d, r) \<Rightarrow> ?tail env j uri c d r w)"
    assume IH: "\<And>env again j w y. loop env again j w = Some y \<Longrightarrow> ?P env again j w y"
      and run: "(if again then ?again env j w else ?once env j w) = Some y"
    have a: "allocates (loop env again j)" for env again j using IH unfolding allocates_def by fastforce
    have n: "names_new (loop env again j)" for env again j using IH unfolding names_new_def by fastforce
    have a1: "allocates (?again env j)" by (intro alloc a)
    have n1: "names_new (?again env j)"
      unfolding names_new_def
    proof (intro allI impI)
      fix w r' w' p
      assume "?again env j w = Some (Inr r', w')" and p: "jr_job r' = Some p"
      then obtain r w1 ok w2 where 1: "loop env False j w = Some (Inr r, w1)" "response_ok env r w1 = Some (Inr ok, w2)"
          "(if ok then px_return r w2 else loop env True j w2) = Some (Inr r', w')"
        unfolding px_bind_Some by blast
      show "rw_heap w \<le> fst p"
      proof (cases ok)
        case True
        with 1(3) have "r' = r" by (simp add: px_return_def)
        with 1(1) p n [of env False j] show ?thesis unfolding names_new_def by metis
      next
        case False
        with 1(3) have "loop env True j w2 = Some (Inr r', w')" by simp
        with p n [of env True j] have "rw_heap w2 \<le> fst p" unfolding names_new_def by metis
        with allocatesD [OF a 1(1)] allocatesD [OF allocates_sync(11) 1(2)] show ?thesis by simp
      qed
    qed
    have a2: "allocates (?once env j)" by (intro alloc a)
    have n2: "names_new (?once env j)"
      by (intro names_new_exchange keeps_job_intros keeps_job_rest)
    show "?P env again j w y"
    proof (cases again)
      case True
      with run show ?thesis by (intro new_response_facts [OF a1 n1]) simp
    next
      case False
      with run show ?thesis by (intro new_response_facts [OF a2 n2]) simp
    qed
  qed
  then have "?P env again j w (r, w')" if "rest_run env again j w = Some (r, w')" for env again j w r w' using that by blast
  then show ?thesis unfolding allocates_def names_new_def by auto
qed

lemma allocates_so_sync [alloc]: "allocates (so_sync env ob)"
proof (cases ob)
  case (JobObj s d k j)
  have "allocates (rest_run env True j)" using rest_run_new by blast
  with JobObj show ?thesis unfolding so_sync_def Let_def by (cases k) (simp_all, (intro alloc; assumption)+)
qed (simp_all add: so_sync_def, (intro alloc)+)

lemma Job_run_new: "allocates (Job_run env k j)" "names_new (Job_run env k j)"
  by (cases k; simp add: Job_run_def rest_run_new names_new_gearman allocates_async(9))+

section \<open>Timers that are never found\<close>

definition unnamed :: "timers \<Rightarrow> 'd job_response list \<Rightarrow> bool" where
  "unnamed timer q \<longleftrightarrow> (\<forall>r\<in>set q. response_timer timer r = None)"

lemma no_timer: "response_timer [] r = None"
  by (simp add: response_timer_def smap.find_emp split: option.split)

lemma poll_one_untimed: "response_timer timer r = None \<Longrightarrow> poll_one env clock pause timer r = poll_one env clock pause [] r"
proof -
  assume "response_timer timer r = None"
  then have same: "check_timer clock timer r = check_timer clock [] r" by (simp add: check_timer_def no_timer)
  show ?thesis unfolding poll_one_def same by (rule refl)
qed

lemma poll_one_job: "poll_one env clock pause timer r w = Some (Inr (gone, r'), w') \<Longrightarrow> jr_job r' = jr_job r"
proof -
  assume "poll_one env clock pause timer r w = Some (Inr (gone, r'), w')"
  then show ?thesis
    unfolding poll_one_def px_bind_Some
    by (elim exE conjE) (auto simp: px_bind_Some px_return_def px_throw_def split: if_splits)
qed

lemma poll_loop_transfer:
  assumes "poll_loop env clock pause timer q w = Some y" and "unnamed timer q" and "unnamed timer' q"
  shows "poll_loop env clock pause timer' q w = Some y"
proof -
  let ?P = "\<lambda>(env :: ('a, 'b) rt_env) clock pause timer (q :: 'a job_response list) w y. unnamed timer q \<longrightarrow>
    (\<forall>timer'. unnamed timer' q \<longrightarrow> poll_loop env clock pause timer' q w = Some y)"
  have "?P env clock pause timer q w y"
  proof (rule poll_loop.raw_induct [where P = ?P, OF _ assms(1)], intro impI allI)
    fix loop :: "('a, 'b) rt_env \<Rightarrow> ('b \<Rightarrow> int) \<Rightarrow> ('a sqldb \<times> 'b \<Rightarrow> 'a sqldb \<times> 'b) \<Rightarrow> timers \<Rightarrow> 'a job_response list
        \<Rightarrow> ('a, 'b) rworld \<Rightarrow> ((gb_exn + unit) \<times> ('a, 'b) rworld) option"
      and env clock pause timer q w y timer'
    assume IH: "\<And>env clock pause timer q w y. loop env clock pause timer q w = Some y \<Longrightarrow> ?P env clock pause timer q w y"
      and run: "(case q of [] \<Rightarrow> Some (Inr (), w) | r # rs \<Rightarrow> px_bind (poll_one env clock pause timer r) (\<lambda>x w. case x of (gone, r') \<Rightarrow>
         loop env clock pause timer (if gone then rs else r' # rs) w) w) = Some y"
      and un: "unnamed timer q" "unnamed timer' q"
    show "poll_loop env clock pause timer' q w = Some y"
    proof (cases q)
      case Nil
      with run show ?thesis by (simp add: poll_loop.simps)
    next
      case (Cons r rs)
      have one: "poll_one env clock pause timer r = poll_one env clock pause timer' r"
        using un Cons poll_one_untimed [of timer r env clock pause] poll_one_untimed [of timer' r env clock pause] by (simp add: unnamed_def)
      have step: "poll_loop env clock pause timer' (if gone then rs else r' # rs) w1 = Some z"
        if "poll_one env clock pause timer' r w = Some (Inr (gone, r'), w1)" "loop env clock pause timer (if gone then rs else r' # rs) w1 = Some z"
        for gone r' w1 z
      proof -
        have "jr_job r' = jr_job r" by (rule poll_one_job [OF that(1)])
        with un Cons have "unnamed timer (if gone then rs else r' # rs)" "unnamed timer' (if gone then rs else r' # rs)"
          by (simp_all add: unnamed_def response_timer_def)
        with IH [OF that(2)] show ?thesis by blast
      qed
      from run Cons one show ?thesis
        by (subst poll_loop.simps) (auto simp: px_bind_def split: option.splits prod.splits sum.splits intro: step [where gone = True, simplified] step [where gone = False, simplified])
    qed
  qed
  with assms(2,3) show ?thesis by blast
qed

lemma poll_loop_untimed:
  assumes "unnamed timer q"
  shows "poll_loop env clock pause timer q w = poll_loop env clock pause [] q w"
proof -
  have e: "unnamed [] q" by (simp add: unnamed_def no_timer)
  show ?thesis
    using poll_loop_transfer [OF _ assms e, of env clock pause w] poll_loop_transfer [OF _ e assms, of env clock pause w]
    by (metis not_Some_eq)
qed

lemma allocates_poll_one [alloc]: "allocates (poll_one env clock pause timer r)"
proof -
  have "allocates (pause_for pause)" by (auto simp: allocates_def pause_for_def px_modify_def Let_def split: prod.splits)
  moreover have "allocates (check_timer clock timer r)" unfolding check_timer_def by (intro alloc)
  ultimately show ?thesis unfolding poll_one_def by (intro alloc)
qed

lemma allocates_poll: "allocates (poll_loop env clock pause timer q)"
proof -
  have "rw_heap w \<le> rw_heap (snd y)" if "poll_loop env clock pause timer q w = Some y" for w y
  proof (rule poll_loop.raw_induct [where P = "\<lambda>env clock pause timer q w y. rw_heap w \<le> rw_heap (snd y)", OF _ that])
    fix loop :: "('a, 'b) rt_env \<Rightarrow> ('b \<Rightarrow> int) \<Rightarrow> ('a sqldb \<times> 'b \<Rightarrow> 'a sqldb \<times> 'b) \<Rightarrow> timers \<Rightarrow> 'a job_response list
        \<Rightarrow> ('a, 'b) rworld \<Rightarrow> ((gb_exn + unit) \<times> ('a, 'b) rworld) option"
      and env clock pause timer q w y
    assume IH: "\<And>env clock pause timer q w y. loop env clock pause timer q w = Some y \<Longrightarrow> rw_heap w \<le> rw_heap (snd y)"
      and run: "(case q of [] \<Rightarrow> Some (Inr (), w) | r # rs \<Rightarrow> px_bind (poll_one env clock pause timer r) (\<lambda>x w. case x of (gone, r') \<Rightarrow>
         loop env clock pause timer (if gone then rs else r' # rs) w) w) = Some y"
    have a: "allocates (loop env clock pause timer q)" for q using IH unfolding allocates_def by fastforce
    show "rw_heap w \<le> rw_heap (snd y)"
    proof (cases q)
      case (Cons r rs)
      have "allocates (px_bind (poll_one env clock pause timer r) (\<lambda>x w. case x of (gone, r') \<Rightarrow>
         loop env clock pause timer (if gone then rs else r' # rs) w))" by (intro alloc a)
      from allocatesD [OF this] run Cons show ?thesis by (cases y) simp
    qed (use run in auto)
  qed
  then show ?thesis unfolding allocates_def by force
qed

text \<open>The queue run without any timers: every job of a batch, then every response until it is done.\<close>

fun run_all :: "('d, 'x) rt_env \<Rightarrow> 'd job_ptr list \<Rightarrow> (('d, 'x) rworld, gb_exn, 'd job_response list) px" where
  "run_all env [] = px_return []"
| "run_all env ((p, k, j) # js) =
     px_bind (Job_run env k j) (\<lambda>r. px_bind (run_all env js) (\<lambda>rs. px_return (r # rs)))"

fun untimed_run :: "('d, 'x) rt_env \<Rightarrow> ('x \<Rightarrow> int) \<Rightarrow> ('d sqldb \<times> 'x \<Rightarrow> 'd sqldb \<times> 'x) \<Rightarrow> 'd job_ptr list list
    \<Rightarrow> (('d, 'x) rworld, gb_exn, unit) px" where
  "untimed_run env clock pause [] = px_return ()"
| "untimed_run env clock pause (batch # jobs) =
     px_bind (run_all env batch) (\<lambda>q. px_then (poll_loop env clock pause [] q) (untimed_run env clock pause jobs))"

definition keys_below :: "nat \<Rightarrow> timers \<Rightarrow> bool" where
  "keys_below n timer \<longleftrightarrow> (\<forall>p\<ge>n. smap_find timer p = None)"

definition jobs_below :: "nat \<Rightarrow> 'd job_ptr list \<Rightarrow> bool" where
  "jobs_below n js \<longleftrightarrow> list_all (\<lambda>(p, _). p < n) js"

lemma dispatch_run_all:
  assumes "keys_below n timer" and "jobs_below n js" and "n \<le> rw_heap w"
  shows "case run_all env js w of
      None \<Rightarrow> dispatch env clock timer js w = None
    | Some (Inl e, w') \<Rightarrow> dispatch env clock timer js w = Some (Inl e, w') \<and> n \<le> rw_heap w'
    | Some (Inr q, w') \<Rightarrow> n \<le> rw_heap w' \<and> (\<exists>timer'. dispatch env clock timer js w = Some (Inr (timer', q), w')
        \<and> keys_below n timer' \<and> (\<forall>r\<in>set q. \<forall>p. jr_job r = Some p \<longrightarrow> n \<le> fst p))"
  using assms
proof (induction env clock timer js arbitrary: w rule: dispatch.induct)
  case (1 env clock timer)
  then show ?case by (simp add: px_return_def)
next
  case (2 env clock timer p k j js)
  define t where "t = (if j_timeout (attrs j) \<noteq> 0 then smap_put p (clock (rw_x w), j_timeout (attrs j)) timer else timer)"
  have t: "keys_below n t" using 2(2,3) by (auto simp: t_def keys_below_def jobs_below_def smap_find_put)
  have js: "jobs_below n js" using 2(3) by (simp add: jobs_below_def)
  show ?case
  proof (cases "Job_run env k j w")
    case None
    then show ?thesis by (simp add: px_bind_def px_get_def)
  next
    case (Some y)
    obtain res w1 where y: "Job_run env k j w = Some (res, w1)" using Some by (cases y) simp
    have heap: "n \<le> rw_heap w1" using allocatesD [OF Job_run_new(1) y] 2(4) by simp
    show ?thesis
    proof (cases res)
      case (Inl e)
      with y heap show ?thesis by (simp add: px_bind_def px_get_def)
    next
      case (Inr r)
      have new: "n \<le> fst q" if "jr_job r = Some q" for q
        using new_response_facts [OF Job_run_new y] Inr that 2(4) by fastforce
      have head: "dispatch env clock timer ((p, k, j) # js) w = px_bind (dispatch env clock t js) (\<lambda>(timer, rs). px_return (timer, r # rs)) w1"
        "run_all env ((p, k, j) # js) w = px_bind (run_all env js) (\<lambda>rs. px_return (r # rs)) w1"
        using y Inr by (simp_all add: px_bind_def px_get_def t_def)
      from 2(1) [OF t js heap] new show ?thesis
        unfolding head by (auto simp: px_bind_def px_return_def split: option.splits prod.splits sum.splits)
    qed
  qed
qed

lemma responses_unnamed:
  "keys_below n timer \<Longrightarrow> (\<And>r p. r \<in> set q \<Longrightarrow> jr_job r = Some p \<Longrightarrow> n \<le> fst p) \<Longrightarrow> unnamed timer q"
  by (auto simp: unnamed_def response_timer_def keys_below_def split: option.splits)

lemma run_batches_untimed:
  assumes "keys_below n timer" and "list_all (jobs_below n) jobs" and "n \<le> rw_heap w"
  shows "run_batches env clock pause timer jobs w = untimed_run env clock pause jobs w"
  using assms
proof (induction jobs arbitrary: timer w)
  case (Cons batch jobs)
  note step = dispatch_run_all [of n timer batch w env clock]
  show ?case
  proof (cases "run_all env batch w")
    case None
    with step Cons.prems show ?thesis by (simp add: px_bind_def)
  next
    case (Some y)
    obtain res w1 where y: "run_all env batch w = Some (res, w1)" using Some by (cases y) simp
    show ?thesis
    proof (cases res)
      case (Inl e)
      with y step Cons.prems show ?thesis by (simp add: px_bind_def)
    next
      case (Inr q)
      obtain timer' where d: "dispatch env clock timer batch w = Some (Inr (timer', q), w1)" "keys_below n timer'" "n \<le> rw_heap w1"
          "\<And>r p. r \<in> set q \<Longrightarrow> jr_job r = Some p \<Longrightarrow> n \<le> fst p"
        using step Cons.prems y Inr by auto
      have poll: "poll_loop env clock pause timer' q w1 = poll_loop env clock pause [] q w1"
        by (rule poll_loop_untimed) (rule responses_unnamed [OF d(2,4)])
      have rest: "run_batches env clock pause timer' jobs w2 = untimed_run env clock pause jobs w2"
        if "poll_loop env clock pause [] q w1 = Some (r, w2)" for r w2
      proof (rule Cons.IH [OF d(2)])
        show "n \<le> rw_heap w2" using allocatesD [OF allocates_poll that] d(3) by simp
      qed (use Cons.prems in simp)
      show ?thesis using y Inr d(1) poll rest by (auto simp: px_bind_def px_then_def split: option.splits prod.splits sum.splits)
    qed
  qed
qed simp

text \<open>
  C39: the time-outs of a queue are never enforced. A timer is kept under the address of the job in the queue, but looked up
  under the address of the copy that the response carries; since that copy was allocated later, no timer is ever
  found, and running a queue is the same as running it with no time-outs at all.
\<close>

theorem job_queue_timeout_inert:
  assumes "list_all (jobs_below (rw_heap w)) jobs"
  shows "job_queue_run env clock pause jobs w = untimed_run env clock pause jobs w"
  unfolding job_queue_run_def
  by (rule run_batches_untimed [OF _ assms]) (simp_all add: keys_below_def smap.find_emp)

section \<open>A process to evaluate in\<close>

definition demo_rt_env :: "(string, nat) rt_env" where
  "demo_rt_env = \<lparr>rt_jm = demo_jm_env, rt_compress = id, rt_uuid = (\<lambda>x. ((of_nat x, 0), x + 1)), rt_echo = (\<lambda>x. (True, x)),
     rt_do_background = (\<lambda>_ _ x. (None, x)), rt_do = (\<lambda>_ _ x. ((None, Some []), x)),
     rt_http = (\<lambda>_ _ _ _ x. (Inr (200, [], []), x))\<rparr>"

definition demo_rworld :: "(string, nat) rworld" where
  "demo_rworld = \<lparr>rw_jm = demo_jm_world,
     rw_t = \<lparr>t_store = (\<lambda>_. None), t_next = 0, t_db = [], t_obj = new_status 7, t_ref = None\<rparr>,
     rw_db = \<lparr>db_status = (\<lambda>_. None), db_messages = [], db_children = [], db_meta = [], db_events = (\<lambda>_. None)\<rparr>,
     rw_heap = 1, rw_x = 3\<rparr>"

definition demo_retry_job :: "string job" where
  "demo_retry_job = Job (new_job_attrs\<lparr>j_name := ''do_get_c_t_v1'', j_timeout := 5\<rparr>) [] None"


theorem job_queue_timeout_inert_witness:
  "job_queue_run demo_rt_env int id [[(0, GearmanKind, demo_retry_job)]] demo_rworld
     = untimed_run demo_rt_env int id [[(0, GearmanKind, demo_retry_job)]] demo_rworld"
  by (rule job_queue_timeout_inert) (simp add: jobs_below_def demo_rworld_def)

end
