(* ===== verification/GB_Worker.thy ===== *)
theory GB_Worker
  imports GB_JobDelay GB_Envelope
begin

text \<open>
  \<^verbatim>\<open>worker/Worker.cc\<close>: what a worker process does with a job that gearman hands it: the job is made from its envelope,
  its status is found or created, the handler registered under the name runs, and whatever came of it is
  answered as a document. The handlers and the hook before a request are those of the application, and a parameter;
  the transaction on the application's own database connection, which is committed or rolled back around them, and
  the logging are left out.
\<close>

section \<open>State\<close>

datatype worker_response = WORKER_SUCCESS | WORKER_ERROR | WORKER_CONTINUE | WORKER_RETRY

record ('d, 'x) wworld =
  ww_rt :: "('d, 'x) rworld"
  ww_sm :: status_manager
  ww_afterwards :: "(job_kind \<times> 'd job \<times> int) list"

type_synonym ('d, 'x) handler = "'d job \<Rightarrow> ('d job_response \<times> ('d, 'x) wworld, gb_exn, worker_response) px"

record ('d, 'x) wk_env =
  wk_rt :: "('d, 'x) rt_env"
  wk_decompress :: "string \<Rightarrow> gb_exn + string"
  wk_fib :: "int \<Rightarrow> int"
  wk_jitter :: "int \<Rightarrow> int"
  wk_pre_request :: "'d job \<Rightarrow> (('d, 'x) wworld, gb_exn, unit) px"

abbreviation wk_now :: "('d, 'x) wk_env \<Rightarrow> int" where
  "wk_now env \<equiv> rt_now (wk_rt env)"

definition on_rt :: "(('d, 'x) rworld, gb_exn, 'a) px \<Rightarrow> (('d, 'x) wworld, gb_exn, 'a) px" where
  "on_rt m = (\<lambda>w. case m (ww_rt w) of None \<Rightarrow> None | Some (r, t) \<Rightarrow> Some (r, w\<lparr>ww_rt := t\<rparr>))"

text \<open>The local variables of \<^verbatim>\<open>run_job\<close>: what was assigned before an exception is still there after it.\<close>

record ('d, 'x) run_state =
  rs_job :: "'d job option"
  rs_resp :: "'d job_response"
  rs_status :: "'d sobj option"
  rs_ran :: bool
  rs_w :: "('d, 'x) wworld"

definition in_world :: "(('d, 'x) wworld, gb_exn, 'a) px \<Rightarrow> (('d, 'x) run_state, gb_exn, 'a) px" where
  "in_world m = (\<lambda>s. case m (rs_w s) of None \<Rightarrow> None | Some (r, w) \<Rightarrow> Some (r, s\<lparr>rs_w := w\<rparr>))"

definition set_rt :: "('d, 'x) rworld \<Rightarrow> ('d, 'x) run_state \<Rightarrow> ('d, 'x) run_state" where
  "set_rt t s = s\<lparr>rs_w := (rs_w s)\<lparr>ww_rt := t\<rparr>\<rparr>"

definition on_status :: "('d, 'x, 'a) on_obj \<Rightarrow> (('d, 'x) run_state, gb_exn, 'a) px" where
  "on_status m = (\<lambda>s. case rs_status s of
     None \<Rightarrow> Some (Inl NullDereference, s)
   | Some ob \<Rightarrow> (let (r, ob', t) = m (ob, ww_rt (rs_w s)) in Some (r, set_rt t (s\<lparr>rs_status := Some ob'\<rparr>))))"

definition on_resp_status :: "('d, 'x, 'a) on_obj \<Rightarrow> (('d, 'x) run_state, gb_exn, 'a) px" where
  "on_resp_status m = (\<lambda>s. case jr_status (rs_resp s) of
     None \<Rightarrow> Some (Inl NullDereference, s)
   | Some ob \<Rightarrow> (let (r, ob', t) = m (ob, ww_rt (rs_w s))
       in Some (r, set_rt t (s\<lparr>rs_resp := (rs_resp s)\<lparr>jr_status := Some ob'\<rparr>\<rparr>))))"

definition so_checkpoint :: "int \<Rightarrow> ('d, 'x, unit) on_obj" where
  "so_checkpoint now = obj_call (Status_checkpoint (transient_vt now)) (Status_checkpoint (sql_vt now)) (Status_checkpoint (base_vt now))"

definition set_parent :: "string \<Rightarrow> (('d, 'x) wworld, gb_exn, unit) px" where
  "set_parent u = px_modify (\<lambda>w. w\<lparr>ww_rt := (ww_rt w)\<lparr>rw_jm := (rw_jm (ww_rt w))\<lparr>w_parent_uri := u\<rparr>\<rparr>\<rparr>)"

section \<open>Jobs for afterwards\<close>

definition afterwards :: "job_kind \<Rightarrow> 'd job \<Rightarrow> int \<Rightarrow> ('d, 'x) wworld \<Rightarrow> ('d, 'x) wworld" where
  "afterwards k j delay w = w\<lparr>ww_afterwards := ww_afterwards w @ [(k, j, delay)]\<rparr>"

definition afterwards_as :: "job_kind \<Rightarrow> 'd job \<Rightarrow> string \<Rightarrow> int \<Rightarrow> (('d, 'x) wworld, gb_exn, unit) px" where
  "afterwards_as k j name delay = (\<lambda>w. case on_attrs (set_job_name name) (attrs j) of
     Inl e \<Rightarrow> Some (Inl e, w)
   | Inr a \<Rightarrow> Some (Inr (), afterwards k (Job a (handlers j) (event_status j)) delay w))"

definition clear_afterwards :: "('d, 'x) wworld \<Rightarrow> ('d, 'x) wworld" where
  "clear_afterwards w = w\<lparr>ww_afterwards := []\<rparr>"

text \<open>\<^verbatim>\<open>post_request\<close> takes one entry after the other off the queue, and hands it to the delay queue or runs it.\<close>

fun run_entry :: "('d, 'x) wk_env \<Rightarrow> job_kind \<times> 'd job \<times> int \<Rightarrow> (('d, 'x) rworld, gb_exn, unit) px" where
  "run_entry env (k, j, delay) =
     (if delay \<noteq> 0 then jm_delay (wk_rt env) j delay
      else px_bind (Job_run (wk_rt env) k j) (\<lambda>_. px_return ()))"

function post_request :: "('d, 'x) wk_env \<Rightarrow> ('d, 'x) wworld \<Rightarrow> ((gb_exn + unit) \<times> ('d, 'x) wworld) option" where
  "post_request env w = (case ww_afterwards w of
     [] \<Rightarrow> Some (Inr (), w)
   | e # es \<Rightarrow> (case run_entry env e (ww_rt w) of
        None \<Rightarrow> None
      | Some (Inl x, t) \<Rightarrow> Some (Inl x, w\<lparr>ww_rt := t, ww_afterwards := es\<rparr>)
      | Some (Inr _, t) \<Rightarrow> post_request env (w\<lparr>ww_rt := t, ww_afterwards := es\<rparr>)))"
  by pat_completeness auto

termination
  by (relation "measure (\<lambda>(_, w). length (ww_afterwards w))") auto

section \<open>Events\<close>

text \<open>The handler of an event is a job; it is given the status and run.\<close>

definition with_event_status :: "'d status \<Rightarrow> 'd job \<Rightarrow> 'd job" where
  "with_event_status s j = Job (attrs j) (handlers j) (Some s)"

definition handle_event :: "('d, 'x) wk_env \<Rightarrow> job_event \<Rightarrow> 'd job \<Rightarrow> 'd status \<Rightarrow> (('d, 'x) wworld, gb_exn, unit) px" where
  "handle_event env ev j s = (case fst (job_handler ev j) of
     None \<Rightarrow> px_return ()
   | Some h \<Rightarrow> on_rt (px_bind (gearman_run (wk_rt env) (with_event_status s h)) (\<lambda>_. px_return ())))"

definition current_job :: "(('d, 'x) run_state, gb_exn, 'd job) px" where
  "current_job = (\<lambda>s. case rs_job s of None \<Rightarrow> Some (Inl NullDereference, s) | Some j \<Rightarrow> Some (Inr j, s))"

definition raise_event :: "('d, 'x) wk_env \<Rightarrow> job_event \<Rightarrow> (('d, 'x) run_state, gb_exn, 'd sobj) px
    \<Rightarrow> (('d, 'x) run_state, gb_exn, unit) px" where
  "raise_event env ev get = px_bind current_job (\<lambda>j. px_bind get (\<lambda>ob. in_world (handle_event env ev j (o_attrs ob))))"

definition the_status :: "(('d, 'x) run_state, gb_exn, 'd sobj) px" where
  "the_status = (\<lambda>s. case rs_status s of None \<Rightarrow> Some (Inl NullDereference, s) | Some ob \<Rightarrow> Some (Inr ob, s))"

definition the_resp_status :: "(('d, 'x) run_state, gb_exn, 'd sobj) px" where
  "the_resp_status = (\<lambda>s. case jr_status (rs_resp s) of None \<Rightarrow> Some (Inl NullDereference, s) | Some ob \<Rightarrow> Some (Inr ob, s))"

section \<open>Setting up\<close>

definition work_string :: "string \<Rightarrow> 'd json \<Rightarrow> gb_exn + string" where
  "work_string k d = res_bind (json_ref_key [] k d) (\<lambda>d. res_bind (json_get [] k d) (json_as_string [Key k]))"

definition work_status :: "'d json \<Rightarrow> gb_exn + string" where
  "work_status d = (if json_hasKey ''status'' d then work_string ''status'' d else Inr [])"

text \<open>The status of the job: for an asynchronous job the one the client made, for any other a transient one under the same name.\<close>

definition job_status :: "('d, 'x) wk_env \<Rightarrow> 'd job \<Rightarrow> string \<Rightarrow> (('d, 'x) wworld, gb_exn, 'd sobj) px" where
  "job_status env j n = (let a = attrs j in
     if j_type a = JOB_ASYNC \<and> n \<noteq> [] then
       px_bind (px_get ww_sm) (\<lambda>sm. on_rt (sm_fetch (wk_now env) sm n))
     else
       px_bind (px_lift (Uri (j_base_uri a))) (\<lambda>_.
       px_bind (if n \<noteq> [] then px_return n else on_rt (new_id (wk_rt env) ''st'')) (\<lambda>i.
       px_bind (px_lift (job_resource_uri a)) (\<lambda>u.
       on_rt (sm_create (wk_now env) (StatusManager_typed ''transient'') i (j_operation a) u (j_component a))))))"

definition start_status :: "('d, 'x) wk_env \<Rightarrow> (('d, 'x) run_state, gb_exn, unit) px" where
  "start_status env =
     px_bind (on_status (so_state (wk_now env))) (\<lambda>st.
     if st \<noteq> STATE_PENDING then px_return ()
     else px_bind (on_status (so_set_state (wk_now env) STATE_RUNNING)) (\<lambda>ok.
          if ok then px_return ()
          else px_bind (on_status (obj_call (t_sync (wk_now env)) (q_sync (wk_now env)) (sx_return ()))) (\<lambda>_.
               px_bind (on_status (so_state (wk_now env))) (\<lambda>st.
               px_bind the_status (\<lambda>ob. px_throw (not_running (state2str st) (so_name ob)))))))"

text \<open>Everything before the handler. The job and its status are assigned as soon as they are there.\<close>

definition setup_job :: "('d, 'x) wk_env \<Rightarrow> string \<Rightarrow> string \<Rightarrow> (('d, 'x) run_state, gb_exn, 'd job) px" where
  "setup_job env name payload =
     px_bind (px_lift (wk_decompress env payload)) (\<lambda>workload.
     px_bind (px_lift (parse_text (rt_lib (wk_rt env)) (rt_statics (wk_rt env)) None workload)) (\<lambda>work.
     px_bind (px_lift (work_string ''base_uri'' work)) (\<lambda>base.
     px_bind (in_world (px_modify (\<lambda>w. w\<lparr>ww_sm := (ww_sm w)\<lparr>sm_base_uri := base\<rparr>\<rparr>))) (\<lambda>_.
     px_bind (in_world (on_rt (on_jm (job_of_text (rt_jm (wk_rt env)) name workload)))) (\<lambda>j.
     px_bind (px_modify (\<lambda>s. s\<lparr>rs_job := Some j\<rparr>)) (\<lambda>_.
     px_bind (px_lift (work_status work)) (\<lambda>n.
     px_bind (in_world (job_status env j n)) (\<lambda>ob.
     px_bind (px_modify (\<lambda>s. s\<lparr>rs_status := Some ob, rs_resp := (rs_resp s)\<lparr>jr_status := Some ob\<rparr>\<rparr>)) (\<lambda>_.
     px_bind (on_status so_starting) (\<lambda>_.
     px_bind the_status (\<lambda>ob.
     px_bind (in_world (set_parent (so_uri ob))) (\<lambda>_.
     px_bind (start_status env) (\<lambda>_.
     px_bind (raise_event env JEVENT_STARTED the_status) (\<lambda>_.
     px_bind the_status (\<lambda>ob.
     px_bind (in_world (set_parent (j_base_uri (attrs j) @ ''/status/'' @ so_name ob))) (\<lambda>_.
     px_bind (in_world (wk_pre_request env j)) (\<lambda>_. px_return j)))))))))))))))))"

definition call_handler :: "('d, 'x) handler \<Rightarrow> 'd job \<Rightarrow> (('d, 'x) run_state, gb_exn, worker_response) px" where
  "call_handler h j = (\<lambda>s. case h j (rs_resp s, rs_w s) of
     None \<Rightarrow> None
   | Some (r, resp, w) \<Rightarrow> Some (r, s\<lparr>rs_resp := resp, rs_w := w\<rparr>))"

definition unknown_error :: "string \<Rightarrow> gb_exn" where
  "unknown_error name = ERR_INTERNAL_SERVER_ERROR (name @ '' returned unknown error'')"

definition dispatch_job :: "('d, 'x) wk_env \<Rightarrow> string \<Rightarrow> ('d, 'x) handler \<Rightarrow> string
    \<Rightarrow> (('d, 'x) run_state, gb_exn, worker_response) px" where
  "dispatch_job env name h payload =
     px_bind (setup_job env name payload) (\<lambda>j.
     px_bind (px_modify (\<lambda>s. s\<lparr>rs_ran := True\<rparr>)) (\<lambda>_.
     px_bind (on_status (so_checkpoint (wk_now env))) (\<lambda>_.
     px_bind (call_handler h j) (\<lambda>r. if r = WORKER_ERROR then px_throw (unknown_error name) else px_return r))))"

section \<open>What came of it\<close>

record answer =
  an_message :: string
  an_status :: string
  an_code :: int

definition answer_of :: "gb_exn \<Rightarrow> answer" where
  "answer_of e = (case e of
     GbError c n m \<Rightarrow> \<lparr>an_message = m, an_status = n, an_code = c\<rparr>
   | JsonError m \<Rightarrow> \<lparr>an_message = m, an_status = ''BAD_REQUEST'', an_code = 400\<rparr>
   | SociError m \<Rightarrow> \<lparr>an_message = m, an_status = ''INTERNAL_SERVER_ERROR'', an_code = 500\<rparr>
   | WorkerStop \<Rightarrow> \<lparr>an_message = ''Worker Stop'', an_status = ''GONE'', an_code = 410\<rparr>
   | UriError m \<Rightarrow> \<lparr>an_message = m, an_status = ''INTERNAL_SERVER_ERROR'', an_code = 500\<rparr>
   | StdError m \<Rightarrow> \<lparr>an_message = m, an_status = ''INTERNAL_SERVER_ERROR'', an_code = 500\<rparr>
   | NullDereference \<Rightarrow> \<lparr>an_message = [], an_status = [], an_code = 0\<rparr>)"

definition answer_ok :: "int \<Rightarrow> answer" where
  "answer_ok c = \<lparr>an_message = ''OK'', an_status = ''OK'', an_code = c\<rparr>"

text \<open>
  The \<^verbatim>\<open>try\<close> block and its handlers. A job that was told to stop raises an event of its own, and what that throws is not
  caught.
\<close>

definition attempt :: "('d, 'x) wk_env \<Rightarrow> string \<Rightarrow> ('d, 'x) handler \<Rightarrow> string
    \<Rightarrow> (('d, 'x) run_state, gb_exn, worker_response \<times> answer) px" where
  "attempt env name h payload = (\<lambda>s. case dispatch_job env name h payload s of
     None \<Rightarrow> None
   | Some (Inr r, s1) \<Rightarrow> Some (Inr (r, answer_ok (jr_code (rs_resp s1))), s1)
   | Some (Inl e, s1) \<Rightarrow>
       if e = NullDereference then Some (Inl e, s1)
       else if e = WorkerStop
       then px_then (raise_event env JEVENT_STOPPED the_resp_status) (px_return (WORKER_ERROR, answer_of e)) s1
       else Some (Inr (WORKER_SUCCESS, answer_of e), s1))"

text \<open>A job whose handler was never reached is put back for a second.\<close>

definition requeue_unless_run :: "('d, 'x) wk_env \<Rightarrow> worker_response \<Rightarrow> (('d, 'x) run_state, gb_exn, worker_response) px" where
  "requeue_unless_run env r = (\<lambda>s. case rs_job s of
     Some j \<Rightarrow> if rs_ran s then Some (Inr r, s)
       else px_then (in_world (on_rt (jm_delay (wk_rt env) j 1))) (px_return WORKER_CONTINUE) s
   | None \<Rightarrow> Some (Inr r, s))"

definition complete_status :: "('d, 'x) wk_env \<Rightarrow> answer \<Rightarrow> (('d, 'x) run_state, gb_exn, unit) px" where
  "complete_status env an =
     px_bind (on_resp_status (so_progress (wk_now env))) (\<lambda>p.
     if p = 100 then px_return ()
     else if an_code an \<ge> 300
     then px_then (on_resp_status (so_add_message (wk_now env) (an_message an))) (on_resp_status (so_fail (wk_now env) (an_code an)))
     else on_resp_status (so_success (wk_now env)))"

definition completion_events :: "('d, 'x) wk_env \<Rightarrow> (('d, 'x) run_state, gb_exn, unit) px" where
  "completion_events env =
     px_bind (on_resp_status (so_state (wk_now env))) (\<lambda>st.
     px_bind (px_get rs_job) (\<lambda>j.
     if j = None then px_return ()
     else if st = STATE_COMPLETED \<or> st = STATE_STOPPED then
       px_bind (raise_event env JEVENT_COMPLETED the_resp_status) (\<lambda>_.
       px_bind (on_resp_status (so_is_success (wk_now env))) (\<lambda>ok.
       raise_event env (if ok then JEVENT_SUCCEEDED else JEVENT_FAILED) the_resp_status))
     else if st = STATE_CANCELLED then raise_event env JEVENT_CANCELLED the_resp_status
     else px_return ()))"

text \<open>What \<^verbatim>\<open>catch(const std::exception &)\<close> swallows: everything but the death of the process.\<close>

definition swallow :: "('s, gb_exn, unit) px \<Rightarrow> ('s, gb_exn, unit) px" where
  "swallow m = px_catch m (\<lambda>e. if e = NullDereference then px_throw e else px_return ())"

definition update_status :: "('d, 'x) wk_env \<Rightarrow> worker_response \<Rightarrow> answer \<Rightarrow> (('d, 'x) run_state, gb_exn, unit) px" where
  "update_status env r an =
     px_bind (px_get (\<lambda>s. jr_status (rs_resp s))) (\<lambda>ob.
     px_when (ob \<noteq> None \<and> r \<noteq> WORKER_CONTINUE \<and> r \<noteq> WORKER_RETRY)
       (swallow (px_then (complete_status env an) (completion_events env))))"

definition job_stopping :: "(('d, 'x) run_state, gb_exn, unit) px" where
  "job_stopping = px_bind (px_get rs_status) (\<lambda>ob. px_when (ob \<noteq> None) (on_status so_stopping))"

definition retry_job :: "('d, 'x) wk_env \<Rightarrow> worker_response \<Rightarrow> (('d, 'x) run_state, gb_exn, unit) px" where
  "retry_job env r = px_bind (px_get rs_job) (\<lambda>j. case j of
     None \<Rightarrow> px_return ()
   | Some j \<Rightarrow> px_when (r = WORKER_RETRY) (in_world (on_rt (jm_retry (wk_rt env) (wk_fib env) (wk_jitter env) j 300 15))))"

definition run_afterwards :: "('d, 'x) wk_env \<Rightarrow> answer \<Rightarrow> (('d, 'x) run_state, gb_exn, unit) px" where
  "run_afterwards env an =
     px_then (px_when (an_code an \<ge> 300) (in_world (px_modify clear_afterwards)))
     (px_bind (px_get rs_job) (\<lambda>j. px_when (j \<noteq> None) (swallow (in_world (post_request env)))))"

text \<open>The answer as a document.\<close>

definition answer_doc :: "answer \<Rightarrow> hash \<Rightarrow> string \<Rightarrow> gb_exn + 'd json" where
  "answer_doc an hs c = res_seq
     [json_set ''message'' (JString (an_message an)), json_set ''status'' (JString (an_status an)),
      json_set ''code'' (JInt (an_code an)), put_members ''headers'' hs, json_set ''content'' (JString c)] JUndef"

definition run_state_of :: "('d, 'x) wworld \<Rightarrow> ('d, 'x) run_state" where
  "run_state_of w = \<lparr>rs_job = None, rs_resp = new_response\<lparr>jr_code := 0\<rparr>, rs_status = None, rs_ran = False, rs_w = w\<rparr>"

text \<open>After the attempt: the headers and the content are those the response has before the status is updated.\<close>

definition conclude :: "('d, 'x) wk_env \<Rightarrow> worker_response \<Rightarrow> answer \<Rightarrow> (('d, 'x) run_state, gb_exn, 'd json) px" where
  "conclude env r an =
     px_bind (requeue_unless_run env r) (\<lambda>r.
     px_bind (px_get rs_resp) (\<lambda>resp.
     px_bind (px_lift (answer_doc an (jr_headers resp) (jr_content resp))) (\<lambda>d.
     px_bind (update_status env r an) (\<lambda>_.
     px_bind job_stopping (\<lambda>_.
     px_bind (retry_job env r) (\<lambda>_.
     px_bind (run_afterwards env an) (\<lambda>_. px_return d)))))))"

definition run_job :: "('d, 'x) wk_env \<Rightarrow> string \<Rightarrow> ('d, 'x) handler \<Rightarrow> string \<Rightarrow> (('d, 'x) wworld, gb_exn, 'd json) px" where
  "run_job env name h payload = (\<lambda>w. case px_bind (attempt env name h payload) (\<lambda>(r, an). conclude env r an) (run_state_of w) of
     None \<Rightarrow> None
   | Some (res, s) \<Rightarrow> Some (res, rs_w s))"

section \<open>Registering handlers and the main loop\<close>

text \<open>
  The callback arguments by address, and the addresses by name. The gearman library is told the address, and calls
  the handler with it.
\<close>

record ('d, 'x) registry =
  rg_store :: "nat \<Rightarrow> (string \<times> ('d, 'x) handler) option"
  rg_argmap :: "(string, nat) smap"
  rg_next :: nat

definition register_handler :: "(string \<Rightarrow> string option) \<Rightarrow> string \<Rightarrow> ('d, 'x) handler \<Rightarrow> (('d, 'x) registry, gb_exn, unit) sx" where
  "register_handler add name h = (\<lambda>g. case add name of
     Some e \<Rightarrow> (Inl (ERR_INTERNAL_SERVER_ERROR (''gearman_worker_add_function: '' @ e)), g)
   | None \<Rightarrow> (Inr (), g\<lparr>rg_store := (rg_store g)(rg_next g := Some (name, h)),
        rg_argmap := smap_put name (rg_next g) (rg_argmap g), rg_next := rg_next g + 1\<rparr>))"

definition deregister_handler :: "(string \<Rightarrow> string option) \<Rightarrow> string \<Rightarrow> (('d, 'x) registry, gb_exn, unit) sx" where
  "deregister_handler rem name = (\<lambda>g. case smap_find (rg_argmap g) name of
     None \<Rightarrow> (Inl (ERR_INTERNAL_SERVER_ERROR (''cannot unregister uknown handler: '' @ name)), g)
   | Some p \<Rightarrow> (case rem name of
        Some e \<Rightarrow> (Inl (ERR_INTERNAL_SERVER_ERROR (''gearman_worker_unregister: '' @ e)), g)
      | None \<Rightarrow> (Inr (), g\<lparr>rg_store := (rg_store g)(p := None), rg_argmap := smap_erase name (rg_argmap g)\<rparr>)))"

text \<open>The main loop counts the jobs it has worked on, and ends after the given number if there is one.\<close>

partial_function (option) worker_loop :: "('w \<Rightarrow> string option \<times> 'w) \<Rightarrow> int \<Rightarrow> int \<times> 'w \<Rightarrow> ((gb_exn + unit) \<times> int \<times> 'w) option" where
  "worker_loop work max_requests cw = (case work (snd cw) of
     (Some e, w) \<Rightarrow> Some (Inl (ERR_INTERNAL_SERVER_ERROR (''gearman_worker_work: '' @ e)), fst cw, w)
   | (None, w) \<Rightarrow>
       if max_requests \<noteq> 0 \<and> fst cw + 1 \<ge> max_requests then Some (Inr (), fst cw + 1, w)
       else worker_loop work max_requests (fst cw + 1, w))"

section \<open>The answer\<close>

definition header_members :: "hash \<Rightarrow> (string, 'd json) smap" where
  "header_members hs = fold (\<lambda>(n, v). smap_put n (JString v)) hs []"

definition answer_members :: "answer \<Rightarrow> hash \<Rightarrow> string \<Rightarrow> (string, 'd json) smap" where
  "answer_members an hs c = smap_put ''content'' (JString c)
     (put_when (hs \<noteq> []) ''headers'' (JObject (header_members hs))
       [(''code'', JInt (an_code an)), (''message'', JString (an_message an)), (''status'', JString (an_status an))])"

lemma put_members_new:
  assumes "smap_wf m" and "smap_find m k = None"
  shows "put_members k h (JObject m) = Inr (JObject (put_when (h \<noteq> []) k (JObject (header_members h)) m))"
proof (cases h)
  case (Cons e es)
  have "put_members k h (JObject m) = put_members k h (JObject (smap_put k (JObject []) m))"
    using assms set_in_new [of m k "fst e" "snd e"] set_in_old [of "smap_put k (JObject []) m" "[]" k "fst e" "snd e"]
    by (simp add: Cons set_in_def smap_wf_put smap_find_put smap.put_put)
  then show ?thesis using put_members_spec [of "smap_put k (JObject []) m" "[]" k h] Cons assms(1)
    by (simp add: put_when_def smap_wf_put smap_find_put smap.put_put header_members_def)
qed (simp add: put_when_def)

lemma answer_head:
  "res_seq (json_set ''message'' (JString m) # json_set ''status'' (JString st) # json_set ''code'' (JInt c) # fs) JUndef
     = res_seq fs (JObject [(''code'', JInt c), (''message'', JString m), (''status'', JString st)])"
  by (simp add: json_set_undef json_set_object smap_wf_def)

lemma answer_doc_members: "answer_doc an hs c = Inr (JObject (answer_members an hs c))"
proof -
  let ?m = "[(''code'', JInt (an_code an)), (''message'', JString (an_message an)), (''status'', JString (an_status an))]"
  have wf: "smap_wf ?m" by (simp add: smap_wf_def)
  have new: "smap_find ?m ''headers'' = None" by (simp add: smap_find_def)
  show ?thesis unfolding answer_doc_def answer_head
    by (simp add: put_members_new [OF wf new] answer_members_def json_set_object put_when_def smap_wf_put wf)
qed

lemma answer_find:
  "smap_find (answer_members an hs c) ''content'' = Some (JString c)"
  "smap_find (answer_members an hs c) ''code'' = Some (JInt (an_code an))"
  "smap_find (answer_members an hs c) ''message'' = Some (JString (an_message an))"
  "smap_find (answer_members an hs c) ''headers'' = (if hs = [] then None else Some (JObject (header_members hs)))"
  "smap_wf (answer_members an hs c)"
  by (simp_all add: answer_members_def put_when_def smap_find_put smap_wf_put)
    (simp_all add: smap_find_def smap_wf_def smap_wf_put)

lemma answer_safe:
  assumes "smap_wf hs" and "in_int64 (an_code an)"
  shows "text_safe lib (JObject (answer_members an hs c))"
proof -
  have "text_safe lib (JObject [(''code'', JInt (an_code an)), (''message'', JString (an_message an)), (''status'', JString (an_status an))])"
    using assms(2) by (simp add: text_safe_def smap_wf_def)
  with assms(1) show ?thesis unfolding answer_members_def header_members_def
    by (intro text_safe_put text_safe_put_when) (simp_all add: fold_put_strings text_safe_strings)
qed

lemma response_headers_fold:
  "response_headers (map (apsnd JString) hs) r = Inr (r\<lparr>jr_headers := fold (\<lambda>(k, v). smap_put k v) hs (jr_headers r)\<rparr>)"
  by (induction hs arbitrary: r) (auto simp: json_as_string_def jr_add_header_def)

lemma ref_key_present:
  assumes "smap_wf m" and "smap_find m k = Some v" and "v \<noteq> JUndef"
  shows "json_ref_key path k (JObject m) = Inr (JObject m)" and "json_get path k (JObject m) = Inr v"
  using assms by (simp_all add: json_ref_key_def json_addKey_def json_get_def json_as_object_def smap_insert_def)

lemma answer_fields:
  "response_code (JObject (answer_members an hs c)) = Inr (wrap_s32 (an_code an))"
  "response_message (JObject (answer_members an hs c)) = Inr (an_message an)"
  by (simp_all add: response_code_def response_message_def json_as_int_def json_as_int64_def json_as_string_def
      ref_key_present [OF answer_find(5,2)] ref_key_present [OF answer_find(5,3)])

text \<open>
  C7: what a worker answers to a synchronous job is what the client sees. The document with the message, the code,
  the headers and the content of the response is printed, parsed and read by \<^verbatim>\<open>run_sync\<close>: the response there has
  the content, the code and the headers the handler left, and the message of the answer is the one a failed job gets
  as its status message. The code is an \<^verbatim>\<open>int\<close>.
\<close>

theorem sync_answer_roundtrip:
  assumes "json_text lib" and "smap_wf hs" and "- (2 ^ 31) \<le> an_code an" and "an_code an < 2 ^ 31"
  shows "\<exists>d. answer_doc an hs c = Inr d \<and> parse_text lib st None (json_serialize lib d) = Inr d \<and>
    read_response d new_response = Inr (new_response\<lparr>jr_content := c, jr_headers := hs, jr_code := an_code an\<rparr>) \<and>
    response_message d = Inr (an_message an)"
proof (intro exI conjI)
  let ?m = "answer_members an hs c" and ?d = "JObject (answer_members an hs c)"
  show "answer_doc an hs c = Inr ?d" by (rule answer_doc_members)
  have "in_int64 (an_code an)" using assms(3,4) by (simp add: in_int64_def)
  then show "parse_text lib st None (json_serialize lib ?d) = Inr ?d"
    using answer_safe [OF assms(2)] by (intro json_text.parse_text_serialize [OF assms(1)])
  show "response_message ?d = Inr (an_message an)" by (rule answer_fields)
  show "read_response ?d new_response = Inr (new_response\<lparr>jr_content := c, jr_headers := hs, jr_code := an_code an\<rparr>)"
    using assms(2) wrap_s32_id [OF assms(3,4)]
    by (simp add: read_response_def answer_find answer_fields json_hasKey_def json_get_def json_as_object_def json_as_string_def
        header_members_def fold_put_strings response_headers_fold smap.rebuild new_response_def)
qed

theorem sync_answer_roundtrip_witness:
  "\<exists>d :: string json. answer_doc (answer_ok 200) [(''etag'', ''7'')] ''x'' = Inr d \<and>
    parse_text wire_lib (FormatMap wire_lib) None (json_serialize wire_lib d) = Inr d \<and>
    read_response d new_response = Inr (new_response\<lparr>jr_content := ''x'', jr_headers := [(''etag'', ''7'')], jr_code := 200\<rparr>)"
proof -
  have "smap_wf [(''etag'', ''7'')]" by (simp add: smap_wf_def)
  from sync_answer_roundtrip [OF wire.json_text_axioms this, of "answer_ok 200" "''x''" "FormatMap wire_lib"]
  show ?thesis by (auto simp: answer_ok_def)
qed

section \<open>What becomes of a job\<close>

text \<open>The answer a run of the handler, or an exception on the way, leads to.\<close>

definition outcome :: "(gb_exn + worker_response) \<times> ('d, 'x) run_state \<Rightarrow> answer" where
  "outcome p = (case fst p of Inl e \<Rightarrow> answer_of e | Inr _ \<Rightarrow> answer_ok (jr_code (rs_resp (snd p))))"

lemma attempt_outcome:
  assumes "dispatch_job env name h payload s = Some (res, s1)"
    and "attempt env name h payload s = Some (Inr (r, an), s2)"
  shows "res \<noteq> Inl NullDereference" and "an = outcome (res, s1)"
  using assms by (auto simp: attempt_def outcome_def px_then_def px_bind_Inr px_return_def split: sum.splits if_splits)

lemma post_request_idle: "ww_afterwards w = [] \<Longrightarrow> post_request env w = Some (Inr (), w)"
  by simp

lemma run_afterwards_failed:
  assumes "run_afterwards env an s = Some (Inr x, s')" and "an_code an \<ge> 300"
  shows "ww_afterwards (rs_w s') = []"
  using assms
  by (auto simp: run_afterwards_def px_then_def px_bind_Inr px_when_def px_get_def px_modify_def px_return_def
      in_world_def clear_afterwards_def swallow_def px_catch_def post_request_idle split: if_splits simp del: post_request.simps)


definition demo_wk_env :: "(string, nat) wk_env" where
  "demo_wk_env = \<lparr>wk_rt = demo_rt_env, wk_decompress = Inr, wk_fib = id, wk_jitter = id, wk_pre_request = (\<lambda>_. px_return ())\<rparr>"

definition demo_wworld :: "(string, nat) wworld" where
  "demo_wworld = \<lparr>ww_rt = demo_rworld, ww_sm = StatusManager_typed ''transient'', ww_afterwards = [(GearmanKind, demo_retry_job, 5)]\<rparr>"

lemma demo_no_document:
  "parse_text wire_lib (FormatMap wire_lib) None ''?'' = Inl (JsonError ''Json Exception: parse error: premature end'')"
  by code_simp

lemma demo_no_dispatch:
  "dispatch_job demo_wk_env ''do_get_c_t_v1'' h ''?'' (run_state_of demo_wworld)
    = Some (Inl (JsonError ''Json Exception: parse error: premature end''), run_state_of demo_wworld)"
  by (simp add: dispatch_job_def setup_job_def px_bind_def px_lift_def demo_wk_env_def demo_rt_env_def demo_jm_env_def demo_no_document)


section \<open>Jobs that stay queued\<close>

text \<open>
  \<^verbatim>\<open>post_request\<close> works through the jobs for afterwards in order. When one of them throws, those behind it stay in the
  queue, and \<^verbatim>\<open>run_job\<close> swallows the exception: they are run with the next request.
\<close>

lemma post_request_leftover:
  assumes "post_request env w = Some (r, w')"
  shows "case r of
      Inr _ \<Rightarrow> ww_afterwards w' = []
    | Inl x \<Rightarrow> \<exists>run e t. ww_afterwards w = run @ e # ww_afterwards w' \<and> run_entry env e t = Some (Inl x, ww_rt w')"
  using assms
proof (induction env w rule: post_request.induct)
  case (1 env w)
  show ?case
  proof (cases "ww_afterwards w")
    case Nil
    with "1.prems" show ?thesis by auto
  next
    case (Cons e es)
    then obtain q t where q: "run_entry env e (ww_rt w) = Some (q, t)"
      using "1.prems" by (auto simp del: run_entry.simps split: option.splits)
    let ?w = "w\<lparr>ww_rt := t, ww_afterwards := es\<rparr>"
    show ?thesis
    proof (cases q)
      case (Inl x)
      with "1.prems" Cons q have "r = Inl x" "w' = ?w" by (simp_all del: run_entry.simps)
      with Cons q Inl show ?thesis by (auto simp del: run_entry.simps)
    next
      case (Inr u)
      have rest: "post_request env ?w = Some (r, w')" using "1.prems" Cons q Inr by (simp del: run_entry.simps post_request.simps add: post_request.simps [of env w])
      show ?thesis using "1.IH" [OF Cons q [unfolded Inr] refl refl rest] Cons
        by (auto split: sum.splits simp del: run_entry.simps intro: exI [of _ "e # _"])
    qed
  qed
qed

definition demo_rest_job :: "string job" where
  "demo_rest_job = Job (new_job_attrs\<lparr>j_name := ''http://h/a''\<rparr>) [] None"

definition demo_queued :: "(string, nat) wworld" where
  "demo_queued = demo_wworld\<lparr>ww_afterwards := [(RestKind, demo_rest_job, 0), (GearmanKind, demo_retry_job, 5)]\<rparr>"

text \<open>A job without a method is the first of two.\<close>

lemma demo_entry_fails:
  "\<exists>t. run_entry demo_wk_env (RestKind, demo_rest_job, 0) demo_rworld = Some (Inl (ERR_INTERNAL_SERVER_ERROR ''Invalid HTTP method.''), t)"
proof -
  let ?m = "px_then (check_content demo_rt_env demo_rest_job) (rest_exchange demo_rt_env demo_rest_job) demo_rworld"
  have "map_option fst ?m = Some (Inl (ERR_INTERNAL_SERVER_ERROR ''Invalid HTTP method.''))" by code_simp
  then obtain t where "?m = Some (Inl (ERR_INTERNAL_SERVER_ERROR ''Invalid HTTP method.''), t)" by auto
  then show ?thesis by (simp add: px_bind_def Job_run_def rest_run.simps demo_wk_env_def)
qed

lemma post_request_leftover_witness:
  "\<exists>x w'. post_request demo_wk_env demo_queued = Some (Inl x, w') \<and> ww_afterwards w' = [(GearmanKind, demo_retry_job, 5)]"
proof -
  obtain t where t: "run_entry demo_wk_env (RestKind, demo_rest_job, 0) demo_rworld
      = Some (Inl (ERR_INTERNAL_SERVER_ERROR ''Invalid HTTP method.''), t)"
    using demo_entry_fails by blast
  have "\<exists>w'. post_request demo_wk_env demo_queued = Some (Inl (ERR_INTERNAL_SERVER_ERROR ''Invalid HTTP method.''), w') \<and> ww_rt w' = t \<and>
      length (ww_afterwards w') = 1"
    by (simp add: demo_queued_def demo_wworld_def t del: run_entry.simps)
  then obtain w' where w': "post_request demo_wk_env demo_queued = Some (Inl (ERR_INTERNAL_SERVER_ERROR ''Invalid HTTP method.''), w')"
    "length (ww_afterwards w') = 1" by blast
  with post_request_leftover [OF w'(1)] show ?thesis
    by (auto simp: demo_queued_def length_Suc_conv append_eq_Cons_conv)
qed

end
