(* ===== verification/GB_Collection.thy ===== *)
theory GB_Collection
  imports GB_Objects
begin

text \<open>
  Lists of statuses: \<^verbatim>\<open>StatusCollection.cc\<close> and the class \<^verbatim>\<open>SQLStatusCollectionImpl\<close> of the SQL plugin. A collection is a query that is
  put together by the filters, run when the first status is asked for, and read row by row into one status object,
  the cursor, of which every status taken out is a copy. The order in which the table holds its rows is a parameter.
\<close>

section \<open>The query\<close>

datatype sql_term =
    ProgressEq nat | ProgressBetween nat nat
  | CodeEq int | CodeBetween int int
  | OperationEq string | ComponentEq string
  | MtimeEq int | MtimeBetween int int
  | CtimeEq int | CtimeBetween int int
  | StateEq string | UriLike string

text \<open>What the database takes for a match of \<^verbatim>\<open>LIKE\<close> is a parameter.\<close>

fun term_holds :: "(string \<Rightarrow> string \<Rightarrow> bool) \<Rightarrow> status_row \<Rightarrow> sql_term \<Rightarrow> bool" where
  "term_holds like r (ProgressEq n) \<longleftrightarrow> r_progress r = n"
| "term_holds like r (ProgressBetween a b) \<longleftrightarrow> r_progress r \<ge> a \<and> r_progress r \<le> b"
| "term_holds like r (CodeEq c) \<longleftrightarrow> r_code r = c"
| "term_holds like r (CodeBetween a b) \<longleftrightarrow> r_code r \<ge> a \<and> r_code r \<le> b"
| "term_holds like r (OperationEq t) \<longleftrightarrow> r_operation r = t"
| "term_holds like r (ComponentEq t) \<longleftrightarrow> r_component r = t"
| "term_holds like r (MtimeEq i) \<longleftrightarrow> r_mtime r = i"
| "term_holds like r (MtimeBetween a b) \<longleftrightarrow> r_mtime r \<ge> a \<and> r_mtime r \<le> b"
| "term_holds like r (CtimeEq i) \<longleftrightarrow> r_ctime r = i"
| "term_holds like r (CtimeBetween a b) \<longleftrightarrow> r_ctime r \<ge> a \<and> r_ctime r \<le> b"
| "term_holds like r (StateEq t) \<longleftrightarrow> r_state r = t"
| "term_holds like r (UriLike p) \<longleftrightarrow> like (r_resource_uri r) p"

record scan_env =
  sc_like :: "string \<Rightarrow> string \<Rightarrow> bool"
  sc_names :: "string list"

definition table_rows :: "string list \<Rightarrow> (string \<Rightarrow> status_row option) \<Rightarrow> (string \<times> status_row) list" where
  "table_rows names T = concat (map (\<lambda>n. case T n of None \<Rightarrow> [] | Some r \<Rightarrow> [(n, r)]) names)"

text \<open>\<^verbatim>\<open>SELECT * FROM status WHERE 1=1 AND ... ORDER BY ctime DESC LIMIT :count\<close>; a count of zero is no limit.\<close>

definition select_rows :: "scan_env \<Rightarrow> sql_term list \<Rightarrow> nat \<Rightarrow> 'd sqldb \<Rightarrow> (string \<times> status_row) list" where
  "select_rows env ts k db =
     (let rows = sort_key (\<lambda>(_, r). - r_ctime r)
        (filter (\<lambda>(_, r). list_all (term_holds (sc_like env) r) ts) (table_rows (sc_names env) (db_status db)))
      in if k = 0 then rows else take k rows)"

section \<open>The collection\<close>

text \<open>The rows of the result that have not been fetched; \<open>None\<close> is a statement that was thrown away.\<close>

record 'd collection =
  co_terms :: "sql_term list"
  co_count :: nat
  co_cursor :: "'d status"
  co_rows :: "(string \<times> status_row) list option"
  co_fetched :: bool
  co_executed :: bool

definition new_collection :: "int \<Rightarrow> 'd collection" where
  "new_collection now = \<lparr>co_terms = [], co_count = 10, co_cursor = new_status now, co_rows = Some [], co_fetched = False,
     co_executed = False\<rparr>"

text \<open>
  A further term after the query has run: \<^verbatim>\<open>LoggedStatement::reset\<close> throws the statement and its rows away, and the query is not run
  again.
\<close>

definition co_filter :: "sql_term \<Rightarrow> 'd collection \<Rightarrow> 'd collection" where
  "co_filter t c = (if co_executed c then c\<lparr>co_rows := None\<rparr> else c\<lparr>co_terms := co_terms c @ [t]\<rparr>)"

definition filter_progress :: "nat \<Rightarrow> nat \<Rightarrow> 'd collection \<Rightarrow> 'd collection" where
  "filter_progress a b = co_filter (if a = b then ProgressEq a else ProgressBetween a b)"

definition filter_code :: "int \<Rightarrow> int \<Rightarrow> 'd collection \<Rightarrow> 'd collection" where
  "filter_code a b = co_filter (if a = b then CodeEq a else CodeBetween a b)"

definition filter_operation :: "string \<Rightarrow> 'd collection \<Rightarrow> 'd collection" where
  "filter_operation t = co_filter (OperationEq t)"

definition filter_component :: "string \<Rightarrow> 'd collection \<Rightarrow> 'd collection" where
  "filter_component t = co_filter (ComponentEq t)"

definition filter_mtime :: "int \<Rightarrow> int \<Rightarrow> 'd collection \<Rightarrow> 'd collection" where
  "filter_mtime a b = co_filter (if a = b then MtimeEq a else MtimeBetween a b)"

definition filter_ctime :: "int \<Rightarrow> int \<Rightarrow> 'd collection \<Rightarrow> 'd collection" where
  "filter_ctime a b = co_filter (if a = b then CtimeEq a else CtimeBetween a b)"

definition filter_state :: "string \<Rightarrow> 'd collection \<Rightarrow> 'd collection" where
  "filter_state t = co_filter (StateEq t)"

definition filter_uri :: "string \<Rightarrow> 'd collection \<Rightarrow> 'd collection" where
  "filter_uri u = co_filter (UriLike (''%'' @ u @ ''%''))"

definition co_limit :: "nat \<Rightarrow> 'd collection \<Rightarrow> 'd collection" where
  "co_limit n c = c\<lparr>co_count := n\<rparr>"

text \<open>
  \<^verbatim>\<open>type_conversion::from_base\<close>: the row goes into the cursor through the members of the base class. Of these only the state
  depends on what the cursor held before: a change that the state machine does not allow is refused.
\<close>

definition from_base :: "int \<Rightarrow> string \<times> status_row \<Rightarrow> 'd status \<Rightarrow> 'd status" where
  "from_base now nr s = load_row now (snd nr) (set_name now (fst nr) s)"

text \<open>Fetching from a statement that was thrown away is left undefined, as a crash.\<close>

definition co_fetch :: "int \<Rightarrow> ('d collection, gb_exn, unit) sx" where
  "co_fetch now = (\<lambda>c. case co_rows c of
     None \<Rightarrow> (Inl NullDereference, c)
   | Some [] \<Rightarrow> (Inr (), c\<lparr>co_fetched := False\<rparr>)
   | Some (nr # nrs) \<Rightarrow> (Inr (), c\<lparr>co_cursor := from_base now nr (co_cursor c), co_rows := Some nrs, co_fetched := True\<rparr>))"

definition run_query :: "int \<Rightarrow> scan_env \<Rightarrow> 'd sqldb \<Rightarrow> ('d collection, gb_exn, unit) sx" where
  "run_query now env db = (\<lambda>c. if co_executed c then (Inr (), c)
     else sx_then (co_fetch now) (sx_modify (\<lambda>c. c\<lparr>co_executed := True\<rparr>))
            (c\<lparr>co_rows := Some (select_rows env (co_terms c) (co_count c) db)\<rparr>))"

definition sql_copy :: "'d status \<Rightarrow> 'd sobj" where
  "sql_copy s = SqlObj s False False False False False"

definition co_pop :: "int \<Rightarrow> scan_env \<Rightarrow> 'd sqldb \<Rightarrow> ('d collection, gb_exn, 'd sobj) sx" where
  "co_pop now env db =
     sx_then (run_query now env db) (\<lambda>c.
     if \<not> co_fetched c then (Inl (StdError ''called pop() on empty status collection''), c)
     else sx_then (co_fetch now) (sx_return (sql_copy (co_cursor c))) c)"

definition co_empty :: "int \<Rightarrow> scan_env \<Rightarrow> 'd sqldb \<Rightarrow> ('d collection, gb_exn, bool) sx" where
  "co_empty now env db = sx_then (run_query now env db) (sx_get (\<lambda>c. \<not> co_fetched c))"

text \<open>\<^verbatim>\<open>StatusManager::collection\<close>.\<close>

definition newStatusCollectionImpl :: "int \<Rightarrow> status_manager \<Rightarrow> gb_exn + 'd collection" where
  "newStatusCollectionImpl now sm =
     (if sm_type sm = STATUS_PLUGIN
      then (if sm_typestr sm = ''sql'' then Inr (new_collection now) else Inl (no_plugin (sm_typestr sm)))
      else Inl (ERR_INTERNAL_SERVER_ERROR ''Unknown Status Collection Implementation Type''))"

section \<open>Serialising status objects\<close>

text \<open>An SQL status loads everything first and takes the number of running jobs from its row.\<close>

definition q_concurrency :: "('d sworld, gb_exn, nat) sx" where
  "q_concurrency = (\<lambda>w. case q_row w of None \<Rightarrow> (Inl NullDereference, w) | Some r \<Rightarrow> (Inr (wrap_u32 (r_concurrency r)), w))"

definition q_serialize :: "int \<Rightarrow> 'd json_lib \<Rightarrow> ('d sworld, gb_exn, string) sx" where
  "q_serialize now lib =
     sx_then (\<lambda>w. if q_loaded w then (Inr (), w) else really_load now w)
     (sx_then (sx_modify (\<lambda>w. q_children (q_messages w)))
     (sx_then q_meta
     (sx_bind q_concurrency (\<lambda>n w. (status_serialize lib ((q_obj w)\<lparr>s_concurrency := n\<rparr>), w)))))"

definition so_serialize :: "int \<Rightarrow> 'd json_lib \<Rightarrow> ('d, 'x, string) on_obj" where
  "so_serialize now lib = obj_call
     (\<lambda>w. (status_serialize lib ((t_obj w)\<lparr>s_base_uri := transient_base_uri\<rparr>), w))
     (q_serialize now lib) (\<lambda>s. (status_serialize lib s, s))"

definition so_concurrency :: "('d, 'x, nat) on_obj" where
  "so_concurrency = obj_call (sx_get (\<lambda>w. s_concurrency (t_obj w))) q_concurrency (sx_get s_concurrency)"

section \<open>Walking through a collection\<close>

text \<open>
  The loop over a collection, as \<^verbatim>\<open>do_get_global_status_v1\<close> has it: while it is not empty take a status out and hand it with
  its index to the body, which may throw.
\<close>

definition co_left :: "int \<Rightarrow> scan_env \<Rightarrow> 'd sqldb \<Rightarrow> 'd collection \<Rightarrow> nat" where
  "co_left now env db c = (let c' = snd (run_query now env db c) in
     (case co_rows c' of None \<Rightarrow> 0 | Some l \<Rightarrow> length l) + (if co_fetched c' then 1 else 0))"

lemma run_query_executed [simp]: "co_executed c \<Longrightarrow> run_query now env db c = (Inr (), c)"
  by (simp add: run_query_def)

lemma run_query_starts:
  assumes "\<not> co_executed c"
  obtains c1 where "run_query now env db c = (Inr (), c1)" and "co_executed c1"
    and "case select_rows env (co_terms c) (co_count c) db of
        [] \<Rightarrow> \<not> co_fetched c1 \<and> co_rows c1 = Some []
      | nr # nrs \<Rightarrow> co_fetched c1 \<and> co_rows c1 = Some nrs \<and> co_cursor c1 = from_base now nr (co_cursor c)"
  using assms by (cases "select_rows env (co_terms c) (co_count c) db") (simp_all add: run_query_def sx_defs co_fetch_def)

lemma run_query_done:
  assumes "run_query now env db c = (r, c1)"
  shows "r = Inr () \<and> co_executed c1"
proof (cases "co_executed c")
  case False
  then obtain c' where "run_query now env db c = (Inr (), c')" "co_executed c'" by (rule run_query_starts)
  with assms show ?thesis by simp
qed (use assms in auto)

lemma co_pop_executed:
  assumes "co_pop now env db c = (Inr ob, c2)" and "co_executed c"
  shows "co_executed c2 \<and> co_left now env db c2 < co_left now env db c"
  using assms
  by (auto simp: co_pop_def sx_defs co_fetch_def co_left_def split: if_splits option.splits list.splits)

function co_each :: "int \<Rightarrow> scan_env \<Rightarrow> 'd sqldb \<Rightarrow> (nat \<Rightarrow> 'd sobj \<Rightarrow> 'a \<Rightarrow> gb_exn + 'a) \<Rightarrow> nat \<Rightarrow> 'a \<Rightarrow> 'd collection
    \<Rightarrow> (gb_exn + 'a) \<times> 'd collection" where
  "co_each now env db f i a c = (case co_empty now env db c of
     (Inl e, c1) \<Rightarrow> (Inl e, c1)
   | (Inr True, c1) \<Rightarrow> (Inr a, c1)
   | (Inr False, c1) \<Rightarrow> (case co_pop now env db c1 of
        (Inl e, c2) \<Rightarrow> (Inl e, c2)
      | (Inr ob, c2) \<Rightarrow> (case f i ob a of
           Inl e \<Rightarrow> (Inl e, c2)
         | Inr b \<Rightarrow> co_each now env db f (Suc i) b c2)))"
  by pat_completeness auto

termination
proof (relation "measure (\<lambda>(now, env, db, f, i, a, c). co_left now env db c)"; simp)
  fix now env db c c1 c2 ob
  assume "(Inr False, c1) = co_empty now env db c" "(Inr ob, c2) = co_pop now env db (c1 :: 'd collection)"
  then have pop: "co_pop now env db c1 = (Inr ob, c2)" and "run_query now env db c = (Inr (), c1)"
    by (auto simp: co_empty_def sx_defs dest: run_query_done split: prod.splits sum.splits)
  then have "co_executed c1" "co_left now env db c = co_left now env db c1"
    by (auto dest: run_query_done simp: co_left_def)
  with co_pop_executed [OF pop] show "co_left now env db c2 < co_left now env db c" by simp
qed

declare co_each.simps [simp del]

section \<open>What a collection shows\<close>

fun cursors :: "int \<Rightarrow> (string \<times> status_row) list \<Rightarrow> 'd status \<Rightarrow> 'd status list" where
  "cursors now [] s = []"
| "cursors now (nr # nrs) s = from_base now nr s # cursors now nrs (from_base now nr s)"

fun res_fold :: "(nat \<Rightarrow> 'b \<Rightarrow> 'a \<Rightarrow> 'e + 'a) \<Rightarrow> nat \<Rightarrow> 'b list \<Rightarrow> 'a \<Rightarrow> 'e + 'a" where
  "res_fold f i [] a = Inr a"
| "res_fold f i (x # xs) a = res_bind (f i x a) (res_fold f (Suc i) xs)"

lemma co_each_fetched:
  assumes "co_executed c" and "co_fetched c" and "co_rows c = Some nrs"
  shows "fst (co_each now env db f i a c) = res_fold f i (map sql_copy (co_cursor c # cursors now nrs (co_cursor c))) a"
  using assms
proof (induction nrs arbitrary: i a c)
  case Nil
  let ?c = "c\<lparr>co_fetched := False\<rparr>"
  have "co_empty now env db c = (Inr False, c)" "co_empty now env db ?c = (Inr True, ?c)"
    "co_pop now env db c = (Inr (sql_copy (co_cursor c)), ?c)"
    using Nil.prems by (simp_all add: co_empty_def co_pop_def sx_defs co_fetch_def)
  then show ?case
    by (simp add: co_each.simps [of _ _ _ _ _ _ c] co_each.simps [of _ _ _ _ _ _ ?c] split: sum.split)
next
  case (Cons nr nrs)
  let ?c = "c\<lparr>co_cursor := from_base now nr (co_cursor c), co_rows := Some nrs, co_fetched := True\<rparr>"
  have "co_empty now env db c = (Inr False, c)" "co_pop now env db c = (Inr (sql_copy (co_cursor c)), ?c)"
    using Cons.prems by (simp_all add: co_empty_def co_pop_def sx_defs co_fetch_def)
  moreover have "fst (co_each now env db f j b ?c)
      = res_fold f j (map sql_copy (from_base now nr (co_cursor c) # cursors now nrs (from_base now nr (co_cursor c)))) b" for j b
    using Cons.IH [of ?c] Cons.prems by simp
  ultimately show ?case
    by (simp add: co_each.simps [of _ _ _ _ _ _ c] split: sum.split)
qed

lemma co_each_rows:
  assumes "\<not> co_executed c"
  shows "fst (co_each now env db f i a c)
    = res_fold f i (map sql_copy (cursors now (select_rows env (co_terms c) (co_count c) db) (co_cursor c))) a"
proof -
  obtain c1 where c1: "run_query now env db c = (Inr (), c1)" "co_executed c1"
    "case select_rows env (co_terms c) (co_count c) db of
        [] \<Rightarrow> \<not> co_fetched c1 \<and> co_rows c1 = Some []
      | nr # nrs \<Rightarrow> co_fetched c1 \<and> co_rows c1 = Some nrs \<and> co_cursor c1 = from_base now nr (co_cursor c)"
    by (rule run_query_starts [OF assms])
  have same: "co_each now env db f i a c = co_each now env db f i a c1"
    using c1(1,2) by (subst (1 2) co_each.simps) (simp add: co_empty_def sx_defs)
  show ?thesis
  proof (cases "select_rows env (co_terms c) (co_count c) db")
    case Nil
    with c1 have "co_empty now env db c1 = (Inr True, c1)" by (simp add: co_empty_def sx_defs)
    with Nil show ?thesis unfolding same by (simp add: co_each.simps [of _ _ _ _ _ _ c1])
  next
    case (Cons nr nrs)
    with c1 show ?thesis unfolding same by (simp add: co_each_fetched del: res_fold.simps)
  qed
qed

lemma length_cursors [simp]: "length (cursors now nrs s) = length nrs"
  by (induction nrs arbitrary: s) simp_all

lemma cursors_nth:
  "k < length nrs \<Longrightarrow> cursors now nrs s ! k = from_base now (nrs ! k) (if k = 0 then s else cursors now nrs s ! (k - 1))"
proof (induction nrs arbitrary: s k)
  case (Cons nr nrs)
  show ?case
  proof (cases k)
    case (Suc j)
    with Cons.prems Cons.IH [of j "from_base now nr s"] show ?thesis by (cases j) simp_all
  qed simp
qed simp

text \<open>The attributes that a row determines whatever the cursor held before.\<close>

definition row_shown :: "string \<times> status_row \<Rightarrow> 'd status \<Rightarrow> bool" where
  "row_shown nr s \<longleftrightarrow> (case nr of (n, r) \<Rightarrow> s_name s = n \<and> s_operation s = r_operation r \<and> s_component s = r_component r
     \<and> s_progress s = r_progress r \<and> s_code s = r_code r \<and> s_resource_uri s = r_resource_uri r \<and> s_parent_uri s = r_parent_uri r
     \<and> s_ctime s = r_ctime r \<and> s_mtime s = r_mtime r \<and> s_ytime s = r_ytime r \<and> s_failures s = r_failures r)"

lemma from_base_shown: "row_shown nr (from_base now nr s)"
  by (cases nr) (simp add: row_shown_def from_base_def load_row_def Let_def set_name_def touch_def set_state_def)

lemma from_base_name: "s_name (from_base now nr s) = fst nr"
  using from_base_shown [of nr now s] by (simp add: row_shown_def split_beta)

lemma load_row_state:
  "s_state (load_row now r s) = (if validStateTransition (s_state s) (str2state (r_state r)) then str2state (r_state r) else s_state s)"
  by (simp add: load_row_def Let_def set_state_def touch_def validStateTransition_def)

lemma from_base_state:
  "s_state (from_base now nr s)
     = (if validStateTransition (s_state s) (str2state (r_state (snd nr))) then str2state (r_state (snd nr)) else s_state s)"
  by (simp add: from_base_def load_row_state set_name_def touch_def)

text \<open>The list of all statuses of a collection, and what is asked of a query.\<close>

definition co_all :: "int \<Rightarrow> scan_env \<Rightarrow> 'd sqldb \<Rightarrow> 'd collection \<Rightarrow> gb_exn + 'd sobj list" where
  "co_all now env db c = fst (co_each now env db (\<lambda>_ ob obs. Inr (obs @ [ob])) 0 [] c)"

lemma res_fold_append: "res_fold (\<lambda>_ x xs. Inr (xs @ [x])) i ys xs = Inr (xs @ ys)"
  by (induction ys arbitrary: i xs) simp_all

lemma co_all_rows:
  assumes "\<not> co_executed c"
  shows "co_all now env db c = Inr (map sql_copy (cursors now (select_rows env (co_terms c) (co_count c) db) (co_cursor c)))"
  using co_each_rows [OF assms, of now env db "\<lambda>_ ob obs. Inr (obs @ [ob])" 0 "[]"] by (simp add: co_all_def res_fold_append)

lemma set_table_rows: "(n, r) \<in> set (table_rows names T) \<longleftrightarrow> n \<in> set names \<and> T n = Some r"
  by (auto simp: table_rows_def split: option.splits)

lemma distinct_table_rows: "distinct names \<Longrightarrow> distinct (map fst (table_rows names T))"
proof (induction names)
  case (Cons n ns)
  have "n \<notin> fst ` set (table_rows ns T)" using Cons.prems by (auto simp: set_table_rows)
  with Cons show ?case by (auto simp: table_rows_def split: option.split)
qed (simp add: table_rows_def)

lemma select_rows_spec:
  assumes "distinct (sc_names env)"
  shows "distinct (map fst (select_rows env ts k db))"
    and "sorted_wrt (\<lambda>a b. r_ctime (snd a) \<ge> r_ctime (snd b)) (select_rows env ts k db)"
    and "k \<noteq> 0 \<Longrightarrow> length (select_rows env ts k db) \<le> k"
    and "(n, r) \<in> set (select_rows env ts k db) \<Longrightarrow> db_status db n = Some r \<and> list_all (term_holds (sc_like env) r) ts"
    and "k = 0 \<Longrightarrow> n \<in> set (sc_names env) \<Longrightarrow> db_status db n = Some r \<Longrightarrow> list_all (term_holds (sc_like env) r) ts \<Longrightarrow>
      (n, r) \<in> set (select_rows env ts k db)"
proof -
  let ?rows = "filter (\<lambda>(_, r). list_all (term_holds (sc_like env) r) ts) (table_rows (sc_names env) (db_status db))"
  let ?key = "\<lambda>(_ :: string, r). - r_ctime r"
  let ?s = "sort_key ?key ?rows"
  have sel: "select_rows env ts k db = (if k = 0 then ?s else take k ?s)" by (simp add: select_rows_def Let_def)
  have "distinct (map fst ?rows)"
    using distinct_table_rows [OF assms] by (simp add: distinct_map_filter)
  then have "distinct (map fst ?s)" by (simp add: distinct_map)
  then show "distinct (map fst (select_rows env ts k db))" unfolding sel by (simp add: take_map [symmetric])
  have "sorted_wrt (\<lambda>a b. r_ctime (snd a) \<ge> r_ctime (snd b)) ?s"
    using sorted_sort_key [of ?key ?rows] by (simp add: sorted_wrt_map split_beta)
  then show "sorted_wrt (\<lambda>a b. r_ctime (snd a) \<ge> r_ctime (snd b)) (select_rows env ts k db)" unfolding sel
    by (simp add: sorted_wrt_take)
  show "k \<noteq> 0 \<Longrightarrow> length (select_rows env ts k db) \<le> k" unfolding sel by simp
  show "(n, r) \<in> set (select_rows env ts k db) \<Longrightarrow> db_status db n = Some r \<and> list_all (term_holds (sc_like env) r) ts"
    unfolding sel by (auto split: if_splits dest!: in_set_takeD simp: set_table_rows)
  show "k = 0 \<Longrightarrow> n \<in> set (sc_names env) \<Longrightarrow> db_status db n = Some r \<Longrightarrow> list_all (term_holds (sc_like env) r) ts \<Longrightarrow>
      (n, r) \<in> set (select_rows env ts k db)"
    unfolding sel by (simp add: set_table_rows)
qed

text \<open>
  C25: walking through a collection ends, never throws, and gives the statuses the query asks for: the newest first, none
  twice, no more than the limit, only rows that pass the filters, and all of those when there is no limit. Every
  status taken out has the attributes of its row; the state is the exception.
\<close>

theorem collection_lists:
  assumes "distinct (sc_names env)" and "\<not> co_executed c"
  shows "\<exists>obs. co_all now env db c = Inr obs \<and> distinct (map so_name obs) \<and>
    sorted_wrt (\<lambda>a b. s_ctime (o_attrs a) \<ge> s_ctime (o_attrs b)) obs \<and>
    (co_count c \<noteq> 0 \<longrightarrow> length obs \<le> co_count c) \<and>
    (\<forall>ob\<in>set obs. \<exists>r. db_status db (so_name ob) = Some r \<and> row_shown (so_name ob, r) (o_attrs ob) \<and>
       list_all (term_holds (sc_like env) r) (co_terms c)) \<and>
    (co_count c = 0 \<longrightarrow> (\<forall>n\<in>set (sc_names env). \<forall>r. db_status db n = Some r \<and> list_all (term_holds (sc_like env) r) (co_terms c)
       \<longrightarrow> n \<in> so_name ` set obs))"
proof -
  let ?rows = "select_rows env (co_terms c) (co_count c) db"
  let ?obs = "map sql_copy (cursors now ?rows (co_cursor c))"
  note spec = select_rows_spec [OF assms(1), where ts = "co_terms c" and k = "co_count c" and db = db]
  have shown: "row_shown (?rows ! k) (o_attrs (?obs ! k))" if "k < length ?rows" for k
    using that by (simp add: sql_copy_def cursors_nth from_base_shown)
  then have name: "so_name (?obs ! k) = fst (?rows ! k)" "s_ctime (o_attrs (?obs ! k)) = r_ctime (snd (?rows ! k))"
    if "k < length ?rows" for k
    using that [THEN shown] by (auto simp: row_shown_def so_name_def split: prod.splits)
  have names: "map so_name ?obs = map fst ?rows" by (rule nth_equalityI) (use name(1) in auto)
  have order: "sorted_wrt (\<lambda>a b. s_ctime (o_attrs a) \<ge> s_ctime (o_attrs b)) ?obs"
    using spec(2) unfolding sorted_wrt_iff_nth_less by (simp add: name(2) del: nth_map)
  have found: "\<exists>r. db_status db (so_name ob) = Some r \<and> row_shown (so_name ob, r) (o_attrs ob) \<and>
       list_all (term_holds (sc_like env) r) (co_terms c)" if ob: "ob \<in> set ?obs" for ob
  proof -
    obtain k where k: "k < length ?rows" "ob = ?obs ! k" using ob by (auto simp only: in_set_conv_nth length_map length_cursors)
    have "(fst (?rows ! k), snd (?rows ! k)) \<in> set ?rows" using k(1) by simp
    from spec(4) [OF this] shown [OF k(1)] name(1) [OF k(1)] k(2) show ?thesis by (metis prod.collapse)
  qed
  have every: "n \<in> so_name ` set ?obs"
    if "co_count c = 0" "n \<in> set (sc_names env)" "db_status db n = Some r" "list_all (term_holds (sc_like env) r) (co_terms c)" for n r
    using spec(5) [OF that] names by (metis fst_conv image_eqI list.set_map)
  have "distinct (map so_name ?obs)" "co_count c \<noteq> 0 \<longrightarrow> length ?obs \<le> co_count c" using spec(1,3) names by simp_all
  with order found every co_all_rows [OF assms(2), of now env db] show ?thesis
    by (intro exI [of _ ?obs]) blast
qed

text \<open>
  The state of a status in a list may be that of the status before it. The cursor takes the state of a row only when the
  state machine allows the change from the state of the previous row; otherwise the status taken out has the state
  of the status before it, and loading its row again does not correct that.
\<close>

lemma collection_state_sticks:
  assumes "\<not> co_executed c" and "co_all now env db c = Inr obs"
    and "select_rows env (co_terms c) (co_count c) db = rows" and "Suc k < length rows"
    and "\<not> validStateTransition (s_state (o_attrs (obs ! k))) (str2state (r_state (snd (rows ! Suc k))))"
  shows "s_state (o_attrs (obs ! Suc k)) = s_state (o_attrs (obs ! k)) \<and>
    s_state (load_row now' (snd (rows ! Suc k)) (o_attrs (obs ! Suc k))) = s_state (o_attrs (obs ! k))"
proof -
  have "obs = map sql_copy (cursors now rows (co_cursor c))" using co_all_rows [OF assms(1), of now env db] assms(2,3) by simp
  then show ?thesis using assms(4,5) cursors_nth [of "Suc k" rows now "co_cursor c"]
    by (simp add: sql_copy_def from_base_state load_row_state)
qed

definition demo_list_row :: "int \<Rightarrow> string \<Rightarrow> status_row" where
  "demo_list_row t st = \<lparr>r_operation = ''op'', r_component = ''c'', r_progress = 5, r_code = 0, r_resource_uri = ''u'', r_parent_uri = [],
     r_ctime = t, r_mtime = t, r_ytime = - 1, r_state = st, r_failures = 0, r_concurrency = 0\<rparr>"

definition demo_list_db :: "nat sqldb" where
  "demo_list_db = \<lparr>db_status = (\<lambda>_. None)(''s1'' := Some (demo_list_row 1 ''RUNNING''), ''s2'' := Some (demo_list_row 2 ''COMPLETED'')),
     db_messages = [], db_children = [], db_meta = [], db_events = (\<lambda>_. None)\<rparr>"

definition demo_scan :: scan_env where
  "demo_scan = \<lparr>sc_like = (\<lambda>_ _. True), sc_names = [''s1'', ''s2'']\<rparr>"

lemma demo_select:
  "select_rows demo_scan [] 10 demo_list_db = [(''s2'', demo_list_row 2 ''COMPLETED''), (''s1'', demo_list_row 1 ''RUNNING'')]"
  by (simp add: select_rows_def table_rows_def demo_scan_def demo_list_db_def demo_list_row_def)

theorem collection_lists_witness:
  "\<exists>obs. co_all 7 demo_scan demo_list_db (new_collection 7) = Inr obs \<and> length obs \<le> 10"
proof -
  have "distinct (sc_names demo_scan)" by (simp add: demo_scan_def)
  moreover have "\<not> co_executed (new_collection 7 :: nat collection)" by (simp add: new_collection_def)
  ultimately obtain obs where "co_all 7 demo_scan demo_list_db (new_collection 7) = Inr obs"
    "co_count (new_collection 7 :: nat collection) \<noteq> 0 \<longrightarrow> length obs \<le> co_count (new_collection 7 :: nat collection)"
    using collection_lists [of demo_scan "new_collection 7" 7 demo_list_db] by blast
  then show ?thesis by (simp add: new_collection_def)
qed

text \<open>A status that is running, listed after one that has completed, is shown as completed.\<close>

lemma collection_state_sticks_witness:
  "\<exists>obs. co_all 7 demo_scan demo_list_db (new_collection 7) = Inr obs \<and> so_name (obs ! 1) = ''s1'' \<and>
     r_state (the (db_status demo_list_db ''s1'')) = ''RUNNING'' \<and> s_state (o_attrs (obs ! 1)) = STATE_COMPLETED"
proof -
  let ?c = "new_collection 7 :: nat collection"
  have c: "\<not> co_executed ?c" "co_terms ?c = []" "co_count ?c = 10" by (simp_all add: new_collection_def)
  obtain obs where obs: "co_all 7 demo_scan demo_list_db ?c = Inr obs"
    "obs = map sql_copy (cursors 7 (select_rows demo_scan [] 10 demo_list_db) (co_cursor ?c))"
    using co_all_rows [OF c(1), of 7 demo_scan demo_list_db] c by simp
  have st: "str2state ''COMPLETED'' = STATE_COMPLETED" "str2state ''RUNNING'' = STATE_RUNNING" by code_simp+
  have first: "s_state (o_attrs (obs ! 0)) = STATE_COMPLETED"
    unfolding obs(2) demo_select
    by (simp add: sql_copy_def from_base_state demo_list_row_def st new_collection_def new_status_def validStateTransition_def)
  have "so_name (obs ! 1) = ''s1''"
    unfolding obs(2) demo_select by (simp add: sql_copy_def so_name_def from_base_name)
  moreover have "s_state (o_attrs (obs ! Suc 0)) = s_state (o_attrs (obs ! 0))"
  proof -
    let ?rows = "[(''s2'', demo_list_row 2 ''COMPLETED''), (''s1'', demo_list_row 1 ''RUNNING'')]"
    have rows: "select_rows demo_scan (co_terms ?c) (co_count ?c) demo_list_db = ?rows" using c demo_select by simp
    have len: "Suc 0 < length ?rows" by simp
    have "\<not> validStateTransition (s_state (o_attrs (obs ! 0))) (str2state (r_state (snd (?rows ! Suc 0))))"
      by (simp add: first) (simp add: demo_list_row_def st validStateTransition_def)
    from collection_state_sticks [OF c(1) obs(1) rows len this] show ?thesis by blast
  qed
  moreover have "r_state (the (db_status demo_list_db ''s1'')) = ''RUNNING''" by (simp add: demo_list_db_def demo_list_row_def)
  ultimately show ?thesis using obs(1) first by simp
qed

end
