(* ===== verification/GB_Gearbox.thy ===== *)
theory GB_Gearbox
  imports GB_Worker GB_Collection GB_JobQueue
begin

text \<open>
  \<^verbatim>\<open>workers/gearbox/WorkerGearbox.cc\<close>: the handlers of the worker that comes with the framework. It keeps the table of delayed jobs,
  creates, updates, shows and cancels the statuses of all jobs. The table is a part of the world outside of the
  process; a statement on it that fails is tried again, and the model runs the attempt that succeeds.
\<close>

section \<open>World\<close>

record delay_row =
  dr_id :: int
  dr_name :: string
  dr_status :: "string option"
  dr_envelope :: string
  dr_time :: int
  dr_ctime :: int

text \<open>The services, with the table of delayed jobs and the counter files.\<close>

record 'y gx =
  gx_jobs :: "delay_row list"
  gx_next :: int
  gx_files :: "string \<Rightarrow> string option"
  gx_y :: 'y

type_synonym ('d, 'y) gw = "('d, 'y gx) wworld"
type_synonym ('d, 'y, 'a) hx = "('d job_response \<times> ('d, 'y) gw, gb_exn, 'a) px"

record ('d, 'y) gb_env =
  gb_wk :: "('d, 'y gx) wk_env"
  gb_poke :: "string \<Rightarrow> 'y \<Rightarrow> 'y"
  gb_scan :: scan_env
  gb_topo :: "nat \<Rightarrow> graph \<Rightarrow> string + nat list"
  gb_localstatedir :: string
  gb_fault :: "string \<Rightarrow> 'y gx \<Rightarrow> bool \<times> 'y gx"
  gb_strerror :: "'y gx \<Rightarrow> string"

abbreviation gb_rt :: "('d, 'y) gb_env \<Rightarrow> ('d, 'y gx) rt_env" where
  "gb_rt env \<equiv> wk_rt (gb_wk env)"

abbreviation gb_now :: "('d, 'y) gb_env \<Rightarrow> int" where
  "gb_now env \<equiv> rt_now (gb_rt env)"

definition in_w :: "(('d, 'y) gw, gb_exn, 'a) px \<Rightarrow> ('d, 'y, 'a) hx" where
  "in_w m = (\<lambda>(r, w). case m w of None \<Rightarrow> None | Some (x, w') \<Rightarrow> Some (x, r, w'))"

definition in_rt :: "(('d, 'y gx) rworld, gb_exn, 'a) px \<Rightarrow> ('d, 'y, 'a) hx" where
  "in_rt m = in_w (on_rt m)"

definition on_resp :: "('d job_response \<Rightarrow> 'd job_response) \<Rightarrow> ('d, 'y, unit) hx" where
  "on_resp f = px_modify (\<lambda>(r, w). (f r, w))"

text \<open>A member of the status of the response.\<close>

definition resp_status :: "('d, 'y gx, 'a) on_obj \<Rightarrow> ('d, 'y, 'a) hx" where
  "resp_status m = (\<lambda>(r, w). case jr_status r of
     None \<Rightarrow> Some (Inl NullDereference, r, w)
   | Some ob \<Rightarrow> (let (x, ob', t) = m (ob, ww_rt w) in Some (x, r\<lparr>jr_status := Some ob'\<rparr>, w\<lparr>ww_rt := t\<rparr>)))"

definition so_advance :: "int \<Rightarrow> nat \<Rightarrow> ('d, 'x, unit) on_obj" where
  "so_advance now p = obj_call (Status_progress (transient_vt now) p) (Status_progress (sql_vt now) p) (Status_progress (base_vt now) p)"

definition so_has_completed :: "int \<Rightarrow> ('d, 'x, bool) on_obj" where
  "so_has_completed now = obj_call (Status_has_completed (transient_vt now)) (Status_has_completed (sql_vt now)) (Status_has_completed (base_vt now))"

definition so_children :: "('d, 'x, string list) on_obj" where
  "so_children = obj_call (sx_get (\<lambda>w. s_children (t_obj w))) (\<lambda>w. let w' = q_children w in (Inr (s_children (q_obj w')), w'))
     (sx_get s_children)"

definition so_get_ytime :: "int \<Rightarrow> ('d, 'x, int) on_obj" where
  "so_get_ytime now = obj_call (sx_get (\<lambda>w. s_ytime (t_obj w))) (q_lazy now s_ytime) (sx_get s_ytime)"

definition so_parent_uri :: "int \<Rightarrow> string \<Rightarrow> ('d, 'x, unit) on_obj" where
  "so_parent_uri now p = obj_call (t_parent_uri now p) (sx_modify (q_parent_uri now p)) (sx_modify (set_parent_uri now p))"

text \<open>Adding a child that is no URI to an SQL status never ends.\<close>

definition so_add_child :: "int \<Rightarrow> string \<Rightarrow> 'd sobj \<Rightarrow> (('d, 'x) rworld, gb_exn, 'd sobj) px" where
  "so_add_child now c ob = (case ob of
     SqlObj _ _ _ _ _ _ \<Rightarrow> (\<lambda>w. case q_add_child now c (sql_view ob w) of
        None \<Rightarrow> None
      | Some q \<Rightarrow> (let (ob', w') = sql_back q w in Some (Inr ob', w')))
   | _ \<Rightarrow> px_bind (with_obj ob (obj_call (t_add_child now c) (sx_return ()) (sx_modify (add_child now c)))) (\<lambda>(_, ob). px_return ob))"

text \<open>
  \<^verbatim>\<open>Status::on(event, jm)\<close>: the job registered for an event. An SQL status tries again when the job cannot be made from its
  envelope.
\<close>

partial_function (option) sql_on_loop :: "('d, 'x) rt_env \<Rightarrow> string \<Rightarrow> string \<Rightarrow> ('d, 'x) rworld
    \<Rightarrow> ((gb_exn + 'd job option) \<times> ('d, 'x) rworld) option" where
  "sql_on_loop env n t w = (case on_jm (job_of_text (rt_jm env) n t) w of
     None \<Rightarrow> None
   | Some (r, w') \<Rightarrow> (case r of
        Inr j \<Rightarrow> Some (Inr (Some j), w')
      | Inl e \<Rightarrow> if e = NullDereference then Some (Inl e, w') else sql_on_loop env n t w'))"

text \<open>No exception of an attempt leaves the loop.\<close>

definition sql_on_attempt :: "('d, 'x) rt_env \<Rightarrow> string \<Rightarrow> string \<Rightarrow> ('d, 'x) rworld \<Rightarrow> ((gb_exn + 'd job option) option \<times> ('d, 'x) rworld) option" where
  "sql_on_attempt env n t w = (case on_jm (job_of_text (rt_jm env) n t) w of
     None \<Rightarrow> None
   | Some (Inr j, w') \<Rightarrow> Some (Some (Inr (Some j)), w')
   | Some (Inl e, w') \<Rightarrow> Some (if e = NullDereference then Some (Inl e) else None, w'))"

interpretation sql_on: retried "sql_on_attempt env n t" "sql_on_loop env n t" for env n t
proof
  fix w show "sql_on_loop env n t w = (case sql_on_attempt env n t w of None \<Rightarrow> None
      | Some (None, w') \<Rightarrow> sql_on_loop env n t w' | Some (Some r, w') \<Rightarrow> Some (r, w'))"
    by (subst sql_on_loop.simps) (simp add: sql_on_attempt_def split: option.split prod.split sum.split)
next
  fix w y P
  assume "sql_on_loop env n t w = Some y" and "\<And>w r w'. sql_on_attempt env n t w = Some (Some r, w') \<Longrightarrow> P w (r, w')"
    and "\<And>w w' y. sql_on_attempt env n t w = Some (None, w') \<Longrightarrow> P w' y \<Longrightarrow> P w y"
  then show "P w y"
    by (rule_tac sql_on_loop.raw_induct [where P = "\<lambda>e m u w y. e = env \<longrightarrow> m = n \<longrightarrow> u = t \<longrightarrow> P w y", rule_format])
      (auto simp: sql_on_attempt_def split: option.splits prod.splits sum.splits if_splits)
qed

lemma sql_on_result:
  assumes "sql_on_loop env n t w = Some (r, w')"
  shows "r = Inl NullDereference \<or> (\<exists>j. r = Inr (Some j))"
  by (rule sql_on.result [OF assms]) (auto simp: sql_on_attempt_def split: option.splits prod.splits sum.splits if_splits)

definition so_on :: "('d, 'x) rt_env \<Rightarrow> status_event \<Rightarrow> 'd sobj \<Rightarrow> (('d, 'x) rworld, gb_exn, 'd job option) px" where
  "so_on env ev ob = (case ob of
     SqlObj _ _ _ _ _ _ \<Rightarrow> (\<lambda>w. case q_on_job ev (sql_view ob w) of
        None \<Rightarrow> Some (Inr None, w)
      | Some (n, t) \<Rightarrow> sql_on_loop env n t w)
   | TransientObj _ _ \<Rightarrow> px_bind (with_obj ob (obj_call (t_on_job ev) (sx_return None) (sx_return None))) (\<lambda>(h, _).
       case h of None \<Rightarrow> px_return None
       | Some (n, t) \<Rightarrow> px_bind (on_jm (job_of_text (rt_jm env) n t)) (\<lambda>j. px_return (Some j)))
   | JobObj _ _ _ _ \<Rightarrow> px_throw (ERR_NOT_IMPLEMENTED ''cannot get event handlers for remote job status object''))"

section \<open>Small steps\<close>

text \<open>A system call, which may fail; \<^verbatim>\<open>ERR_LIBC\<close> puts the text for the error number behind the message.\<close>

definition ERR_LIBC :: "string \<Rightarrow> string \<Rightarrow> gb_exn" where
  "ERR_LIBC why err = ERR_INTERNAL_SERVER_ERROR (why @ '': '' @ err)"

definition throw_libc :: "('d, 'y) gb_env \<Rightarrow> string \<Rightarrow> (('d, 'y gx) rworld, gb_exn, 'a) px" where
  "throw_libc env why = px_bind (px_get (\<lambda>w. gb_strerror env (rw_x w))) (\<lambda>err. px_throw (ERR_LIBC why err))"

definition sys_call :: "('d, 'y) gb_env \<Rightarrow> string \<Rightarrow> string \<Rightarrow> (('d, 'y gx) rworld, gb_exn, unit) px" where
  "sys_call env c why = px_bind (on_x (gb_fault env c)) (\<lambda>failed. if failed then throw_libc env why else px_return ())"

text \<open>\<^verbatim>\<open>Job::json_content\<close>, on a job that has not been asked for it before.\<close>

definition json_content :: "('d, 'x) rt_env \<Rightarrow> 'd job \<Rightarrow> (('d, 'x) rworld, gb_exn, 'd json) px" where
  "json_content env j =
     px_bind (on_jm (getSchema (rt_jm env) (attrs j))) (\<lambda>s.
     px_lift (parse_text (rt_lib env) (rt_statics env) s (if j_content (attrs j) = [] then ''null'' else j_content (attrs j))))"

definition get_str :: "string \<Rightarrow> 'd json \<Rightarrow> gb_exn + string" where
  "get_str k d = res_bind (json_get [] k d) (json_as_string [Key k])"

definition get_i64 :: "string \<Rightarrow> 'd json \<Rightarrow> gb_exn + int" where
  "get_i64 k d = res_bind (json_get [] k d) (json_as_int64 [Key k])"

text \<open>\<^verbatim>\<open>arguments()[0]\<close>, which nobody has checked to be there.\<close>

definition first_argument :: "'d job \<Rightarrow> gb_exn + string" where
  "first_argument j = (case j_arguments (attrs j) of [] \<Rightarrow> Inl NullDereference | a # _ \<Rightarrow> Inr a)"

definition gb_fetch :: "('d, 'y) gb_env \<Rightarrow> string \<Rightarrow> ('d, 'y, 'd sobj) hx" where
  "gb_fetch env n = in_w (px_bind (px_get ww_sm) (\<lambda>sm. on_rt (sm_fetch (gb_now env) sm n)))"

definition fetch_argument :: "('d, 'y) gb_env \<Rightarrow> 'd job \<Rightarrow> ('d, 'y, 'd sobj) hx" where
  "fetch_argument env j = px_bind (px_lift (first_argument j)) (gb_fetch env)"

definition set_sm_base :: "string \<Rightarrow> ('d, 'y, unit) hx" where
  "set_sm_base u = in_w (px_modify (\<lambda>w. w\<lparr>ww_sm := (ww_sm w)\<lparr>sm_base_uri := u\<rparr>\<rparr>))"

text \<open>\<^verbatim>\<open>StatusManager::fetch(Uri)\<close>: a job over HTTP, repeated until it succeeds.\<close>

definition sm_fetch_uri :: "('d, 'x) rt_env \<Rightarrow> string \<Rightarrow> string \<Rightarrow> (('d, 'x) rworld, gb_exn, 'd sobj) px" where
  "sm_fetch_uri env base t =
     px_bind (px_lift (res_bind (res_bind (Uri t) uri_canonical) Uri)) (\<lambda>u.
     px_bind (with_jm base [] (sx_then (build_runnable_jobs (rt_jm env)) (job_uri METHOD_GET u))) (\<lambda>j.
     (let j = upd_attrs (\<lambda>a. a\<lparr>j_type := JOB_SYNC\<rparr>) j in
      px_bind (rest_run env True j) (load_content env (set_base_uri base (new_status (rt_now env))) RestKind j))))"

text \<open>A copy of the job under another name and with other content.\<close>

definition renamed :: "string \<Rightarrow> string \<Rightarrow> 'd job \<Rightarrow> gb_exn + 'd job" where
  "renamed n c j = res_bind (on_attrs (set_job_name n) (attrs j)) (\<lambda>a. Inr (Job (a\<lparr>j_content := c\<rparr>) (handlers j) (event_status j)))"

definition push_afterwards :: "'d job \<Rightarrow> int \<Rightarrow> ('d, 'y, unit) hx" where
  "push_afterwards j delay = in_w (px_modify (afterwards GearmanKind j delay))"

definition last_message :: "string list \<Rightarrow> gb_exn + string" where
  "last_message ms = (if ms = [] then Inl NullDereference else Inr (last ms))"

text \<open>The status of an event must be that of a success, or its failure is passed on.\<close>

definition check_event :: "'d status option \<Rightarrow> gb_exn + unit" where
  "check_event es = (case es of
     None \<Rightarrow> Inr ()
   | Some s \<Rightarrow>
       if s_progress s \<noteq> 100 then Inl (StdError ''is_success is invalid on in-complete status'')
       else if s_code s = 0 then Inr ()
       else res_bind (last_message (s_messages s)) (\<lambda>m. Inl (throw_from_code (s_code s) m)))"

section \<open>The delay daemon is told\<close>

definition fifo_path :: "string \<Rightarrow> 'd json \<Rightarrow> gb_exn + string" where
  "fifo_path localstatedir cfg =
     res_bind (get_string2_default ''delay'' ''fifo'' [] cfg) (\<lambda>f.
     if f \<noteq> [] then Inr f
     else res_bind (get_string2_default ''gearbox'' ''root'' (localstatedir @ ''/gearbox'') cfg) (\<lambda>r. Inr (r @ ''/delay.fifo'')))"

text \<open>Nothing is told when there is no socket; when it cannot be connected to, that is logged.\<close>

definition poke_delay_daemon :: "('d, 'y) gb_env \<Rightarrow> (('d, 'y gx) rworld, gb_exn, unit) px" where
  "poke_delay_daemon env =
     px_bind (cfg_get (fifo_path (gb_localstatedir env))) (\<lambda>f.
     px_bind (px_get (\<lambda>w. gx_files (rw_x w) f)) (\<lambda>e.
     px_when (e \<noteq> None) (swallow
       (px_then (sys_call env ''socket'' ''failed to create socket'')
       (px_then (sys_call env ''connect'' ''failed to connect to stream socket'')
         (on_x (\<lambda>x. ((), x\<lparr>gx_y := gb_poke env f (gx_y x)\<rparr>))))))))"

section \<open>Delaying a job\<close>

text \<open>The row for the content of the job, and the time it is to run.\<close>

definition delay_time :: "'d json \<Rightarrow> 'd json \<Rightarrow> gb_exn + int" where
  "delay_time cfg d = res_bind (get_int2_default ''delay'' ''run_immediately'' 0 cfg) (\<lambda>now.
     if wrap_s32 now \<noteq> 0 then Inr 0 else get_i64 ''time'' d)"

definition delay_entry :: "('d, 'y) gb_env \<Rightarrow> 'd json \<Rightarrow> 'd json \<Rightarrow> gb_exn + delay_row" where
  "delay_entry env cfg d =
     res_bind (if json_hasKey ''status_name'' d then get_str ''status_name'' d else Inr []) (\<lambda>st.
     res_bind (json_get [] ''envelope'' d) (\<lambda>e.
     res_bind (get_str ''name'' d) (\<lambda>n.
     res_bind (delay_time cfg d) (\<lambda>t.
     Inr \<lparr>dr_id = 0, dr_name = n, dr_status = (if st = [] then None else Some st),
          dr_envelope = rt_compress (gb_rt env) (json_serialize (rt_lib (gb_rt env)) e), dr_time = t, dr_ctime = gb_now env\<rparr>))))"

definition insert_row :: "delay_row \<Rightarrow> 'y gx \<Rightarrow> 'y gx" where
  "insert_row r x = x\<lparr>gx_jobs := gx_jobs x @ [r\<lparr>dr_id := gx_next x\<rparr>], gx_next := gx_next x + 1\<rparr>"

text \<open>Content that does not make a row throws in every attempt: the loop does not end.\<close>

definition put_row :: "('d, 'y) gb_env \<Rightarrow> 'd json \<Rightarrow> (('d, 'y gx) rworld, gb_exn, unit) px" where
  "put_row env d = (\<lambda>w. case delay_entry env (w_cfg (rw_jm w)) d of
     Inl _ \<Rightarrow> None
   | Inr r \<Rightarrow> on_x (\<lambda>x. ((), insert_row r x)) w)"

definition do_put_delay_job :: "('d, 'y) gb_env \<Rightarrow> 'd job \<Rightarrow> ('d, 'y, worker_response) hx" where
  "do_put_delay_job env j =
     px_bind (in_rt (json_content (gb_rt env) j)) (\<lambda>d.
     px_then (in_rt (put_row env d)) (px_then (in_rt (poke_delay_daemon env)) (px_return WORKER_SUCCESS)))"

section \<open>Showing statuses\<close>

text \<open>\<^verbatim>\<open>boost::lexical_cast\<close> to \<^verbatim>\<open>int\<close> and to \<^verbatim>\<open>unsigned int\<close>, which takes a sign and wraps around.\<close>

definition cast_int :: "string \<Rightarrow> gb_exn + int" where
  "cast_int t = (case lexical_cast_int t of
     Some i \<Rightarrow> if - (2 ^ 31) \<le> i \<and> i < 2 ^ 31 then Inr i else Inl bad_lexical_cast
   | None \<Rightarrow> Inl bad_lexical_cast)"

definition cast_uint :: "string \<Rightarrow> gb_exn + nat" where
  "cast_uint t = (case lexical_cast_int t of
     Some i \<Rightarrow> if \<bar>i\<bar> < 2 ^ 32 then Inr (wrap_u32 i) else Inl bad_lexical_cast
   | None \<Rightarrow> Inl bad_lexical_cast)"

definition when_arg :: "string \<Rightarrow> hash \<Rightarrow> (string \<Rightarrow> 'a \<Rightarrow> gb_exn + 'a) \<Rightarrow> 'a \<Rightarrow> gb_exn + 'a" where
  "when_arg k h f a = (if hash_has_key k h then res_bind (hash_get k h) (\<lambda>t. f t a) else Inr a)"

definition list_query :: "hash \<Rightarrow> 'd collection \<Rightarrow> gb_exn + 'd collection" where
  "list_query h = res_seq
     [when_arg ''_count'' h (\<lambda>t c. res_bind (cast_uint t) (\<lambda>n. Inr (co_limit n c))),
      when_arg ''progress'' h (\<lambda>t c. res_bind (cast_int t) (\<lambda>p. Inr (filter_progress (wrap_u32 p) (wrap_u32 p) c))),
      when_arg ''code'' h (\<lambda>t c. res_bind (cast_int t) (\<lambda>i. Inr (filter_code i i c))),
      when_arg ''operation'' h (\<lambda>t c. Inr (filter_operation t c)),
      when_arg ''component'' h (\<lambda>t c. Inr (filter_component t c)),
      when_arg ''state'' h (\<lambda>t c. Inr (filter_state t c)),
      when_arg ''uri'' h (\<lambda>t c. Inr (filter_uri t c))]"

definition put_status :: "nat \<Rightarrow> 'd json \<Rightarrow> 'd json \<Rightarrow> gb_exn + 'd json" where
  "put_status i v = json_upd_key [] ''statuses'' (json_upd_at [Key ''statuses''] i (\<lambda>_. Inr v))"

definition list_entry :: "('d, 'y) gb_env \<Rightarrow> ('d, 'y gx) rworld \<Rightarrow> bool \<Rightarrow> nat \<Rightarrow> 'd sobj \<Rightarrow> 'd json \<Rightarrow> gb_exn + 'd json" where
  "list_entry env w expand i ob out =
     (if expand
      then res_bind (fst (so_serialize (gb_now env) (rt_lib (gb_rt env)) (ob, w))) (\<lambda>t.
           res_bind (parse_text (rt_lib (gb_rt env)) (rt_statics (gb_rt env)) None t) (\<lambda>d. put_status i d out))
      else put_status i (JString (so_name ob)) out)"

definition list_statuses :: "('d, 'y) gb_env \<Rightarrow> hash \<Rightarrow> status_manager \<Rightarrow> ('d, 'y gx) rworld \<Rightarrow> gb_exn + string" where
  "list_statuses env h sm w =
     res_bind (when_arg ''_expand'' h (\<lambda>t _. cast_int t) 0) (\<lambda>expand.
     res_bind (newStatusCollectionImpl (gb_now env) sm) (\<lambda>c.
     res_bind (list_query h c) (\<lambda>c.
     res_bind (fst (co_each (gb_now env) (gb_scan env) (rw_db w) (list_entry env w (expand \<noteq> 0)) 0 JUndef c)) (\<lambda>out.
     res_bind (if json_empty out then json_set ''statuses'' (JArray []) out else Inr out) (\<lambda>out.
     Inr (json_serialize (rt_lib (gb_rt env)) out))))))"

definition do_get_global_status :: "('d, 'y) gb_env \<Rightarrow> 'd job \<Rightarrow> ('d, 'y, worker_response) hx" where
  "do_get_global_status env j =
     px_then (set_sm_base (j_base_uri (attrs j)))
     (if j_arguments (attrs j) = []
      then px_bind (\<lambda>(r, w). Some (list_statuses env (j_matrix_arguments (attrs j)) (ww_sm w) (ww_rt w), r, w)) (\<lambda>t.
           px_then (on_resp (\<lambda>r. r\<lparr>jr_content := t\<rparr>)) (px_return WORKER_SUCCESS))
      else px_bind (fetch_argument env j) (\<lambda>ob.
           px_bind (in_rt (with_obj ob (so_serialize (gb_now env) (rt_lib (gb_rt env))))) (\<lambda>(t, _).
           px_then (on_resp (\<lambda>r. r\<lparr>jr_content := t\<rparr>)) (px_return WORKER_SUCCESS))))"

section \<open>A small installation\<close>

definition demo_gb_rt :: "(string, nat gx) rt_env" where
  "demo_gb_rt = \<lparr>rt_jm = demo_jm_env, rt_compress = id, rt_uuid = (\<lambda>x. ((of_nat (gx_y x), 0), x\<lparr>gx_y := gx_y x + 1\<rparr>)), rt_echo = (\<lambda>x. (True, x)),
     rt_do_background = (\<lambda>_ _ x. (Some ''refused'', x)), rt_do = (\<lambda>_ _ x. ((None, Some []), x)),
     rt_http = (\<lambda>_ _ _ _ x. (Inr (200, [], []), x))\<rparr>"

definition demo_gb_env :: "(string, nat) gb_env" where
  "demo_gb_env = \<lparr>gb_wk = \<lparr>wk_rt = demo_gb_rt, wk_decompress = Inr, wk_fib = id, wk_jitter = id, wk_pre_request = (\<lambda>_. px_return ())\<rparr>,
     gb_poke = (\<lambda>_ y. y), gb_scan = demo_scan, gb_topo = simple_sort, gb_localstatedir = ''/var'',
     gb_fault = (\<lambda>_ x. (False, x)), gb_strerror = (\<lambda>_. ''error'')\<rparr>"

definition demo_gworld :: "(string, nat) gw" where
  "demo_gworld = \<lparr>ww_rt = \<lparr>rw_jm = demo_jm_world, rw_t = rw_t demo_rworld, rw_db = rw_db demo_rworld, rw_heap = 1,
       rw_x = \<lparr>gx_jobs = [], gx_next = 1, gx_files = (\<lambda>_. None), gx_y = 3\<rparr>\<rparr>,
     ww_sm = StatusManager_typed ''sql'', ww_afterwards = []\<rparr>"

end
