(* ===== verification/GB_GearboxStatus.thy ===== *)
theory GB_GearboxStatus
  imports GB_Gearbox
begin

text \<open>
  The handlers of \<^verbatim>\<open>workers/gearbox/WorkerGearbox.cc\<close> that change a status: it is created, its children and its progress are
  updated, and it is cancelled. A cancellation goes through several jobs: the job of the status is stopped, then the
  children are cancelled and watched, then a job that was registered for the event, and then the status is cancelled.
  Statements on the table of delayed jobs do not fail in the model.
\<close>

section \<open>Watching what is being cancelled\<close>

text \<open>The elements of \<^verbatim>\<open>in["watch"]\<close>; the length of something that is no array is -1, and the loops over it do nothing.\<close>

definition watch_list :: "'d json \<Rightarrow> gb_exn + 'd json list" where
  "watch_list d = res_bind (json_get [] ''watch'' d) (\<lambda>v. Inr (case v of JArray vs \<Rightarrow> vs | _ \<Rightarrow> []))"

definition put_watch :: "nat \<Rightarrow> 'd json \<Rightarrow> 'd json \<Rightarrow> gb_exn + 'd json" where
  "put_watch i v = json_upd_key [] ''watch'' (json_upd_at [Key ''watch''] i (\<lambda>_. Inr v))"

fun put_watches :: "nat \<Rightarrow> 'd json list \<Rightarrow> 'd json \<Rightarrow> gb_exn + 'd json" where
  "put_watches i [] d = Inr d"
| "put_watches i (v # vs) d = res_bind (put_watch i v d) (put_watches (i + 1) vs)"

text \<open>A status that failed: the one that waits for it fails with its code, and its last message is thrown.\<close>

definition watched_failed :: "('d, 'y) gb_env \<Rightarrow> 'd job \<Rightarrow> 'd sobj \<Rightarrow> ('d, 'y, 'a) hx" where
  "watched_failed env j s =
     px_bind (fetch_argument env j) (\<lambda>ob.
     px_bind (in_rt (with_obj s (so_code (gb_now env)))) (\<lambda>(c, s).
     px_bind (in_rt (with_obj ob (so_fail (gb_now env) c))) (\<lambda>_.
     px_bind (in_rt (with_obj s so_messages)) (\<lambda>(ms, _).
     px_bind (px_lift (last_message ms)) (\<lambda>m. px_throw (throw_from_code c m))))))"

text \<open>The loop over the statuses that are watched: what is left of the list at the first that has not completed.\<close>

fun watch_from :: "('d, 'y) gb_env \<Rightarrow> 'd job \<Rightarrow> nat \<Rightarrow> 'd json list \<Rightarrow> ('d, 'y, 'd json list) hx" where
  "watch_from env j i [] = px_return []"
| "watch_from env j i (v # vs) =
     px_bind (px_lift (json_as_string [Key ''watch'', Index i] v)) (\<lambda>u.
     px_bind (in_w (px_bind (px_get ww_sm) (\<lambda>sm. on_rt (sm_fetch_uri (gb_rt env) (sm_base_uri sm) u)))) (\<lambda>s.
     px_bind (in_rt (with_obj s (so_has_completed (gb_now env)))) (\<lambda>(finished, s).
     if \<not> finished then px_return (v # vs)
     else px_bind (in_rt (with_obj s (so_is_success (gb_now env)))) (\<lambda>(ok, s).
          if ok then watch_from env j (i + 1) vs else watched_failed env j s))))"

definition requeue_watch :: "('d, 'y) gb_env \<Rightarrow> 'd job \<Rightarrow> int \<Rightarrow> 'd json \<Rightarrow> ('d, 'y, worker_response) hx" where
  "requeue_watch env j delay d =
     px_bind (px_lift (renamed ''do_cancelwatch_global_status_v1'' (json_serialize (rt_lib (gb_rt env)) d) j)) (\<lambda>j.
     px_then (push_afterwards j delay) (px_return WORKER_CONTINUE))"

definition watch_again :: "'d json \<Rightarrow> 'd json list \<Rightarrow> gb_exn + 'd json" where
  "watch_again d vs = res_bind (put_watches 0 vs JUndef) (\<lambda>out. res_bind (json_get [] ''state'' d) (\<lambda>st. json_set ''state'' st out))"

definition cancel_status :: "('d, 'y) gb_env \<Rightarrow> 'd sobj \<Rightarrow> ('d, 'y, worker_response) hx" where
  "cancel_status env ob = px_bind (in_rt (with_obj ob (so_cancel (gb_now env)))) (\<lambda>_. px_return WORKER_SUCCESS)"

text \<open>The job registered for the event is run, and its status watched in turn.\<close>

definition run_on_cancel :: "('d, 'y) gb_env \<Rightarrow> 'd job \<Rightarrow> 'd job \<Rightarrow> ('d, 'y, worker_response) hx" where
  "run_on_cancel env j h =
     px_bind (resp_status (so_advance (gb_now env) 70)) (\<lambda>_.
     px_bind (in_rt (gearman_run (gb_rt env) h)) (\<lambda>r.
     px_bind (in_rt (status_of r)) (\<lambda>ob.
     px_bind (px_lift (res_bind (put_watch 0 (JString (so_uri ob)) JUndef) (json_set ''state'' (JString ''CANCELLED'')))) (requeue_watch env j 0))))"

definition do_cancelwatch_global_status :: "('d, 'y) gb_env \<Rightarrow> 'd job \<Rightarrow> ('d, 'y, worker_response) hx" where
  "do_cancelwatch_global_status env j =
     px_bind (in_rt (json_content (gb_rt env) j)) (\<lambda>d.
     px_bind (px_lift (watch_list d)) (\<lambda>vs.
     px_bind (watch_from env j 0 vs) (\<lambda>left.
     if left \<noteq> [] then px_bind (px_lift (watch_again d left)) (requeue_watch env j 10)
     else px_bind (fetch_argument env j) (\<lambda>s.
          px_bind (px_lift (get_str ''state'' d)) (\<lambda>st.
          if st = ''CANCELLING'' then
            px_bind (in_rt (so_on (gb_rt env) EVENT_CANCEL s)) (\<lambda>h. case h of
              Some h \<Rightarrow> run_on_cancel env j h
            | None \<Rightarrow> cancel_status env s)
          else if st = ''CANCELLED'' then cancel_status env s
          else px_return WORKER_SUCCESS)))))"

section \<open>Waiting for the state\<close>

text \<open>A child is told to cancel by a request to its URI. One that fails at once ends the cancellation.\<close>

definition cancel_child :: "('d, 'y) gb_env \<Rightarrow> string \<Rightarrow> ('d, 'y, string) hx" where
  "cancel_child env child =
     px_bind (in_rt (px_bind (px_lift (Uri child)) (\<lambda>u. on_jm (job_uri METHOD_POST u)))) (\<lambda>cj.
     px_bind (in_rt (rest_run (gb_rt env) False (upd_attrs (\<lambda>a. a\<lparr>j_content := ''{\"state\":\"CANCELLED\"}''\<rparr>) cj))) (\<lambda>r.
     px_bind (in_rt (status_of r)) (\<lambda>ob.
     px_bind (in_rt (with_obj ob (so_has_completed (gb_now env)))) (\<lambda>(finished, ob).
     if \<not> finished then px_return (so_uri ob)
     else px_bind (in_rt (with_obj ob (so_is_success (gb_now env)))) (\<lambda>(ok, ob).
          if ok then px_return (so_uri ob)
          else px_bind (in_rt (with_obj ob so_messages)) (\<lambda>(ms, _).
               px_bind (px_lift (last_message ms)) (\<lambda>m. px_throw (throw_from_code (jr_code r) m))))))))"

fun cancel_children :: "('d, 'y) gb_env \<Rightarrow> nat \<Rightarrow> string list \<Rightarrow> 'd json \<Rightarrow> ('d, 'y, 'd json) hx" where
  "cancel_children env i [] d = px_return d"
| "cancel_children env i (c # cs) d =
     px_bind (cancel_child env c) (\<lambda>u. px_bind (px_lift (put_watch i (JString u) d)) (cancel_children env (i + 1) cs))"

definition start_cancel :: "('d, 'y) gb_env \<Rightarrow> 'd job \<Rightarrow> string list \<Rightarrow> ('d, 'y, worker_response) hx" where
  "start_cancel env j cs =
     px_bind (px_lift (json_set ''watch'' (JArray []) JUndef)) (\<lambda>d.
     px_bind (cancel_children env 0 cs d) (\<lambda>d.
     px_bind (px_lift (json_set ''state'' (JString ''CANCELLING'') d)) (\<lambda>d.
     px_bind (px_lift (renamed ''do_cancelwatch_global_status_v1'' (json_serialize (rt_lib (gb_rt env)) d) j))
       (do_cancelwatch_global_status env))))"

text \<open>
  The status goes to CANCELLING or the job is tried again. When the cancellation cannot be started the status goes
  to COMPLETED and the error is thrown on. Reading the children does not throw.
\<close>

definition cancel_stopped :: "('d, 'y) gb_env \<Rightarrow> 'd job \<Rightarrow> 'd sobj \<Rightarrow> ('d, 'y, worker_response) hx" where
  "cancel_stopped env j s =
     px_bind (in_rt (with_obj s (so_set_state (gb_now env) STATE_CANCELLING))) (\<lambda>(ok, s).
     if \<not> ok then px_return WORKER_RETRY
     else px_bind (in_rt (with_obj s so_children)) (\<lambda>(cs, s).
          px_catch (start_cancel env j cs) (\<lambda>e.
            if e = NullDereference then px_throw e
            else px_then (in_rt (with_obj s (so_set_state (gb_now env) STATE_COMPLETED))) (px_throw e))))"

definition unexpected_transition :: "string \<Rightarrow> gb_exn" where
  "unexpected_transition st = ERR_INTERNAL_SERVER_ERROR (''Unexpected state transition requested: '' @ st)"

definition do_pollstate_global_status :: "('d, 'y) gb_env \<Rightarrow> 'd job \<Rightarrow> ('d, 'y, worker_response) hx" where
  "do_pollstate_global_status env j =
     px_bind (fetch_argument env j) (\<lambda>s.
     px_bind (in_rt (json_content (gb_rt env) j)) (\<lambda>d.
     px_bind (in_rt (with_obj s (so_state (gb_now env)))) (\<lambda>(cur, s).
     if cur = STATE_CANCELLED then px_return WORKER_SUCCESS
     else px_bind (px_lift (get_str ''state'' d)) (\<lambda>st.
       if st = ''STOPPED'' \<and> (cur = STATE_STOPPED \<or> cur = STATE_COMPLETED) then
         (if json_hasKey ''next_state'' d then
            px_bind (resp_status (so_advance (gb_now env) 40)) (\<lambda>_.
            px_bind (px_lift (get_str ''next_state'' d)) (\<lambda>nst.
            if nst = ''CANCELLED'' then cancel_stopped env j s else px_throw (unexpected_transition nst)))
          else px_return WORKER_SUCCESS)
       else px_then (push_afterwards j 10) (px_return WORKER_CONTINUE)))))"

section \<open>Stopping\<close>

definition set_row_times :: "string \<Rightarrow> int \<Rightarrow> 'y gx \<Rightarrow> 'y gx" where
  "set_row_times n t x = x\<lparr>gx_jobs := map (\<lambda>r. if dr_status r = Some n then r\<lparr>dr_time := t\<rparr> else r) (gx_jobs x)\<rparr>"

text \<open>The time of the delayed job of a status is changed in the table and in the status, and the daemon is told.\<close>

definition reschedule :: "('d, 'y) gb_env \<Rightarrow> int \<Rightarrow> 'd sobj \<Rightarrow> ('d, 'y, unit) hx" where
  "reschedule env t s =
     px_bind (in_rt (on_x (\<lambda>x. ((), set_row_times (so_name s) t x)))) (\<lambda>_.
     px_bind (in_rt (with_obj s (so_ytime t))) (\<lambda>_. in_rt (poke_delay_daemon env)))"

definition stop_idle :: "('d, 'y) gb_env \<Rightarrow> 'd sobj \<Rightarrow> ('d, 'y, unit) hx" where
  "stop_idle env s =
     px_bind (in_rt (with_obj s so_concurrency)) (\<lambda>(n, s).
     if n \<noteq> 0 then px_return ()
     else px_catch (px_bind (in_rt (with_obj s (so_checkpoint (gb_now env)))) (\<lambda>_. px_return ()))
            (\<lambda>e. if e = WorkerStop then px_return () else px_throw e))"

text \<open>A job that waits is made to run at once; one that no process works on is marked as stopped.\<close>

definition stop_running :: "('d, 'y) gb_env \<Rightarrow> 'd sobj \<Rightarrow> ('d, 'y, bool) hx" where
  "stop_running env s =
     px_bind (in_rt (with_obj s (so_set_state (gb_now env) STATE_STOPPING))) (\<lambda>(ok, s).
     if \<not> ok then px_return False
     else px_bind (in_rt (with_obj s (so_get_ytime (gb_now env)))) (\<lambda>(y, s).
          px_then (if y \<ge> 0 then reschedule env 0 s else stop_idle env s) (px_return True)))"

definition poll_content :: string where
  "poll_content = ''{\"state\": \"STOPPED\",\"next_state\":\"CANCELLED\"}''"

definition do_stop_global_status :: "('d, 'y) gb_env \<Rightarrow> 'd job \<Rightarrow> ('d, 'y, worker_response) hx" where
  "do_stop_global_status env j =
     px_bind (px_lift (check_event (event_status j))) (\<lambda>_.
     px_bind (resp_status (so_advance (gb_now env) 10)) (\<lambda>_.
     px_bind (fetch_argument env j) (\<lambda>s.
     px_bind (in_rt (with_obj s (so_state (gb_now env)))) (\<lambda>(old, s).
     px_bind (if old = STATE_PENDING \<or> old = STATE_RUNNING then stop_running env s else px_return True) (\<lambda>go.
     if \<not> go then px_return WORKER_RETRY
     else px_bind (px_lift (renamed ''do_pollstate_global_status_v1'' poll_content j)) (do_pollstate_global_status env))))))"

section \<open>Requests\<close>

text \<open>A job registered to check first is run afterwards, and stops the status when it has completed.\<close>

definition post_cancel :: "('d, 'y) gb_env \<Rightarrow> 'd job \<Rightarrow> 'd sobj \<Rightarrow> ('d, 'y, worker_response) hx" where
  "post_cancel env j s =
     px_bind (in_rt (with_obj s (so_state (gb_now env)))) (\<lambda>(old, s).
     if old = STATE_CANCELLED then px_return WORKER_SUCCESS
     else if old = STATE_STOPPING \<or> old = STATE_CANCELLING
     then px_throw (ERR_CONFLICT (''state is currently '' @ state2str old))
     else px_bind (in_rt (so_on (gb_rt env) EVENT_PRECANCEL s)) (\<lambda>h. case h of
       Some h \<Rightarrow> px_bind (px_lift (renamed ''do_stop_global_status_v1'' (j_content (attrs j)) j)) (\<lambda>stop.
         px_then (push_afterwards (job_on JEVENT_COMPLETED stop h) 0) (px_return WORKER_CONTINUE))
     | None \<Rightarrow> do_stop_global_status env j))"

definition do_post_global_status :: "('d, 'y) gb_env \<Rightarrow> 'd job \<Rightarrow> ('d, 'y, worker_response) hx" where
  "do_post_global_status env j =
     (if j_arguments (attrs j) = [] then px_throw (ERR_BAD_REQUEST ''missing required resource name'')
      else px_bind (fetch_argument env j) (\<lambda>s.
      px_bind (in_rt (json_content (gb_rt env) j)) (\<lambda>d.
      if json_hasKey ''state'' d then
        px_bind (resp_status (so_advance (gb_now env) 1)) (\<lambda>_.
        px_bind (px_lift (get_str ''state'' d)) (\<lambda>st.
        if st = ''CANCELLED'' then post_cancel env j s
        else px_throw (ERR_BAD_REQUEST (''transition to state '' @ [CHR 0x27] @ st @ [CHR 0x27] @ '' unsupported''))))
      else px_then (if json_hasKey ''ytime'' d then px_bind (px_lift (get_i64 ''ytime'' d)) (\<lambda>t. reschedule env t s) else px_return ())
             (px_return WORKER_SUCCESS))))"

section \<open>Creating and updating\<close>

definition create_from :: "('d, 'y) gb_env \<Rightarrow> 'd json \<Rightarrow> ('d, 'y, unit) hx" where
  "create_from env d =
     px_bind (px_lift (get_str ''name'' d)) (\<lambda>n.
     px_bind (px_lift (get_str ''operation'' d)) (\<lambda>op.
     px_bind (px_lift (get_str ''uri'' d)) (\<lambda>u.
     px_bind (px_lift (get_str ''component'' d)) (\<lambda>compo.
     px_bind (in_w (px_bind (px_get ww_sm) (\<lambda>sm. on_rt (sm_create (gb_now env) sm n op u compo)))) (\<lambda>s.
     px_when (json_hasKey ''parent_uri'' d)
       (px_bind (px_lift (get_str ''parent_uri'' d)) (\<lambda>p.
        px_bind (in_rt (with_obj s (so_parent_uri (gb_now env) p))) (\<lambda>_. px_return ()))))))))"

definition do_create_global_status :: "('d, 'y) gb_env \<Rightarrow> 'd job \<Rightarrow> ('d, 'y, worker_response) hx" where
  "do_create_global_status env j =
     px_bind (in_rt (json_content (gb_rt env) j)) (\<lambda>d.
     px_then (set_sm_base (j_base_uri (attrs j)))
     (px_then (px_catch (create_from env d) (\<lambda>e.
         if e = NullDereference then px_throw e else px_throw (ERR_INTERNAL_SERVER_ERROR (an_message (answer_of e)))))
       (px_return WORKER_SUCCESS)))"

fun add_children :: "('d, 'y) gb_env \<Rightarrow> nat \<Rightarrow> 'd json list \<Rightarrow> 'd sobj \<Rightarrow> ('d, 'y, unit) hx" where
  "add_children env i [] s = px_return ()"
| "add_children env i (v # vs) s =
     px_bind (px_lift (json_as_string [Key ''children'', Index i] v)) (\<lambda>c.
     px_bind (in_rt (so_add_child (gb_now env) c s)) (add_children env (i + 1) vs))"

definition do_update_global_status :: "('d, 'y) gb_env \<Rightarrow> 'd job \<Rightarrow> ('d, 'y, worker_response) hx" where
  "do_update_global_status env j =
     px_bind (in_rt (json_content (gb_rt env) j)) (\<lambda>d.
     px_bind (fetch_argument env j) (\<lambda>s.
     px_then
      (if json_hasKey ''children'' d then
         px_bind (px_lift (json_get [] ''children'' d)) (\<lambda>cs. case cs of JArray vs \<Rightarrow> add_children env 0 vs s | _ \<Rightarrow> px_return ())
       else if json_hasKey ''progress'' d then
         px_bind (px_lift (res_bind (json_get [] ''progress'' d) (json_as_int [Key ''progress'']))) (\<lambda>p.
         px_bind (in_rt (with_obj s (so_advance (gb_now env) (wrap_u32 p)))) (\<lambda>_. px_return ()))
       else px_throw (ERR_BAD_REQUEST ''unexpected content for do_update_global_status_v1''))
      (px_return WORKER_SUCCESS)))"

section \<open>A status that has not started\<close>

lemma q_lazy_state:
  assumes "q_lazy now s_state q = (Inr st, q')"
  shows "q_loaded q' \<and> s_state (q_obj q') = st"
  using assms by (auto simp: q_lazy_def really_load_def sx_defs split: if_splits prod.splits sum.splits option.splits)

lemma sql_view_back: "sql_back q w = (ob, w') \<Longrightarrow> sql_view ob w' = q"
  by (auto simp: sql_back_def sql_view_def)

lemma sql_back_view: "(case ob of SqlObj _ _ _ _ _ _ \<Rightarrow> True | _ \<Rightarrow> False) \<Longrightarrow> sql_back (sql_view ob w) w = (ob, w)"
  by (cases ob) (simp_all add: sql_back_def sql_view_def)

text \<open>An SQL status that is PENDING does not go to STOPPING.\<close>

lemma pending_not_stopping:
  assumes "so_state now (ob, w) = (Inr STATE_PENDING, ob', w')" and "case ob of SqlObj _ _ _ _ _ _ \<Rightarrow> True | _ \<Rightarrow> False"
  shows "so_set_state now STATE_STOPPING (ob', w') = (Inr False, ob', w')"
proof -
  obtain q where q: "q_lazy now s_state (sql_view ob w) = (Inr STATE_PENDING, q)" "sql_back q w = (ob', w')"
    using assms by (cases ob) (auto simp: so_state_def obj_call_def sql_vt_def split: prod.splits)
  have ob': "case ob' of SqlObj _ _ _ _ _ _ \<Rightarrow> True | _ \<Rightarrow> False" using q(2) by (auto simp: sql_back_def)
  have "q_set_state now STATE_STOPPING q = (Inr False, q)"
    using q_lazy_state [OF q(1)] by (simp add: q_set_state_def set_state_def validStateTransition_def sx_defs)
  then show ?thesis
    using ob' sql_view_back [OF q(2)] sql_back_view [OF ob', of w'] by (cases ob') (simp_all add: so_set_state_def obj_call_def sql_vt_def)
qed

text \<open>
  C40: a status that is PENDING in the database is not stopped. The transition to STOPPING is refused, so the handler asks to be
  run again before it gets to the table of delayed jobs; nothing is changed, and the same happens every time
  until the job has started. The branch below it, which makes a delayed job run at once, is written for PENDING as
  well.
\<close>

theorem stop_pending_retries:
  assumes "check_event (event_status j) = Inr ()"
    and "resp_status (so_advance (gb_now env) 10) x = Some (Inr (), x1)"
    and "fetch_argument env j x1 = Some (Inr s, x2)" and "case s of SqlObj _ _ _ _ _ _ \<Rightarrow> True | _ \<Rightarrow> False"
    and "in_rt (with_obj s (so_state (gb_now env))) x2 = Some (Inr (STATE_PENDING, s'), x3)"
  shows "do_stop_global_status env j x = Some (Inr WORKER_RETRY, x3)"
proof -
  obtain r w where x2: "x2 = (r, w)" by (cases x2)
  obtain t where st: "so_state (gb_now env) (s, ww_rt w) = (Inr STATE_PENDING, s', t)" and x3: "x3 = (r, w\<lparr>ww_rt := t\<rparr>)"
    using assms(5) by (auto simp: x2 in_rt_def in_w_def on_rt_def with_obj_def split: option.splits prod.splits sum.splits)
  have "in_rt (with_obj s' (so_set_state (gb_now env) STATE_STOPPING)) x3 = Some (Inr (False, s'), x3)"
    using pending_not_stopping [OF st assms(4)] by (simp add: x3 in_rt_def in_w_def on_rt_def with_obj_def)
  with assms(1-3,5) show ?thesis
    by (simp add: do_stop_global_status_def stop_running_def px_bind_def px_lift_def px_return_def)
qed

definition demo_pending :: "(string, nat) gw" where
  "demo_pending = demo_gworld\<lparr>ww_rt := (ww_rt demo_gworld)\<lparr>rw_db := (rw_db demo_rworld)\<lparr>db_status := [''s'' \<mapsto> demo_row\<lparr>r_state := ''PENDING''\<rparr>]\<rparr>\<rparr>\<rparr>"

definition demo_stop_job :: "string job" where
  "demo_stop_job = Job (new_job_attrs\<lparr>j_name := ''do_stop_global_status_v1'', j_arguments := [''s'']\<rparr>) [] None"

definition demo_stop_response :: "string job_response" where
  "demo_stop_response = new_response\<lparr>jr_status := Some (JobObj (new_status 7) JUndef GearmanKind demo_stop_job)\<rparr>"

theorem stop_pending_retries_witness:
  "\<exists>x. do_stop_global_status demo_gb_env demo_stop_job (demo_stop_response, demo_pending) = Some (Inr WORKER_RETRY, x)"
proof -
  have now: "gb_now demo_gb_env = 7" by (simp add: demo_gb_env_def demo_gb_rt_def demo_jm_env_def)
  obtain x1 where 1: "resp_status (so_advance 7 10) (demo_stop_response, demo_pending) = Some (Inr (), x1, demo_pending)"
    by (auto simp: resp_status_def demo_stop_response_def so_advance_def obj_call_def base_vt_def Status_progress_def sx_defs Let_def
        new_status_def)
  define s :: "string sobj" where "s = SqlObj (set_name 7 ''s'' (set_base_uri [] (new_status 7))) False True False False False"
  have 2: "fetch_argument demo_gb_env demo_stop_job (x1, demo_pending) = Some (Inr s, x1, demo_pending)"
    unfolding fetch_argument_def gb_fetch_def now
    by (simp add: first_argument_def demo_stop_job_def px_defs in_w_def on_rt_def sm_fetch_def newStatusImpl_def demo_pending_def
        demo_gworld_def StatusManager_typed_def string_to_type_def q_load_def sql_view_def sql_back_def s_def)
  have "fst (so_state 7 (s, ww_rt demo_pending)) = Inr STATE_PENDING"
    by (simp add: so_state_def obj_call_def s_def sql_vt_def q_lazy_def really_load_def sx_defs q_row_def sql_view_def demo_pending_def
        demo_gworld_def demo_row_def load_row_def set_name_def touch_def set_base_uri_def new_status_def sql_back_def Let_def
        split: prod.split)
      code_simp
  then obtain s' t where "so_state 7 (s, ww_rt demo_pending) = (Inr STATE_PENDING, s', t)" by (metis prod.collapse)
  then have 3: "in_rt (with_obj s (so_state 7)) (x1, demo_pending) = Some (Inr (STATE_PENDING, s'), x1, demo_pending\<lparr>ww_rt := t\<rparr>)"
    by (simp add: in_rt_def in_w_def on_rt_def with_obj_def)
  have "check_event (event_status demo_stop_job) = Inr ()" by (simp add: check_event_def demo_stop_job_def)
  from stop_pending_retries [OF this, of demo_gb_env] 1 2 3 show ?thesis unfolding now by (auto simp: s_def)
qed

end
