(* ===== verification/GB_Agents.thy ===== *)
theory GB_Agents
  imports GB_GearboxStatus
begin

text \<open>
  The handlers of \<^verbatim>\<open>workers/gearbox/WorkerGearbox.cc\<close> that run the agents of a request level by level. The levels are chained
  before the first one runs: the agents of a level carry, as the handler of their completion, the job that runs the next
  level. Several agents of a level meet in a counter, a file that each of them decrements; the one that takes it to
  zero starts the next level. Every system call on the counter may fail.
\<close>

section \<open>Counters\<close>

definition put_file :: "string \<Rightarrow> string option \<Rightarrow> (('d, 'y gx) rworld, gb_exn, unit) px" where
  "put_file p t = on_x (\<lambda>x. ((), x\<lparr>gx_files := (gx_files x)(p := t)\<rparr>))"

text \<open>A write that fails leaves what the failure leaves.\<close>

definition write_file :: "('d, 'y) gb_env \<Rightarrow> string \<Rightarrow> string \<Rightarrow> (('d, 'y gx) rworld, gb_exn, unit) px" where
  "write_file env p t = px_then (sys_call env ''open_write'' (''Could not open '' @ p))
     (px_then (put_file p (Some t)) (sys_call env ''write'' (''Failed to close '' @ p)))"

definition slurp :: "('d, 'y) gb_env \<Rightarrow> string \<Rightarrow> (('d, 'y gx) rworld, gb_exn, string) px" where
  "slurp env p =
     px_then (sys_call env ''open_read'' (''Could not open '' @ p))
     (px_bind (px_get (\<lambda>w. gx_files (rw_x w) p)) (\<lambda>t. case t of
        None \<Rightarrow> throw_libc env (''Could not open '' @ p) | Some t \<Rightarrow> px_return t))"

definition counter_path :: "('d, 'y) gb_env \<Rightarrow> string \<Rightarrow> string" where
  "counter_path env i = gb_localstatedir env @ ''/gearbox/db/counters/'' @ i"

definition make_counter :: "('d, 'y) gb_env \<Rightarrow> nat \<Rightarrow> (('d, 'y gx) rworld, gb_exn, string) px" where
  "make_counter env start =
     px_bind (new_id (gb_rt env) ''i'') (\<lambda>i.
     px_then (write_file env (counter_path env i) (nat_dec start)) (px_return i))"

text \<open>The body of the \<^verbatim>\<open>try\<close> block.\<close>

definition count_down :: "('d, 'y) gb_env \<Rightarrow> string \<Rightarrow> (('d, 'y gx) rworld, gb_exn, worker_response) px" where
  "count_down env p =
     px_then (sys_call env ''open'' (''failed to open '' @ p @ '' for locking''))
     (px_then (sys_call env ''lock'' (''failed to get exclusive lock on '' @ p))
     (px_bind (slurp env p) (\<lambda>t.
      px_bind (px_lift (cast_int t)) (\<lambda>v.
      let newval = wrap_s32 (v - 1) in
      px_then (write_file env p (int_dec newval))
      (px_then (sys_call env ''unlock'' (''failed to unlock '' @ p))
      (px_then (sys_call env ''close'' (''failed to close '' @ p @ '' after locking''))
      (if newval > 0 then px_return WORKER_CONTINUE
       else px_then (sys_call env ''remove'' (''boost::filesystem::remove: '' @ p)) (px_then (put_file p None) (px_return WORKER_SUCCESS)))))))))"

text \<open>A status made from a document, as the status of a response; of its members only those of the base class are called.\<close>

definition json_obj :: "'d status \<Rightarrow> 'd sobj" where
  "json_obj s = JobObj s JUndef GearmanKind (Job new_job_attrs [] None)"

definition pass_on_failure :: "'d status option \<Rightarrow> ('d, 'y, unit) hx" where
  "pass_on_failure es = (case es of
     None \<Rightarrow> px_return ()
   | Some s \<Rightarrow>
       px_then (px_when (s_progress s = 100 \<and> s_code s \<noteq> 0) (on_resp (\<lambda>r. r\<lparr>jr_status := Some (json_obj s)\<rparr>)))
         (px_lift (check_event es)))"

definition do_decrement_global_counter :: "('d, 'y) gb_env \<Rightarrow> 'd job \<Rightarrow> ('d, 'y, worker_response) hx" where
  "do_decrement_global_counter env j =
     px_then (pass_on_failure (event_status j))
     (case j_arguments (attrs j) of
        [] \<Rightarrow> px_throw (ERR_BAD_REQUEST ''missing counter id'')
      | i # _ \<Rightarrow> in_rt (px_bind (px_get (\<lambda>w. gx_files (rw_x w) (counter_path env i))) (\<lambda>f.
          if f = None then px_return WORKER_SUCCESS
          else px_catch (count_down env (counter_path env i)) (\<lambda>e. if e = NullDereference then px_throw e else px_return WORKER_RETRY))))"

section \<open>Chaining the levels\<close>

definition agent_progress :: "nat \<Rightarrow> nat \<Rightarrow> nat" where
  "agent_progress n level = (let p = (100 div n) * (level - 1) in if p = 0 then 1 else p)"

text \<open>The job that the agents of a level start when they complete: the next level, or the counter before it.\<close>

definition level_handler :: "('d, 'y) gb_env \<Rightarrow> nat \<Rightarrow> 'd job \<Rightarrow> (('d, 'y gx) rworld, gb_exn, 'd job) px" where
  "level_handler env n nextLevel =
     (if n = 1 then px_return nextLevel
      else px_bind (make_counter env n) (\<lambda>i.
           px_bind (with_jm [] [] (job_named (rt_jm (gb_rt env)) ''do_decrement_global_counter_v1'')) (\<lambda>dec.
           px_return (upd_attrs (add_argument i) (job_on JEVENT_COMPLETED nextLevel (upd_attrs (\<lambda>a. a\<lparr>j_type := JOB_SYNC\<rparr>) dec))))))"

definition put_job :: "('d, 'y) gb_env \<Rightarrow> nat \<Rightarrow> 'd job \<Rightarrow> 'd json \<Rightarrow> gb_exn + 'd json" where
  "put_job env i j d =
     res_bind (json_upd_key [] ''jobs'' (json_upd_at [Key ''jobs''] i (json_set ''name'' (JString (j_name (attrs j))))) d) (\<lambda>d.
     res_bind (job_serialize (rt_lib (gb_rt env)) (rt_statics (gb_rt env)) j) (\<lambda>t.
     res_bind (parse_text (rt_lib (gb_rt env)) (rt_statics (gb_rt env)) None t) (\<lambda>e.
     json_upd_key [] ''jobs'' (json_upd_at [Key ''jobs''] i (json_set ''envelope'' e)) d)))"

fun put_jobs :: "('d, 'y) gb_env \<Rightarrow> nat \<Rightarrow> 'd job list \<Rightarrow> 'd json \<Rightarrow> gb_exn + 'd json" where
  "put_jobs env i [] d = Inr d"
| "put_jobs env i (j # js) d = res_bind (put_job env i j d) (put_jobs env (i + 1) js)"

definition with_content :: "string \<Rightarrow> 'd job \<Rightarrow> 'd job" where
  "with_content c = upd_attrs (\<lambda>a. a\<lparr>j_content := c\<rparr>)"

text \<open>From the last level to the first; the levels come in that order.\<close>

fun chain_levels :: "('d, 'y) gb_env \<Rightarrow> nat \<Rightarrow> 'd job \<Rightarrow> 'd job list list \<Rightarrow> 'd json \<Rightarrow> 'd job
    \<Rightarrow> (('d, 'y gx) rworld, gb_exn, 'd job) px" where
  "chain_levels env n up [] run_level nextLevel = px_return nextLevel"
| "chain_levels env n up (b # bs) run_level nextLevel =
     px_bind (px_lift (json_upd_key [] ''jobs'' (\<lambda>_. Inr JUndef) run_level)) (\<lambda>run_level.
     px_bind (level_handler env (length b) nextLevel) (\<lambda>h.
     px_bind (px_lift (put_jobs env 0 (map (job_on JEVENT_COMPLETED h) b) run_level)) (\<lambda>run_level.
     let up = with_content (''{\"progress\": '' @ nat_dec (agent_progress n (length bs + 1)) @ ''}'') up in
     chain_levels env n up bs run_level
       (with_content (json_serialize (rt_lib (gb_rt env)) run_level) (job_on JEVENT_STARTED up nextLevel)))))"

definition do_run_global_agents :: "('d, 'y) gb_env \<Rightarrow> 'd job \<Rightarrow> ('d, 'y, worker_response) hx" where
  "do_run_global_agents env j =
     px_bind (in_rt (json_content (gb_rt env) j)) (\<lambda>d.
     px_bind (resp_status (\<lambda>(ob, w). (Inr ob, ob, w))) (\<lambda>ob.
     px_bind (in_w (set_parent (so_uri ob))) (\<lambda>_.
     px_bind (px_lift (json_get [] ''agents'' d)) (\<lambda>agents.
     px_bind (in_rt (on_jm (job_queue (rt_jm (gb_rt env)) (gb_topo env) agents))) (\<lambda>q.
     px_bind (in_rt (on_jm (job_named (rt_jm (gb_rt env)) ''do_update_global_status_v1''))) (\<lambda>up.
     px_bind (px_lift (renamed ''do_runlevel_global_agents_v1'' ''{\"jobs\":[]}'' j)) (\<lambda>nextLevel.
     px_bind (in_rt (with_jm [] [] (build_runnable_jobs (rt_jm (gb_rt env))))) (\<lambda>_.
     px_bind (px_lift (json_get [] ''content'' d)) (\<lambda>c.
     px_bind (px_lift (json_set ''content'' c JUndef)) (\<lambda>run_level.
     px_bind (in_rt (chain_levels env (length q) (upd_attrs (\<lambda>a. add_argument (so_name ob) (a\<lparr>j_type := JOB_SYNC\<rparr>)) up)
        (rev q) run_level nextLevel)) (\<lambda>nextLevel.
     px_then (push_afterwards nextLevel 0) (px_return WORKER_CONTINUE))))))))))))"

section \<open>Running a level\<close>

definition agent_event :: "'d status option \<Rightarrow> gb_exn + unit" where
  "agent_event es = (case es of
     None \<Rightarrow> Inr ()
   | Some s \<Rightarrow>
       if s_progress s \<noteq> 100 then Inl (StdError ''is_success is invalid on in-complete status'')
       else if s_code s = 0 then Inr ()
       else Inl (throw_from_code (s_code s) (if s_messages s = [] then ''Unknown error from agent'' else last (s_messages s))))"

definition level_job :: "('d, 'y) gb_env \<Rightarrow> 'd json \<Rightarrow> nat \<Rightarrow> 'd json \<Rightarrow> ('d, 'y, unit) hx" where
  "level_job env d i e =
     px_bind (px_lift (res_bind (json_get [Key ''jobs'', Index i] ''name'' e) (json_as_string [Key ''jobs'', Index i, Key ''name'']))) (\<lambda>n.
     px_bind (px_lift (json_get [Key ''jobs'', Index i] ''envelope'' e)) (\<lambda>v.
     px_bind (in_rt (on_jm (job_of_envelope (rt_jm (gb_rt env)) n v))) (\<lambda>agent.
     px_bind (px_lift (get_str ''content'' d)) (\<lambda>c. push_afterwards (with_content c agent) 0))))"

fun level_jobs :: "('d, 'y) gb_env \<Rightarrow> 'd json \<Rightarrow> nat \<Rightarrow> 'd json list \<Rightarrow> ('d, 'y, unit) hx" where
  "level_jobs env d i [] = px_return ()"
| "level_jobs env d i (e # es) = px_then (level_job env d i e) (level_jobs env d (i + 1) es)"

text \<open>The last level of the chain has no jobs. Something that is no array has length -1, and no job is run for it either.\<close>

definition do_runlevel_global_agents :: "('d, 'y) gb_env \<Rightarrow> 'd job \<Rightarrow> ('d, 'y, worker_response) hx" where
  "do_runlevel_global_agents env j =
     px_bind (px_lift (agent_event (event_status j))) (\<lambda>_.
     px_bind (in_rt (json_content (gb_rt env) j)) (\<lambda>d.
     px_bind (px_lift (json_get [] ''jobs'' d)) (\<lambda>js. case js of
       JArray [] \<Rightarrow> px_return WORKER_SUCCESS
     | JArray es \<Rightarrow> px_then (level_jobs env d 0 es) (px_return WORKER_CONTINUE)
     | _ \<Rightarrow> px_return WORKER_CONTINUE)))"

section \<open>The counter counts\<close>

text \<open>No system call fails.\<close>

definition calm :: "('d, 'y) gb_env \<Rightarrow> bool" where
  "calm env \<longleftrightarrow> gb_fault env = (\<lambda>_ x. (False, x))"

lemma sys_call_calm: "calm env \<Longrightarrow> sys_call env c why w = Some (Inr (), w)"
  by (simp add: calm_def sys_call_def on_x_def px_defs)

definition set_file :: "string \<Rightarrow> string option \<Rightarrow> ('d, 'y gx) rworld \<Rightarrow> ('d, 'y gx) rworld" where
  "set_file p t w = w\<lparr>rw_x := (rw_x w)\<lparr>gx_files := (gx_files (rw_x w))(p := t)\<rparr>\<rparr>"

abbreviation file_of :: "string \<Rightarrow> ('d, 'y gx) rworld \<Rightarrow> string option" where
  "file_of p w \<equiv> gx_files (rw_x w) p"

lemma file_of_set: "file_of p (set_file q t w) = (if p = q then t else file_of p w)"
  by (simp add: set_file_def)

lemma set_file_twice: "set_file p t (set_file p u w) = set_file p t w"
  by (simp add: set_file_def)

lemma put_file_run: "put_file p t w = Some (Inr (), set_file p t w)"
  by (simp add: put_file_def set_file_def on_x_def)

lemma write_file_calm: "calm env \<Longrightarrow> write_file env p t w = Some (Inr (), set_file p (Some t) w)"
  by (simp add: write_file_def px_then_def px_bind_def sys_call_calm put_file_run)

lemma nat_dec_int: "nat_dec n = int_dec (int n)"
  by (simp add: int_dec_def)

lemma slurp_calm: "calm env \<Longrightarrow> file_of p w = Some t \<Longrightarrow> slurp env p w = Some (Inr t, w)"
  by (simp add: slurp_def px_then_def px_bind_def sys_call_calm px_get_def px_return_def)

lemma cast_counter: "n < 2 ^ 31 \<Longrightarrow> cast_int (nat_dec n) = Inr (int n)"
  by (simp add: nat_dec_int cast_int_def)

lemma counter_pred: "0 < n \<Longrightarrow> n < 2 ^ 31 \<Longrightarrow> wrap_s32 (int n - 1) = int (n - 1)"
  by (subst wrap_s32_id) (auto simp: of_nat_diff)

lemma count_down_calm:
  assumes "calm env" and "file_of p w = Some (nat_dec n)" and "0 < n" and "n < 2 ^ 31"
  shows "count_down env p w = Some (if n = 1 then (Inr WORKER_SUCCESS, set_file p None w)
    else (Inr WORKER_CONTINUE, set_file p (Some (nat_dec (n - 1))) w))"
proof -
  have "int_dec (int (n - 1)) = nat_dec (n - 1)" by (simp add: nat_dec_int)
  then show ?thesis
    using assms by (simp add: count_down_def px_then_def px_bind_def sys_call_calm slurp_calm px_lift_def cast_counter counter_pred
        write_file_calm px_return_def put_file_run set_file_twice Let_def)
qed

text \<open>An agent of the level whose completion is a success.\<close>

definition counts :: "string \<Rightarrow> 'd job \<Rightarrow> bool" where
  "counts i j \<longleftrightarrow> (\<exists>as. j_arguments (attrs j) = i # as) \<and> check_event (event_status j) = Inr ()"

lemma pass_on_success: "check_event es = Inr () \<Longrightarrow> pass_on_failure es x = Some (Inr (), x)"
  by (cases es) (auto simp: pass_on_failure_def check_event_def px_defs last_message_def split: if_splits)

lemma decrement_run:
  assumes "counts i j"
  shows "do_decrement_global_counter env j (r, w) = (case file_of (counter_path env i) (ww_rt w) of
     None \<Rightarrow> Some (Inr WORKER_SUCCESS, r, w)
   | Some _ \<Rightarrow> in_rt (px_catch (count_down env (counter_path env i))
       (\<lambda>e. if e = NullDereference then px_throw e else px_return WORKER_RETRY)) (r, w))"
  using assms
  by (auto simp: counts_def do_decrement_global_counter_def px_then_def px_bind_def pass_on_success in_rt_def in_w_def on_rt_def
      px_get_def px_return_def split: option.split)

definition set_counter :: "string \<Rightarrow> string option \<Rightarrow> ('d, 'y) gw \<Rightarrow> ('d, 'y) gw" where
  "set_counter p t w = w\<lparr>ww_rt := set_file p t (ww_rt w)\<rparr>"

lemma decrement_calm:
  assumes "calm env" and "counts i j" and "file_of (counter_path env i) (ww_rt w) = Some (nat_dec n)" and "0 < n" and "n < 2 ^ 31"
  shows "do_decrement_global_counter env j (r, w) = Some (if n = 1 then (Inr WORKER_SUCCESS, r, set_counter (counter_path env i) None w)
    else (Inr WORKER_CONTINUE, r, set_counter (counter_path env i) (Some (nat_dec (n - 1))) w))"
  using assms by (simp add: decrement_run in_rt_def in_w_def on_rt_def px_catch_def count_down_calm set_counter_def)

fun decrements :: "('d, 'y) gb_env \<Rightarrow> 'd job list \<Rightarrow> ('d, 'y, worker_response list) hx" where
  "decrements env [] = px_return []"
| "decrements env (j # js) = px_bind (do_decrement_global_counter env j) (\<lambda>r. px_bind (decrements env js) (\<lambda>rs. px_return (r # rs)))"

lemma decrements_gone:
  assumes "list_all (counts i) js" and "file_of (counter_path env i) (ww_rt w) = None"
  shows "decrements env js (r, w) = Some (Inr (replicate (length js) WORKER_SUCCESS), r, w)"
  using assms by (induction js) (auto simp: px_bind_def px_return_def decrement_run)

text \<open>The answers to so many jobs of a counter for n of them.\<close>

definition counter_answers :: "nat \<Rightarrow> nat \<Rightarrow> worker_response list" where
  "counter_answers n m = replicate (min m (n - 1)) WORKER_CONTINUE @ replicate (m - (n - 1)) WORKER_SUCCESS"

lemma counter_answers_simps [simp]:
  "counter_answers n 0 = []"
  "counter_answers (Suc 0) m = replicate m WORKER_SUCCESS"
  "counter_answers (Suc (Suc n)) (Suc m) = WORKER_CONTINUE # counter_answers (Suc n) m"
  by (simp_all add: counter_answers_def)

lemma decrements_counter:
  assumes "calm env" and "list_all (counts i) js" and "file_of (counter_path env i) (ww_rt w) = Some (nat_dec n)"
    and "0 < n" and "n < 2 ^ 31"
  shows "\<exists>w'. decrements env js (r, w) = Some (Inr (counter_answers n (length js)), r, w')
    \<and> file_of (counter_path env i) (ww_rt w') = (if length js < n then Some (nat_dec (n - length js)) else None)"
  using assms
proof (induction js arbitrary: n w)
  case Nil
  then show ?case by (simp add: px_return_def)
next
  case (Cons j js)
  let ?p = "counter_path env i"
  have ok: "counts i j" "list_all (counts i) js" using Cons.prems(2) by simp_all
  show ?case
  proof (cases "n = 1")
    case True
    have gone: "file_of ?p (ww_rt (set_counter ?p None w)) = None" by (simp add: set_counter_def file_of_set)
    from decrement_calm [OF Cons.prems(1) ok(1) Cons.prems(3-5), of r] decrements_gone [OF ok(2) gone, of r] True gone
    show ?thesis by (simp add: px_bind_def px_return_def)
  next
    case False
    let ?w = "set_counter ?p (Some (nat_dec (n - 1))) w"
    have now: "do_decrement_global_counter env j (r, w) = Some (Inr WORKER_CONTINUE, r, ?w)"
      using decrement_calm [OF Cons.prems(1) ok(1) Cons.prems(3-5), of r] False by simp
    have "file_of ?p (ww_rt ?w) = Some (nat_dec (n - 1))" "0 < n - 1" "n - 1 < 2 ^ 31"
      using False Cons.prems(4,5) by (simp_all add: set_counter_def file_of_set)
    from Cons.IH [OF Cons.prems(1) ok(2) this] obtain w' where
      "decrements env js (r, ?w) = Some (Inr (counter_answers (n - 1) (length js)), r, w')"
      "file_of ?p (ww_rt w') = (if length js < n - 1 then Some (nat_dec (n - 1 - length js)) else None)" by blast
    moreover obtain k where "n = Suc (Suc k)" using False Cons.prems(4) by (metis Suc_pred One_nat_def not0_implies_Suc)
    ultimately show ?thesis using now by (simp add: px_bind_def px_return_def)
  qed
qed

lemma make_counter_calm:
  assumes "calm env"
  shows "\<exists>i x. make_counter env n w = Some (Inr i, set_file (counter_path env i) (Some (nat_dec n)) (w\<lparr>rw_x := x\<rparr>))"
  using assms
  by (auto simp: make_counter_def new_id_def px_bind_def px_then_def px_return_def on_x_def write_file_calm split: prod.split)

text \<open>
  C9: the agents of a level start the next one exactly when the last of them completes. A counter made for a number of jobs
  answers CONTINUE to all of them but the last, which gets SUCCESS and takes the file away; the handler of
  the completion of a counter job is what runs the next level. A job that comes after that finds no file and gets
  SUCCESS as well. The order of the jobs does not matter, and no system call fails.
\<close>

theorem counter_releases_last:
  assumes "calm env" and "0 < n" and "n < 2 ^ 31" and "in_rt (make_counter env n) (r, w) = Some (Inr i, x)"
    and "list_all (counts i) js"
  shows "\<exists>w'. decrements env js x = Some (Inr (counter_answers n (length js)), r, w')
    \<and> file_of (counter_path env i) (ww_rt w') = (if length js < n then Some (nat_dec (n - length js)) else None)"
proof -
  obtain w1 where x: "x = (r, w1)" "file_of (counter_path env i) (ww_rt w1) = Some (nat_dec n)"
    using assms(4) make_counter_calm [OF assms(1), of n "ww_rt w"]
    by (auto simp: in_rt_def in_w_def on_rt_def file_of_set)
  show ?thesis unfolding x(1) by (rule decrements_counter [OF assms(1,5) x(2) assms(2,3)])
qed

text \<open>
  A job is counted twice when the lock cannot be released. The file is written before the lock is given back and the
  descriptor closed; if one of these calls fails, the handler asks to be run again, and the number in the
  file is the smaller one already.
\<close>

lemma counter_counts_twice:
  assumes "gb_fault env = (\<lambda>c x. (c = call, x))" and "call = ''unlock'' \<or> call = ''close''"
    and "counts i j" and "file_of (counter_path env i) (ww_rt w) = Some (nat_dec n)" and "0 < n" and "n < 2 ^ 31"
  shows "\<exists>w'. do_decrement_global_counter env j (r, w) = Some (Inr WORKER_RETRY, r, w')
    \<and> file_of (counter_path env i) (ww_rt w') = Some (nat_dec (n - 1))"
proof -
  let ?p = "counter_path env i"
  have call: "sys_call env c why t = Some (if c = call then (Inl (ERR_LIBC why (gb_strerror env (rw_x t))), t) else (Inr (), t))"
    for c why t
    using assms(1) by (simp add: sys_call_def throw_libc_def on_x_def px_defs)
  have libc: "ERR_LIBC a b \<noteq> NullDereference" for a b by (simp add: ERR_LIBC_def ERR_INTERNAL_SERVER_ERROR_def mk_error_def)
  have dec: "int_dec (int n - 1) = nat_dec (n - 1)" using assms(5) by (simp add: nat_dec_int of_nat_diff)
  obtain e where "count_down env ?p (ww_rt w) = Some (Inl e, set_file ?p (Some (nat_dec (n - 1))) (ww_rt w))" "e \<noteq> NullDereference"
    using assms(2,4-6) libc
    by (elim disjE) (auto simp: count_down_def slurp_def write_file_def px_then_def px_bind_def call px_lift_def px_get_def px_return_def
        cast_counter counter_pred put_file_run dec Let_def)
  then show ?thesis using assms(3,4)
    by (simp add: decrement_run in_rt_def in_w_def on_rt_def px_catch_def px_return_def file_of_set)
qed

definition demo_dec_job :: "string \<Rightarrow> string job" where
  "demo_dec_job i = Job (new_job_attrs\<lparr>j_name := ''do_decrement_global_counter_v1'', j_arguments := [i]\<rparr>) [] None"

lemma demo_counts: "counts i (demo_dec_job i)"
  by (simp add: counts_def demo_dec_job_def check_event_def)

theorem counter_releases_last_witness:
  "\<exists>i x w'. in_rt (make_counter demo_gb_env 2) (new_response, demo_gworld) = Some (Inr i, x) \<and>
    decrements demo_gb_env [demo_dec_job i, demo_dec_job i, demo_dec_job i] x
      = Some (Inr [WORKER_CONTINUE, WORKER_SUCCESS, WORKER_SUCCESS], new_response, w')"
proof -
  have calm: "calm demo_gb_env" by (simp add: calm_def demo_gb_env_def)
  obtain i x where made: "in_rt (make_counter demo_gb_env 2) (new_response, demo_gworld) = Some (Inr i, x)"
    using make_counter_calm [OF calm, of 2 "ww_rt demo_gworld"] by (auto simp: in_rt_def in_w_def on_rt_def)
  let ?js = "[demo_dec_job i, demo_dec_job i, demo_dec_job i]"
  have "counter_answers 2 (length ?js) = [WORKER_CONTINUE, WORKER_SUCCESS, WORKER_SUCCESS]" by (simp add: numeral_2_eq_2)
  moreover have "(0 :: nat) < 2" "(2 :: nat) < 2 ^ 31" "list_all (counts i) ?js" by (simp_all add: demo_counts)
  ultimately show ?thesis using made counter_releases_last [OF calm _ _ made, of ?js] by metis
qed

lemma counter_counts_twice_witness:
  "\<exists>w'. do_decrement_global_counter (demo_gb_env\<lparr>gb_fault := (\<lambda>c x. (c = ''unlock'', x))\<rparr>) (demo_dec_job ''i1'')
      (new_response, set_counter (counter_path demo_gb_env ''i1'') (Some (nat_dec 2)) demo_gworld) = Some (Inr WORKER_RETRY, new_response, w')
    \<and> file_of (counter_path demo_gb_env ''i1'') (ww_rt w') = Some (nat_dec 1)"
proof -
  let ?env = "demo_gb_env\<lparr>gb_fault := (\<lambda>c x. (c = ''unlock'', x))\<rparr>"
  have p: "counter_path ?env ''i1'' = counter_path demo_gb_env ''i1''" by (simp add: counter_path_def)
  let ?w = "set_counter (counter_path demo_gb_env ''i1'') (Some (nat_dec 2)) demo_gworld"
  have "file_of (counter_path ?env ''i1'') (ww_rt ?w) = Some (nat_dec 2)" unfolding p by (simp add: set_counter_def file_of_set)
  from counter_counts_twice [OF _ _ demo_counts this, of "''unlock''" new_response] show ?thesis by (simp add: p)
qed

section \<open>Registration\<close>

text \<open>The functions that the worker takes from gearman: those that are waited for, and those that are not.\<close>

definition gearbox_handlers :: "('d, 'y) gb_env \<Rightarrow> bool \<Rightarrow> bool \<Rightarrow> (string \<times> ('d, 'y gx) handler) list" where
  "gearbox_handlers env withSync withAsync =
     (if withSync then
       [(''do_put_delay_job_v1'', do_put_delay_job env), (''do_get_global_status_v1'', do_get_global_status env),
        (''do_create_global_status_v1'', do_create_global_status env), (''do_update_global_status_v1'', do_update_global_status env),
        (''do_decrement_global_counter_v1'', do_decrement_global_counter env)] else []) @
     (if withAsync then
       [(''do_post_global_status_v1'', do_post_global_status env), (''do_stop_global_status_v1'', do_stop_global_status env),
        (''do_cancelwatch_global_status_v1'', do_cancelwatch_global_status env), (''do_pollstate_global_status_v1'', do_pollstate_global_status env),
        (''do_run_global_agents_v1'', do_run_global_agents env), (''do_runlevel_global_agents_v1'', do_runlevel_global_agents env)] else [])"

lemma gearbox_handlers_distinct: "distinct (map fst (gearbox_handlers env s a))"
  by (cases s; cases a) (simp_all add: gearbox_handlers_def)

section \<open>A level finds its jobs\<close>

definition level_entry :: "('d, 'y) gb_env \<Rightarrow> 'd job \<Rightarrow> 'd json" where
  "level_entry env j = JObject [(''envelope'', sent_doc (rt_lib (gb_rt env)) (rt_statics (gb_rt env)) j), (''name'', JString (j_name (attrs j)))]"

definition level_doc :: "'d json \<Rightarrow> 'd json \<Rightarrow> 'd json" where
  "level_doc c jobs = JObject [(''content'', c), (''jobs'', jobs)]"

lemma upd_jobs:
  "json_upd_key [] ''jobs'' f (level_doc c jobs) = res_bind (f jobs) (\<lambda>v. Inr (level_doc c v))"
  by (simp add: level_doc_def json_upd_key_def json_ref_key_def smap_find_def json_as_object_def)

lemma upd_new_element:
  "json_upd_at path (length vs) f (JArray vs) = res_bind (f JUndef) (\<lambda>v. Inr (JArray (vs @ [v])))"
  "json_upd_at path 0 f JUndef = res_bind (f JUndef) (\<lambda>v. Inr (JArray [v]))"
  by (simp_all add: json_upd_at_def json_ref_at_def growArray_def json_as_array_def)

lemma upd_last_element: "json_upd_at path (length vs) f (JArray (vs @ [v])) = res_bind (f v) (\<lambda>v. Inr (JArray (vs @ [v])))"
  by (simp add: json_upd_at_def json_ref_at_def growArray_def json_as_array_def)

definition array_of :: "'d json list \<Rightarrow> 'd json" where
  "array_of vs = (if vs = [] then JUndef else JArray vs)"

lemma put_job_entry:
  assumes "json_text (rt_lib (gb_rt env))" and "sendable (rt_lib (gb_rt env)) j"
  shows "put_job env (length vs) j (level_doc c (array_of vs)) = Inr (level_doc c (JArray (vs @ [level_entry env j])))"
proof -
  note sent = job_sent [OF assms, of "rt_statics (gb_rt env)" "rt_jm (gb_rt env)"]
  have name: "json_upd_key [] ''jobs'' (json_upd_at [Key ''jobs''] (length vs) (json_set ''name'' (JString (j_name (attrs j))))) (level_doc c (array_of vs))
      = Inr (level_doc c (JArray (vs @ [JObject [(''name'', JString (j_name (attrs j)))]])))"
    by (cases "vs = []") (simp_all add: upd_jobs array_of_def upd_new_element json_set_undef)
  show ?thesis
    unfolding put_job_def name using sent by (simp add: job_serialize_def json_text.parse_text_serialize [OF assms(1)] upd_jobs upd_last_element
        json_set_object smap_wf_def level_entry_def)
qed

lemma put_jobs_entries:
  assumes "json_text (rt_lib (gb_rt env))" and "list_all (sendable (rt_lib (gb_rt env))) js"
  shows "put_jobs env (length vs) js (level_doc c (array_of vs)) = Inr (level_doc c (array_of (vs @ map (level_entry env) js)))"
  using assms(2)
proof (induction js arbitrary: vs)
  case (Cons j js)
  have "put_job env (length vs) j (level_doc c (array_of vs)) = Inr (level_doc c (array_of (vs @ [level_entry env j])))"
    using put_job_entry [OF assms(1), of j vs c] Cons.prems by (simp add: array_of_def)
  then show ?case using Cons.IH [of "vs @ [level_entry env j]"] Cons.prems by simp
qed simp

text \<open>The jobs that are queued for afterwards when a level runs.\<close>

lemma level_jobs_run:
  assumes "json_text (rt_lib (gb_rt env))" and "list_all (sendable (rt_lib (gb_rt env))) js"
    and "jm_ok (rt_jm (gb_rt env)) (rw_jm (ww_rt w))"
  shows "\<exists>w'. level_jobs env (level_doc (JString c) v) i (map (level_entry env) js) (r, w) = Some (Inr (), r, w')
    \<and> ww_afterwards w' = ww_afterwards w @ map (\<lambda>j. (GearmanKind, with_content c (as_sent j), 0)) js"
  using assms(2,3)
proof (induction js arbitrary: i w)
  case Nil
  then show ?case by (simp add: px_return_def)
next
  case (Cons j js)
  have "receives (rt_jm (gb_rt env)) (sent_doc (rt_lib (gb_rt env)) (rt_statics (gb_rt env))) j"
    using job_sent [OF assms(1), of j "rt_statics (gb_rt env)"] Cons.prems(1) by simp
  then obtain jw where jw: "job_of_envelope (rt_jm (gb_rt env)) (j_name (attrs j)) (sent_doc (rt_lib (gb_rt env)) (rt_statics (gb_rt env)) j) (rw_jm (ww_rt w))
      = (Inr (as_sent j), jw)" "jm_ok (rt_jm (gb_rt env)) jw"
    using Cons.prems(2) unfolding receives_def by blast
  let ?w = "afterwards GearmanKind (with_content c (as_sent j)) 0 (w\<lparr>ww_rt := (ww_rt w)\<lparr>rw_jm := jw\<rparr>\<rparr>)"
  have one: "level_job env (level_doc (JString c) v) i (level_entry env j) (r, w) = Some (Inr (), r, ?w)"
    by (simp add: level_job_def level_entry_def level_doc_def px_bind_def px_lift_def json_get_def smap_find_def json_as_string_def in_rt_def in_w_def
        on_rt_def on_jm_def jw(1) get_str_def push_afterwards_def px_modify_def del: job_of_envelope.simps)
  have "jm_ok (rt_jm (gb_rt env)) (rw_jm (ww_rt ?w))" using jw(2) by (simp add: afterwards_def)
  with Cons.IH [of ?w "i + 1"] Cons.prems(1) obtain w' where
    "level_jobs env (level_doc (JString c) v) (i + 1) (map (level_entry env) js) (r, ?w) = Some (Inr (), r, w')"
    "ww_afterwards w' = ww_afterwards ?w @ map (\<lambda>j. (GearmanKind, with_content c (as_sent j), 0)) js" by auto
  with one show ?case by (simp add: px_then_def px_bind_def afterwards_def)
qed

text \<open>
  C8: a level runs the agents it was given, and each of them leads on. The document a level is chained with survives as the content of its job; when that job runs, it queues
  exactly the agents of the level, in order, each with the content of the request and with the job of
  the next level (or the counter before it) as the handler of its completion. No agent is lost, and the level goes on
  until they are done.
\<close>

theorem runlevel_runs_agents:
  assumes "json_text (rt_lib (gb_rt env))" and "b \<noteq> []" and "list_all (\<lambda>a. sendable (rt_lib (gb_rt env)) (job_on JEVENT_COMPLETED h a)) b"
    and "json_upd_key [] ''jobs'' (\<lambda>_. Inr JUndef) (JObject [(''content'', JString c)]) = Inr d0"
    and "put_jobs env 0 (map (job_on JEVENT_COMPLETED h) b) d0 = Inr d"
    and "j_content (attrs j) = json_serialize (rt_lib (gb_rt env)) d" and "j_content (attrs j) \<noteq> []"
    and "event_status j = None" and "jm_ok (rt_jm (gb_rt env)) (rw_jm (ww_rt w))"
    and "getSchema (rt_jm (gb_rt env)) (attrs j) (rw_jm (ww_rt w)) = (Inr None, jw)"
  shows "\<exists>w'. do_runlevel_global_agents env j (r, w) = Some (Inr WORKER_CONTINUE, r, w')
    \<and> ww_afterwards w' = ww_afterwards w @ map (\<lambda>a. (GearmanKind, with_content c (as_sent (job_on JEVENT_COMPLETED h a)), 0)) b"
proof -
  let ?lib = "rt_lib (gb_rt env)" and ?js = "map (job_on JEVENT_COMPLETED h) b"
  have js: "list_all (sendable ?lib) ?js" using assms(3) by (simp add: list_all_iff)
  have "d0 = level_doc (JString c) (array_of [])"
    using assms(4) by (simp add: json_upd_key_def json_ref_key_def json_addKey_def smap_insert_def smap_find_def json_as_object_def level_doc_def
        array_of_def)
  with assms(2,5) put_jobs_entries [OF assms(1) js, of "[]" "JString c"]
  have d: "d = level_doc (JString c) (JArray (map (level_entry env) ?js))" by (simp add: array_of_def)
  have "text_safe ?lib (level_entry env j)" if "j \<in> set ?js" for j
    using job_sent [OF assms(1), of j "rt_statics (gb_rt env)"] js that
    by (auto simp: level_entry_def text_safe_def smap_wf_def list_all_iff)
  then have "text_safe ?lib d" by (auto simp: d level_doc_def text_safe_def smap_wf_def list_all_iff)
  note parse = json_text.parse_text_serialize [OF assms(1) this, of "rt_statics (gb_rt env)"]
  let ?w = "w\<lparr>ww_rt := (ww_rt w)\<lparr>rw_jm := jw\<rparr>\<rparr>"
  have content: "in_rt (json_content (gb_rt env) j) (r, w) = Some (Inr d, r, ?w)"
    using assms(6,7,10) parse by (simp add: json_content_def in_rt_def in_w_def on_rt_def px_bind_def on_jm_def px_lift_def)
  have "jm_ok (rt_jm (gb_rt env)) (rw_jm (ww_rt ?w))"
    using getSchema_ok [OF assms(9), of "attrs j"] same_jm_ok [OF _ assms(9), of jw] assms(10) by auto
  from level_jobs_run [OF assms(1) js this, of c "JArray (map (level_entry env) ?js)" 0 r] obtain w' where
    "level_jobs env d 0 (map (level_entry env) ?js) (r, ?w) = Some (Inr (), r, w')"
    "ww_afterwards w' = ww_afterwards w @ map (\<lambda>j. (GearmanKind, with_content c (as_sent j), 0)) ?js" by (auto simp: d)
  moreover have "json_get [] ''jobs'' d = Inr (JArray (map (level_entry env) ?js))"
    by (simp add: d level_doc_def json_get_def smap_find_def)
  moreover obtain e es where "map (level_entry env) ?js = e # es" using assms(2) by (cases b) auto
  ultimately show ?thesis
    using content assms(8) by (simp add: do_runlevel_global_agents_def agent_event_def px_bind_def px_lift_def px_then_def px_return_def comp_def)
qed

definition demo_level :: "string json" where
  "demo_level = level_doc (JString ''x'') (JArray [level_entry demo_gb_env demo_job])"

definition demo_level_job :: "string job" where
  "demo_level_job = Job (new_job_attrs\<lparr>j_name := ''do_runlevel_global_agents_v1'', j_content := json_serialize wire_lib demo_level\<rparr>) [] None"

text \<open>A level of one agent, whose completion starts another job.\<close>

theorem runlevel_runs_agents_witness:
  "\<exists>w'. do_runlevel_global_agents demo_gb_env demo_level_job (new_response, demo_gworld) = Some (Inr WORKER_CONTINUE, new_response, w')
    \<and> ww_afterwards w' = [(GearmanKind, with_content ''x'' demo_job, 0)]"
proof -
  let ?a = "Job (demo_attrs ''do_get_c_t_v1'') [] None" and ?h = "Job (demo_attrs ''do_get_c_u_v1'') [] None"
  have env: "gb_rt demo_gb_env = demo_gb_rt" "rt_jm demo_gb_rt = demo_jm_env" "ce_lib (je_cfg demo_jm_env) = wire_lib"
    "rw_jm (ww_rt demo_gworld) = demo_jm_world" "ww_afterwards demo_gworld = []"
    by (simp_all add: demo_gb_env_def demo_gb_rt_def demo_jm_env_def demo_gworld_def)
  have lib: "json_text (rt_lib (gb_rt demo_gb_env))" unfolding env by (rule wire.json_text_axioms)
  have agent: "job_on JEVENT_COMPLETED ?h ?a = demo_job" by (simp add: job_on_def demo_job_def)
  have d0: "json_upd_key [] ''jobs'' (\<lambda>_. Inr JUndef) (JObject [(''content'', JString ''x'')]) = Inr (level_doc (JString ''x'') (array_of []))"
    by (simp add: json_upd_key_def json_ref_key_def json_addKey_def smap_insert_def smap_find_def json_as_object_def level_doc_def array_of_def)
  have d: "put_jobs demo_gb_env 0 (map (job_on JEVENT_COMPLETED ?h) [?a]) (level_doc (JString ''x'') (array_of [])) = Inr demo_level"
    using put_jobs_entries [OF lib, of "[demo_job]" "[]" "JString ''x''"] demo_job_sendable(1) by (simp add: env agent array_of_def demo_level_def)
  have "fst (getSchema demo_jm_env (attrs demo_level_job) demo_jm_world) = Inr None" "json_serialize wire_lib demo_level \<noteq> []" by code_simp+
  then obtain jw where sch: "getSchema demo_jm_env (attrs demo_level_job) demo_jm_world = (Inr None, jw)"
    and ne: "json_serialize wire_lib demo_level \<noteq> []" by (metis prod.collapse)
  have "list_all (\<lambda>a. sendable (rt_lib (gb_rt demo_gb_env)) (job_on JEVENT_COMPLETED ?h a)) [?a]"
    using demo_job_sendable(1) by (simp add: agent env)
  from runlevel_runs_agents [OF lib _ this d0 d, of demo_level_job demo_gworld jw new_response] sch ne demo_jm_ok show ?thesis
    by (simp add: env agent demo_level_job_def demo_job_sendable(2))
qed

end
