(* ===== verification/GB_DelayDaemon.thy ===== *)
theory GB_DelayDaemon
  imports GB_Gearbox
begin

text \<open>
  \<^verbatim>\<open>workers/gearbox/DelayProcessor.cc\<close> and the loop of \<^verbatim>\<open>delayDaemon.cc\<close>: the process that takes the delayed jobs whose time has come
  out of the table and hands them to gearman. The order in which the database returns rows of the same time, and the calls
  on the socket through which a worker announces a new row, are parameters; statements do not fail in the model.
\<close>

section \<open>The process\<close>

record ('d, 'y) dd_env =
  dd_gb :: "('d, 'y) gb_env"
  dd_order :: "delay_row list \<Rightarrow> delay_row list"
  dd_select :: "int option \<Rightarrow> 'y gx \<Rightarrow> int \<times> 'y gx"
  dd_accept :: "'y gx \<Rightarrow> int \<times> 'y gx"
  dd_recv :: "'y gx \<Rightarrow> int \<times> 'y gx"

type_synonym ('d, 'y, 'a) dx = "(('d, 'y gx) rworld, gb_exn, 'a) px"

text \<open>The constructor finds the path of the socket; \<^verbatim>\<open>initfifo\<close> removes what is there, makes the socket and binds it.\<close>

definition initfifo :: "('d, 'y) dd_env \<Rightarrow> string \<Rightarrow> ('d, 'y, unit) dx" where
  "initfifo env fifo =
     px_bind (px_get (\<lambda>w. gx_files (rw_x w) fifo)) (\<lambda>f.
     px_then (px_when (f \<noteq> None) (px_then (sys_call (dd_gb env) ''remove'' (''boost::filesystem::remove: '' @ fifo))
        (on_x (\<lambda>x. ((), x\<lparr>gx_files := (gx_files x)(fifo := None)\<rparr>)))))
     (px_then (sys_call (dd_gb env) ''socket'' ''failed to create socket'')
     (px_then (sys_call (dd_gb env) ''bind'' ''failed to bind stream socket'')
       (on_x (\<lambda>x. ((), x\<lparr>gx_files := (gx_files x)(fifo \<mapsto> [])\<rparr>))))))"

definition dd_start :: "('d, 'y) dd_env \<Rightarrow> ('d, 'y, unit) dx" where
  "dd_start env = px_bind (cfg_get (fifo_path (gb_localstatedir (dd_gb env)))) (initfifo env)"

section \<open>Running what is due\<close>

definition delete_row :: "int \<Rightarrow> 'y gx \<Rightarrow> 'y gx" where
  "delete_row i x = x\<lparr>gx_jobs := filter (\<lambda>r. dr_id r \<noteq> i) (gx_jobs x)\<rparr>"

text \<open>One row: the job is made from its envelope, made asynchronous, and run; the row goes unless the response says that it failed.\<close>

definition row_job :: "('d, 'y) dd_env \<Rightarrow> delay_row \<Rightarrow> ('d, 'y, 'd job) dx" where
  "row_job env r =
     px_bind (px_lift (wk_decompress (gb_wk (dd_gb env)) (dr_envelope r))) (\<lambda>t.
     px_bind (on_jm (job_of_text (rt_jm (gb_rt (dd_gb env))) (dr_name r) t)) (\<lambda>j.
     px_return (upd_attrs (\<lambda>a. a\<lparr>j_type := JOB_ASYNC\<rparr>) j)))"

definition run_row :: "('d, 'y) dd_env \<Rightarrow> delay_row \<Rightarrow> ('d, 'y, unit) dx" where
  "run_row env r =
     px_bind (row_job env r) (\<lambda>j.
     px_bind (gearman_run (gb_rt (dd_gb env)) j) (\<lambda>resp.
     px_when (jr_code resp < 300) (on_x (\<lambda>x. ((), delete_row (dr_id r) x)))))"

fun run_rows :: "('d, 'y) dd_env \<Rightarrow> delay_row list \<Rightarrow> ('d, 'y, unit) dx" where
  "run_rows env [] = px_return ()"
| "run_rows env (r # rs) = px_then (run_row env r) (run_rows env rs)"

definition due_rows :: "('d, 'y) dd_env \<Rightarrow> 'y gx \<Rightarrow> delay_row list" where
  "due_rows env x = dd_order env (filter (\<lambda>r. dr_time r \<le> gb_now (dd_gb env)) (gx_jobs x))"

definition run_delayed_jobs :: "('d, 'y) dd_env \<Rightarrow> ('d, 'y, unit) dx" where
  "run_delayed_jobs env = px_bind (px_get (\<lambda>w. due_rows env (rw_x w))) (run_rows env)"

section \<open>Waiting\<close>

text \<open>How long to wait: not at all when a row is due already, for ever when there is none.\<close>

datatype patience = NoWait | Wait "int option"

definition time_to_wait :: "('d, 'y) dd_env \<Rightarrow> 'y gx \<Rightarrow> patience" where
  "time_to_wait env x = (case dd_order env (gx_jobs x) of
     [] \<Rightarrow> Wait None
   | r # _ \<Rightarrow> if dr_time r - gb_now (dd_gb env) \<le> 0 then NoWait else Wait (Some (dr_time r - gb_now (dd_gb env))))"

partial_function (option) flush_fifo :: "('d, 'y) dd_env \<Rightarrow> ('d, 'y gx) rworld \<Rightarrow> ((gb_exn + unit) \<times> ('d, 'y gx) rworld) option" where
  "flush_fifo env w = px_bind (on_x (dd_recv env)) (\<lambda>n w. if n > 0 then flush_fifo env w else px_return () w) w"

definition wait_next_job :: "('d, 'y) dd_env \<Rightarrow> ('d, 'y, unit) dx" where
  "wait_next_job env =
     px_bind (px_get (\<lambda>w. time_to_wait env (rw_x w))) (\<lambda>p. case p of
       NoWait \<Rightarrow> px_return ()
     | Wait t \<Rightarrow> px_bind (on_x (dd_select env t)) (\<lambda>retval.
         if retval = - 1 then throw_libc (dd_gb env) ''select failed''
         else if retval = 0 then px_return ()
         else px_bind (on_x (dd_accept env)) (\<lambda>conn.
              if conn < 0 then throw_libc (dd_gb env) ''accept failed'' else flush_fifo env)))"

partial_function (option) daemon_loop :: "('d, 'y) dd_env \<Rightarrow> ('d, 'y gx) rworld \<Rightarrow> ((gb_exn + unit) \<times> ('d, 'y gx) rworld) option" where
  "daemon_loop env w = px_bind (px_then (run_delayed_jobs env) (wait_next_job env)) (\<lambda>_ w. daemon_loop env w) w"

text \<open>One round of the daemon, after which it always goes on; so it only ends with an exception, which ends the process.\<close>

definition daemon_round :: "('d, 'y) dd_env \<Rightarrow> ('d, 'y, bool) dx" where
  "daemon_round env = px_then (px_then (run_delayed_jobs env) (wait_next_job env)) (px_return True)"

interpretation daemon: retried "while_again (daemon_round env)" "daemon_loop env" for env
proof
  fix w show "daemon_loop env w = (case while_again (daemon_round env) w of None \<Rightarrow> None
      | Some (None, w') \<Rightarrow> daemon_loop env w' | Some (Some r, w') \<Rightarrow> Some (r, w'))"
    by (subst daemon_loop.simps) (simp add: while_again_def daemon_round_def px_defs split: option.split prod.split sum.split)
next
  fix w y P
  assume "daemon_loop env w = Some y" and "\<And>w r w'. while_again (daemon_round env) w = Some (Some r, w') \<Longrightarrow> P w (r, w')"
    and "\<And>w w' y. while_again (daemon_round env) w = Some (None, w') \<Longrightarrow> P w' y \<Longrightarrow> P w y"
  then show "P w y"
    by (rule_tac daemon_loop.raw_induct [where P = "\<lambda>e w y. e = env \<longrightarrow> P w y", rule_format])
      (auto simp: while_again_simps daemon_round_def px_bind_def px_then_def px_return_def split: option.splits prod.splits sum.splits)
qed

lemma daemon_ends_throwing:
  assumes "daemon_loop env w = Some (r, w')"
  shows "\<exists>e. r = Inl e"
  by (rule daemon.result [OF assms])
    (auto simp: while_again_simps daemon_round_def px_bind_def px_then_def px_return_def split: option.splits prod.splits sum.splits)

definition delay_daemon :: "('d, 'y) dd_env \<Rightarrow> ('d, 'y, unit) dx" where
  "delay_daemon env = px_then (dd_start env) (daemon_loop env)"

section \<open>What the table promises\<close>

definition sorts_rows :: "(delay_row list \<Rightarrow> delay_row list) \<Rightarrow> bool" where
  "sorts_rows ord \<longleftrightarrow> (\<forall>rs. set (ord rs) = set rs \<and> sorted (map dr_time (ord rs)))"

lemma sort_key_rows: "sorts_rows (sort_key dr_time)"
  by (simp add: sorts_rows_def)

text \<open>
  C12: the daemon does not oversleep. It waits without a limit only when the table is empty, and otherwise no longer than until
  the earliest row is due; when a row is due already, it does not wait at all.
\<close>

theorem delay_no_oversleep:
  assumes "sorts_rows (dd_order env)" and "r \<in> set (gx_jobs x)"
  shows "case time_to_wait env x of NoWait \<Rightarrow> \<exists>r \<in> set (gx_jobs x). dr_time r \<le> gb_now (dd_gb env)
    | Wait None \<Rightarrow> False
    | Wait (Some t) \<Rightarrow> 0 < t \<and> gb_now (dd_gb env) + t \<le> dr_time r"
proof (cases "dd_order env (gx_jobs x)")
  case Nil
  with assms show ?thesis by (metis empty_iff list.set(1) sorts_rows_def)
next
  case (Cons s rs)
  have set: "set (s # rs) = set (gx_jobs x)" and sorted: "sorted (map dr_time (s # rs))"
    using assms(1) Cons by (metis sorts_rows_def)+
  have "dr_time s \<le> dr_time r" using assms(2) set sorted by auto
  moreover have "s \<in> set (gx_jobs x)" using set by auto
  ultimately show ?thesis using Cons by (auto simp: time_to_wait_def)
qed

definition demo_delay_row :: delay_row where
  "demo_delay_row = \<lparr>dr_id = 1, dr_name = ''do_get_c_t_v1'', dr_status = None, dr_envelope = [], dr_time = 9, dr_ctime = 0\<rparr>"

definition demo_dd_env :: "(string, nat) dd_env" where
  "demo_dd_env = \<lparr>dd_gb = demo_gb_env, dd_order = sort_key dr_time, dd_select = (\<lambda>_ x. (0, x)), dd_accept = (\<lambda>x. (3, x)), dd_recv = (\<lambda>x. (- 1, x))\<rparr>"

theorem delay_no_oversleep_witness:
  "time_to_wait demo_dd_env \<lparr>gx_jobs = [demo_delay_row], gx_next = 2, gx_files = (\<lambda>_. None), gx_y = 0\<rparr> = Wait (Some 2) \<and> 7 + 2 \<le> dr_time demo_delay_row"
proof -
  let ?x = "\<lparr>gx_jobs = [demo_delay_row], gx_next = 2, gx_files = (\<lambda>_. None), gx_y = 0\<rparr> :: nat gx"
  have t: "time_to_wait demo_dd_env ?x = Wait (Some 2)"
    by (simp add: time_to_wait_def demo_dd_env_def demo_gb_env_def demo_gb_rt_def demo_jm_env_def demo_delay_row_def)
  have "sorts_rows (dd_order demo_dd_env)" by (simp add: demo_dd_env_def sort_key_rows)
  from delay_no_oversleep [OF this, of demo_delay_row ?x] t show ?thesis
    by (simp add: demo_dd_env_def demo_gb_env_def demo_gb_rt_def demo_jm_env_def)
qed

section \<open>Rows and their jobs\<close>

lemma gearman_run_async_code:
  assumes "gearman_run env j w = Some (Inr r, w')" and "j_type (attrs j) = JOB_ASYNC"
  shows "jr_code r = 202"
  using assms by (auto simp: gearman_run_def px_then_def px_bind_Inr run_async_def px_return_def)

lemma row_job_async: "row_job env r w = Some (Inr j, w') \<Longrightarrow> j_type (attrs j) = JOB_ASYNC"
  by (auto simp: row_job_def px_bind_Inr px_return_def upd_attrs_def)

text \<open>
  The row of a delayed job goes as soon as the run of the job returns. The daemon looks at the code of the response, to keep the row of a
  job that could not be queued; but the response to an asynchronous job has the code 202 whatever gearman said, so
  the row is deleted also when gearman refused the job.
\<close>

lemma delayed_row_deleted:
  assumes "run_row env r w = Some (Inr x, w')"
  shows "\<exists>j w1 resp w2. row_job env r w = Some (Inr j, w1) \<and> gearman_run (gb_rt (dd_gb env)) j w1 = Some (Inr resp, w2)
    \<and> rw_x w' = delete_row (dr_id r) (rw_x w2) \<and> dr_id r \<notin> dr_id ` set (gx_jobs (rw_x w'))"
proof -
  obtain j w1 resp w2 where run: "row_job env r w = Some (Inr j, w1)" "gearman_run (gb_rt (dd_gb env)) j w1 = Some (Inr resp, w2)"
    and del: "px_when (jr_code resp < 300) (on_x (\<lambda>x. ((), delete_row (dr_id r) x))) w2 = Some (Inr x, w')"
    using assms by (auto simp: run_row_def px_bind_Inr)
  have "jr_code resp = 202" by (rule gearman_run_async_code [OF run(2) row_job_async [OF run(1)]])
  with del have "w' = w2\<lparr>rw_x := delete_row (dr_id r) (rw_x w2)\<rparr>" by (simp add: px_when_def on_x_def)
  with run show ?thesis by (auto simp: delete_row_def)
qed

definition demo_delayed_job :: "string job" where
  "demo_delayed_job = Job (new_job_attrs\<lparr>j_name := ''do_get_c_t_v1'', j_operation := ''get'', j_component := ''c'', j_resource_type := ''t'',
     j_version := ''v1'', j_base_uri := ''http://h/'', j_status := ''s''\<rparr>) [] None"

definition demo_envelope :: string where
  "demo_envelope = (case job_serialize wire_lib (FormatMap wire_lib) demo_delayed_job of Inr t \<Rightarrow> t | Inl _ \<Rightarrow> [])"

definition demo_due_row :: delay_row where
  "demo_due_row = demo_delay_row\<lparr>dr_envelope := demo_envelope\<rparr>"

lemma demo_row_runs:
  "(case run_row demo_dd_env demo_due_row (ww_rt demo_gworld) of Some (Inr _, _) \<Rightarrow> True | _ \<Rightarrow> False)"
  by code_simp

text \<open>A row for a job that gearman refuses.\<close>

lemma delayed_row_deleted_witness:
  "\<exists>w'. rt_do_background (gb_rt (dd_gb demo_dd_env)) = (\<lambda>_ _ x. (Some ''refused'', x)) \<and>
    run_row demo_dd_env demo_due_row (ww_rt demo_gworld) = Some (Inr (), w') \<and> 1 \<notin> dr_id ` set (gx_jobs (rw_x w'))"
proof -
  obtain w' where run: "run_row demo_dd_env demo_due_row (ww_rt demo_gworld) = Some (Inr (), w')"
    using demo_row_runs by (auto split: option.splits prod.splits sum.splits)
  moreover have "dr_id demo_due_row = 1" by (simp add: demo_due_row_def demo_delay_row_def)
  moreover have "rt_do_background (gb_rt (dd_gb demo_dd_env)) = (\<lambda>_ _ x. (Some ''refused'', x))"
    by (simp add: demo_dd_env_def demo_gb_env_def demo_gb_rt_def)
  ultimately show ?thesis using delayed_row_deleted [OF run] by metis
qed

section \<open>From a job to a row and back\<close>

text \<open>The document that \<^verbatim>\<open>JobManager::delay\<close> sends.\<close>

definition delay_doc :: "'d json \<Rightarrow> string \<Rightarrow> int \<Rightarrow> 'd json" where
  "delay_doc e n t = JObject [(''envelope'', e), (''name'', JString n), (''time'', JInt t)]"

lemma delay_request_doc:
  assumes "json_text (rt_lib env)" and "sendable (rt_lib env) J"
  shows "delay_request env J t = Inr (delay_doc (sent_doc (rt_lib env) (rt_statics env) J) (j_name (attrs J)) t)"
proof -
  note sent = job_sent [OF assms, of "rt_statics env" "rt_jm env"]
  then show ?thesis
    by (simp add: delay_request_def job_serialize_def json_text.parse_text_serialize [OF assms(1)] json_set_undef json_set_object
        smap_wf_def delay_doc_def)
qed

lemma delay_doc_safe: "text_safe lib e \<Longrightarrow> in_int64 t \<Longrightarrow> text_safe lib (delay_doc e n t)"
  by (simp add: delay_doc_def text_safe_def smap_wf_def)

lemma delay_doc_entry:
  assumes "get_int2_default ''delay'' ''run_immediately'' 0 cfg = Inr 0"
  shows "delay_entry env cfg (delay_doc e n t) = Inr \<lparr>dr_id = 0, dr_name = n, dr_status = None,
    dr_envelope = rt_compress (gb_rt env) (json_serialize (rt_lib (gb_rt env)) e), dr_time = t, dr_ctime = gb_now env\<rparr>"
  using assms
  by (simp add: delay_entry_def delay_doc_def json_hasKey_def json_get_def smap_find_def get_str_def get_i64_def json_as_string_def
      json_as_int64_def delay_time_def wrap_s32_def)



end
