(* ===== verification/GB_Apache.thy ===== *)
theory GB_Apache
  imports GB_JobDelay GB_Collection
begin

text \<open>
  \<^verbatim>\<open>apache/mod_gearbox/mod_gearbox.cc\<close>: the module of the web server that turns a request into a job. The path of a request names the
  version of the interface, the resource and the arguments; the method and the resource name the function of a
  worker. What Apache hands to the module and what the module leaves there are records; the collapsing
  of slashes is Apache's and a parameter. Logging is left out.
\<close>

section \<open>Configuration\<close>

record gearbox_cfg =
  gc_component :: string
  gc_path_prefix :: string
  gc_sync_put :: bool
  gc_sync_post :: bool
  gc_sync_delete :: bool

definition create_dir_config :: gearbox_cfg where
  "create_dir_config = \<lparr>gc_component = ''gearbox'', gc_path_prefix = [], gc_sync_put = False, gc_sync_post = False, gc_sync_delete = False\<rparr>"

text \<open>\<^verbatim>\<open>GearboxSync\<close>: the server ends when an argument is no method, or when the directive is in another block.\<close>

fun sync_methods :: "string list \<Rightarrow> gearbox_cfg \<Rightarrow> gearbox_cfg option" where
  "sync_methods [] c = Some c"
| "sync_methods (a # as) c = (let m = str_tolower a in
     if m = ''post'' then sync_methods as (c\<lparr>gc_sync_post := True\<rparr>)
     else if m = ''put'' then sync_methods as (c\<lparr>gc_sync_put := True\<rparr>)
     else if m = ''delete'' then sync_methods as (c\<lparr>gc_sync_delete := True\<rparr>)
     else None)"

definition cmd_gearbox_sync :: "string option \<Rightarrow> string list \<Rightarrow> gearbox_cfg \<Rightarrow> gearbox_cfg option" where
  "cmd_gearbox_sync parent argv c =
     (if (case parent of None \<Rightarrow> False | Some d \<Rightarrow> str_find ''location'' (str_tolower d) = None) then None
      else sync_methods argv c)"

text \<open>The first segment like /v123 of the path of the block, not at its start.\<close>

lemma str_find_bound: "str_find p s = Some k \<Longrightarrow> k + length p \<le> length s"
proof (induction p s arbitrary: k rule: str_find.induct)
  case (2 pat c cs)
  show ?case
  proof (cases "take (length pat) (c # cs) = pat")
    case True
    then have "length pat \<le> length (c # cs)" by (metis length_take min.cobounded1)
    with True 2 show ?thesis by simp
  qed (use 2 in auto)
qed (auto split: if_splits)

function find_version :: "string \<Rightarrow> nat \<Rightarrow> nat option" where
  "find_version path ix = (case str_find ''/v'' (drop (ix + 1) path) of
     None \<Rightarrow> None
   | Some k \<Rightarrow> (let i = ix + 1 + k in
       if list_all is_digit (takeWhile (\<lambda>c. c \<noteq> CHR ''/'') (drop (i + 2) path)) then Some i else find_version path i))"
  by pat_completeness auto

termination
  by (relation "measure (\<lambda>(path, ix). length path - ix)") (auto dest!: str_find_bound)

definition location_prefix :: "string \<Rightarrow> string" where
  "location_prefix path = (case find_version path 0 of None \<Rightarrow> path | Some i \<Rightarrow> take i path)"

definition cmd_gearbox_config_file :: "'d json \<Rightarrow> string \<Rightarrow> gearbox_cfg \<Rightarrow> gb_exn + gearbox_cfg" where
  "cmd_gearbox_config_file cfg path c =
     res_bind (get_string ''component'' cfg) (\<lambda>n.
     Inr (c\<lparr>gc_component := (if n \<noteq> [] then n else gc_component c), gc_path_prefix := location_prefix path\<rparr>))"

section \<open>Requests\<close>

record ap_request =
  rq_handler :: string
  rq_file_exists :: bool
  rq_uri :: string
  rq_method :: string
  rq_scheme :: string
  rq_server :: string
  rq_port :: int
  rq_default_port :: bool
  rq_args :: "string option"
  rq_headers_in :: "(string \<times> string) list"
  rq_subprocess_env :: "(string \<times> string option) list"
  rq_header_only :: bool
  rq_body :: string

record ap_reply =
  rp_status :: int
  rp_body :: string
  rp_headers_out :: hash
  rp_err_headers_out :: hash

definition new_reply :: ap_reply where
  "new_reply = \<lparr>rp_status = 200, rp_body = [], rp_headers_out = [], rp_err_headers_out = []\<rparr>"

definition is_sync_method :: "string \<Rightarrow> gearbox_cfg \<Rightarrow> bool" where
  "is_sync_method m c \<longleftrightarrow> m = ''head'' \<or> m = ''get'' \<or> (m = ''post'' \<and> gc_sync_post c) \<or> (m = ''put'' \<and> gc_sync_put c)
     \<or> (m = ''delete'' \<and> gc_sync_delete c)"

definition copy_table_tolower :: "(string \<times> string) list \<Rightarrow> hash" where
  "copy_table_tolower t = fold (\<lambda>(k, v). smap_put (str_tolower k) v) t []"

definition copy_table_raw :: "(string \<times> string option) list \<Rightarrow> hash" where
  "copy_table_raw t = fold (\<lambda>(k, v). smap_put k (case v of None \<Rightarrow> [] | Some v \<Rightarrow> v)) t []"

text \<open>\<^verbatim>\<open>boost::split\<close> at any of several characters.\<close>

fun split_any :: "string \<Rightarrow> string \<Rightarrow> string list" where
  "split_any seps [] = [[]]"
| "split_any seps (c # cs) =
     (if c \<in> set seps then [] # split_any seps cs
      else (case split_any seps cs of [] \<Rightarrow> [[c]] | p # ps \<Rightarrow> (c # p) # ps))"

fun matrix_pairs :: "string list \<Rightarrow> hash \<Rightarrow> hash" where
  "matrix_pairs (k # v # rest) h = matrix_pairs rest (smap_put k v h)"
| "matrix_pairs _ h = h"

definition split_parts :: "string \<Rightarrow> string list" where
  "split_parts t = (let ps = split_any ''/'' t in if last ps = [] then butlast ps else ps)"

definition malformed_matrix :: "string \<Rightarrow> gb_exn" where
  "malformed_matrix t = ERR_BAD_REQUEST (''malformed matrix arguments in '' @ [CHR 0x27] @ t @ [CHR 0x27])"

definition split_path_args :: "string \<Rightarrow> gb_exn + string list \<times> hash" where
  "split_path_args p =
     (if p = [] then Inr ([], [])
      else let t = drop 1 p in
        if CHR '';'' \<in> set t then
          (let m = split_any '';='' t in
           if even (length m) then Inl (malformed_matrix t)
           else Inr (split_parts (if hd m \<noteq> [] then hd m else t), matrix_pairs (tl m) []))
        else Inr (split_parts t, []))"

definition hosturi :: "ap_request \<Rightarrow> string" where
  "hosturi r = rq_scheme r @ ''://'' @ rq_server r @ (if rq_default_port r then [] else '':'' @ int_dec (rq_port r))"

text \<open>The parts of the path: version, resource, arguments.\<close>

definition request_path :: "(string \<Rightarrow> string) \<Rightarrow> gearbox_cfg \<Rightarrow> ap_request \<Rightarrow> gb_exn + (string \<times> string \<times> string list) \<times> hash" where
  "request_path no2slash c r =
     res_bind (split_path_args (drop (length (gc_path_prefix c)) (no2slash (rq_uri r)))) (\<lambda>(path, matrix). case path of
       v # rest1 # rest \<Rightarrow>
         if take 1 v \<noteq> ''v'' \<or> (case drop 1 v of [] \<Rightarrow> True | d # _ \<Rightarrow> \<not> is_digit d)
         then Inl (ERR_BAD_REQUEST ''Invalid API version designation.'')
         else if rest1 = [] then Inl (ERR_BAD_REQUEST ''Incomplete API uri specified - no resource.'')
         else Inr ((v, rest1, rest), matrix)
     | _ \<Rightarrow> Inl (ERR_BAD_REQUEST ''Invalid API version designation.''))"

definition base_uri_of :: "gearbox_cfg \<Rightarrow> ap_request \<Rightarrow> string \<Rightarrow> string" where
  "base_uri_of c r version = hosturi r @ gc_path_prefix c @ ''/'' @ version"

section \<open>From a request to a job\<close>

definition function_name :: "string \<Rightarrow> string \<Rightarrow> string \<Rightarrow> string \<Rightarrow> string" where
  "function_name m compo res ver = ''do_'' @ m @ ''_'' @ compo @ ''_'' @ res @ ''_'' @ ver"

text \<open>The function of the component, or else the global one.\<close>

definition find_function :: "'d jm_env \<Rightarrow> string \<Rightarrow> string \<Rightarrow> string \<Rightarrow> string \<Rightarrow> ('d jm_world, gb_exn, string) sx" where
  "find_function env m compo res ver =
     sx_bind (known_job_name env (function_name m compo res ver)) (\<lambda>known.
     if known then sx_return (function_name m compo res ver)
     else sx_bind (known_job_name env (function_name m ''global'' res ver)) (\<lambda>known.
          if known then sx_return (function_name m ''global'' res ver)
          else sx_throw (ERR_BAD_REQUEST ''No valid handler found!'')))"

fun add_query_params :: "string list \<Rightarrow> job_attrs \<Rightarrow> job_attrs" where
  "add_query_params [] a = a"
| "add_query_params (t # ts) a = add_query_params ts (case str_find_if (\<lambda>c. c = CHR ''='') t of
     None \<Rightarrow> add_query_param t ''1'' a
   | Some i \<Rightarrow> add_query_param (take i t) (drop (i + 1) t) a)"

definition request_attrs :: "ap_request \<Rightarrow> string list \<Rightarrow> hash \<Rightarrow> job_attrs \<Rightarrow> job_attrs" where
  "request_attrs r path matrix a =
     (let a = a\<lparr>j_remote_ip := [], j_headers := copy_table_tolower (rq_headers_in r), j_environ := copy_table_raw (rq_subprocess_env r),
              j_arguments := path, j_matrix_arguments := matrix\<rparr>
      in case rq_args r of None \<Rightarrow> a | Some t \<Rightarrow> add_query_params (split_any '';&'' t) a)"

text \<open>A resource that is posted without a name gets a new one, and the job creates it.\<close>

definition name_resource :: "('d, 'x) rt_env \<Rightarrow> string \<Rightarrow> string list \<Rightarrow> job_attrs \<Rightarrow> (('d, 'x) rworld, gb_exn, job_attrs) px" where
  "name_resource env m path a =
     (if m = ''post'' \<and> path = [] then
        px_bind (new_id env (case j_resource_type a of [] \<Rightarrow> [CHR 0x00] | c # _ \<Rightarrow> [c])) (\<lambda>i.
        px_return ((set_job_operation ''create'' a)\<lparr>j_resource_name := i\<rparr>))
      else px_return (case path of [] \<Rightarrow> a | n # _ \<Rightarrow> a\<lparr>j_resource_name := n\<rparr>))"

definition request_job :: "('d, 'x) rt_env \<Rightarrow> gearbox_cfg \<Rightarrow> ap_request \<Rightarrow> (string \<times> string \<times> string list) \<times> hash
    \<Rightarrow> (('d, 'x) rworld, gb_exn, 'd job) px" where
  "request_job env c r p = (case p of ((version, resource, path), matrix) \<Rightarrow> (let m = str_tolower (rq_method r) in
     px_bind (on_jm (find_function (rt_jm env) m (gc_component c) resource version)) (\<lambda>f.
     px_then (on_jm (sx_modify (\<lambda>w. w\<lparr>w_base_uri := base_uri_of c r version\<rparr>)))
     (px_bind (on_jm (job_named (rt_jm env) f)) (\<lambda>j.
      px_bind (name_resource env m path (request_attrs r path matrix (attrs j))) (\<lambda>a.
      px_return (Job (let a = (if rq_body r \<noteq> [] then a\<lparr>j_content := rq_body r\<rparr> else a)
                      in if is_sync_method m c then a\<lparr>j_type := JOB_SYNC\<rparr> else a) (handlers j) (event_status j))))))))"

section \<open>From a response to a reply\<close>

type_synonym ('d, 'x, 'a) ax = "(ap_reply \<times> ('d, 'x) rworld, gb_exn, 'a) px"

definition ap_rt :: "(('d, 'x) rworld, gb_exn, 'a) px \<Rightarrow> ('d, 'x, 'a) ax" where
  "ap_rt m = (\<lambda>(p, w). case m w of None \<Rightarrow> None | Some (x, w') \<Rightarrow> Some (x, p, w'))"

definition ap_reply_with :: "(ap_reply \<Rightarrow> ap_reply) \<Rightarrow> ('d, 'x, unit) ax" where
  "ap_reply_with f = px_modify (\<lambda>(p, w). (f p, w))"

text \<open>The keys of Apache's tables are compared without regard to case; here they are in lower case.\<close>

definition put_headers :: "'d job_response \<Rightarrow> ap_reply \<Rightarrow> ap_reply" where
  "put_headers resp p =
     (if jr_code resp \<ge> 400
      then p\<lparr>rp_err_headers_out := fold (\<lambda>(k, v). smap_put (str_tolower k) v) (jr_headers resp) (rp_err_headers_out p)\<rparr>
      else p\<lparr>rp_headers_out := fold (\<lambda>(k, v). smap_put (str_tolower k) v) (jr_headers resp) (rp_headers_out p)\<rparr>)"

definition failed_response :: "('d, 'x) rt_env \<Rightarrow> 'd job_response \<Rightarrow> (('d, 'x) rworld, gb_exn, 'a) px" where
  "failed_response env resp =
     px_bind (status_of resp) (\<lambda>ob.
     px_bind (with_obj ob so_messages) (\<lambda>(ms, _). case ms of
       [] \<Rightarrow> px_throw NullDereference | m # _ \<Rightarrow> px_throw (throw_from_code (jr_code resp) m)))"

definition location_header :: "string \<Rightarrow> job_attrs \<Rightarrow> ap_reply \<Rightarrow> ap_reply" where
  "location_header base a p =
     (if j_resource_name a = [] then p
      else p\<lparr>rp_headers_out := smap_put ''location'' (base @ ''/'' @ j_resource_type a @ ''/'' @ j_resource_name a) (rp_headers_out p)\<rparr>)"

definition write_reply :: "('d, 'x) rt_env \<Rightarrow> string \<Rightarrow> 'd job \<Rightarrow> 'd job_response \<Rightarrow> ('d, 'x, unit) ax" where
  "write_reply env base j resp =
     px_then (ap_reply_with (put_headers resp))
     (if jr_code resp \<ge> 400 then ap_rt (failed_response env resp)
      else px_then (ap_reply_with (location_header base (attrs j)))
        (if j_type (attrs j) = JOB_SYNC
         then ap_reply_with (\<lambda>p. p\<lparr>rp_body := rp_body p @ jr_content resp, rp_status := (if jr_code resp = 0 then 200 else jr_code resp)\<rparr>)
         else px_bind (ap_rt (px_bind (status_of resp) (\<lambda>ob. with_obj ob (so_serialize (rt_now env) (rt_lib env))))) (\<lambda>(t, _).
              ap_reply_with (\<lambda>p. p\<lparr>rp_body := rp_body p @ t, rp_status := 202\<rparr>))))"

definition operation_of :: "string \<Rightarrow> string" where
  "operation_of m = (let m = str_tolower m in if m = ''post'' then ''update'' else if m = ''put'' then ''create'' else m)"

definition error_doc :: "ap_request \<Rightarrow> int \<Rightarrow> string \<Rightarrow> gb_exn + 'd json" where
  "error_doc r code msg = res_seq
     [json_set ''uri'' (JString (hosturi r @ rq_uri r)), json_set ''progress'' (JInt 100), json_set ''state'' (JString ''COMPLETED''),
      json_set ''operation'' (JString (operation_of (rq_method r))), json_set ''code'' (JInt code),
      json_upd_key [] ''messages'' (json_upd_at [Key ''messages''] 0 (\<lambda>_. Inr (JString msg)))] JUndef"

definition error_response :: "('d, 'x) rt_env \<Rightarrow> ap_request \<Rightarrow> int \<Rightarrow> string \<Rightarrow> ('d, 'x, unit) ax" where
  "error_response env r code msg =
     px_bind (px_lift (error_doc r code msg)) (\<lambda>d.
     ap_reply_with (\<lambda>p. p\<lparr>rp_status := code, rp_body := rp_body p @ json_serialize (rt_lib env) d\<rparr>))"

text \<open>The code and the message a request is answered with when its handling throws.\<close>

definition http_error :: "gb_exn \<Rightarrow> int \<times> string" where
  "http_error e = (case e of GbError c n m \<Rightarrow> (c, m) | JsonError m \<Rightarrow> (400, m) | UriError m \<Rightarrow> (500, m) | SociError m \<Rightarrow> (500, m)
     | StdError m \<Rightarrow> (500, m) | WorkerStop \<Rightarrow> (500, ''Worker Stop'') | NullDereference \<Rightarrow> (0, []))"

definition handle_request :: "('d, 'x) rt_env \<Rightarrow> (string \<Rightarrow> string) \<Rightarrow> gearbox_cfg \<Rightarrow> ap_request \<Rightarrow> ('d, 'x, unit) ax" where
  "handle_request env no2slash c r =
     px_bind (px_lift (request_path no2slash c r)) (\<lambda>p.
     if rq_header_only r then px_return ()
     else px_bind (ap_rt (request_job env c r p)) (\<lambda>j.
          px_bind (ap_rt (gearman_run env j)) (\<lambda>resp. write_reply env (base_uri_of c r (fst (fst p))) j resp)))"

datatype ap_outcome = DECLINED | DONE

text \<open>The URI in an error reply is the one in which the slashes are collapsed.\<close>

definition gearbox_handler :: "('d, 'x) rt_env \<Rightarrow> (string \<Rightarrow> string) \<Rightarrow> gearbox_cfg \<Rightarrow> ap_request \<Rightarrow> ('d, 'x, ap_outcome) ax" where
  "gearbox_handler env no2slash c r =
     (if rq_handler r \<noteq> ''gearbox-handler'' \<or> rq_file_exists r then px_return DECLINED
      else px_then (px_catch (handle_request env no2slash c r) (\<lambda>e.
          if e = NullDereference then px_throw e
          else error_response env (r\<lparr>rq_uri := no2slash (rq_uri r)\<rparr>) (fst (http_error e)) (snd (http_error e))))
        (px_return DONE))"

section \<open>The parts of a path\<close>

definition plain :: "string \<Rightarrow> string \<Rightarrow> bool" where
  "plain seps t \<longleftrightarrow> set t \<inter> set seps = {}"

lemma split_any_plain: "plain seps t \<Longrightarrow> split_any seps t = [t]"
  by (induction t) (auto simp: plain_def)

lemma split_any_sep:
  assumes "plain seps t" and "c \<in> set seps"
  shows "split_any seps (t @ c # u) = t # split_any seps u"
  using assms by (induction t) (auto simp: plain_def)

fun slashed :: "string list \<Rightarrow> string" where
  "slashed [] = []"
| "slashed [t] = t"
| "slashed (t # ts) = t @ ''/'' @ slashed ts"

fun matrix_text :: "(string \<times> string) list \<Rightarrow> string" where
  "matrix_text [] = []"
| "matrix_text ((k, v) # ms) = '';'' @ k @ ''='' @ v @ matrix_text ms"

fun flat_pairs :: "(string \<times> string) list \<Rightarrow> string list" where
  "flat_pairs [] = []"
| "flat_pairs ((k, v) # ms) = k # v # flat_pairs ms"

lemma split_slashed:
  assumes "ts \<noteq> []" and "list_all (plain ''/'') ts"
  shows "split_any ''/'' (slashed ts) = ts"
  using assms by (induction ts rule: slashed.induct) (simp_all add: split_any_plain split_any_sep)

lemma split_parts_slashed:
  assumes "list_all (\<lambda>t. plain ''/'' t \<and> t \<noteq> []) ts" and "ts \<noteq> []"
  shows "split_parts (slashed ts) = ts"
proof -
  have "list_all (plain ''/'') ts" "last ts \<noteq> []" using assms by (auto simp: list_all_iff)
  with assms(2) show ?thesis by (simp add: split_parts_def split_slashed)
qed

lemma split_matrix:
  assumes "plain '';='' t" and "list_all (\<lambda>(k, v). plain '';='' k \<and> plain '';='' v) ms"
  shows "split_any '';='' (t @ matrix_text ms) = t # flat_pairs ms"
  using assms
proof (induction ms arbitrary: t)
  case Nil
  then show ?case by (simp add: split_any_plain)
next
  case (Cons m ms)
  obtain k v where m: "m = (k, v)" by (cases m)
  have ok: "plain '';='' k" "plain '';='' v" "list_all (\<lambda>(k, v). plain '';='' k \<and> plain '';='' v) ms"
    using Cons.prems(2) by (simp_all add: m)
  have "split_any '';='' (t @ CHR '';'' # k @ CHR ''='' # v @ matrix_text ms) = t # k # split_any '';='' (v @ matrix_text ms)"
    by (simp add: split_any_sep [OF Cons.prems(1)] split_any_sep [OF ok(1)])
  then show ?case using Cons.IH [OF ok(2,3)] by (simp add: m)
qed

lemma flat_pairs_simps:
  "length (flat_pairs ms) = 2 * length ms"
  "matrix_pairs (flat_pairs ms) h = fold (\<lambda>(k, v). smap_put k v) ms h"
  by (induction ms arbitrary: h) auto

lemma plain_slashed: "list_all (plain '';='') ts \<Longrightarrow> plain '';='' (slashed ts)"
  by (induction ts rule: slashed.induct) (auto simp: plain_def)

lemma slashed_not_Nil: "ts \<noteq> [] \<Longrightarrow> [] \<notin> set ts \<Longrightarrow> slashed ts \<noteq> []"
  by (induction ts rule: slashed.induct) auto

lemma matrix_semicolon: "CHR '';'' \<in> set (matrix_text ms) \<longleftrightarrow> ms \<noteq> [] \<or> False"
  by (cases ms) auto

lemma split_path_args_parts:
  assumes "list_all (\<lambda>t. plain ''/;='' t \<and> t \<noteq> []) ts" and "ts \<noteq> []"
    and "list_all (\<lambda>(k, v). plain '';='' k \<and> plain '';='' v) ms"
  shows "split_path_args (''/'' @ slashed ts @ matrix_text ms) = Inr (ts, fold (\<lambda>(k, v). smap_put k v) ms [])"
proof -
  have seg: "list_all (\<lambda>t. plain ''/'' t \<and> t \<noteq> []) ts" "list_all (plain '';='') ts" "[] \<notin> set ts"
    using assms(1) by (auto simp: list_all_iff plain_def)
  have "CHR '';'' \<notin> set (slashed ts)" using plain_slashed [OF seg(2)] by (auto simp: plain_def)
  then show ?thesis
    using split_parts_slashed [OF seg(1) assms(2)] split_matrix [OF plain_slashed [OF seg(2)] assms(3)] slashed_not_Nil [OF assms(2) seg(3)]
    by (cases "ms = []") (simp_all add: split_path_args_def Let_def flat_pairs_simps matrix_semicolon)
qed

text \<open>
  C29: a request reaches the function its path names. For a URI made of the prefix of the block, a version, a resource, arguments and matrix
  arguments, in which no part holds a separator, the module finds these parts again, and the matrix
  arguments as a map (the last value of a name counts).
\<close>

theorem request_path_roundtrip:
  assumes "no2slash (rq_uri r) = gc_path_prefix c @ ''/'' @ slashed ((CHR ''v'' # d # ver) # resource # args) @ matrix_text ms"
    and "is_digit d" and "list_all (\<lambda>t. plain ''/;='' t \<and> t \<noteq> []) ((d # ver) # resource # args)"
    and "list_all (\<lambda>(k, v). plain '';='' k \<and> plain '';='' v) ms"
  shows "request_path no2slash c r = Inr ((CHR ''v'' # d # ver, resource, args), fold (\<lambda>(k, v). smap_put k v) ms [])"
proof -
  have "list_all (\<lambda>t. plain ''/;='' t \<and> t \<noteq> []) ((CHR ''v'' # d # ver) # resource # args)"
    using assms(3) by (simp add: plain_def)
  from split_path_args_parts [OF this _ assms(4)] assms(1-3) show ?thesis by (simp add: request_path_def)
qed

text \<open>Nothing is written to the client before an exception.\<close>

lemma px_bind_Inl:
  "px_bind m f s = Some (Inl e, s') \<longleftrightarrow> m s = Some (Inl e, s') \<or> (\<exists>a t. m s = Some (Inr a, t) \<and> f a t = Some (Inl e, s'))"
  by (auto simp: px_bind_def split: option.splits prod.splits sum.splits)

lemma ap_rt_reply: "ap_rt m (p, w) = Some (x, p', w') \<Longrightarrow> p' = p"
  by (auto simp: ap_rt_def split: option.splits)

lemma write_reply_throws: "write_reply env base j resp (p, w) = Some (Inl e, p', w') \<Longrightarrow> rp_body p' = rp_body p"
  by (auto simp: write_reply_def px_then_def px_bind_Inl ap_reply_with_def px_modify_def put_headers_def location_header_def
      dest!: ap_rt_reply split: if_splits)

lemma throws_before_body: "handle_request env n c r (p, w) = Some (Inl e, p', w') \<Longrightarrow> rp_body p' = rp_body p"
  by (auto simp: handle_request_def px_bind_Inl px_lift_def px_return_def dest!: ap_rt_reply write_reply_throws split: if_splits)

lemma exception_answered:
  assumes "json_text (rt_lib env)" and "rq_handler r = ''gearbox-handler''" and "\<not> rq_file_exists r"
    and "handle_request env no2slash c r (new_reply, w) = Some (Inl e, p, w')" and "e \<noteq> NullDereference"
    and "in_int64 (fst (http_error e))"
  shows "\<exists>d. gearbox_handler env no2slash c r (new_reply, w)
      = Some (Inr DONE, p\<lparr>rp_status := fst (http_error e), rp_body := json_serialize (rt_lib env) d\<rparr>, w')
    \<and> parse_text (rt_lib env) st None (json_serialize (rt_lib env) d) = Inr d
    \<and> json_get [] ''code'' d = Inr (JInt (fst (http_error e))) \<and> json_get [] ''messages'' d = Inr (JArray [JString (snd (http_error e))])
    \<and> json_get [] ''operation'' d = Inr (JString (operation_of (rq_method r))) \<and> json_get [] ''state'' d = Inr (JString ''COMPLETED'')"
proof -
  let ?r = "r\<lparr>rq_uri := no2slash (rq_uri r)\<rparr>" and ?c = "fst (http_error e)" and ?m = "snd (http_error e)"
  define ms :: "(string, 'a json) smap" where "ms = [(''code'', JInt ?c), (''messages'', JArray [JString ?m]), (''operation'', JString (operation_of (rq_method r))),
    (''progress'', JInt 100), (''state'', JString ''COMPLETED''), (''uri'', JString (hosturi ?r @ rq_uri ?r))]"
  have d: "error_doc ?r ?c ?m = Inr (JObject ms)"
    by (simp add: error_doc_def json_set_undef json_set_object smap_wf_def json_upd_key_def json_ref_key_def json_addKey_def json_as_object_def
        smap_insert_def smap_find_def json_upd_at_def json_ref_at_def json_as_array_def growArray_def ms_def)
  have "text_safe (rt_lib env) (JObject ms)" using assms(6) by (simp add: text_safe_def smap_wf_def ms_def in_int64_def)
  note parse = json_text.parse_text_serialize [OF assms(1) this, of st]
  have "gearbox_handler env no2slash c r (new_reply, w)
      = Some (Inr DONE, p\<lparr>rp_status := ?c, rp_body := json_serialize (rt_lib env) (JObject ms)\<rparr>, w')"
    using assms(2-5) d throws_before_body [OF assms(4)] by (simp add: new_reply_def gearbox_handler_def px_then_def px_bind_def px_catch_def error_response_def px_lift_def ap_reply_with_def
        px_modify_def px_return_def)
  with parse show ?thesis by (intro exI [of _ "JObject ms"]) (simp add: json_get_def smap_find_def ms_def)
qed

text \<open>
  C30: whatever goes wrong, the client is told. An exception in the handling of a request makes a reply with the code of the exception (400 for a
  malformed document, 500 for what has no code of its own) whose body is a document with that code, the
  message, the operation and the state COMPLETED. Only a crash has no reply.
\<close>

theorem error_reply:
  assumes "json_text (rt_lib env)" and "rq_handler r = ''gearbox-handler''" and "\<not> rq_file_exists r"
    and "handle_request env no2slash c r (new_reply, w) = Some (Inl e, p, w')" and "e \<noteq> NullDereference"
    and "in_int64 (fst (http_error e))"
  shows "\<exists>d. gearbox_handler env no2slash c r (new_reply, w)
      = Some (Inr DONE, p\<lparr>rp_status := fst (http_error e), rp_body := json_serialize (rt_lib env) d\<rparr>, w')
    \<and> parse_text (rt_lib env) st None (json_serialize (rt_lib env) d) = Inr d
    \<and> json_get [] ''code'' d = Inr (JInt (fst (http_error e))) \<and> json_get [] ''messages'' d = Inr (JArray [JString (snd (http_error e))])
    \<and> json_get [] ''operation'' d = Inr (JString (operation_of (rq_method r))) \<and> json_get [] ''state'' d = Inr (JString ''COMPLETED'')"
  by (rule exception_answered [OF assms])

definition demo_request :: "string \<Rightarrow> ap_request" where
  "demo_request u = \<lparr>rq_handler = ''gearbox-handler'', rq_file_exists = False, rq_uri = u, rq_method = ''PUT'', rq_scheme = ''http'',
     rq_server = ''h'', rq_port = 80, rq_default_port = True, rq_args = None, rq_headers_in = [], rq_subprocess_env = [],
     rq_header_only = False, rq_body = []\<rparr>"

definition demo_block :: gearbox_cfg where
  "demo_block = create_dir_config\<lparr>gc_path_prefix := location_prefix ''/rm/v1/res''\<rparr>"

theorem request_path_roundtrip_witness:
  "request_path id demo_block (demo_request ''/rm/v1/res/a/b;k=1;k=2'') = Inr ((''v1'', ''res'', [''a'', ''b'']), [(''k'', ''2'')])"
proof -
  have "gc_path_prefix demo_block = ''/rm''" by (simp add: demo_block_def) code_simp
  with request_path_roundtrip [of id "demo_request ''/rm/v1/res/a/b;k=1;k=2''" demo_block "CHR ''1''" "[]" "''res''" "[''a'', ''b'']"
      "[(''k'', ''1''), (''k'', ''2'')]"]
  show ?thesis by (simp add: demo_request_def plain_def is_digit_def)
qed

text \<open>A request without a version.\<close>

theorem error_reply_witness:
  "\<exists>p. gearbox_handler demo_rt_env id demo_block (demo_request ''/rm/x'') (new_reply, demo_rworld) = Some (Inr DONE, p, demo_rworld) \<and> rp_status p = 400"
proof -
  define m where "m = ''Invalid API version designation.''"
  have path: "request_path id demo_block (demo_request ''/rm/x'') = Inl (ERR_BAD_REQUEST ''Invalid API version designation.'')" by code_simp
  have run: "handle_request demo_rt_env id demo_block (demo_request ''/rm/x'') (new_reply, demo_rworld) = Some (Inl (ERR_BAD_REQUEST m), new_reply, demo_rworld)"
    by (simp add: handle_request_def px_bind_def px_lift_def path m_def)
  have e: "fst (http_error (ERR_BAD_REQUEST m)) = 400" "ERR_BAD_REQUEST m \<noteq> NullDereference"
    by (simp_all add: http_error_def ERR_BAD_REQUEST_def mk_error_def)
  have lib: "json_text (rt_lib demo_rt_env)" using wire.json_text_axioms by (simp add: demo_rt_env_def demo_jm_env_def)
  have "rq_handler (demo_request ''/rm/x'') = ''gearbox-handler''" "\<not> rq_file_exists (demo_request ''/rm/x'')" by (simp_all add: demo_request_def)
  from error_reply [OF lib this run e(2), of "FormatMap wire_lib"] e(1) show ?thesis by (auto simp: in_int64_def)
qed

end
