(* ===== verification/GB_WorkerRun.thy ===== *)
theory GB_WorkerRun
  imports GB_Worker
begin

text \<open>
  A worker and a synchronous job that it can read: the envelope carries the name of the status, the job is made from it, the status is created and
  started, and the handler is reached.
\<close>

section \<open>An envelope with the name of a status\<close>

definition with_status :: "string \<Rightarrow> 'd job \<Rightarrow> 'd job" where
  "with_status n J = upd_attrs (\<lambda>a. a\<lparr>j_status := n\<rparr>) J"

lemma status_put:
  assumes "smap_wf (envelope_members a on_ms es)" and "n \<noteq> []"
  shows "smap_put ''status'' (JString n) (envelope_members a on_ms es) = envelope_members (a\<lparr>j_status := n\<rparr>) on_ms es"
proof (rule smap_wf_ext)
  show "smap_wf (envelope_members (a\<lparr>j_status := n\<rparr>) on_ms es)"
    unfolding envelope_members_def attr_members_def by (simp add: put_when_def smap_wf_put del: smap_put.simps)
  show "smap_find (smap_put ''status'' (JString n) (envelope_members a on_ms es)) k = smap_find (envelope_members (a\<lparr>j_status := n\<rparr>) on_ms es) k" for k
  proof (cases "k = ''status''")
    case True
    then show ?thesis using assms(2) by (simp add: smap_find_put envelope_find attr_find)
  next
    case False
    with assms(2) show ?thesis
      by (cases a) (simp only: job_attrs.select_convs job_attrs.update_convs smap_find_put envelope_find attr_find if_False simp_thms job_attrs.simps remote_members_def resource_members_def)
  qed
qed (rule smap_wf_put [OF assms(1)])

lemma sent_doc_members:
  assumes "json_text lib" and "sendable lib (Job a hs es)"
  shows "sent_doc lib st (Job a hs es) = JObject (envelope_members a (handler_map (sent_doc lib st) (live_handlers hs) []) (status_doc es))"
proof -
  have ok: "attrs_sendable a" "smap_wf hs" "status_sendable lib es" using assms(2) by simp_all
  have "job_to_json lib st (Job a hs es)
      = Inr (JObject (envelope_members a (handler_map (sent_doc lib st) (live_handlers hs) []) (status_doc es)))"
  proof (rule job_document(1) [OF assms(1) ok])
    show "job_to_json lib st h = Inr (sent_doc lib st h) \<and> text_safe lib (sent_doc lib st h)" if "(e, h) \<in> set (live_handlers hs)" for e h
      using that assms(2) job_sent [OF assms(1), of h st] by (fastforce simp: live_handlers_set list_all_iff)
  qed
  then show ?thesis unfolding sent_doc_def [of lib st "Job a hs es"] by (simp del: job_to_json.simps)
qed

lemma status_named:
  assumes "json_text lib" and "sendable lib J" and "n \<noteq> []"
  shows "sendable lib (with_status n J)" and "json_set ''status'' (JString n) (sent_doc lib st J) = Inr (sent_doc lib st (with_status n J))"
proof -
  obtain a hs es where J: "J = Job a hs es" by (cases J)
  show ok: "sendable lib (with_status n J)"
    using assms(2) by (simp add: J with_status_def upd_attrs_def attrs_sendable_def hashes_ok_def)
  have J': "with_status n J = Job (a\<lparr>j_status := n\<rparr>) hs es" by (simp add: J with_status_def upd_attrs_def)
  have "text_safe lib (sent_doc lib st J)" using job_sent [OF assms(1,2)] by blast
  from text_safe_find [OF this [unfolded J sent_doc_members [OF assms(1) assms(2) [unfolded J]]]]
  show "json_set ''status'' (JString n) (sent_doc lib st J) = Inr (sent_doc lib st (with_status n J))"
    unfolding J' unfolding J sent_doc_members [OF assms(1) assms(2) [unfolded J]] sent_doc_members [OF assms(1) ok [unfolded J']]
    using status_put [OF _ assms(3)] by (simp add: json_set_object)
qed

section \<open>What a worker is given\<close>

text \<open>The worker can read the envelope of the job, under whatever name its status has.\<close>

definition accepts :: "('d, 'z) wk_env \<Rightarrow> ('d, 'z) wworld \<Rightarrow> (string \<Rightarrow> 'd json) \<Rightarrow> bool" where
  "accepts wk x D \<longleftrightarrow> jm_ok (rt_jm (wk_rt wk)) (rw_jm (ww_rt x)) \<and>
     (case load_schema (rt_jm (wk_rt wk)) ''job-envelope'' (rw_jm (ww_rt x)) of
        (Inl _, _) \<Rightarrow> False
      | (Inr sch, _) \<Rightarrow> \<forall>n. parse_text (rt_lib (wk_rt wk)) (rt_statics (wk_rt wk)) sch (json_serialize (rt_lib (wk_rt wk)) (D n)) = Inr (D n))"

lemma accepted_job:
  assumes "json_text (rt_lib (wk_rt wk))" and "sendable (rt_lib (wk_rt wk)) (with_status n J)"
    and "accepts wk x (\<lambda>n. sent_doc (rt_lib (wk_rt wk)) st (with_status n J))"
  shows "\<exists>jw. job_of_text (rt_jm (wk_rt wk)) (j_name (attrs J)) (json_serialize (rt_lib (wk_rt wk)) (sent_doc (rt_lib (wk_rt wk)) st (with_status n J)))
      (rw_jm (ww_rt x)) = (Inr (as_sent (with_status n J)), jw)"
proof -
  let ?e = "rt_jm (wk_rt wk)" and ?d = "sent_doc (rt_lib (wk_rt wk)) st (with_status n J)"
  obtain sch jw where sch: "load_schema ?e ''job-envelope'' (rw_jm (ww_rt x)) = (Inr sch, jw)"
    and parse: "parse_text (rt_lib (wk_rt wk)) (rt_statics (wk_rt wk)) sch (json_serialize (rt_lib (wk_rt wk)) ?d) = Inr ?d"
    using assms(3) by (auto simp: accepts_def split: prod.splits sum.splits)
  have "jm_ok ?e (rw_jm (ww_rt x))" using assms(3) by (simp add: accepts_def)
  then have "jm_ok ?e jw" using load_schema_ok [of ?e _ "''job-envelope''"] sch same_jm_ok by fastforce
  moreover have "receives ?e (sent_doc (rt_lib (wk_rt wk)) st) (with_status n J)" using job_sent [OF assms(1,2)] by blast
  moreover have "j_name (attrs (with_status n J)) = j_name (attrs J)" by (simp add: with_status_def upd_attrs_def)
  ultimately obtain jw' where "job_of_envelope ?e (j_name (attrs J)) ?d jw = (Inr (as_sent (with_status n J)), jw')"
    unfolding receives_def by metis
  with sch parse show ?thesis by (simp add: job_of_text_def sx_bind_def sx_lift_def)
qed

section \<open>The status of a running job\<close>

text \<open>The local status object is transient, and the world holds its attributes and its block.\<close>

definition holds :: "('d, 'x) run_state \<Rightarrow> 'd tworld \<Rightarrow> bool" where
  "holds s t \<longleftrightarrow> rs_status s = Some (TransientObj (t_obj t) (t_ref t)) \<and> rw_t (ww_rt (rs_w s)) = t"

definition status_now :: "'d tworld \<Rightarrow> ('d, 'x) run_state \<Rightarrow> ('d, 'x) run_state" where
  "status_now t s = set_rt ((ww_rt (rs_w s))\<lparr>rw_t := t\<rparr>) (s\<lparr>rs_status := Some (TransientObj (t_obj t) (t_ref t))\<rparr>)"

lemma status_now_simps [simp]:
  "holds (status_now t s) t" "rs_resp (status_now t s) = rs_resp s" "rs_job (status_now t s) = rs_job s" "rs_ran (status_now t s) = rs_ran s"
  by (simp_all add: holds_def status_now_def set_rt_def)

lemma on_status_step:
  assumes "holds s t" and "mt t = (r, t')"
  shows "on_status (obj_call mt mq mj) s = Some (r, status_now t' s)"
proof -
  have "(rw_t (ww_rt (rs_w s)))\<lparr>t_obj := t_obj t, t_ref := t_ref t\<rparr> = t" using assms(1) by (simp add: holds_def)
  with assms show ?thesis by (simp add: on_status_def obj_call_def on_transient_def holds_def status_now_def)
qed

text \<open>What the calls on the status leave: the job, the response, the jobs for afterwards, and every block.\<close>

lemma t_blocks [simp]:
  "dom (t_store (t_upd_data f w)) = dom (t_store w)" "dom (t_store (t_both f w)) = dom (t_store w)" "dom (t_store (t_mtime now w)) = dom (t_store w)"
  "dom (t_store (snd (t_super_state now st w))) = dom (t_store w)" "dom (t_store (snd (t_set_state now st w))) = dom (t_store w)"
  by (auto simp: t_upd_data_def t_put_data_def t_data_def t_both_def t_upd_obj_def t_mtime_def t_super_state_def t_set_state_def
      split: option.splits prod.splits bool.splits if_splits)

lemma t_load_blocks: "dom (t_store (snd (t_load now w))) = dom (t_store w)"
  by (auto simp: t_load_def Let_def t_refresh_def t_upd_obj_def split: option.split)

text \<open>The services of the worker: what its libraries act on.\<close>

abbreviation outside :: "('d, 'x) wworld \<Rightarrow> 'x" where
  "outside x \<equiv> rw_x (ww_rt x)"

definition keeps :: "('d, 'x) run_state \<Rightarrow> ('d, 'x) run_state \<Rightarrow> bool" where
  "keeps s s' \<longleftrightarrow> rs_job s' = rs_job s \<and> rs_resp s' = rs_resp s \<and> rs_ran s' = rs_ran s \<and> ww_afterwards (rs_w s') = ww_afterwards (rs_w s) \<and>
     outside (rs_w s') = outside (rs_w s) \<and> dom (t_store (rw_t (ww_rt (rs_w s)))) \<subseteq> dom (t_store (rw_t (ww_rt (rs_w s'))))"

lemma keeps_trans [trans]: "keeps s s' \<Longrightarrow> keeps s' s'' \<Longrightarrow> keeps s s''"
  by (auto simp: keeps_def)

lemma keeps_status_now: "holds s t \<Longrightarrow> dom (t_store t) \<subseteq> dom (t_store t') \<Longrightarrow> keeps s (status_now t' s)"
  by (simp add: keeps_def status_now_def set_rt_def holds_def)

definition started :: "'d tworld \<Rightarrow> bool" where
  "started t \<longleftrightarrow> t_inv t \<and> s_state (t_obj t) = STATE_RUNNING \<and> s_progress (t_obj t) \<le> 100"

lemma start_status_ok:
  assumes "holds s t" and "t_inv t" and "s_state (t_obj t) = STATE_PENDING" and "s_progress (t_obj t) \<le> 100"
  shows "\<exists>t'. start_status env s = Some (Inr (), status_now t' (status_now t s)) \<and> started t' \<and> keeps s (status_now t' (status_now t s))"
proof -
  obtain t' where t': "t_set_state (wk_now env) STATE_RUNNING t = (True, t')" "started t'"
    using t_set_state_inv [OF assms(2), of STATE_RUNNING "wk_now env"] assms(3,4) by (auto simp: validStateTransition_def started_def)
  have "dom (t_store t') = dom (t_store t)" using t_blocks(5) [of "wk_now env" STATE_RUNNING t] t'(1) by simp
  then have kept: "keeps s (status_now t' (status_now t s))"
    using keeps_trans [OF keeps_status_now [OF assms(1), of t] keeps_status_now [of "status_now t s" t t']] by simp
  have 1: "on_status (so_state (wk_now env)) s = Some (Inr STATE_PENDING, status_now t s)"
    unfolding so_state_def by (rule on_status_step [OF assms(1)]) (simp add: transient_vt_same transient_base_vt_def assms(3))
  have "on_status (so_set_state (wk_now env) STATE_RUNNING) (status_now t s) = Some (Inr True, status_now t' (status_now t s))"
    unfolding so_set_state_def by (rule on_status_step [of _ t]) (simp_all add: transient_vt_same transient_base_vt_def t'(1))
  with 1 t'(2) kept show ?thesis by (auto simp: start_status_def px_bind_def px_return_def)
qed

lemma set_parent_holds:
  "in_world (set_parent u) s = Some (Inr (), s\<lparr>rs_w := (rs_w s)\<lparr>ww_rt := (ww_rt (rs_w s))\<lparr>rw_jm := (rw_jm (ww_rt (rs_w s)))\<lparr>w_parent_uri := u\<rparr>\<rparr>\<rparr>\<rparr>)"
  by (simp add: in_world_def set_parent_def px_modify_def)

lemma set_parent_keeps:
  "keeps s (s\<lparr>rs_w := (rs_w s)\<lparr>ww_rt := (ww_rt (rs_w s))\<lparr>rw_jm := (rw_jm (ww_rt (rs_w s)))\<lparr>w_parent_uri := u\<rparr>\<rparr>\<rparr>\<rparr>)"
  by (simp add: keeps_def)

lemma the_status_holds: "holds s t \<Longrightarrow> the_status s = Some (Inr (TransientObj (t_obj t) (t_ref t)), s)"
  by (simp add: the_status_def holds_def)

section \<open>Reaching the handler\<close>

text \<open>Nothing stands between the status and the handler: no job waits for the start of this one, and the hook before the request has nothing to do.\<close>

definition no_start_event :: "'d job \<Rightarrow> bool" where
  "no_start_event j \<longleftrightarrow> (case smap_find (handlers j) JEVENT_STARTED of Some (Some _) \<Rightarrow> False | _ \<Rightarrow> True)"

definition idle_hook :: "('d, 'x) wk_env \<Rightarrow> bool" where
  "idle_hook wk \<longleftrightarrow> (\<forall>j w. wk_pre_request wk j w = Some (Inr (), w))"

lemma started_event:
  assumes "holds s t" and "rs_job s = Some j" and "no_start_event j"
  shows "raise_event env JEVENT_STARTED the_status s = Some (Inr (), s)"
proof -
  have "handle_event env JEVENT_STARTED j a w = Some (Inr (), w)" for a w
    using assms(3) by (simp add: handle_event_def job_handler_def no_start_event_def px_return_def split: option.splits)
  then show ?thesis using assms(2) the_status_holds [OF assms(1)] by (simp add: raise_event_def px_bind_def current_job_def in_world_def)
qed

lemma setup_rest:
  assumes "holds s t" and "t_inv t" and "s_state (t_obj t) = STATE_PENDING" and "s_progress (t_obj t) \<le> 100"
    and "rs_job s = Some j" and "no_start_event j" and "idle_hook env"
  shows "\<exists>s' t'. px_bind (on_status so_starting) (\<lambda>_. px_bind the_status (\<lambda>ob. px_bind (in_world (set_parent (so_uri ob))) (\<lambda>_.
      px_bind (start_status env) (\<lambda>_. px_bind (raise_event env JEVENT_STARTED the_status) (\<lambda>_. px_bind the_status (\<lambda>ob.
      px_bind (in_world (set_parent (base @ ''/status/'' @ so_name ob))) (\<lambda>_. px_bind (in_world (wk_pre_request env j)) (\<lambda>_. px_return j)))))))) s
    = Some (Inr j, s') \<and> holds s' t' \<and> started t' \<and> keeps s s'"
proof -
  define t1 where "t1 = t_starting t"
  have t1: "t_inv t1" "s_state (t_obj t1) = STATE_PENDING" "s_progress (t_obj t1) \<le> 100"
    unfolding t1_def t_starting_def t_concurrency_def using assms(2-4) by (auto intro!: t_inv_both simp: keeps_name_def status_writes)
  define s1 where "s1 = status_now t1 s"
  have 1: "on_status so_starting s = Some (Inr (), s1)"
    unfolding so_starting_def s1_def by (rule on_status_step [OF assms(1)]) (simp add: t1_def sx_modify_def)
  have k1: "holds s1 t1" "keeps s s1" using keeps_status_now [OF assms(1), of t1] by (simp_all add: s1_def t1_def t_starting_def t_concurrency_def)
  define s2 where "s2 = s1\<lparr>rs_w := (rs_w s1)\<lparr>ww_rt := (ww_rt (rs_w s1))\<lparr>rw_jm := (rw_jm (ww_rt (rs_w s1)))
    \<lparr>w_parent_uri := so_uri (TransientObj (t_obj t1) (t_ref t1))\<rparr>\<rparr>\<rparr>\<rparr>"
  have k2: "holds s2 t1" "keeps s s2" using k1 keeps_trans [OF k1(2) set_parent_keeps] by (simp_all add: s2_def holds_def)
  obtain t2 where start: "start_status env s2 = Some (Inr (), status_now t2 (status_now t1 s2))" and t2: "started t2"
    and k: "keeps s2 (status_now t2 (status_now t1 s2))" using start_status_ok [OF k2(1) t1] by blast
  define s3 where "s3 = status_now t2 (status_now t1 s2)"
  have k3: "holds s3 t2" "keeps s s3" "rs_job s3 = Some j"
    using keeps_trans [OF k2(2) k] assms(5) by (simp_all add: s3_def) (simp add: keeps_def)
  define s4 where "s4 = s3\<lparr>rs_w := (rs_w s3)\<lparr>ww_rt := (ww_rt (rs_w s3))\<lparr>rw_jm := (rw_jm (ww_rt (rs_w s3)))
    \<lparr>w_parent_uri := base @ ''/status/'' @ so_name (TransientObj (t_obj t2) (t_ref t2))\<rparr>\<rparr>\<rparr>\<rparr>"
  have k4: "holds s4 t2" "keeps s s4" using k3 keeps_trans [OF k3(2) set_parent_keeps] by (simp_all add: s4_def holds_def)
  have "in_world (wk_pre_request env j) z = Some (Inr (), z)" for z using assms(7) by (simp add: in_world_def idle_hook_def)
  then have "px_bind (on_status so_starting) (\<lambda>_. px_bind the_status (\<lambda>ob. px_bind (in_world (set_parent (so_uri ob))) (\<lambda>_.
      px_bind (start_status env) (\<lambda>_. px_bind (raise_event env JEVENT_STARTED the_status) (\<lambda>_. px_bind the_status (\<lambda>ob.
      px_bind (in_world (set_parent (base @ ''/status/'' @ so_name ob))) (\<lambda>_. px_bind (in_world (wk_pre_request env j)) (\<lambda>_. px_return j)))))))) s
    = Some (Inr j, s4)"
    using 1 start the_status_holds [OF k1(1)] the_status_holds [OF k3(1)] started_event [OF k3(1,3) assms(6)]
    by (simp add: px_bind_def px_return_def set_parent_holds s4_def flip: s2_def s3_def)
  with k4 t2 show ?thesis by blast
qed

text \<open>
  The state in which the handler is called: the job and its running status are there, the response is empty and has the status that was
  created for it, whose block exists.
\<close>

definition backed_by :: "'d job_response \<Rightarrow> ('d, 'x) wworld \<Rightarrow> bool" where
  "backed_by resp x \<longleftrightarrow> (case jr_status resp of Some (TransientObj a (Some b)) \<Rightarrow> t_store (rw_t (ww_rt x)) b \<noteq> None | _ \<Rightarrow> False)"

abbreviation backed :: "('d, 'x) run_state \<Rightarrow> bool" where
  "backed s \<equiv> backed_by (rs_resp s) (rs_w s)"

definition fresh_response :: "'d job_response \<Rightarrow> bool" where
  "fresh_response resp \<longleftrightarrow> jr_content resp = [] \<and> jr_headers resp = [] \<and> jr_code resp = 0"

definition ready :: "'d job \<Rightarrow> ('d, 'x) wworld \<Rightarrow> ('d, 'x) run_state \<Rightarrow> bool" where
  "ready j x s \<longleftrightarrow> (\<exists>t. holds s t \<and> started t) \<and> rs_job s = Some j \<and> fresh_response (rs_resp s) \<and> backed s \<and> ww_afterwards (rs_w s) = ww_afterwards x
     \<and> outside (rs_w s) = outside x"

lemma backed_iff: "backed_by resp x \<longleftrightarrow> (\<exists>a b. jr_status resp = Some (TransientObj a (Some b)) \<and> t_store (rw_t (ww_rt x)) b \<noteq> None)"
  by (auto simp: backed_by_def split: option.splits sobj.splits)

lemma keeps_backed: "keeps s s' \<Longrightarrow> backed s \<Longrightarrow> backed s'"
  by (fastforce simp: keeps_def backed_by_def dom_def split: option.splits sobj.splits)

text \<open>The job as the worker sees it can be started: it is synchronous, and its base URI and the URI of its resource are URIs.\<close>

definition startable :: "'d job \<Rightarrow> bool" where
  "startable J \<longleftrightarrow> j_type (attrs J) = JOB_SYNC \<and> j_base_uri (attrs J) \<noteq> [] \<and> (\<exists>u. Uri (j_base_uri (attrs J)) = Inr u) \<and>
     (\<exists>u. job_resource_uri (attrs J) = Inr u) \<and> no_start_event (as_sent J)"

lemma sent_with_status:
  assumes "startable J"
  shows "attrs (as_sent (with_status n J)) = (sent_attrs (attrs J))\<lparr>j_status := n\<rparr>" and "no_start_event (as_sent (with_status n J))"
    and "j_base_uri (sent_attrs (attrs J)) = j_base_uri (attrs J)" and "job_resource_uri (sent_attrs (attrs J)\<lparr>j_status := n\<rparr>) = job_resource_uri (attrs J)"
    and "j_type (sent_attrs (attrs J)) = JOB_SYNC"
  using assms by (cases J; simp add: startable_def with_status_def upd_attrs_def sent_attrs_def no_start_event_def job_resource_uri_def)+

lemma envelope_fields:
  assumes "json_text lib" and "sendable lib J" and "n \<noteq> []" and "j_base_uri (attrs J) \<noteq> []"
  shows "work_string ''base_uri'' (sent_doc lib st (with_status n J)) = Inr (j_base_uri (attrs J))"
    and "work_status (sent_doc lib st (with_status n J)) = Inr n"
proof -
  obtain a hs es where J: "with_status n J = Job a hs es" by (cases "with_status n J")
  have a: "j_status a = n" "j_base_uri a = j_base_uri (attrs J)" using J by (auto simp: with_status_def upd_attrs_def)
  have ok: "sendable lib (Job a hs es)" using status_named(1) [OF assms(1-3)] J by simp
  have wf: "smap_wf (envelope_members a (handler_map (sent_doc lib st) (live_handlers hs) []) (status_doc es))"
    using job_sent [OF assms(1) ok, of st] sent_doc_members [OF assms(1) ok, of st] text_safe_find by metis
  show "work_string ''base_uri'' (sent_doc lib st (with_status n J)) = Inr (j_base_uri (attrs J))"
    unfolding J sent_doc_members [OF assms(1) ok] work_string_def using a assms(4)
    by (simp add: ref_key_present [OF wf, of _ "JString (j_base_uri (attrs J))"] envelope_find attr_find json_as_string_def)
  show "work_status (sent_doc lib st (with_status n J)) = Inr n"
    unfolding J sent_doc_members [OF assms(1) ok] work_string_def work_status_def using a assms(3)
    by (simp add: ref_key_present [OF wf, of _ "JString n"] envelope_find attr_find json_as_string_def json_hasKey_def)
qed

text \<open>The worker gets the envelope of a job under the name of a status.\<close>

definition given :: "('d, 'x) wk_env \<Rightarrow> schema_statics \<Rightarrow> 'd job \<Rightarrow> string \<Rightarrow> ('d, 'x) wworld \<Rightarrow> string \<Rightarrow> bool" where
  "given wk st J n x payload \<longleftrightarrow> n \<noteq> [] \<and> sendable (rt_lib (wk_rt wk)) J \<and> startable J \<and> accepts wk x (\<lambda>n. sent_doc (rt_lib (wk_rt wk)) st (with_status n J)) \<and>
     wk_decompress wk payload = Inr (json_serialize (rt_lib (wk_rt wk)) (sent_doc (rt_lib (wk_rt wk)) st (with_status n J)))"

lemma job_status_created:
  assumes "startable J" and "n \<noteq> []"
  shows "\<exists>t. job_status wk (as_sent (with_status n J)) n x = Some (Inr (TransientObj (t_obj t) (t_ref t)), x\<lparr>ww_rt := (ww_rt x)\<lparr>rw_t := t\<rparr>\<rparr>)
    \<and> t_inv t \<and> s_state (t_obj t) = STATE_PENDING \<and> s_progress (t_obj t) \<le> 100 \<and> s_name (t_obj t) = n"
proof -
  note sent = sent_with_status [OF assms(1)]
  obtain u v where uri: "Uri (j_base_uri (attrs J)) = Inr u" "job_resource_uri (attrs J) = Inr v" using assms(1) by (auto simp: startable_def)
  let ?a = "(sent_attrs (attrs J))\<lparr>j_status := n\<rparr>"
  let ?t = "t_create (wk_now wk) [] n (j_operation ?a) v (j_component ?a) (rw_t (ww_rt x))"
  have "job_status wk (as_sent (with_status n J)) n x = Some (Inr (TransientObj (t_obj ?t) (t_ref ?t)), x\<lparr>ww_rt := (ww_rt x)\<lparr>rw_t := ?t\<rparr>\<rparr>)"
    using assms(2) sent(3-5) uri by (simp add: job_status_def sent(1) px_bind_def px_lift_def px_return_def on_rt_def sm_create_def newStatusImpl_def
        StatusManager_typed_def string_to_type_def Let_def)
  moreover have "s_state (t_obj ?t) = STATE_PENDING" "s_progress (t_obj ?t) \<le> 100" "s_name (t_obj ?t) = n"
    by (simp_all add: t_create_result(4) created_def new_status_def)
  ultimately show ?thesis using t_create_inv by blast
qed

lemma setup_job_ok:
  assumes "json_text (rt_lib (wk_rt wk))" and "idle_hook wk" and "given wk st J n x payload"
  shows "\<exists>s. setup_job wk (j_name (attrs J)) payload (run_state_of x) = Some (Inr (as_sent (with_status n J)), s) \<and> ready (as_sent (with_status n J)) x s"
proof -
  let ?lib = "rt_lib (wk_rt wk)" and ?J = "as_sent (with_status n J)"
  let ?D = "sent_doc ?lib st (with_status n J)"
  have n: "n \<noteq> []" and send: "sendable ?lib J" and start: "startable J" and acc: "accepts wk x (\<lambda>n. sent_doc ?lib st (with_status n J))"
    and zip: "wk_decompress wk payload = Inr (json_serialize ?lib ?D)" using assms(3) by (simp_all add: given_def)
  have base: "j_base_uri (attrs J) \<noteq> []" using start by (simp add: startable_def)
  note ok = status_named(1) [OF assms(1) send n]
  have parse: "parse_text ?lib (rt_statics (wk_rt wk)) None (json_serialize ?lib ?D) = Inr ?D"
    using job_sent [OF assms(1) ok, of st] json_text.parse_text_serialize [OF assms(1)] by blast
  obtain jw where job: "job_of_text (rt_jm (wk_rt wk)) (j_name (attrs J)) (json_serialize ?lib ?D) (rw_jm (ww_rt x)) = (Inr ?J, jw)"
    using accepted_job [OF assms(1) ok acc] by blast
  define x1 where "x1 = x\<lparr>ww_sm := (ww_sm x)\<lparr>sm_base_uri := j_base_uri (attrs J)\<rparr>, ww_rt := (ww_rt x)\<lparr>rw_jm := jw\<rparr>\<rparr>"
  obtain t where t: "job_status wk ?J n x1 = Some (Inr (TransientObj (t_obj t) (t_ref t)), x1\<lparr>ww_rt := (ww_rt x1)\<lparr>rw_t := t\<rparr>\<rparr>)"
    "t_inv t" "s_state (t_obj t) = STATE_PENDING" "s_progress (t_obj t) \<le> 100" "s_name (t_obj t) = n" using job_status_created [OF start n] by blast
  let ?ob = "TransientObj (t_obj t) (t_ref t)"
  define s1 where "s1 = (run_state_of x)\<lparr>rs_job := Some ?J, rs_status := Some ?ob, rs_resp := (rs_resp (run_state_of x))\<lparr>jr_status := Some ?ob\<rparr>,
    rs_w := x1\<lparr>ww_rt := (ww_rt x1)\<lparr>rw_t := t\<rparr>\<rparr>\<rparr>"
  have h: "holds s1 t" "rs_job s1 = Some ?J" "fresh_response (rs_resp s1)" "ww_afterwards (rs_w s1) = ww_afterwards x"
    "outside (rs_w s1) = outside x"
    by (simp_all add: s1_def holds_def run_state_of_def fresh_response_def new_response_def x1_def)
  have bk: "backed s1" using t(2) by (auto simp: s1_def backed_by_def t_inv_def t_data_def split: option.splits)
  note rest = setup_rest [OF h(1) t(2-4) h(2) sent_with_status(2) [OF start] assms(2), of "j_base_uri (attrs ?J)"]
  obtain s t' where fin: "setup_job wk (j_name (attrs J)) payload (run_state_of x) = Some (Inr ?J, s)" "holds s t'" "started t'"
      "keeps s1 s"
  proof -
    have "setup_job wk (j_name (attrs J)) payload (run_state_of x) = px_bind (on_status so_starting) (\<lambda>_. px_bind the_status (\<lambda>ob.
        px_bind (in_world (set_parent (so_uri ob))) (\<lambda>_. px_bind (start_status wk) (\<lambda>_. px_bind (raise_event wk JEVENT_STARTED the_status) (\<lambda>_.
        px_bind the_status (\<lambda>ob. px_bind (in_world (set_parent (j_base_uri (attrs ?J) @ ''/status/'' @ so_name ob))) (\<lambda>_.
        px_bind (in_world (wk_pre_request wk ?J)) (\<lambda>_. px_return ?J)))))))) s1"
      unfolding setup_job_def px_bind_def [of "px_lift _"] px_bind_def [of "in_world (px_modify _)"] px_bind_def [of "in_world (on_rt _)"]
        px_bind_def [of "px_modify _"] px_bind_def [of "in_world (job_status _ _ _)"]
      using zip parse envelope_fields [OF assms(1) send n base, of st] job t(1)
      by (simp add: px_lift_def in_world_def px_modify_def on_rt_def on_jm_def run_state_of_def s1_def flip: x1_def)
    with rest that show ?thesis by (elim exE conjE) simp
  qed
  have "rs_job s = Some ?J" "fresh_response (rs_resp s)" "ww_afterwards (rs_w s) = ww_afterwards x" "outside (rs_w s) = outside x"
    using fin(4) h(2-5) by (simp_all add: keeps_def)
  with fin keeps_backed [OF fin(4) bk] show ?thesis by (auto simp: ready_def)
qed

text \<open>What the handler returns, with the error that an unexplained failure is turned into.\<close>

definition handler_result :: "string \<Rightarrow> gb_exn + worker_response \<Rightarrow> gb_exn + worker_response" where
  "handler_result name r = (if r = Inr WORKER_ERROR then Inl (unknown_error name) else r)"

lemma handler_reached:
  assumes "json_text (rt_lib (wk_rt wk))" and "idle_hook wk" and "given wk st J n x payload"
  shows "\<exists>s. ready (as_sent (with_status n J)) x s \<and> rs_ran s
    \<and> dispatch_job wk (j_name (attrs J)) h payload (run_state_of x) = (case h (as_sent (with_status n J)) (rs_resp s, rs_w s) of
         None \<Rightarrow> None
       | Some (r, resp, x') \<Rightarrow> Some (handler_result (j_name (attrs J)) r, s\<lparr>rs_resp := resp, rs_w := x'\<rparr>))"
proof -
  obtain s t where su: "setup_job wk (j_name (attrs J)) payload (run_state_of x) = Some (Inr (as_sent (with_status n J)), s)"
    and rd: "ready (as_sent (with_status n J)) x s" and t: "holds s t" "started t"
    using setup_job_ok [OF assms] by (auto simp: ready_def)
  let ?s = "s\<lparr>rs_ran := True\<rparr>"
  have h: "holds ?s t" using t(1) by (simp add: holds_def)
  obtain t' where t': "Status_checkpoint (transient_vt (wk_now wk)) t = (Inr (), t')" "started t'"
    using transient.checkpoint_spec [of t "wk_now wk"] t(2) by (auto simp: started_def told_to_stop_def)
  have dom: "dom (t_store t') = dom (t_store t)"
    using t'(1) t_load_blocks [of "wk_now wk" "snd (t_super_state (wk_now wk) STATE_UNKNOWN t)"]
    by (auto simp: Status_checkpoint_def transient_vt_same transient_base_vt_def t_sync_def sx_defs split: prod.splits sum.splits if_splits)
  have check: "on_status (so_checkpoint (wk_now wk)) ?s = Some (Inr (), status_now t' ?s)"
    unfolding so_checkpoint_def by (rule on_status_step [OF h]) (rule t'(1))
  define s2 where "s2 = status_now t' ?s"
  have k: "keeps ?s s2" using keeps_status_now [OF h] dom by (simp add: s2_def)
  have "backed ?s" using rd by (simp add: ready_def backed_iff)
  with k rd t'(2) have "ready (as_sent (with_status n J)) x s2" "rs_ran s2"
    using keeps_backed [OF k] exI [of "\<lambda>t. holds s2 t \<and> started t" t'] by (auto simp: ready_def keeps_def s2_def)
  moreover have "dispatch_job wk (j_name (attrs J)) h payload (run_state_of x) = (case h (as_sent (with_status n J)) (rs_resp s2, rs_w s2) of
         None \<Rightarrow> None
       | Some (r, resp, x') \<Rightarrow> Some (handler_result (j_name (attrs J)) r, s2\<lparr>rs_resp := resp, rs_w := x'\<rparr>))"
    using su check by (simp add: dispatch_job_def px_bind_def px_modify_def call_handler_def handler_result_def px_throw_def px_return_def
        flip: s2_def split: option.split prod.split sum.split)
  ultimately show ?thesis by blast
qed

section \<open>The answer is given\<close>

text \<open>Calls on a status whose block exists: they return, do not crash, and leave every block.\<close>

definition tame :: "('d tworld, gb_exn, 'a) sx \<Rightarrow> bool" where
  "tame m \<longleftrightarrow> (\<forall>t. t_data t \<noteq> None \<longrightarrow> fst (m t) \<noteq> Inl NullDereference \<and> t_ref (snd (m t)) = t_ref t \<and> dom (t_store (snd (m t))) = dom (t_store t))"

lemma t_data_dom: "t_data t \<noteq> None \<longleftrightarrow> (\<exists>b. t_ref t = Some b \<and> b \<in> dom (t_store t))"
  by (auto simp: t_data_def split: option.splits)

lemma tame_bind:
  assumes "tame (m :: ('d tworld, gb_exn, 'a) sx)" and "\<And>a. tame (f a)"
  shows "tame (sx_bind m f)"
  unfolding tame_def
proof (intro allI impI)
  fix t :: "'d tworld" assume t: "t_data t \<noteq> None"
  obtain r t' where m: "m t = (r, t')" by (cases "m t")
  then have k: "r \<noteq> Inl NullDereference" "t_ref t' = t_ref t" "dom (t_store t') = dom (t_store t)" using assms(1) t unfolding tame_def by (metis fst_conv snd_conv)+
  then have "t_data t' \<noteq> None" using t by (metis t_data_dom)
  with assms(2) have "fst (f a t') \<noteq> Inl NullDereference \<and> t_ref (snd (f a t')) = t_ref t' \<and> dom (t_store (snd (f a t'))) = dom (t_store t')" for a
    unfolding tame_def by blast
  with m k show "fst (sx_bind m f t) \<noteq> Inl NullDereference \<and> t_ref (snd (sx_bind m f t)) = t_ref t \<and> dom (t_store (snd (sx_bind m f t))) = dom (t_store t)"
    by (cases r) (simp_all add: sx_bind_def)
qed

lemma tame_both: "tame (t_deref (t_both f))"
  by (auto simp: tame_def t_deref_def)

lemma tame_basic: "tame (sx_return a)" "e \<noteq> NullDereference \<Longrightarrow> tame (sx_throw e)" "tame (\<lambda>w. (Inr (g w), w))" "tame (lift_pure (t_mtime now))"
  "tame (\<lambda>w. case t_set_state now st w of (b, w') \<Rightarrow> (Inr b, w'))"
  by (simp_all add: tame_def sx_return_def sx_throw_def lift_pure_def split_def) (simp add: t_mtime_def)

lemma tame_writes: "tame (t_add_message now m)" "tame (t_code c)" "tame (t_progress now p)"
  unfolding t_add_message_def t_code_def t_progress_def by (rule tame_both)+

lemma tame_members:
  "tame (v_state (transient_vt now))" "tame (v_progress (transient_vt now))" "tame (Status_is_success (transient_vt now))"
  "tame (v_fail (transient_vt now) c)" "tame (v_success (transient_vt now))"
proof -
  show "tame (v_state (transient_vt now))" and pr: "tame (v_progress (transient_vt now))"
    unfolding transient_vt_same by (simp_all add: transient_base_vt_def tame_basic)
  have cd: "tame (v_code (transient_vt now))" unfolding transient_vt_same by (simp add: transient_base_vt_def tame_basic)
  show "tame (Status_is_success (transient_vt now))" unfolding Status_is_success_def
    by (intro tame_bind pr) (simp add: tame_basic tame_bind cd)
  have "tame (StatusImpl_end (transient_base_vt now) c)" for c
    unfolding StatusImpl_end_def sx_then_def transient_base_vt_def
    by (auto intro!: tame_bind tame_basic tame_writes simp: invalid_change_def ERR_INTERNAL_SERVER_ERROR_def mk_error_def)
  then show "tame (v_fail (transient_vt now) c)" "tame (v_success (transient_vt now))"
    by (simp_all add: transient_vt_def StatusImpl_fail_def StatusImpl_success_def)
qed

text \<open>The same for the calls on the status of the response, while the job is one without handlers for its events.\<close>

definition safe_for :: "'d job \<Rightarrow> ('d, 'x) run_state \<Rightarrow> bool" where
  "safe_for j s \<longleftrightarrow> backed s \<and> rs_job s = Some j"

definition frame :: "('d, 'x) run_state \<Rightarrow> ('d, 'x) run_state \<Rightarrow> bool" where
  "frame s s' \<longleftrightarrow> rs_status s' = rs_status s \<and> rs_ran s' = rs_ran s \<and> ww_afterwards (rs_w s') = ww_afterwards (rs_w s)
     \<and> outside (rs_w s') = outside (rs_w s)"

definition tidy :: "'d job \<Rightarrow> (('d, 'x) run_state, gb_exn, 'a) px \<Rightarrow> bool" where
  "tidy j m \<longleftrightarrow> (\<forall>s. safe_for j s \<longrightarrow> (\<exists>r s'. m s = Some (r, s') \<and> r \<noteq> Inl NullDereference \<and> safe_for j s' \<and> frame s s'))"

named_theorems tidying "computations on the status of the response that return"

lemma tidyD: "tidy j m \<Longrightarrow> safe_for j s \<Longrightarrow> \<exists>r s'. m s = Some (r, s') \<and> r \<noteq> Inl NullDereference \<and> safe_for j s' \<and> frame s s'"
  by (simp add: tidy_def)

lemma tidy_bind [tidying]:
  assumes "tidy j (m :: (('d, 'x) run_state, gb_exn, 'a) px)" and "\<And>a. tidy j (f a)"
  shows "tidy j (px_bind m f)"
  unfolding tidy_def
proof (intro allI impI)
  fix s :: "('d, 'x) run_state" assume "safe_for j s"
  from tidyD [OF assms(1) this] obtain r s' where m: "m s = Some (r, s')" "r \<noteq> Inl NullDereference" "safe_for j s'" "frame s s'" by blast
  show "\<exists>r s'. px_bind m f s = Some (r, s') \<and> r \<noteq> Inl NullDereference \<and> safe_for j s' \<and> frame s s'"
  proof (cases r)
    case (Inr a)
    from tidyD [OF assms(2) m(3), of a] m(1,4) Inr show ?thesis by (auto simp: px_bind_def frame_def)
  qed (use m in \<open>simp add: px_bind_def\<close>)
qed

lemma tidy_then [tidying]: "tidy j m \<Longrightarrow> tidy j n \<Longrightarrow> tidy j (px_then m n)"
  unfolding px_then_def by (rule tidy_bind)

lemma tidy_basic [tidying]:
  "tidy j (px_return a)" "tidy j (px_get g)" "tidy j m \<Longrightarrow> tidy j n \<Longrightarrow> tidy j (if c then m else n)" "tidy j m' \<Longrightarrow> tidy j (px_when c m')"
  by (auto simp: tidy_def px_return_def px_get_def frame_def px_when_def)

lemma tidy_call [tidying]:
  assumes "tame mt"
  shows "tidy j (on_resp_status (obj_call mt mq mj))"
  unfolding tidy_def
proof (intro allI impI)
  fix s assume s: "safe_for j s"
  then obtain a b where ob: "jr_status (rs_resp s) = Some (TransientObj a (Some b))" "t_store (rw_t (ww_rt (rs_w s))) b \<noteq> None"
    by (auto simp: safe_for_def backed_iff)
  let ?t = "(rw_t (ww_rt (rs_w s)))\<lparr>t_obj := a, t_ref := Some b\<rparr>"
  obtain r t where mt: "mt ?t = (r, t)" by (cases "mt ?t")
  have "t_data ?t \<noteq> None" using ob(2) by (simp add: t_data_def)
  then have k: "r \<noteq> Inl NullDereference" "t_ref t = Some b" "dom (t_store t) = dom (t_store ?t)"
    using assms mt unfolding tame_def by (metis fst_conv snd_conv tworld.select_convs(5) tworld.surjective tworld.update_convs(5))+
  then have "t_store t b \<noteq> None" using ob(2) by (auto simp: dom_def set_eq_iff)
  with s ob(1) mt k(1,2) show "\<exists>r s'. on_resp_status (obj_call mt mq mj) s = Some (r, s') \<and> r \<noteq> Inl NullDereference \<and> safe_for j s' \<and> frame s s'"
    by (simp add: on_resp_status_def obj_call_def on_transient_def safe_for_def backed_iff frame_def set_rt_def)
qed

lemma tidy_event [tidying]:
  assumes "handlers j = []"
  shows "tidy j (raise_event env ev the_resp_status)"
proof -
  have "handle_event env ev j a w = Some (Inr (), w)" for a w
    using assms by (simp add: handle_event_def job_handler_def px_return_def smap.find_emp)
  then show ?thesis
    by (auto simp: tidy_def raise_event_def px_bind_def current_job_def the_resp_status_def in_world_def safe_for_def backed_iff frame_def)
qed

lemma tidy_update:
  assumes "handlers j = []"
  shows "tidy j (complete_status env an)" "tidy j (completion_events env)"
proof -
  show "tidy j (complete_status env an)"
    unfolding complete_status_def so_progress_def so_add_message_def so_fail_def so_success_def by (intro tidying tame_members tame_writes)
  show "tidy j (completion_events env)"
    unfolding completion_events_def so_state_def so_is_success_def by (intro tidying tame_members assms)
qed

lemma swallow_tidy:
  assumes "tidy j m" and "safe_for j s"
  shows "\<exists>s'. swallow m s = Some (Inr (), s') \<and> safe_for j s' \<and> frame s s'"
proof -
  obtain r s' where "m s = Some (r, s')" "r \<noteq> Inl NullDereference" "safe_for j s'" "frame s s'" using tidyD [OF assms] by blast
  then show ?thesis by (cases r) (auto simp: swallow_def px_catch_def px_return_def)
qed

lemma update_returns:
  assumes "handlers j = []" and "safe_for j s"
  shows "\<exists>s'. update_status env r an s = Some (Inr (), s') \<and> safe_for j s' \<and> frame s s'"
  using swallow_tidy [OF tidy_then [OF tidy_update [OF assms(1)]] assms(2), of env an env] assms(2)
  by (auto simp: update_status_def px_bind_def px_get_def px_when_def px_return_def frame_def)

lemma afterwards_idle:
  assumes "ww_afterwards (rs_w s) = []"
  shows "\<exists>s'. run_afterwards env an s = Some (Inr (), s') \<and> ww_afterwards (rs_w s') = [] \<and> outside (rs_w s') = outside (rs_w s)"
  using assms by (auto simp: run_afterwards_def px_then_def px_bind_def px_when_def px_return_def px_get_def px_modify_def in_world_def
      clear_afterwards_def swallow_def px_catch_def)

lemma stopping_returns:
  assumes "rs_status s = Some (TransientObj a b)"
  shows "\<exists>s'. job_stopping s = Some (Inr (), s') \<and> rs_job s' = rs_job s \<and> ww_afterwards (rs_w s') = ww_afterwards (rs_w s)
    \<and> outside (rs_w s') = outside (rs_w s)"
  using assms by (simp add: job_stopping_def px_bind_def px_get_def px_when_def on_status_def so_stopping_def obj_call_def on_transient_def sx_modify_def
      set_rt_def)

text \<open>The headers are a map and the code is an \<^verbatim>\<open>int\<close>, as their C++ types say.\<close>

definition in_int32 :: "int \<Rightarrow> bool" where
  "in_int32 i \<longleftrightarrow> - (2 ^ 31) \<le> i \<and> i < 2 ^ 31"

definition typed_response :: "'d job_response \<Rightarrow> bool" where
  "typed_response r \<longleftrightarrow> smap_wf (jr_headers r) \<and> in_int32 (jr_code r)"

lemma fresh_typed: "fresh_response resp \<Longrightarrow> typed_response resp"
  by (simp add: fresh_response_def typed_response_def in_int32_def)

text \<open>
  A handler that comes to an end with the job, does not crash and does not ask to be retried, leaves no jobs for afterwards and keeps the status of its response; the codes it
  leaves or throws are of their type.
\<close>

definition settles :: "('d, 'x) handler \<Rightarrow> 'd job \<Rightarrow> bool" where
  "settles h j \<longleftrightarrow> (\<forall>resp x. backed_by resp x \<longrightarrow> typed_response resp \<longrightarrow> (case h j (resp, x) of
     None \<Rightarrow> False
   | Some (r, resp', x') \<Rightarrow> r \<noteq> Inl NullDereference \<and> r \<noteq> Inr WORKER_RETRY \<and> (\<forall>e. r = Inl e \<longrightarrow> in_int32 (an_code (answer_of e)))
       \<and> backed_by resp' x' \<and> typed_response resp' \<and> ww_afterwards x' = ww_afterwards x))"

lemma conclude_returns:
  assumes "handlers j = []" and "safe_for j s" and "rs_ran s" and "r \<noteq> WORKER_RETRY" and "ww_afterwards (rs_w s) = []"
    and "rs_status s = Some (TransientObj a b)"
  shows "\<exists>s'. conclude env r an s = Some (Inr (JObject (answer_members an (jr_headers (rs_resp s)) (jr_content (rs_resp s)))), s')
    \<and> ww_afterwards (rs_w s') = [] \<and> outside (rs_w s') = outside (rs_w s)"
proof -
  obtain s1 where up: "update_status env r an s = Some (Inr (), s1)" "safe_for j s1" "frame s s1" using update_returns [OF assms(1,2)] by blast
  then obtain s2 where st: "job_stopping s1 = Some (Inr (), s2)" "rs_job s2 = rs_job s1" "ww_afterwards (rs_w s2) = ww_afterwards (rs_w s1)"
      "outside (rs_w s2) = outside (rs_w s1)"
    using stopping_returns [of s1 a b] assms(6) by (auto simp: frame_def)
  have job: "rs_job s = Some j" "rs_job s2 = Some j" using assms(2) up(2) st(2) by (simp_all add: safe_for_def)
  obtain s3 where af: "run_afterwards env an s2 = Some (Inr (), s3)" "ww_afterwards (rs_w s3) = []" "outside (rs_w s3) = outside (rs_w s)"
    using st(4) afterwards_idle [of s2 env an] st(3) up(3) assms(5) by (auto simp: frame_def)
  show ?thesis using up(1) st(1) af(1) af(2,3) job assms(3,4)
    by (simp add: conclude_def requeue_unless_run_def px_bind_def px_get_def px_lift_def answer_doc_members retry_job_def px_when_def px_return_def)
qed

text \<open>
  A worker answers a synchronous job whose handler comes to an end, whatever the handler returns or throws; the handler is
  called once, with the job as it was sent and an empty response, while the services are as they were when the job came in, and they
  are left as the handler left them. The answer says what the handler did.
\<close>

definition handled_answer :: "string \<Rightarrow> gb_exn + worker_response \<Rightarrow> 'd job_response \<Rightarrow> answer" where
  "handled_answer name r resp = (case handler_result name r of Inl e \<Rightarrow> answer_of e | Inr _ \<Rightarrow> answer_ok (jr_code resp))"

definition served_by :: "('d, 'z) handler \<Rightarrow> 'd job \<Rightarrow> 'z \<Rightarrow> gb_exn + worker_response \<Rightarrow> 'd job_response \<Rightarrow> 'z \<Rightarrow> bool" where
  "served_by h j z r resp z' \<longleftrightarrow> (\<exists>resp0 x x'. fresh_response resp0 \<and> backed_by resp0 x \<and> outside x = z \<and> h j (resp0, x) = Some (r, resp, x') \<and> outside x' = z')"

lemma handled_typed:
  assumes "typed_response resp" and "\<forall>e. r = Inl e \<longrightarrow> in_int32 (an_code (answer_of e))"
  shows "in_int32 (an_code (handled_answer name r resp))"
proof -
  have "in_int32 (an_code (answer_of (unknown_error name)))" by (simp add: unknown_error_def answer_of_def ERR_INTERNAL_SERVER_ERROR_def mk_error_def in_int32_def)
  with assms show ?thesis by (auto simp: handled_answer_def handler_result_def answer_ok_def typed_response_def split: sum.splits)
qed

lemma attempt_settled:
  assumes "dispatch_job wk name h payload s0 = Some (handler_result name r, s1)" and "safe_for j s1" and "handlers j = []"
    and "r \<noteq> Inl NullDereference" and "r \<noteq> Inr WORKER_RETRY"
  shows "\<exists>r' s2. attempt wk name h payload s0 = Some (Inr (r', handled_answer name r (rs_resp s1)), s2) \<and> r' \<noteq> WORKER_RETRY \<and> safe_for j s2 \<and> frame s1 s2
    \<and> rs_resp s2 = rs_resp s1"
proof -
  have res: "handler_result name r \<noteq> Inl NullDereference" "handler_result name r \<noteq> Inr WORKER_RETRY"
    using assms(4,5) by (auto simp: handler_result_def unknown_error_def ERR_INTERNAL_SERVER_ERROR_def mk_error_def)
  have ev: "raise_event wk JEVENT_STOPPED the_resp_status s1 = Some (Inr (), s1)"
    using assms(2,3) by (auto simp: raise_event_def px_bind_def current_job_def the_resp_status_def in_world_def safe_for_def backed_iff handle_event_def
        job_handler_def smap.find_emp px_return_def)
  show ?thesis using assms(1,2) res ev
    by (cases "handler_result name r = Inl WorkerStop"; cases "handler_result name r")
      (auto simp: attempt_def frame_def px_then_def px_bind_def px_return_def handled_answer_def)
qed

lemma worker_answers:
  assumes "json_text (rt_lib (wk_rt wk))" and "idle_hook wk" and "given wk st J n x payload" and "handlers J = []" and "ww_afterwards x = []"
    and "settles h (as_sent (with_status n J))"
  shows "\<exists>r resp x'. served_by h (as_sent (with_status n J)) (outside x) r resp (outside x') \<and> ww_afterwards x' = []
    \<and> smap_wf (jr_headers resp) \<and> in_int32 (an_code (handled_answer (j_name (attrs J)) r resp))
    \<and> run_job wk (j_name (attrs J)) h payload x
      = Some (Inr (JObject (answer_members (handled_answer (j_name (attrs J)) r resp) (jr_headers resp) (jr_content resp))), x')"
proof -
  let ?j = "as_sent (with_status n J)" and ?name = "j_name (attrs J)"
  obtain s where rd: "ready ?j x s" "rs_ran s"
    and di: "dispatch_job wk ?name h payload (run_state_of x) = (case h ?j (rs_resp s, rs_w s) of None \<Rightarrow> None
       | Some (r, resp, x') \<Rightarrow> Some (handler_result ?name r, s\<lparr>rs_resp := resp, rs_w := x'\<rparr>))"
    using handler_reached [OF assms(1-3)] by blast
  obtain r resp x' where h: "h ?j (rs_resp s, rs_w s) = Some (r, resp, x')" "r \<noteq> Inl NullDereference" "r \<noteq> Inr WORKER_RETRY" "backed_by resp x'"
    "ww_afterwards x' = ww_afterwards (rs_w s)" and ty: "typed_response resp" "\<forall>e. r = Inl e \<longrightarrow> in_int32 (an_code (answer_of e))"
    using assms(6) [unfolded settles_def, rule_format, of "rs_resp s" "rs_w s"] rd(1) fresh_typed [of "rs_resp s"] by (auto simp: ready_def split: option.splits)
  have by_h: "served_by h ?j (outside x) r resp (outside x')"
    unfolding served_by_def using rd(1) h(1) by (intro exI [of _ "rs_resp s"] exI [of _ "rs_w s"] exI [of _ x']) (simp add: ready_def)
  define s1 where "s1 = s\<lparr>rs_resp := resp, rs_w := x'\<rparr>"
  have s1: "safe_for ?j s1" "rs_ran s1" "ww_afterwards (rs_w s1) = []" "rs_resp s1 = resp" "outside (rs_w s1) = outside x'"
    using rd h(4,5) assms(5) by (auto simp: s1_def safe_for_def ready_def)
  obtain a b where ob: "rs_status s1 = Some (TransientObj a b)" using rd(1) by (auto simp: s1_def ready_def holds_def)
  have no: "handlers ?j = []" using assms(4) by (cases J) (simp add: with_status_def upd_attrs_def)
  have "dispatch_job wk ?name h payload (run_state_of x) = Some (handler_result ?name r, s1)" using di h(1) by (simp add: s1_def)
  from attempt_settled [OF this s1(1) no h(2,3)] s1(4) obtain r' s2
    where at: "attempt wk ?name h payload (run_state_of x) = Some (Inr (r', handled_answer ?name r resp), s2)" "r' \<noteq> WORKER_RETRY" "safe_for ?j s2" "frame s1 s2"
      "rs_resp s2 = resp" by auto
  from conclude_returns [OF no at(3) _ at(2), of a b wk "handled_answer ?name r resp"] at(4) s1(2,3) ob obtain s3
    where "conclude wk r' (handled_answer ?name r resp) s2
        = Some (Inr (JObject (answer_members (handled_answer ?name r resp) (jr_headers (rs_resp s2)) (jr_content (rs_resp s2)))), s3)"
      "ww_afterwards (rs_w s3) = []" "outside (rs_w s3) = outside x'" using s1(5) by (auto simp: frame_def)
  with at(1,5) by_h ty(1) handled_typed [OF ty] show ?thesis by (intro exI [of _ r] exI [of _ resp] exI [of _ "rs_w s3"]) (simp add: run_job_def px_bind_def typed_response_def)
qed

end
