(* ===== verification/GB_Remote.thy ===== *)
theory GB_Remote
  imports GB_Apache GB_WorkerRun
begin

text \<open>
  A client and a worker put together. The world of the client that its libraries act on is a pair of which the second part is the
  world of a worker process; the gearman call of the client runs \<^verbatim>\<open>run_job\<close> of the worker on it. That gearman hands the workload and the answer on as they are is what its
  documentation promises; a worker that dies makes the call fail.
\<close>

section \<open>The worker behind the queue\<close>

definition served :: "('d, 'z) wk_env \<Rightarrow> (string \<Rightarrow> ('d, 'z) handler) \<Rightarrow> string \<Rightarrow> string \<Rightarrow> 'y \<times> ('d, 'z) wworld
    \<Rightarrow> (string option \<times> string option) \<times> 'y \<times> ('d, 'z) wworld" where
  "served wk hs name payload yx = (case run_job wk name (hs name) payload (snd yx) of
     Some (Inr d, x') \<Rightarrow> ((None, Some (json_serialize (rt_lib (wk_rt wk)) d)), fst yx, x')
   | _ \<Rightarrow> ((Some ''worker failed'', None), yx))"

text \<open>The other calls of the client leave the worker alone.\<close>

definition apart :: "('d, 'y \<times> 'w) rt_env \<Rightarrow> bool" where
  "apart env \<longleftrightarrow> (\<forall>x. snd (snd (rt_uuid env x)) = snd x) \<and> (\<forall>x. snd (snd (rt_echo env x)) = snd x)"

section \<open>What the client does before the call\<close>

text \<open>Computations of the client that leave the world of the worker as it is.\<close>

definition elsewhere :: "(('d, 'y \<times> 'w) rworld, gb_exn, 'a) px \<Rightarrow> bool" where
  "elsewhere m \<longleftrightarrow> (\<forall>w r w'. m w = Some (r, w') \<longrightarrow> snd (rw_x w') = snd (rw_x w))"

named_theorems away "computations that leave the worker alone"

lemma elsewhereD: "elsewhere m \<Longrightarrow> m w = Some (r, w') \<Longrightarrow> snd (rw_x w') = snd (rw_x w)"
  by (simp add: elsewhere_def)

lemma elsewhere_bind [away]:
  assumes "elsewhere m" and "\<And>a. elsewhere (f a)"
  shows "elsewhere (px_bind m f)"
  using assms unfolding elsewhere_def px_bind_def by (fastforce split: option.splits prod.splits sum.splits)

lemma elsewhere_then [away]: "elsewhere m \<Longrightarrow> elsewhere n \<Longrightarrow> elsewhere (px_then m n)"
  unfolding px_then_def by (rule elsewhere_bind)

lemma elsewhere_basic [away]:
  "elsewhere (px_return a)" "elsewhere (px_throw e)" "elsewhere (px_lift r)" "elsewhere (new_job_ptr j)" "elsewhere (cfg_get h)" "elsewhere (on_jm m)"
  by (auto simp: elsewhere_def px_defs new_job_ptr_def cfg_get_def on_jm_def Let_def split: prod.splits)

lemma elsewhere_cases [away]:
  "elsewhere m \<Longrightarrow> elsewhere n \<Longrightarrow> elsewhere (if b then m else n)"
  "elsewhere m \<Longrightarrow> (\<And>x. elsewhere (f x)) \<Longrightarrow> elsewhere (case ob of None \<Rightarrow> m | Some x \<Rightarrow> f x)"
  "(\<And>a b. elsewhere (g a b)) \<Longrightarrow> elsewhere (case p of (a, b) \<Rightarrow> g a b)"
  by (simp_all split: option.split prod.split)

lemma elsewhere_obj: "elsewhere (with_obj ob (obj_call mt mq mj))"
  by (auto simp: elsewhere_def with_obj_def obj_call_def on_transient_def sql_back_def Let_def split: prod.splits sum.splits sobj.splits)

lemma elsewhere_so [away]: "elsewhere (with_obj ob (so_state now))" "elsewhere (with_obj ob (so_set_state now st))"
  unfolding so_defs by (rule elsewhere_obj)+

lemma elsewhere_create [away]: "elsewhere (sm_create now sm n op uri c)"
  by (auto simp: elsewhere_def sm_create_def px_bind_def px_lift_def sql_back_def Let_def
      split: sobj.splits option.splits prod.splits sum.splits)

lemma elsewhere_x: "\<forall>x. snd (snd (f x)) = snd x \<Longrightarrow> elsewhere (on_x f)"
  by (auto simp: elsewhere_def on_x_def split_def Let_def simp del: split_paired_All)

lemma elsewhere_calls [away]:
  assumes "apart env"
  shows "elsewhere (new_id env i)" and "elsewhere (check_connection_loop env k)" and "elsewhere (check_connection env)"
proof -
  have uuid: "elsewhere (on_x (rt_uuid env))" and echo: "elsewhere (on_x (rt_echo env))"
    using assms elsewhere_x unfolding apart_def by blast+
  show "elsewhere (new_id env i)" unfolding new_id_def by (intro away uuid)
  show loop: "elsewhere (check_connection_loop env k)" for k by (induction k) (auto intro!: away echo)
  show "elsewhere (check_connection env)" unfolding check_connection_def by (intro away loop)
qed

lemma elsewhere_sync [away]:
  "apart env \<Longrightarrow> elsewhere (transient_status env j)" "elsewhere (set_running env ob)" "elsewhere (check_content env j)" "elsewhere (job_data env j)"
  unfolding transient_status_def set_running_def check_content_def job_data_def by (intro away elsewhere_obj | assumption)+


section \<open>The call\<close>

lemma read_answer:
  assumes "smap_wf hs" and "- (2 ^ 31) \<le> an_code an" and "an_code an < 2 ^ 31" and "jr_headers r = []"
  shows "read_response (JObject (answer_members an hs c)) r = Inr (r\<lparr>jr_content := c, jr_headers := hs, jr_code := an_code an\<rparr>)"
  using assms(1,4) wrap_s32_id [OF assms(2,3)]
  by (simp add: read_response_def answer_find answer_fields json_hasKey_def json_get_def json_as_object_def json_as_string_def
      header_members_def fold_put_strings response_headers_fold smap.rebuild)

text \<open>A synchronous call, taken apart.\<close>

lemma transient_named: "transient_status env j w = Some (Inr ob, w') \<Longrightarrow> so_name ob \<noteq> []"
  by (auto simp: transient_status_def px_bind_Inr new_id_def px_return_def px_lift_def sm_create_def newStatusImpl_def StatusManager_typed_def
      string_to_type_def t_create_result(4) created_def so_name_def gen_id_def Let_def)

text \<open>The messages of the status of a call: none until the answer of a failed job brings one.\<close>

lemma set_state_messages: "t_set_state now st w = (ok, w') \<Longrightarrow> s_messages (t_obj w') = s_messages (t_obj w)"
  by (auto simp: t_set_state_def t_super_state_def set_state_def Let_def t_mtime_def touch_def split: option.splits prod.splits bool.splits if_splits)

lemma end_messages: "StatusImpl_end (transient_base_vt now) c w = (x, w') \<Longrightarrow> s_messages (t_obj w') = s_messages (t_obj w)"
  by (auto simp: StatusImpl_end_def transient_base_vt_def sx_defs lift_pure_def t_mtime_def t_code_def t_progress_def t_deref_def status_writes
      dest!: set_state_messages split: prod.splits if_splits)

definition told :: "'d sobj \<Rightarrow> string list \<Rightarrow> bool" where
  "told ob ms \<longleftrightarrow> (\<exists>s b. ob = TransientObj s b \<and> s_messages s = ms)"

lemma transient_told: "transient_status env j w = Some (Inr ob, w') \<Longrightarrow> told ob []"
  by (auto simp: transient_status_def px_bind_Inr new_id_def px_return_def px_lift_def sm_create_def newStatusImpl_def StatusManager_typed_def
      string_to_type_def t_create_result(4) created_def told_def new_status_def Let_def)

lemma running_told:
  assumes "set_running env ob w = Some (Inr ob', w')" and "told ob ms"
  shows "told ob' ms"
  using assms
  by (auto simp: set_running_def px_bind_Inr px_return_def px_throw_def with_obj_def so_set_state_def obj_call_def on_transient_def told_def Let_def
      transient_vt_same transient_base_vt_def dest!: set_state_messages split: prod.splits sum.splits if_splits)

lemma message_told: "with_obj ob (so_add_message now m) w = Some (Inr (x, ob'), w') \<Longrightarrow> told ob ms \<Longrightarrow> told ob' (ms @ [m])"
  by (auto simp: with_obj_def so_add_message_def obj_call_def on_transient_def told_def Let_def t_add_message_def t_deref_def status_writes
      split: prod.splits sum.splits if_splits)

lemma fail_told: "with_obj ob (so_fail now c) w = Some (Inr (x, ob'), w') \<Longrightarrow> told ob ms \<Longrightarrow> told ob' ms"
  by (auto simp: with_obj_def so_fail_def obj_call_def on_transient_def told_def Let_def transient_vt_def StatusImpl_fail_def
      dest!: end_messages split: prod.splits sum.splits)

lemma failed_told:
  assumes "finish_transient env d r ob w = Some (Inr ob', w')" and "told ob ms" and "jr_code r \<ge> 300"
  shows "\<exists>m. response_message d = Inr m \<and> told ob' (ms @ [m])"
proof -
  have "so_impltype ob = ''transient''" using assms(2) by (auto simp: told_def so_impltype_def)
  with assms(1,3) obtain m ob1 w1 w2 where "response_message d = Inr m" "with_obj ob (so_add_message (rt_now env) m) w = Some (Inr ((), ob1), w1)"
    "with_obj ob1 (so_fail (rt_now env) (jr_code r)) w1 = Some (Inr ((), ob'), w2)"
    by (auto simp: finish_transient_def px_bind_Inr px_return_def px_lift_def)
  with message_told fail_told assms(2) show ?thesis by blast
qed

section \<open>A call and its outcome\<close>

text \<open>
  Client and worker are connected: they use the same library for documents, which is faithful, and a compression that loses nothing; the calls of the client are served by the worker.
\<close>

definition connected :: "('d, 'y \<times> ('d, 'z) wworld) rt_env \<Rightarrow> ('d, 'z) wk_env \<Rightarrow> (string \<Rightarrow> ('d, 'z) handler) \<Rightarrow> bool" where
  "connected env wk hs \<longleftrightarrow> json_text (rt_lib env) \<and> rt_lib (wk_rt wk) = rt_lib env \<and>
     (\<forall>t. wk_decompress wk (rt_compress env t) = Inr t) \<and> rt_do env = served wk hs \<and> apart env \<and> idle_hook wk"

section \<open>A call comes back\<close>

lemma with_obj_step:
  assumes "rw_t w = t" and "mt t = (Inr a, t')"
  shows "with_obj (TransientObj (t_obj t) (t_ref t)) (obj_call mt mq mj) w = Some (Inr (a, TransientObj (t_obj t') (t_ref t')), w\<lparr>rw_t := t'\<rparr>)"
proof -
  have "(rw_t w)\<lparr>t_obj := t_obj t, t_ref := t_ref t\<rparr> = t" using assms(1) by simp
  with assms(2) show ?thesis by (simp add: with_obj_def obj_call_def on_transient_def)
qed

lemma transient_created:
  assumes "job_resource_uri (attrs J) = Inr u"
  shows "\<exists>t w'. transient_status env J w = Some (Inr (TransientObj (t_obj t) (t_ref t)), w') \<and> rw_t w' = t \<and> t_inv t
    \<and> s_state (t_obj t) = STATE_PENDING \<and> s_progress (t_obj t) = 0"
proof -
  obtain v x where v: "rt_uuid env (rw_x w) = (v, x)" by (cases "rt_uuid env (rw_x w)")
  let ?t = "t_create (rt_now env) [] (gen_id v ''st'') (j_operation (attrs J)) u (j_component (attrs J)) (rw_t w)"
  have "transient_status env J w = Some (Inr (TransientObj (t_obj ?t) (t_ref ?t)), w\<lparr>rw_x := x, rw_t := ?t\<rparr>)"
    using assms v by (simp add: transient_status_def new_id_def px_bind_def px_lift_def px_return_def on_x_def sm_create_def newStatusImpl_def
        StatusManager_typed_def string_to_type_def Let_def)
  moreover have "s_state (t_obj ?t) = STATE_PENDING" "s_progress (t_obj ?t) = 0" by (simp_all add: t_create_result(4) created_def new_status_def)
  ultimately show ?thesis using t_create_inv by fastforce
qed

lemma set_running_ok:
  assumes "rw_t w = t" and "t_inv t" and "s_state (t_obj t) = STATE_PENDING" and "s_progress (t_obj t) = 0"
  shows "\<exists>t'. set_running env (TransientObj (t_obj t) (t_ref t)) w = Some (Inr (TransientObj (t_obj t') (t_ref t')), w\<lparr>rw_t := t'\<rparr>) \<and> started t'"
proof -
  obtain t' where t': "t_set_state (rt_now env) STATE_RUNNING t = (True, t')" "started t'"
    using t_set_state_inv [OF assms(2), of STATE_RUNNING "rt_now env"] assms(3,4) by (auto simp: validStateTransition_def started_def)
  have "with_obj (TransientObj (t_obj t) (t_ref t)) (so_set_state (rt_now env) STATE_RUNNING) w
      = Some (Inr (True, TransientObj (t_obj t') (t_ref t')), w\<lparr>rw_t := t'\<rparr>)"
    unfolding so_set_state_def by (rule with_obj_step [OF assms(1)]) (simp add: transient_vt_same transient_base_vt_def t'(1))
  with t'(2) show ?thesis by (intro exI [of _ t']) (simp add: set_running_def px_bind_def px_return_def)
qed

lemma finish_returns:
  assumes "rw_t w = t" and "started t" and "response_message d = Inr m"
  shows "\<exists>ob w'. finish_transient env d r (TransientObj (t_obj t) (t_ref t)) w = Some (Inr ob, w') \<and> rw_x w' = rw_x w"
proof (cases "jr_code r \<ge> 300")
  case True
  define t1 where "t1 = t_both (add_message (rt_now env) m) t"
  have "t_data t \<noteq> None" using assms(2) by (auto simp: started_def t_inv_def)
  then have 1: "with_obj (TransientObj (t_obj t) (t_ref t)) (so_add_message (rt_now env) m) w
      = Some (Inr ((), TransientObj (t_obj t1) (t_ref t1)), w\<lparr>rw_t := t1\<rparr>)"
    unfolding so_add_message_def by (intro with_obj_step [OF assms(1)]) (simp add: t_add_message_def t_deref_def t1_def)
  have inv: "t_inv t1" "s_progress (t_obj t1) \<le> 100" "s_state (t_obj t1) = STATE_RUNNING"
    unfolding t1_def using assms(2) by (auto intro!: t_inv_both simp: keeps_name_def status_writes started_def)
  then obtain t2 where "v_fail (transient_vt (rt_now env)) (jr_code r) t1 = (Inr (), t2)"
    using transient.fail_ok [OF inv(1,2), of "rt_now env" "jr_code r"] by (auto simp: validStateTransition_def)
  then have "with_obj (TransientObj (t_obj t1) (t_ref t1)) (so_fail (rt_now env) (jr_code r)) (w\<lparr>rw_t := t1\<rparr>)
      = Some (Inr ((), TransientObj (t_obj t2) (t_ref t2)), w\<lparr>rw_t := t1, rw_t := t2\<rparr>)"
    unfolding so_fail_def by (intro with_obj_step) simp_all
  with 1 True assms(3) show ?thesis by (simp add: finish_transient_def so_impltype_def px_bind_def px_lift_def px_return_def)
next
  case False
  have inv: "t_inv t" "s_progress (t_obj t) \<le> 100" "s_state (t_obj t) = STATE_RUNNING" using assms(2) by (simp_all add: started_def)
  then obtain t2 where "v_success (transient_vt (rt_now env)) t = (Inr (), t2)"
    using transient.fail_ok [OF inv(1,2), of "rt_now env" 0] transient.success_as_fail [OF inv(1), of "rt_now env"] by (auto simp: validStateTransition_def)
  then have "with_obj (TransientObj (t_obj t) (t_ref t)) (so_success (rt_now env)) w = Some (Inr ((), TransientObj (t_obj t2) (t_ref t2)), w\<lparr>rw_t := t2\<rparr>)"
    unfolding so_success_def by (rule with_obj_step [OF assms(1)])
  with False show ?thesis by (simp add: finish_transient_def so_impltype_def px_bind_def px_lift_def px_return_def)
qed

text \<open>The content of the job is valid and the queue can be reached.\<close>

definition reachable :: "('d, 'x) rt_env \<Rightarrow> 'd job \<Rightarrow> ('d, 'x) rworld \<Rightarrow> bool" where
  "reachable env J w \<longleftrightarrow> (case px_then (check_content env J) (check_connection env) w of Some (Inr _, _) \<Rightarrow> True | _ \<Rightarrow> False)"

text \<open>The client's response to an answer.\<close>

definition responds :: "answer \<Rightarrow> 'd job_response \<Rightarrow> 'd job_response \<Rightarrow> bool" where
  "responds an resp cr \<longleftrightarrow> jr_content cr = jr_content resp \<and> jr_headers cr = jr_headers resp \<and> jr_code cr = an_code an \<and> in_int32 (an_code an)
     \<and> (an_code an \<ge> 300 \<longrightarrow> (\<exists>ob. jr_status cr = Some ob \<and> told ob [an_message an]))"

lemma answer_read:
  assumes "json_text lib" and "smap_wf (jr_headers resp)" and "in_int32 (an_code an)"
  defines "a \<equiv> JObject (answer_members an (jr_headers resp) (jr_content resp))"
  obtains r0 where "parse_text lib st None (json_serialize lib a) = Inr a" and "read_response a (new_response\<lparr>jr_job := Some p\<rparr>) = Inr r0"
    and "jr_content r0 = jr_content resp" and "jr_headers r0 = jr_headers resp" and "jr_code r0 = an_code an" and "response_message a = Inr (an_message an)"
proof -
  have "text_safe lib a" unfolding a_def using assms(2,3) by (intro answer_safe) (auto simp: in_int64_def in_int32_def)
  then have "parse_text lib st None (json_serialize lib a) = Inr a" using json_text.parse_text_serialize [OF assms(1)] by blast
  with that show ?thesis
    using assms(2,3) read_answer [of "jr_headers resp" an "new_response\<lparr>jr_job := Some p\<rparr>" "jr_content resp"] by (auto simp: a_def new_response_def in_int32_def answer_fields)
qed

lemma sync_call_returns:
  assumes "connected env wk hs" and "sendable (rt_lib env) J" and "startable J"
    and "accepts wk (snd (rw_x w)) (\<lambda>n. sent_doc (rt_lib env) (rt_statics env) (with_status n J))"
    and "\<And>n. settles (hs (j_name (attrs J))) (as_sent (with_status n J))" and "handlers J = []"
    and "ww_afterwards (snd (rw_x w)) = []" and "reachable env J w"
  shows "\<exists>n r resp cr w'. n \<noteq> [] \<and> gearman_run env J w = Some (Inr cr, w') \<and> responds (handled_answer (j_name (attrs J)) r resp) resp cr
    \<and> served_by (hs (j_name (attrs J))) (as_sent (with_status n J)) (outside (snd (rw_x w))) r resp (outside (snd (rw_x w')))
    \<and> ww_afterwards (snd (rw_x w')) = []"
proof -
  let ?lib = "rt_lib env" and ?st = "rt_statics env" and ?name = "j_name (attrs J)"
  have con: "json_text ?lib" "rt_lib (wk_rt wk) = ?lib" "\<And>t. wk_decompress wk (rt_compress env t) = Inr t"
    "rt_do env = served wk hs" "apart env" "idle_hook wk" using assms(1) by (simp_all add: connected_def)
  obtain w1 w2 where pre: "check_content env J w = Some (Inr (), w1)" "check_connection env w1 = Some (Inr (), w2)"
    using assms(8) by (auto simp: reachable_def px_then_def px_bind_def split: option.splits prod.splits sum.splits)
  obtain p w3 where ptr: "new_job_ptr J w2 = Some (Inr p, w3)" by (simp add: new_job_ptr_def)
  obtain u where "job_resource_uri (attrs J) = Inr u" using assms(3) by (auto simp: startable_def)
  from transient_created [OF this] obtain t w4 where tr: "transient_status env J w3 = Some (Inr (TransientObj (t_obj t) (t_ref t)), w4)" "rw_t w4 = t"
    "t_inv t" "s_state (t_obj t) = STATE_PENDING" "s_progress (t_obj t) = 0" by metis
  define n where "n = so_name (TransientObj (t_obj t) (t_ref t))"
  have n: "n \<noteq> []" using transient_named [OF tr(1)] by (simp add: n_def)
  obtain t' where sr: "set_running env (TransientObj (t_obj t) (t_ref t)) w4 = Some (Inr (TransientObj (t_obj t') (t_ref t')), w4\<lparr>rw_t := t'\<rparr>)" "started t'"
    using set_running_ok [OF tr(2-5)] by blast
  have none: "told (TransientObj (t_obj t') (t_ref t')) []" by (rule running_told [OF sr(1) transient_told [OF tr(1)]])
  let ?w5 = "w4\<lparr>rw_t := t'\<rparr>"
  have x: "snd (rw_x ?w5) = snd (rw_x w)"
    using elsewhereD [OF elsewhere_sync(3) pre(1)] elsewhereD [OF elsewhere_calls(3) [OF con(5)] pre(2)]
      elsewhereD [OF elsewhere_basic(4) ptr] elsewhereD [OF elsewhere_sync(1) [OF con(5)] tr(1)] elsewhereD [OF elsewhere_sync(2) sr(1)] by simp
  define pl where "pl = rt_compress env (json_serialize ?lib (sent_doc ?lib ?st (with_status n J)))"
  have given: "given wk ?st J n (snd (rw_x w)) pl" using n assms(2-4) con(2,3) by (simp add: given_def pl_def)
  have jt: "json_text (rt_lib (wk_rt wk))" using con(1,2) by simp
  obtain r resp x' where sv: "served_by (hs ?name) (as_sent (with_status n J)) (outside (snd (rw_x w))) r resp (outside x')" "ww_afterwards x' = []"
    and ty: "smap_wf (jr_headers resp)" "in_int32 (an_code (handled_answer ?name r resp))"
    and run: "run_job wk ?name (hs ?name) pl (snd (rw_x w))
        = Some (Inr (JObject (answer_members (handled_answer ?name r resp) (jr_headers resp) (jr_content resp))), x')"
    using worker_answers [OF jt con(6) given assms(6,7,5)] by blast
  define a :: "'a json" where "a = JObject (answer_members (handled_answer ?name r resp) (jr_headers resp) (jr_content resp))"
  let ?w6 = "?w5\<lparr>rw_x := (fst (rw_x ?w5), x')\<rparr>"
  have call: "on_x (rt_do env ?name pl) ?w5 = Some (Inr (None, Some (json_serialize ?lib a)), ?w6)"
    using run x by (simp add: on_x_def con(4) served_def con(2) a_def)
  obtain r0 where r0: "parse_text ?lib ?st None (json_serialize ?lib a) = Inr a" "read_response a (new_response\<lparr>jr_job := Some p\<rparr>) = Inr r0"
    "jr_content r0 = jr_content resp" "jr_headers r0 = jr_headers resp" "jr_code r0 = an_code (handled_answer ?name r resp)"
    "response_message a = Inr (an_message (handled_answer ?name r resp))" unfolding a_def by (rule answer_read [OF con(1) ty])
  obtain ob w7 where fin: "finish_transient env a r0 (TransientObj (t_obj t') (t_ref t')) ?w6 = Some (Inr ob, w7)" "rw_x w7 = rw_x ?w6"
    using finish_returns [OF _ sr(2) r0(6), of ?w6 env r0] by auto
  have "responds (handled_answer ?name r resp) resp (r0\<lparr>jr_status := Some ob\<rparr>)"
    using failed_told [OF fin(1) none] r0(3-6) ty(2) by (auto simp: responds_def)
  moreover have "run_sync env J (sent_doc ?lib ?st J) w2 = Some (Inr (r0\<lparr>jr_status := Some ob\<rparr>), w7)"
    using ptr tr(1) sr(1) call r0(1,2) fin(1) status_named(2) [OF con(1) assms(2) n, of ?st]
    by (simp add: run_sync_def px_bind_def px_lift_def px_return_def pl_def flip: n_def)
  then have "gearman_run env J w = Some (Inr (r0\<lparr>jr_status := Some ob\<rparr>), w7)" using pre assms(3) job_sent [OF con(1) assms(2), of ?st]
    by (simp add: gearman_run_def px_then_def px_bind_def job_data_def px_lift_def startable_def)
  moreover have "snd (rw_x w7) = x'" using fin(2) by simp
  ultimately show ?thesis using n sv by blast
qed

section \<open>A request and its outcome\<close>

lemma elsewhere_request: "apart env \<Longrightarrow> elsewhere (request_job env c r p)"
  unfolding request_job_def name_resource_def Let_def split_def by (intro away | assumption)+

lemma reply_ok:
  assumes "jr_code resp < 400" and "j_type (attrs J) = JOB_SYNC"
  shows "\<exists>p. write_reply env base J resp (new_reply, w) = Some (Inr (), p, w) \<and> rp_body p = jr_content resp
    \<and> rp_status p = (if jr_code resp = 0 then 200 else jr_code resp)"
  using assms by (simp add: write_reply_def px_then_def px_bind_def ap_reply_with_def px_modify_def put_headers_def location_header_def new_reply_def)

lemma reply_failed:
  assumes "jr_code resp \<ge> 400" and "jr_status resp = Some ob" and "told ob [m]"
  shows "\<exists>p w'. write_reply env base J resp (new_reply, w) = Some (Inl (throw_from_code (jr_code resp) m), p, w') \<and> rw_x w' = rw_x w"
  using assms by (auto simp: write_reply_def px_then_def px_bind_def ap_reply_with_def px_modify_def ap_rt_def failed_response_def status_of_def
      px_return_def px_throw_def with_obj_def so_messages_def obj_call_def on_transient_def told_def sx_get_def)

lemma handled:
  assumes "request_path no2slash c r = Inr p" and "\<not> rq_header_only r" and "request_job env c r p w = Some (Inr J, w1)"
    and "gearman_run env J w1 = Some (Inr resp, w2)"
  shows "handle_request env no2slash c r (q, w) = write_reply env (base_uri_of c r (fst (fst p))) J resp (q, w2)"
  using assms by (simp add: handle_request_def px_bind_def px_lift_def ap_rt_def)

text \<open>
  What the client of the server sees of an answer: the content and the code, where a code of 0 is a success; or the error of the class the code stands
  for, with its text in a document of its own.
\<close>

definition relayed :: "answer \<Rightarrow> gb_exn" where
  "relayed an = throw_from_code (an_code an) (an_message an)"

definition shows_answer :: "'d json_lib \<Rightarrow> schema_statics \<Rightarrow> answer \<Rightarrow> string \<Rightarrow> ap_reply \<Rightarrow> bool" where
  "shows_answer lib st an content q \<longleftrightarrow>
     (if an_code an < 400 then rp_body q = content \<and> rp_status q = (if an_code an = 0 then 200 else an_code an)
      else rp_status q = err_code (relayed an) \<and> (case parse_text lib st None (rp_body q) of
             Inl _ \<Rightarrow> False
           | Inr d \<Rightarrow> json_get [] ''code'' d = Inr (JInt (err_code (relayed an))) \<and> json_get [] ''messages'' d = Inr (JArray [JString (err_what (relayed an))])))"

lemma relayed_error: "http_error (throw_from_code c m) = (err_code (throw_from_code c m), err_what (throw_from_code c m))"
  "throw_from_code c m \<noteq> NullDereference" "in_int64 c \<Longrightarrow> in_int64 (err_code (throw_from_code c m))"
  by (auto simp: throw_from_code_def mk_error_def http_error_def in_int64_def split: option.split)

lemma relayed_same: "answer_of (throw_from_code c m) = an \<Longrightarrow> relayed an = throw_from_code c m"
  using throw_from_code_relay [of c m]
  by (auto simp: relayed_def answer_of_def throw_from_code_def mk_error_def split: option.splits)

lemma handler_replies:
  assumes "json_text (rt_lib env)" and "rq_handler r = ''gearbox-handler''" and "\<not> rq_file_exists r"
    and "handle_request env no2slash c r (new_reply, w) = write_reply env base J cr (new_reply, w2)" and "j_type (attrs J) = JOB_SYNC"
    and "responds an resp cr"
  shows "\<exists>q w'. gearbox_handler env no2slash c r (new_reply, w) = Some (Inr DONE, q, w') \<and> shows_answer (rt_lib env) st an (jr_content resp) q
    \<and> rw_x w' = rw_x w2"
proof (cases "an_code an < 400")
  case True
  with reply_ok [OF _ assms(5), of cr env base w2] assms(6) obtain q where "write_reply env base J cr (new_reply, w2) = Some (Inr (), q, w2)"
    "rp_body q = jr_content resp" "rp_status q = (if an_code an = 0 then 200 else an_code an)" by (auto simp: responds_def)
  with True assms(2-4) show ?thesis
    by (auto simp: gearbox_handler_def px_then_def px_bind_def px_catch_def px_return_def shows_answer_def)
next
  case False
  with assms(6) obtain ob where "jr_status cr = Some ob" "told ob [an_message an]" by (auto simp: responds_def)
  with reply_failed [of cr ob "an_message an" env base J w2] False assms(4,6) obtain p w'
    where thrown: "handle_request env no2slash c r (new_reply, w) = Some (Inl (relayed an), p, w')" and w': "rw_x w' = rw_x w2"
    by (auto simp: relayed_def responds_def)
  have "in_int64 (an_code an)" using assms(6) by (simp add: responds_def in_int64_def in_int32_def)
  with exception_answered [OF assms(1-3) thrown, of st] relayed_error [of "an_code an" "an_message an"] False w' show ?thesis
    by (auto simp: relayed_def shows_answer_def)
qed

text \<open>
  A request the server can make a job of, which the worker can be reached with, accepts and can start.
\<close>

definition deliverable :: "('d, 'y \<times> ('d, 'z) wworld) rt_env \<Rightarrow> ('d, 'z) wk_env \<Rightarrow> (string \<Rightarrow> string) \<Rightarrow> gearbox_cfg \<Rightarrow> ap_request
    \<Rightarrow> ('d, 'y \<times> ('d, 'z) wworld) rworld \<Rightarrow> 'd job \<Rightarrow> bool" where
  "deliverable env wk no2slash c r w J \<longleftrightarrow> rq_handler r = ''gearbox-handler'' \<and> \<not> rq_file_exists r \<and> \<not> rq_header_only r \<and>
     (case request_path no2slash c r of
        Inl _ \<Rightarrow> False
      | Inr p \<Rightarrow> (case request_job env c r p w of Some (j, w1) \<Rightarrow> j = Inr J \<and> reachable env J w1 | None \<Rightarrow> False)) \<and>
     sendable (rt_lib env) J \<and> startable J \<and> handlers J = [] \<and>
     accepts wk (snd (rw_x w)) (\<lambda>n. sent_doc (rt_lib env) (rt_statics env) (with_status n J)) \<and> ww_afterwards (snd (rw_x w)) = []"

lemma deliverable_served:
  assumes "connected env wk hs" and "deliverable env wk no2slash c r w J"
    and "\<And>n. settles (hs (j_name (attrs J))) (as_sent (with_status n J))"
  shows "\<exists>n res resp q w'. n \<noteq> []
    \<and> served_by (hs (j_name (attrs J))) (as_sent (with_status n J)) (outside (snd (rw_x w))) res resp (outside (snd (rw_x w')))
    \<and> gearbox_handler env no2slash c r (new_reply, w) = Some (Inr DONE, q, w')
    \<and> shows_answer (rt_lib env) st (handled_answer (j_name (attrs J)) res resp) (jr_content resp) q \<and> ww_afterwards (snd (rw_x w')) = []"
proof -
  have con: "apart env" "json_text (rt_lib env)" using assms(1) by (simp_all add: connected_def)
  obtain p w1 where rq: "rq_handler r = ''gearbox-handler''" "\<not> rq_file_exists r" "\<not> rq_header_only r" "request_path no2slash c r = Inr p"
      "request_job env c r p w = Some (Inr J, w1)" "reachable env J w1"
    and J: "sendable (rt_lib env) J" "startable J" "handlers J = []" "ww_afterwards (snd (rw_x w)) = []"
      "accepts wk (snd (rw_x w)) (\<lambda>n. sent_doc (rt_lib env) (rt_statics env) (with_status n J))"
    using assms(2) by (auto simp: deliverable_def split: sum.splits option.splits prod.splits)
  have same: "snd (rw_x w1) = snd (rw_x w)" by (rule elsewhereD [OF elsewhere_request [OF con(1)] rq(5)])
  then obtain n res resp cr w2 where run: "n \<noteq> []" "gearman_run env J w1 = Some (Inr cr, w2)" "responds (handled_answer (j_name (attrs J)) res resp) resp cr"
      "served_by (hs (j_name (attrs J))) (as_sent (with_status n J)) (outside (snd (rw_x w))) res resp (outside (snd (rw_x w2)))"
      "ww_afterwards (snd (rw_x w2)) = []"
    using sync_call_returns [OF assms(1) J(1,2) _ assms(3) J(3) _ rq(6)] J(4,5) by auto
  have sync: "j_type (attrs J) = JOB_SYNC" using J(2) by (simp add: startable_def)
  from handler_replies [OF con(2) rq(1,2) handled [OF rq(4,3,5) run(2)] sync run(3), of st] run show ?thesis by metis
qed

text \<open>
  C1: a synchronous request is answered by its handler. The server finds the job for the request and calls the worker; the handler
  registered under the name of the job is given that job, with all that an envelope carries and the name of the status, an empty response, and the
  services of the worker as they were when the request came in; and the services are left as the handler leaves them. When it
  comes to an end, the client of the server gets the content the handler left with the handler's code (200 where the handler set none); or, for a code from
  400 on, an error document with the code and the text of that error, and an error of a class with a code arrives as the handler threw it.
\<close>

theorem request_served:
  assumes "connected env wk hs" and "deliverable env wk no2slash c r w J"
    and "\<And>n. settles (hs (j_name (attrs J))) (as_sent (with_status n J))"
  shows "\<exists>n res resp q w'. n \<noteq> []
    \<and> served_by (hs (j_name (attrs J))) (as_sent (with_status n J)) (outside (snd (rw_x w))) res resp (outside (snd (rw_x w')))
    \<and> gearbox_handler env no2slash c r (new_reply, w) = Some (Inr DONE, q, w')
    \<and> shows_answer (rt_lib env) st (handled_answer (j_name (attrs J)) res resp) (jr_content resp) q
    \<and> (\<forall>k m. res = Inl (throw_from_code k m) \<longrightarrow> relayed (handled_answer (j_name (attrs J)) res resp) = throw_from_code k m)"
proof -
  have "relayed (handled_answer name (Inl (throw_from_code k m)) resp) = throw_from_code k m" for name k m and resp :: "'a job_response"
    by (intro relayed_same) (simp add: handled_answer_def handler_result_def)
  then show ?thesis using deliverable_served [OF assms, of st] by metis
qed

definition demo_served :: "string \<Rightarrow> (string, nat) handler" where
  "demo_served name j = (\<lambda>(resp, x). Some (if j_arguments (attrs j) = [] then (Inl (ERR_NOT_FOUND ''no name''), resp, x)
     else (Inr WORKER_SUCCESS, resp\<lparr>jr_content := hd (j_arguments (attrs j))\<rparr>, x)))"

definition demo_client :: "(string, nat \<times> (string, nat) wworld) rt_env" where
  "demo_client = \<lparr>rt_jm = demo_jm_env, rt_compress = id, rt_uuid = (\<lambda>(x, y). ((of_nat x, 0), (x + 1, y))), rt_echo = (\<lambda>x. (True, x)),
     rt_do_background = (\<lambda>_ _ x. (None, x)), rt_do = served demo_wk_env demo_served, rt_http = (\<lambda>_ _ _ _ x. (Inr (200, [], []), x))\<rparr>"

definition demo_both :: "(string, nat \<times> (string, nat) wworld) rworld" where
  "demo_both = \<lparr>rw_jm = rw_jm demo_rworld, rw_t = rw_t demo_rworld, rw_db = rw_db demo_rworld, rw_heap = 1, rw_x = (3, demo_wworld\<lparr>ww_afterwards := []\<rparr>)\<rparr>"

definition demo_get :: ap_request where
  "demo_get = (demo_request ''/rm/v1/t/a'')\<lparr>rq_method := ''GET''\<rparr>"

definition demo_c_block :: gearbox_cfg where
  "demo_c_block = demo_block\<lparr>gc_component := ''c''\<rparr>"

definition demo_get_job :: "string job" where
  "demo_get_job = Job (new_job_attrs\<lparr>j_name := ''do_get_c_t_v1'', j_version := ''v1'', j_operation := ''get'', j_component := ''c'', j_resource_type := ''t'',
     j_resource_name := ''a'', j_base_uri := ''http://h/rm/v1'', j_type := JOB_SYNC, j_arguments := [''a'']\<rparr>) [] None"

lemma demo_called:
  "case request_job demo_client demo_c_block demo_get ((''v1'', ''t'', [''a'']), []) demo_both of
     Some (Inr J, w) \<Rightarrow> J = demo_get_job \<and> reachable demo_client J w | _ \<Rightarrow> False"
  by code_simp

lemma demo_get_sendable: "sendable wire_lib (with_status n demo_get_job)" "startable demo_get_job" "as_sent (with_status n demo_get_job) = with_status n demo_get_job"
proof -
  have "case on_attrs (set_job_name ''do_get_c_t_v1'') new_job_attrs of Inl _ \<Rightarrow> False | Inr _ \<Rightarrow> True" by code_simp
  then show "sendable wire_lib (with_status n demo_get_job)"
    by (auto simp: demo_get_job_def with_status_def upd_attrs_def attrs_sendable_def hashes_ok_def new_job_attrs_def smap_wf_def smap_find_def status_sendable_def
        split: sum.splits)
  have "case Uri ''http://h/rm/v1'' of Inl _ \<Rightarrow> False | Inr _ \<Rightarrow> True" "case job_resource_uri (attrs demo_get_job) of Inl _ \<Rightarrow> False | Inr _ \<Rightarrow> True"
    by code_simp+
  then show "startable demo_get_job"
    by (auto simp: startable_def demo_get_job_def no_start_event_def smap_find_def split: sum.splits)
  show "as_sent (with_status n demo_get_job) = with_status n demo_get_job"
    by (simp add: demo_get_job_def with_status_def upd_attrs_def sent_attrs_def new_job_attrs_def)
qed

lemma demo_no_schema: "\<exists>jw. load_schema demo_jm_env ''job-envelope'' demo_jm_world = (Inr None, jw)"
  by (auto simp: load_schema_def schemadir_def demo_jm_env_def demo_jm_world_def sx_defs get_path_default_def json_hasKey_def
      smap.find_emp smap_find_put upd_schemas_def has_setting_def smap_find_def Let_def)

lemma demo_connected: "connected demo_client demo_wk_env demo_served"
  using wire.json_text_axioms
  by (simp add: connected_def apart_def idle_hook_def px_return_def demo_client_def demo_wk_env_def demo_rt_env_def demo_jm_env_def split_def)

lemma demo_handler: "settles (demo_served name) j"
  by (auto simp: settles_def demo_served_def typed_response_def in_int32_def answer_of_def ERR_NOT_FOUND_def mk_error_def backed_by_def
      split: if_splits)

lemma demo_accepts: "accepts demo_wk_env (snd (rw_x demo_both)) (\<lambda>n. sent_doc (rt_lib demo_client) (rt_statics demo_client) (with_status n demo_get_job))"
proof -
  obtain jw where sch: "load_schema demo_jm_env ''job-envelope'' demo_jm_world = (Inr None, jw)" using demo_no_schema by blast
  have "parse_text wire_lib st None (json_serialize wire_lib (sent_doc wire_lib st' (with_status n demo_get_job))) = Inr (sent_doc wire_lib st' (with_status n demo_get_job))"
    for n st st' using job_sent [OF wire.json_text_axioms demo_get_sendable(1)] wire.parse_text_serialize by blast
  then show ?thesis using sch demo_jm_ok
    by (simp add: accepts_def demo_wk_env_def demo_both_def demo_wworld_def demo_client_def demo_rt_env_def demo_rworld_def demo_jm_env_def)
qed

lemma demo_request_path: "request_path id demo_c_block demo_get = Inr ((''v1'', ''t'', [''a'']), [])"
  by code_simp

lemma demo_deliverable: "deliverable demo_client demo_wk_env id demo_c_block demo_get demo_both demo_get_job"
proof -
  obtain w1 where called: "request_job demo_client demo_c_block demo_get ((''v1'', ''t'', [''a'']), []) demo_both = Some (Inr demo_get_job, w1)"
      "reachable demo_client demo_get_job w1"
    using demo_called by (auto split: option.splits prod.splits sum.splits)
  have j: "with_status [] demo_get_job = demo_get_job" by (simp add: demo_get_job_def with_status_def upd_attrs_def new_job_attrs_def)
  have send: "sendable (rt_lib demo_client) demo_get_job" using demo_get_sendable(1) [of "[]"] j by (simp add: demo_client_def demo_jm_env_def)
  have "rq_handler demo_get = ''gearbox-handler''" "\<not> rq_file_exists demo_get" "\<not> rq_header_only demo_get" "ww_afterwards (snd (rw_x demo_both)) = []"
      "handlers demo_get_job = []"
    by (simp_all add: demo_get_def demo_request_def demo_both_def demo_get_job_def)
  with called send demo_get_sendable(2) demo_accepts demo_request_path show ?thesis by (simp add: deliverable_def)
qed

theorem request_served_witness:
  "\<exists>q w'. gearbox_handler demo_client id demo_c_block demo_get (new_reply, demo_both) = Some (Inr DONE, q, w') \<and> rp_body q = ''a'' \<and> rp_status q = 200"
proof -
  obtain n res resp q w' where by_h: "served_by (demo_served (j_name (attrs demo_get_job))) (as_sent (with_status n demo_get_job)) (outside (snd (rw_x demo_both))) res resp
        (outside (snd (rw_x w')))"
      and q: "gearbox_handler demo_client id demo_c_block demo_get (new_reply, demo_both) = Some (Inr DONE, q, w')"
      and sh: "shows_answer (rt_lib demo_client) (FormatMap wire_lib) (handled_answer (j_name (attrs demo_get_job)) res resp) (jr_content resp) q"
    using request_served [OF demo_connected demo_deliverable demo_handler] by blast
  have "res = Inr WORKER_SUCCESS" "jr_content resp = ''a''" "jr_code resp = 0"
    using by_h [unfolded demo_get_sendable(3)]
    by (auto simp: served_by_def demo_served_def demo_get_job_def with_status_def upd_attrs_def fresh_response_def)
  then have "rp_body q = ''a'' \<and> rp_status q = 200"
    using sh by (simp add: shows_answer_def handled_answer_def handler_result_def answer_ok_def)
  then show ?thesis using q by blast
qed

end
