(* ===== verification/GB_Things.thy ===== *)
theory GB_Things
  imports GB_Agents GB_Remote GB_JsonTypes
begin

text \<open>
  The workers of the integration tests that keep things in files: \<^verbatim>\<open>workers/test-basic/WorkerTestBasic.cc\<close>, whose changes are asynchronous and
  tell their progress to the status, and \<^verbatim>\<open>workers/test-sync/WorkerTestSync.cc\<close>, which does the same in synchronous jobs and answers with the thing. The two
  sources share most of their text, and the definitions their parts. A thing is a file in the directory of the worker, under the name of the resource;
  the files below it are regular ones.
\<close>

section \<open>The environment of a test worker\<close>

text \<open>
  The services of the Gearbox worker, with the library's \<^verbatim>\<open>glob\<close>, the clock, and what the other processes do while this one sleeps for
  a number of seconds.
\<close>

record ('d, 'y) tw_env =
  tw_gb :: "('d, 'y) gb_env"
  tw_glob :: "string \<Rightarrow> (string \<Rightarrow> string option) \<Rightarrow> string list"
  tw_clock :: "'y gx \<Rightarrow> int"
  tw_sleep :: "nat \<Rightarrow> 'd sqldb \<times> 'y gx \<Rightarrow> 'd sqldb \<times> 'y gx"

abbreviation tw_rt :: "('d, 'y) tw_env \<Rightarrow> ('d, 'y gx) rt_env" where
  "tw_rt env \<equiv> gb_rt (tw_gb env)"

abbreviation tw_lib :: "('d, 'y) tw_env \<Rightarrow> 'd json_lib" where
  "tw_lib env \<equiv> rt_lib (tw_rt env)"

abbreviation tw_now :: "('d, 'y) tw_env \<Rightarrow> int" where
  "tw_now env \<equiv> gb_now (tw_gb env)"

definition DBDIR :: "('d, 'y) tw_env \<Rightarrow> string \<Rightarrow> string" where
  "DBDIR env worker = gb_localstatedir (tw_gb env) @ ''/gearbox/db/'' @ worker @ ''/''"

definition has_file :: "string \<Rightarrow> (('d, 'y gx) rworld, gb_exn, bool) px" where
  "has_file p = px_get (\<lambda>w. gx_files (rw_x w) p \<noteq> None)"

text \<open>\<^verbatim>\<open>unlink\<close>, whose result nobody looks at.\<close>

definition unlink :: "('d, 'y) tw_env \<Rightarrow> string \<Rightarrow> (('d, 'y gx) rworld, gb_exn, unit) px" where
  "unlink env p = px_bind (on_x (gb_fault (tw_gb env) ''unlink'')) (\<lambda>failed. px_when (\<not> failed) (put_file p None))"

definition say :: "('d, 'y) tw_env \<Rightarrow> string \<Rightarrow> ('d, 'y, unit) hx" where
  "say env m = resp_status (so_add_message (tw_now env) m)"

definition answer_with :: "string \<Rightarrow> ('d, 'y, unit) hx" where
  "answer_with t = on_resp (\<lambda>r. r\<lparr>jr_content := t\<rparr>)"

definition parse_file :: "('d, 'y) tw_env \<Rightarrow> string \<Rightarrow> ('d, 'y, 'd json) hx" where
  "parse_file env p = px_bind (in_rt (slurp (tw_gb env) p)) (\<lambda>t. px_lift (parse_text (tw_lib env) (rt_statics (tw_rt env)) None t))"

section \<open>Showing things\<close>

definition thing_not_found :: "string \<Rightarrow> gb_exn" where
  "thing_not_found name = ERR_NOT_FOUND (''thing \"'' @ name @ ''\" not found'')"

definition put_entry :: "nat \<Rightarrow> 'd json \<Rightarrow> 'd json \<Rightarrow> gb_exn + 'd json" where
  "put_entry i v = json_upd_key [] ''things'' (json_upd_at [Key ''things''] i (\<lambda>_. Inr v))"

text \<open>The loop over the paths goes up to the limit, whether there are so many paths or not.\<close>

primrec index_things :: "('d, 'y) tw_env \<Rightarrow> bool \<Rightarrow> string list \<Rightarrow> nat \<Rightarrow> nat \<Rightarrow> 'd json \<Rightarrow> ('d, 'y, 'd json) hx" where
  "index_things env expand paths i 0 out = px_return out"
| "index_things env expand paths i (Suc n) out =
     (if i \<ge> length paths then px_throw NullDereference
      else px_bind (if expand then parse_file env (paths ! i)
                    else px_return (JString (ce_basename (je_cfg (rt_jm (tw_rt env))) (paths ! i)))) (\<lambda>v.
           px_bind (px_lift (put_entry i v out)) (index_things env expand paths (i + 1) n)))"

definition expand_wanted :: "'d job \<Rightarrow> bool" where
  "expand_wanted j = (hash_has_key ''_expand'' (j_matrix_arguments (attrs j)) \<and> hash_get ''_expand'' (j_matrix_arguments (attrs j)) = Inr ''1'')"

definition get_index :: "('d, 'y) tw_env \<Rightarrow> string \<Rightarrow> 'd job \<Rightarrow> ('d, 'y, unit) hx" where
  "get_index env dir j =
     px_bind (in_rt (px_get (\<lambda>w. tw_glob env (dir @ ''*'') (gx_files (rw_x w))))) (\<lambda>paths.
     px_bind (px_lift (json_set ''things'' (JArray []) JUndef)) (\<lambda>out.
     px_bind (px_lift (when_arg ''_count'' (j_query_params (attrs j)) (\<lambda>t _. cast_uint t) (length paths))) (\<lambda>limit.
     px_bind (index_things env (expand_wanted j) paths 0 limit out) (\<lambda>out.
     answer_with (json_serialize (tw_lib env) out)))))"

definition get_instance :: "('d, 'y) tw_env \<Rightarrow> string \<Rightarrow> string \<Rightarrow> ('d, 'y, unit) hx" where
  "get_instance env dir name =
     px_bind (in_rt (has_file (dir @ name))) (\<lambda>there.
     if there then px_bind (in_rt (slurp (tw_gb env) (dir @ name))) answer_with
     else px_throw (thing_not_found name))"

definition get_thing :: "('d, 'y) tw_env \<Rightarrow> string \<Rightarrow> string \<Rightarrow> 'd job \<Rightarrow> ('d, 'y, worker_response) hx" where
  "get_thing env dir key j =
     px_then (px_when (hash_has_key key (j_environ (attrs j)))
        (px_bind (px_lift (hash_get key (j_environ (attrs j)))) (\<lambda>v. on_resp (jr_add_header key v))))
     (px_then (case j_arguments (attrs j) of [] \<Rightarrow> get_index env dir j | name # _ \<Rightarrow> get_instance env dir name)
       (px_return WORKER_SUCCESS))"

section \<open>Changing things\<close>

definition put_thing :: "('d, 'y) tw_env \<Rightarrow> string \<Rightarrow> 'd job \<Rightarrow> ('d, 'y, unit) hx" where
  "put_thing env dir j = (case j_arguments (attrs j) of
     [] \<Rightarrow> px_throw (ERR_BAD_REQUEST ''missing required resource name'')
   | name # _ \<Rightarrow> px_bind (in_rt (json_content (tw_rt env) j)) (\<lambda>d.
       if \<not> json_hasKey ''id'' d then px_throw (ERR_BAD_REQUEST ''missing required \"id\" field'')
       else in_rt (write_file (tw_gb env) (dir @ name) (j_content (attrs j)))))"

definition create_thing :: "('d, 'y) tw_env \<Rightarrow> string \<Rightarrow> 'd job \<Rightarrow> ('d, 'y, unit) hx" where
  "create_thing env dir j =
     px_bind (in_rt (json_content (tw_rt env) j)) (\<lambda>d.
     px_bind (px_lift (json_set ''id'' (JString (j_resource_name (attrs j))) d)) (\<lambda>d.
     in_rt (write_file (tw_gb env) (dir @ j_resource_name (attrs j)) (json_serialize (tw_lib env) d))))"

definition update_thing :: "('d, 'y) tw_env \<Rightarrow> string \<Rightarrow> 'd job \<Rightarrow> ('d, 'y, unit) hx" where
  "update_thing env dir j =
     px_bind (px_lift (first_argument j)) (\<lambda>name.
     px_bind (in_rt (has_file (dir @ name))) (\<lambda>there.
     if \<not> there then px_throw (thing_not_found name)
     else px_bind (in_rt (json_content (tw_rt env) j)) (\<lambda>d.
          px_when (json_hasKey ''stuff'' d)
            (px_bind (parse_file env (dir @ name)) (\<lambda>out.
             px_bind (px_lift (json_get [] ''stuff'' d)) (\<lambda>v.
             px_bind (px_lift (json_set ''stuff'' (json_copy v) out)) (\<lambda>out.
             in_rt (write_file (tw_gb env) (dir @ name) (json_serialize (tw_lib env) out)))))))))"

definition post_thing :: "('d, 'y) tw_env \<Rightarrow> string \<Rightarrow> 'd job \<Rightarrow> ('d, 'y, unit) hx" where
  "post_thing env dir j = (if j_operation (attrs j) = ''create'' then create_thing env dir j else update_thing env dir j)"

definition fake_out :: "'d job \<Rightarrow> gb_exn + bool" where
  "fake_out j = (if hash_has_key ''fake-out'' (j_headers (attrs j))
     then res_bind (res_bind (hash_get ''fake-out'' (j_headers (attrs j))) cast_int) (\<lambda>i. Inr (i \<noteq> 0)) else Inr False)"

definition delete_thing :: "('d, 'y) tw_env \<Rightarrow> string \<Rightarrow> 'd job \<Rightarrow> ('d, 'y, unit) hx" where
  "delete_thing env dir j = (case j_arguments (attrs j) of
     [] \<Rightarrow> px_throw (ERR_BAD_REQUEST ''missing required resource name'')
   | name # _ \<Rightarrow> px_bind (in_rt (has_file (dir @ name))) (\<lambda>there.
       if there then in_rt (unlink env (dir @ name)) else px_throw (thing_not_found name)))"

section \<open>The worker of the basic tests\<close>

definition processing :: "('d, 'y) tw_env \<Rightarrow> ('d, 'y, unit) hx" where
  "processing env = px_then (resp_status (so_advance (tw_now env) 10)) (say env ''processing'')"

definition do_get_testbasic_thing :: "('d, 'y) tw_env \<Rightarrow> 'd job \<Rightarrow> ('d, 'y, worker_response) hx" where
  "do_get_testbasic_thing env = get_thing env (DBDIR env ''test-basic'') ''TestBasic''"

definition do_put_testbasic_thing :: "('d, 'y) tw_env \<Rightarrow> 'd job \<Rightarrow> ('d, 'y, worker_response) hx" where
  "do_put_testbasic_thing env j =
     px_then (processing env) (px_then (put_thing env (DBDIR env ''test-basic'') j) (px_then (say env ''done'') (px_return WORKER_SUCCESS)))"

definition do_post_testbasic_thing :: "('d, 'y) tw_env \<Rightarrow> 'd job \<Rightarrow> ('d, 'y, worker_response) hx" where
  "do_post_testbasic_thing env j =
     px_then (processing env) (px_then (post_thing env (DBDIR env ''test-basic'') j) (px_then (say env ''done'') (px_return WORKER_SUCCESS)))"

definition do_delete_testbasic_thing :: "('d, 'y) tw_env \<Rightarrow> 'd job \<Rightarrow> ('d, 'y, worker_response) hx" where
  "do_delete_testbasic_thing env j =
     px_then (processing env)
     (px_bind (px_lift (fake_out j)) (\<lambda>fake.
      if fake then px_then (say env ''ignoring delete due to fake-out header'') (px_return WORKER_SUCCESS)
      else px_then (delete_thing env (DBDIR env ''test-basic'') j) (px_then (say env ''done'') (px_return WORKER_SUCCESS))))"

definition test_basic_handlers :: "('d, 'y) tw_env \<Rightarrow> (string \<times> ('d, 'y gx) handler) list" where
  "test_basic_handlers env =
     [(''do_get_testbasic_thing_v1'', do_get_testbasic_thing env), (''do_put_testbasic_thing_v1'', do_put_testbasic_thing env),
      (''do_post_testbasic_thing_v1'', do_post_testbasic_thing env), (''do_delete_testbasic_thing_v1'', do_delete_testbasic_thing env)]"

section \<open>The worker of the synchronous tests\<close>

definition do_get_testsync_thing :: "('d, 'y) tw_env \<Rightarrow> 'd job \<Rightarrow> ('d, 'y, worker_response) hx" where
  "do_get_testsync_thing env = get_thing env (DBDIR env ''test-sync'') ''TestSync''"

definition do_put_testsync_thing :: "('d, 'y) tw_env \<Rightarrow> 'd job \<Rightarrow> ('d, 'y, worker_response) hx" where
  "do_put_testsync_thing env j =
     px_then (put_thing env (DBDIR env ''test-sync'') j) (px_then (answer_with (j_content (attrs j))) (px_return WORKER_SUCCESS))"

definition do_post_testsync_thing :: "('d, 'y) tw_env \<Rightarrow> 'd job \<Rightarrow> ('d, 'y, worker_response) hx" where
  "do_post_testsync_thing env j =
     px_then (post_thing env (DBDIR env ''test-sync'') j)
     (px_bind (in_rt (slurp (tw_gb env) (DBDIR env ''test-sync'' @ j_resource_name (attrs j)))) (\<lambda>t.
      px_then (answer_with t) (px_return WORKER_SUCCESS)))"

definition do_delete_testsync_thing :: "('d, 'y) tw_env \<Rightarrow> 'd job \<Rightarrow> ('d, 'y, worker_response) hx" where
  "do_delete_testsync_thing env j =
     px_bind (px_lift (fake_out j)) (\<lambda>fake.
     if fake then px_return WORKER_SUCCESS
     else px_then (delete_thing env (DBDIR env ''test-sync'') j) (px_return WORKER_SUCCESS))"

definition test_sync_handlers :: "('d, 'y) tw_env \<Rightarrow> (string \<times> ('d, 'y gx) handler) list" where
  "test_sync_handlers env =
     [(''do_get_testsync_thing_v1'', do_get_testsync_thing env), (''do_put_testsync_thing_v1'', do_put_testsync_thing env),
      (''do_post_testsync_thing_v1'', do_post_testsync_thing env), (''do_delete_testsync_thing_v1'', do_delete_testsync_thing env)]"

section \<open>A small installation\<close>

definition demo_tw :: "(string, nat) tw_env" where
  "demo_tw = \<lparr>tw_gb = demo_gb_env, tw_glob = (\<lambda>_ _. []), tw_clock = (\<lambda>x. int (gx_y x)), tw_sleep = (\<lambda>n (db, x). (db, x\<lparr>gx_y := gx_y x + n\<rparr>))\<rparr>"

end
