(* ===== verification/GB_ThingStore.thy ===== *)
theory GB_ThingStore
  imports GB_Things
begin

text \<open>
  The handlers of the synchronous test worker as a store of things, and the store behind the server: what a client puts over HTTP is what the next
  client gets.
\<close>

section \<open>Handlers that come to an end\<close>

text \<open>An exception that is answered with the code of an error: not a crash, and the code is an \<^verbatim>\<open>int\<close>.\<close>

definition answerable :: "gb_exn \<Rightarrow> bool" where
  "answerable e \<longleftrightarrow> e \<noteq> NullDereference \<and> 400 \<le> an_code (answer_of e) \<and> in_int32 (an_code (answer_of e))"

definition answerable_result :: "gb_exn + 'a \<Rightarrow> bool" where
  "answerable_result r \<longleftrightarrow> (\<forall>e. r = Inl e \<longrightarrow> answerable e)"

named_theorems steadying "computations that come to an end and leave the statuses alone"

lemma answerable_errors [steadying, simp]: "answerable (JsonError m)" "answerable (StdError m)" "answerable (ERR_NOT_FOUND m)" "answerable (ERR_BAD_REQUEST m)" "answerable (ERR_LIBC m e)"
  "answerable (thing_not_found m)" "answerable (schema_missing m)" "answerable bad_lexical_cast"
  by (simp_all add: answerable_def answer_of_def in_int32_def ERR_NOT_FOUND_def ERR_BAD_REQUEST_def ERR_LIBC_def ERR_INTERNAL_SERVER_ERROR_def mk_error_def
      thing_not_found_def schema_missing_def bad_lexical_cast_def)

lemma answerable_basic [steadying]: "answerable_result (Inr x)" "answerable e \<Longrightarrow> answerable_result (Inl e)" "answerable_result r \<Longrightarrow> (\<And>x. answerable_result (f x)) \<Longrightarrow> answerable_result (res_bind r f)"
  "answerable_result (handleError m p)"
  by (auto simp: answerable_result_def res_bind_def handleError_def json_error_at_def split: sum.splits)

lemma answerable_json [steadying]:
  "answerable_result (json_get p k j)" "answerable_result (json_as_string p j)" "answerable_result (json_as_int64 p j)"
  "answerable_result (json_as_object p j)" "answerable_result (json_as_array p j)"
  unfolding json_get_def json_as_string_def json_as_int64_def json_as_object_def json_as_array_def assertType_def
  by (auto intro!: answerable_basic split: json.splits option.splits)

text \<open>Computations of the process, and those of a handler: they return, throw nothing but such exceptions, and leave the statuses and the jobs for afterwards.\<close>

definition steady_rt :: "(('d, 'x) rworld, gb_exn, 'a) px \<Rightarrow> bool" where
  "steady_rt m \<longleftrightarrow> (\<forall>w. \<exists>x w'. m w = Some (x, w') \<and> answerable_result x \<and> rw_t w' = rw_t w)"

definition steady :: "('d, 'y, 'a) hx \<Rightarrow> bool" where
  "steady m \<longleftrightarrow> (\<forall>r w. \<exists>x r' w'. m (r, w) = Some (x, r', w') \<and> answerable_result x \<and> jr_status r' = jr_status r
     \<and> (typed_response r \<longrightarrow> typed_response r') \<and> rw_t (ww_rt w') = rw_t (ww_rt w) \<and> ww_afterwards w' = ww_afterwards w)"

lemma steady_rt_bind [steadying]:
  assumes "steady_rt m" and "\<And>a. steady_rt (f a)"
  shows "steady_rt (px_bind m f)"
  unfolding steady_rt_def
proof
  fix w
  obtain x w' where m: "m w = Some (x, w')" "answerable_result x" "rw_t w' = rw_t w" using assms(1) unfolding steady_rt_def by blast
  show "\<exists>x w'. px_bind m f w = Some (x, w') \<and> answerable_result x \<and> rw_t w' = rw_t w"
  proof (cases x)
    case (Inr a)
    obtain y w'' where "f a w' = Some (y, w'')" "answerable_result y" "rw_t w'' = rw_t w'" using assms(2) [of a] unfolding steady_rt_def by blast
    with m Inr show ?thesis by (simp add: px_bind_def)
  qed (use m in \<open>simp add: px_bind_def answerable_result_def\<close>)
qed

lemma steady_bind [steadying]:
  assumes "steady m" and "\<And>a. steady (f a)"
  shows "steady (px_bind m f)"
  unfolding steady_def
proof (intro allI)
  fix r w
  obtain x r' w' where m: "m (r, w) = Some (x, r', w')" "answerable_result x" "jr_status r' = jr_status r" "typed_response r \<longrightarrow> typed_response r'"
    "rw_t (ww_rt w') = rw_t (ww_rt w)" "ww_afterwards w' = ww_afterwards w" using assms(1) unfolding steady_def by blast
  show "\<exists>x r' w'. px_bind m f (r, w) = Some (x, r', w') \<and> answerable_result x \<and> jr_status r' = jr_status r
     \<and> (typed_response r \<longrightarrow> typed_response r') \<and> rw_t (ww_rt w') = rw_t (ww_rt w) \<and> ww_afterwards w' = ww_afterwards w"
  proof (cases x)
    case (Inr a)
    obtain y r'' w'' where "f a (r', w') = Some (y, r'', w'')" "answerable_result y" "jr_status r'' = jr_status r'" "typed_response r' \<longrightarrow> typed_response r''"
      "rw_t (ww_rt w'') = rw_t (ww_rt w')" "ww_afterwards w'' = ww_afterwards w'" using assms(2) [of a] unfolding steady_def by blast
    with m Inr show ?thesis by (simp add: px_bind_def)
  qed (use m in \<open>simp add: px_bind_def answerable_result_def\<close>)
qed

lemma steady_then [steadying]:
  "steady_rt m \<Longrightarrow> steady_rt m' \<Longrightarrow> steady_rt (px_then m m')" "steady n \<Longrightarrow> steady n' \<Longrightarrow> steady (px_then n n')"
  unfolding px_then_def by (intro steadying; assumption)+

lemma steady_basic [steadying]:
  "steady_rt (px_return a)" "answerable e \<Longrightarrow> steady_rt (px_throw e)" "steady_rt (px_get g)" "answerable_result r \<Longrightarrow> steady_rt (px_lift r)" "steady_rt (on_x f)"
  "steady (px_return a)" "answerable e \<Longrightarrow> steady (px_throw e)" "answerable_result r \<Longrightarrow> steady (px_lift r)" "steady (answer_with t)"
  by (auto simp: steady_rt_def steady_def px_defs answerable_result_def on_x_def answer_with_def on_resp_def typed_response_def split_def Let_def)

lemma steady_cases [steadying]:
  "steady_rt m \<Longrightarrow> steady_rt m' \<Longrightarrow> steady_rt (if b then m else m')" "steady n \<Longrightarrow> steady n' \<Longrightarrow> steady (if b then n else n')"
  "steady_rt m \<Longrightarrow> steady_rt (px_when b m)" "steady n \<Longrightarrow> steady (px_when b n)"
  by (auto simp: px_when_def steady_basic)

lemma steady_in_rt [steadying]: "steady_rt m \<Longrightarrow> steady (in_rt m)"
  unfolding steady_def steady_rt_def in_rt_def in_w_def on_rt_def by (fastforce split: option.split)

lemma steady_header [steadying]: "steady (on_resp (jr_add_header k v))"
  by (auto simp: steady_def on_resp_def px_modify_def jr_add_header_def typed_response_def smap_wf_put answerable_result_def)

lemma steady_files [steadying]:
  "steady_rt (throw_libc env m)" "steady_rt (sys_call env c m)" "steady_rt (put_file p f)" "steady_rt (write_file env p t)" "steady_rt (slurp env p)"
  "steady_rt (has_file p)" "steady_rt (unlink tw p)"
proof -
  show libc: "steady_rt (throw_libc env m)" for m :: string unfolding throw_libc_def by (intro steadying)
  show sys: "steady_rt (sys_call env c m)" for c m unfolding sys_call_def by (intro steadying libc)
  show put: "steady_rt (put_file p f)" for f unfolding put_file_def by (intro steadying)
  show "steady_rt (write_file env p t)" unfolding write_file_def by (intro steadying sys put)
  show "steady_rt (slurp env p)" unfolding slurp_def by (intro steadying sys) (auto intro: steadying libc split: option.split)
  show "steady_rt (has_file p)" unfolding has_file_def by (intro steadying)
  show "steady_rt (unlink tw p)" unfolding unlink_def by (intro steadying put)
qed

section \<open>Reading the content of a job\<close>

text \<open>The files of the schemas can be read, or fail with an exception that is answered; and yajl reads the content in the order of a document.\<close>

definition schemas_ok :: "('d, 'x) rt_env \<Rightarrow> bool" where
  "schemas_ok env \<longleftrightarrow> (\<forall>p e. fst (parseFile (je_cfg (rt_jm env)) p) = Some e \<longrightarrow> answerable e)"

definition orderly_content :: "('d, 'x) rt_env \<Rightarrow> 'd job \<Rightarrow> bool" where
  "orderly_content env j \<longleftrightarrow> yajl_orderly (WantValue, []) (fst (yajl_lex (rt_lib env) (if j_content (attrs j) = [] then ''null'' else j_content (attrs j))))"

lemma schemadir_answerable: "schemadir env w = (Inl e, w') \<Longrightarrow> answerable e"
proof -
  assume "schemadir env w = (Inl e, w')"
  then have "get_path_default (ce_root (je_cfg env)) ''schemadir'' (je_datadir env) (w_cfg w) = Inl e"
    by (auto simp: schemadir_def split: option.splits sum.splits)
  moreover have "answerable_result (get_path_default (ce_root (je_cfg env)) ''schemadir'' (je_datadir env) (w_cfg w))"
    unfolding get_path_default_def get_path_def get_string_def server_abspath_def by (auto intro!: steadying split: list.split)
  ultimately show ?thesis by (simp add: answerable_result_def)
qed

lemma load_schema_answerable: "schemas_ok env \<Longrightarrow> load_schema (rt_jm env) n w = (Inl e, w') \<Longrightarrow> answerable e"
  by (auto simp: load_schema_def sx_bind_def sx_then_def sx_get_def Let_def schemas_ok_def
      split: prod.splits sum.splits if_splits option.splits dest: schemadir_answerable) (metis fst_conv)

lemma getSchema_answerable: "schemas_ok env \<Longrightarrow> getSchema (rt_jm env) a w = (Inl e, w') \<Longrightarrow> answerable e"
proof -
  assume ok: "schemas_ok env" and e: "getSchema (rt_jm env) a w = (Inl e, w')"
  have "answerable_result (get_int_default ''require_schemas'' (- 1) cfg)" for cfg :: "'a json"
    unfolding get_int_default_def by (auto intro!: steadying)
  then have "get_int_default ''require_schemas'' (- 1) (w_cfg u) = Inl e \<Longrightarrow> answerable e" for u :: "'a jm_world" by (simp add: answerable_result_def)
  with e load_schema_answerable [OF ok] show ?thesis
    by (auto simp: getSchema_def sx_bind_def sx_return_def sx_throw_def sx_get_def Let_def split: prod.splits sum.splits if_splits option.splits)
qed

lemma json_content_steady [steadying]:
  assumes "schemas_ok env" and "orderly_content env j"
  shows "steady_rt (json_content env j)"
proof -
  have "steady_rt (on_jm (getSchema (rt_jm env) (attrs j)))"
    by (auto simp: steady_rt_def on_jm_def answerable_result_def Let_def split: prod.split dest: getSchema_answerable [OF assms(1)])
  moreover have "answerable_result (parse_text (rt_lib env) (rt_statics env) sch (if j_content (attrs j) = [] then ''null'' else j_content (attrs j)))" for sch
    using parse_text_ends [OF assms(2) [unfolded orderly_content_def]] by (fastforce simp: answerable_result_def)
  ultimately show ?thesis unfolding json_content_def by (intro steadying)
qed

lemma json_content_outside: "json_content env j w = Some (x, w') \<Longrightarrow> rw_x w' = rw_x w"
  by (auto simp: json_content_def px_bind_def on_jm_def px_lift_def Let_def split: prod.splits sum.splits)

section \<open>The handlers settle\<close>

lemma settles_if_steady:
  assumes "steady (h j)" and "\<And>s x s'. h j s = Some (Inr x, s') \<Longrightarrow> x = WORKER_SUCCESS"
  shows "settles h j"
  unfolding settles_def
proof (intro allI impI)
  fix resp :: "'a job_response" and x :: "('a, 'b) gw" assume bk: "backed_by resp x" and ty: "typed_response resp"
  obtain r resp' x' where m: "h j (resp, x) = Some (r, resp', x')" "answerable_result r" "jr_status resp' = jr_status resp"
    "typed_response resp \<longrightarrow> typed_response resp'" "rw_t (ww_rt x') = rw_t (ww_rt x)" "ww_afterwards x' = ww_afterwards x"
    using assms(1) unfolding steady_def by blast
  moreover have "r \<noteq> Inr WORKER_RETRY" using assms(2) [of "(resp, x)" WORKER_RETRY "(resp', x')"] m(1) by auto
  ultimately show "case h j (resp, x) of None \<Rightarrow> False
      | Some (r, resp', x') \<Rightarrow> r \<noteq> Inl NullDereference \<and> r \<noteq> Inr WORKER_RETRY \<and> (\<forall>e. r = Inl e \<longrightarrow> in_int32 (an_code (answer_of e)))
         \<and> backed_by resp' x' \<and> typed_response resp' \<and> ww_afterwards x' = ww_afterwards x"
    using bk ty by (auto simp: answerable_result_def answerable_def backed_iff)
qed

lemma answerable_hash [steadying]: "answerable_result (hash_get k h)" "answerable_result (cast_int t)"
  by (auto simp: hash_get_def cast_int_def answerable_result_def split: option.splits if_splits)

lemma put_settles:
  assumes "schemas_ok (tw_rt env)" and "orderly_content (tw_rt env) j"
  shows "settles (do_put_testsync_thing env) j"
proof (rule settles_if_steady)
  show "steady (do_put_testsync_thing env j)"
    unfolding do_put_testsync_thing_def put_thing_def by (auto intro!: steadying assms split: list.split)
qed (auto simp: do_put_testsync_thing_def px_then_def px_bind_Inr px_return_def)

lemma get_settles:
  assumes "j_arguments (attrs j) = name # as"
  shows "settles (do_get_testsync_thing env) j"
proof (rule settles_if_steady)
  show "steady (do_get_testsync_thing env j)"
    unfolding do_get_testsync_thing_def get_thing_def get_instance_def assms by (auto intro!: steadying)
qed (auto simp: do_get_testsync_thing_def get_thing_def px_then_def px_bind_Inr px_return_def)

lemma delete_settles: "settles (do_delete_testsync_thing env) j"
proof (rule settles_if_steady)
  show "steady (do_delete_testsync_thing env j)"
    unfolding do_delete_testsync_thing_def delete_thing_def fake_out_def by (auto intro!: steadying split: list.split)
qed (auto simp: do_delete_testsync_thing_def px_then_def px_bind_Inr px_return_def split: if_splits)

section \<open>A store of things\<close>

definition thing_map :: "('d, 'y) tw_env \<Rightarrow> 'y gx \<Rightarrow> string \<rightharpoonup> string" where
  "thing_map env x name = gx_files x (DBDIR env ''test-sync'' @ name)"

lemma thing_map_put: "thing_map env (x\<lparr>gx_files := (gx_files x)(DBDIR env ''test-sync'' @ name := t)\<rparr>) = (thing_map env x)(name := t)"
  by (auto simp: thing_map_def)

lemma put_result:
  assumes "calm (tw_gb env)" and "j_arguments (attrs j) = name # as"
    and "do_put_testsync_thing env j (r, w) = Some (res, r', w')"
  shows "jr_code r' = jr_code r" and "res = Inr WORKER_SUCCESS \<and> jr_content r' = j_content (attrs j)
        \<and> thing_map env (outside w') = (thing_map env (outside w))(name \<mapsto> j_content (attrs j))
      \<or> (\<exists>e. res = Inl e) \<and> thing_map env (outside w') = thing_map env (outside w)"
proof -
  let ?p = "DBDIR env ''test-sync'' @ name"
  obtain x t where jc: "json_content (tw_rt env) j (ww_rt w) = Some (x, t)"
    using assms(2,3) by (auto simp: do_put_testsync_thing_def put_thing_def px_then_def px_bind_def in_rt_def in_w_def on_rt_def split: option.splits)
  then have same: "rw_x t = outside w" by (rule json_content_outside)
  consider e where "x = Inl e" | d where "x = Inr d" "\<not> json_hasKey ''id'' d" | d where "x = Inr d" "json_hasKey ''id'' d" by (cases x) auto
  then have "jr_code r' = jr_code r \<and> (res = Inr WORKER_SUCCESS \<and> jr_content r' = j_content (attrs j)
        \<and> thing_map env (outside w') = (thing_map env (outside w))(name \<mapsto> j_content (attrs j))
      \<or> (\<exists>e. res = Inl e) \<and> thing_map env (outside w') = thing_map env (outside w))"
  proof cases
    case 3
    with assms jc same show ?thesis
      by (auto simp: do_put_testsync_thing_def put_thing_def px_then_def px_bind_def in_rt_def in_w_def on_rt_def write_file_calm answer_with_def on_resp_def
          px_modify_def px_return_def set_file_def thing_map_put)
  qed (use assms jc same in \<open>auto simp: do_put_testsync_thing_def put_thing_def px_then_def px_bind_def in_rt_def in_w_def on_rt_def px_throw_def\<close>)
  then show "jr_code r' = jr_code r" and "res = Inr WORKER_SUCCESS \<and> jr_content r' = j_content (attrs j)
        \<and> thing_map env (outside w') = (thing_map env (outside w))(name \<mapsto> j_content (attrs j))
      \<or> (\<exists>e. res = Inl e) \<and> thing_map env (outside w') = thing_map env (outside w)" by blast+
qed

lemma get_result:
  assumes "calm (tw_gb env)" and "j_arguments (attrs j) = name # as" and "do_get_testsync_thing env j (r, w) = Some (res, r', w')"
  shows "jr_code r' = jr_code r" and "outside w' = outside w" and "case thing_map env (outside w) name of
      None \<Rightarrow> res = Inl (thing_not_found name) | Some t \<Rightarrow> res = Inr WORKER_SUCCESS \<and> jr_content r' = t"
  using assms
  by (auto simp: do_get_testsync_thing_def get_thing_def get_instance_def px_then_def px_bind_def px_when_def in_rt_def in_w_def on_rt_def slurp_calm
      has_file_def px_get_def px_return_def px_throw_def px_lift_def hash_has_key_def hash_get_def answer_with_def on_resp_def px_modify_def thing_map_def jr_add_header_def
      split: option.splits if_splits)

lemma delete_result:
  assumes "calm (tw_gb env)" and "j_arguments (attrs j) = name # as" and "fake_out j = Inr False"
    and "do_delete_testsync_thing env j (r, w) = Some (res, r', w')"
  shows "r' = r" and "case thing_map env (outside w) name of
      None \<Rightarrow> res = Inl (thing_not_found name) \<and> outside w' = outside w
    | Some t \<Rightarrow> res = Inr WORKER_SUCCESS \<and> thing_map env (outside w') = (thing_map env (outside w))(name := None)"
  using assms
  by (auto simp: do_delete_testsync_thing_def delete_thing_def px_then_def px_bind_def px_when_def in_rt_def in_w_def on_rt_def unlink_def calm_def on_x_def
      has_file_def px_get_def px_return_def px_throw_def px_lift_def put_file_def thing_map_put thing_map_def split: option.splits if_splits)

section \<open>The store behind the server\<close>

text \<open>What a job asks of the store.\<close>

datatype thing_request = GetThing string | PutThing string string | DeleteThing string

fun asks :: "('d, 'y) tw_env \<Rightarrow> 'd job \<Rightarrow> thing_request \<Rightarrow> bool" where
  "asks env j (GetThing name) = (j_name (attrs j) = ''do_get_testsync_thing_v1'' \<and> take 1 (j_arguments (attrs j)) = [name])"
| "asks env j (PutThing name c) = (j_name (attrs j) = ''do_put_testsync_thing_v1'' \<and> take 1 (j_arguments (attrs j)) = [name] \<and> j_content (attrs j) = c
     \<and> orderly_content (tw_rt env) j)"
| "asks env j (DeleteThing name) = (j_name (attrs j) = ''do_delete_testsync_thing_v1'' \<and> take 1 (j_arguments (attrs j)) = [name] \<and> fake_out j = Inr False)"

text \<open>How a map of things answers: the reply, and the map afterwards.\<close>

fun map_replies :: "thing_request \<Rightarrow> (string \<rightharpoonup> string) \<Rightarrow> ap_reply \<Rightarrow> (string \<rightharpoonup> string) \<Rightarrow> bool" where
  "map_replies (GetThing name) m q m' = (m' = m \<and> (case m name of None \<Rightarrow> rp_status q = 404 | Some t \<Rightarrow> rp_status q = 200 \<and> rp_body q = t))"
| "map_replies (PutThing name c) m q m' = (rp_status q = 200 \<and> rp_body q = c \<and> m' = m(name \<mapsto> c) \<or> rp_status q \<ge> 400 \<and> m' = m)"
| "map_replies (DeleteThing name) m q m' = (case m name of None \<Rightarrow> rp_status q = 404 \<and> m' = m | Some _ \<Rightarrow> rp_status q = 200 \<and> m' = m(name := None))"

text \<open>The worker has registered its handlers.\<close>

definition runs_test_sync :: "('d, 'y) tw_env \<Rightarrow> (string \<Rightarrow> ('d, 'y gx) handler) \<Rightarrow> bool" where
  "runs_test_sync env hs \<longleftrightarrow> hs ''do_get_testsync_thing_v1'' = do_get_testsync_thing env \<and> hs ''do_put_testsync_thing_v1'' = do_put_testsync_thing env
     \<and> hs ''do_delete_testsync_thing_v1'' = do_delete_testsync_thing env"

lemma runs_if_registered:
  "(\<And>n h. map_of (test_sync_handlers env) n = Some h \<Longrightarrow> hs n = h) \<Longrightarrow> runs_test_sync env hs"
  by (simp add: runs_test_sync_def test_sync_handlers_def)

lemma sent_asks:
  assumes "asks env J q"
  shows "asks env (as_sent (with_status n J)) q"
proof -
  obtain a hs es where "J = Job a hs es" by (cases J)
  then have "attrs (as_sent (with_status n J)) = (sent_attrs (attrs J))\<lparr>j_status := n\<rparr>" by (simp add: with_status_def upd_attrs_def sent_attrs_def)
  then show ?thesis using assms by (cases q) (auto simp: sent_attrs_def orderly_content_def fake_out_def split: if_splits)
qed

lemma asked_settles:
  assumes "asks env j q" and "runs_test_sync env hs" and "schemas_ok (tw_rt env)"
  shows "settles (hs (j_name (attrs j))) j"
proof (cases q)
  case (GetThing name)
  then obtain as where "j_arguments (attrs j) = name # as" using assms(1) by (cases "j_arguments (attrs j)") auto
  with GetThing assms(1,2) get_settles show ?thesis by (auto simp: runs_test_sync_def)
qed (use assms put_settles delete_settles in \<open>auto simp: runs_test_sync_def\<close>)

lemma relayed_code: "400 \<le> an_code an \<Longrightarrow> 400 \<le> err_code (relayed an)"
  by (auto simp: relayed_def throw_from_code_def mk_error_def split: option.split)

lemma not_found_shown: "shows_answer lib st (handled_answer n (Inl (thing_not_found name)) resp) c q \<Longrightarrow> rp_status q = 404"
  by (auto simp: shows_answer_def handled_answer_def handler_result_def answer_of_def thing_not_found_def ERR_NOT_FOUND_def mk_error_def relayed_def throw_from_code_def
      error_table_def)

lemma success_shown: "shows_answer lib st (handled_answer n (Inr WORKER_SUCCESS) resp) c q \<Longrightarrow> jr_code resp = 0 \<Longrightarrow> rp_status q = 200 \<and> rp_body q = c"
  by (simp add: shows_answer_def handled_answer_def handler_result_def answer_ok_def)

lemma error_shown: "shows_answer lib st (handled_answer n (Inl e) resp) c q \<Longrightarrow> answerable e \<Longrightarrow> 400 \<le> rp_status q"
  using relayed_code [of "answer_of e"] by (auto simp: shows_answer_def handled_answer_def handler_result_def answerable_def split: if_splits)

lemma thing_answered:
  assumes "asks env j q" and "runs_test_sync env hs" and "schemas_ok (tw_rt env)" and "calm (tw_gb env)"
    and "served_by (hs (j_name (attrs j))) j z res resp z'" and "shows_answer lib st (handled_answer n res resp) (jr_content resp) rep"
  shows "map_replies q (thing_map env z) rep (thing_map env z')"
proof -
  obtain r0 x x' where h: "fresh_response r0" "backed_by r0 x" "outside x = z" "outside x' = z'" "hs (j_name (attrs j)) j (r0, x) = Some (res, resp, x')"
    using assms(5) by (auto simp: served_by_def)
  have code: "jr_code r0 = 0" using h(1) by (simp add: fresh_response_def)
  note shown = success_shown [of lib st n resp "jr_content resp" rep] not_found_shown [of lib st n _ resp "jr_content resp" rep]
    error_shown [of lib st n _ resp "jr_content resp" rep]
  show ?thesis
  proof (cases q)
    case (GetThing name)
    then obtain as where args: "j_arguments (attrs j) = name # as" using assms(1) by (cases "j_arguments (attrs j)") auto
    have "do_get_testsync_thing env j (r0, x) = Some (res, resp, x')" using h(5) GetThing assms(1,2) by (simp add: runs_test_sync_def)
    from get_result [OF assms(4) args this] code h(3,4) assms(6) GetThing shown show ?thesis by (auto split: option.splits)
  next
    case (PutThing name c)
    then obtain as where args: "j_arguments (attrs j) = name # as" and c: "j_content (attrs j) = c" using assms(1) by (cases "j_arguments (attrs j)") auto
    have run: "do_put_testsync_thing env j (r0, x) = Some (res, resp, x')" using h(5) PutThing assms(1,2) by (simp add: runs_test_sync_def)
    have "answerable e" if "res = Inl e" for e
    proof -
      have "steady (do_put_testsync_thing env j)" unfolding do_put_testsync_thing_def put_thing_def
        using assms(1,3) PutThing by (auto intro!: steadying split: list.split)
      then show ?thesis using run that unfolding steady_def answerable_result_def by (metis Pair_inject option.inject)
    qed
    with put_result [OF assms(4) args run] code h(3,4) assms(6) PutThing c shown show ?thesis by fastforce
  next
    case (DeleteThing name)
    then obtain as where args: "j_arguments (attrs j) = name # as" and fk: "fake_out j = Inr False" using assms(1) by (cases "j_arguments (attrs j)") auto
    have "do_delete_testsync_thing env j (r0, x) = Some (res, resp, x')" using h(5) DeleteThing assms(1,2) by (simp add: runs_test_sync_def)
    from delete_result [OF assms(4) args fk this] code h(3,4) assms(6) DeleteThing shown show ?thesis by (auto split: option.splits)
  qed
qed

abbreviation server_things :: "('d, 'v) tw_env \<Rightarrow> ('d, 'y \<times> ('d, 'v gx) wworld) rworld \<Rightarrow> string \<rightharpoonup> string" where
  "server_things tw w \<equiv> thing_map tw (outside (snd (rw_x w)))"

lemma thing_request_served:
  assumes "connected env (gb_wk (tw_gb tw)) hs" and "runs_test_sync tw hs" and "calm (tw_gb tw)" and "schemas_ok (tw_rt tw)"
    and "deliverable env (gb_wk (tw_gb tw)) no2slash c r w J" and "asks tw J q"
  shows "\<exists>rep w'. gearbox_handler env no2slash c r (new_reply, w) = Some (Inr DONE, rep, w') \<and> map_replies q (server_things tw w) rep (server_things tw w')"
proof -
  have name: "j_name (attrs (as_sent (with_status n J))) = j_name (attrs J)" for n by (cases J) (simp add: with_status_def upd_attrs_def sent_attrs_def)
  have "settles (hs (j_name (attrs J))) (as_sent (with_status n J))" for n
    using asked_settles [OF sent_asks [OF assms(6)] assms(2,4), of n] name by simp
  from deliverable_served [OF assms(1,5) this] obtain n res resp rep w'
    where sv: "served_by (hs (j_name (attrs J))) (as_sent (with_status n J)) (outside (snd (rw_x w))) res resp (outside (snd (rw_x w')))"
      "gearbox_handler env no2slash c r (new_reply, w) = Some (Inr DONE, rep, w')"
      "shows_answer (rt_lib env) undefined (handled_answer (j_name (attrs J)) res resp) (jr_content resp) rep" by blast
  from thing_answered [OF sent_asks [OF assms(6)] assms(2,4,3), of n] sv name show ?thesis by metis
qed

text \<open>
  C2: the server and the synchronous test worker together are a map of things. While no system call fails, a GET over HTTP shows the text that is stored under the name, or is
  answered with 404 where there is none; a PUT whose content the worker accepts stores it, answers with it and changes nothing else, and one that is rejected
  changes nothing; a DELETE removes the thing that is there. So what a client puts is what the next client gets, until somebody puts or deletes it again.
\<close>

theorem things_served:
  assumes "connected env (gb_wk (tw_gb tw)) hs" and "runs_test_sync tw hs" and "calm (tw_gb tw)" and "schemas_ok (tw_rt tw)"
    and "deliverable env (gb_wk (tw_gb tw)) no2slash c r w J" and "asks tw J q"
  shows "\<exists>rep w'. gearbox_handler env no2slash c r (new_reply, w) = Some (Inr DONE, rep, w')
    \<and> map_replies q (thing_map tw (outside (snd (rw_x w)))) rep (thing_map tw (outside (snd (rw_x w'))))"
  by (rule thing_request_served [OF assms])

definition demo_handlers :: "string \<Rightarrow> (string, nat gx) handler" where
  "demo_handlers n = (case map_of (test_sync_handlers demo_tw) n of None \<Rightarrow> (\<lambda>_. px_return WORKER_ERROR) | Some h \<Rightarrow> h)"

definition demo_store_client :: "(string, nat \<times> (string, nat gx) wworld) rt_env" where
  "demo_store_client = \<lparr>rt_jm = demo_jm_env, rt_compress = id, rt_uuid = (\<lambda>(x, y). ((of_nat x, 0), (x + 1, y))), rt_echo = (\<lambda>x. (True, x)),
     rt_do_background = (\<lambda>_ _ x. (None, x)), rt_do = served (gb_wk demo_gb_env) demo_handlers, rt_http = (\<lambda>_ _ _ _ x. (Inr (200, [], []), x))\<rparr>"

definition demo_store_worker :: "(string, nat gx) wworld" where
  "demo_store_worker = demo_gworld\<lparr>ww_rt := (ww_rt demo_gworld)\<lparr>rw_x := (rw_x (ww_rt demo_gworld))\<lparr>gx_files := [''/var/gearbox/db/test-sync/a'' \<mapsto> ''hi'']\<rparr>\<rparr>\<rparr>"

definition demo_store :: "(string, nat \<times> (string, nat gx) wworld) rworld" where
  "demo_store = \<lparr>rw_jm = rw_jm demo_rworld, rw_t = rw_t demo_rworld, rw_db = rw_db demo_rworld, rw_heap = 1, rw_x = (3, demo_store_worker)\<rparr>"

definition demo_thing_block :: gearbox_cfg where
  "demo_thing_block = demo_block\<lparr>gc_component := ''testsync''\<rparr>"

definition demo_get_thing :: ap_request where
  "demo_get_thing = (demo_request ''/rm/v1/thing/a'')\<lparr>rq_method := ''GET''\<rparr>"

definition demo_thing_job :: "string job" where
  "demo_thing_job = Job (new_job_attrs\<lparr>j_name := ''do_get_testsync_thing_v1'', j_version := ''v1'', j_operation := ''get'', j_component := ''testsync'',
     j_resource_type := ''thing'', j_resource_name := ''a'', j_base_uri := ''http://h/rm/v1'', j_type := JOB_SYNC, j_arguments := [''a'']\<rparr>) [] None"

lemma demo_thing_called:
  "case request_job demo_store_client demo_thing_block demo_get_thing ((''v1'', ''thing'', [''a'']), []) demo_store of
     Some (j, w) \<Rightarrow> j = Inr demo_thing_job \<and> reachable demo_store_client demo_thing_job w | None \<Rightarrow> False"
  by code_simp

lemma demo_thing_sendable: "sendable wire_lib (with_status n demo_thing_job)" "startable demo_thing_job"
proof -
  have "case on_attrs (set_job_name ''do_get_testsync_thing_v1'') new_job_attrs of Inl _ \<Rightarrow> False | Inr _ \<Rightarrow> True" by code_simp
  then show "sendable wire_lib (with_status n demo_thing_job)"
    by (auto simp: demo_thing_job_def with_status_def upd_attrs_def attrs_sendable_def hashes_ok_def new_job_attrs_def smap_wf_def smap_find_def status_sendable_def
        split: sum.splits)
  have "case Uri ''http://h/rm/v1'' of Inl _ \<Rightarrow> False | Inr _ \<Rightarrow> True" "case job_resource_uri (attrs demo_thing_job) of Inl _ \<Rightarrow> False | Inr _ \<Rightarrow> True"
    by code_simp+
  then show "startable demo_thing_job"
    by (auto simp: startable_def demo_thing_job_def no_start_event_def smap_find_def split: sum.splits)
qed

lemmas demo_store_defs = demo_tw_def demo_gb_env_def demo_gb_rt_def demo_gworld_def demo_store_worker_def demo_store_def demo_store_client_def

lemma demo_thing_accepted: "accepts (gb_wk demo_gb_env) (snd (rw_x demo_store)) (\<lambda>n. sent_doc (rt_lib demo_store_client) (rt_statics demo_store_client) (with_status n demo_thing_job))"
proof -
  obtain jw where sch: "load_schema demo_jm_env ''job-envelope'' demo_jm_world = (Inr None, jw)" using demo_no_schema by blast
  have "parse_text wire_lib st None (json_serialize wire_lib (sent_doc wire_lib st' (with_status n demo_thing_job))) = Inr (sent_doc wire_lib st' (with_status n demo_thing_job))"
    for n st st' using job_sent [OF wire.json_text_axioms demo_thing_sendable(1)] wire.parse_text_serialize by blast
  then show ?thesis using sch demo_jm_ok by (simp add: accepts_def demo_store_defs demo_jm_env_def)
qed

lemma demo_thing_path: "request_path id demo_thing_block demo_get_thing = Inr ((''v1'', ''thing'', [''a'']), [])"
  by code_simp

lemma demo_thing_deliverable: "deliverable demo_store_client (gb_wk demo_gb_env) id demo_thing_block demo_get_thing demo_store demo_thing_job"
proof -
  have "with_status [] demo_thing_job = demo_thing_job" by (simp add: demo_thing_job_def with_status_def upd_attrs_def new_job_attrs_def)
  then have "sendable (rt_lib demo_store_client) demo_thing_job" using demo_thing_sendable(1) [of "[]"] by (simp add: demo_store_client_def demo_jm_env_def)
  moreover have "rq_handler demo_get_thing = ''gearbox-handler''" "\<not> rq_file_exists demo_get_thing" "\<not> rq_header_only demo_get_thing"
      "ww_afterwards (snd (rw_x demo_store)) = []" "handlers demo_thing_job = []"
    by (simp_all add: demo_get_thing_def demo_request_def demo_store_defs demo_thing_job_def)
  ultimately show ?thesis using demo_thing_sendable(2) demo_thing_accepted demo_thing_path demo_thing_called by (simp add: deliverable_def)
qed

theorem things_served_witness:
  "\<exists>rep w'. gearbox_handler demo_store_client id demo_thing_block demo_get_thing (new_reply, demo_store) = Some (Inr DONE, rep, w') \<and> rp_status rep = 200 \<and> rp_body rep = ''hi''"
proof -
  have con: "connected demo_store_client (gb_wk (tw_gb demo_tw)) demo_handlers" using wire.json_text_axioms
    by (simp add: connected_def apart_def idle_hook_def px_return_def demo_store_defs demo_jm_env_def split_def)
  have run: "runs_test_sync demo_tw demo_handlers" by (simp add: runs_test_sync_def demo_handlers_def test_sync_handlers_def)
  have calm: "calm (tw_gb demo_tw)" by (simp add: calm_def demo_store_defs)
  have sch: "schemas_ok (tw_rt demo_tw)" by (auto simp: schemas_ok_def demo_store_defs demo_jm_env_def parseFile_def split: option.splits sum.splits)
  have asks: "asks demo_tw demo_thing_job (GetThing ''a'')" by (simp add: demo_thing_job_def)
  have dl: "deliverable demo_store_client (gb_wk (tw_gb demo_tw)) id demo_thing_block demo_get_thing demo_store demo_thing_job"
    using demo_thing_deliverable by (simp add: demo_tw_def)
  have "thing_map demo_tw (outside (snd (rw_x demo_store))) ''a'' = Some ''hi''" by code_simp
  with things_served [OF con run calm sch dl asks] show ?thesis by auto
qed

end
