(* ===== verification/GB_Flows.thy ===== *)
theory GB_Flows
  imports GB_Things
begin

text \<open>
  The workers of the integration tests that make other jobs: \<^verbatim>\<open>workers/test-chained/WorkerTestChained.cc\<close> calls other handlers, one after the other or side by side, and waits for them;
  \<^verbatim>\<open>workers/test-agents/WorkerTestAgents.cc\<close> has agents run; \<^verbatim>\<open>workers/test-delay/WorkerTestDelay.cc\<close> counts in delayed jobs; \<^verbatim>\<open>workers/test-cancel/WorkerTestCancel.cc\<close> is there
  to be cancelled. A loop that polls is \<open>repeat_until\<close> of one look; while it sleeps, and between two looks, the other processes go on.
\<close>

section \<open>Small steps\<close>

definition rest_job :: "http_method \<Rightarrow> string \<Rightarrow> (('d, 'x) rworld, gb_exn, 'd job) px" where
  "rest_job m t = px_bind (px_lift (Uri t)) (\<lambda>u. on_jm (job_uri m u))"

definition local_job :: "('d, 'y) tw_env \<Rightarrow> string \<Rightarrow> (('d, 'y gx) rworld, gb_exn, 'd job) px" where
  "local_job env name = on_jm (job_named (rt_jm (tw_rt env)) name)"

definition remove_file :: "('d, 'y) tw_env \<Rightarrow> string \<Rightarrow> (('d, 'y gx) rworld, gb_exn, unit) px" where
  "remove_file env p =
     px_bind (on_x (gb_fault (tw_gb env) ''remove'')) (\<lambda>failed.
     if failed then px_bind (px_get (\<lambda>w. gb_strerror (tw_gb env) (rw_x w))) (\<lambda>err. px_throw (StdError (''boost::filesystem::remove: '' @ err @ '': \"'' @ p @ ''\"'')))
     else put_file p None)"

definition thing_file :: "('d, 'y) tw_env \<Rightarrow> string \<Rightarrow> 'd job \<Rightarrow> string" where
  "thing_file env worker j = DBDIR env worker @ j_resource_name (attrs j)"

definition show_file :: "('d, 'y) tw_env \<Rightarrow> string \<Rightarrow> 'd job \<Rightarrow> ('d, 'y, worker_response) hx" where
  "show_file env worker j =
     px_bind (in_rt (slurp (tw_gb env) (thing_file env worker j))) (\<lambda>t. px_then (answer_with t) (px_return WORKER_SUCCESS))"

definition store_json :: "('d, 'y) tw_env \<Rightarrow> string \<Rightarrow> 'd job \<Rightarrow> 'd json \<Rightarrow> ('d, 'y, unit) hx" where
  "store_json env worker j d = in_rt (write_file (tw_gb env) (thing_file env worker j) (json_serialize (tw_lib env) d))"

section \<open>Chained jobs\<close>

definition do_get_testchained_hello :: "('d, 'y) tw_env \<Rightarrow> 'd job \<Rightarrow> ('d, 'y, worker_response) hx" where
  "do_get_testchained_hello env j =
     px_bind (px_lift (renamed ''do_get_internal_hello1_v1'' (json_serialize (tw_lib env) (JString ''Hello from job'')) j)) (\<lambda>h.
     px_bind (in_rt (gearman_run (tw_rt env) (upd_attrs (\<lambda>a. a\<lparr>j_type := JOB_SYNC\<rparr>) h))) (\<lambda>r.
     px_bind (in_rt (rest_job METHOD_POST (j_base_uri (attrs j) @ ''/hello2''))) (\<lambda>h.
     px_bind (in_rt (rest_run (tw_rt env) False (upd_attrs (\<lambda>a. a\<lparr>j_content := jr_content r, j_headers := jr_headers r\<rparr>) h))) (\<lambda>r.
     px_then (on_resp (\<lambda>resp. resp\<lparr>jr_content := jr_content r, jr_headers := jr_headers r\<rparr>)) (px_return WORKER_SUCCESS)))))"

definition append_to :: "('d, 'y) tw_env \<Rightarrow> string \<Rightarrow> 'd json \<Rightarrow> gb_exn + 'd json" where
  "append_to env suffix d = res_bind (json_as_string [] d) (\<lambda>t. Inr (JString (t @ suffix)))"

definition do_get_internal_hello1 :: "('d, 'y) tw_env \<Rightarrow> 'd job \<Rightarrow> ('d, 'y, worker_response) hx" where
  "do_get_internal_hello1 env j =
     px_bind (in_rt (json_content (tw_rt env) j)) (\<lambda>d.
     px_bind (px_lift (append_to env '' and job1'' d)) (\<lambda>d.
     px_then (on_resp (jr_add_header ''job1-header'' ''1''))
     (px_then (answer_with (json_serialize (tw_lib env) d)) (px_return WORKER_SUCCESS))))"

definition do_post_testchained_hello2 :: "('d, 'y) tw_env \<Rightarrow> 'd job \<Rightarrow> ('d, 'y, worker_response) hx" where
  "do_post_testchained_hello2 env j =
     px_bind (in_rt (json_content (tw_rt env) j)) (\<lambda>d.
     px_bind (px_lift (append_to env '' and job2'' d)) (\<lambda>d.
     px_then (on_resp (\<lambda>r. jr_add_header ''job2-header'' ''1'' (r\<lparr>jr_headers := j_headers (attrs j)\<rparr>)))
     (px_then (answer_with (json_serialize (tw_lib env) d)) (px_return WORKER_SUCCESS))))"

definition do_get_testchained_goodbye :: "('d, 'y) tw_env \<Rightarrow> 'd job \<Rightarrow> ('d, 'y, worker_response) hx" where
  "do_get_testchained_goodbye env = show_file env ''test-chained''"

definition announce :: "('d, 'y) tw_env \<Rightarrow> 'd job \<Rightarrow> ('d, 'y, unit) hx" where
  "announce env j = say env (''processing from '' @ j_name (attrs j))"

definition do_post_testchained_goodbye :: "('d, 'y) tw_env \<Rightarrow> 'd job \<Rightarrow> ('d, 'y, worker_response) hx" where
  "do_post_testchained_goodbye env j =
     px_then (announce env j)
     (px_then (store_json env ''test-chained'' j (JString ''Goodbye from job''))
     (px_then (in_w (afterwards_as GearmanKind j ''do_append_internal_goodbye1_v1'' 0)) (px_return WORKER_CONTINUE)))"

definition append_file :: "('d, 'y) tw_env \<Rightarrow> string \<Rightarrow> 'd job \<Rightarrow> ('d, 'y, unit) hx" where
  "append_file env suffix j =
     px_bind (parse_file env (thing_file env ''test-chained'' j)) (\<lambda>d.
     px_bind (px_lift (append_to env suffix d)) (store_json env ''test-chained'' j))"

definition do_append_internal_goodbye1 :: "('d, 'y) tw_env \<Rightarrow> 'd job \<Rightarrow> ('d, 'y, worker_response) hx" where
  "do_append_internal_goodbye1 env j =
     px_then (announce env j)
     (px_then (append_file env '' and job1'' j)
     (px_then (in_w (afterwards_as GearmanKind j ''do_append_internal_goodbye2_v1'' 0)) (px_return WORKER_CONTINUE)))"

definition do_append_internal_goodbye2 :: "('d, 'y) tw_env \<Rightarrow> 'd job \<Rightarrow> ('d, 'y, worker_response) hx" where
  "do_append_internal_goodbye2 env j = px_then (announce env j) (px_then (append_file env '' and job2'' j) (px_return WORKER_SUCCESS))"

definition do_get_testchained_thing :: "('d, 'y) tw_env \<Rightarrow> 'd job \<Rightarrow> ('d, 'y, worker_response) hx" where
  "do_get_testchained_thing env = show_file env ''test-chained''"

text \<open>One look at the response at the head of the queue. The process sleeps only after it has found it complete.\<close>

definition failed_with_first :: "int \<Rightarrow> string list \<Rightarrow> gb_exn" where
  "failed_with_first c ms = (case ms of [] \<Rightarrow> NullDereference | m # _ \<Rightarrow> throw_from_code c m)"

definition look_at :: "('d, 'y) tw_env \<Rightarrow> 'd job_response \<Rightarrow> (('d, 'y gx) rworld, gb_exn, bool \<times> 'd job_response) px" where
  "look_at env r =
     px_bind (status_of r) (\<lambda>ob.
     px_bind (so_sync (tw_rt env) ob) (\<lambda>ob.
     px_bind (with_obj ob (so_has_completed (tw_now env))) (\<lambda>(complete, ob).
     if \<not> complete then px_then (pause_for (tw_sleep env 0)) (px_return (False, r\<lparr>jr_status := Some ob\<rparr>))
     else px_bind (with_obj ob (so_is_success (tw_now env))) (\<lambda>(ok, ob).
       if ok then px_then (pause_for (tw_sleep env 1)) (px_return (True, r\<lparr>jr_status := Some ob\<rparr>))
       else px_bind (with_obj ob (so_code (tw_now env))) (\<lambda>(c, ob).
            px_bind (with_obj ob so_messages) (\<lambda>(ms, _). px_throw (failed_with_first c ms)))))))"

definition wait_attempt :: "('d, 'y) tw_env \<Rightarrow> 'd job_response list \<times> ('d, 'y gx) rworld
    \<Rightarrow> ((gb_exn + unit) option \<times> 'd job_response list \<times> ('d, 'y gx) rworld) option" where
  "wait_attempt env = (\<lambda>(q, w). case q of
     [] \<Rightarrow> Some (Some (Inr ()), q, w)
   | r # rs \<Rightarrow> (case look_at env r w of
        None \<Rightarrow> None
      | Some (Inl e, w') \<Rightarrow> Some (Some (Inl e), q, w')
      | Some (Inr (gone, r'), w') \<Rightarrow> Some (None, if gone then rs else r' # rs, w')))"

definition wait_for :: "('d, 'y) tw_env \<Rightarrow> 'd job_response list \<Rightarrow> (('d, 'y gx) rworld, gb_exn, unit) px" where
  "wait_for env q w = (case repeat_until (wait_attempt env) (q, w) of None \<Rightarrow> None | Some (r, _, w') \<Rightarrow> Some (r, w'))"

definition do_post_testchained_thing :: "('d, 'y) tw_env \<Rightarrow> 'd job \<Rightarrow> ('d, 'y, worker_response) hx" where
  "do_post_testchained_thing env j =
     px_then (announce env j)
     (px_bind (px_lift (json_set ''id'' (JString (j_resource_name (attrs j))) JUndef)) (\<lambda>out.
      px_then (store_json env ''test-chained'' j out)
      (px_bind (in_rt (px_bind (local_job env ''do_reg_internal_service1_v1'') (\<lambda>s.
          gearman_run (tw_rt env) (with_content (json_serialize (tw_lib env) out) s)))) (\<lambda>r1.
       px_bind (in_rt (px_bind (rest_job METHOD_POST (j_base_uri (attrs j) @ ''/service2'')) (\<lambda>s.
          rest_run (tw_rt env) False (with_content (json_serialize (tw_lib env) out) s)))) (\<lambda>r2.
       px_then (in_rt (wait_for env [r1, r2])) (px_return WORKER_SUCCESS))))))"

definition registered :: "('d, 'y) tw_env \<Rightarrow> string \<Rightarrow> 'd job \<Rightarrow> ('d, 'y, worker_response) hx" where
  "registered env what j = px_then (say env what) (px_return WORKER_SUCCESS)"

definition do_reg_internal_service1 :: "('d, 'y) tw_env \<Rightarrow> 'd job \<Rightarrow> ('d, 'y, worker_response) hx" where
  "do_reg_internal_service1 env = registered env ''service1 registered''"

definition do_post_testchained_service2 :: "('d, 'y) tw_env \<Rightarrow> 'd job \<Rightarrow> ('d, 'y, worker_response) hx" where
  "do_post_testchained_service2 env = registered env ''service2 registered''"

text \<open>\<^verbatim>\<open>job_queue_apply\<close> with \<^verbatim>\<open>&Job::content\<close>, and the addresses of the jobs of a queue.\<close>

definition job_queue_apply :: "('d job \<Rightarrow> 'd job) \<Rightarrow> (job_kind \<times> 'd job) list list \<Rightarrow> (job_kind \<times> 'd job) list list" where
  "job_queue_apply f q = map (map (\<lambda>(k, j). (k, f j))) q"

fun allocate_batch :: "(job_kind \<times> 'd job) list \<Rightarrow> (('d, 'x) rworld, gb_exn, 'd job_ptr list) px" where
  "allocate_batch [] = px_return []"
| "allocate_batch ((k, j) # js) =
     px_bind (new_job_ptr j) (\<lambda>p. px_bind (allocate_batch js) (\<lambda>ps. px_return ((fst p, k, snd p) # ps)))"

fun allocate_queue :: "(job_kind \<times> 'd job) list list \<Rightarrow> (('d, 'x) rworld, gb_exn, 'd job_ptr list list) px" where
  "allocate_queue [] = px_return []"
| "allocate_queue (b # bs) = px_bind (allocate_batch b) (\<lambda>b. px_bind (allocate_queue bs) (\<lambda>bs. px_return (b # bs)))"

definition run_queue :: "('d, 'y) tw_env \<Rightarrow> (job_kind \<times> 'd job) list list \<Rightarrow> (('d, 'y gx) rworld, gb_exn, unit) px" where
  "run_queue env q = px_bind (allocate_queue q) (job_queue_run (tw_rt env) (tw_clock env) (tw_sleep env 0))"

definition do_delete_testchained_thing :: "('d, 'y) tw_env \<Rightarrow> 'd job \<Rightarrow> ('d, 'y, worker_response) hx" where
  "do_delete_testchained_thing env j =
     px_bind (parse_file env (thing_file env ''test-chained'' j)) (\<lambda>d.
     px_bind (in_rt (local_job env ''do_unreg_internal_service1_v1'')) (\<lambda>s1.
     px_bind (in_rt (rest_job METHOD_DELETE (j_base_uri (attrs j) @ ''/service2''))) (\<lambda>s2.
     px_then (in_rt (run_queue env (job_queue_apply (with_content (json_serialize (tw_lib env) d)) [[(GearmanKind, s1)], [(RestKind, s2)]])))
       (px_return WORKER_SUCCESS))))"

definition do_unreg_internal_service1 :: "('d, 'y) tw_env \<Rightarrow> 'd job \<Rightarrow> ('d, 'y, worker_response) hx" where
  "do_unreg_internal_service1 env = registered env ''service1 unregistered''"

definition do_delete_testchained_service2 :: "('d, 'y) tw_env \<Rightarrow> 'd job \<Rightarrow> ('d, 'y, worker_response) hx" where
  "do_delete_testchained_service2 env = registered env ''service2 unregistered''"

definition test_chained_handlers :: "('d, 'y) tw_env \<Rightarrow> (string \<times> ('d, 'y gx) handler) list" where
  "test_chained_handlers env =
     [(''do_get_testchained_hello_v1'', do_get_testchained_hello env), (''do_get_internal_hello1_v1'', do_get_internal_hello1 env),
      (''do_post_testchained_hello2_v1'', do_post_testchained_hello2 env),
      (''do_get_testchained_goodbye_v1'', do_get_testchained_goodbye env), (''do_post_testchained_goodbye_v1'', do_post_testchained_goodbye env),
      (''do_append_internal_goodbye1_v1'', do_append_internal_goodbye1 env), (''do_append_internal_goodbye2_v1'', do_append_internal_goodbye2 env),
      (''do_get_testchained_thing_v1'', do_get_testchained_thing env), (''do_post_testchained_thing_v1'', do_post_testchained_thing env),
      (''do_reg_internal_service1_v1'', do_reg_internal_service1 env), (''do_post_testchained_service2_v1'', do_post_testchained_service2 env),
      (''do_delete_testchained_thing_v1'', do_delete_testchained_thing env), (''do_unreg_internal_service1_v1'', do_unreg_internal_service1 env),
      (''do_delete_testchained_service2_v1'', do_delete_testchained_service2 env)]"

section \<open>Agents\<close>

definition existing_thing :: "('d, 'y) tw_env \<Rightarrow> 'd job \<Rightarrow> ('d, 'y, 'd json) hx" where
  "existing_thing env j =
     px_bind (in_rt (has_file (thing_file env ''test-agents'' j))) (\<lambda>there.
     if there then parse_file env (thing_file env ''test-agents'' j) else px_return JUndef)"

text \<open>The loop sleeps before each look at the status, a copy of the one of the response.\<close>

definition agents_look :: "('d, 'y) tw_env \<Rightarrow> 'd sobj \<times> ('d, 'y gx) rworld \<Rightarrow> ((gb_exn + unit) option \<times> 'd sobj \<times> ('d, 'y gx) rworld) option" where
  "agents_look env = (\<lambda>(ob, w). case px_bind (pause_for (tw_sleep env 1)) (\<lambda>_. px_bind (so_sync (tw_rt env) ob) (\<lambda>ob. with_obj ob (so_has_completed (tw_now env)))) w of
     None \<Rightarrow> None
   | Some (Inl e, w') \<Rightarrow> Some (Some (Inl e), ob, w')
   | Some (Inr (complete, ob'), w') \<Rightarrow> Some (if complete then Some (Inr ()) else None, ob', w'))"

definition agents_done :: "('d, 'y) tw_env \<Rightarrow> 'd sobj \<Rightarrow> (('d, 'y gx) rworld, gb_exn, 'd sobj) px" where
  "agents_done env ob w = (case repeat_until (agents_look env) (ob, w) of
     None \<Rightarrow> None
   | Some (Inl e, _, w') \<Rightarrow> Some (Inl e, w')
   | Some (Inr _, ob', w') \<Rightarrow> Some (Inr ob', w'))"

text \<open>The document of the agents is not constant: a key that is not there is made.\<close>

definition agents_for :: "string \<Rightarrow> 'd json \<Rightarrow> gb_exn + 'd json" where
  "agents_for k agents = res_bind (json_ref_key [] k agents) (json_get [] k)"

definition agents_request :: "('d, 'y) tw_env \<Rightarrow> 'd json \<Rightarrow> 'd json \<Rightarrow> gb_exn + string" where
  "agents_request env agents d =
     res_bind (agents_for ''register'' agents) (\<lambda>a.
     res_bind (res_seq [json_set ''agents'' (json_copy a), json_set ''content'' (JString (json_serialize (tw_lib env) d))] JUndef) (\<lambda>c.
     Inr (json_serialize (tw_lib env) c)))"

definition register_thing :: "('d, 'y) tw_env \<Rightarrow> 'd job \<Rightarrow> 'd json \<Rightarrow> 'd json \<Rightarrow> ('d, 'y, unit) hx" where
  "register_thing env j agents d =
     px_bind (px_lift (json_set ''id'' (JString (j_resource_name (attrs j))) d)) (\<lambda>d.
     px_then (store_json env ''test-agents'' j d)
     (px_bind (in_rt (local_job env ''do_run_global_agents_v1'')) (\<lambda>ra.
      px_bind (px_lift (agents_request env agents d)) (\<lambda>c.
      px_bind (in_rt (gearman_run (tw_rt env) (with_content c ra))) (\<lambda>r.
      px_bind (in_rt (px_bind (status_of r) (agents_done env))) (\<lambda>ob.
      px_bind (in_rt (with_obj ob (so_is_success (tw_now env)))) (\<lambda>(ok, ob).
      if ok then px_return ()
      else px_bind (in_rt (with_obj ob (so_code (tw_now env)))) (\<lambda>(c, ob).
           px_bind (in_rt (with_obj ob so_messages)) (\<lambda>(ms, _).
           px_bind (px_lift (last_message ms)) (\<lambda>m. px_throw (throw_from_code c m)))))))))))"

text \<open>A job of a queue is one over HTTP when it was made with a method.\<close>

definition queue_kind :: "'d job \<Rightarrow> job_kind" where
  "queue_kind j = (if j_method (attrs j) = METHOD_UNKNOWN then GearmanKind else RestKind)"

definition unregister_thing :: "('d, 'y) tw_env \<Rightarrow> 'd job \<Rightarrow> 'd json \<Rightarrow> 'd json \<Rightarrow> ('d, 'y, unit) hx" where
  "unregister_thing env j agents d =
     px_bind (px_lift (agents_for ''unregister'' agents)) (\<lambda>a.
     px_bind (in_rt (on_jm (job_queue (rt_jm (tw_rt env)) (gb_topo (tw_gb env)) a))) (\<lambda>q.
     px_then (in_rt (run_queue env (job_queue_apply (with_content (json_serialize (tw_lib env) d)) (map (map (\<lambda>j. (queue_kind j, j))) q))))
       (in_rt (remove_file env (thing_file env ''test-agents'' j)))))"

definition thing_handler :: "('d, 'y) tw_env \<Rightarrow> 'd job \<Rightarrow> ('d, 'y, worker_response) hx" where
  "thing_handler env j =
     px_bind (existing_thing env j) (\<lambda>d.
     if j_operation (attrs j) = ''get''
     then px_then (answer_with (json_serialize (tw_lib env) d)) (px_return WORKER_SUCCESS)
     else px_bind (parse_file env (ce_root (je_cfg (rt_jm (tw_rt env))) @ ''/test-agents-agents.conf'')) (\<lambda>agents.
          px_then (say env ''calling agents'')
          (px_then (if j_operation (attrs j) = ''create'' then register_thing env j agents d else unregister_thing env j agents d)
          (px_then (say env ''done'') (px_return WORKER_SUCCESS)))))"

definition so_meta_key :: "int \<Rightarrow> string \<Rightarrow> 'd json \<Rightarrow> ('d, 'x, unit) on_obj" where
  "so_meta_key now k v = obj_call (t_meta_key now k v) (q_meta_key now k v) (\<lambda>s. case set_meta_key now k v s of Inl e \<Rightarrow> (Inl e, s) | Inr s' \<Rightarrow> (Inr (), s'))"

definition dummy_handler :: "('d, 'y) tw_env \<Rightarrow> 'd job \<Rightarrow> ('d, 'y, worker_response) hx" where
  "dummy_handler env j =
     px_bind (in_rt (json_content (tw_rt env) j)) (\<lambda>d.
     px_bind (px_lift (json_get [] ''id'' d)) (\<lambda>i.
     px_bind (px_lift (json_as_string [Key ''id''] i)) (\<lambda>t.
     px_then (in_rt (px_when (j_operation (attrs j) = ''reg'') (pause_for (tw_sleep env 10))))
     (px_then (say env (j_resource_type (attrs j) @ '' '' @ (if j_operation (attrs j) = ''reg'' then ''registered'' else ''unregistered'') @ '' for '' @ t))
     (px_bind (resp_status (\<lambda>(ob, w). (Inr (so_name ob), ob, w))) (\<lambda>n.
      px_then (resp_status (so_meta_key (tw_now env) n i)) (px_return WORKER_SUCCESS)))))))"

definition test_agents_handlers :: "('d, 'y) tw_env \<Rightarrow> (string \<times> ('d, 'y gx) handler) list" where
  "test_agents_handlers env =
     map (\<lambda>n. (n, thing_handler env)) [''do_get_testagents_thing_v1'', ''do_post_testagents_thing_v1'', ''do_delete_testagents_thing_v1''] @
     map (\<lambda>n. (n, dummy_handler env)) [''do_reg_testagents_A_v1'', ''do_reg_testagents_B_v1'', ''do_reg_testagents_C_v1'', ''do_reg_testagents_D_v1'',
       ''do_unreg_testagents_A_v1'', ''do_unreg_testagents_B_v1'', ''do_unreg_testagents_C_v1'', ''do_unreg_testagents_D_v1'']"

section \<open>A counter in delayed jobs\<close>

definition int_argument :: "string \<Rightarrow> int \<Rightarrow> 'd job \<Rightarrow> gb_exn + int" where
  "int_argument k dflt j = when_arg k (j_matrix_arguments (attrs j)) (\<lambda>t _. cast_int t) dflt"

definition do_get_testdelay_counter :: "('d, 'y) tw_env \<Rightarrow> 'd job \<Rightarrow> ('d, 'y, worker_response) hx" where
  "do_get_testdelay_counter env = show_file env ''test-delay''"

definition do_post_testdelay_counter :: "('d, 'y) tw_env \<Rightarrow> 'd job \<Rightarrow> ('d, 'y, worker_response) hx" where
  "do_post_testdelay_counter env j =
     px_then (in_rt (write_file (tw_gb env) (thing_file env ''test-delay'' j) (hash_get_default ''start'' ''0'' (j_matrix_arguments (attrs j)))))
     (px_bind (px_lift (int_argument ''delay'' 1 j)) (\<lambda>delay.
      px_then (in_w (afterwards_as GearmanKind j ''do_increment_testdelay_counter_v1'' delay)) (px_return WORKER_CONTINUE)))"

text \<open>The sum of the counter wraps around, and so does that of the progress, which is unsigned.\<close>

definition count_up :: "('d, 'y) tw_env \<Rightarrow> string \<Rightarrow> ('d, 'y, int) hx" where
  "count_up env p =
     px_bind (in_rt (slurp (tw_gb env) p)) (\<lambda>t.
     px_bind (px_lift (cast_int t)) (\<lambda>v.
     px_then (in_rt (write_file (tw_gb env) p (int_dec (wrap_s32 (1 + v))))) (px_return (wrap_s32 (1 + v)))))"

definition advance_by :: "('d, 'y) tw_env \<Rightarrow> int \<Rightarrow> ('d, 'y, unit) hx" where
  "advance_by env d = px_bind (resp_status (so_progress (tw_now env))) (\<lambda>p. resp_status (so_advance (tw_now env) (wrap_u32 (int p + d))))"

definition again_or_retry :: "('d, 'y) tw_env \<Rightarrow> 'd job \<Rightarrow> ('d, 'y, worker_response) hx" where
  "again_or_retry env j =
     (if hash_get_default ''retry'' [] (j_matrix_arguments (attrs j)) \<noteq> []
      then px_bind (resp_status (so_failures (tw_now env))) (\<lambda>n.
           px_then (say env (''retry attempt number '' @ nat_dec (wrap_u32 (int n + 1)))) (px_return WORKER_RETRY))
      else px_bind (px_lift (int_argument ''delay'' 1 j)) (\<lambda>delay. px_then (push_afterwards j delay) (px_return WORKER_CONTINUE)))"

definition do_increment_testdelay_counter :: "('d, 'y) tw_env \<Rightarrow> 'd job \<Rightarrow> ('d, 'y, worker_response) hx" where
  "do_increment_testdelay_counter env j =
     px_bind (count_up env (thing_file env ''test-delay'' j)) (\<lambda>newval.
     px_bind (px_lift (int_argument ''start'' 0 j)) (\<lambda>start.
     px_bind (px_lift (int_argument ''end'' 10 j)) (\<lambda>stop.
     px_then (say env (''set to '' @ int_dec newval))
     (if newval \<ge> stop then px_return WORKER_SUCCESS
      else px_then (advance_by env (wrap_s32 (stop - start))) (again_or_retry env j)))))"

definition do_delete_testdelay_counter :: "('d, 'y) tw_env \<Rightarrow> 'd job \<Rightarrow> ('d, 'y, worker_response) hx" where
  "do_delete_testdelay_counter env j = px_then (in_rt (remove_file env (thing_file env ''test-delay'' j))) (px_return WORKER_SUCCESS)"

definition test_delay_handlers :: "('d, 'y) tw_env \<Rightarrow> (string \<times> ('d, 'y gx) handler) list" where
  "test_delay_handlers env =
     [(''do_get_testdelay_counter_v1'', do_get_testdelay_counter env), (''do_post_testdelay_counter_v1'', do_post_testdelay_counter env),
      (''do_delete_testdelay_counter_v1'', do_delete_testdelay_counter env), (''do_increment_testdelay_counter_v1'', do_increment_testdelay_counter env)]"

section \<open>Jobs to be cancelled\<close>

text \<open>
  \<^verbatim>\<open>Status::on(event, job)\<close>. A job that cannot be serialised, which none of those made by name is, would make an SQL status repeat for ever.
\<close>

definition so_put_on :: "('d, 'x) rt_env \<Rightarrow> status_event \<Rightarrow> 'd job \<Rightarrow> 'd sobj \<Rightarrow> (('d, 'x) rworld, gb_exn, 'd sobj) px" where
  "so_put_on env ev j ob = (case (ob, job_serialize (rt_lib env) (rt_statics env) j) of
     (JobObj _ _ _ _, _) \<Rightarrow> px_throw (ERR_NOT_IMPLEMENTED ''cannot set event handlers for remote job status object'')
   | (SqlObj _ _ _ _ _ _, Inl e) \<Rightarrow> (\<lambda>w. None)
   | (TransientObj _ _, Inl e) \<Rightarrow> px_throw e
   | (_, Inr t) \<Rightarrow> px_bind (with_obj ob (obj_call (t_on ev (j_name (attrs j)) t) (sx_modify (q_on ev (j_name (attrs j)) t)) (sx_return ()))) (\<lambda>(_, ob). px_return ob))"

definition resp_put_on :: "('d, 'y) tw_env \<Rightarrow> status_event \<Rightarrow> 'd job \<Rightarrow> ('d, 'y, unit) hx" where
  "resp_put_on env ev j =
     px_bind (resp_status (\<lambda>(ob, w). (Inr ob, ob, w))) (\<lambda>ob.
     px_bind (in_rt (so_put_on (tw_rt env) ev j ob)) (\<lambda>ob. on_resp (\<lambda>r. r\<lparr>jr_status := Some ob\<rparr>)))"

definition cancel_round :: "('d, 'y) tw_env \<Rightarrow> int \<Rightarrow> ('d, 'y, worker_response option) hx" where
  "cancel_round env stop =
     px_bind (in_rt (px_get (\<lambda>w. tw_clock env (rw_x w)))) (\<lambda>now.
     if \<not> stop \<ge> now then px_return (Some WORKER_ERROR)
     else px_bind (resp_status (so_progress (tw_now env))) (\<lambda>p.
          if wrap_s32 (int p) < 100
          then px_then (resp_status (so_advance (tw_now env) (wrap_u32 (wrap_s32 (int p) + 10))))
               (px_then (resp_status (so_checkpoint (tw_now env)))
               (px_then (in_rt (pause_for (tw_sleep env 5))) (px_return None)))
          else px_return (Some WORKER_SUCCESS)))"

definition cancel_attempt :: "('d, 'y) tw_env \<Rightarrow> int \<Rightarrow> 'd job_response \<times> ('d, 'y) gw
    \<Rightarrow> ((gb_exn + worker_response) option \<times> 'd job_response \<times> ('d, 'y) gw) option" where
  "cancel_attempt env stop s = (case cancel_round env stop s of
     None \<Rightarrow> None
   | Some (Inl e, s') \<Rightarrow> Some (Some (Inl e), s')
   | Some (Inr (Some r), s') \<Rightarrow> Some (Some (Inr r), s')
   | Some (Inr None, s') \<Rightarrow> Some (None, s'))"

definition do_post_testcancel_thing :: "('d, 'y) tw_env \<Rightarrow> 'd job \<Rightarrow> ('d, 'y, worker_response) hx" where
  "do_post_testcancel_thing env j =
     px_bind (in_rt (local_job env ''do_cancel_testcancel_thing_v1'')) (\<lambda>onCancel.
     px_then (resp_put_on env EVENT_CANCEL onCancel)
     (px_bind (in_rt (px_get (\<lambda>w. tw_clock env (rw_x w)))) (\<lambda>now. repeat_until (cancel_attempt env (now + 30)))))"

definition do_cancel_testcancel_thing :: "('d, 'y) tw_env \<Rightarrow> 'd job \<Rightarrow> ('d, 'y, worker_response) hx" where
  "do_cancel_testcancel_thing env j = px_then (say env ''on cancel callback called'') (px_return WORKER_SUCCESS)"

definition do_post_testcancel_continuation :: "('d, 'y) tw_env \<Rightarrow> 'd job \<Rightarrow> ('d, 'y, worker_response) hx" where
  "do_post_testcancel_continuation env j =
     px_bind (in_rt (local_job env ''do_run_testcancel_continuation_v1'')) (\<lambda>run.
     px_bind (px_lift (renamed ''do_finish_testcancel_continuation_v1'' (j_content (attrs j)) j)) (\<lambda>finish.
     px_then (push_afterwards (job_on JEVENT_COMPLETED finish run) 0) (px_return WORKER_CONTINUE)))"

definition do_run_testcancel_continuation :: "('d, 'y) tw_env \<Rightarrow> 'd job \<Rightarrow> ('d, 'y, worker_response) hx" where
  "do_run_testcancel_continuation env j = px_then (say env ''run called'') (px_return WORKER_RETRY)"

definition do_finish_testcancel_continuation :: "('d, 'y) tw_env \<Rightarrow> 'd job \<Rightarrow> ('d, 'y, worker_response) hx" where
  "do_finish_testcancel_continuation env j = px_return WORKER_SUCCESS"

definition test_cancel_handlers :: "('d, 'y) tw_env \<Rightarrow> (string \<times> ('d, 'y gx) handler) list" where
  "test_cancel_handlers env =
     [(''do_post_testcancel_thing_v1'', do_post_testcancel_thing env), (''do_cancel_testcancel_thing_v1'', do_cancel_testcancel_thing env),
      (''do_post_testcancel_continuation_v1'', do_post_testcancel_continuation env), (''do_run_testcancel_continuation_v1'', do_run_testcancel_continuation env),
      (''do_finish_testcancel_continuation_v1'', do_finish_testcancel_continuation env)]"

section \<open>Telling the status\<close>

text \<open>Calls on the status of a response that do what they are asked to, as long as its block exists; the services and the jobs for afterwards stay as they are.\<close>

definition sure :: "('d tworld, gb_exn, 'a) sx \<Rightarrow> bool" where
  "sure mt \<longleftrightarrow> (\<forall>t. t_data t \<noteq> None \<longrightarrow> (\<exists>a t'. mt t = (Inr a, t') \<and> t_ref t' = t_ref t \<and> dom (t_store t') = dom (t_store t)))"

definition quiet :: "('d, 'y, 'a) hx \<Rightarrow> bool" where
  "quiet m \<longleftrightarrow> (\<forall>r w. backed_by r w \<longrightarrow> (\<exists>a r' w'. m (r, w) = Some (Inr a, r', w') \<and> backed_by r' w' \<and> outside w' = outside w
     \<and> ww_afterwards w' = ww_afterwards w))"

lemma quietD: "quiet m \<Longrightarrow> backed_by r w \<Longrightarrow> \<exists>a r' w'. m (r, w) = Some (Inr a, r', w') \<and> backed_by r' w' \<and> outside w' = outside w \<and> ww_afterwards w' = ww_afterwards w"
  by (simp add: quiet_def)

lemma sure_writes: "sure (t_add_message now m)" "sure (t_progress now p)"
  by (auto simp: sure_def t_add_message_def t_progress_def t_deref_def)

lemma sure_progress: "sure (v_progress (transient_vt now))" "sure (Status_progress (transient_vt now) p)"
  using sure_writes(2) [of now p] by (auto simp: sure_def transient_vt_same transient_base_vt_def Status_progress_def sx_bind_def sx_return_def)

lemma quiet_call:
  assumes "sure (mt :: ('d tworld, gb_exn, 'a) sx)"
  shows "quiet (resp_status (obj_call mt mq mj))"
  unfolding quiet_def
proof (intro allI impI)
  fix r :: "'d job_response" and w :: "('d, 'y) gw" assume "backed_by r w"
  then obtain a b where ob: "jr_status r = Some (TransientObj a (Some b))" "t_store (rw_t (ww_rt w)) b \<noteq> None" by (auto simp: backed_iff)
  let ?t = "(rw_t (ww_rt w))\<lparr>t_obj := a, t_ref := Some b\<rparr>"
  have "t_data ?t \<noteq> None" using ob(2) by (simp add: t_data_def)
  then obtain x t where "mt ?t = (Inr x, t)" "t_ref t = Some b" "dom (t_store t) = dom (t_store ?t)" using assms unfolding sure_def by fastforce
  moreover from this(3) ob(2) have "t_store t b \<noteq> None" by (auto simp: dom_def set_eq_iff)
  ultimately show "\<exists>a r' w'. resp_status (obj_call mt mq mj) (r, w) = Some (Inr a, r', w') \<and> backed_by r' w' \<and> outside w' = outside w
      \<and> ww_afterwards w' = ww_afterwards w"
    using ob(1) by (simp add: resp_status_def obj_call_def on_transient_def backed_iff)
qed

lemma quiet_bind:
  assumes "quiet (m :: ('d, 'y, 'a) hx)" and "\<And>a. quiet (f a)"
  shows "quiet (px_bind m f)"
  unfolding quiet_def
proof (intro allI impI)
  fix r :: "'d job_response" and w :: "('d, 'y) gw" assume "backed_by r w"
  from quietD [OF assms(1) this] obtain a r' w' where m: "m (r, w) = Some (Inr a, r', w')" "backed_by r' w'" "outside w' = outside w" "ww_afterwards w' = ww_afterwards w"
    by blast
  from quietD [OF assms(2) m(2), of a] m show "\<exists>a r' w'. px_bind m f (r, w) = Some (Inr a, r', w') \<and> backed_by r' w' \<and> outside w' = outside w
      \<and> ww_afterwards w' = ww_afterwards w" by (auto simp: px_bind_def)
qed

lemma quiet_say: "quiet (say env m)"
  unfolding say_def so_add_message_def by (rule quiet_call [OF sure_writes(1)])

lemma quiet_advance: "quiet (advance_by env d)"
  unfolding advance_by_def so_progress_def so_advance_def by (intro quiet_bind quiet_call sure_progress)

section \<open>The counter reaches its end\<close>

lemma count_up_calm:
  assumes "calm (tw_gb env)" and "file_of p (ww_rt w) = Some (int_dec v)" and "- (2 ^ 31) \<le> v" and "v + 1 < 2 ^ 31"
  shows "count_up env p (r, w) = Some (Inr (v + 1), r, w\<lparr>ww_rt := set_file p (Some (int_dec (v + 1))) (ww_rt w)\<rparr>)"
proof -
  have "wrap_s32 (1 + v) = v + 1" using wrap_s32_id [of "v + 1"] assms(3,4) by (simp add: add.commute)
  moreover have "cast_int (int_dec v) = Inr v" using assms(3,4) by (simp add: cast_int_def)
  ultimately show ?thesis
    using assms(1,2) by (simp add: count_up_def px_then_def px_bind_def in_rt_def in_w_def on_rt_def slurp_calm write_file_calm px_lift_def px_return_def)
qed

text \<open>The arguments of the job: where the counter ends, how long a run waits for the next, and that it is not to be retried instead.\<close>

definition counts_to :: "'d job \<Rightarrow> int \<Rightarrow> int \<Rightarrow> bool" where
  "counts_to j stop delay \<longleftrightarrow> int_argument ''end'' 10 j = Inr stop \<and> int_argument ''delay'' 1 j = Inr delay \<and> (\<exists>a. int_argument ''start'' 0 j = Inr a)
     \<and> hash_get_default ''retry'' [] (j_matrix_arguments (attrs j)) = []"

lemma increment_step:
  assumes "calm (tw_gb env)" and "backed_by r w" and "file_of (thing_file env ''test-delay'' j) (ww_rt w) = Some (int_dec v)"
    and "- (2 ^ 31) \<le> v" and "v + 1 < 2 ^ 31" and "counts_to j stop delay"
  shows "\<exists>r' w'. do_increment_testdelay_counter env j (r, w) = Some (Inr (if v + 1 \<ge> stop then WORKER_SUCCESS else WORKER_CONTINUE), r', w')
    \<and> backed_by r' w' \<and> file_of (thing_file env ''test-delay'' j) (ww_rt w') = Some (int_dec (v + 1))
    \<and> ww_afterwards w' = ww_afterwards w @ (if v + 1 \<ge> stop then [] else [(GearmanKind, j, delay)])"
proof -
  let ?p = "thing_file env ''test-delay'' j"
  define w1 where "w1 = w\<lparr>ww_rt := set_file ?p (Some (int_dec (v + 1))) (ww_rt w)\<rparr>"
  obtain a where args: "int_argument ''start'' 0 j = Inr a" "int_argument ''end'' 10 j = Inr stop" "int_argument ''delay'' 1 j = Inr delay"
    "hash_get_default ''retry'' [] (j_matrix_arguments (attrs j)) = []" using assms(6) by (auto simp: counts_to_def)
  have up: "count_up env ?p (r, w) = Some (Inr (v + 1), r, w1)" unfolding w1_def by (rule count_up_calm [OF assms(1,3-5)])
  have "backed_by r w1" "file_of ?p (ww_rt w1) = Some (int_dec (v + 1))" "ww_afterwards w1 = ww_afterwards w"
    using assms(2) by (simp_all add: w1_def backed_iff set_file_def)
  with quietD [OF quiet_say, of r w1 env "''set to '' @ int_dec (v + 1)"] obtain r2 w2
    where tell: "say env (''set to '' @ int_dec (v + 1)) (r, w1) = Some (Inr (), r2, w2)" and bk: "backed_by r2 w2"
      and f: "file_of ?p (ww_rt w2) = Some (int_dec (v + 1))" and aw: "ww_afterwards w2 = ww_afterwards w" by auto
  show ?thesis
  proof (cases "v + 1 \<ge> stop")
    case True
    with up args tell bk f aw show ?thesis by (simp add: do_increment_testdelay_counter_def px_then_def px_bind_def px_lift_def px_return_def)
  next
    case False
    obtain r3 w3 where "advance_by env (wrap_s32 (stop - a)) (r2, w2) = Some (Inr (), r3, w3)" "backed_by r3 w3" "outside w3 = outside w2"
      "ww_afterwards w3 = ww_afterwards w2" using quietD [OF quiet_advance bk] by fastforce
    with False up args tell f aw show ?thesis
      by (simp add: do_increment_testdelay_counter_def again_or_retry_def px_then_def px_bind_def px_lift_def px_return_def push_afterwards_def in_w_def px_modify_def
          afterwards_def backed_iff)
  qed
qed

text \<open>The handler is run as often as there are jobs for it.\<close>

primrec run_times :: "nat \<Rightarrow> ('d, 'y gx) handler \<Rightarrow> 'd job \<Rightarrow> 'd job_response \<times> ('d, 'y) gw \<Rightarrow> (worker_response list \<times> 'd job_response \<times> ('d, 'y) gw) option" where
  "run_times 0 h j s = Some ([], s)"
| "run_times (Suc n) h j s = (case h j s of
     Some (Inr x, s') \<Rightarrow> (case run_times n h j s' of None \<Rightarrow> None | Some (xs, s'') \<Rightarrow> Some (x # xs, s''))
   | _ \<Rightarrow> None)"

lemma counter_runs:
  assumes "calm (tw_gb env)" and "counts_to j stop delay" and "backed_by r w"
    and "file_of (thing_file env ''test-delay'' j) (ww_rt w) = Some (int_dec (stop - int (Suc n)))" and "- (2 ^ 31) \<le> stop - int (Suc n)" and "stop < 2 ^ 31"
  shows "\<exists>r' w'. run_times (Suc n) (do_increment_testdelay_counter env) j (r, w) = Some (replicate n WORKER_CONTINUE @ [WORKER_SUCCESS], r', w')
    \<and> file_of (thing_file env ''test-delay'' j) (ww_rt w') = Some (int_dec stop) \<and> ww_afterwards w' = ww_afterwards w @ replicate n (GearmanKind, j, delay)"
  using assms(3-5)
proof (induction n arbitrary: r w)
  case 0
  with increment_step [OF assms(1) 0(1,2) _ _ assms(2)] assms(6) show ?case by auto
next
  case (Suc n)
  from increment_step [OF assms(1) Suc.prems(1,2) _ _ assms(2)] Suc.prems(3) assms(6) obtain r1 w1
    where st: "do_increment_testdelay_counter env j (r, w) = Some (Inr WORKER_CONTINUE, r1, w1)" and bk: "backed_by r1 w1"
      and f: "file_of (thing_file env ''test-delay'' j) (ww_rt w1) = Some (int_dec (stop - int (Suc n)))"
      and aw: "ww_afterwards w1 = ww_afterwards w @ [(GearmanKind, j, delay)]" by (auto simp: algebra_simps)
  from Suc.IH [OF bk f] Suc.prems(3) obtain r2 w2
    where "run_times (Suc n) (do_increment_testdelay_counter env) j (r1, w1) = Some (replicate n WORKER_CONTINUE @ [WORKER_SUCCESS], r2, w2)"
      "file_of (thing_file env ''test-delay'' j) (ww_rt w2) = Some (int_dec stop)" "ww_afterwards w2 = ww_afterwards w1 @ replicate n (GearmanKind, j, delay)" by auto
  with st aw show ?case by (simp del: run_times.simps(2) add: run_times.simps(2) [of "Suc n"])
qed

section \<open>Jobs that hand a text on\<close>

definition named :: "string \<Rightarrow> string \<Rightarrow> 'd job \<Rightarrow> 'd job" where
  "named n t = upd_attrs (\<lambda>a. a\<lparr>j_name := n, j_version := ''v1'', j_operation := ''append'', j_component := ''internal'', j_resource_type := t\<rparr>)"

lemma append_names:
  "afterwards_as GearmanKind j ''do_append_internal_goodbye1_v1'' 0 w
     = Some (Inr (), afterwards GearmanKind (named ''do_append_internal_goodbye1_v1'' ''goodbye1'' j) 0 w)"
  "afterwards_as GearmanKind j ''do_append_internal_goodbye2_v1'' 0 w
     = Some (Inr (), afterwards GearmanKind (named ''do_append_internal_goodbye2_v1'' ''goodbye2'' j) 0 w)"
proof -
  have "str_split (CHR ''_'') ''do_append_internal_goodbye1_v1'' = [''do'', ''append'', ''internal'', ''goodbye1'', ''v1'']"
      "str_split (CHR ''_'') ''do_append_internal_goodbye2_v1'' = [''do'', ''append'', ''internal'', ''goodbye2'', ''v1'']"
      "str_find ''://'' ''do_append_internal_goodbye1_v1'' = None" "str_find ''://'' ''do_append_internal_goodbye2_v1'' = None" "has_version ''v1''"
    by code_simp+
  then show "afterwards_as GearmanKind j ''do_append_internal_goodbye1_v1'' 0 w
       = Some (Inr (), afterwards GearmanKind (named ''do_append_internal_goodbye1_v1'' ''goodbye1'' j) 0 w)"
    and "afterwards_as GearmanKind j ''do_append_internal_goodbye2_v1'' 0 w
       = Some (Inr (), afterwards GearmanKind (named ''do_append_internal_goodbye2_v1'' ''goodbye2'' j) 0 w)"
    by (cases j; simp add: afterwards_as_def on_attrs_def set_job_name_def set_job_from_name_spec name_spec_def sx_defs Let_def set_job_operation_def named_def upd_attrs_def)+
qed

lemma thing_file_named: "thing_file env worker (named n t j) = thing_file env worker j"
  by (simp add: thing_file_def named_def upd_attrs_def)

text \<open>Announcing a job and then writing its file.\<close>

lemma announced:
  assumes "backed_by r w"
  obtains r' w' where "announce env j (r, w) = Some (Inr (), r', w')" and "backed_by r' w'" and "outside w' = outside w" and "ww_afterwards w' = ww_afterwards w"
  using quietD [OF quiet_say assms, of env "''processing from '' @ j_name (attrs j)"] that unfolding announce_def by auto

lemma store_json_calm: "calm (tw_gb env) \<Longrightarrow> store_json env worker j d (r, w)
    = Some (Inr (), r, w\<lparr>ww_rt := set_file (thing_file env worker j) (Some (json_serialize (tw_lib env) d)) (ww_rt w)\<rparr>)"
  by (simp add: store_json_def in_rt_def in_w_def on_rt_def write_file_calm)

lemma append_file_calm:
  assumes "json_text (tw_lib env)" and "calm (tw_gb env)" and "file_of (thing_file env ''test-chained'' j) (ww_rt w) = Some (json_serialize (tw_lib env) (JString t))"
  shows "append_file env suffix j (r, w)
    = Some (Inr (), r, w\<lparr>ww_rt := set_file (thing_file env ''test-chained'' j) (Some (json_serialize (tw_lib env) (JString (t @ suffix)))) (ww_rt w)\<rparr>)"
proof -
  have "text_safe (tw_lib env) (JString t)" by (simp add: text_safe_def)
  from json_text.parse_text_serialize [OF assms(1) this] assms(2,3) show ?thesis
    by (simp add: append_file_def parse_file_def px_bind_def in_rt_def in_w_def on_rt_def slurp_calm px_lift_def append_to_def json_as_string_def store_json_calm)
qed

text \<open>
  A text is handed on from job to job. The handler that begins writes the text and queues the next job, that one appends its part and queues the last, and the last appends its
  own and is done: each of the three finds what the one before has written, each leaves exactly one job for afterwards but the last, and what is shown at the end is the text with both parts.
\<close>

lemma goodbye_chain:
  assumes "json_text (tw_lib env)" and "calm (tw_gb env)" and "backed_by r w"
  shows "\<exists>j1 j2 r1 w1 r2 w2 r3 w3 r4 w4. do_post_testchained_goodbye env j (r, w) = Some (Inr WORKER_CONTINUE, r1, w1)
    \<and> ww_afterwards w1 = ww_afterwards w @ [(GearmanKind, j1, 0)] \<and> j_name (attrs j1) = ''do_append_internal_goodbye1_v1''
    \<and> do_append_internal_goodbye1 env j1 (r1, w1) = Some (Inr WORKER_CONTINUE, r2, w2)
    \<and> ww_afterwards w2 = ww_afterwards w1 @ [(GearmanKind, j2, 0)] \<and> j_name (attrs j2) = ''do_append_internal_goodbye2_v1''
    \<and> do_append_internal_goodbye2 env j2 (r2, w2) = Some (Inr WORKER_SUCCESS, r3, w3)
    \<and> ww_afterwards w3 = ww_afterwards w2 \<and> do_get_testchained_goodbye env j (r3, w3) = Some (Inr WORKER_SUCCESS, r4, w4)
    \<and> jr_content r4 = json_serialize (tw_lib env) (JString ''Goodbye from job and job1 and job2'')"
proof -
  let ?p = "thing_file env ''test-chained'' j" and ?s = "\<lambda>t. json_serialize (tw_lib env) (JString t)"
  define j1 where "j1 = named ''do_append_internal_goodbye1_v1'' ''goodbye1'' j"
  define j2 where "j2 = named ''do_append_internal_goodbye2_v1'' ''goodbye2'' j1"
  have n: "j_name (attrs j1) = ''do_append_internal_goodbye1_v1''" "j_name (attrs j2) = ''do_append_internal_goodbye2_v1''"
    by (simp_all add: j1_def j2_def named_def upd_attrs_def)
  have p: "thing_file env ''test-chained'' j1 = ?p" "thing_file env ''test-chained'' j2 = ?p" by (simp_all add: j1_def j2_def thing_file_named)
  obtain r1 w1 where 1: "do_post_testchained_goodbye env j (r, w) = Some (Inr WORKER_CONTINUE, r1, w1)" "backed_by r1 w1"
      "ww_afterwards w1 = ww_afterwards w @ [(GearmanKind, j1, 0)]" "file_of ?p (ww_rt w1) = Some (?s ''Goodbye from job'')"
  proof -
    obtain a b where "announce env j (r, w) = Some (Inr (), a, b)" "backed_by a b" "ww_afterwards b = ww_afterwards w" using announced [OF assms(3)] by metis
    with that show ?thesis by (simp add: do_post_testchained_goodbye_def px_then_def px_bind_def store_json_calm [OF assms(2)] in_w_def append_names px_return_def
        afterwards_def set_file_def backed_iff j1_def)
  qed
  obtain r2 w2 where 2: "do_append_internal_goodbye1 env j1 (r1, w1) = Some (Inr WORKER_CONTINUE, r2, w2)" "backed_by r2 w2"
      "ww_afterwards w2 = ww_afterwards w1 @ [(GearmanKind, j2, 0)]" "file_of ?p (ww_rt w2) = Some (?s ''Goodbye from job and job1'')"
  proof -
    obtain a b where "announce env j1 (r1, w1) = Some (Inr (), a, b)" "backed_by a b" "outside b = outside w1" "ww_afterwards b = ww_afterwards w1"
      using announced [OF 1(2)] by metis
    with that 1(4) append_file_calm [OF assms(1,2), where j = j1 and w = b and t = "''Goodbye from job''"] p show ?thesis
      by (simp add: do_append_internal_goodbye1_def px_then_def px_bind_def in_w_def append_names px_return_def afterwards_def set_file_def backed_iff j1_def j2_def)
  qed
  obtain a b where "announce env j2 (r2, w2) = Some (Inr (), a, b)" "outside b = outside w2" "ww_afterwards b = ww_afterwards w2"
    using announced [OF 2(2)] by metis
  with 2(4) append_file_calm [OF assms(1,2), where j = j2 and w = b and t = "''Goodbye from job and job1''"] p obtain w3
    where 3: "do_append_internal_goodbye2 env j2 (r2, w2) = Some (Inr WORKER_SUCCESS, a, w3)" "ww_afterwards w3 = ww_afterwards w2"
      "file_of ?p (ww_rt w3) = Some (?s ''Goodbye from job and job1 and job2'')"
    by (simp add: do_append_internal_goodbye2_def px_then_def px_bind_def px_return_def set_file_def)
  have "do_get_testchained_goodbye env j (a, w3) = Some (Inr WORKER_SUCCESS, a\<lparr>jr_content := ?s ''Goodbye from job and job1 and job2''\<rparr>, w3)"
    using 3(3) by (simp add: do_get_testchained_goodbye_def show_file_def px_then_def px_bind_def in_rt_def in_w_def on_rt_def slurp_calm [OF assms(2)] answer_with_def on_resp_def
        px_modify_def px_return_def)
  moreover have "jr_content (a\<lparr>jr_content := ?s ''Goodbye from job and job1 and job2''\<rparr>) = ?s ''Goodbye from job and job1 and job2''" by simp
  ultimately show ?thesis using 1(1,3) 2(1,3) 3(1,2) n by metis
qed

section \<open>The job to be cancelled ends\<close>

lemma resp_status_call: "\<exists>x r' w'. resp_status (obj_call mt mq mj) (r, w) = Some (x, r', w') \<and> outside w' = outside w"
  by (auto simp: resp_status_def obj_call_def on_transient_def sql_back_def Let_def split: option.split prod.split sobj.split)

lemma cancel_round_next:
  "\<exists>x r' w'. cancel_round env stop (r, w) = Some (x, r', w') \<and>
     (x = Inr None \<longrightarrow> tw_clock env (outside w) \<le> stop \<and> (\<exists>db. outside w' = snd (tw_sleep env 5 (db, outside w))))"
proof (cases "stop \<ge> tw_clock env (outside w)")
  case True
  obtain x1 r1 w1 where 1: "resp_status (so_progress (tw_now env)) (r, w) = Some (x1, r1, w1)" "outside w1 = outside w"
    unfolding so_progress_def using resp_status_call by blast
  obtain x2 r2 w2 where 2: "resp_status (so_advance (tw_now env) (wrap_u32 (wrap_s32 (int (projr x1)) + 10))) (r1, w1) = Some (x2, r2, w2)" "outside w2 = outside w1"
    unfolding so_advance_def using resp_status_call by blast
  obtain x3 r3 w3 where 3: "resp_status (so_checkpoint (tw_now env)) (r2, w2) = Some (x3, r3, w3)" "outside w3 = outside w2"
    unfolding so_checkpoint_def using resp_status_call by blast
  show ?thesis using True 1 2 3
    by (cases x1; cases x2; cases x3)
      (auto simp: cancel_round_def px_then_def px_bind_def in_rt_def in_w_def on_rt_def px_get_def px_return_def pause_for_def px_modify_def split_def Let_def intro!: exI)
qed (simp add: cancel_round_def px_bind_def in_rt_def in_w_def on_rt_def px_get_def px_return_def)

text \<open>
  The handler that waits to be cancelled does not wait for ever. Whatever happens to its status meanwhile, it comes to an end, since it looks at the clock
  in every round and the clock goes on while it sleeps.
\<close>

lemma cancel_thing_returns:
  assumes "\<And>db x. tw_clock env x < tw_clock env (snd (tw_sleep env 5 (db, x)))"
  shows "\<exists>y. repeat_until (cancel_attempt env stop) s = Some y"
proof (rule repeat.returns [where I = "\<lambda>_. True" and f = "\<lambda>(r, w). nat (stop + 1 - tw_clock env (outside w))"])
  show "cancel_attempt env stop s \<noteq> None" for s
  proof -
    obtain x r' w' where "cancel_round env stop (fst s, snd s) = Some (x, r', w')" using cancel_round_next by blast
    then show ?thesis by (simp add: cancel_attempt_def split: sum.split option.split)
  qed
  show "True \<and> (case s' of (r, w) \<Rightarrow> nat (stop + 1 - tw_clock env (outside w))) < (case s of (r, w) \<Rightarrow> nat (stop + 1 - tw_clock env (outside w)))"
    if "cancel_attempt env stop s = Some (None, s')" for s s'
  proof -
    obtain x r' w' where x: "cancel_round env stop (fst s, snd s) = Some (x, r', w')"
      "x = Inr None \<longrightarrow> tw_clock env (outside (snd s)) \<le> stop \<and> (\<exists>db. outside w' = snd (tw_sleep env 5 (db, outside (snd s))))" using cancel_round_next by blast
    with that have "x = Inr None" "s' = (r', w')" by (auto simp: cancel_attempt_def split: sum.splits option.splits)
    with x(2) assms show ?thesis by (fastforce simp: split_def)
  qed
qed simp

section \<open>A small installation\<close>

definition demo_t :: "string tworld" where
  "demo_t = t_create 7 [] ''st1'' ''post'' ''http://h/x'' ''c'' (rw_t demo_rworld)"

definition demo_resp :: "string job_response" where
  "demo_resp = new_response\<lparr>jr_status := Some (TransientObj (t_obj demo_t) (t_ref demo_t))\<rparr>"

definition demo_tworld :: "(string, nat) gw" where
  "demo_tworld = demo_gworld\<lparr>ww_rt := (ww_rt demo_gworld)\<lparr>rw_t := demo_t, rw_x := (rw_x (ww_rt demo_gworld))\<lparr>gx_files := [''/var/gearbox/db/test-delay/c'' \<mapsto> ''7'']\<rparr>\<rparr>\<rparr>"

definition demo_c_job :: "string job" where
  "demo_c_job = Job (new_job_attrs\<lparr>j_name := ''do_increment_testdelay_counter_v1'', j_resource_name := ''c'', j_matrix_arguments := [(''delay'', ''3'')]\<rparr>) [] None"

lemma demo_backed: "backed_by demo_resp demo_tworld"
proof -
  have "t_inv demo_t" unfolding demo_t_def by (rule t_create_inv)
  then show ?thesis by (auto simp: backed_by_def demo_resp_def demo_tworld_def t_inv_def t_data_def split: option.splits)
qed

lemma demo_calm: "calm (tw_gb demo_tw)" "json_text (tw_lib demo_tw)"
  using wire.json_text_axioms by (simp_all add: calm_def demo_tw_def demo_gb_env_def demo_gb_rt_def demo_jm_env_def)

lemma goodbye_chain_witness:
  "\<exists>r1 w1 r4 w3 w4. do_post_testchained_goodbye demo_tw demo_c_job (demo_resp, demo_tworld) = Some (Inr WORKER_CONTINUE, r1, w1)
    \<and> do_get_testchained_goodbye demo_tw demo_c_job w3 = Some (Inr WORKER_SUCCESS, r4, w4)
    \<and> jr_content r4 = json_serialize wire_lib (JString ''Goodbye from job and job1 and job2'')"
  using goodbye_chain [OF demo_calm(2,1) demo_backed, of demo_c_job] by (simp add: demo_tw_def demo_gb_env_def demo_gb_rt_def demo_jm_env_def) blast

lemma cancel_thing_returns_witness: "\<exists>y. repeat_until (cancel_attempt demo_tw 30) (demo_resp, demo_tworld) = Some y"
  by (rule cancel_thing_returns) (simp add: demo_tw_def)

text \<open>
  C26: the delayed counter reaches its end. When so many runs are left to the end, each run but the last adds one, queues the same job again with the delay that was asked for and says that
  it goes on; the last leaves the end in the file, queues nothing and says that it is done.
\<close>

theorem delay_counter_ends:
  assumes "calm (tw_gb env)" and "counts_to j stop delay" and "backed_by r w"
    and "file_of (thing_file env ''test-delay'' j) (ww_rt w) = Some (int_dec (stop - int (Suc n)))" and "- (2 ^ 31) \<le> stop - int (Suc n)" and "stop < 2 ^ 31"
  shows "\<exists>r' w'. run_times (Suc n) (do_increment_testdelay_counter env) j (r, w) = Some (replicate n WORKER_CONTINUE @ [WORKER_SUCCESS], r', w')
    \<and> file_of (thing_file env ''test-delay'' j) (ww_rt w') = Some (int_dec stop) \<and> ww_afterwards w' = ww_afterwards w @ replicate n (GearmanKind, j, delay)"
  by (rule counter_runs [OF assms])

theorem delay_counter_ends_witness:
  "\<exists>r' w'. run_times 3 (do_increment_testdelay_counter demo_tw) demo_c_job (demo_resp, demo_tworld)
      = Some ([WORKER_CONTINUE, WORKER_CONTINUE, WORKER_SUCCESS], r', w')
    \<and> file_of ''/var/gearbox/db/test-delay/c'' (ww_rt w') = Some ''10'' \<and> ww_afterwards w' = [(GearmanKind, demo_c_job, 3), (GearmanKind, demo_c_job, 3)]"
proof -
  have p: "thing_file demo_tw ''test-delay'' demo_c_job = ''/var/gearbox/db/test-delay/c''" by code_simp
  have s: "int_dec 10 = ''10''" "int_dec 7 = ''7''" by code_simp+
  have c: "counts_to demo_c_job 10 3"
  proof -
    have "int_argument ''end'' 10 demo_c_job = Inr 10 \<and> int_argument ''delay'' 1 demo_c_job = Inr 3 \<and> int_argument ''start'' 0 demo_c_job = Inr 0
      \<and> hash_get_default ''retry'' [] (j_matrix_arguments (attrs demo_c_job)) = []" by code_simp
    then show ?thesis by (simp add: counts_to_def)
  qed
  have f: "file_of (thing_file demo_tw ''test-delay'' demo_c_job) (ww_rt demo_tworld) = Some (int_dec (10 - int (Suc 2)))"
    by (simp add: p s demo_tworld_def)
  have "ww_afterwards demo_tworld = []" by (simp add: demo_tworld_def demo_gworld_def)
  with delay_counter_ends [OF demo_calm(1) c demo_backed f] show ?thesis by (simp add: p s numeral_eq_Suc del: run_times.simps)
qed

end
