(* ===== verification/GB_Store.thy ===== *)
theory GB_Store
  imports GB_Config GB_Objects
begin

text \<open>
  \<^verbatim>\<open>store/dbconn.cc\<close> and \<^verbatim>\<open>store/LoggedStatement.cc\<close>: the connections to databases that a process registers under names, and the
  statements it runs on them. Opening a session, asking whether it is alive, and the commands on it are the
  database library's and parameters.
\<close>

section \<open>Connections\<close>

record db_conn =
  dc_dbname :: string
  dc_user :: string
  dc_pass :: string
  dc_host :: string
  dc_port :: string
  dc_sock :: string
  dc_sess :: "nat option"
  dc_type :: string

definition new_conn :: "string \<Rightarrow> db_conn" where
  "new_conn t = \<lparr>dc_dbname = ''test'', dc_user = ''root'', dc_pass = [], dc_host = ''localhost'', dc_port = [], dc_sock = [],
     dc_sess = None, dc_type = t\<rparr>"

record 'x store =
  st_conns :: "(string, db_conn) smap"
  st_last :: string
  st_x :: 'x

record 'x db_env =
  de_open :: "string \<Rightarrow> string \<Rightarrow> 'x \<Rightarrow> (gb_exn + nat) \<times> 'x"
  de_test :: "nat \<Rightarrow> 'x \<Rightarrow> gb_exn option \<times> 'x"
  de_run :: "nat \<Rightarrow> string \<Rightarrow> 'x \<Rightarrow> gb_exn option \<times> 'x"

text \<open>A name that is registered keeps its connection, and the type it was registered with.\<close>

definition conn_reg :: "string \<Rightarrow> string \<Rightarrow> 'x store \<Rightarrow> 'x store" where
  "conn_reg name t s =
     (if smap_find (st_conns s) name \<noteq> None then s
      else s\<lparr>st_last := name, st_conns := smap_put name (new_conn t) (st_conns s)\<rparr>)"

definition not_registered :: "string \<Rightarrow> gb_exn" where
  "not_registered name = StdError (''Database connection '' @ name @ '' has not been registered!'')"

definition conn_get :: "string \<Rightarrow> 'x store \<Rightarrow> gb_exn + db_conn" where
  "conn_get name s = (case smap_find (st_conns s) name of None \<Rightarrow> Inl (not_registered name) | Some c \<Rightarrow> Inr c)"

definition set_port :: "int \<Rightarrow> db_conn \<Rightarrow> db_conn" where
  "set_port p c = (if p \<le> 0 then c else c\<lparr>dc_port := int_dec p\<rparr>)"

section \<open>Configuring a connection\<close>

record db_settings =
  ds_type :: string
  ds_user :: string
  ds_pass :: string
  ds_name :: string
  ds_host :: string
  ds_sock :: string
  ds_port :: int

definition conn_name :: "string \<Rightarrow> db_settings \<Rightarrow> string" where
  "conn_name name d =
     (if name \<noteq> [] then name
      else ds_user d @ '':'' @ ds_type d @ '':'' @ ds_name d @ '':'' @ ds_host d @ '':'' @ ds_sock d @ '':'' @ int_dec (ds_port d))"

definition db_configure :: "string \<Rightarrow> db_settings \<Rightarrow> 'x store \<Rightarrow> 'x store" where
  "db_configure name d s = (let n = conn_name name d; s = conn_reg n (ds_type d) s in
     case smap_find (st_conns s) n of
       None \<Rightarrow> s
     | Some c \<Rightarrow> s\<lparr>st_conns := smap_put n (set_port (ds_port d) (c\<lparr>dc_user := ds_user d, dc_pass := ds_pass d, dc_dbname := ds_name d,
         dc_host := ds_host d, dc_sock := ds_sock d\<rparr>)) (st_conns s)\<rparr>)"

definition settings_of :: "'d json \<Rightarrow> gb_exn + db_settings" where
  "settings_of cfg =
     res_bind (get_string_default ''db_type'' ''mysql'' cfg) (\<lambda>t.
     res_bind (get_string_default ''db_user'' [] cfg) (\<lambda>u.
     res_bind (get_string_default ''db_pass'' [] cfg) (\<lambda>p.
     res_bind (get_string_default ''db_name'' [] cfg) (\<lambda>n.
     res_bind (get_string_default ''db_host'' [] cfg) (\<lambda>h.
     res_bind (get_string_default ''db_sock'' [] cfg) (\<lambda>k.
     res_bind (get_int_default ''db_port'' 0 cfg) (\<lambda>i.
     Inr \<lparr>ds_type = t, ds_user = u, ds_pass = p, ds_name = n, ds_host = h, ds_sock = k, ds_port = wrap_s32 i\<rparr>)))))))"

text \<open>The settings from a document: a key at a time, each only when it is there.\<close>

definition when_set :: "string \<Rightarrow> 'd json \<Rightarrow> string \<Rightarrow> gb_exn + string" where
  "when_set k d dflt = (if json_hasKey k d then res_bind (json_get [] k d) (json_as_string [Key k]) else Inr dflt)"

definition settings_of_json :: "'d json \<Rightarrow> gb_exn + db_settings" where
  "settings_of_json d =
     res_bind (when_set ''db_type'' d ''mysql'') (\<lambda>t.
     res_bind (when_set ''db_user'' d []) (\<lambda>u.
     res_bind (when_set ''db_pass'' d []) (\<lambda>p.
     res_bind (when_set ''db_name'' d []) (\<lambda>n.
     res_bind (when_set ''db_host'' d []) (\<lambda>h.
     res_bind (when_set ''db_sock'' d []) (\<lambda>k.
     res_bind (if json_hasKey ''db_port'' d then res_bind (json_get [] ''db_port'' d) (json_as_int [Key ''db_port'']) else Inr 0) (\<lambda>i.
     Inr \<lparr>ds_type = t, ds_user = u, ds_pass = p, ds_name = n, ds_host = h, ds_sock = k, ds_port = i\<rparr>)))))))"

definition db_init :: "'d json \<Rightarrow> string \<Rightarrow> ('x store, gb_exn, unit) sx" where
  "db_init cfg name = sx_bind (sx_lift (settings_of cfg)) (\<lambda>d. sx_modify (db_configure name d))"

definition db_init_json :: "'d json \<Rightarrow> string \<Rightarrow> ('x store, gb_exn, unit) sx" where
  "db_init_json d name = sx_bind (sx_lift (settings_of_json d)) (\<lambda>d. sx_modify (db_configure name d))"

section \<open>Sessions\<close>

definition opt_setting :: "string \<Rightarrow> string \<Rightarrow> string" where
  "opt_setting k v = (if v = [] then [] else k @ v)"

definition connection_string :: "db_conn \<Rightarrow> string" where
  "connection_string c =
     (if dc_type c = ''sqlite3'' then ''dbname='' @ dc_dbname c @ '' timeout=10''
      else ''dbname='' @ dc_dbname c @ '' user='' @ dc_user c @ opt_setting '' password='' (dc_pass c) @ opt_setting '' host='' (dc_host c)
        @ opt_setting '' port='' (dc_port c) @ opt_setting '' unix_socket='' (dc_sock c))"

definition set_session :: "string \<Rightarrow> nat option \<Rightarrow> 'x store \<Rightarrow> 'x store" where
  "set_session name h s = s\<lparr>st_conns := map (\<lambda>(k, c). (k, if k = name then c\<lparr>dc_sess := h\<rparr> else c)) (st_conns s)\<rparr>"

text \<open>A session that does not answer is dropped, and its error thrown; the next call opens a new one.\<close>

definition get_session :: "'x db_env \<Rightarrow> bool \<Rightarrow> string \<Rightarrow> db_conn \<Rightarrow> ('x store, gb_exn, nat) sx" where
  "get_session env test name c = (\<lambda>s. case dc_sess c of
     Some h \<Rightarrow>
       if \<not> test then (Inr h, s)
       else (case de_test env h (st_x s) of
          (None, x) \<Rightarrow> (Inr h, s\<lparr>st_x := x\<rparr>)
        | (Some e, x) \<Rightarrow> (Inl e, set_session name None (s\<lparr>st_x := x\<rparr>)))
   | None \<Rightarrow> (case de_open env (dc_type c) (connection_string c) (st_x s) of
        (Inl e, x) \<Rightarrow> (Inl e, s\<lparr>st_x := x\<rparr>)
      | (Inr h, x) \<Rightarrow> (Inr h, set_session name (Some h) (s\<lparr>st_x := x\<rparr>))))"

text \<open>\<^verbatim>\<open>getconn(name)\<close>, and \<^verbatim>\<open>getconn()\<close> for the name that was used last.\<close>

definition getconn_named :: "'x db_env \<Rightarrow> string \<Rightarrow> ('x store, gb_exn, nat) sx" where
  "getconn_named env name =
     sx_then (sx_modify (\<lambda>s. s\<lparr>st_last := name\<rparr>))
     (sx_bind (\<lambda>s. (conn_get name s, s)) (get_session env True name))"

definition getconn_last :: "'x db_env \<Rightarrow> ('x store, gb_exn, nat) sx" where
  "getconn_last env = sx_bind (sx_get st_last) (\<lambda>n. sx_bind (\<lambda>s. (conn_get n s, s)) (get_session env True n))"

text \<open>With \<^verbatim>\<open>auto_reconnect\<close> every exception leads to another attempt.\<close>

partial_function (option) getconn_loop :: "('x store, gb_exn, nat) sx \<Rightarrow> bool \<Rightarrow> 'x store \<Rightarrow> ((gb_exn + nat) \<times> 'x store) option" where
  "getconn_loop get auto s = (case get s of
     (Inl e, s') \<Rightarrow> if auto then getconn_loop get auto s' else Some (Inl e, s')
   | (Inr h, s') \<Rightarrow> Some (Inr h, s'))"

definition getconn :: "'x db_env \<Rightarrow> string \<Rightarrow> bool \<Rightarrow> ('x store, gb_exn, nat) px" where
  "getconn env name auto = getconn_loop (getconn_named env name) auto"

definition getconn_any :: "'x db_env \<Rightarrow> bool \<Rightarrow> ('x store, gb_exn, nat) px" where
  "getconn_any env auto = getconn_loop (getconn_last env) auto"

section \<open>Transactions\<close>

definition conn_for :: "'x db_env \<Rightarrow> string \<Rightarrow> ('x store, gb_exn, nat) sx" where
  "conn_for env name = (if name = [] then getconn_last env else getconn_named env name)"

definition sql_command :: "'x db_env \<Rightarrow> nat \<Rightarrow> string \<Rightarrow> ('x store, gb_exn, unit) sx" where
  "sql_command env h t = (\<lambda>s. case de_run env h t (st_x s) of
     (None, x) \<Rightarrow> (Inr (), s\<lparr>st_x := x\<rparr>) | (Some e, x) \<Rightarrow> (Inl e, s\<lparr>st_x := x\<rparr>))"

definition backend_of :: "string \<Rightarrow> 'x store \<Rightarrow> string" where
  "backend_of name s = (case smap_find (st_conns s) (if name = [] then st_last s else name) of None \<Rightarrow> [] | Some c \<Rightarrow> dc_type c)"

definition dblock :: "'x db_env \<Rightarrow> string \<Rightarrow> ('x store, gb_exn, unit) sx" where
  "dblock env name = sx_bind (conn_for env name) (\<lambda>h.
     sx_bind (sx_get (backend_of name)) (\<lambda>b. sql_command env h (if b = ''sqlite3'' then ''BEGIN EXCLUSIVE'' else ''BEGIN'')))"

definition dbcommit :: "'x db_env \<Rightarrow> string \<Rightarrow> ('x store, gb_exn, unit) sx" where
  "dbcommit env name = sx_bind (conn_for env name) (\<lambda>h. sql_command env h ''COMMIT'')"

definition dbrollback :: "'x db_env \<Rightarrow> string \<Rightarrow> ('x store, gb_exn, unit) sx" where
  "dbrollback env name = (\<lambda>s. (Inr (), snd (sx_bind (conn_for env name) (\<lambda>h. sql_command env h ''ROLLBACK'') s)))"

section \<open>Statements\<close>

record 'v statement =
  ls_sql :: string
  ls_bind :: "(string, 'v) smap"
  ls_prepared :: "string option"
  ls_executed :: bool
  ls_into :: bool

definition new_statement :: "'v statement" where
  "new_statement = \<lparr>ls_sql = [], ls_bind = [], ls_prepared = None, ls_executed = False, ls_into = False\<rparr>"

definition ls_fresh :: "'v statement \<Rightarrow> 'v statement" where
  "ls_fresh l = (if ls_executed l then new_statement else l)"

definition ls_append :: "string \<Rightarrow> 'v statement \<Rightarrow> 'v statement" where
  "ls_append t l = (let l = ls_fresh l in l\<lparr>ls_sql := ls_sql l @ [CHR 0x0A] @ t\<rparr>)"

definition genKey :: "string \<Rightarrow> 'v statement \<Rightarrow> string" where
  "genKey name l = (if name = [] then nat_dec (length (ls_bind l)) else name)"

definition ls_use :: "'v \<Rightarrow> string \<Rightarrow> 'v statement \<Rightarrow> 'v statement" where
  "ls_use v name l = (let l = ls_fresh l in l\<lparr>ls_bind := smap_put (genKey name l) v (ls_bind l)\<rparr>)"

definition ls_into_value :: "'v statement \<Rightarrow> 'v statement" where
  "ls_into_value l = (ls_fresh l)\<lparr>ls_into := True\<rparr>"

definition ls_prepare :: "string \<Rightarrow> 'v statement \<Rightarrow> 'v statement" where
  "ls_prepare t l = (ls_fresh l)\<lparr>ls_prepared := Some t\<rparr>"

text \<open>What is executed: the text that was prepared, with the values; a statement that was executed and prepared stays so.\<close>

definition ls_execute :: "string \<Rightarrow> 'v statement \<Rightarrow> string \<times> (string, 'v) smap \<times> 'v statement" where
  "ls_execute t l = (let l = (if ls_prepared l = None then ls_prepare t l else l)
     in (case ls_prepared l of None \<Rightarrow> t | Some u \<Rightarrow> u, ls_bind l, l\<lparr>ls_executed := True\<rparr>))"

section \<open>Waiting for a connection\<close>

text \<open>The server takes every connection.\<close>

definition reachable_db :: "'x db_env \<Rightarrow> bool" where
  "reachable_db env \<longleftrightarrow> (\<forall>t c x. \<exists>h x'. de_open env t c x = (Inr h, x'))"

lemma find_set_session:
  "smap_find (st_conns (set_session name h s)) n = map_option (\<lambda>c. if n = name then c\<lparr>dc_sess := h\<rparr> else c) (smap_find (st_conns s) n)"
proof -
  have "map_of (map (\<lambda>(k, c). (k, if k = name then c\<lparr>dc_sess := h\<rparr> else c)) cs) n
      = map_option (\<lambda>c. if n = name then c\<lparr>dc_sess := h\<rparr> else c) (map_of cs n)" for cs
    by (induction cs) auto
  then show ?thesis by (simp add: set_session_def smap_find_def)
qed

lemma getconn_named_run:
  "getconn_named env name s = (case smap_find (st_conns s) name of
     None \<Rightarrow> (Inl (not_registered name), s\<lparr>st_last := name\<rparr>)
   | Some c \<Rightarrow> get_session env True name c (s\<lparr>st_last := name\<rparr>))"
  by (simp add: getconn_named_def conn_get_def sx_defs split: option.split)

lemma getconn_opens:
  assumes "reachable_db env" and "smap_find (st_conns s) name = Some c" and "dc_sess c = None"
  shows "\<exists>h s'. getconn env name auto s = Some (Inr h, s')"
proof -
  obtain h x' where "de_open env (dc_type c) (connection_string c) (st_x s) = (Inr h, x')" using assms(1) unfolding reachable_db_def by blast
  with assms(2,3) show ?thesis by (simp add: getconn_def getconn_loop.simps getconn_named_run get_session_def)
qed

lemma getconn_registered:
  assumes "reachable_db env" and "smap_find (st_conns s) name = Some c"
  shows "\<exists>h s'. getconn env name True s = Some (Inr h, s')"
proof (cases "dc_sess c")
  case None
  then show ?thesis by (rule getconn_opens [OF assms])
next
  case (Some h)
  obtain r x where test: "de_test env h (st_x s) = (r, x)" by (cases "de_test env h (st_x s)")
  show ?thesis
  proof (cases r)
    case None
    with Some test assms(2) show ?thesis by (simp add: getconn_def getconn_loop.simps getconn_named_run get_session_def)
  next
    case (Some e)
    let ?s = "set_session name None (s\<lparr>st_last := name, st_x := x\<rparr>)"
    have "smap_find (st_conns ?s) name = Some (c\<lparr>dc_sess := None\<rparr>)" using assms(2) by (simp add: find_set_session)
    from getconn_opens [OF assms(1) this, of True] Some test \<open>dc_sess c = Some h\<close> assms(2)
    show ?thesis by (simp add: getconn_def getconn_loop.simps [of _ True s] getconn_named_run get_session_def)
  qed
qed

text \<open>With automatic reconnection the loop repeats whatever throws.\<close>

definition again_on_error :: "('s, gb_exn, 'a) sx \<Rightarrow> 's \<Rightarrow> ((gb_exn + 'a) option \<times> 's) option" where
  "again_on_error get s = Some (case get s of (Inl e, s') \<Rightarrow> (None, s') | (Inr h, s') \<Rightarrow> (Some (Inr h), s'))"

lemma again_on_error_simps:
  "again_on_error get s = Some (None, s') \<longleftrightarrow> (\<exists>e. get s = (Inl e, s'))"
  "again_on_error get s = Some (Some r, s') \<longleftrightarrow> (\<exists>h. r = Inr h \<and> get s = (Inr h, s'))"
  by (auto simp: again_on_error_def split: prod.splits sum.splits)

interpretation reconnect: retried "again_on_error get" "getconn_loop get True" for get
proof
  fix s show "getconn_loop get True s = (case again_on_error get s of None \<Rightarrow> None | Some (None, s') \<Rightarrow> getconn_loop get True s'
      | Some (Some r, s') \<Rightarrow> Some (r, s'))"
    by (subst getconn_loop.simps) (simp add: again_on_error_def split: prod.split sum.split)
next
  fix s y P
  assume "getconn_loop get True s = Some y" and found: "\<And>s r s'. again_on_error get s = Some (Some r, s') \<Longrightarrow> P s (r, s')"
    and again: "\<And>s s' y. again_on_error get s = Some (None, s') \<Longrightarrow> P s' y \<Longrightarrow> P s y"
  then show "P s y"
    by (rule_tac getconn_loop.raw_induct [where P = "\<lambda>g auto s y. g = get \<longrightarrow> auto \<longrightarrow> P s y", rule_format])
      (auto split: prod.splits sum.splits if_splits simp: again_on_error_simps)
qed

lemma getconn_unregistered:
  assumes "smap_find (st_conns s) name = None"
  shows "getconn env name True s = None"
  unfolding getconn_def
  by (rule reconnect.stuck [where I = "\<lambda>s. smap_find (st_conns s) name = None", OF assms]) (auto simp: again_on_error_simps getconn_named_run)

text \<open>
  C27: asking for a connection with automatic reconnection returns exactly when the connection is registered. As long as the server takes connections, a session
  that went away costs one more attempt; but a name that nobody registered is asked for again and
  again, and the call does not return.
\<close>

theorem getconn_returns_iff:
  assumes "reachable_db env"
  shows "(\<exists>r. getconn env name True s = Some r) \<longleftrightarrow> smap_find (st_conns s) name \<noteq> None"
  using getconn_registered [OF assms, of s name] getconn_unregistered [of s name env] by (cases "smap_find (st_conns s) name") auto

definition demo_db_env :: "nat db_env" where
  "demo_db_env = \<lparr>de_open = (\<lambda>_ _ x. (Inr x, x + 1)), de_test = (\<lambda>_ x. (Some (SociError ''gone''), x)), de_run = (\<lambda>_ _ x. (None, x))\<rparr>"

theorem getconn_returns_iff_witness:
  "(\<exists>r. getconn demo_db_env ''delay'' True (conn_reg ''delay'' ''mysql'' \<lparr>st_conns = [], st_last = [], st_x = 0\<rparr>) = Some r)
    \<and> getconn demo_db_env ''status'' True (conn_reg ''delay'' ''mysql'' \<lparr>st_conns = [], st_last = [], st_x = 0\<rparr>) = None"
proof -
  have reach: "reachable_db demo_db_env" by (simp add: reachable_db_def demo_db_env_def)
  let ?s = "conn_reg ''delay'' ''mysql'' \<lparr>st_conns = [], st_last = [], st_x = 0\<rparr> :: nat store"
  have "smap_find (st_conns ?s) ''delay'' \<noteq> None" "smap_find (st_conns ?s) ''status'' = None"
    by (simp_all add: conn_reg_def smap_find_def)
  with getconn_returns_iff [OF reach] show ?thesis by (meson getconn_unregistered)
qed

end
