(* ===== verification/GB_Plugin.thy ===== *)
theory GB_Plugin
  imports GB_Json
begin

text \<open>
  \<^verbatim>\<open>core/Plugin.cc\<close>: the shared objects of a directory, loaded once and kept in a map of the process. The dynamic linker and the directory are
  parameters.
\<close>

section \<open>Plugins\<close>

record plugin =
  pl_file :: string
  pl_name :: string
  pl_dl :: "nat option"
  pl_error :: string

record plugin_env =
  pe_ext :: string
  pe_files :: "string \<Rightarrow> string list option"
  pe_exists :: "string \<Rightarrow> bool"
  pe_dlopen :: "string \<Rightarrow> string + nat"
  pe_dlsym :: "nat \<Rightarrow> string \<Rightarrow> string + nat"

type_synonym plugin_map = "(string, plugin) smap"
type_synonym plugins = "(string, plugin_map) smap"

definition new_plugin :: "plugin_env \<Rightarrow> string \<Rightarrow> string \<Rightarrow> plugin" where
  "new_plugin env f n = (case pe_dlopen env f of
     Inl e \<Rightarrow> \<lparr>pl_file = f, pl_name = n, pl_dl = None, pl_error = e\<rparr>
   | Inr h \<Rightarrow> \<lparr>pl_file = f, pl_name = n, pl_dl = Some h, pl_error = []\<rparr>)"

definition plugin_getError :: "plugin \<Rightarrow> string" where
  "plugin_getError p = ''failed to load plugin: '' @ pl_error p"

definition getFunc :: "plugin_env \<Rightarrow> string \<Rightarrow> plugin \<Rightarrow> gb_exn + nat" where
  "getFunc env f p = (case pl_dl p of
     None \<Rightarrow> Inl (StdError (''cannot load function on unloaded plugin: '' @ pl_file p))
   | Some h \<Rightarrow> (case pe_dlsym env h f of Inl e \<Rightarrow> Inl (StdError e) | Inr s \<Rightarrow> Inr s))"

definition getCtor :: "plugin_env \<Rightarrow> plugin \<Rightarrow> gb_exn + nat" where
  "getCtor env p = getFunc env (pl_name p @ ''_new'') p"

definition getDtor :: "plugin_env \<Rightarrow> plugin \<Rightarrow> gb_exn + nat" where
  "getDtor env p = getFunc env (pl_name p @ ''_delete'') p"

definition plugin_can :: "plugin_env \<Rightarrow> string \<Rightarrow> plugin \<Rightarrow> bool" where
  "plugin_can env f p = (case pl_dl p of None \<Rightarrow> False | Some h \<Rightarrow> (case pe_dlsym env h f of Inl _ \<Rightarrow> False | Inr _ \<Rightarrow> True))"

section \<open>The plugins of a directory\<close>

text \<open>The name of a shared object: the name of the file without one of the two endings.\<close>

definition ends_with :: "string \<Rightarrow> string \<Rightarrow> bool" where
  "ends_with e f \<longleftrightarrow> drop (length f - length e) f = e"

definition plugin_name :: "plugin_env \<Rightarrow> string \<Rightarrow> string option" where
  "plugin_name env f =
     (if ends_with (pe_ext env) f then Some (take (length f - length (pe_ext env)) f)
      else if ends_with ''.so'' f then Some (take (length f - 3) f) else None)"

text \<open>One file: an object that cannot be opened ends the scan, and all that was found is forgotten; one without a constructor is left out.\<close>

fun scan_files :: "plugin_env \<Rightarrow> string \<Rightarrow> string list \<Rightarrow> plugin_map \<Rightarrow> gb_exn + plugin_map" where
  "scan_files env dir [] m = Inr m"
| "scan_files env dir (f # fs) m = (case plugin_name env f of
     None \<Rightarrow> scan_files env dir fs m
   | Some n \<Rightarrow>
       (let m = (if smap_find m n = None then smap_put n (new_plugin env (dir @ ''/'' @ f) n) m else m) in
        case smap_find m n of
          None \<Rightarrow> scan_files env dir fs m
        | Some p \<Rightarrow>
            if pl_dl p = None then Inl (StdError (plugin_getError p))
            else (case getCtor env p of Inl _ \<Rightarrow> scan_files env dir fs (smap_erase n m) | Inr _ \<Rightarrow> scan_files env dir fs m)))"

definition loadAll :: "plugin_env \<Rightarrow> string \<Rightarrow> (plugins, gb_exn, plugin list) sx" where
  "loadAll env dir = (\<lambda>ps. case smap_find ps dir of
     Some m \<Rightarrow> (Inr (map snd m), ps)
   | None \<Rightarrow> (case pe_files env dir of
        None \<Rightarrow> (Inr [], smap_put dir [] ps)
      | Some fs \<Rightarrow> (case scan_files env dir fs [] of
           Inl e \<Rightarrow> (Inl e, smap_erase dir ps)
         | Inr m \<Rightarrow> (Inr (map snd m), smap_put dir m ps))))"

section \<open>One plugin\<close>

definition dir_map :: "string \<Rightarrow> plugins \<Rightarrow> plugin_map" where
  "dir_map dir ps = (case smap_find ps dir of None \<Rightarrow> [] | Some m \<Rightarrow> m)"

text \<open>Both endings are tried, also when the first was found; an object that is there already stays.\<close>

fun try_exts :: "plugin_env \<Rightarrow> string \<Rightarrow> string \<Rightarrow> string list \<Rightarrow> bool \<Rightarrow> (plugins, gb_exn, bool) sx" where
  "try_exts env dir n [] found = (\<lambda>ps. (Inr found, ps))"
| "try_exts env dir n (e # es) found = (\<lambda>ps. let f = dir @ ''/'' @ n @ e in
     if \<not> pe_exists env f then try_exts env dir n es found ps
     else (let m = dir_map dir ps; p = (case smap_find m n of None \<Rightarrow> new_plugin env f n | Some p \<Rightarrow> p); ps' = smap_put dir (smap_put n p m) ps in
        if pl_dl p = None then (Inl (StdError (plugin_getError p)), smap_put dir (smap_erase n m) ps)
        else try_exts env dir n es True ps'))"

definition plugin_load :: "plugin_env \<Rightarrow> string \<Rightarrow> string \<Rightarrow> (plugins, gb_exn, plugin) sx" where
  "plugin_load env dir n = (\<lambda>ps. case smap_find (dir_map dir ps) n of
     Some p \<Rightarrow> (Inr p, ps)
   | None \<Rightarrow> (case try_exts env dir n [pe_ext env, ''.so''] False ps of
        (Inl e, ps') \<Rightarrow> (Inl e, ps')
      | (Inr found, ps') \<Rightarrow>
          if \<not> found then (Inl (StdError (''plugin '' @ quoted n @ '' does not exist'')), ps')
          else (case smap_find (dir_map dir ps') n of None \<Rightarrow> (Inl NullDereference, ps') | Some p \<Rightarrow> (Inr p, ps'))))"

section \<open>A directory is scanned once\<close>

lemma try_exts_only:
  assumes "try_exts env dir n es found ps = (Inr True, ps')" and "\<not> found"
    and "dir_map dir ps = []"
  shows "\<exists>p. smap_find ps' dir = Some [(n, p)] \<and> pl_dl p \<noteq> None"
proof -
  have step: "try_exts env dir n es True ps = (Inr b, ps') \<Longrightarrow> smap_find ps dir = Some [(n, p)] \<Longrightarrow> pl_dl p \<noteq> None \<Longrightarrow>
      smap_find ps' dir = Some [(n, p)]" for es ps p b
    by (induction es arbitrary: ps) (auto simp: Let_def dir_map_def smap_find_put smap_find_def [of "[(n, p)]"] split: if_splits)
  show ?thesis using assms
  proof (induction es arbitrary: ps)
    case (Cons e es)
    let ?f = "dir @ ''/'' @ n @ e"
    show ?case
    proof (cases "pe_exists env ?f")
      case True
      have one: "smap_find (smap_put dir [(n, new_plugin env ?f n)] ps) dir = Some [(n, new_plugin env ?f n)]" by (simp add: smap_find_put)
      show ?thesis using Cons.prems True step [OF _ one] by (auto simp: Let_def smap_find_def [of "[]"] split: if_splits)
    qed (use Cons in \<open>simp add: Let_def\<close>)
  qed simp
qed

text \<open>
  A plugin that is loaded by its name hides the others. \<^verbatim>\<open>loadAll\<close> scans a directory unless the map has it, and \<^verbatim>\<open>load\<close> puts it there with the one
  plugin it loads; after that \<^verbatim>\<open>loadAll\<close> returns this plugin alone, whatever else the directory holds.
\<close>

theorem loadAll_after_load:
  assumes "smap_find ps dir = None" and "plugin_load env dir n ps = (Inr p, ps')"
  shows "loadAll env dir ps' = (Inr [p], ps')"
proof -
  have none: "dir_map dir ps = []" using assms(1) by (simp add: dir_map_def)
  then have t: "try_exts env dir n [pe_ext env, ''.so''] False ps = (Inr True, ps')"
    using assms(2) by (auto simp: plugin_load_def smap_find_def [of "[]"] simp del: try_exts.simps split: sum.splits prod.splits if_splits option.splits)
  from try_exts_only [OF t _ none] obtain q where q: "smap_find ps' dir = Some [(n, q)]" by auto
  then have "p = q" using assms(2) t none
    by (auto simp: plugin_load_def dir_map_def smap_find_def [of "[]"] smap_find_def [of "[(n, q)]"] simp del: try_exts.simps)
  with q show ?thesis by (simp add: loadAll_def)
qed

definition demo_plugin_env :: plugin_env where
  "demo_plugin_env = \<lparr>pe_ext = ''.dylib'', pe_files = (\<lambda>_. Some [''a.so'', ''b.so'']), pe_exists = (\<lambda>f. f = ''/p/a.so''), pe_dlopen = (\<lambda>_. Inr 1),
     pe_dlsym = (\<lambda>_ _. Inr 2)\<rparr>"

text \<open>A directory with two plugins.\<close>

theorem loadAll_after_load_witness:
  "\<exists>p ps'. plugin_load demo_plugin_env ''/p'' ''a'' [] = (Inr p, ps') \<and> loadAll demo_plugin_env ''/p'' ps' = (Inr [p], ps')
    \<and> (\<exists>p q ps. loadAll demo_plugin_env ''/p'' [] = (Inr [p, q], ps))"
proof -
  have "case plugin_load demo_plugin_env ''/p'' ''a'' [] of (Inr _, _) \<Rightarrow> True | _ \<Rightarrow> False" by code_simp
  then obtain p ps' where l: "plugin_load demo_plugin_env ''/p'' ''a'' [] = (Inr p, ps')" by (auto split: prod.splits sum.splits)
  have "case loadAll demo_plugin_env ''/p'' [] of (Inr [p, q], _) \<Rightarrow> True | _ \<Rightarrow> False" by code_simp
  then have "\<exists>p q ps. loadAll demo_plugin_env ''/p'' [] = (Inr [p, q], ps)" by (auto split: prod.splits sum.splits list.splits)
  with l loadAll_after_load [OF _ l] show ?thesis by (auto simp: smap_find_def)
qed

end
