(* ===== verification/GB_ZooKeeper.thy ===== *)
theory GB_ZooKeeper
  imports GB_Objects GB_Uri "HOL-Library.Signed_Division"
begin

text \<open>
  The ZooKeeper client under \<^verbatim>\<open>legacy/gearbox/zookeeper\<close>: the class \<^verbatim>\<open>ZooKeeper\<close> with its private implementation, which makes the asynchronous calls of the
  C library synchronous. The client object, the library below it and the blocks both have pointers to (the contexts of calls under way and of user watches)
  are one state, because the library calls back into the object while a member of it is running. The C library and the constants of its header are
  parameters. A computation that does not return has no result; a callback that is given a pointer to a block that is gone is \<^const>\<open>NullDereference\<close>.
\<close>

unbundle bit_operations_syntax

declare repeat_until.simps [code]

section \<open>Data\<close>

text \<open>\<^verbatim>\<open>struct Stat\<close> of the library, and the contexts in which the callbacks leave their results.\<close>

record zstat =
  zs_czxid :: int
  zs_mzxid :: int
  zs_ctime :: int
  zs_mtime :: int
  zs_version :: int
  zs_cversion :: int
  zs_aversion :: int
  zs_ephemeralOwner :: int
  zs_dataLength :: int
  zs_numChildren :: int
  zs_pzxid :: int

definition zero_stat :: zstat where
  "zero_stat = \<lparr>zs_czxid = 0, zs_mzxid = 0, zs_ctime = 0, zs_mtime = 0, zs_version = 0, zs_cversion = 0, zs_aversion = 0,
     zs_ephemeralOwner = 0, zs_dataLength = 0, zs_numChildren = 0, zs_pzxid = 0\<rparr>"

record sync_context =
  sc_name :: string
  sc_rc :: int
  sc_done :: bool
  sc_data :: string
  sc_path :: string
  sc_children :: "string list"

definition SyncContext :: "string \<Rightarrow> sync_context" where
  "SyncContext n = \<lparr>sc_name = n, sc_rc = 0, sc_done = False, sc_data = [], sc_path = [], sc_children = []\<rparr>"

datatype event_type = EVENT_UNKNOWN | EVENT_CREATED | EVENT_DELETED | EVENT_CHANGED | EVENT_CHILD | EVENT_NOTWATCHING

datatype znode_type = TYPE_PLAIN | TYPE_EPHEMERAL | TYPE_SEQUENCE | TYPE_EPHEM_SEQ

record zevent =
  ev_type :: event_type
  ev_path :: string

text \<open>The function a watch calls with its context: the static \<^verbatim>\<open>Watcher\<close> with the object, or \<^verbatim>\<open>trampoline\<close> with a \<^verbatim>\<open>TrampolineContext\<close>.\<close>

datatype hook = Watcher_fn | Trampoline_fn nat

record trampoline_context =
  tc_callback :: nat
  tc_context :: nat

text \<open>
  \<^verbatim>\<open>ZooKeeper::Private\<close>, with the blocks that are allocated and the state of the library. Blocks have numbers in the order of their allocation.
\<close>

record 'l zk =
  zk_handle :: "int option"
  zk_events :: "zevent list"
  zk_connected :: bool
  zk_timeout :: int
  zk_connection :: string
  zk_client_id :: "int option"
  zk_stat :: zstat
  zk_contexts :: "nat \<Rightarrow> sync_context option"
  zk_trampolines :: "nat \<Rightarrow> trampoline_context option"
  zk_next :: nat
  zk_lib :: 'l

type_synonym ('l, 'a) zkx = "('l zk, gb_exn, 'a) px"

section \<open>The C library\<close>

text \<open>What the library calls back with: the completion of a call, or a watch that has fired.\<close>

datatype completion = VoidDone | StatDone "zstat option" | DataDone "string option" "zstat option" | StringDone "string option"
  | StringsDone "string list option"

datatype upcall = Completed nat int completion | Watched hook int int "string option"

record zoo_consts =
  ZOO_CREATED_EVENT :: int
  ZOO_DELETED_EVENT :: int
  ZOO_CHANGED_EVENT :: int
  ZOO_CHILD_EVENT :: int
  ZOO_SESSION_EVENT :: int
  ZOO_NOTWATCHING_EVENT :: int
  ZOO_EXPIRED_SESSION_STATE :: int
  ZOO_CONNECTED_STATE :: int
  ZOO_EPHEMERAL :: int
  ZOO_SEQUENCE :: int
  ZOOKEEPER_READ :: int
  ZOOKEEPER_WRITE :: int

type_synonym 'l caller = "upcall \<Rightarrow> ('l, unit) zkx"

record 'l zoolib =
  zoo_init :: "string \<Rightarrow> hook \<Rightarrow> int \<Rightarrow> int option \<Rightarrow> ('l, int option) zkx"
  zoo_close :: "int option \<Rightarrow> ('l, unit) zkx"
  zoo_client_id :: "int option \<Rightarrow> ('l, int option) zkx"
  zoo_interest :: "int option \<Rightarrow> ('l, int \<times> int \<times> (int \<times> int)) zkx"
  zoo_select :: "int \<Rightarrow> bool \<Rightarrow> bool \<Rightarrow> int \<times> int \<Rightarrow> ('l, bool \<times> bool) zkx"
  zoo_process :: "'l caller \<Rightarrow> int option \<Rightarrow> int \<Rightarrow> ('l, int) zkx"
  zoo_aexists :: "'l caller \<Rightarrow> int option \<Rightarrow> string \<Rightarrow> bool \<Rightarrow> nat \<Rightarrow> ('l, int) zkx"
  zoo_awexists :: "'l caller \<Rightarrow> int option \<Rightarrow> string \<Rightarrow> hook \<Rightarrow> nat \<Rightarrow> ('l, int) zkx"
  zoo_aget :: "'l caller \<Rightarrow> int option \<Rightarrow> string \<Rightarrow> bool \<Rightarrow> nat \<Rightarrow> ('l, int) zkx"
  zoo_awget :: "'l caller \<Rightarrow> int option \<Rightarrow> string \<Rightarrow> hook \<Rightarrow> nat \<Rightarrow> ('l, int) zkx"
  zoo_aset :: "'l caller \<Rightarrow> int option \<Rightarrow> string \<Rightarrow> string \<Rightarrow> int \<Rightarrow> nat \<Rightarrow> ('l, int) zkx"
  zoo_acreate :: "'l caller \<Rightarrow> int option \<Rightarrow> string \<Rightarrow> string \<Rightarrow> int \<Rightarrow> nat \<Rightarrow> ('l, int) zkx"
  zoo_adelete :: "'l caller \<Rightarrow> int option \<Rightarrow> string \<Rightarrow> int \<Rightarrow> nat \<Rightarrow> ('l, int) zkx"
  zoo_aget_children :: "'l caller \<Rightarrow> int option \<Rightarrow> string \<Rightarrow> bool \<Rightarrow> nat \<Rightarrow> ('l, int) zkx"
  zoo_awget_children :: "'l caller \<Rightarrow> int option \<Rightarrow> string \<Rightarrow> hook \<Rightarrow> nat \<Rightarrow> ('l, int) zkx"
  zoo_time :: "('l, int) zkx"
  zoo_error :: "int \<Rightarrow> string"

text \<open>
  The environment of a client: the library, its constants, what the watch callbacks of the user do, and how deep calls of \<^verbatim>\<open>connect\<close> may nest before the
  stack is exhausted (\<^verbatim>\<open>connect\<close> processes events, and an expired session connects again).
\<close>

record 'l zkenv =
  ze_lib :: "'l zoolib"
  ze_k :: zoo_consts
  ze_user :: "nat \<Rightarrow> string \<Rightarrow> event_type \<Rightarrow> nat \<Rightarrow> ('l, unit) zkx"
  ze_depth :: nat

definition ZOK :: int where
  "ZOK = 0"

definition ZNONODE :: int where
  "ZNONODE = - 101"

section \<open>Codes\<close>

definition eventTypeConvert :: "zoo_consts \<Rightarrow> int \<Rightarrow> event_type" where
  "eventTypeConvert k t =
     (if t = ZOO_CREATED_EVENT k then EVENT_CREATED
      else if t = ZOO_DELETED_EVENT k then EVENT_DELETED
      else if t = ZOO_CHANGED_EVENT k then EVENT_CHANGED
      else if t = ZOO_CHILD_EVENT k then EVENT_CHILD
      else if t = ZOO_NOTWATCHING_EVENT k then EVENT_NOTWATCHING
      else EVENT_UNKNOWN)"

definition eventTypeToString :: "event_type \<Rightarrow> string" where
  "eventTypeToString e = (case e of
     EVENT_CREATED \<Rightarrow> ''CREATED'' | EVENT_DELETED \<Rightarrow> ''DELETED'' | EVENT_CHANGED \<Rightarrow> ''CHANGED''
   | EVENT_CHILD \<Rightarrow> ''CHILD'' | EVENT_NOTWATCHING \<Rightarrow> ''NOTWATCHING'' | EVENT_UNKNOWN \<Rightarrow> ''UNKNOWN'')"

definition zk_error_table :: "(int \<times> string) list" where
  "zk_error_table =
    [(1001, ''ZSYSTEMERROR''), (1002, ''ZRUNTIMEINCONSISTENCY''), (1003, ''ZDATAINCONSISTENCY''), (1004, ''ZCONNECTIONLOSS''),
     (1005, ''ZMARSHALLINGERROR''), (1006, ''ZUNIMPLEMENTED''), (1007, ''ZOPERATIONTIMEOUT''), (1008, ''ZBADARGUMENTS''),
     (1009, ''ZINVALIDSTATE''), (1100, ''ZAPIERROR''), (1101, ''ZNONODE''), (1102, ''ZNOAUTH''), (1103, ''ZBADVERSION''),
     (1108, ''ZNOCHILDRENFOREPHEMERALS''), (1110, ''ZNODEEXISTS''), (1111, ''ZNOTEMPTY''), (1112, ''ZSESSIONEXPIRED''),
     (1113, ''ZINVALIDCALLBACK''), (1114, ''ZINVALIDACL''), (1115, ''ZAUTHFAILED''), (1116, ''ZCLOSING''), (1117, ''ZNOTHING''),
     (1118, ''ZSESSIONMOVED'')]"

text \<open>\<^verbatim>\<open>throw_from_zkcode\<close>: the exception that is thrown; codes without a class become a system error.\<close>

definition throw_from_zkcode :: "(int \<Rightarrow> string) \<Rightarrow> int \<Rightarrow> string \<Rightarrow> gb_exn" where
  "throw_from_zkcode zerror code msg =
     (case map_of zk_error_table (- 1 * code + 1000) of
        Some name \<Rightarrow> mk_error (msg @ '': '' @ zerror code) (- 1 * code + 1000) name
      | None \<Rightarrow> mk_error (msg @ '': '' @ zerror code) 1001 ''ZSYSTEMERROR'')"

definition node_code :: "znode_type \<Rightarrow> int" where
  "node_code t = (case t of TYPE_PLAIN \<Rightarrow> 0 | TYPE_EPHEMERAL \<Rightarrow> 1 | TYPE_SEQUENCE \<Rightarrow> 2 | TYPE_EPHEM_SEQ \<Rightarrow> 3)"

definition is_sequence :: "znode_type \<Rightarrow> bool" where
  "is_sequence t \<longleftrightarrow> node_code t AND node_code TYPE_SEQUENCE \<noteq> 0"

definition flagsFromNodeType :: "zoo_consts \<Rightarrow> znode_type \<Rightarrow> int" where
  "flagsFromNodeType k t = (case t of
     TYPE_EPHEMERAL \<Rightarrow> ZOO_EPHEMERAL k | TYPE_SEQUENCE \<Rightarrow> ZOO_SEQUENCE k
   | TYPE_EPHEM_SEQ \<Rightarrow> ZOO_EPHEMERAL k OR ZOO_SEQUENCE k | TYPE_PLAIN \<Rightarrow> 0)"

section \<open>Paths\<close>

definition normalize_path :: "string \<Rightarrow> string" where
  "normalize_path path =
     (let res = canonicalize_path path in if length res \<ge> 2 \<and> last res = CHR ''/'' then butlast res else res)"

definition join_paths :: "string \<Rightarrow> string \<Rightarrow> string" where
  "join_paths path1 path2 = normalize_path (path1 @ ''/'' @ path2)"

section \<open>Completions\<close>

text \<open>
  The callbacks of the calls. The stat of a call is that of the object, the other results are in its context, which is on the stack of the member that made
  the call.
\<close>

definition put_context :: "nat \<Rightarrow> (sync_context \<Rightarrow> sync_context) \<Rightarrow> ('l, unit) zkx" where
  "put_context i f = (\<lambda>s. case zk_contexts s i of
     None \<Rightarrow> Some (Inl NullDereference, s)
   | Some c \<Rightarrow> Some (Inr (), s\<lparr>zk_contexts := (zk_contexts s)(i \<mapsto> f c)\<rparr>))"

definition SyncCallback :: "int \<Rightarrow> nat \<Rightarrow> ('l, unit) zkx" where
  "SyncCallback rc i = put_context i (\<lambda>c. c\<lparr>sc_rc := rc, sc_done := True\<rparr>)"

definition StatCallback :: "int \<Rightarrow> zstat option \<Rightarrow> nat \<Rightarrow> ('l, unit) zkx" where
  "StatCallback rc st i =
     px_then (case st of None \<Rightarrow> px_return () | Some v \<Rightarrow> px_then (put_context i id) (px_modify (\<lambda>s. s\<lparr>zk_stat := v\<rparr>)))
     (SyncCallback rc i)"

definition DataCallback :: "int \<Rightarrow> string option \<Rightarrow> zstat option \<Rightarrow> nat \<Rightarrow> ('l, unit) zkx" where
  "DataCallback rc v st i =
     px_then (case v of None \<Rightarrow> px_return () | Some d \<Rightarrow> put_context i (\<lambda>c. c\<lparr>sc_data := d\<rparr>))
     (StatCallback rc st i)"

definition PathCallback :: "int \<Rightarrow> string option \<Rightarrow> nat \<Rightarrow> ('l, unit) zkx" where
  "PathCallback rc v i =
     px_then (case v of None \<Rightarrow> px_return () | Some p \<Rightarrow> put_context i (\<lambda>c. c\<lparr>sc_path := c_str p\<rparr>))
     (SyncCallback rc i)"

definition ChildrenCallback :: "int \<Rightarrow> string list option \<Rightarrow> nat \<Rightarrow> ('l, unit) zkx" where
  "ChildrenCallback rc v i =
     px_then (case v of None \<Rightarrow> px_return () | Some ns \<Rightarrow> put_context i (\<lambda>c. c\<lparr>sc_children := sc_children c @ map c_str ns\<rparr>))
     (SyncCallback rc i)"

definition complete :: "nat \<Rightarrow> int \<Rightarrow> completion \<Rightarrow> ('l, unit) zkx" where
  "complete i rc c = (case c of
     VoidDone \<Rightarrow> SyncCallback rc i
   | StatDone st \<Rightarrow> StatCallback rc st i
   | DataDone v st \<Rightarrow> DataCallback rc v st i
   | StringDone v \<Rightarrow> PathCallback rc v i
   | StringsDone v \<Rightarrow> ChildrenCallback rc v i)"

section \<open>Watches\<close>

text \<open>
  \<^verbatim>\<open>trampoline\<close>: calls the function of the user, whose exceptions end here, and deletes its own context. A null path makes the constructor of the text throw
  before the function is called.
\<close>

definition trampoline :: "'l zkenv \<Rightarrow> int \<Rightarrow> int \<Rightarrow> string option \<Rightarrow> nat \<Rightarrow> ('l, unit) zkx" where
  "trampoline env type state path tid =
     (if type = ZOO_SESSION_EVENT (ze_k env) then px_return ()
      else px_bind (px_get (\<lambda>s. zk_trampolines s tid)) (\<lambda>t. case t of
        None \<Rightarrow> px_throw NullDereference
      | Some c \<Rightarrow>
          px_then
            (px_catch
               (case path of None \<Rightarrow> px_throw (StdError ''basic_string::_S_construct null not valid'')
                | Some p \<Rightarrow> ze_user env (tc_callback c) p (eventTypeConvert (ze_k env) type) (tc_context c))
               (\<lambda>e. if e = NullDereference then px_throw e else px_return ()))
            (px_modify (\<lambda>s. s\<lparr>zk_trampolines := (zk_trampolines s)(tid := None)\<rparr>))))"

text \<open>\<^verbatim>\<open>Watcher\<close>, the watch of the session and of the calls without a function of their own; \<open>con\<close> is \<^verbatim>\<open>connect\<close>.\<close>

definition Watcher :: "'l zkenv \<Rightarrow> ('l, unit) zkx \<Rightarrow> int \<Rightarrow> int \<Rightarrow> string option \<Rightarrow> ('l, unit) zkx" where
  "Watcher env con type state path =
     px_then (px_modify (\<lambda>s. s\<lparr>zk_connected := (state = ZOO_CONNECTED_STATE (ze_k env))\<rparr>))
     (if type = ZOO_SESSION_EVENT (ze_k env) then
        px_bind (px_get zk_handle) (\<lambda>h.
        if state = ZOO_EXPIRED_SESSION_STATE (ze_k env) \<and> h \<noteq> None then
          px_then (zoo_close (ze_lib env) h)
          (px_then (px_modify (\<lambda>s. s\<lparr>zk_handle := None, zk_client_id := None\<rparr>)) con)
        else px_return ())
      else (case path of
        None \<Rightarrow> px_throw NullDereference
      | Some p \<Rightarrow> px_modify (\<lambda>s. s\<lparr>zk_events := zk_events s @ [\<lparr>ev_type = eventTypeConvert (ze_k env) type, ev_path = p\<rparr>]\<rparr>)))"

definition run_upcall :: "'l zkenv \<Rightarrow> ('l, unit) zkx \<Rightarrow> 'l caller" where
  "run_upcall env con u = (case u of
     Completed i rc c \<Rightarrow> complete i rc c
   | Watched Watcher_fn type state path \<Rightarrow> Watcher env con type state path
   | Watched (Trampoline_fn t) type state path \<Rightarrow> trampoline env type state path t)"

section \<open>Waiting and connecting\<close>

text \<open>\<^verbatim>\<open>yield(struct timeval *)\<close>: waits until the library has something to do, and lets it do it.\<close>

definition yield_with :: "'l zkenv \<Rightarrow> ('l, unit) zkx \<Rightarrow> ('l, unit) zkx" where
  "yield_with env con =
     px_bind (px_get zk_handle) (\<lambda>h.
     px_bind (zoo_interest (ze_lib env) h) (\<lambda>(fd, interest, tv).
     let k = ze_k env;
         r = (fd \<noteq> - 1 \<and> interest AND ZOOKEEPER_READ k \<noteq> 0);
         w = (fd \<noteq> - 1 \<and> interest AND ZOOKEEPER_WRITE k \<noteq> 0);
         fd = (if fd \<noteq> - 1 then fd else 0)
     in px_bind (zoo_select (ze_lib env) (fd + 1) r w tv) (\<lambda>(rs, ws).
        let events = (if rs then ZOOKEEPER_READ k else 0) OR (if ws then ZOOKEEPER_WRITE k else 0)
        in px_bind (zoo_process (ze_lib env) (run_upcall env con) h events) (\<lambda>_. px_return ()))))"

text \<open>\<^verbatim>\<open>connect\<close>. One look of its loop says whether to look again.\<close>

definition connect_look :: "'l zkenv \<Rightarrow> ('l, unit) zkx \<Rightarrow> int \<Rightarrow> ('l, bool) zkx" where
  "connect_look env con expires =
     px_bind (px_get zk_connected) (\<lambda>c.
     if c then px_return False
     else px_bind (zoo_time (ze_lib env)) (\<lambda>now.
          if now < expires then px_then (yield_with env con) (px_return True) else px_return False))"

definition connect_body :: "'l zkenv \<Rightarrow> ('l, unit) zkx \<Rightarrow> ('l, unit) zkx" where
  "connect_body env con =
     px_bind (px_get (\<lambda>s. s)) (\<lambda>s.
     if zk_connected s then px_return ()
     else px_bind (zoo_init (ze_lib env) (c_str (zk_connection s)) Watcher_fn (zk_timeout s) (zk_client_id s)) (\<lambda>h.
       px_then (px_modify (\<lambda>s. s\<lparr>zk_handle := h\<rparr>))
       (px_bind (zoo_time (ze_lib env)) (\<lambda>now.
        px_then (repeat_until (while_again (connect_look env con (now + zk_timeout s sdiv 1000))))
        (px_bind (px_get zk_connected) (\<lambda>c.
         if \<not> c then px_throw (ERR_INTERNAL_SERVER_ERROR (''Failed to connect to ZooKeeper instance on: '' @ zk_connection s))
         else px_bind (px_get zk_handle) (\<lambda>h.
              px_bind (zoo_client_id (ze_lib env) h) (\<lambda>cid.
              px_modify (\<lambda>s. s\<lparr>zk_client_id := cid\<rparr>)))))))))"

primrec connect_in :: "'l zkenv \<Rightarrow> nat \<Rightarrow> ('l, unit) zkx" where
  "connect_in env 0 = (\<lambda>s. None)"
| "connect_in env (Suc n) = connect_body env (connect_in env n)"

definition zk_connect :: "'l zkenv \<Rightarrow> ('l, unit) zkx" where
  "zk_connect env = connect_in env (ze_depth env)"

definition zk_yield :: "'l zkenv \<Rightarrow> ('l, unit) zkx" where
  "zk_yield env = yield_with env (zk_connect env)"

text \<open>
  \<^verbatim>\<open>yield(int)\<close>: the time that is left is computed after every round. The assignment to \<^verbatim>\<open>tv\<close> in the loop has no effect, since the next round overwrites it.
\<close>

definition zk_yield_for :: "'l zkenv \<Rightarrow> int \<Rightarrow> ('l, unit) zkx" where
  "zk_yield_for env timeout =
     px_bind (zoo_time (ze_lib env)) (\<lambda>now.
     if timeout \<ge> 0
     then repeat_until (while_again (px_then (zk_yield env) (px_bind (zoo_time (ze_lib env)) (\<lambda>t. px_return (now + timeout - t \<ge> 0)))))
     else px_return ())"

definition zk_sync :: "'l zkenv \<Rightarrow> nat \<Rightarrow> ('l, unit) zkx" where
  "zk_sync env i = repeat_until (while_again (px_then (zk_yield env)
     (px_get (\<lambda>s. case zk_contexts s i of Some c \<Rightarrow> \<not> sc_done c | None \<Rightarrow> True))))"

section \<open>Construction and destruction\<close>

definition new_zk :: "string \<Rightarrow> int \<Rightarrow> 'l \<Rightarrow> 'l zk" where
  "new_zk connection timeout l =
     \<lparr>zk_handle = None, zk_events = [], zk_connected = False, zk_timeout = timeout, zk_connection = connection, zk_client_id = None,
      zk_stat = zero_stat, zk_contexts = (\<lambda>_. None), zk_trampolines = (\<lambda>_. None), zk_next = 0, zk_lib = l\<rparr>"

definition ZooKeeper_new :: "'l zkenv \<Rightarrow> string \<Rightarrow> int \<Rightarrow> 'l \<Rightarrow> ((gb_exn + unit) \<times> 'l zk) option" where
  "ZooKeeper_new env connection timeout l = zk_connect env (new_zk connection timeout l)"

definition ZooKeeper_delete :: "'l zkenv \<Rightarrow> ('l, unit) zkx" where
  "ZooKeeper_delete env = px_bind (px_get zk_handle) (\<lambda>h. if h \<noteq> None then zoo_close (ze_lib env) h else px_return ())"

section \<open>Calls\<close>

text \<open>A context lives as long as the member that has it on its stack, whether it returns or throws.\<close>

definition with_context :: "sync_context \<Rightarrow> (nat \<Rightarrow> ('l, 'a) zkx) \<Rightarrow> ('l, 'a) zkx" where
  "with_context c body = (\<lambda>s.
     let i = zk_next s in
     case body i (s\<lparr>zk_next := Suc i, zk_contexts := (zk_contexts s)(i \<mapsto> c)\<rparr>) of
       None \<Rightarrow> None
     | Some (r, s') \<Rightarrow> Some (r, s'\<lparr>zk_contexts := (zk_contexts s')(i := None)\<rparr>))"

text \<open>What all calls share: the request is made, a code other than zero is thrown, and the client waits for the completion.\<close>

definition zk_call :: "'l zkenv \<Rightarrow> sync_context \<Rightarrow> string \<Rightarrow> ('l caller \<Rightarrow> int option \<Rightarrow> nat \<Rightarrow> ('l, int) zkx)
    \<Rightarrow> ('l, sync_context) zkx" where
  "zk_call env c label request =
     with_context c (\<lambda>i.
       px_bind (px_get zk_handle) (\<lambda>h.
       px_bind (request (run_upcall env (zk_connect env)) h i) (\<lambda>zc.
       if zc \<noteq> ZOK then px_throw (throw_from_zkcode (zoo_error (ze_lib env)) zc label)
       else px_then (zk_sync env i)
         (\<lambda>s. case zk_contexts s i of None \<Rightarrow> Some (Inl NullDereference, s) | Some c \<Rightarrow> Some (Inr c, s)))))"

definition zk_check :: "'l zkenv \<Rightarrow> string \<Rightarrow> sync_context \<Rightarrow> ('l, sync_context) zkx" where
  "zk_check env msg c =
     (if sc_rc c = ZOK then px_return c else px_throw (throw_from_zkcode (zoo_error (ze_lib env)) (sc_rc c) msg))"

definition new_trampoline :: "nat \<Rightarrow> nat \<Rightarrow> ('l, hook) zkx" where
  "new_trampoline callback context = (\<lambda>s.
     Some (Inr (Trampoline_fn (zk_next s)),
       s\<lparr>zk_next := Suc (zk_next s),
         zk_trampolines := (zk_trampolines s)(zk_next s \<mapsto> \<lparr>tc_callback = callback, tc_context = context\<rparr>)\<rparr>))"

definition zk_exists :: "'l zkenv \<Rightarrow> string \<Rightarrow> bool \<Rightarrow> ('l, bool) zkx" where
  "zk_exists env path watch =
     (let npath = normalize_path path in
      px_then (zk_connect env)
      (px_bind (zk_call env (SyncContext ''exists'') ''zoo_aexists'' (\<lambda>call h i. zoo_aexists (ze_lib env) call h (c_str npath) watch i)) (\<lambda>c.
       px_return (sc_rc c = ZOK))))"

definition zk_exists_cb :: "'l zkenv \<Rightarrow> string \<Rightarrow> nat \<Rightarrow> nat \<Rightarrow> ('l, bool) zkx" where
  "zk_exists_cb env path callback context =
     (let npath = normalize_path path in
      px_then (zk_connect env)
      (px_bind (zk_call env (SyncContext ''exists'') ''zoo_awexists'' (\<lambda>call h i.
         px_bind (new_trampoline callback context) (\<lambda>hook. zoo_awexists (ze_lib env) call h (c_str npath) hook i))) (\<lambda>c.
       px_return (sc_rc c = ZOK))))"

definition zk_last_stat :: "('l, zstat) zkx" where
  "zk_last_stat = px_get zk_stat"

definition zk_stat_path :: "'l zkenv \<Rightarrow> string \<Rightarrow> ('l, zstat) zkx" where
  "zk_stat_path env path = px_then (zk_exists env path False) (px_get zk_stat)"

text \<open>\<^verbatim>\<open>std::string::resize\<close> with the length of a stat, which may be negative.\<close>

definition str_resize :: "int \<Rightarrow> string \<Rightarrow> ('l, string) zkx" where
  "str_resize n d =
     (if n < 0 then px_throw (StdError ''basic_string::resize'')
      else px_return (take (nat n) d @ replicate (nat n - length d) (CHR 0x00)))"

text \<open>
  \<^verbatim>\<open>get\<close> gives the text the caller's variable has when the call succeeds; \<open>data\<close> is what was in it.
\<close>

definition get_with :: "'l zkenv \<Rightarrow> string \<Rightarrow> string \<Rightarrow> string \<Rightarrow> ('l caller \<Rightarrow> int option \<Rightarrow> string \<Rightarrow> nat \<Rightarrow> ('l, int) zkx) \<Rightarrow> ('l, string) zkx" where
  "get_with env path data label request =
     (let npath = normalize_path path; msg = ''failed to get '' @ npath in
      px_then (zk_connect env)
      (px_bind (zk_exists env npath False) (\<lambda>there.
       if there then
         px_bind (px_get (\<lambda>s. zs_dataLength (zk_stat s))) (\<lambda>len.
         px_bind (str_resize len data) (\<lambda>d.
         px_bind (zk_call env ((SyncContext ''get'')\<lparr>sc_data := d\<rparr>) label (\<lambda>call h i. request call h (c_str npath) i)) (\<lambda>c.
         px_bind (zk_check env msg c) (\<lambda>c. px_return (sc_data c)))))
       else px_throw (throw_from_zkcode (zoo_error (ze_lib env)) ZNONODE msg))))"

definition zk_get :: "'l zkenv \<Rightarrow> string \<Rightarrow> string \<Rightarrow> bool \<Rightarrow> ('l, string) zkx" where
  "zk_get env path data watch =
     get_with env path data ''zoo_aget'' (\<lambda>call h p i. zoo_aget (ze_lib env) call h p watch i)"

definition zk_get_cb :: "'l zkenv \<Rightarrow> string \<Rightarrow> string \<Rightarrow> nat \<Rightarrow> nat \<Rightarrow> ('l, string) zkx" where
  "zk_get_cb env path data callback context =
     get_with env path data ''zoo_awget'' (\<lambda>call h p i.
       px_bind (new_trampoline callback context) (\<lambda>hook. zoo_awget (ze_lib env) call h p hook i))"

definition zk_set :: "'l zkenv \<Rightarrow> string \<Rightarrow> string \<Rightarrow> int \<Rightarrow> ('l, unit) zkx" where
  "zk_set env path data version =
     (let npath = normalize_path path in
      px_then (zk_connect env)
      (px_bind (zk_call env (SyncContext ''set'') ''zoo_aset'' (\<lambda>call h i. zoo_aset (ze_lib env) call h (c_str npath) data version i)) (\<lambda>c.
       px_then (zk_check env (''failed to set '' @ npath) c) (px_return ()))))"

definition create_with :: "'l zkenv \<Rightarrow> string \<Rightarrow> string \<Rightarrow> znode_type \<Rightarrow> ('l, sync_context) zkx" where
  "create_with env path data type =
     (let npath = normalize_path path in
      px_then (zk_connect env)
      (px_bind (zk_call env (SyncContext ''create'') ''zoo_acreate''
          (\<lambda>call h i. zoo_acreate (ze_lib env) call h (c_str npath) data (flagsFromNodeType (ze_k env) type) i))
       (zk_check env (''failed to create '' @ npath))))"

text \<open>The overload that may change the path of its caller gives the path it leaves there; the other one has none to give.\<close>

definition zk_create :: "'l zkenv \<Rightarrow> string \<Rightarrow> string \<Rightarrow> znode_type \<Rightarrow> ('l, string) zkx" where
  "zk_create env path data type =
     px_bind (create_with env path data type) (\<lambda>c. px_return (if is_sequence type then sc_path c else path))"

definition zk_create_const :: "'l zkenv \<Rightarrow> string \<Rightarrow> string \<Rightarrow> znode_type \<Rightarrow> ('l, unit) zkx" where
  "zk_create_const env path data type = px_then (create_with env path data type) (px_return ())"

definition zk_del :: "'l zkenv \<Rightarrow> string \<Rightarrow> int \<Rightarrow> ('l, unit) zkx" where
  "zk_del env path version =
     (let npath = normalize_path path in
      px_then (zk_connect env)
      (px_bind (zk_call env (SyncContext ''delete'') ''zoo_adelete'' (\<lambda>call h i. zoo_adelete (ze_lib env) call h (c_str npath) version i)) (\<lambda>c.
       px_then (zk_check env (''failed to delete '' @ npath) c) (px_return ()))))"

definition children_with :: "'l zkenv \<Rightarrow> string \<Rightarrow> string \<Rightarrow> ('l caller \<Rightarrow> int option \<Rightarrow> string \<Rightarrow> nat \<Rightarrow> ('l, int) zkx)
    \<Rightarrow> ('l, string list) zkx" where
  "children_with env path label request =
     (let npath = normalize_path path in
      px_then (zk_connect env)
      (px_bind (zk_call env (SyncContext ''get_children'') label (\<lambda>call h i. request call h (c_str npath) i)) (\<lambda>c.
       px_bind (zk_check env (''failed to get children for '' @ npath) c) (\<lambda>c. px_return (sc_children c)))))"

definition zk_children :: "'l zkenv \<Rightarrow> string \<Rightarrow> bool \<Rightarrow> ('l, string list) zkx" where
  "zk_children env path watch =
     children_with env path ''zoo_aget_children'' (\<lambda>call h p i. zoo_aget_children (ze_lib env) call h p watch i)"

definition zk_children_cb :: "'l zkenv \<Rightarrow> string \<Rightarrow> nat \<Rightarrow> nat \<Rightarrow> ('l, string list) zkx" where
  "zk_children_cb env path callback context =
     children_with env path ''zoo_awget_children'' (\<lambda>call h p i.
       px_bind (new_trampoline callback context) (\<lambda>hook. zoo_awget_children (ze_lib env) call h p hook i))"

section \<open>Events\<close>

definition countEvents :: "'l zk \<Rightarrow> nat" where
  "countEvents s = length (zk_events s) mod 2 ^ 32"

definition nextEvent :: "('l, zevent option) zkx" where
  "nextEvent = (\<lambda>s. case zk_events s of
     [] \<Rightarrow> Some (Inr None, s)
   | e # es \<Rightarrow> Some (Inr (Some e), s\<lparr>zk_events := es\<rparr>))"

section \<open>Whole paths\<close>

text \<open>
  \<^verbatim>\<open>createFullPath\<close> over the two members it calls: a node is made for every beginning of the path that ends before a slash, and for the path.
  (For the beginnings overload resolution takes the \<^verbatim>\<open>create\<close> that may change its argument, which it does not do for a plain node.)
\<close>

definition make_node :: "(string \<Rightarrow> ('s, 'e, bool) px) \<Rightarrow> (string \<Rightarrow> ('s, 'e, unit) px) \<Rightarrow> string \<Rightarrow> ('s, 'e, unit) px" where
  "make_node ex cr p = px_bind (ex p) (\<lambda>there. if there then px_return () else cr p)"

function full_path_loop :: "(string \<Rightarrow> ('s, 'e, bool) px) \<Rightarrow> (string \<Rightarrow> ('s, 'e, unit) px) \<Rightarrow> string \<Rightarrow> nat \<Rightarrow> ('s, 'e, unit) px" where
  "full_path_loop ex cr path pos =
     (case str_find_if_from (\<lambda>c. c = CHR ''/'') pos path of
        None \<Rightarrow> px_return ()
      | Some p \<Rightarrow>
          px_then (if take p path \<noteq> [] \<and> take p path \<noteq> ''/'' then make_node ex cr (take p path) else px_return ())
          (full_path_loop ex cr path (p + 1)))"
  by pat_completeness auto
termination
proof (relation "measure (\<lambda>(ex, cr, path, pos). length path - pos)")
  fix path pos p
  assume "str_find_if_from (\<lambda>c. c = CHR ''/'') pos path = Some p"
  then obtain i where "str_find_if (\<lambda>c. c = CHR ''/'') (drop pos path) = Some i" "p = pos + i"
    by (auto simp: str_find_if_from_def)
  then show "((ex, cr, path, p + 1), ex, cr, path, pos) \<in> measure (\<lambda>(ex, cr, path, pos). length path - pos)"
    for ex :: "string \<Rightarrow> ('a, 'b, bool) px" and cr
    using str_find_if_Some by fastforce
qed simp

declare full_path_loop.simps [simp del]

definition create_full_path :: "(string \<Rightarrow> ('s, 'e, bool) px) \<Rightarrow> (string \<Rightarrow> ('s, 'e, unit) px) \<Rightarrow> string \<Rightarrow> ('s, 'e, unit) px" where
  "create_full_path ex cr path = px_then (full_path_loop ex cr path 0) (make_node ex cr path)"

definition zk_createFullPath :: "'l zkenv \<Rightarrow> string \<Rightarrow> ('l, unit) zkx" where
  "zk_createFullPath env = create_full_path (\<lambda>p. zk_exists env p False) (\<lambda>p. zk_create_const env p [] TYPE_PLAIN)"

end
