(* ===== verification/GB_ZooStub.thy ===== *)
theory GB_ZooStub
  imports GB_ZooKeeper "HOL-Library.Multiset"
begin

text \<open>
  \<^verbatim>\<open>common/stub/zookeeper.hh\<close>, which takes the place of the ZooKeeper library in the unit tests: the nodes are directories below \<^verbatim>\<open>./.zookeeper\<close> with their data
  in a file \<^verbatim>\<open>.content\<close>, and every call is completed before it returns. The file system is a map from paths to directories and files; a listing of a
  directory is in the order of the map. The clock is a parameter of the state: \<open>st_clock n\<close> is what its n-th reading gives.
\<close>

section \<open>Data\<close>

datatype fsnode = FDir | FFile string

record zoo_event =
  zev_type :: int
  zev_state :: int
  zev_path :: "string option"

record zoo_callback =
  cb_fn :: hook
  cb_type :: int
  cb_txn :: int

record stub =
  st_fs :: "(string list, fsnode) smap"
  st_queue :: "zoo_event list"
  st_watchers :: "(string, zoo_callback) smap"
  st_txnIds :: "(string, int) smap"
  st_versions :: "(string, int) smap"
  st_txn_id :: int
  st_cid :: int
  st_clock :: "nat \<Rightarrow> int"
  st_readings :: nat
  st_garbage :: zstat

type_synonym 'a stubx = "(stub, 'a) zkx"

definition lib_get :: "(stub \<Rightarrow> 'a) \<Rightarrow> 'a stubx" where
  "lib_get f = px_get (\<lambda>s. f (zk_lib s))"

definition lib_do :: "(stub \<Rightarrow> stub) \<Rightarrow> unit stubx" where
  "lib_do f = px_modify (\<lambda>s. s\<lparr>zk_lib := f (zk_lib s)\<rparr>)"

definition W_ANY :: int where "W_ANY = 0"

definition W_CREATE :: int where "W_CREATE = 1"

definition W_DELETE :: int where "W_DELETE = 2"

definition W_CHANGE :: int where "W_CHANGE = 4"

definition W_CHILD :: int where "W_CHILD = 8"

definition ZNODEEXISTS :: int where "ZNODEEXISTS = - 110"

definition ZNOTEMPTY :: int where "ZNOTEMPTY = - 111"

section \<open>The file system\<close>

text \<open>
  A path of the file system as its parts. \<^verbatim>\<open>exists\<close>, \<^verbatim>\<open>is_directory\<close>, \<^verbatim>\<open>create_directory\<close>, \<^verbatim>\<open>remove_all\<close>, \<^verbatim>\<open>file_size\<close> and the iterator of
  boost; an \<^verbatim>\<open>ofstream\<close> that cannot be zk_opened does nothing.
\<close>

definition fs_path :: "string \<Rightarrow> string list" where
  "fs_path p = canon_parts [] (str_split (CHR ''/'') p)"

definition fs_at :: "stub \<Rightarrow> string \<Rightarrow> fsnode option" where
  "fs_at l p = smap_find (st_fs l) (fs_path p)"

definition fs_error :: "string \<Rightarrow> string \<Rightarrow> gb_exn" where
  "fs_error what p = StdError (''boost::filesystem::'' @ what @ '': '' @ p)"

definition names_in :: "(string list, fsnode) smap \<Rightarrow> string list \<Rightarrow> string list" where
  "names_in fs d = map (last \<circ> fst) (filter (\<lambda>(k, _). k \<noteq> [] \<and> butlast k = d) fs)"

definition listed :: "stub \<Rightarrow> string \<Rightarrow> string list" where
  "listed l p = filter (\<lambda>n. take 1 n \<noteq> ''.'') (names_in (st_fs l) (fs_path p))"

definition count_children :: "stub \<Rightarrow> string \<Rightarrow> int" where
  "count_children l p = (if fs_at l p = Some FDir then int (length (listed l p)) else 0)"

definition create_directory :: "string \<Rightarrow> unit stubx" where
  "create_directory p =
     px_bind (lib_get (\<lambda>l. l)) (\<lambda>l.
     if fs_at l p = Some FDir then px_return ()
     else if fs_at l p = None \<and> smap_find (st_fs l) (butlast (fs_path p)) = Some FDir
          then lib_do (\<lambda>l. l\<lparr>st_fs := smap_put (fs_path p) FDir (st_fs l)\<rparr>)
          else px_throw (fs_error ''create_directory'' p))"

definition is_under :: "string list \<Rightarrow> string list \<Rightarrow> bool" where
  "is_under d k \<longleftrightarrow> take (length d) k = d"

definition remove_all :: "string \<Rightarrow> unit stubx" where
  "remove_all p = lib_do (\<lambda>l. l\<lparr>st_fs := filter (\<lambda>(k, _). \<not> is_under (fs_path p) k) (st_fs l)\<rparr>)"

definition file_put :: "string \<Rightarrow> string \<Rightarrow> unit stubx" where
  "file_put p d =
     px_bind (lib_get (\<lambda>l. l)) (\<lambda>l.
     if smap_find (st_fs l) (butlast (fs_path p)) = Some FDir \<and> fs_at l p \<noteq> Some FDir
     then lib_do (\<lambda>l. l\<lparr>st_fs := smap_put (fs_path p) (FFile d) (st_fs l)\<rparr>)
     else px_return ())"

definition file_text :: "string \<Rightarrow> string stubx" where
  "file_text p = px_bind (lib_get (\<lambda>l. fs_at l p)) (\<lambda>n. case n of
     Some (FFile d) \<Rightarrow> px_return d
   | _ \<Rightarrow> px_throw (fs_error ''file_size'' p))"

text \<open>\<^verbatim>\<open>bfs::path::parent_path\<close> of the paths that occur: what is before the last slash, or the root.\<close>

definition parent_path :: "string \<Rightarrow> string" where
  "parent_path p = (case str_rfind_if (\<lambda>c. c = CHR ''/'') p of
     None \<Rightarrow> []
   | Some 0 \<Rightarrow> (if length p = 1 then [] else ''/'')
   | Some i \<Rightarrow> take i p)"

definition node_dir :: "string \<Rightarrow> string" where
  "node_dir path = ''./.zookeeper'' @ path"

section \<open>Events and watches\<close>

definition addEvent :: "string \<Rightarrow> int \<Rightarrow> zoo_event \<Rightarrow> stub \<Rightarrow> stub" where
  "addEvent path type evt l = (case smap_find (st_watchers l) path of
     None \<Rightarrow> l
   | Some cb \<Rightarrow> (if st_txn_id l > cb_txn cb \<and> cb_type cb AND type \<noteq> 0 then l\<lparr>st_queue := st_queue l @ [evt]\<rparr> else l))"

definition ZooEvent :: "zoo_consts \<Rightarrow> int \<Rightarrow> string option \<Rightarrow> zoo_event" where
  "ZooEvent k t p = \<lparr>zev_type = t, zev_state = ZOO_CONNECTED_STATE k, zev_path = p\<rparr>"

definition addCreateEvent :: "zoo_consts \<Rightarrow> string \<Rightarrow> stub \<Rightarrow> stub" where
  "addCreateEvent k path l =
     (let parent = parent_path path
      in addEvent parent W_CHILD (ZooEvent k (ZOO_CHILD_EVENT k) (Some parent))
           (addEvent path W_CREATE (ZooEvent k (ZOO_CREATED_EVENT k) (Some path)) l))"

definition addDeleteEvent :: "zoo_consts \<Rightarrow> string \<Rightarrow> stub \<Rightarrow> stub" where
  "addDeleteEvent k path l =
     (let parent = parent_path path
      in addEvent parent W_CHILD (ZooEvent k (ZOO_CHILD_EVENT k) (Some parent))
           (addEvent path W_DELETE (ZooEvent k (ZOO_DELETED_EVENT k) (Some path)) l))"

definition addUpdateEvent :: "zoo_consts \<Rightarrow> string \<Rightarrow> stub \<Rightarrow> stub" where
  "addUpdateEvent k path l = addEvent path W_CHANGE (ZooEvent k (ZOO_CHANGED_EVENT k) (Some path)) l"

definition set_watch :: "string \<Rightarrow> hook \<Rightarrow> int \<Rightarrow> stub \<Rightarrow> stub" where
  "set_watch path fn type l =
     l\<lparr>st_watchers := smap_put path \<lparr>cb_fn = fn, cb_type = type, cb_txn = st_txn_id l\<rparr> (st_watchers l)\<rparr>"

text \<open>The watch of a call that asks for one without a function of its own: that of \<^verbatim>\<open>zookeeper_init\<close>.\<close>

definition global_watch :: "bool \<Rightarrow> string \<Rightarrow> int \<Rightarrow> unit stubx" where
  "global_watch watch path type =
     (if \<not> watch then px_return ()
      else px_bind (lib_get (\<lambda>l. smap_find (st_watchers l) [])) (\<lambda>g. case g of
        None \<Rightarrow> px_throw NullDereference
      | Some cb \<Rightarrow> lib_do (set_watch path (cb_fn cb) type)))"

section \<open>Session\<close>

definition stub_time :: "int stubx" where
  "stub_time = px_bind (lib_get (\<lambda>l. st_clock l (st_readings l))) (\<lambda>t.
     px_then (lib_do (\<lambda>l. l\<lparr>st_readings := Suc (st_readings l)\<rparr>)) (px_return t))"

definition stub_init :: "zoo_consts \<Rightarrow> string \<Rightarrow> hook \<Rightarrow> int \<Rightarrow> int option \<Rightarrow> int option stubx" where
  "stub_init k host fn recv_timeout clientid =
     px_then (lib_do (\<lambda>l. set_watch [] fn W_ANY
       (l\<lparr>st_cid := 1234, st_queue := st_queue l @ [ZooEvent k (ZOO_SESSION_EVENT k) None]\<rparr>)))
     (px_return (Some 1))"

definition stub_client_id :: "int option \<Rightarrow> int option stubx" where
  "stub_client_id zh = lib_get (\<lambda>l. Some (st_cid l))"

definition stub_close :: "int option \<Rightarrow> unit stubx" where
  "stub_close zh = px_return ()"

definition stub_interest :: "int option \<Rightarrow> (int \<times> int \<times> (int \<times> int)) stubx" where
  "stub_interest zh = px_return (5, 5, (0, 0))"

definition stub_select :: "int \<Rightarrow> bool \<Rightarrow> bool \<Rightarrow> int \<times> int \<Rightarrow> (bool \<times> bool) stubx" where
  "stub_select nfds r w tv = px_return (r, w)"

definition event_mask :: "zoo_consts \<Rightarrow> int \<Rightarrow> int" where
  "event_mask k t =
     (if t = ZOO_CREATED_EVENT k then W_CREATE else if t = ZOO_DELETED_EVENT k then W_DELETE
      else if t = ZOO_CHANGED_EVENT k then W_CHANGE else if t = ZOO_CHILD_EVENT k then W_CHILD else W_ANY)"

text \<open>
  One round of \<^verbatim>\<open>zookeeper_process\<close>. The watch of the path is removed after its function has been called; erasing the iterator is undefined when the function
  has made it go.
\<close>

definition fire_global :: "stub caller \<Rightarrow> zoo_event \<Rightarrow> unit stubx" where
  "fire_global call e = px_bind (lib_get (\<lambda>l. smap_find (st_watchers l) [])) (\<lambda>g. case g of
     None \<Rightarrow> px_return ()
   | Some cb \<Rightarrow> call (Watched (cb_fn cb) (zev_type e) (zev_state e) (zev_path e)))"

definition erase_watch :: "string \<Rightarrow> unit stubx" where
  "erase_watch p = px_bind (lib_get (\<lambda>l. smap_find (st_watchers l) p)) (\<lambda>w. case w of
     None \<Rightarrow> px_throw NullDereference
   | Some _ \<Rightarrow> lib_do (\<lambda>l. l\<lparr>st_watchers := smap_erase p (st_watchers l)\<rparr>))"

definition fire :: "zoo_consts \<Rightarrow> stub caller \<Rightarrow> zoo_event \<Rightarrow> unit stubx" where
  "fire k call e = (case zev_path e of
     None \<Rightarrow> fire_global call e
   | Some p \<Rightarrow> px_bind (lib_get (\<lambda>l. smap_find (st_watchers l) p)) (\<lambda>w. case w of
       None \<Rightarrow> fire_global call e
     | Some cb \<Rightarrow>
         (if cb_type cb AND event_mask k (zev_type e) \<noteq> 0
          then px_then (call (Watched (cb_fn cb) (zev_type e) (zev_state e) (Some p))) (erase_watch p)
          else fire_global call e)))"

definition process_round :: "zoo_consts \<Rightarrow> stub caller \<Rightarrow> bool stubx" where
  "process_round k call = px_bind (lib_get st_queue) (\<lambda>q. case q of
     [] \<Rightarrow> px_return False
   | e # es \<Rightarrow> px_then (lib_do (\<lambda>l. l\<lparr>st_queue := es\<rparr>)) (px_then (fire k call e) (px_return True)))"

definition stub_process :: "zoo_consts \<Rightarrow> stub caller \<Rightarrow> int option \<Rightarrow> int \<Rightarrow> int stubx" where
  "stub_process k call zh evt =
     px_then (repeat_until (while_again (process_round k call))) (px_return ZOK)"

section \<open>Calls\<close>

definition map_value :: "(string, int) smap \<Rightarrow> string \<Rightarrow> int" where
  "map_value m p = (case smap_find m p of None \<Rightarrow> 0 | Some v \<Rightarrow> v)"

text \<open>The stat of a node; the members that are not assigned are what was on the stack. The clock is read twice.\<close>

definition stat_of :: "string \<Rightarrow> int \<Rightarrow> int \<Rightarrow> zstat stubx" where
  "stat_of path children len =
     px_bind stub_time (\<lambda>t1. px_bind stub_time (\<lambda>t2.
     lib_get (\<lambda>l. (st_garbage l)\<lparr>zs_numChildren := children, zs_dataLength := len, zs_mzxid := map_value (st_txnIds l) path,
       zs_version := map_value (st_versions l) path, zs_mtime := t1 * 1000, zs_ctime := t2 * 1000\<rparr>)))"

definition content_of :: "string \<Rightarrow> string stubx" where
  "content_of p = px_bind (lib_get (\<lambda>l. fs_at l (p @ ''/.content''))) (\<lambda>n.
     if n = None then px_return [] else file_text (p @ ''/.content''))"

definition stub_aexists :: "stub caller \<Rightarrow> int option \<Rightarrow> string \<Rightarrow> bool \<Rightarrow> nat \<Rightarrow> int stubx" where
  "stub_aexists call zh path watch data =
     px_then (global_watch watch path (W_CREATE OR W_DELETE OR W_CHANGE))
     (px_bind (lib_get (\<lambda>l. l)) (\<lambda>l.
      px_then
        (if fs_at l (node_dir path) \<noteq> None
         then px_bind (content_of (node_dir path)) (\<lambda>d.
              px_bind (stat_of path (count_children l (node_dir path)) (int (length d))) (\<lambda>s.
              call (Completed data ZOK (StatDone (Some s)))))
         else call (Completed data ZNONODE (StatDone None)))
        (px_return ZOK)))"

definition stub_awexists :: "stub caller \<Rightarrow> int option \<Rightarrow> string \<Rightarrow> hook \<Rightarrow> nat \<Rightarrow> int stubx" where
  "stub_awexists call zh path fn data =
     px_then (lib_do (set_watch path fn (W_CREATE OR W_DELETE OR W_CHANGE))) (stub_aexists call zh path False data)"

definition stub_aget :: "stub caller \<Rightarrow> int option \<Rightarrow> string \<Rightarrow> bool \<Rightarrow> nat \<Rightarrow> int stubx" where
  "stub_aget call zh path watch data =
     px_then (global_watch watch path (W_DELETE OR W_CHANGE))
     (px_bind (lib_get (\<lambda>l. l)) (\<lambda>l.
      px_then
        (if fs_at l (node_dir path) \<noteq> None
         then px_bind (content_of (node_dir path)) (\<lambda>d.
              px_bind (stat_of path (count_children l (node_dir path)) (int (length d))) (\<lambda>s.
              call (Completed data ZOK (DataDone (Some d) (Some s)))))
         else call (Completed data ZNONODE (DataDone None None)))
        (px_return ZOK)))"

definition stub_awget :: "stub caller \<Rightarrow> int option \<Rightarrow> string \<Rightarrow> hook \<Rightarrow> nat \<Rightarrow> int stubx" where
  "stub_awget call zh path fn data =
     px_then (lib_do (set_watch path fn (W_DELETE OR W_CHANGE))) (stub_aget call zh path False data)"

definition bump_version :: "string \<Rightarrow> stub \<Rightarrow> stub" where
  "bump_version path l =
     l\<lparr>st_txnIds := smap_put path (st_txn_id l) (st_txnIds l),
       st_versions := smap_put path (map_value (st_versions l) path + 1) (st_versions l)\<rparr>"

definition stub_aset :: "zoo_consts \<Rightarrow> stub caller \<Rightarrow> int option \<Rightarrow> string \<Rightarrow> string \<Rightarrow> int \<Rightarrow> nat \<Rightarrow> int stubx" where
  "stub_aset k call zh path buffer version data =
     px_bind (lib_get (\<lambda>l. l)) (\<lambda>l.
     px_then
       (if fs_at l (node_dir path) \<noteq> None
        then px_then (file_put (node_dir path @ ''/.content'') buffer)
             (px_then (lib_do (\<lambda>l. addUpdateEvent k path (l\<lparr>st_txn_id := st_txn_id l + 1\<rparr>)))
             (px_bind (file_text (node_dir path @ ''/.content'')) (\<lambda>d.
              px_then (lib_do (bump_version path))
              (px_bind (stat_of path (count_children l (node_dir path)) (int (length d))) (\<lambda>s.
               call (Completed data ZOK (StatDone (Some s))))))))
        else call (Completed data ZNONODE (StatDone None)))
       (px_return ZOK))"

definition setw10 :: "int \<Rightarrow> string" where
  "setw10 n = (let t = int_dec n in replicate (10 - length t) (CHR ''0'') @ t)"

definition stub_acreate :: "zoo_consts \<Rightarrow> stub caller \<Rightarrow> int option \<Rightarrow> string \<Rightarrow> string \<Rightarrow> int \<Rightarrow> nat \<Rightarrow> int stubx" where
  "stub_acreate k call zh path value flags data =
     px_bind (lib_get (\<lambda>l. l)) (\<lambda>l.
     let dir = parent_path (node_dir path) in
     px_then
       (if fs_at l (node_dir path) \<noteq> None then call (Completed data ZNODEEXISTS (StringDone None))
        else if fs_at l dir = None then call (Completed data ZNONODE (StringDone None))
        else
          let sequence = (flags AND ZOO_SEQUENCE k \<noteq> 0);
              zoopath = (if sequence then path @ setw10 (count_children l dir + 2) else path);
              p = (if sequence then ''./.zookeeper/'' @ zoopath else node_dir path)
          in px_then (lib_do (\<lambda>l. (addCreateEvent k path (l\<lparr>st_txn_id := st_txn_id l + 1\<rparr>))
                \<lparr>st_txnIds := smap_put path (st_txn_id l + 1) (st_txnIds l), st_versions := smap_put path 0 (st_versions l)\<rparr>))
             (px_then (create_directory p)
             (px_then (px_when (value \<noteq> []) (file_put (p @ ''/.content'') value))
             (call (Completed data ZOK (StringDone (Some zoopath)))))))
       (px_return ZOK))"

text \<open>Deleting a node with children reports that it is not empty, and goes on.\<close>

definition stub_adelete :: "zoo_consts \<Rightarrow> stub caller \<Rightarrow> int option \<Rightarrow> string \<Rightarrow> int \<Rightarrow> nat \<Rightarrow> int stubx" where
  "stub_adelete k call zh path version data =
     px_bind (lib_get (\<lambda>l. l)) (\<lambda>l.
     px_then
       (if fs_at l (node_dir path) \<noteq> None
        then px_then (px_when (count_children l (node_dir path) \<noteq> 0) (call (Completed data ZNOTEMPTY VoidDone)))
             (px_then (lib_do (\<lambda>l. addDeleteEvent k path (l\<lparr>st_txn_id := st_txn_id l + 1, st_versions := smap_put path (- 1) (st_versions l)\<rparr>)))
             (px_then (remove_all (node_dir path))
             (call (Completed data ZOK VoidDone))))
        else call (Completed data ZNONODE VoidDone))
       (px_return ZOK))"

definition stub_aget_children :: "stub caller \<Rightarrow> int option \<Rightarrow> string \<Rightarrow> bool \<Rightarrow> nat \<Rightarrow> int stubx" where
  "stub_aget_children call zh path watch data =
     px_then (global_watch watch path W_CHILD)
     (px_bind (lib_get (\<lambda>l. l)) (\<lambda>l.
      px_then
        (case fs_at l (node_dir path) of
           Some n \<Rightarrow> call (Completed data ZOK (StringsDone (Some (if n = FDir then listed l (node_dir path) else []))))
         | None \<Rightarrow> call (Completed data ZNONODE (StringsDone None)))
        (px_return ZOK)))"

definition stub_awget_children :: "stub caller \<Rightarrow> int option \<Rightarrow> string \<Rightarrow> hook \<Rightarrow> nat \<Rightarrow> int stubx" where
  "stub_awget_children call zh path fn data =
     px_then (lib_do (set_watch path fn W_CHILD)) (stub_aget_children call zh path False data)"

definition stub_lib :: "zoo_consts \<Rightarrow> (int \<Rightarrow> string) \<Rightarrow> stub zoolib" where
  "stub_lib k zerror =
     \<lparr>zoo_init = stub_init k, zoo_close = stub_close, zoo_client_id = stub_client_id, zoo_interest = stub_interest,
      zoo_select = stub_select, zoo_process = stub_process k, zoo_aexists = stub_aexists, zoo_awexists = stub_awexists,
      zoo_aget = stub_aget, zoo_awget = stub_awget, zoo_aset = stub_aset k, zoo_acreate = stub_acreate k, zoo_adelete = stub_adelete k,
      zoo_aget_children = stub_aget_children, zoo_awget_children = stub_awget_children, zoo_time = stub_time, zoo_error = zerror\<rparr>"

end
