(* ===== verification/GB_ZooTree.thy ===== *)
theory GB_ZooTree
  imports GB_ZooStub
begin

text \<open>
  What the ZooKeeper client promises: over the library of the unit tests it implements a tree of nodes with data. The events of the library reach the client in the order
  in which they happened, and every call finds the session as the last one left it.
\<close>

section \<open>Processing events\<close>

text \<open>
  The state of the library between two calls when only the watches without a function of the user are set: the session is up, every event says so, and an event
  without a path is one of the session.
\<close>

definition consts_ok :: "zoo_consts \<Rightarrow> bool" where
  "consts_ok k \<longleftrightarrow> ZOO_SESSION_EVENT k \<notin> {ZOO_CREATED_EVENT k, ZOO_DELETED_EVENT k, ZOO_CHANGED_EVENT k, ZOO_CHILD_EVENT k}
     \<and> ZOO_CONNECTED_STATE k \<noteq> ZOO_EXPIRED_SESSION_STATE k"

definition event_ok :: "zoo_consts \<Rightarrow> zoo_event \<Rightarrow> bool" where
  "event_ok k e \<longleftrightarrow> zev_state e = ZOO_CONNECTED_STATE k \<and> (zev_path e = None \<longleftrightarrow> zev_type e = ZOO_SESSION_EVENT k)"

definition watches_ok :: "(string, zoo_callback) smap \<Rightarrow> bool" where
  "watches_ok ws \<longleftrightarrow> smap_wf ws \<and> list_all (\<lambda>(p, cb). cb_fn cb = Watcher_fn) ws
     \<and> (case smap_find ws [] of None \<Rightarrow> False | Some cb \<Rightarrow> cb_type cb = W_ANY)"

definition lib_quiet :: "zoo_consts \<Rightarrow> stub zk \<Rightarrow> bool" where
  "lib_quiet k s \<longleftrightarrow> list_all (event_ok k) (st_queue (zk_lib s)) \<and> watches_ok (st_watchers (zk_lib s))"

definition client_event :: "zoo_consts \<Rightarrow> zoo_event \<Rightarrow> zevent list" where
  "client_event k e = (case zev_path e of None \<Rightarrow> [] | Some p \<Rightarrow> [\<lparr>ev_type = eventTypeConvert k (zev_type e), ev_path = p\<rparr>])"

definition watch_spent :: "zoo_consts \<Rightarrow> zoo_event \<Rightarrow> (string, zoo_callback) smap \<Rightarrow> (string, zoo_callback) smap" where
  "watch_spent k e ws = (case zev_path e of
     None \<Rightarrow> ws
   | Some p \<Rightarrow> (case smap_find ws p of
       None \<Rightarrow> ws
     | Some cb \<Rightarrow> (if cb_type cb AND event_mask k (zev_type e) \<noteq> 0 then smap_erase p ws else ws)))"

text \<open>What processing the events that are queued leaves.\<close>

definition drained :: "zoo_consts \<Rightarrow> stub zk \<Rightarrow> stub zk" where
  "drained k s =
     (let q = st_queue (zk_lib s)
      in s\<lparr>zk_connected := (zk_connected s \<or> q \<noteq> []), zk_events := zk_events s @ concat (map (client_event k) q),
           zk_lib := (zk_lib s)\<lparr>st_queue := [], st_watchers := fold (watch_spent k) q (st_watchers (zk_lib s))\<rparr>\<rparr>)"

lemma smap_find_mem: "smap_find m k = Some v \<Longrightarrow> (k, v) \<in> set m"
  by (simp add: smap_find_def map_of_SomeD)

lemma watches_okD:
  assumes "watches_ok ws"
  shows "\<exists>cb. smap_find ws [] = Some cb \<and> cb_fn cb = Watcher_fn \<and> cb_type cb = 0"
    and "smap_find ws p = Some cb \<Longrightarrow> cb_fn cb = Watcher_fn"
    and "smap_wf ws"
  using assms smap_find_mem [of ws] by (fastforce simp: watches_ok_def W_ANY_def list_all_iff split: option.splits)+

lemma watches_ok_put:
  assumes "watches_ok ws" and "cb_fn cb = Watcher_fn" and "p \<noteq> []"
  shows "watches_ok (smap_put p cb ws)"
  using assms fst_set_smap_put [of _ _ p cb ws] set_smap_put [of p cb ws]
  by (fastforce simp: watches_ok_def list_all_iff smap_wf_put smap_find_put)

lemma watches_ok_erase:
  assumes "watches_ok ws" and "p \<noteq> []"
  shows "watches_ok (smap_erase p ws)"
  using assms set_smap_erase [of p ws] by (auto simp: watches_ok_def list_all_iff smap_wf_erase smap_find_erase)

lemma watch_spent_ok: "watches_ok ws \<Longrightarrow> watches_ok (watch_spent k e ws)"
  using watches_okD(1) [of ws] by (auto simp: watch_spent_def split: option.splits intro!: watches_ok_erase)

lemma fold_watch_spent_ok: "watches_ok ws \<Longrightarrow> watches_ok (fold (watch_spent k) q ws)"
  by (induction q arbitrary: ws) (simp_all add: watch_spent_ok)

lemma quiet_drained: "lib_quiet k s \<Longrightarrow> lib_quiet k (drained k s)"
  by (simp add: lib_quiet_def drained_def Let_def fold_watch_spent_ok)

text \<open>One event: the client keeps it, unless it is one of the session, and the watch that asked for it is gone.\<close>

lemma Watcher_quiet:
  assumes "consts_ok k" and "event_ok k e" and "ze_k env = k"
  shows "run_upcall env con (Watched Watcher_fn (zev_type e) (zev_state e) (zev_path e)) s =
    Some (Inr (), s\<lparr>zk_connected := True, zk_events := zk_events s @ client_event k e\<rparr>)"
  using assms by (cases "zev_path e") (auto simp: run_upcall_def Watcher_def px_defs event_ok_def client_event_def consts_ok_def)

lemma fire_quiet:
  assumes "consts_ok k" and "event_ok k e" and "ze_k env = k" and w: "watches_ok (st_watchers (zk_lib s))"
  shows "fire k (run_upcall env con) e s = Some (Inr (), s\<lparr>zk_connected := True, zk_events := zk_events s @ client_event k e,
    zk_lib := (zk_lib s)\<lparr>st_watchers := watch_spent k e (st_watchers (zk_lib s))\<rparr>\<rparr>)"
proof -
  note run = Watcher_quiet [OF assms(1-3)]
  obtain g where g: "smap_find (st_watchers (zk_lib s)) [] = Some g" "cb_fn g = Watcher_fn"
    using watches_okD(1) [OF w] by blast
  have glob: "fire_global (run_upcall env con) e s = Some (Inr (), s\<lparr>zk_connected := True, zk_events := zk_events s @ client_event k e\<rparr>)"
    by (simp add: fire_global_def lib_get_def px_defs g run)
  show ?thesis
  proof (cases "zev_path e")
    case None
    with glob show ?thesis by (simp add: fire_def watch_spent_def)
  next
    case (Some p)
    with glob run show ?thesis
      using watches_okD(2) [OF w, of p]
      by (auto simp: fire_def watch_spent_def erase_watch_def lib_get_def lib_do_def px_defs split: option.split)
  qed
qed

lemma process_quiet:
  assumes k: "consts_ok k" "ze_k env = k" and "lib_quiet k s"
  shows "repeat_until (while_again (process_round k (run_upcall env con))) s = Some (Inr (), drained k s)"
  using assms(3)
proof (induction "length (st_queue (zk_lib s))" arbitrary: s)
  case 0
  then show ?case
    by (subst repeat_until.simps) (simp add: while_again_def process_round_def lib_get_def px_defs drained_def)
next
  case (Suc n)
  then obtain e q where q: "st_queue (zk_lib s) = e # q" by (cases "st_queue (zk_lib s)") auto
  let ?s = "s\<lparr>zk_connected := True, zk_events := zk_events s @ client_event k e,
    zk_lib := (zk_lib s)\<lparr>st_queue := q, st_watchers := watch_spent k e (st_watchers (zk_lib s))\<rparr>\<rparr>"
  have e: "event_ok k e" and w: "watches_ok (st_watchers (zk_lib s))" and qs: "list_all (event_ok k) q"
    using Suc.prems q by (simp_all add: lib_quiet_def)
  have "process_round k (run_upcall env con) s = Some (Inr True, ?s)"
    using fire_quiet [OF k(1) e k(2), of "s\<lparr>zk_lib := (zk_lib s)\<lparr>st_queue := q\<rparr>\<rparr>" con] w q
    by (simp add: process_round_def lib_get_def lib_do_def px_defs)
  then have "repeat_until (while_again (process_round k (run_upcall env con))) s =
      repeat_until (while_again (process_round k (run_upcall env con))) ?s"
    by (subst repeat_until.simps) (simp add: while_again_def)
  also have "\<dots> = Some (Inr (), drained k ?s)"
    by (rule Suc.hyps(1)) (use Suc.hyps(2) q qs w in \<open>simp_all add: lib_quiet_def watch_spent_ok\<close>)
  also have "drained k ?s = drained k s" by (simp add: drained_def q)
  finally show ?case .
qed

definition over_stub :: "stub zkenv \<Rightarrow> bool" where
  "over_stub env \<longleftrightarrow> consts_ok (ze_k env) \<and> ze_lib env = stub_lib (ze_k env) (zoo_error (ze_lib env)) \<and> 0 < ze_depth env"

lemma yield_quiet:
  assumes "over_stub env" and "lib_quiet (ze_k env) s"
  shows "yield_with env con s = Some (Inr (), drained (ze_k env) s)"
proof -
  have lib: "zoo_interest (ze_lib env) = stub_interest" "zoo_select (ze_lib env) = stub_select"
      "zoo_process (ze_lib env) = stub_process (ze_k env)" and k: "consts_ok (ze_k env)"
    using assms(1) unfolding over_stub_def stub_lib_def by (metis zoolib.simps)+
  show ?thesis
    using process_quiet [OF k refl assms(2)]
    by (simp add: yield_with_def lib stub_interest_def stub_select_def stub_process_def px_defs Let_def)
qed

section \<open>Paths\<close>

text \<open>The parts of a path name a node; the calls of the library are given the normal form, with a slash for the root.\<close>

definition plain_part :: "string \<Rightarrow> bool" where
  "plain_part p \<longleftrightarrow> normal_part p \<and> take 1 p \<noteq> ''.'' \<and> CHR 0x00 \<notin> set p"

definition node_path :: "string \<Rightarrow> bool" where
  "node_path p \<longleftrightarrow> CHR 0x00 \<notin> set p \<and> list_all plain_part (fs_path p) \<and> normalize_path p \<noteq> []"

definition node_name :: "string list \<Rightarrow> string" where
  "node_name ps = (if ps = [] then ''/'' else slashed ps)"

abbreviation zoo_root :: string where
  "zoo_root \<equiv> ''.zookeeper''"

lemma plain_normal: "list_all plain_part ps \<Longrightarrow> list_all normal_part ps"
  by (auto simp: list_all_iff plain_part_def)

lemma fs_path_slashed:
  assumes "list_all normal_part ps"
  shows "fs_path (slashed ps) = ps" and "fs_path (''.'' @ slashed ps) = ps"
  using str_split_slashed [OF assms, of "[]"] str_split_slashed [OF assms, of "''.''"] canon_parts_id [OF assms, of "[]"]
  by (simp_all add: fs_path_def)

lemma fs_path_normal: "list_all normal_part (fs_path p)"
  unfolding fs_path_def by (rule canon_parts_normal) (auto simp: list_all_iff dest: str_split_parts)

lemma node_dir_parts:
  assumes "list_all normal_part ps"
  shows "fs_path (node_dir (node_name ps)) = zoo_root # ps"
    and "fs_path (node_dir (node_name ps) @ ''/.content'') = zoo_root # ps @ [''.content'']"
proof -
  have n: "normal_part zoo_root" "normal_part ''.content''" by (simp_all add: normal_part_def)
  have "node_dir (slashed ps) = ''.'' @ slashed (zoo_root # ps)"
    "node_dir (slashed ps) @ ''/.content'' = ''.'' @ slashed (zoo_root # ps @ [''.content''])"
    by (simp_all add: node_dir_def slashed_append)
  then show "fs_path (node_dir (node_name ps)) = zoo_root # ps"
    and "fs_path (node_dir (node_name ps) @ ''/.content'') = zoo_root # ps @ [''.content'']"
    using fs_path_slashed(2) [of "zoo_root # ps"] fs_path_slashed(2) [of "zoo_root # ps @ [''.content'']"] assms n
    by (cases "ps = []"; simp add: node_name_def; simp add: node_dir_def fs_path_def)+
qed

lemma parent_path_snoc: "CHR ''/'' \<notin> set q \<Longrightarrow> parent_path (p @ ''/'' @ q) = (if p = [] then if q = [] then [] else ''/'' else p)"
proof -
  assume "CHR ''/'' \<notin> set q"
  then have "\<forall>c \<in> set q. c \<noteq> CHR ''/''" by auto
  then have "str_rfind_if (\<lambda>c. c = CHR ''/'') (p @ ''/'' @ q) = Some (length p)"
    using str_rfind_if_snoc [of q "\<lambda>c. c = CHR ''/''" "CHR ''/''" p] by simp
  then show ?thesis unfolding parent_path_def by (cases p) simp_all
qed

lemma parent_node_dir:
  assumes "list_all normal_part (ps @ [q])"
  shows "fs_path (parent_path (node_dir (node_name (ps @ [q])))) = zoo_root # ps"
proof -
  have q: "CHR ''/'' \<notin> set q" using assms by (simp add: normal_part_def)
  have "node_dir (node_name (ps @ [q])) = (''.'' @ slashed (zoo_root # ps)) @ ''/'' @ q"
    by (simp add: node_name_def node_dir_def slashed_append)
  then have "parent_path (node_dir (node_name (ps @ [q]))) = ''.'' @ slashed (zoo_root # ps)"
    using parent_path_snoc [OF q, of "''.'' @ slashed (zoo_root # ps)"] by simp
  then show ?thesis using fs_path_slashed(2) [of "zoo_root # ps"] assms by (simp add: normal_part_def)
qed

text \<open>The normal form is that of the parts, or empty when they cancel and no slash is at the end.\<close>

lemma canonicalize_parts:
  "canonicalize_path p = (if p = [] then ''/'' else slashed (fs_path p) @ (if last p = CHR ''/'' then ''/'' else []))"
  by (simp add: canonicalize_path_def fs_path_def Let_def)

lemma normalize_path_form: "normalize_path p = node_name (fs_path p) \<or> (fs_path p = [] \<and> normalize_path p = [])"
proof (cases "fs_path p = []")
  case True
  then show ?thesis by (simp add: normalize_path_def canonicalize_parts node_name_def)
next
  case False
  have p: "p \<noteq> []" using False by (auto simp: fs_path_def)
  have l: "last (slashed (fs_path p)) \<noteq> CHR ''/''" by (rule last_slashed [OF fs_path_normal False])
  have "slashed (fs_path p) \<noteq> []" using False by (cases "fs_path p") simp_all
  with p l False show ?thesis by (auto simp: normalize_path_def canonicalize_parts node_name_def Let_def butlast_append Suc_le_eq)
qed

lemma node_path_name: "node_path p \<Longrightarrow> normalize_path p = node_name (fs_path p)"
  using normalize_path_form [of p] by (auto simp: node_path_def)

theorem normalize_path_idem: "normalize_path p \<noteq> [] \<Longrightarrow> normalize_path (normalize_path p) = normalize_path p"
proof -
  assume ne: "normalize_path p \<noteq> []"
  then have n: "normalize_path p = node_name (fs_path p)" using normalize_path_form [of p] by blast
  have f: "fs_path (node_name (fs_path p)) = fs_path p"
    using fs_path_slashed(1) [OF fs_path_normal] by (auto simp: node_name_def fs_path_def)
  show ?thesis
  proof (cases "fs_path p = []")
    case True
    then have "normalize_path p = ''/''" using n by (simp add: node_name_def)
    then show ?thesis by (simp add: normalize_path_def canonicalize_path_def)
  next
    case False
    with normalize_path_form [of "normalize_path p"] f n show ?thesis by simp
  qed
qed

lemma canon_parts_clean:
  "list_all (\<lambda>p. c \<notin> set p) before \<Longrightarrow> list_all (\<lambda>p. c \<notin> set p) rest \<Longrightarrow> list_all (\<lambda>p. c \<notin> set p) (canon_parts before rest)"
proof (induction before rest rule: canon_parts.induct)
  case (2 before part rest)
  have "list_all (\<lambda>p. c \<notin> set p) (butlast before)" using 2(5) by (auto simp: list_all_iff dest: in_set_butlastD)
  with 2 show ?case by simp
qed simp

lemma str_split_clean: "c \<notin> set s \<Longrightarrow> list_all (\<lambda>p. c \<notin> set p) (str_split sep s)"
proof (induction s)
  case (Cons a s)
  then show ?case by (cases "str_split sep s") simp_all
qed simp

lemma slashed_clean: "list_all (\<lambda>p. c \<notin> set p) ps \<Longrightarrow> c \<noteq> CHR ''/'' \<Longrightarrow> c \<notin> set (slashed ps)"
  by (induction ps) auto

lemma node_name_clean: "CHR 0x00 \<notin> set p \<Longrightarrow> c_str (node_name (fs_path p)) = node_name (fs_path p)"
proof -
  assume "CHR 0x00 \<notin> set p"
  then have "list_all (\<lambda>p. CHR 0x00 \<notin> set p) (fs_path p)"
    unfolding fs_path_def by (intro canon_parts_clean str_split_clean) simp
  then have "CHR 0x00 \<notin> set (node_name (fs_path p))" by (auto simp: node_name_def dest: slashed_clean)
  then show ?thesis by (auto simp: c_str_def takeWhile_eq_all_conv)
qed

section \<open>The tree\<close>

text \<open>
  The directories below the root are the nodes, and the file of a directory has its data. The file system is in order when every directory and file is in a
  directory and only the files are hidden.
\<close>

type_synonym ztree = "string list \<Rightarrow> string option"

definition fs_entry_ok :: "(string list, fsnode) smap \<Rightarrow> string list \<Rightarrow> fsnode \<Rightarrow> bool" where
  "fs_entry_ok fs k n = (case k of
     [] \<Rightarrow> True
   | z # ps \<Rightarrow> z = zoo_root \<longrightarrow>
       (if n = FDir then list_all plain_part ps else ps \<noteq> [] \<and> last ps = ''.content'')
       \<and> (ps \<noteq> [] \<longrightarrow> smap_find fs (butlast k) = Some FDir))"

definition fs_wf :: "(string list, fsnode) smap \<Rightarrow> bool" where
  "fs_wf fs \<longleftrightarrow> smap_wf fs \<and> smap_find fs [zoo_root] = Some FDir \<and> list_all (\<lambda>(k, n). fs_entry_ok fs k n) fs"

definition fs_tree :: "(string list, fsnode) smap \<Rightarrow> ztree" where
  "fs_tree fs ps = (case smap_find fs (zoo_root # ps) of
     Some FDir \<Rightarrow> Some (case smap_find fs (zoo_root # ps @ [''.content'']) of Some (FFile d) \<Rightarrow> d | _ \<Rightarrow> [])
   | _ \<Rightarrow> None)"

abbreviation tree :: "stub zk \<Rightarrow> ztree" where
  "tree s \<equiv> fs_tree (st_fs (zk_lib s))"

lemma not_plain_content [simp]: "\<not> plain_part ''.content''"
  by (simp add: plain_part_def)

lemma fs_wfD:
  assumes "fs_wf fs"
  shows "smap_wf fs" and "smap_find fs [zoo_root] = Some FDir" and "smap_find fs k = Some n \<Longrightarrow> fs_entry_ok fs k n"
  using assms smap_find_mem [of fs] by (fastforce simp: fs_wf_def list_all_iff)+

lemma fs_wfI:
  assumes "smap_wf fs" and "smap_find fs [zoo_root] = Some FDir" and "\<And>k n. smap_find fs k = Some n \<Longrightarrow> fs_entry_ok fs k n"
  shows "fs_wf fs"
proof -
  have "smap_find fs k = Some n" if "(k, n) \<in> set fs" for k n
    using that assms(1) strict_sorted_iff by (auto simp: smap_wf_def smap_find_def intro!: map_of_is_SomeI)
  with assms show ?thesis by (auto simp: fs_wf_def list_all_iff)
qed

lemma node_dir_iff:
  assumes "fs_wf fs" and "list_all plain_part ps"
  shows "smap_find fs (zoo_root # ps) = (if fs_tree fs ps = None then None else Some FDir)"
proof (cases "smap_find fs (zoo_root # ps)")
  case (Some n)
  have "last ps \<noteq> ''.content''" if "ps \<noteq> []"
    using assms(2) that by (metis list_all_iff last_in_set not_plain_content)
  then have "n = FDir" using fs_wfD(3) [OF assms(1) Some] by (auto simp: fs_entry_ok_def split: if_splits)
  with Some show ?thesis by (simp add: fs_tree_def)
qed (simp add: fs_tree_def)

lemma tree_plain: "fs_wf fs \<Longrightarrow> fs_tree fs ps \<noteq> None \<Longrightarrow> list_all plain_part ps"
  using fs_wfD(3) [of fs "zoo_root # ps" FDir] by (auto simp: fs_tree_def fs_entry_ok_def split: option.splits fsnode.splits)

lemma content_iff:
  assumes "fs_wf fs"
  shows "smap_find fs (zoo_root # ps @ [''.content'']) = None \<or> (\<exists>d. smap_find fs (zoo_root # ps @ [''.content'']) = Some (FFile d))"
proof (cases "smap_find fs (zoo_root # ps @ [''.content''])")
  case (Some n)
  then show ?thesis using fs_wfD(3) [OF assms Some] by (cases n) (auto simp: fs_entry_ok_def)
qed simp

text \<open>Making a node, writing the data of one and removing one with everything below it.\<close>

lemma fs_wf_put_dir:
  assumes wf: "fs_wf fs" and ps: "list_all plain_part (ps @ [q])" and parent: "fs_tree fs ps \<noteq> None" and new: "fs_tree fs (ps @ [q]) = None"
  shows "fs_wf (smap_put (zoo_root # ps @ [q]) FDir fs)"
    and "fs_tree (smap_put (zoo_root # ps @ [q]) FDir fs) = (fs_tree fs)(ps @ [q] \<mapsto> [])"
proof -
  let ?k = "zoo_root # ps @ [q]"
  have old: "smap_find fs ?k = None" using node_dir_iff [OF wf ps] new by simp
  have dir: "smap_find fs (zoo_root # ps) = Some FDir" using node_dir_iff [OF wf, of ps] ps parent by simp
  have none: "smap_find fs (?k @ [''.content'']) = None"
  proof (rule ccontr)
    assume "smap_find fs (?k @ [''.content'']) \<noteq> None"
    then obtain n where "smap_find fs (?k @ [''.content'']) = Some n" by blast
    from fs_wfD(3) [OF wf this] old show False by (simp add: fs_entry_ok_def butlast_append)
  qed
  show "fs_wf (smap_put ?k FDir fs)"
  proof (rule fs_wfI)
    fix k n assume "smap_find (smap_put ?k FDir fs) k = Some n"
    with fs_wfD(3) [OF wf, of k n] dir ps show "fs_entry_ok (smap_put ?k FDir fs) k n"
      by (auto simp: smap_find_put fs_entry_ok_def butlast_append split: list.splits if_splits)
  qed (use wf in \<open>simp_all add: fs_wfD smap_wf_put smap_find_put\<close>)
  show "fs_tree (smap_put ?k FDir fs) = (fs_tree fs)(ps @ [q] \<mapsto> [])"
  proof
    fix qs
    have "q \<noteq> ''.content''" using ps by auto
    then show "fs_tree (smap_put ?k FDir fs) qs = ((fs_tree fs)(ps @ [q] \<mapsto> [])) qs"
      using none by (auto simp: fs_tree_def smap_find_put split: option.splits fsnode.splits)
  qed
qed

lemma fs_wf_put_data:
  assumes wf: "fs_wf fs" and ps: "list_all plain_part ps" and there: "fs_tree fs ps \<noteq> None"
  shows "fs_wf (smap_put (zoo_root # ps @ [''.content'']) (FFile d) fs)"
    and "fs_tree (smap_put (zoo_root # ps @ [''.content'']) (FFile d) fs) = (fs_tree fs)(ps \<mapsto> d)"
proof -
  let ?k = "zoo_root # ps @ [''.content'']"
  have dir: "smap_find fs (zoo_root # ps) = Some FDir" using node_dir_iff [OF wf ps] there by simp
  have not_dir: "smap_find fs ?k \<noteq> Some FDir" using content_iff [OF wf, of ps] by auto
  show "fs_wf (smap_put ?k (FFile d) fs)"
  proof (rule fs_wfI)
    fix k n assume "smap_find (smap_put ?k (FFile d) fs) k = Some n"
    with fs_wfD(3) [OF wf, of k n] dir not_dir show "fs_entry_ok (smap_put ?k (FFile d) fs) k n"
      by (auto simp: smap_find_put fs_entry_ok_def butlast_append split: list.splits if_splits)
  qed (use wf in \<open>simp_all add: fs_wfD smap_wf_put smap_find_put\<close>)
  show "fs_tree (smap_put ?k (FFile d) fs) = (fs_tree fs)(ps \<mapsto> d)"
    using dir not_dir by (auto simp: fs_tree_def smap_find_put split: option.splits fsnode.splits)
qed

lemma smap_find_filter:
  "smap_wf m \<Longrightarrow> smap_find (filter (\<lambda>(k, _). P k) m) k = (if P k then smap_find m k else None)"
  by (induction m) (auto simp: smap_find_def dest: smap_wf_not_below)

lemma smap_wf_filter: "smap_wf m \<Longrightarrow> smap_wf (filter P m)"
  by (induction m) auto

lemma fs_wf_remove:
  assumes wf: "fs_wf fs" and ps: "list_all plain_part ps" "ps \<noteq> []"
  shows "fs_wf (filter (\<lambda>(k, _). \<not> is_under (zoo_root # ps) k) fs)"
    and "fs_tree (filter (\<lambda>(k, _). \<not> is_under (zoo_root # ps) k) fs) = (\<lambda>qs. if is_under ps qs then None else fs_tree fs qs)"
proof -
  let ?fs = "filter (\<lambda>(k, _). \<not> is_under (zoo_root # ps) k) fs"
  note find = smap_find_filter [OF fs_wfD(1) [OF wf], of "\<lambda>k. \<not> is_under (zoo_root # ps) k"]
  have up: "\<not> is_under (zoo_root # ps) (butlast k)" if "\<not> is_under (zoo_root # ps) k" for k
    using that by (cases k rule: rev_cases) (auto simp: is_under_def split: if_splits)
  have root: "\<not> is_under (zoo_root # ps) [zoo_root]" using ps(2) by (simp add: is_under_def)
  show "fs_wf ?fs"
  proof (rule fs_wfI)
    fix k n assume "smap_find ?fs k = Some n"
    then have k: "\<not> is_under (zoo_root # ps) k" "smap_find fs k = Some n" by (simp_all add: find split: if_splits)
    with fs_wfD(3) [OF wf k(2)] up [OF k(1)] show "fs_entry_ok ?fs k n"
      by (auto simp: fs_entry_ok_def find split: list.splits if_splits)
  qed (use wf root in \<open>simp_all add: fs_wfD smap_wf_filter find\<close>)
  have cons: "is_under (zoo_root # ps) (zoo_root # qs) = is_under ps qs" for qs by (simp add: is_under_def)
  have below: "\<not> is_under ps qs \<Longrightarrow> is_under ps (qs @ [''.content'']) \<Longrightarrow> False" for qs
  proof -
    assume no: "\<not> is_under ps qs" and yes: "is_under ps (qs @ [''.content''])"
    then have "ps = qs @ [''.content'']"
      by (cases "length ps \<le> length qs") (auto simp: is_under_def)
    with ps show False by auto
  qed
  show "fs_tree ?fs = (\<lambda>qs. if is_under ps qs then None else fs_tree fs qs)"
  proof
    fix qs
    show "fs_tree ?fs qs = (if is_under ps qs then None else fs_tree fs qs)"
      using below [of qs] by (cases "is_under ps qs"; cases "is_under ps (qs @ [''.content''])") (simp_all add: fs_tree_def find cons split: option.split fsnode.split)
  qed
qed

text \<open>The names that are listed are those of the nodes below, each once.\<close>

lemma names_in_children:
  assumes wf: "fs_wf fs" and ps: "list_all plain_part ps"
  shows "mset (filter (\<lambda>n. take 1 n \<noteq> ''.'') (names_in fs (zoo_root # ps))) = mset_set {c. fs_tree fs (ps @ [c]) \<noteq> None}"
proof -
  let ?d = "zoo_root # ps"
  let ?ks = "map fst (filter (\<lambda>(k, _). k \<noteq> [] \<and> butlast k = ?d) fs)"
  let ?ns = "filter (\<lambda>n. take 1 n \<noteq> ''.'') (names_in fs ?d)"
  have d: "distinct (map fst fs)" using fs_wfD(1) [OF wf] strict_sorted_iff by (auto simp: smap_wf_def)
  have "distinct ?ks" by (rule distinct_map_filter [OF d])
  moreover have "inj_on last (set ?ks)" by (rule inj_onI) (auto, metis append_butlast_last_id)
  ultimately have "distinct (map last ?ks)" by (simp only: distinct_map)
  moreover have "names_in fs ?d = map last ?ks" by (simp add: names_in_def)
  ultimately have dist: "distinct ?ns" by simp
  have keys: "c \<in> set (names_in fs ?d) \<longleftrightarrow> smap_find fs (?d @ [c]) \<noteq> None" for c
  proof
    assume "c \<in> set (names_in fs ?d)"
    then obtain k n where "(k, n) \<in> set fs" "k \<noteq> []" "butlast k = ?d" "last k = c" by (auto simp: names_in_def)
    moreover from this have "k = ?d @ [c]" by (metis append_butlast_last_id)
    ultimately have "?d @ [c] \<in> fst ` set fs" by (metis fst_conv image_eqI)
    then show "smap_find fs (?d @ [c]) \<noteq> None" by (simp add: smap_find_def map_of_eq_None_iff)
  next
    assume "smap_find fs (?d @ [c]) \<noteq> None"
    then obtain n where "smap_find fs (?d @ [c]) = Some n" by blast
    from smap_find_mem [OF this] show "c \<in> set (names_in fs ?d)"
      unfolding names_in_def by (force simp: image_iff)
  qed
  have "c \<in> set ?ns \<longleftrightarrow> fs_tree fs (ps @ [c]) \<noteq> None" for c
  proof (cases "smap_find fs (?d @ [c])")
    case None
    then show ?thesis by (simp add: keys fs_tree_def)
  next
    case (Some n)
    have "take 1 c \<noteq> ''.'' \<longleftrightarrow> n = FDir"
      using fs_wfD(3) [OF wf Some] by (auto simp: fs_entry_ok_def plain_part_def split: if_splits)
    with Some show ?thesis by (cases n) (auto simp: keys fs_tree_def)
  qed
  then have "set ?ns = {c. fs_tree fs (ps @ [c]) \<noteq> None}" by blast
  with dist show ?thesis by (metis mset_set_set)
qed

end
