(* ===== verification/GB_ZooClient.thy ===== *)
theory GB_ZooClient
  imports GB_ZooTree
begin

text \<open>
  The client over the library of the unit tests implements a tree of nodes: the calls of the library, the calls of the client, and sequences of them after the
  constructor has connected.
\<close>

section \<open>Calls of the library\<close>

definition session_ok :: "zoo_consts \<Rightarrow> stub zk \<Rightarrow> bool" where
  "session_ok k s \<longleftrightarrow> lib_quiet k s \<and> zk_connected s \<and> fs_wf (st_fs (zk_lib s))"

text \<open>What a call leaves: the session as it was, a tree, and the context of the call.\<close>

definition answers :: "zoo_consts \<Rightarrow> nat \<Rightarrow> sync_context \<Rightarrow> ztree \<Rightarrow> stub zk \<Rightarrow> bool" where
  "answers k i c t s \<longleftrightarrow> session_ok k s \<and> tree s = t \<and> zk_contexts s i = Some c"

lemma node_name_not_Nil [simp]: "node_name ps \<noteq> []"
  by (cases ps) (simp_all add: node_name_def)

lemma global_watch_ok:
  assumes "lib_quiet k s" and "p \<noteq> []"
  shows "\<exists>w. global_watch watch p t s = Some (Inr (), s\<lparr>zk_lib := (zk_lib s)\<lparr>st_watchers := w\<rparr>\<rparr>) \<and> watches_ok w"
proof (cases watch)
  case True
  have w: "watches_ok (st_watchers (zk_lib s))" using assms(1) by (simp add: lib_quiet_def)
  then obtain cb where cb: "smap_find (st_watchers (zk_lib s)) [] = Some cb" "cb_fn cb = Watcher_fn" using watches_okD(1) by blast
  let ?w = "smap_put p \<lparr>cb_fn = Watcher_fn, cb_type = t, cb_txn = st_txn_id (zk_lib s)\<rparr> (st_watchers (zk_lib s))"
  have "watches_ok ?w" by (rule watches_ok_put [OF w _ assms(2)]) simp
  moreover have "global_watch watch p t s = Some (Inr (), s\<lparr>zk_lib := (zk_lib s)\<lparr>st_watchers := ?w\<rparr>\<rparr>)"
    using True cb by (simp add: global_watch_def lib_get_def lib_do_def px_defs set_watch_def)
  ultimately show ?thesis by blast
next
  case False
  then show ?thesis using assms(1) by (intro exI [of _ "st_watchers (zk_lib s)"]) (simp add: global_watch_def px_defs lib_quiet_def)
qed

lemma addEvent_same:
  "st_fs (addEvent p t e l) = st_fs l" "st_watchers (addEvent p t e l) = st_watchers l"
  by (auto simp: addEvent_def split: option.split)

lemma addEvent_ok:
  "list_all (event_ok k) (st_queue l) \<Longrightarrow> event_ok k e \<Longrightarrow> list_all (event_ok k) (st_queue (addEvent p t e l))"
  by (auto simp: addEvent_def split: option.split)

lemma ZooEvent_ok: "t \<noteq> ZOO_SESSION_EVENT k \<Longrightarrow> event_ok k (ZooEvent k t (Some p))"
  by (simp add: event_ok_def ZooEvent_def)

lemma tree_events:
  assumes "consts_ok k" and "list_all (event_ok k) (st_queue l)"
  shows "list_all (event_ok k) (st_queue (addCreateEvent k p l))" "list_all (event_ok k) (st_queue (addDeleteEvent k p l))"
    "list_all (event_ok k) (st_queue (addUpdateEvent k p l))"
  using assms by (auto simp: addCreateEvent_def addDeleteEvent_def addUpdateEvent_def Let_def consts_ok_def intro!: addEvent_ok ZooEvent_ok)

lemma tree_events_same [simp]:
  "st_fs (addCreateEvent k p l) = st_fs l" "st_fs (addDeleteEvent k p l) = st_fs l" "st_fs (addUpdateEvent k p l) = st_fs l"
  "st_watchers (addCreateEvent k p l) = st_watchers l" "st_watchers (addDeleteEvent k p l) = st_watchers l"
  "st_watchers (addUpdateEvent k p l) = st_watchers l"
  by (simp_all add: addCreateEvent_def addDeleteEvent_def addUpdateEvent_def addEvent_same Let_def)

lemma stat_of_ok:
  "\<exists>st. stat_of p n len s = Some (Inr st, s\<lparr>zk_lib := (zk_lib s)\<lparr>st_readings := Suc (Suc (st_readings (zk_lib s)))\<rparr>\<rparr>) \<and> zs_dataLength st = len"
  by (simp add: stat_of_def stub_time_def lib_get_def lib_do_def px_defs)

lemma fs_at_node:
  assumes "fs_wf (st_fs l)" and "list_all plain_part ps"
  shows "fs_at l (node_dir (node_name ps)) = (if fs_tree (st_fs l) ps = None then None else Some FDir)"
  by (simp add: fs_at_def node_dir_parts(1) [OF plain_normal [OF assms(2)]] node_dir_iff [OF assms])

lemma content_of_node:
  assumes wf: "fs_wf (st_fs (zk_lib s))" and ps: "list_all plain_part ps" and t: "tree s ps = Some d"
  shows "content_of (node_dir (node_name ps)) s = Some (Inr d, s)"
proof -
  let ?f = "smap_find (st_fs (zk_lib s)) (zoo_root # ps @ [''.content''])"
  have "smap_find (st_fs (zk_lib s)) (zoo_root # ps) = Some FDir" using node_dir_iff [OF wf ps] t by simp
  then have "(case ?f of Some (FFile d) \<Rightarrow> d | _ \<Rightarrow> []) = d" using t by (simp add: fs_tree_def)
  then have "?f = None \<and> d = [] \<or> ?f = Some (FFile d)" using content_iff [OF wf, of ps] by auto
  then show ?thesis
    by (auto simp: content_of_def file_text_def lib_get_def px_defs fs_at_def node_dir_parts(2) [OF plain_normal [OF ps]])
qed

lemma session_okD:
  assumes "session_ok k s"
  shows "lib_quiet k s" "zk_connected s" "fs_wf (st_fs (zk_lib s))" "list_all (event_ok k) (st_queue (zk_lib s))"
    "watches_ok (st_watchers (zk_lib s))"
  using assms by (simp_all add: session_ok_def lib_quiet_def)

lemmas completed = run_upcall_def complete_def SyncCallback_def StatCallback_def DataCallback_def PathCallback_def ChildrenCallback_def
  put_context_def

lemma stub_aexists_ok:
  assumes s: "session_ok k s" "zk_contexts s i = Some c" and ps: "list_all plain_part ps"
  shows "\<exists>s'. stub_aexists (run_upcall env con) zh (node_name ps) watch i s = Some (Inr ZOK, s')
    \<and> answers k i (c\<lparr>sc_rc := (if tree s ps = None then ZNONODE else ZOK), sc_done := True\<rparr>) (tree s) s'
    \<and> (\<forall>d. tree s ps = Some d \<longrightarrow> zs_dataLength (zk_stat s') = int (length d))"
proof -
  note ok = session_okD [OF s(1)]
  obtain w where w: "global_watch watch (node_name ps) (W_CREATE OR W_DELETE OR W_CHANGE) s = Some (Inr (), s\<lparr>zk_lib := (zk_lib s)\<lparr>st_watchers := w\<rparr>\<rparr>)"
      "watches_ok w"
    using global_watch_ok [OF ok(1) node_name_not_Nil] by blast
  let ?s = "s\<lparr>zk_lib := (zk_lib s)\<lparr>st_watchers := w\<rparr>\<rparr>"
  have wf: "fs_wf (st_fs (zk_lib ?s))" using ok(3) by simp
  show ?thesis
  proof (cases "tree s ps")
    case None
    then show ?thesis
      using w s ok fs_at_node [OF wf ps]
      by (simp add: stub_aexists_def px_defs lib_get_def completed answers_def session_ok_def lib_quiet_def)
  next
    case (Some d)
    have "content_of (node_dir (node_name ps)) ?s = Some (Inr d, ?s)"
      by (rule content_of_node [OF wf ps]) (use Some in simp)
    with stat_of_ok [of "node_name ps" "count_children (zk_lib ?s) (node_dir (node_name ps))" "int (length d)" ?s] Some w s ok fs_at_node [OF wf ps]
    show ?thesis
      by (auto simp: stub_aexists_def px_defs lib_get_def completed answers_def session_ok_def lib_quiet_def)
  qed
qed

lemma stub_aget_ok:
  assumes s: "session_ok k s" "zk_contexts s i = Some c" and ps: "list_all plain_part ps" and d: "tree s ps = Some d"
  shows "\<exists>s'. stub_aget (run_upcall env con) zh (node_name ps) watch i s = Some (Inr ZOK, s')
    \<and> answers k i (c\<lparr>sc_rc := ZOK, sc_done := True, sc_data := d\<rparr>) (tree s) s'"
proof -
  note ok = session_okD [OF s(1)]
  obtain w where w: "global_watch watch (node_name ps) (W_DELETE OR W_CHANGE) s = Some (Inr (), s\<lparr>zk_lib := (zk_lib s)\<lparr>st_watchers := w\<rparr>\<rparr>)"
      "watches_ok w"
    using global_watch_ok [OF ok(1) node_name_not_Nil] by blast
  let ?s = "s\<lparr>zk_lib := (zk_lib s)\<lparr>st_watchers := w\<rparr>\<rparr>"
  have wf: "fs_wf (st_fs (zk_lib ?s))" using ok(3) by simp
  have "content_of (node_dir (node_name ps)) ?s = Some (Inr d, ?s)"
    by (rule content_of_node [OF wf ps]) (use d in simp)
  with stat_of_ok [of "node_name ps" "count_children (zk_lib ?s) (node_dir (node_name ps))" "int (length d)" ?s] d w s ok fs_at_node [OF wf ps]
  show ?thesis
    by (auto simp: stub_aget_def px_defs lib_get_def completed answers_def session_ok_def lib_quiet_def)
qed

lemma stub_aget_children_ok:
  assumes s: "session_ok k s" "zk_contexts s i = Some c" and ps: "list_all plain_part ps"
  shows "\<exists>s' ns. stub_aget_children (run_upcall env con) zh (node_name ps) watch i s = Some (Inr ZOK, s')
    \<and> answers k i (c\<lparr>sc_children := sc_children c @ ns, sc_rc := (if tree s ps = None then ZNONODE else ZOK), sc_done := True\<rparr>) (tree s) s'
    \<and> mset ns = (if tree s ps = None then {#} else mset_set {n. tree s (ps @ [n]) \<noteq> None})"
proof -
  note ok = session_okD [OF s(1)]
  obtain w where w: "global_watch watch (node_name ps) W_CHILD s = Some (Inr (), s\<lparr>zk_lib := (zk_lib s)\<lparr>st_watchers := w\<rparr>\<rparr>)" "watches_ok w"
    using global_watch_ok [OF ok(1) node_name_not_Nil] by blast
  let ?s = "s\<lparr>zk_lib := (zk_lib s)\<lparr>st_watchers := w\<rparr>\<rparr>"
  have wf: "fs_wf (st_fs (zk_lib ?s))" using ok(3) by simp
  have names: "mset (listed (zk_lib ?s) (node_dir (node_name ps))) = mset_set {n. tree s (ps @ [n]) \<noteq> None}"
    using names_in_children [OF wf ps] by (simp add: listed_def node_dir_parts(1) [OF plain_normal [OF ps]])
  have fin: "finite {n. tree s (ps @ [n]) \<noteq> None}"
    by (rule finite_subset [OF _ finite_imageI [OF finite_set [of "st_fs (zk_lib s)"], of "\<lambda>e. last (fst e)"]])
      (force simp: fs_tree_def dest: smap_find_mem split: option.splits)
  have "CHR 0x00 \<notin> set n" if "n \<in> set (listed (zk_lib ?s) (node_dir (node_name ps)))" for n
  proof -
    have "tree s (ps @ [n]) \<noteq> None" using that names fin by (metis (mono_tags, lifting) elem_mset_set mem_Collect_eq set_mset_mset)
    then show ?thesis using tree_plain [OF ok(3), of "ps @ [n]"] by (simp add: plain_part_def)
  qed
  then have clean: "map c_str (listed (zk_lib ?s) (node_dir (node_name ps))) = listed (zk_lib ?s) (node_dir (node_name ps))"
    by (intro map_idI) (auto simp: c_str_def takeWhile_eq_all_conv)
  show ?thesis
  proof (cases "tree s ps")
    case None
    then show ?thesis
      using w s ok fs_at_node [OF wf ps]
      by (intro exI [of _ "?s\<lparr>zk_contexts := (zk_contexts s)(i \<mapsto> c\<lparr>sc_rc := ZNONODE, sc_done := True\<rparr>)\<rparr>"] exI [of _ "[]"])
        (simp add: stub_aget_children_def px_defs lib_get_def completed answers_def session_ok_def lib_quiet_def)
  next
    case (Some d)
    then show ?thesis
      using w s ok fs_at_node [OF wf ps] names clean
      by (intro exI [of _ "?s\<lparr>zk_contexts := (zk_contexts s)(i \<mapsto> c\<lparr>
            sc_children := sc_children c @ listed (zk_lib ?s) (node_dir (node_name ps)), sc_rc := ZOK, sc_done := True\<rparr>)\<rparr>"]
          exI [of _ "listed (zk_lib ?s) (node_dir (node_name ps))"])
        (simp add: stub_aget_children_def px_defs lib_get_def completed answers_def session_ok_def lib_quiet_def)
  qed
qed

lemma stub_aset_ok:
  assumes k: "consts_ok k" and s: "session_ok k s" "zk_contexts s i = Some c" and ps: "list_all plain_part ps"
  shows "\<exists>s'. stub_aset k (run_upcall env con) zh (node_name ps) d v i s = Some (Inr ZOK, s')
    \<and> answers k i (c\<lparr>sc_rc := (if tree s ps = None then ZNONODE else ZOK), sc_done := True\<rparr>) (if tree s ps = None then tree s else (tree s)(ps \<mapsto> d)) s'"
proof (cases "tree s ps = None")
  case True
  then show ?thesis
    using s session_okD [OF s(1)] fs_at_node [OF session_okD(3) [OF s(1)] ps]
    by (simp add: stub_aset_def px_defs lib_get_def completed answers_def session_ok_def lib_quiet_def)
next
  case False
  note ok = session_okD [OF s(1)] and parts = node_dir_parts [OF plain_normal [OF ps]]
  let ?fs = "smap_put (zoo_root # ps @ [''.content'']) (FFile d) (st_fs (zk_lib s))"
  let ?l = "addUpdateEvent k (node_name ps) ((zk_lib s)\<lparr>st_fs := ?fs, st_txn_id := st_txn_id (zk_lib s) + 1\<rparr>)"
  let ?s = "s\<lparr>zk_lib := bump_version (node_name ps) ?l\<rparr>"
  have put: "file_put (node_dir (node_name ps) @ ''/.content'') d s = Some (Inr (), s\<lparr>zk_lib := (zk_lib s)\<lparr>st_fs := ?fs\<rparr>\<rparr>)"
    using False node_dir_iff [OF ok(3) ps] content_iff [OF ok(3), of ps]
    by (auto simp: file_put_def lib_get_def lib_do_def px_defs fs_at_def parts butlast_append)
  have got: "file_text (node_dir (node_name ps) @ ''/.content'') (s\<lparr>zk_lib := ?l\<rparr>) = Some (Inr d, s\<lparr>zk_lib := ?l\<rparr>)"
    by (simp add: file_text_def lib_get_def px_defs fs_at_def parts smap_find_put)
  have "list_all (event_ok k) (st_queue ?l)" by (rule tree_events(3) [OF k]) (use ok in simp)
  moreover have "fs_wf ?fs" "fs_tree ?fs = (tree s)(ps \<mapsto> d)" using fs_wf_put_data [OF ok(3) ps False] by auto
  moreover obtain st where "stat_of (node_name ps) (count_children (zk_lib s) (node_dir (node_name ps))) (int (length d)) ?s =
      Some (Inr st, ?s\<lparr>zk_lib := (zk_lib ?s)\<lparr>st_readings := Suc (Suc (st_readings (zk_lib ?s)))\<rparr>\<rparr>)"
    using stat_of_ok by blast
  ultimately show ?thesis
    using False s ok put got fs_at_node [OF ok(3) ps]
    by (auto simp: stub_aset_def px_defs lib_get_def lib_do_def completed answers_def session_ok_def lib_quiet_def bump_version_def)
qed

lemma create_directory_node:
  assumes wf: "fs_wf (st_fs (zk_lib s))" and ps: "list_all plain_part (ps @ [q])" and parent: "tree s ps \<noteq> None" and new: "tree s (ps @ [q]) = None"
  shows "create_directory (node_dir (node_name (ps @ [q]))) s =
    Some (Inr (), s\<lparr>zk_lib := (zk_lib s)\<lparr>st_fs := smap_put (zoo_root # ps @ [q]) FDir (st_fs (zk_lib s))\<rparr>\<rparr>)"
  using node_dir_iff [OF wf ps] node_dir_iff [OF wf, of ps] ps parent new
  by (simp add: create_directory_def lib_get_def lib_do_def px_defs fs_at_def node_dir_parts(1) [OF plain_normal [OF ps]] butlast_append)

lemma put_content_node:
  assumes wf: "fs_wf (st_fs (zk_lib s))" and ps: "list_all plain_part ps" and there: "tree s ps = Some []"
  shows "\<exists>fs. px_when (v \<noteq> []) (file_put (node_dir (node_name ps) @ ''/.content'') v) s = Some (Inr (), s\<lparr>zk_lib := (zk_lib s)\<lparr>st_fs := fs\<rparr>\<rparr>)
    \<and> fs_wf fs \<and> fs_tree fs = (tree s)(ps \<mapsto> v)"
proof (cases "v = []")
  case True
  then show ?thesis using wf there by (intro exI [of _ "st_fs (zk_lib s)"]) (auto simp: px_defs)
next
  case False
  let ?fs = "smap_put (zoo_root # ps @ [''.content'']) (FFile v) (st_fs (zk_lib s))"
  have "px_when (v \<noteq> []) (file_put (node_dir (node_name ps) @ ''/.content'') v) s = Some (Inr (), s\<lparr>zk_lib := (zk_lib s)\<lparr>st_fs := ?fs\<rparr>\<rparr>)"
    using False there node_dir_iff [OF wf ps] content_iff [OF wf, of ps]
    by (auto simp: file_put_def lib_get_def lib_do_def px_defs fs_at_def node_dir_parts [OF plain_normal [OF ps]] butlast_append)
  moreover have "fs_wf ?fs" "fs_tree ?fs = (tree s)(ps \<mapsto> v)" using fs_wf_put_data [OF wf ps] there by auto
  ultimately show ?thesis by blast
qed

definition create_rc :: "ztree \<Rightarrow> string list \<Rightarrow> int" where
  "create_rc t ps = (if t ps \<noteq> None then ZNODEEXISTS else if t (butlast ps) = None then ZNONODE else ZOK)"

lemma stub_acreate_ok:
  assumes k: "consts_ok k" and s: "session_ok k s" "zk_contexts s i = Some c" and ps: "list_all plain_part ps"
  shows "\<exists>s' p. stub_acreate k (run_upcall env con) zh (node_name ps) v 0 i s = Some (Inr ZOK, s')
    \<and> answers k i (c\<lparr>sc_path := p, sc_rc := create_rc (tree s) ps, sc_done := True\<rparr>)
        (if create_rc (tree s) ps = ZOK then (tree s)(ps \<mapsto> v) else tree s) s'"
proof (cases "tree s ps = None")
  case False
  then obtain y where "tree s ps = Some y" by blast
  then show ?thesis
    using s session_okD [OF s(1)] fs_at_node [OF session_okD(3) [OF s(1)] ps]
    by (intro exI [of _ "s\<lparr>zk_contexts := (zk_contexts s)(i \<mapsto> c\<lparr>sc_rc := ZNODEEXISTS, sc_done := True\<rparr>)\<rparr>"] exI [of _ "sc_path c"])
      (simp add: stub_acreate_def px_defs lib_get_def completed answers_def session_ok_def lib_quiet_def create_rc_def ZNODEEXISTS_def ZOK_def Let_def)
next
  case True
  note ok = session_okD [OF s(1)]
  have "tree s [] \<noteq> None" using fs_wfD(2) [OF ok(3)] by (simp add: fs_tree_def)
  with True obtain qs q where q: "ps = qs @ [q]" by (cases ps rule: rev_cases) auto
  have qs: "list_all plain_part qs" using ps q by simp
  have at: "fs_at (zk_lib s) (node_dir (node_name ps)) = None" using True fs_at_node [OF ok(3) ps] by simp
  have par: "fs_at (zk_lib s) (parent_path (node_dir (node_name ps))) = (if tree s qs = None then None else Some FDir)"
    using parent_node_dir [OF plain_normal [OF ps [unfolded q]]] node_dir_iff [OF ok(3) qs] q by (simp add: fs_at_def)
  show ?thesis
  proof (cases "tree s qs = None")
    case False
    let ?l = "(addCreateEvent k (node_name ps) ((zk_lib s)\<lparr>st_txn_id := st_txn_id (zk_lib s) + 1\<rparr>))
      \<lparr>st_txnIds := smap_put (node_name ps) (st_txn_id (zk_lib s) + 1) (st_txnIds (zk_lib s)), st_versions := smap_put (node_name ps) 0 (st_versions (zk_lib s))\<rparr>"
    let ?s1 = "s\<lparr>zk_lib := ?l\<rparr>"
    let ?s2 = "s\<lparr>zk_lib := ?l\<lparr>st_fs := smap_put (zoo_root # ps) FDir (st_fs (zk_lib s))\<rparr>\<rparr>"
    have "create_directory (node_dir (node_name ps)) ?s1 = Some (Inr (), ?s2)"
      using create_directory_node [of ?s1 qs q] ok(3) ps False True q by simp
    moreover have "fs_wf (st_fs (zk_lib ?s2))" and t2: "tree ?s2 = (tree s)(ps \<mapsto> [])"
      using fs_wf_put_dir [OF ok(3) ps [unfolded q]] False True q by simp_all
    moreover obtain fs where fs: "px_when (v \<noteq> []) (file_put (node_dir (node_name ps) @ ''/.content'') v) ?s2 =
        Some (Inr (), ?s2\<lparr>zk_lib := (zk_lib ?s2)\<lparr>st_fs := fs\<rparr>\<rparr>)" "fs_wf fs" "fs_tree fs = (tree ?s2)(ps \<mapsto> v)"
      using put_content_node [of ?s2 ps v] calculation ps by fastforce
    moreover have "list_all (event_ok k) (st_queue ?l)"
      using tree_events(1) [OF k, of "(zk_lib s)\<lparr>st_txn_id := st_txn_id (zk_lib s) + 1\<rparr>"] ok by simp
    moreover obtain y where "tree s qs = Some y" using False by blast
    ultimately show ?thesis
      using True s ok at par q
      by (intro exI [of _ "?s2\<lparr>zk_lib := (zk_lib ?s2)\<lparr>st_fs := fs\<rparr>, zk_contexts := (zk_contexts s)(i \<mapsto> c\<lparr>sc_path := c_str (node_name ps), sc_rc := ZOK, sc_done := True\<rparr>)\<rparr>"]
          exI [of _ "c_str (node_name ps)"])
        (simp add: stub_acreate_def px_bind_def px_then_def px_get_def px_modify_def px_return_def lib_get_def lib_do_def completed
          answers_def session_ok_def lib_quiet_def create_rc_def Let_def)
  next
    case par_none: True
    with True at par q s ok show ?thesis
      by (intro exI [of _ "s\<lparr>zk_contexts := (zk_contexts s)(i \<mapsto> c\<lparr>sc_rc := ZNONODE, sc_done := True\<rparr>)\<rparr>"] exI [of _ "sc_path c"])
        (simp add: stub_acreate_def px_defs lib_get_def completed answers_def session_ok_def lib_quiet_def create_rc_def ZNONODE_def ZOK_def Let_def)
  qed
qed

lemma stub_adelete_ok:
  assumes k: "consts_ok k" and s: "session_ok k s" "zk_contexts s i = Some c" and ps: "list_all plain_part ps" "ps \<noteq> []"
  shows "\<exists>s'. stub_adelete k (run_upcall env con) zh (node_name ps) v i s = Some (Inr ZOK, s')
    \<and> answers k i (c\<lparr>sc_rc := (if tree s ps = None then ZNONODE else ZOK), sc_done := True\<rparr>)
        (if tree s ps = None then tree s else (\<lambda>qs. if is_under ps qs then None else tree s qs)) s'"
proof (cases "tree s ps = None")
  case True
  then show ?thesis
    using s session_okD [OF s(1)] fs_at_node [OF session_okD(3) [OF s(1)] ps(1)]
    by (simp add: stub_adelete_def px_defs lib_get_def completed answers_def session_ok_def lib_quiet_def)
next
  case False
  note ok = session_okD [OF s(1)]
  let ?l = "addDeleteEvent k (node_name ps) ((zk_lib s)\<lparr>st_txn_id := st_txn_id (zk_lib s) + 1, st_versions := smap_put (node_name ps) (- 1) (st_versions (zk_lib s))\<rparr>)"
  have "list_all (event_ok k) (st_queue ?l)" by (rule tree_events(2) [OF k]) (use ok in simp)
  moreover obtain y where "tree s ps = Some y" using False by blast
  ultimately show ?thesis
    using s ok fs_at_node [OF ok(3) ps(1)] fs_wf_remove [OF ok(3) ps]
    by (cases "count_children (zk_lib s) (node_dir (node_name ps)) = 0")
      (simp_all add: stub_adelete_def px_defs lib_get_def lib_do_def remove_all_def node_dir_parts [OF plain_normal [OF ps(1)]]
        completed answers_def session_ok_def lib_quiet_def)
qed

section \<open>Calls of the client\<close>

lemma over_stubD:
  assumes "over_stub env"
  shows "consts_ok (ze_k env)"
    and "zoo_init (ze_lib env) = stub_init (ze_k env)" and "zoo_client_id (ze_lib env) = stub_client_id"
    and "zoo_time (ze_lib env) = stub_time" and "zoo_aexists (ze_lib env) = stub_aexists" and "zoo_aget (ze_lib env) = stub_aget"
    and "zoo_aset (ze_lib env) = stub_aset (ze_k env)" and "zoo_acreate (ze_lib env) = stub_acreate (ze_k env)"
    and "zoo_adelete (ze_lib env) = stub_adelete (ze_k env)" and "zoo_aget_children (ze_lib env) = stub_aget_children"
  using assms unfolding over_stub_def stub_lib_def by (metis zoolib.simps)+

lemma zk_connect_live: "over_stub env \<Longrightarrow> zk_connected s \<Longrightarrow> zk_connect env s = Some (Inr (), s)"
  by (cases "ze_depth env") (simp_all add: zk_connect_def over_stub_def connect_body_def px_defs)

lemma drained_same [simp]:
  "zk_contexts (drained k s) = zk_contexts s" "zk_stat (drained k s) = zk_stat s" "st_fs (zk_lib (drained k s)) = st_fs (zk_lib s)"
  by (simp_all add: drained_def Let_def)

lemma session_ok_drained: "session_ok k s \<Longrightarrow> session_ok k (drained k s)"
  by (simp add: session_ok_def quiet_drained) (simp add: drained_def Let_def)

lemma zk_sync_done:
  assumes "over_stub env" and "session_ok (ze_k env) s" and "zk_contexts s i = Some c" and "sc_done c"
  shows "zk_sync env i s = Some (Inr (), drained (ze_k env) s)"
  unfolding zk_sync_def
  by (subst repeat_until.simps)
    (use yield_quiet [OF assms(1) session_okD(1) [OF assms(2)]] assms(3,4) in \<open>simp add: while_again_def zk_yield_def px_defs\<close>)

text \<open>Whatever the library answers at once, the client has after one round of events.\<close>

lemma zk_call_ok:
  assumes env: "over_stub env" and s: "session_ok (ze_k env) s"
    and req: "\<And>call h i s0. call = run_upcall env (zk_connect env) \<Longrightarrow> session_ok (ze_k env) s0 \<Longrightarrow> tree s0 = tree s \<Longrightarrow> zk_contexts s0 i = Some c
      \<Longrightarrow> \<exists>s1 c1. request call h i s0 = Some (Inr ZOK, s1) \<and> answers (ze_k env) i c1 t s1 \<and> sc_done c1 \<and> Q c1 (zk_stat s1)"
  shows "\<exists>s' c'. zk_call env c label request s = Some (Inr c', s') \<and> session_ok (ze_k env) s' \<and> tree s' = t \<and> Q c' (zk_stat s')"
proof -
  let ?i = "zk_next s"
  let ?s0 = "s\<lparr>zk_next := Suc ?i, zk_contexts := (zk_contexts s)(?i \<mapsto> c)\<rparr>"
  have s0: "session_ok (ze_k env) ?s0" using s by (simp add: session_ok_def lib_quiet_def)
  obtain s1 c1 where r: "request (run_upcall env (zk_connect env)) (zk_handle s) ?i ?s0 = Some (Inr ZOK, s1)"
      and a: "answers (ze_k env) ?i c1 t s1" "sc_done c1" "Q c1 (zk_stat s1)"
    using req [OF refl s0, of ?i "zk_handle s"] by auto
  let ?s2 = "drained (ze_k env) s1"
  have "zk_sync env ?i s1 = Some (Inr (), ?s2)"
    by (rule zk_sync_done [OF env]) (use a in \<open>auto simp: answers_def\<close>)
  with r a have "zk_call env c label request s = Some (Inr c1, ?s2\<lparr>zk_contexts := (zk_contexts ?s2)(?i := None)\<rparr>)"
    by (simp add: zk_call_def with_context_def Let_def px_defs answers_def)
  moreover have "session_ok (ze_k env) (?s2\<lparr>zk_contexts := (zk_contexts ?s2)(?i := None)\<rparr>)"
    using session_ok_drained [of "ze_k env" s1] a(1) by (simp add: answers_def session_ok_def lib_quiet_def)
  ultimately show ?thesis using a by (auto simp: answers_def)
qed

lemma node_pathD:
  assumes "node_path p"
  shows "c_str (normalize_path p) = node_name (fs_path p)" and "list_all plain_part (fs_path p)"
    and "node_path (normalize_path p)" and "fs_path (normalize_path p) = fs_path p"
proof -
  have n: "normalize_path p = node_name (fs_path p)" by (rule node_path_name [OF assms])
  have c: "CHR 0x00 \<notin> set p" using assms by (simp add: node_path_def)
  show cs: "c_str (normalize_path p) = node_name (fs_path p)" using n node_name_clean [OF c] by simp
  show pl: "list_all plain_part (fs_path p)" using assms by (simp add: node_path_def)
  show f: "fs_path (normalize_path p) = fs_path p"
    unfolding n using fs_path_slashed(1) [OF plain_normal [OF pl]] by (auto simp: node_name_def fs_path_def)
  have "CHR 0x00 \<notin> set (normalize_path p)" using cs n by (auto simp: c_str_def takeWhile_eq_all_conv)
  with f pl assms show "node_path (normalize_path p)"
    using normalize_path_idem [of p] by (simp add: node_path_def)
qed

lemma zk_exists_ok:
  assumes env: "over_stub env" and s: "session_ok (ze_k env) s" and p: "node_path p"
  shows "\<exists>s'. zk_exists env p w s = Some (Inr (tree s (fs_path p) \<noteq> None), s') \<and> session_ok (ze_k env) s' \<and> tree s' = tree s
    \<and> (\<forall>d. tree s (fs_path p) = Some d \<longrightarrow> zs_dataLength (zk_stat s') = int (length d))"
proof -
  note path = node_pathD [OF p]
  let ?Q = "\<lambda>c st. sc_rc c = (if tree s (fs_path p) = None then ZNONODE else ZOK)
    \<and> (\<forall>d. tree s (fs_path p) = Some d \<longrightarrow> zs_dataLength st = int (length d))"
  have "\<exists>s' c'. zk_call env (SyncContext ''exists'') ''zoo_aexists'' (\<lambda>call h i. zoo_aexists (ze_lib env) call h (c_str (normalize_path p)) w i) s
      = Some (Inr c', s') \<and> session_ok (ze_k env) s' \<and> tree s' = tree s \<and> ?Q c' (zk_stat s')"
    by (rule zk_call_ok [OF env s], drule stub_aexists_ok [OF _ _ path(2)]) (fastforce simp: over_stubD(5) [OF env] path(1))+
  then show ?thesis
    using zk_connect_live [OF env] session_okD(2) [OF s]
    by (auto simp: zk_exists_def Let_def px_defs ZNONODE_def ZOK_def)
qed

lemma zk_get_ok:
  assumes env: "over_stub env" and s: "session_ok (ze_k env) s" and p: "node_path p"
  shows "\<exists>s'. zk_get env p v w s = Some (case tree s (fs_path p) of
      None \<Rightarrow> Inl (throw_from_zkcode (zoo_error (ze_lib env)) ZNONODE (''failed to get '' @ normalize_path p)) | Some d \<Rightarrow> Inr d, s')
    \<and> session_ok (ze_k env) s' \<and> tree s' = tree s"
proof -
  note path = node_pathD [OF p]
  obtain s1 where e: "zk_exists env (normalize_path p) False s = Some (Inr (tree s (fs_path p) \<noteq> None), s1)"
      and s1: "session_ok (ze_k env) s1" "tree s1 = tree s" "\<forall>d. tree s (fs_path p) = Some d \<longrightarrow> zs_dataLength (zk_stat s1) = int (length d)"
    using zk_exists_ok [OF env s path(3), of False] path(4) by auto
  show ?thesis
  proof (cases "tree s (fs_path p)")
    case None
    with e s1 show ?thesis using zk_connect_live [OF env session_okD(2) [OF s]] by (simp add: zk_get_def get_with_def Let_def px_defs)
  next
    case (Some d)
    let ?v = "take (nat (int (length d))) v @ replicate (nat (int (length d)) - length v) (CHR 0x00)"
    have "\<exists>s' c'. zk_call env ((SyncContext ''get'')\<lparr>sc_data := ?v\<rparr>) ''zoo_aget'' (\<lambda>call h i. zoo_aget (ze_lib env) call h (c_str (normalize_path p)) w i) s1
        = Some (Inr c', s') \<and> session_ok (ze_k env) s' \<and> tree s' = tree s \<and> (sc_rc c' = ZOK \<and> sc_data c' = d)"
      by (rule zk_call_ok [OF env s1(1)], drule stub_aget_ok [OF _ _ path(2)]) (fastforce simp: over_stubD(6) [OF env] path(1) Some s1(2))+
    then show ?thesis
      using e s1 Some zk_connect_live [OF env session_okD(2) [OF s]]
      by (auto simp: zk_get_def get_with_def Let_def px_defs str_resize_def zk_check_def)
  qed
qed

lemma zk_set_ok:
  assumes env: "over_stub env" and s: "session_ok (ze_k env) s" and p: "node_path p"
  shows "\<exists>s'. zk_set env p d ver s = Some (if tree s (fs_path p) = None
      then Inl (throw_from_zkcode (zoo_error (ze_lib env)) ZNONODE (''failed to set '' @ normalize_path p)) else Inr (), s')
    \<and> session_ok (ze_k env) s' \<and> tree s' = (if tree s (fs_path p) = None then tree s else (tree s)(fs_path p \<mapsto> d))"
proof -
  note path = node_pathD [OF p] and k = over_stubD(1) [OF env]
  have "\<exists>s' c'. zk_call env (SyncContext ''set'') ''zoo_aset'' (\<lambda>call h i. zoo_aset (ze_lib env) call h (c_str (normalize_path p)) d ver i) s
      = Some (Inr c', s') \<and> session_ok (ze_k env) s' \<and> tree s' = (if tree s (fs_path p) = None then tree s else (tree s)(fs_path p \<mapsto> d))
      \<and> sc_rc c' = (if tree s (fs_path p) = None then ZNONODE else ZOK)"
    by (rule zk_call_ok [OF env s]) (use stub_aset_ok [OF k _ _ path(2), where env = env and con = "zk_connect env" and d = d and v = ver] in \<open>fastforce simp: over_stubD(7) [OF env] path(1)\<close>)
  then show ?thesis
    using zk_connect_live [OF env session_okD(2) [OF s]]
    by (auto simp: zk_set_def Let_def px_defs zk_check_def ZNONODE_def ZOK_def)
qed

lemma zk_create_ok:
  assumes env: "over_stub env" and s: "session_ok (ze_k env) s" and p: "node_path p"
  shows "\<exists>s'. zk_create_const env p d TYPE_PLAIN s = Some (if create_rc (tree s) (fs_path p) \<noteq> ZOK
      then Inl (throw_from_zkcode (zoo_error (ze_lib env)) (create_rc (tree s) (fs_path p)) (''failed to create '' @ normalize_path p)) else Inr (), s')
    \<and> session_ok (ze_k env) s' \<and> tree s' = (if create_rc (tree s) (fs_path p) = ZOK then (tree s)(fs_path p \<mapsto> d) else tree s)"
proof -
  note path = node_pathD [OF p] and k = over_stubD(1) [OF env]
  have "\<exists>s' c'. zk_call env (SyncContext ''create'') ''zoo_acreate''
        (\<lambda>call h i. zoo_acreate (ze_lib env) call h (c_str (normalize_path p)) d (flagsFromNodeType (ze_k env) TYPE_PLAIN) i) s
      = Some (Inr c', s') \<and> session_ok (ze_k env) s' \<and> tree s' = (if create_rc (tree s) (fs_path p) = ZOK then (tree s)(fs_path p \<mapsto> d) else tree s)
      \<and> sc_rc c' = create_rc (tree s) (fs_path p)"
    by (rule zk_call_ok [OF env s])
      (use stub_acreate_ok [OF k _ _ path(2), where env = env and con = "zk_connect env" and v = d] in \<open>fastforce simp: over_stubD(8) [OF env] path(1) flagsFromNodeType_def\<close>)
  then show ?thesis
    using zk_connect_live [OF env session_okD(2) [OF s]]
    by (auto simp: zk_create_const_def create_with_def Let_def px_defs zk_check_def)
qed

lemma zk_del_ok:
  assumes env: "over_stub env" and s: "session_ok (ze_k env) s" and p: "node_path p" "fs_path p \<noteq> []"
  shows "\<exists>s'. zk_del env p ver s = Some (if tree s (fs_path p) = None
      then Inl (throw_from_zkcode (zoo_error (ze_lib env)) ZNONODE (''failed to delete '' @ normalize_path p)) else Inr (), s')
    \<and> session_ok (ze_k env) s' \<and> tree s' = (if tree s (fs_path p) = None then tree s else (\<lambda>qs. if is_under (fs_path p) qs then None else tree s qs))"
proof -
  note path = node_pathD [OF p(1)] and k = over_stubD(1) [OF env]
  let ?t = "if tree s (fs_path p) = None then tree s else (\<lambda>qs. if is_under (fs_path p) qs then None else tree s qs)"
  let ?rc = "if tree s (fs_path p) = None then ZNONODE else ZOK"
  have "\<exists>s' c'. zk_call env (SyncContext ''delete'') ''zoo_adelete'' (\<lambda>call h i. zoo_adelete (ze_lib env) call h (c_str (normalize_path p)) ver i) s
      = Some (Inr c', s') \<and> session_ok (ze_k env) s' \<and> tree s' = ?t \<and> sc_rc c' = ?rc"
  proof (rule zk_call_ok [OF env s])
    fix call h i s0
    assume a: "call = run_upcall env (zk_connect env)" "session_ok (ze_k env) s0" "tree s0 = tree s" "zk_contexts s0 i = Some (SyncContext ''delete'')"
    obtain s1 where "stub_adelete (ze_k env) call h (node_name (fs_path p)) ver i s0 = Some (Inr ZOK, s1)"
        "answers (ze_k env) i ((SyncContext ''delete'')\<lparr>sc_rc := ?rc, sc_done := True\<rparr>) ?t s1"
      using stub_adelete_ok [OF k a(2,4) path(2) p(2), of env "zk_connect env" h ver] unfolding a(1,3) by blast
    then show "\<exists>s1 c1. zoo_adelete (ze_lib env) call h (c_str (normalize_path p)) ver i s0 = Some (Inr ZOK, s1)
        \<and> answers (ze_k env) i c1 ?t s1 \<and> sc_done c1 \<and> sc_rc c1 = ?rc"
      by (intro exI [of _ s1] exI [of _ "(SyncContext ''delete'')\<lparr>sc_rc := ?rc, sc_done := True\<rparr>"]) (simp add: over_stubD(9) [OF env] path(1))
  qed
  then show ?thesis
    using zk_connect_live [OF env session_okD(2) [OF s]]
    by (auto simp: zk_del_def Let_def px_defs zk_check_def ZNONODE_def ZOK_def)
qed

lemma zk_children_ok:
  assumes env: "over_stub env" and s: "session_ok (ze_k env) s" and p: "node_path p"
  shows "\<exists>s' ns. zk_children env p w s = Some (if tree s (fs_path p) = None
      then Inl (throw_from_zkcode (zoo_error (ze_lib env)) ZNONODE (''failed to get children for '' @ normalize_path p)) else Inr ns, s')
    \<and> session_ok (ze_k env) s' \<and> tree s' = tree s \<and> mset ns = (if tree s (fs_path p) = None then {#} else mset_set {n. tree s (fs_path p @ [n]) \<noteq> None})"
proof -
  note path = node_pathD [OF p]
  have "\<exists>s' c'. zk_call env (SyncContext ''get_children'') ''zoo_aget_children''
        (\<lambda>call h i. zoo_aget_children (ze_lib env) call h (c_str (normalize_path p)) w i) s
      = Some (Inr c', s') \<and> session_ok (ze_k env) s' \<and> tree s' = tree s \<and> (sc_rc c' = (if tree s (fs_path p) = None then ZNONODE else ZOK)
      \<and> mset (sc_children c') = (if tree s (fs_path p) = None then {#} else mset_set {n. tree s (fs_path p @ [n]) \<noteq> None}))"
    by (rule zk_call_ok [OF env s], drule stub_aget_children_ok [OF _ _ path(2)])
      (fastforce simp: over_stubD(10) [OF env] path(1) SyncContext_def)+
  then obtain s' c' where c: "zk_call env (SyncContext ''get_children'') ''zoo_aget_children''
        (\<lambda>call h i. zoo_aget_children (ze_lib env) call h (c_str (normalize_path p)) w i) s = Some (Inr c', s')"
      "session_ok (ze_k env) s'" "tree s' = tree s" "sc_rc c' = (if tree s (fs_path p) = None then ZNONODE else ZOK)"
      "mset (sc_children c') = (if tree s (fs_path p) = None then {#} else mset_set {n. tree s (fs_path p @ [n]) \<noteq> None})"
    by blast
  then show ?thesis
    using zk_connect_live [OF env session_okD(2) [OF s]]
    by (intro exI [of _ s'] exI [of _ "sc_children c'"])
      (auto simp: zk_children_def children_with_def Let_def px_defs zk_check_def ZNONODE_def ZOK_def)
qed

end
