(* ===== verification/GB_ZooSession.thy ===== *)
theory GB_ZooSession
  imports GB_ZooClient
begin

text \<open>
  Sessions of the ZooKeeper client: when the constructor connects, and what a sequence of calls answers. The reference is a tree as a map from paths to data.
\<close>

section \<open>Connecting\<close>

definition fresh :: "stub \<Rightarrow> bool" where
  "fresh l \<longleftrightarrow> st_queue l = [] \<and> st_watchers l = [] \<and> fs_wf (st_fs l)"

text \<open>What \<^verbatim>\<open>zookeeper_init\<close> and the first reading of the clock leave.\<close>

definition zk_opened :: "zoo_consts \<Rightarrow> string \<Rightarrow> int \<Rightarrow> stub \<Rightarrow> stub zk" where
  "zk_opened k connection timeout l =
     (new_zk connection timeout ((set_watch [] Watcher_fn W_ANY (l\<lparr>st_cid := 1234, st_queue := st_queue l @ [ZooEvent k (ZOO_SESSION_EVENT k) None]\<rparr>))
        \<lparr>st_readings := Suc (st_readings l)\<rparr>))\<lparr>zk_handle := Some 1\<rparr>"

lemma opened_quiet: "fresh l \<Longrightarrow> lib_quiet k (zk_opened k c t l)"
  by (simp add: zk_opened_def fresh_def lib_quiet_def new_zk_def set_watch_def event_ok_def ZooEvent_def watches_ok_def smap_find_def)

lemma connect_loop:
  assumes env: "over_stub env" and l: "fresh l"
  shows "\<exists>s. repeat_until (while_again (connect_look env con expires)) (zk_opened (ze_k env) c t l) = Some (Inr (), s)
    \<and> zk_connected s = (st_clock l (Suc (st_readings l)) < expires) \<and> (zk_connected s \<longrightarrow> session_ok (ze_k env) s)
    \<and> zk_handle s = Some 1 \<and> st_fs (zk_lib s) = st_fs l"
proof -
  let ?k = "ze_k env" and ?o = "zk_opened (ze_k env) c t l"
  let ?s = "?o\<lparr>zk_lib := (zk_lib ?o)\<lparr>st_readings := Suc (st_readings (zk_lib ?o))\<rparr>\<rparr>"
  have clock: "stub_time ?o = Some (Inr (st_clock l (Suc (st_readings l))), ?s)"
    by (simp add: stub_time_def lib_get_def lib_do_def px_defs zk_opened_def new_zk_def set_watch_def)
  have off: "\<not> zk_connected ?o" "zk_handle ?o = Some 1" "st_fs (zk_lib ?o) = st_fs l" "st_queue (zk_lib ?o) \<noteq> []"
    by (simp_all add: zk_opened_def new_zk_def set_watch_def)
  have q: "lib_quiet ?k ?s" using opened_quiet [OF l] by (simp add: lib_quiet_def)
  show ?thesis
  proof (cases "st_clock l (Suc (st_readings l)) < expires")
    case False
    then show ?thesis
      using clock off by (subst repeat_until.simps) (simp add: while_again_def connect_look_def px_defs over_stubD(4) [OF env])
  next
    case True
    let ?d = "drained ?k ?s"
    have d: "zk_connected ?d" "zk_handle ?d = Some 1" using off by (simp_all add: drained_def Let_def)
    have "repeat_until (while_again (connect_look env con expires)) ?o = repeat_until (while_again (connect_look env con expires)) ?d"
      using True clock off yield_quiet [OF env q, of con]
      by (subst repeat_until.simps) (simp add: while_again_def connect_look_def px_defs over_stubD(4) [OF env])
    also have "\<dots> = Some (Inr (), ?d)"
      using d by (subst repeat_until.simps) (simp add: while_again_def connect_look_def px_defs)
    finally show ?thesis
      using True d off quiet_drained [OF q] l by (simp add: session_ok_def fresh_def)
  qed
qed

text \<open>The constructor, exactly: it connects when the second reading of the clock is within the whole seconds of the time-out after the first.\<close>

lemma ZooKeeper_new_spec:
  assumes env: "over_stub env" and l: "fresh l"
  shows "\<exists>s. ZooKeeper_new env c t l = Some (if st_clock l (Suc (st_readings l)) < st_clock l (st_readings l) + t sdiv 1000 then Inr ()
      else Inl (ERR_INTERNAL_SERVER_ERROR (''Failed to connect to ZooKeeper instance on: '' @ c)), s)
    \<and> (st_clock l (Suc (st_readings l)) < st_clock l (st_readings l) + t sdiv 1000 \<longrightarrow> session_ok (ze_k env) s \<and> tree s = fs_tree (st_fs l))"
proof -
  let ?now = "st_clock l (st_readings l)"
  obtain n where n: "ze_depth env = Suc n" using env by (cases "ze_depth env") (auto simp: over_stub_def)
  obtain s where s: "repeat_until (while_again (connect_look env (connect_in env n) (?now + t sdiv 1000))) (zk_opened (ze_k env) c t l) = Some (Inr (), s)"
      "zk_connected s = (st_clock l (Suc (st_readings l)) < ?now + t sdiv 1000)" "zk_connected s \<longrightarrow> session_ok (ze_k env) s"
      "zk_handle s = Some 1" "st_fs (zk_lib s) = st_fs l"
    using connect_loop [OF env l] by blast
  let ?z = "new_zk c t l"
  let ?z1 = "?z\<lparr>zk_lib := set_watch [] Watcher_fn W_ANY (l\<lparr>st_cid := 1234, st_queue := st_queue l @ [ZooEvent (ze_k env) (ZOO_SESSION_EVENT (ze_k env)) None]\<rparr>)\<rparr>"
  have "stub_init (ze_k env) (c_str c) Watcher_fn t None ?z = Some (Inr (Some 1), ?z1)"
    by (simp add: stub_init_def lib_do_def px_defs new_zk_def)
  moreover have "stub_time (?z1\<lparr>zk_handle := Some 1\<rparr>) = Some (Inr ?now, zk_opened (ze_k env) c t l)"
    by (simp add: stub_time_def lib_get_def lib_do_def px_defs new_zk_def zk_opened_def set_watch_def)
  moreover have "\<not> zk_connected ?z" "zk_connection ?z = c" "zk_timeout ?z = t" "zk_client_id ?z = None" by (simp_all add: new_zk_def)
  ultimately show ?thesis
    using s by (simp add: ZooKeeper_new_def zk_connect_def n connect_body_def over_stubD [OF env] px_defs stub_client_id_def lib_get_def session_ok_def lib_quiet_def)
qed

text \<open>
  C38: a client whose time-out is below one second cannot connect. The time-out is in milliseconds and the loop counts whole seconds, so that the loop
  ends before the first event is processed, unless the clock is turned back.
\<close>

theorem short_timeout_fails:
  assumes "over_stub env" and "fresh l" and "t < 1000" and "st_clock l (st_readings l) \<le> st_clock l (Suc (st_readings l))"
  shows "\<exists>s. ZooKeeper_new env c t l = Some (Inl (ERR_INTERNAL_SERVER_ERROR (''Failed to connect to ZooKeeper instance on: '' @ c)), s)"
proof -
  have "t sdiv 1000 \<le> 0"
  proof (cases "t < 0")
    case True
    then show ?thesis by (simp add: signed_divide_int_def sgn_if)
  next
    case False
    with assms(3) show ?thesis by (simp add: signed_divide_int_def sgn_if)
  qed
  with assms(4) have "\<not> st_clock l (Suc (st_readings l)) < st_clock l (st_readings l) + t sdiv 1000" by simp
  then show ?thesis using ZooKeeper_new_spec [OF assms(1,2), of c t] by auto
qed

section \<open>Sequences of calls\<close>

datatype zop = ZExists string bool | ZGet string bool | ZSet string string | ZCreate string string | ZDel string | ZChildren string bool

datatype zreply = ZBool bool | ZData string | ZDone | ZNames "string multiset" | ZFail int

definition zop_ok :: "zop \<Rightarrow> bool" where
  "zop_ok op = (case op of ZExists p _ \<Rightarrow> node_path p | ZGet p _ \<Rightarrow> node_path p | ZSet p _ \<Rightarrow> node_path p | ZCreate p _ \<Rightarrow> node_path p
     | ZDel p \<Rightarrow> node_path p \<and> fs_path p \<noteq> [] | ZChildren p _ \<Rightarrow> node_path p)"

text \<open>A call of the client, with the code of the error it throws.\<close>

definition zk_perform :: "stub zkenv \<Rightarrow> zop \<Rightarrow> zreply stubx" where
  "zk_perform env op =
     px_catch
       (case op of
          ZExists p w \<Rightarrow> px_bind (zk_exists env p w) (\<lambda>b. px_return (ZBool b))
        | ZGet p w \<Rightarrow> px_bind (zk_get env p [] w) (\<lambda>d. px_return (ZData d))
        | ZSet p d \<Rightarrow> px_then (zk_set env p d (- 1)) (px_return ZDone)
        | ZCreate p d \<Rightarrow> px_then (zk_create_const env p d TYPE_PLAIN) (px_return ZDone)
        | ZDel p \<Rightarrow> px_then (zk_del env p (- 1)) (px_return ZDone)
        | ZChildren p w \<Rightarrow> px_bind (zk_children env p w) (\<lambda>ns. px_return (ZNames (mset ns))))
       (\<lambda>e. case e of GbError c _ _ \<Rightarrow> px_return (ZFail c) | _ \<Rightarrow> px_throw e)"

primrec zk_session :: "stub zkenv \<Rightarrow> zop list \<Rightarrow> zreply list stubx" where
  "zk_session env [] = px_return []"
| "zk_session env (op # ops) = px_bind (zk_perform env op) (\<lambda>r. px_bind (zk_session env ops) (\<lambda>rs. px_return (r # rs)))"

text \<open>The same on a tree.\<close>

definition tree_perform :: "zop \<Rightarrow> ztree \<Rightarrow> zreply \<times> ztree" where
  "tree_perform op t = (case op of
     ZExists p _ \<Rightarrow> (ZBool (t (fs_path p) \<noteq> None), t)
   | ZGet p _ \<Rightarrow> (case t (fs_path p) of None \<Rightarrow> (ZFail 1101, t) | Some d \<Rightarrow> (ZData d, t))
   | ZSet p d \<Rightarrow> (if t (fs_path p) = None then (ZFail 1101, t) else (ZDone, t(fs_path p \<mapsto> d)))
   | ZCreate p d \<Rightarrow>
       (if t (fs_path p) \<noteq> None then (ZFail 1110, t)
        else if t (butlast (fs_path p)) = None then (ZFail 1101, t)
        else (ZDone, t(fs_path p \<mapsto> d)))
   | ZDel p \<Rightarrow> (if t (fs_path p) = None then (ZFail 1101, t) else (ZDone, \<lambda>qs. if is_under (fs_path p) qs then None else t qs))
   | ZChildren p _ \<Rightarrow> (if t (fs_path p) = None then (ZFail 1101, t) else (ZNames (mset_set {n. t (fs_path p @ [n]) \<noteq> None}), t)))"

primrec tree_session :: "zop list \<Rightarrow> ztree \<Rightarrow> zreply list \<times> ztree" where
  "tree_session [] t = ([], t)"
| "tree_session (op # ops) t = (let (r, t') = tree_perform op t; (rs, t'') = tree_session ops t' in (r # rs, t''))"

lemma zk_error_codes:
  "\<exists>w. throw_from_zkcode z ZNONODE m = GbError 1101 ''ZNONODE'' w"
  "\<exists>w. throw_from_zkcode z ZNODEEXISTS m = GbError 1110 ''ZNODEEXISTS'' w"
  by (simp_all add: throw_from_zkcode_def zk_error_table_def ZNONODE_def ZNODEEXISTS_def mk_error_def)

lemma zk_perform_refines:
  assumes env: "over_stub env" and s: "session_ok (ze_k env) s" and op: "zop_ok op"
  shows "\<exists>s'. zk_perform env op s = Some (Inr (fst (tree_perform op (tree s))), s') \<and> session_ok (ze_k env) s'
    \<and> tree s' = snd (tree_perform op (tree s))"
proof (cases op)
  case (ZExists p w)
  then obtain s' where "zk_exists env p w s = Some (Inr (tree s (fs_path p) \<noteq> None), s')" "session_ok (ze_k env) s'" "tree s' = tree s"
    using zk_exists_ok [OF env s, of p w] op by (auto simp: zop_ok_def)
  with ZExists show ?thesis by (simp add: zk_perform_def tree_perform_def px_defs)
next
  case (ZGet p w)
  then obtain s' where "zk_get env p [] w s = Some (case tree s (fs_path p) of
      None \<Rightarrow> Inl (throw_from_zkcode (zoo_error (ze_lib env)) ZNONODE (''failed to get '' @ normalize_path p)) | Some d \<Rightarrow> Inr d, s')"
      "session_ok (ze_k env) s'" "tree s' = tree s"
    using zk_get_ok [OF env s, of p "[]" w] op by (auto simp: zop_ok_def)
  with ZGet zk_error_codes(1) [of "zoo_error (ze_lib env)" "''failed to get '' @ normalize_path p"] show ?thesis
    by (auto simp: zk_perform_def tree_perform_def px_defs split: option.split)
next
  case (ZSet p d)
  then obtain s' where "zk_set env p d (- 1) s = Some (if tree s (fs_path p) = None
      then Inl (throw_from_zkcode (zoo_error (ze_lib env)) ZNONODE (''failed to set '' @ normalize_path p)) else Inr (), s')"
      "session_ok (ze_k env) s'" "tree s' = (if tree s (fs_path p) = None then tree s else (tree s)(fs_path p \<mapsto> d))"
    using zk_set_ok [OF env s, of p d "- 1"] op by (auto simp: zop_ok_def)
  with ZSet zk_error_codes(1) [of "zoo_error (ze_lib env)" "''failed to set '' @ normalize_path p"] show ?thesis
    by (cases "tree s (fs_path p)") (auto simp: zk_perform_def tree_perform_def px_defs)
next
  case (ZCreate p d)
  let ?rc = "create_rc (tree s) (fs_path p)"
  obtain s' where r: "zk_create_const env p d TYPE_PLAIN s = Some (if ?rc \<noteq> ZOK
      then Inl (throw_from_zkcode (zoo_error (ze_lib env)) ?rc (''failed to create '' @ normalize_path p)) else Inr (), s')"
      "session_ok (ze_k env) s'" "tree s' = (if ?rc = ZOK then (tree s)(fs_path p \<mapsto> d) else tree s)"
    using zk_create_ok [OF env s, of p d] op ZCreate by (auto simp: zop_ok_def)
  obtain w1 w2 where w: "throw_from_zkcode (zoo_error (ze_lib env)) ZNONODE (''failed to create '' @ normalize_path p) = GbError 1101 ''ZNONODE'' w1"
      "throw_from_zkcode (zoo_error (ze_lib env)) ZNODEEXISTS (''failed to create '' @ normalize_path p) = GbError 1110 ''ZNODEEXISTS'' w2"
    using zk_error_codes by metis
  have ne: "ZNONODE \<noteq> ZOK" "ZNODEEXISTS \<noteq> ZOK" by (simp_all add: ZNODEEXISTS_def ZNONODE_def ZOK_def)
  show ?thesis
    using r w ne
    by (cases "tree s (fs_path p)"; cases "tree s (butlast (fs_path p))")
      (simp_all add: ZCreate zk_perform_def tree_perform_def px_defs create_rc_def)
next
  case (ZDel p)
  then have p: "node_path p" "fs_path p \<noteq> []" using op by (simp_all add: zop_ok_def)
  obtain s' where "zk_del env p (- 1) s = Some (if tree s (fs_path p) = None
      then Inl (throw_from_zkcode (zoo_error (ze_lib env)) ZNONODE (''failed to delete '' @ normalize_path p)) else Inr (), s')"
      "session_ok (ze_k env) s'" "tree s' = (if tree s (fs_path p) = None then tree s else (\<lambda>qs. if is_under (fs_path p) qs then None else tree s qs))"
    using zk_del_ok [OF env s p, of "- 1"] by blast
  with ZDel zk_error_codes(1) [of "zoo_error (ze_lib env)" "''failed to delete '' @ normalize_path p"] show ?thesis
    by (cases "tree s (fs_path p)") (auto simp: zk_perform_def tree_perform_def px_defs)
next
  case (ZChildren p w)
  then obtain s' ns where "zk_children env p w s = Some (if tree s (fs_path p) = None
      then Inl (throw_from_zkcode (zoo_error (ze_lib env)) ZNONODE (''failed to get children for '' @ normalize_path p)) else Inr ns, s')"
      "session_ok (ze_k env) s'" "tree s' = tree s" "mset ns = (if tree s (fs_path p) = None then {#} else mset_set {n. tree s (fs_path p @ [n]) \<noteq> None})"
    using zk_children_ok [OF env s, of p w] op by (auto simp: zop_ok_def)
  with ZChildren zk_error_codes(1) [of "zoo_error (ze_lib env)" "''failed to get children for '' @ normalize_path p"] show ?thesis
    by (cases "tree s (fs_path p)") (auto simp: zk_perform_def tree_perform_def px_defs)
qed

lemma zk_session_refines:
  "over_stub env \<Longrightarrow> session_ok (ze_k env) s \<Longrightarrow> list_all zop_ok ops \<Longrightarrow>
   \<exists>s'. zk_session env ops s = Some (Inr (fst (tree_session ops (tree s))), s') \<and> tree s' = snd (tree_session ops (tree s))"
proof (induction ops arbitrary: s)
  case (Cons op ops)
  obtain s1 where 1: "zk_perform env op s = Some (Inr (fst (tree_perform op (tree s))), s1)" "session_ok (ze_k env) s1"
      "tree s1 = snd (tree_perform op (tree s))"
    using zk_perform_refines [OF Cons.prems(1,2), of op] Cons.prems(3) by auto
  with Cons.IH [OF Cons.prems(1) 1(2)] Cons.prems(3) show ?case
    by (auto simp: px_defs Let_def split: prod.split)
qed (simp add: px_defs)

text \<open>
  C19: the ZooKeeper client is a tree of nodes. Over the library of the unit tests, once the constructor has connected, every sequence of calls of
  \<^verbatim>\<open>exists\<close>, \<^verbatim>\<open>get\<close>, \<^verbatim>\<open>set\<close>, \<^verbatim>\<open>create\<close>, \<^verbatim>\<open>del\<close> and \<^verbatim>\<open>children\<close>, with or without watches, returns and gives exactly what the same calls give on a map from paths to
  data, however the paths are spelled: the data that were set last, the names of the nodes below, and the errors ZNONODE and ZNODEEXISTS where the tree has
  no such node, no parent for it, or has it already.
\<close>

theorem zookeeper_is_a_tree:
  assumes "over_stub env" and "fresh l" and "st_clock l (Suc (st_readings l)) < st_clock l (st_readings l) + t sdiv 1000" and "list_all zop_ok ops"
  shows "\<exists>s s'. ZooKeeper_new env c t l = Some (Inr (), s)
    \<and> zk_session env ops s = Some (Inr (fst (tree_session ops (fs_tree (st_fs l)))), s')
    \<and> fs_tree (st_fs (zk_lib s')) = snd (tree_session ops (fs_tree (st_fs l)))"
proof -
  obtain s where s: "ZooKeeper_new env c t l = Some (Inr (), s)" "session_ok (ze_k env) s" "tree s = fs_tree (st_fs l)"
    using ZooKeeper_new_spec [OF assms(1,2), of c t] assms(3) by auto
  with zk_session_refines [OF assms(1) s(2) assms(4)] show ?thesis by auto
qed

section \<open>A session\<close>

text \<open>The constants of the header of ZooKeeper, an environment without callbacks of the user, and an empty tree.\<close>

definition demo_consts :: zoo_consts where
  "demo_consts = \<lparr>ZOO_CREATED_EVENT = 1, ZOO_DELETED_EVENT = 2, ZOO_CHANGED_EVENT = 3, ZOO_CHILD_EVENT = 4, ZOO_SESSION_EVENT = - 1,
     ZOO_NOTWATCHING_EVENT = - 2, ZOO_EXPIRED_SESSION_STATE = - 112, ZOO_CONNECTED_STATE = 3, ZOO_EPHEMERAL = 1, ZOO_SEQUENCE = 2,
     ZOOKEEPER_READ = 2, ZOOKEEPER_WRITE = 1\<rparr>"

definition demo_zk :: "stub zkenv" where
  "demo_zk = \<lparr>ze_lib = stub_lib demo_consts (\<lambda>_. ''error''), ze_k = demo_consts, ze_user = (\<lambda>_ _ _ _. px_return ()), ze_depth = 1\<rparr>"

definition demo_stub :: stub where
  "demo_stub = \<lparr>st_fs = [([zoo_root], FDir)], st_queue = [], st_watchers = [], st_txnIds = [], st_versions = [], st_txn_id = 0, st_cid = 0,
     st_clock = (\<lambda>n. int n), st_readings = 0, st_garbage = zero_stat\<rparr>"

lemma demo_zk_ok: "over_stub demo_zk" "fresh demo_stub" "st_clock demo_stub n = int n" "st_readings demo_stub = 0"
proof -
  show "over_stub demo_zk" by (simp add: over_stub_def demo_zk_def consts_ok_def demo_consts_def stub_lib_def)
  show "fresh demo_stub" by (simp add: fresh_def demo_stub_def fs_wf_def smap_find_def fs_entry_ok_def)
qed (simp_all add: demo_stub_def)

theorem short_timeout_fails_witness:
  "\<exists>s. ZooKeeper_new demo_zk ''localhost:2181'' 999 demo_stub
     = Some (Inl (ERR_INTERNAL_SERVER_ERROR ''Failed to connect to ZooKeeper instance on: localhost:2181''), s)"
  using short_timeout_fails [OF demo_zk_ok(1,2), of 999 "''localhost:2181''"] by (simp add: demo_zk_ok)

theorem zookeeper_is_a_tree_witness:
  "\<exists>s s'. ZooKeeper_new demo_zk ''localhost:2181'' 10000 demo_stub = Some (Inr (), s)
     \<and> zk_session demo_zk [ZCreate ''/1'' ''one'', ZCreate ''1/2'' ''two'', ZGet ''/1//2/'' True, ZCreate ''/3/4'' [], ZDel ''/1'', ZExists ''/1/2'' False] s
       = Some (Inr [ZDone, ZDone, ZData ''two'', ZFail 1101, ZDone, ZBool False], s')"
proof -
  let ?ops = "[ZCreate ''/1'' ''one'', ZCreate ''1/2'' ''two'', ZGet ''/1//2/'' True, ZCreate ''/3/4'' [], ZDel ''/1'', ZExists ''/1/2'' False]"
  have ok: "list_all zop_ok ?ops" by code_simp
  have t: "fs_tree (st_fs demo_stub) = [[] \<mapsto> []]" by (simp add: fun_eq_iff demo_stub_def fs_tree_def smap_find_def)
  have p: "fs_path ''/1'' = [''1'']" "fs_path ''1/2'' = [''1'', ''2'']" "fs_path ''/1//2/'' = [''1'', ''2'']" "fs_path ''/3/4'' = [''3'', ''4'']"
      "fs_path ''/1/2'' = [''1'', ''2'']"
    by code_simp+
  have r: "fst (tree_session ?ops (fs_tree (st_fs demo_stub))) = [ZDone, ZDone, ZData ''two'', ZFail 1101, ZDone, ZBool False]"
    unfolding t by (simp add: tree_perform_def p is_under_def)
  have clock: "st_clock demo_stub (Suc (st_readings demo_stub)) < st_clock demo_stub (st_readings demo_stub) + 10000 sdiv 1000"
    by (simp add: demo_zk_ok signed_divide_int_def)
  show ?thesis
    using zookeeper_is_a_tree [OF demo_zk_ok(1,2) clock ok, of "''localhost:2181''"] unfolding r by blast
qed

end
