(* ===== verification/GB_ZkUtil.thy ===== *)
theory GB_ZkUtil
  imports GB_ZooSession GB_JsonIO
begin

text \<open>
  \<^verbatim>\<open>legacy/gearbox/zookeeper/gearbox_zkutil.cc\<close>, the command line tool over the ZooKeeper client: reading, writing, listing and removing nodes. The options have been read by
  boost, the log is left out, and the class that acknowledges data, which is not in the repository, is a parameter. What the tool promises is proved from the
  laws of a store of nodes, which the client satisfies.
\<close>

section \<open>Whole subtrees\<close>

text \<open>
  \<^verbatim>\<open>del_recursively\<close> and \<^verbatim>\<open>ls_recursively\<close> over the members they call. The number bounds the depth of the recursion; below it the stack is exhausted.
\<close>

primrec px_each :: "('a \<Rightarrow> ('s, 'e, unit) px) \<Rightarrow> 'a list \<Rightarrow> ('s, 'e, unit) px" where
  "px_each f [] = px_return ()"
| "px_each f (x # xs) = px_then (f x) (px_each f xs)"

primrec del_recursively :: "(string \<Rightarrow> ('s, 'e, string list) px) \<Rightarrow> (string \<Rightarrow> ('s, 'e, unit) px) \<Rightarrow> nat \<Rightarrow> string \<Rightarrow> ('s, 'e, unit) px" where
  "del_recursively ch dl 0 path = (\<lambda>s. None)"
| "del_recursively ch dl (Suc n) path =
     (if str_find ''/zookeeper'' path = Some 0 then px_return ()
      else px_bind (ch path) (\<lambda>children.
        px_then (px_each (\<lambda>c. del_recursively ch dl n (join_paths path c)) children) (dl path)))"

definition endl :: string where
  "endl = [CHR 0x0A]"

primrec ls_recursively :: "(string \<Rightarrow> ('s, 'e, string list) px) \<Rightarrow> (string \<Rightarrow> ('s, 'e, unit) px) \<Rightarrow> nat \<Rightarrow> string \<Rightarrow> bool \<Rightarrow> string \<Rightarrow> ('s, 'e, unit) px" where
  "ls_recursively ch out 0 path long_fmt indent = (\<lambda>s. None)"
| "ls_recursively ch out (Suc n) path long_fmt indent =
     px_bind (ch path) (px_each (\<lambda>c.
       px_then (out ((if long_fmt then join_paths path c else indent @ c) @ endl))
       (ls_recursively ch out n (join_paths path c) long_fmt (indent @ '' ''))))"

section \<open>The tool\<close>

text \<open>Errors of usage are caught before the others. The state is what has been printed, and the client.\<close>

datatype util_error = Usage string | Failed gb_exn

record zkutil_args =
  za_zookeepers :: string
  za_timeout :: int
  za_parents :: bool
  za_recursive :: bool
  za_long :: bool
  za_stdin :: string

record ('d, 'l) util_env =
  ue_host :: string
  ue_json :: "'d json_lib"
  ue_statics :: schema_statics
  ue_ack :: "string \<Rightarrow> int \<Rightarrow> string \<Rightarrow> string \<Rightarrow> string \<Rightarrow> int \<Rightarrow> string option \<Rightarrow> ('l, gb_exn, unit) px"
  ue_depth :: nat

type_synonym ('l, 'a) ux = "(string \<times> 'l zk, util_error, 'a) px"

definition in_zk :: "('l, 'a) zkx \<Rightarrow> ('l, 'a) ux" where
  "in_zk m = (\<lambda>(out, s). case m s of
     None \<Rightarrow> None
   | Some (Inl e, s') \<Rightarrow> Some (Inl (Failed e), (out, s'))
   | Some (Inr a, s') \<Rightarrow> Some (Inr a, (out, s')))"

definition print :: "string \<Rightarrow> ('l, unit) ux" where
  "print t = px_modify (\<lambda>(out, s). (out @ t, s))"

text \<open>The function object \<^verbatim>\<open>cmd_is\<close>: the name of the command, with the number of its arguments enforced.\<close>

definition cmd_is :: "string list \<Rightarrow> string \<Rightarrow> nat \<Rightarrow> nat \<Rightarrow> util_error + bool" where
  "cmd_is cmd c req opt =
     (if hd cmd = c then
        let nargs = length cmd - 1; q = [CHR 0x27]
        in if nargs < req then Inl (Usage (''Too few args for command '' @ q @ c @ q @ '', need at least '' @ nat_dec req))
           else if nargs > req + opt then Inl (Usage (''Too many args for command '' @ q @ c @ q @ '', need at most '' @ nat_dec (req + opt)))
           else Inr True
      else Inr False)"

definition cmd_get :: "'l zkenv \<Rightarrow> string list \<Rightarrow> ('l, unit) ux" where
  "cmd_get env cmd =
     px_bind (in_zk (zk_get env (cmd ! 1) [] False)) (\<lambda>data.
     print (if data = [] \<or> last data \<noteq> CHR 0x0A then data @ endl else data))"

definition make_parent :: "'l zkenv \<Rightarrow> string \<Rightarrow> ('l, unit) zkx" where
  "make_parent env path =
     (let parent = normalize_path path in
      case str_rfind_if (\<lambda>c. c = CHR ''/'') parent of
        None \<Rightarrow> px_return ()
      | Some slash_pos \<Rightarrow>
          (if slash_pos \<noteq> 0
           then px_bind (zk_exists env (take slash_pos parent) False) (\<lambda>there.
                if \<not> there then zk_createFullPath env (take slash_pos parent) else px_return ())
           else px_return ()))"

definition set_node :: "'l zkenv \<Rightarrow> zkutil_args \<Rightarrow> string \<Rightarrow> string \<Rightarrow> ('l, unit) zkx" where
  "set_node env args path data =
     px_then (px_when (za_parents args) (make_parent env path))
     (px_bind (zk_exists env path False) (\<lambda>there.
      if \<not> there then zk_create_const env path data TYPE_PLAIN else zk_set env path data (- 1)))"

definition cmd_set :: "'l zkenv \<Rightarrow> zkutil_args \<Rightarrow> string list \<Rightarrow> ('l, unit) ux" where
  "cmd_set env args cmd = in_zk (set_node env args (cmd ! 1) (if length cmd = 3 then cmd ! 2 else za_stdin args))"

definition cmd_rm :: "'l zkenv \<Rightarrow> nat \<Rightarrow> zkutil_args \<Rightarrow> string list \<Rightarrow> ('l, unit) ux" where
  "cmd_rm env depth args cmd = in_zk
     (if za_recursive args then del_recursively (\<lambda>p. zk_children env p False) (\<lambda>p. zk_del env p (- 1)) depth (cmd ! 1)
      else zk_del env (cmd ! 1) (- 1))"

definition cmd_ls :: "'l zkenv \<Rightarrow> nat \<Rightarrow> zkutil_args \<Rightarrow> string list \<Rightarrow> ('l, unit) ux" where
  "cmd_ls env depth args cmd =
     (if za_recursive args then ls_recursively (\<lambda>p. in_zk (zk_children env p False)) print depth (cmd ! 1) (za_long args) []
      else px_bind (in_zk (zk_children env (cmd ! 1) False)) (px_each (\<lambda>c. print (c @ endl))))"

definition cmd_stat :: "'l zkenv \<Rightarrow> string list \<Rightarrow> ('l, unit) ux" where
  "cmd_stat env cmd =
     px_bind (in_zk (zk_stat_path env (cmd ! 1))) (\<lambda>s.
     px_then (print (''version = '' @ int_dec (zs_version s) @ endl))
     (px_then (print (''modTxId = '' @ int_dec (zs_mzxid s) @ endl))
     (px_then (print (''mtime = '' @ int_dec (zs_mtime s) @ endl))
     (px_then (print (''ctime = '' @ int_dec (zs_ctime s) @ endl))
     (px_then (print (''dataLength = '' @ int_dec (zs_dataLength s) @ endl))
     (print (''numChildren = '' @ int_dec (zs_numChildren s) @ endl)))))))"

text \<open>\<^verbatim>\<open>find_last_of\<close> and the two \<^verbatim>\<open>substr\<close>: without a slash both parts are the whole path.\<close>

definition datum_path :: "string \<Rightarrow> string \<times> string" where
  "datum_path p = (case str_rfind_if (\<lambda>c. c = CHR ''/'' \<or> c = CHR 0x5C) p of
     None \<Rightarrow> (p, p)
   | Some i \<Rightarrow> (take i p, drop (i + 1) p))"

definition cmd_ack_txId :: "'l zkenv \<Rightarrow> ('d, 'l) util_env \<Rightarrow> string list \<Rightarrow> ('l, unit) ux" where
  "cmd_ack_txId env ue cmd =
     (let (path, key) = datum_path (cmd ! 1) in
      px_bind (in_zk (zk_get env (path @ ''/ack/'' @ key @ ''/'' @ ue_host ue) [] False)) (\<lambda>data.
      px_bind (in_zk (px_lift (res_bind (parse_text (ue_json ue) (ue_statics ue) None data) (\<lambda>j.
         res_bind (json_ref_key [] ''txId'' j) (\<lambda>j. res_bind (json_get [] ''txId'' j) (json_as_int64 [Key ''txId'']))))))
      (\<lambda>txId. print (int_dec txId @ endl))))"

definition util_command :: "'l zkenv \<Rightarrow> ('d, 'l) util_env \<Rightarrow> zkutil_args \<Rightarrow> string list \<Rightarrow> ('l, unit) ux" where
  "util_command env ue args cmd =
     px_bind (px_lift (cmd_is cmd ''get'' 1 0)) (\<lambda>b. if b then cmd_get env cmd else
     px_bind (px_lift (cmd_is cmd ''set'' 1 1)) (\<lambda>b. if b then cmd_set env args cmd else
     px_bind (px_lift (cmd_is cmd ''rm'' 1 0)) (\<lambda>b. if b then cmd_rm env (ue_depth ue) args cmd else
     px_bind (px_lift (cmd_is cmd ''ls'' 1 0)) (\<lambda>b. if b then cmd_ls env (ue_depth ue) args cmd else
     px_bind (px_lift (cmd_is cmd ''stat'' 1 0)) (\<lambda>b. if b then cmd_stat env cmd else
     px_bind (px_lift (cmd_is cmd ''ack_txId'' 1 0)) (\<lambda>b. if b then cmd_ack_txId env ue cmd else
     px_throw (Usage (''Unrecognized command '' @ [CHR 0x27] @ hd cmd @ [CHR 0x27]))))))))"

definition cast_int64 :: "string \<Rightarrow> gb_exn + int" where
  "cast_int64 t = (case lexical_cast_int t of Some i \<Rightarrow> if in_int64 i then Inr i else Inl bad_lexical_cast | None \<Rightarrow> Inl bad_lexical_cast)"

text \<open>The commands that acknowledge, over the class that is not in the repository.\<close>

definition acknowledge :: "('d, 'l) util_env \<Rightarrow> zkutil_args \<Rightarrow> string list \<Rightarrow> string option \<Rightarrow> ('l, util_error, unit) px" where
  "acknowledge ue args cmd msg = (\<lambda>l. case cast_int64 (cmd ! 2) of
     Inl e \<Rightarrow> Some (Inl (Failed e), l)
   | Inr tx \<Rightarrow> (let (path, key) = datum_path (cmd ! 1) in
       map_option (map_prod (map_sum Failed id) id)
         (ue_ack ue (za_zookeepers args) (za_timeout args) (ue_host ue) path key tx msg l)))"

text \<open>The client is made before the command is known to be one, and is destroyed however it ends.\<close>

definition with_client :: "'l zkenv \<Rightarrow> zkutil_args \<Rightarrow> ('l, unit) ux \<Rightarrow> 'l \<Rightarrow> ((util_error + unit) \<times> string \<times> 'l) option" where
  "with_client env args m l = (case ZooKeeper_new env (za_zookeepers args) (za_timeout args) l of
     None \<Rightarrow> None
   | Some (Inl e, s) \<Rightarrow> Some (Inl (Failed e), [], zk_lib s)
   | Some (Inr _, s) \<Rightarrow> (case m ([], s) of
       None \<Rightarrow> None
     | Some (r, out, s') \<Rightarrow> map_option (\<lambda>(_, s''). (r, out, zk_lib s'')) (ZooKeeper_delete env s')))"

definition util_run :: "'l zkenv \<Rightarrow> ('d, 'l) util_env \<Rightarrow> zkutil_args \<Rightarrow> string list \<Rightarrow> 'l \<Rightarrow> ((util_error + unit) \<times> string \<times> 'l) option" where
  "util_run env ue args cmd l =
     (if cmd = [] then Some (Inl (Usage ''Please specify a command''), [], l)
      else case cmd_is cmd ''ack_success'' 2 0 of
        Inl e \<Rightarrow> Some (Inl e, [], l)
      | Inr True \<Rightarrow> map_option (\<lambda>(r, l). (r, [], l)) (acknowledge ue args cmd None l)
      | Inr False \<Rightarrow> (case cmd_is cmd ''ack_fail'' 2 1 of
          Inl e \<Rightarrow> Some (Inl e, [], l)
        | Inr True \<Rightarrow> map_option (\<lambda>(r, l). (r, [], l))
            (acknowledge ue args cmd (Some (if length cmd = 4 then cmd ! 3 else za_stdin args)) l)
        | Inr False \<Rightarrow> with_client env args (util_command env ue args cmd) l))"

text \<open>\<^verbatim>\<open>main\<close>: the exit code, what was printed and the library as it is left; a crash has no exit code.\<close>

definition zkutil :: "'l zkenv \<Rightarrow> ('d, 'l) util_env \<Rightarrow> zkutil_args \<Rightarrow> string list \<Rightarrow> 'l \<Rightarrow> (int \<times> string \<times> 'l) option" where
  "zkutil env ue args cmd l = (case util_run env ue args cmd l of
     None \<Rightarrow> None
   | Some (Inr _, out, l') \<Rightarrow> Some (0, out, l')
   | Some (Inl (Usage _), out, l') \<Rightarrow> Some (1, out, l')
   | Some (Inl (Failed e), out, l') \<Rightarrow> if e = NullDereference then None else Some (2, out, l'))"

section \<open>Texts of paths\<close>

text \<open>A path without dots as parts: the parts are what is between its slashes.\<close>

definition tidy_path :: "string \<Rightarrow> bool" where
  "tidy_path p \<longleftrightarrow> list_all (\<lambda>x. x = [] \<or> plain_part x) (str_split (CHR ''/'') p)"

lemma canon_parts_tidy:
  "list_all (\<lambda>x. x = [] \<or> plain_part x) rest \<Longrightarrow> canon_parts before rest = before @ filter (\<lambda>x. x \<noteq> []) rest"
  by (induction before rest rule: canon_parts.induct) (auto simp: plain_part_def)

lemma fs_path_tidy: "tidy_path p \<Longrightarrow> fs_path p = filter (\<lambda>x. x \<noteq> []) (str_split (CHR ''/'') p)"
  by (simp add: tidy_path_def fs_path_def canon_parts_tidy)

lemma str_split_clean_rev: "list_all (\<lambda>x. c \<notin> set x) (str_split sep p) \<Longrightarrow> c \<noteq> sep \<Longrightarrow> c \<notin> set p"
proof (induction p)
  case (Cons a p)
  then show ?case by (cases "a = sep"; cases "str_split sep p") auto
qed simp

lemma tidy_clean: "tidy_path p \<Longrightarrow> CHR 0x00 \<notin> set p"
  by (rule str_split_clean_rev [of _ "CHR ''/''"]) (auto simp: tidy_path_def plain_part_def list_all_iff)

lemma tidy_node_path: "tidy_path p \<Longrightarrow> node_path p"
proof -
  assume t: "tidy_path p"
  have "list_all plain_part (fs_path p)" using t by (auto simp: fs_path_tidy tidy_path_def list_all_iff)
  moreover have "normalize_path p \<noteq> []"
  proof
    assume no: "normalize_path p = []"
    then have e: "fs_path p = []" using normalize_path_form [of p] node_name_not_Nil [of "fs_path p"] by auto
    have "list_all (\<lambda>x. last p \<notin> set x) (str_split (CHR ''/'') p)" using e t by (auto simp: fs_path_tidy list_all_iff filter_empty_conv)
    moreover have ne: "p \<noteq> []" using no by (auto simp: normalize_path_def canonicalize_path_def)
    moreover have "last p \<noteq> CHR ''/''"
    proof
      assume "last p = CHR ''/''"
      then have "canonicalize_path p = ''/''" using ne e by (simp add: canonicalize_parts)
      with no show False by (simp add: normalize_path_def)
    qed
    ultimately show False using str_split_clean_rev [of "last p" "CHR ''/''" p] last_in_set [of p] by simp
  qed
  ultimately show ?thesis using tidy_clean [OF t] by (simp add: node_path_def)
qed

lemma tidy_append: "tidy_path (t @ CHR ''/'' # u) \<longleftrightarrow> tidy_path t \<and> tidy_path u"
  by (auto simp: tidy_path_def str_split_append)

lemma fs_path_append: "tidy_path (t @ CHR ''/'' # u) \<Longrightarrow> fs_path (t @ CHR ''/'' # u) = fs_path t @ fs_path u"
  by (simp add: fs_path_tidy tidy_append) (simp add: str_split_append)

lemma fs_path_word: "CHR ''/'' \<notin> set v \<Longrightarrow> tidy_path v \<Longrightarrow> fs_path v = (if v = [] then [] else [v])"
  by (simp add: fs_path_tidy)

lemma fs_path_tail:
  assumes "tidy_path (t @ v)" and "t = [] \<or> last t = CHR ''/''" and "CHR ''/'' \<notin> set v"
  shows "fs_path (t @ v) = fs_path t @ (if v = [] then [] else [v])"
proof (cases "t = []")
  case True
  with fs_path_word [OF assms(3)] assms(1) show ?thesis by (simp add: fs_path_def)
next
  case False
  then obtain t0 where t0: "t = t0 @ [CHR ''/'']" using assms(2) by (metis append_butlast_last_id)
  have tv: "tidy_path (t0 @ CHR ''/'' # v)" using assms(1) t0 by simp
  then have "tidy_path v" and "tidy_path (t0 @ CHR ''/'' # [])" by (simp_all add: tidy_append tidy_path_def [of "[]"])
  with fs_path_append [OF tv] fs_path_append [of t0 "[]"] fs_path_word [OF assms(3)] t0 show ?thesis by (simp add: fs_path_def)
qed

section \<open>Stores of nodes\<close>

text \<open>
  The contract between the tool and the client: whether a node exists, making a node whose parent exists, and, in an extension, listing and removing. Only nodes
  without children need to be removable.
\<close>

definition filled :: "string list \<Rightarrow> ztree \<Rightarrow> ztree" where
  "filled ps t = (\<lambda>qs. if is_under qs ps \<and> t qs = None then Some [] else t qs)"

definition has_all :: "string list \<Rightarrow> ztree \<Rightarrow> bool" where
  "has_all ps t \<longleftrightarrow> (\<forall>qs. is_under qs ps \<longrightarrow> t qs \<noteq> None)"

lemma is_under_iff: "is_under d k \<longleftrightarrow> (\<exists>x. k = d @ x)"
  by (metis append_eq_conv_conj append_take_drop_id is_under_def)

lemma is_under_snoc: "is_under qs (ps @ [v]) \<longleftrightarrow> is_under qs ps \<or> qs = ps @ [v]"
  by (cases "length qs \<le> length ps") (auto simp: is_under_def)

lemma has_allD: "has_all ps t \<Longrightarrow> t ps \<noteq> None"
  by (simp add: has_all_def is_under_def)

lemma filled_same: "has_all ps t \<Longrightarrow> filled ps t = t"
  by (auto simp: filled_def has_all_def)

lemma filled_snoc: "has_all ps t \<Longrightarrow> filled (ps @ [v]) t = (if t (ps @ [v]) = None then t(ps @ [v] \<mapsto> []) else t)"
  by (auto simp: filled_def has_all_def is_under_snoc fun_eq_iff)

lemma has_all_filled: "has_all ps (filled ps t)"
  by (auto simp: filled_def has_all_def)

lemma filled_filled: "is_under ps qs \<Longrightarrow> filled qs (filled ps t) = filled qs t"
  by (auto simp: filled_def is_under_def fun_eq_iff take_take min_def) (metis length_take min_def nle_le take_take)

locale node_store =
  fixes ex :: "string \<Rightarrow> ('s, 'e, bool) px" and cr :: "string \<Rightarrow> ('s, 'e, unit) px" and inv :: "'s \<Rightarrow> bool" and view :: "'s \<Rightarrow> ztree"
  assumes ex_law: "inv s \<Longrightarrow> node_path p \<Longrightarrow> \<exists>s'. ex p s = Some (Inr (view s (fs_path p) \<noteq> None), s') \<and> inv s' \<and> view s' = view s"
    and cr_law: "inv s \<Longrightarrow> node_path p \<Longrightarrow> view s (fs_path p) = None \<Longrightarrow> view s (butlast (fs_path p)) \<noteq> None
      \<Longrightarrow> \<exists>s'. cr p s = Some (Inr (), s') \<and> inv s' \<and> view s' = (view s)(fs_path p \<mapsto> [])"
    and root_law: "inv s \<Longrightarrow> view s [] \<noteq> None"
begin

lemma make_node_ok:
  assumes "inv s" and "node_path p" and "has_all ps (view s)" and "fs_path p = ps \<or> (\<exists>v. fs_path p = ps @ [v])"
  shows "\<exists>s'. make_node ex cr p s = Some (Inr (), s') \<and> inv s' \<and> view s' = filled (fs_path p) (view s)"
proof -
  obtain s1 where 1: "ex p s = Some (Inr (view s (fs_path p) \<noteq> None), s1)" "inv s1" "view s1 = view s"
    using ex_law [OF assms(1,2)] by blast
  have filled: "filled (fs_path p) (view s) = (if view s (fs_path p) = None then (view s)(fs_path p \<mapsto> []) else view s)"
    using assms(4) has_allD [OF assms(3)] filled_same [OF assms(3)] filled_snoc [OF assms(3)] by auto
  show ?thesis
  proof (cases "view s (fs_path p) = None")
    case True
    have "view s (butlast (fs_path p)) \<noteq> None"
      using assms(4) has_allD [OF assms(3)] True by auto
    with cr_law [OF 1(2) assms(2)] True 1(3) obtain s2 where "cr p s1 = Some (Inr (), s2)" "inv s2" "view s2 = (view s)(fs_path p \<mapsto> [])"
      by auto
    with 1 True filled show ?thesis by (simp add: make_node_def px_defs)
  next
    case False
    with 1 filled show ?thesis by (simp add: make_node_def px_defs)
  qed
qed

text \<open>The loop makes what is missing of the path up to its last slash.\<close>

lemma full_path_loop_ok:
  assumes "inv s" and "tidy_path (t @ u)" and "t = [] \<or> last t = CHR ''/''" and "has_all (fs_path t) (view s)"
  shows "\<exists>s' t' u'. t @ u = t' @ u' \<and> CHR ''/'' \<notin> set u' \<and> (t' = [] \<or> last t' = CHR ''/'') \<and> is_under (fs_path t) (fs_path t')
    \<and> full_path_loop ex cr (t @ u) (length t) s = Some (Inr (), s') \<and> inv s' \<and> view s' = filled (fs_path t') (view s)"
  using assms
proof (induction "length u" arbitrary: t u s rule: less_induct)
  case less
  let ?find = "str_find_if (\<lambda>c. c = CHR ''/'') u"
  show ?case
  proof (cases ?find)
    case None
    then have "CHR ''/'' \<notin> set u" by (auto simp: str_find_if_None)
    moreover have "full_path_loop ex cr (t @ u) (length t) s = Some (Inr (), s)"
      using None by (subst full_path_loop.simps) (simp add: str_find_if_from_def px_defs)
    ultimately show ?thesis
      using less.prems by (rule_tac exI [of _ s], rule_tac exI [of _ t], rule_tac exI [of _ u]) (simp add: filled_same is_under_def)
  next
    case (Some i)
    then have i: "i < length u" "u ! i = CHR ''/''" "CHR ''/'' \<notin> set (take i u)" using str_find_if_Some [OF Some] by auto
    define v w where "v = take i u" and "w = drop (Suc i) u"
    have u: "u = v @ CHR ''/'' # w" using i id_take_nth_drop [of i u] by (simp add: v_def w_def)
    have v: "CHR ''/'' \<notin> set v" "length v = i" using i by (simp_all add: v_def)
    let ?path = "t @ u"
    have tidy_path: "tidy_path (t @ v)" "tidy_path w" using less.prems(2) tidy_append [of "t @ v" w] by (simp_all add: u)
    have parts: "fs_path (t @ v) = fs_path t @ (if v = [] then [] else [v])" by (rule fs_path_tail [OF tidy_path(1) less.prems(3) v(1)])
    have step: "\<exists>s1. (if t @ v \<noteq> [] \<and> t @ v \<noteq> ''/'' then make_node ex cr (t @ v) else px_return ()) s = Some (Inr (), s1)
        \<and> inv s1 \<and> view s1 = filled (fs_path (t @ v)) (view s)"
    proof (cases "t @ v \<noteq> [] \<and> t @ v \<noteq> ''/''")
      case True
      have "fs_path (t @ v) = fs_path t \<or> (\<exists>x. fs_path (t @ v) = fs_path t @ [x])" using parts by auto
      from make_node_ok [OF less.prems(1) tidy_node_path [OF tidy_path(1)] less.prems(4) this] True show ?thesis by simp
    next
      case False
      then have "fs_path (t @ v) = []" by (auto simp: fs_path_def)
      moreover from this have "has_all (fs_path (t @ v)) (view s)" using root_law [OF less.prems(1)] by (simp add: has_all_def is_under_def)
      ultimately show ?thesis using False less.prems(1) by (simp only: if_False filled_same px_return_def) blast
    qed
    then obtain s1 where s1: "(if t @ v \<noteq> [] \<and> t @ v \<noteq> ''/'' then make_node ex cr (t @ v) else px_return ()) s = Some (Inr (), s1)"
        "inv s1" "view s1 = filled (fs_path (t @ v)) (view s)" by blast
    let ?t = "t @ v @ ''/''"
    have pt: "fs_path ?t = fs_path (t @ v)"
      using fs_path_append [of "t @ v" "[]"] tidy_path(1) tidy_append [of "t @ v" "[]"] by (simp add: tidy_path_def [of "[]"]) (simp add: fs_path_def)
    have "\<exists>s' t' u'. ?t @ w = t' @ u' \<and> CHR ''/'' \<notin> set u' \<and> (t' = [] \<or> last t' = CHR ''/'') \<and> is_under (fs_path ?t) (fs_path t')
        \<and> full_path_loop ex cr (?t @ w) (length ?t) s1 = Some (Inr (), s') \<and> inv s' \<and> view s' = filled (fs_path t') (view s1)"
      by (rule less.hyps) (use s1 less.prems(2) u pt has_all_filled in simp_all)
    then obtain s' t' u' where r: "?t @ w = t' @ u'" "CHR ''/'' \<notin> set u'" "t' = [] \<or> last t' = CHR ''/''" "is_under (fs_path ?t) (fs_path t')"
        "full_path_loop ex cr (?t @ w) (length ?t) s1 = Some (Inr (), s')" "inv s'" "view s' = filled (fs_path t') (view s1)"
      by blast
    have "full_path_loop ex cr ?path (length t) s = Some (Inr (), s')"
      using Some s1(1) r(5) v u by (subst full_path_loop.simps) (auto simp: str_find_if_from_def px_defs split: if_splits)
    moreover have "is_under (fs_path t) (fs_path t')" using r(4) pt parts by (auto simp: is_under_iff)
    moreover have "view s' = filled (fs_path t') (view s)" using r(4,7) s1(3) pt filled_filled by metis
    ultimately show ?thesis using r u by (rule_tac exI [of _ s'], rule_tac exI [of _ t'], rule_tac exI [of _ u']) simp
  qed
qed

text \<open>Every missing beginning of the path is made, with no data, and nothing else changes.\<close>

lemma create_full_path_ok:
  assumes "inv s" and "tidy_path p"
  shows "\<exists>s'. create_full_path ex cr p s = Some (Inr (), s') \<and> inv s' \<and> view s' = filled (fs_path p) (view s)"
proof -
  have "has_all (fs_path []) (view s)" using root_law [OF assms(1)] by (simp add: has_all_def is_under_def fs_path_def)
  from full_path_loop_ok [of s "[]" p, OF assms(1) _ _ this] assms(2)
  obtain s1 t u where 1: "p = t @ u" "CHR ''/'' \<notin> set u" "t = [] \<or> last t = CHR ''/''"
      "full_path_loop ex cr p 0 s = Some (Inr (), s1)" "inv s1" "view s1 = filled (fs_path t) (view s)" by auto
  have parts: "fs_path p = fs_path t @ (if u = [] then [] else [u])" using fs_path_tail [of t u] assms(2) 1 by simp
  have "fs_path p = fs_path t \<or> (\<exists>v. fs_path p = fs_path t @ [v])" using parts by auto
  from make_node_ok [OF 1(5) tidy_node_path [OF assms(2)] _ this] 1(6) has_all_filled
  obtain s2 where "make_node ex cr p s1 = Some (Inr (), s2)" "inv s2" "view s2 = filled (fs_path p) (filled (fs_path t) (view s))" by metis
  moreover have "is_under (fs_path t) (fs_path p)" using parts by (auto simp: is_under_def)
  ultimately show ?thesis using 1(4) by (auto simp: create_full_path_def px_defs filled_filled)
qed

end

text \<open>Joining a path and a name gives the path of the node below, in normal form.\<close>

lemma canon_parts_append: "canon_parts before (xs @ ys) = canon_parts (canon_parts before xs) ys"
  by (induction before xs rule: canon_parts.induct) simp_all

lemma join_paths_child:
  assumes "node_path p" and "plain_part c"
  shows "node_path (join_paths p c)" and "fs_path (join_paths p c) = fs_path p @ [c]" and "join_paths p c = slashed (fs_path p @ [c])"
proof -
  have c: "str_split (CHR ''/'') c = [c]" "c \<noteq> []" "c \<noteq> ''.''" "c \<noteq> ''..''" using assms(2) by (auto simp: plain_part_def normal_part_def)
  have f: "fs_path (p @ ''/'' @ c) = fs_path p @ [c]"
    using str_split_append [of "CHR ''/''" p c] c by (simp add: fs_path_def canon_parts_append)
  have "node_path (p @ ''/'' @ c)"
    using assms f normalize_path_form [of "p @ ''/'' @ c"] node_name_not_Nil [of "fs_path p @ [c]"]
    by (auto simp: node_path_def plain_part_def)
  from node_pathD(3,4) [OF this] node_path_name [OF this] f
  show "node_path (join_paths p c)" "fs_path (join_paths p c) = fs_path p @ [c]" "join_paths p c = slashed (fs_path p @ [c])"
    by (simp_all add: join_paths_def node_name_def)
qed

lemma guard_iff:
  assumes "CHR ''/'' \<notin> set h"
  shows "str_find ''/zookeeper'' (slashed (h # r)) = Some 0 \<longleftrightarrow> take 9 h = ''zookeeper''"
proof -
  have "str_find ''/zookeeper'' (slashed (h # r)) = Some 0 \<longleftrightarrow> take 9 (h @ slashed r) = ''zookeeper''"
    by (subst str_find_prefix_iff) (simp_all add: eval_nat_numeral)
  also have "\<dots> \<longleftrightarrow> take 9 h = ''zookeeper''"
  proof (cases "9 \<le> length h \<or> r = []")
    case False
    then obtain x y where "r = x # y" by (cases r) auto
    then have "CHR ''/'' \<in> set (take 9 (h @ slashed r))" using False by (simp add: take_Cons')
    then have "take 9 (h @ slashed r) \<noteq> z" if "CHR ''/'' \<notin> set z" for z using that by metis
    then have "take 9 (h @ slashed r) \<noteq> ''zookeeper''" by simp
    moreover have "length (take 9 h) \<noteq> length ''zookeeper''" using False by simp
    then have "take 9 h \<noteq> ''zookeeper''" by metis
    ultimately show ?thesis by blast
  qed auto
  finally show ?thesis .
qed

locale node_tree = node_store ex cr inv view
  for ex :: "string \<Rightarrow> ('s, 'e, bool) px" and cr :: "string \<Rightarrow> ('s, 'e, unit) px" and inv :: "'s \<Rightarrow> bool" and view :: "'s \<Rightarrow> ztree" +
  fixes ch :: "string \<Rightarrow> ('s, 'e, string list) px" and dl :: "string \<Rightarrow> ('s, 'e, unit) px"
  assumes closed_law: "inv s \<Longrightarrow> view s ps \<noteq> None \<Longrightarrow> view s (butlast ps) \<noteq> None"
    and plain_law: "inv s \<Longrightarrow> view s ps \<noteq> None \<Longrightarrow> list_all plain_part ps"
    and ch_law: "inv s \<Longrightarrow> node_path p \<Longrightarrow> view s (fs_path p) \<noteq> None
      \<Longrightarrow> \<exists>ns s'. ch p s = Some (Inr ns, s') \<and> inv s' \<and> view s' = view s \<and> distinct ns \<and> set ns = {n. view s (fs_path p @ [n]) \<noteq> None}"
    and dl_law: "inv s \<Longrightarrow> node_path p \<Longrightarrow> fs_path p \<noteq> [] \<Longrightarrow> view s (fs_path p) \<noteq> None \<Longrightarrow> (\<And>n. view s (fs_path p @ [n]) = None)
      \<Longrightarrow> \<exists>s'. dl p s = Some (Inr (), s') \<and> inv s' \<and> view s' = (view s)(fs_path p := None)"
begin

lemma closed_under: "inv s \<Longrightarrow> view s (ps @ qs) \<noteq> None \<Longrightarrow> view s ps \<noteq> None"
proof (induction qs rule: rev_induct)
  case (snoc q qs)
  then show ?case using closed_law [OF snoc.prems(1), of "ps @ qs @ [q]"] by (simp add: butlast_append)
qed simp

text \<open>Children are removed one after the other, each with everything below it.\<close>

lemma each_child:
  assumes step: "\<And>c s. inv s \<Longrightarrow> view s (ps @ [c]) \<noteq> None \<Longrightarrow> P s
      \<Longrightarrow> \<exists>s'. f c s = Some (Inr (), s') \<and> inv s' \<and> view s' = (\<lambda>qs. if is_under (ps @ [c]) qs then None else view s qs)"
    and mono: "\<And>s s'. P s \<Longrightarrow> (\<And>qs. view s' qs \<noteq> None \<Longrightarrow> view s qs \<noteq> None) \<Longrightarrow> P s'"
    and "inv s" and "P s" and "distinct ns" and "\<forall>c \<in> set ns. view s (ps @ [c]) \<noteq> None"
  shows "\<exists>s'. px_each f ns s = Some (Inr (), s') \<and> inv s' \<and> view s' = (\<lambda>qs. if \<exists>c \<in> set ns. is_under (ps @ [c]) qs then None else view s qs)"
  using assms(3-6)
proof (induction ns arbitrary: s)
  case (Cons c ns)
  obtain s1 where 1: "f c s = Some (Inr (), s1)" "inv s1" "view s1 = (\<lambda>qs. if is_under (ps @ [c]) qs then None else view s qs)"
    using step [OF Cons.prems(1) _ Cons.prems(2), of c] Cons.prems(4) by auto
  have "P s1" by (rule mono [OF Cons.prems(2)]) (simp add: 1(3) split: if_splits)
  moreover have "\<forall>d \<in> set ns. view s1 (ps @ [d]) \<noteq> None" using Cons.prems(3,4) by (auto simp: 1(3) is_under_def)
  ultimately obtain s2 where 2: "px_each f ns s1 = Some (Inr (), s2)" "inv s2"
      "view s2 = (\<lambda>qs. if \<exists>c \<in> set ns. is_under (ps @ [c]) qs then None else view s1 qs)"
    using Cons.IH [OF 1(2)] Cons.prems(3) by auto
  have "view s2 = (\<lambda>qs. if \<exists>d \<in> set (c # ns). is_under (ps @ [d]) qs then None else view s qs)"
    unfolding 2(3) 1(3) by auto
  with 1(1) 2(1,2) show ?case by (simp add: px_defs)
qed (simp add: px_defs)

text \<open>A node is removed with everything below it, when the recursion may go as deep as the tree does.\<close>

lemma del_recursively_ok:
  assumes "inv s" and "node_path p" and "fs_path p \<noteq> []" and "view s (fs_path p) \<noteq> None"
    and "str_find ''/zookeeper'' p \<noteq> Some 0" and "take 9 (hd (fs_path p)) \<noteq> ''zookeeper''"
    and "\<And>qs. view s (fs_path p @ qs) \<noteq> None \<Longrightarrow> length qs < n"
  shows "\<exists>s'. del_recursively ch dl n p s = Some (Inr (), s') \<and> inv s' \<and> view s' = (\<lambda>qs. if is_under (fs_path p) qs then None else view s qs)"
  using assms
proof (induction n arbitrary: p s)
  case 0
  then show ?case using "0.prems"(7) [of "[]"] by simp
next
  case (Suc n)
  let ?ps = "fs_path p"
  let ?f = "\<lambda>c. del_recursively ch dl n (join_paths p c)"
  let ?deep = "\<lambda>s. \<forall>qs. view s (?ps @ qs) \<noteq> None \<longrightarrow> length qs < Suc n"
  obtain ns s1 where 1: "ch p s = Some (Inr ns, s1)" "inv s1" "view s1 = view s" "distinct ns" "set ns = {c. view s (?ps @ [c]) \<noteq> None}"
    using ch_law [OF Suc.prems(1,2,4)] by blast
  have below: "\<exists>s'. ?f c t = Some (Inr (), s') \<and> inv s' \<and> view s' = (\<lambda>qs. if is_under (?ps @ [c]) qs then None else view t qs)"
    if t: "inv t" "view t (?ps @ [c]) \<noteq> None" "?deep t" for c t
  proof -
    have "plain_part c" using plain_law [OF t(1,2)] by simp
    note j = join_paths_child [OF Suc.prems(2) this]
    have h: "hd (?ps @ [c]) = hd ?ps" using Suc.prems(3) by simp
    have "CHR ''/'' \<notin> set (hd ?ps)" using Suc.prems(3) fs_path_normal [of p] by (cases ?ps) (auto simp: normal_part_def)
    then have "str_find ''/zookeeper'' (join_paths p c) \<noteq> Some 0"
      using Suc.prems(3,6) guard_iff [of "hd ?ps" "tl ?ps @ [c]"] by (cases ?ps) (auto simp: j(3) simp del: slashed.simps)
    moreover have "length qs < n" if "view t ((?ps @ [c]) @ qs) \<noteq> None" for qs using t(3) that by (metis append.assoc append_Cons append_Nil length_Cons Suc_less_eq)
    ultimately show ?thesis
      using Suc.IH [of t "join_paths p c"] t(1,2) j Suc.prems(6) h by simp
  qed
  have deep: "?deep t'" if "?deep t" "\<And>qs. view t' qs \<noteq> None \<Longrightarrow> view t qs \<noteq> None" for t t' using that by blast
  have d1: "?deep s1" using Suc.prems(7) 1(3) by auto
  have all: "\<forall>c \<in> set ns. view s1 (?ps @ [c]) \<noteq> None" using 1(3,5) by simp
  have "\<exists>s'. px_each ?f ns s1 = Some (Inr (), s') \<and> inv s' \<and> view s' = (\<lambda>qs. if \<exists>c \<in> set ns. is_under (?ps @ [c]) qs then None else view s1 qs)"
    by (rule each_child [where P = ?deep, OF _ _ 1(2) d1 1(4) all]) (use below deep in blast)+
  then obtain s2 where 2: "px_each ?f ns s1 = Some (Inr (), s2)" "inv s2"
      "view s2 = (\<lambda>qs. if \<exists>c \<in> set ns. is_under (?ps @ [c]) qs then None else view s1 qs)"
    by blast
  have gone: "view s2 (?ps @ c # qs) = None" for c qs
  proof (cases "view s (?ps @ [c]) = None")
    case True
    then have "view s1 (?ps @ c # qs) = None" using closed_under [OF 1(2), of "?ps @ [c]" qs] 1(3) by fastforce
    then show ?thesis by (simp add: 2(3))
  next
    case False
    then show ?thesis using 1(5) by (auto simp: 2(3) is_under_iff)
  qed
  have "view s2 ?ps \<noteq> None" using Suc.prems(4) 1(3) by (auto simp: 2(3) is_under_def)
  then obtain s3 where 3: "dl p s2 = Some (Inr (), s3)" "inv s3" "view s3 = (view s2)(?ps := None)"
    using dl_law [OF 2(2) Suc.prems(2,3)] gone by blast
  have "view s3 = (\<lambda>qs. if is_under ?ps qs then None else view s qs)"
  proof
    fix qs
    show "view s3 qs = (if is_under ?ps qs then None else view s qs)"
    proof (cases "is_under ?ps qs")
      case True
      then obtain x where "qs = ?ps @ x" by (auto simp: is_under_iff)
      with gone True show ?thesis by (cases x) (simp_all add: 3(3))
    next
      case False
      then have "qs \<noteq> ?ps" "\<not> (\<exists>c \<in> set ns. is_under (?ps @ [c]) qs)" by (auto simp: is_under_iff)
      with False 1(3) show ?thesis by (simp add: 3(3) 2(3))
    qed
  qed
  with 1 2 3 Suc.prems(5) show ?case by (simp add: px_defs)
qed

end

section \<open>The client is a store of nodes\<close>

lemma fs_tree_root: "fs_wf fs \<Longrightarrow> fs_tree fs [] \<noteq> None"
  using fs_wfD(2) by (simp add: fs_tree_def)

lemma fs_tree_closed:
  assumes "fs_wf fs" and "fs_tree fs ps \<noteq> None"
  shows "fs_tree fs (butlast ps) \<noteq> None"
proof (cases ps rule: rev_cases)
  case (snoc qs q)
  have "smap_find fs (zoo_root # ps) = Some FDir" using assms(2) by (auto simp: fs_tree_def split: option.splits fsnode.splits)
  from fs_wfD(3) [OF assms(1) this] snoc have "smap_find fs (zoo_root # qs) = Some FDir" by (simp add: fs_entry_ok_def butlast_append)
  then show ?thesis using snoc by (simp add: fs_tree_def)
qed (use assms in simp)

lemma finite_children: "finite {n. fs_tree fs (ps @ [n]) \<noteq> None}"
  by (rule finite_subset [OF _ finite_imageI [OF finite_set [of fs], of "\<lambda>e. last (fst e)"]])
    (force simp: fs_tree_def dest: smap_find_mem split: option.splits)

lemma mset_eq_mset_set: "mset ns = mset_set A \<Longrightarrow> finite A \<Longrightarrow> distinct ns \<and> set ns = A"
  by (metis count_mset_set(1,3) distinct_count_atmost_1 finite_set_mset_mset_set set_mset_mset)

definition zk_ready :: "stub zkenv \<Rightarrow> stub zk \<Rightarrow> bool" where
  "zk_ready env s \<longleftrightarrow> over_stub env \<and> session_ok (ze_k env) s"

interpretation zknodes: node_store "\<lambda>p. zk_exists env p False" "\<lambda>p. zk_create_const env p [] TYPE_PLAIN" "zk_ready env" "\<lambda>s. tree s" for env
proof
  fix s p
  assume s: "zk_ready env s" and p: "node_path p"
  then show "\<exists>s'. zk_exists env p False s = Some (Inr (tree s (fs_path p) \<noteq> None), s') \<and> zk_ready env s' \<and> tree s' = tree s"
    using zk_exists_ok [of env s p False] by (auto simp: zk_ready_def)
  show "\<exists>s'. zk_create_const env p [] TYPE_PLAIN s = Some (Inr (), s') \<and> zk_ready env s' \<and> tree s' = (tree s)(fs_path p \<mapsto> [])"
    if "tree s (fs_path p) = None" "tree s (butlast (fs_path p)) \<noteq> None"
    using zk_create_ok [of env s p "[]"] s p that by (auto simp: zk_ready_def create_rc_def)
next
  fix s assume "zk_ready env s"
  then show "tree s [] \<noteq> None" using fs_tree_root session_okD(3) by (auto simp: zk_ready_def)
qed

interpretation zktree: node_tree "\<lambda>p. zk_exists env p False" "\<lambda>p. zk_create_const env p [] TYPE_PLAIN" "zk_ready env" "\<lambda>s. tree s"
  "\<lambda>p. zk_children env p False" "\<lambda>p. zk_del env p (- 1)" for env
proof
  fix s ps
  assume "zk_ready env s" and "tree s ps \<noteq> None"
  then show "tree s (butlast ps) \<noteq> None" and "list_all plain_part ps"
    using fs_tree_closed [of "st_fs (zk_lib s)" ps] tree_plain [of "st_fs (zk_lib s)" ps] session_okD(3) by (auto simp: zk_ready_def)
next
  fix s p
  assume s: "zk_ready env s" and p: "node_path p" and there: "tree s (fs_path p) \<noteq> None"
  then have env: "over_stub env" and ok: "session_ok (ze_k env) s" by (simp_all add: zk_ready_def)
  obtain s' ns where 1: "zk_children env p False s = Some (Inr ns, s')" "session_ok (ze_k env) s'" "tree s' = tree s"
      "mset ns = mset_set {n. tree s (fs_path p @ [n]) \<noteq> None}"
    using zk_children_ok [OF env ok p, of False] there by auto
  from mset_eq_mset_set [OF 1(4) finite_children] 1 env
  show "\<exists>ns s'. zk_children env p False s = Some (Inr ns, s') \<and> zk_ready env s' \<and> tree s' = tree s \<and> distinct ns
      \<and> set ns = {n. tree s (fs_path p @ [n]) \<noteq> None}"
    by (auto simp: zk_ready_def)
next
  fix s p
  assume s: "zk_ready env s" and p: "node_path p" "fs_path p \<noteq> []" and there: "tree s (fs_path p) \<noteq> None"
    and leaf: "\<And>n. tree s (fs_path p @ [n]) = None"
  then have env: "over_stub env" and ok: "session_ok (ze_k env) s" by (simp_all add: zk_ready_def)
  have wf: "fs_wf (st_fs (zk_lib s))" by (rule session_okD(3) [OF ok])
  have below: "tree s (fs_path p @ n # qs) = None" for n qs
  proof (induction qs rule: rev_induct)
    case (snoc q qs)
    then show ?case using fs_tree_closed [OF wf, of "fs_path p @ n # qs @ [q]"] by (fastforce simp: butlast_append)
  qed (use leaf in simp)
  have "(\<lambda>qs. if is_under (fs_path p) qs then None else tree s qs) = (tree s)(fs_path p := None)"
  proof
    fix qs
    show "(if is_under (fs_path p) qs then None else tree s qs) = ((tree s)(fs_path p := None)) qs"
    proof (cases "is_under (fs_path p) qs")
      case True
      then obtain x where "qs = fs_path p @ x" by (auto simp: is_under_iff)
      with below True show ?thesis by (cases x) auto
    qed (auto simp: is_under_def)
  qed
  moreover obtain s' where "zk_del env p (- 1) s = Some (Inr (), s')" "session_ok (ze_k env) s'"
      "tree s' = (\<lambda>qs. if is_under (fs_path p) qs then None else tree s qs)"
    using zk_del_ok [OF env ok p, of "- 1"] there by auto
  ultimately show "\<exists>s'. zk_del env p (- 1) s = Some (Inr (), s') \<and> zk_ready env s' \<and> tree s' = (tree s)(fs_path p := None)"
    using env by (auto simp: zk_ready_def)
qed

section \<open>Properties of the tool\<close>

text \<open>
  \<^verbatim>\<open>createFullPath\<close> makes a node without data for every beginning of the path that is missing, in any spelling with repeated slashes, leaves the nodes that are
  there as they are, and changes nothing else.
\<close>

lemma createFullPath_fills:
  assumes "over_stub env" and "session_ok (ze_k env) s" and "tidy_path p"
  shows "\<exists>s'. zk_createFullPath env p s = Some (Inr (), s') \<and> session_ok (ze_k env) s' \<and> tree s' = filled (fs_path p) (tree s)"
  using zknodes.create_full_path_ok [of env s p] assms by (auto simp: zk_createFullPath_def zk_ready_def)

text \<open>The normal form of a path that is not the root is a tidy one, of the same node.\<close>

lemma slashed_tidy: "list_all plain_part ps \<Longrightarrow> tidy_path (slashed ps) \<and> fs_path (slashed ps) = ps"
  using str_split_slashed [OF plain_normal, of ps "[]"] fs_path_slashed(1) [OF plain_normal, of ps]
  by (auto simp: tidy_path_def list_all_iff)

lemma make_parent_ok:
  assumes env: "over_stub env" and s: "session_ok (ze_k env) s" and p: "node_path p"
  shows "\<exists>s'. make_parent env p s = Some (Inr (), s') \<and> session_ok (ze_k env) s' \<and> tree s' = filled (butlast (fs_path p)) (tree s)"
proof -
  have n: "normalize_path p = node_name (fs_path p)" and pl: "list_all plain_part (fs_path p)"
    using node_path_name [OF p] node_pathD(2) [OF p] by auto
  have root: "filled [] (tree s) = tree s"
    using filled_same [of "[]" "tree s"] fs_tree_root [OF session_okD(3) [OF s]] by (simp add: has_all_def is_under_def)
  show ?thesis
  proof (cases "fs_path p" rule: rev_cases)
    case Nil
    then show ?thesis using n s root by (simp add: make_parent_def node_name_def px_defs)
  next
    case (snoc qs q)
    have q: "\<forall>c \<in> set q. c \<noteq> CHR ''/''" using pl snoc by (auto simp: plain_part_def normal_part_def)
    have pos: "str_rfind_if (\<lambda>c. c = CHR ''/'') (normalize_path p) = Some (length (slashed qs))"
      using str_rfind_if_snoc [OF q, of "CHR ''/''" "slashed qs"] n snoc by (simp add: node_name_def slashed_append)
    have cut: "take (length (slashed qs)) (normalize_path p) = slashed qs" using n snoc by (simp add: node_name_def slashed_append)
    show ?thesis
    proof (cases "qs = []")
      case True
      then show ?thesis using pos s root snoc by (simp add: make_parent_def px_defs)
    next
      case False
      have t: "tidy_path (slashed qs)" "fs_path (slashed qs) = qs" using slashed_tidy [of qs] pl snoc by auto
      have len: "length (slashed qs) \<noteq> 0" using False by (cases qs) auto
      obtain s1 where 1: "zk_exists env (slashed qs) False s = Some (Inr (tree s qs \<noteq> None), s1)" "session_ok (ze_k env) s1" "tree s1 = tree s"
        using zk_exists_ok [OF env s tidy_node_path [OF t(1)], of False] t(2) by auto
      show ?thesis
      proof (cases "tree s qs = None")
        case True
        obtain s2 where "zk_createFullPath env (slashed qs) s1 = Some (Inr (), s2)" "session_ok (ze_k env) s2" "tree s2 = filled qs (tree s)"
          using zknodes.create_full_path_ok [of env s1 "slashed qs"] env 1(2,3) t by (auto simp: zk_createFullPath_def zk_ready_def)
        with True 1 pos cut len snoc show ?thesis by (simp add: make_parent_def px_defs)
      next
        case there: False
        have "tree s rs \<noteq> None" if u: "is_under rs qs" for rs
        proof -
          obtain x where "qs = rs @ x" using u by (auto simp: is_under_iff)
          then show ?thesis using zktree.closed_under [of env s rs x] env s there by (auto simp: zk_ready_def)
        qed
        then have "filled qs (tree s) = tree s" by (intro filled_same) (simp add: has_all_def)
        with there 1 pos cut len snoc show ?thesis by (simp add: make_parent_def px_defs)
      qed
    qed
  qed
qed

lemma set_node_ok:
  assumes env: "over_stub env" and s: "session_ok (ze_k env) s" and p: "node_path p" and args: "za_parents args"
  shows "\<exists>s'. set_node env args p v s = Some (Inr (), s') \<and> session_ok (ze_k env) s'
    \<and> tree s' = (filled (butlast (fs_path p)) (tree s))(fs_path p \<mapsto> v)"
proof -
  obtain s1 where 1: "make_parent env p s = Some (Inr (), s1)" "session_ok (ze_k env) s1" "tree s1 = filled (butlast (fs_path p)) (tree s)"
    using make_parent_ok [OF env s p] by blast
  obtain s2 where 2: "zk_exists env p False s1 = Some (Inr (tree s1 (fs_path p) \<noteq> None), s2)" "session_ok (ze_k env) s2" "tree s2 = tree s1"
    using zk_exists_ok [OF env 1(2) p, of False] by auto
  show ?thesis
  proof (cases "tree s1 (fs_path p) = None")
    case True
    have "tree s1 (butlast (fs_path p)) \<noteq> None" unfolding 1(3) by (simp add: filled_def is_under_def)
    then have "create_rc (tree s2) (fs_path p) = ZOK" using True 2(3) by (auto simp: create_rc_def)
    then obtain s3 where "zk_create_const env p v TYPE_PLAIN s2 = Some (Inr (), s3)" "session_ok (ze_k env) s3" "tree s3 = (tree s1)(fs_path p \<mapsto> v)"
      using zk_create_ok [OF env 2(2) p, of v] 2(3) by auto
    with True 1 2 args show ?thesis by (simp add: set_node_def px_defs)
  next
    case False
    then obtain y where y: "tree s1 (fs_path p) = Some y" by blast
    obtain s3 where "zk_set env p v (- 1) s2 = Some (Inr (), s3)" "session_ok (ze_k env) s3" "tree s3 = (tree s1)(fs_path p \<mapsto> v)"
      using zk_set_ok [OF env 2(2) p, of v "- 1"] 2(3) y by auto
    with y 1 2 args show ?thesis by (simp add: set_node_def px_defs)
  qed
qed

text \<open>A run of the tool connects when its time-out allows it, and ends as its command does.\<close>

definition connects :: "zkutil_args \<Rightarrow> stub \<Rightarrow> bool" where
  "connects args l \<longleftrightarrow> fresh l \<and> st_clock l (Suc (st_readings l)) < st_clock l (st_readings l) + za_timeout args sdiv 1000"

lemma with_client_ok:
  assumes env: "over_stub env" and l: "connects args l"
    and m: "\<And>s. session_ok (ze_k env) s \<Longrightarrow> tree s = fs_tree (st_fs l) \<Longrightarrow> \<exists>s'. m ([], s) = Some (Inr (), out, s') \<and> session_ok (ze_k env) s' \<and> tree s' = t"
  shows "\<exists>l'. with_client env args m l = Some (Inr (), out, l') \<and> fs_wf (st_fs l') \<and> fs_tree (st_fs l') = t"
proof -
  have cl: "zoo_close (ze_lib env) = stub_close" using env unfolding over_stub_def stub_lib_def by (metis zoolib.simps)
  obtain s where s: "ZooKeeper_new env (za_zookeepers args) (za_timeout args) l = Some (Inr (), s)" "session_ok (ze_k env) s" "tree s = fs_tree (st_fs l)"
    using ZooKeeper_new_spec [OF env, of l "za_zookeepers args" "za_timeout args"] l by (auto simp: connects_def)
  obtain s' where s': "m ([], s) = Some (Inr (), out, s')" "session_ok (ze_k env) s'" "tree s' = t" using m [OF s(2,3)] by blast
  have "ZooKeeper_delete env s' = Some (Inr (), s')" by (simp add: ZooKeeper_delete_def px_defs cl stub_close_def)
  with s s' session_okD(3) [OF s'(2)] show ?thesis by (simp add: with_client_def)
qed

definition shown :: "string \<Rightarrow> string" where
  "shown v = (if v = [] \<or> last v \<noteq> CHR 0x0A then v @ endl else v)"

lemma zkutil_set:
  assumes env: "over_stub env" and l: "connects args l" and p: "node_path p" and args: "za_parents args"
  shows "\<exists>l'. zkutil env ue args [''set'', p, v] l = Some (0, [], l') \<and> fs_wf (st_fs l')
    \<and> fs_tree (st_fs l') = (filled (butlast (fs_path p)) (fs_tree (st_fs l)))(fs_path p \<mapsto> v)"
proof -
  have "\<exists>l'. with_client env args (util_command env ue args [''set'', p, v]) l = Some (Inr (), [], l') \<and> fs_wf (st_fs l')
      \<and> fs_tree (st_fs l') = (filled (butlast (fs_path p)) (fs_tree (st_fs l)))(fs_path p \<mapsto> v)"
  proof (rule with_client_ok [OF env l])
    fix s assume s: "session_ok (ze_k env) s" "tree s = fs_tree (st_fs l)"
    obtain s' where "set_node env args p v s = Some (Inr (), s')" "session_ok (ze_k env) s'"
        "tree s' = (filled (butlast (fs_path p)) (fs_tree (st_fs l)))(fs_path p \<mapsto> v)"
      using set_node_ok [OF env s(1) p args, of v] s(2) by auto
    then show "\<exists>s'. util_command env ue args [''set'', p, v] ([], s) = Some (Inr (), [], s') \<and> session_ok (ze_k env) s'
        \<and> tree s' = (filled (butlast (fs_path p)) (fs_tree (st_fs l)))(fs_path p \<mapsto> v)"
      by (simp add: util_command_def cmd_is_def cmd_set_def in_zk_def px_defs Let_def)
  qed
  then show ?thesis by (auto simp: zkutil_def util_run_def cmd_is_def)
qed

lemma zkutil_get:
  assumes env: "over_stub env" and l: "connects args l" and p: "node_path p" and v: "fs_tree (st_fs l) (fs_path p) = Some v"
  shows "\<exists>l'. zkutil env ue args [''get'', p] l = Some (0, shown v, l') \<and> fs_tree (st_fs l') = fs_tree (st_fs l)"
proof -
  have "\<exists>l'. with_client env args (util_command env ue args [''get'', p]) l = Some (Inr (), shown v, l') \<and> fs_wf (st_fs l')
      \<and> fs_tree (st_fs l') = fs_tree (st_fs l)"
  proof (rule with_client_ok [OF env l])
    fix s assume s: "session_ok (ze_k env) s" "tree s = fs_tree (st_fs l)"
    obtain s' where "zk_get env p [] False s = Some (Inr v, s')" "session_ok (ze_k env) s'" "tree s' = fs_tree (st_fs l)"
      using zk_get_ok [OF env s(1) p, of "[]" False] s(2) v by auto
    then show "\<exists>s'. util_command env ue args [''get'', p] ([], s) = Some (Inr (), shown v, s') \<and> session_ok (ze_k env) s' \<and> tree s' = fs_tree (st_fs l)"
      by (simp add: util_command_def cmd_is_def cmd_get_def in_zk_def print_def shown_def px_defs Let_def)
  qed
  then show ?thesis by (auto simp: zkutil_def util_run_def cmd_is_def)
qed



section \<open>Runs of the tool\<close>

definition demo_args :: zkutil_args where
  "demo_args = \<lparr>za_zookeepers = ''localhost:2181'', za_timeout = 10000, za_parents = True, za_recursive = True, za_long = False, za_stdin = []\<rparr>"

definition demo_util :: "(nat, stub) util_env" where
  "demo_util = \<lparr>ue_host = ''host'', ue_json = demo_lib, ue_statics = FormatMap demo_lib, ue_ack = (\<lambda>_ _ _ _ _ _ _. px_return ()), ue_depth = 2\<rparr>"

definition demo_nodes :: stub where
  "demo_nodes = demo_stub\<lparr>st_fs := [([zoo_root], FDir), ([zoo_root, ''a''], FDir), ([zoo_root, ''a'', ''b''], FDir)]\<rparr>"

lemma demo_connects: "fs_wf fs \<Longrightarrow> connects demo_args (demo_stub\<lparr>st_fs := fs\<rparr>)" "connects demo_args demo_stub" "connects demo_args demo_nodes"
proof -
  show any: "connects demo_args (demo_stub\<lparr>st_fs := fs\<rparr>)" if "fs_wf fs" for fs
    using that by (simp add: connects_def fresh_def demo_stub_def demo_args_def signed_divide_int_def)
  show "connects demo_args demo_stub"
    using demo_zk_ok(2) by (simp add: connects_def fresh_def demo_stub_def demo_args_def signed_divide_int_def)
  have "smap_wf (st_fs demo_nodes)" unfolding demo_nodes_def by (simp add: demo_stub_def) 
  then have "fs_wf (st_fs demo_nodes)"
    by (simp add: demo_nodes_def fs_wf_def smap_find_def fs_entry_ok_def plain_part_def normal_part_def)
  then show "connects demo_args demo_nodes"
    using any [of "st_fs demo_nodes"] by (simp add: demo_nodes_def)
qed

lemma createFullPath_fills_witness:
  "\<exists>s s'. ZooKeeper_new demo_zk ''localhost:2181'' 10000 demo_stub = Some (Inr (), s) \<and> zk_createFullPath demo_zk ''a//b'' s = Some (Inr (), s')
     \<and> fs_tree (st_fs (zk_lib s')) = filled [''a'', ''b''] (fs_tree (st_fs demo_stub))"
proof -
  have "connects demo_args demo_stub" by (rule demo_connects)
  then obtain s where s: "ZooKeeper_new demo_zk ''localhost:2181'' 10000 demo_stub = Some (Inr (), s)" "session_ok (ze_k demo_zk) s"
      "tree s = fs_tree (st_fs demo_stub)"
    using ZooKeeper_new_spec [OF demo_zk_ok(1,2), of "''localhost:2181''" 10000] by (auto simp: connects_def demo_args_def)
  have "tidy_path ''a//b''" "fs_path ''a//b'' = [''a'', ''b'']" by code_simp+
  with createFullPath_fills [OF demo_zk_ok(1) s(2), of "''a//b''"] s show ?thesis by auto
qed



text \<open>\<^verbatim>\<open>stat\<close> does not look at what \<^verbatim>\<open>exists\<close> answers: for a node that is not there the tool prints the zeros of a new object, and exits with 0.\<close>

lemma zkutil_stat_missing:
  "map_option (\<lambda>(r, out, _). (r, out)) (zkutil demo_zk demo_util demo_args [''stat'', ''/none''] demo_stub)
   = Some (0, ''version = 0'' @ endl @ ''modTxId = 0'' @ endl @ ''mtime = 0'' @ endl @ ''ctime = 0'' @ endl @ ''dataLength = 0'' @ endl @ ''numChildren = 0'' @ endl)"
  by code_simp

text \<open>\<^verbatim>\<open>createFullPath\<close> does not normalise the path before it takes it apart, and makes nodes for parts that cancel.\<close>

lemma createFullPath_cancelled_parts:
  "map_option (\<lambda>(_, s). map fst (st_fs (zk_lib s))) (px_bind (\<lambda>_. ZooKeeper_new demo_zk ''localhost:2181'' 10000 demo_stub)
     (\<lambda>_. zk_createFullPath demo_zk ''/a/../b'') (new_zk [] 0 demo_stub))
   = Some [[zoo_root], [zoo_root, ''a''], [zoo_root, ''b'']]"
  by code_simp

end
