(* ===== verification/Spec2Isabelle.thy ===== *)
theory Spec2Isabelle
  imports GB_Util GB_Uri GB_JsonTypes GB_StatusTransient GB_StatusSql GB_Envelope GB_JobQueue GB_Worker
    GB_Collection GB_Agents GB_DelayDaemon GB_ThingStore GB_Flows GB_Store GB_Plugin GB_ZkUtil
begin

text \<open>
  Gearbox is a framework for services made of jobs. A request over HTTP becomes a job with a name like
  \<^verbatim>\<open>do_get_component_resource_v1\<close>; the job is serialised into an envelope and handed to gearman; a worker process makes
  the job again from its envelope, runs the handler registered for the name, and answers. Every job has a status, which follows
  a state machine and lives in the memory of the process or in a database. Jobs can be put off, retried, run in
  an order that respects their dependencies, and cancelled. The sources are C++, under \<^verbatim>\<open>src/\<close>.

  \<^bold>\<open>The parts and their theories.\<close> Every operation of a part is a definition with the name the code gives it (an abbreviation of the
  class in front where names collide: \<open>q_\<close> for \<^verbatim>\<open>SQLStatusImpl\<close>, \<open>t_\<close> for \<^verbatim>\<open>TransientStatusImpl\<close>, \<open>so_\<close> for \<^verbatim>\<open>Status\<close>, \<open>jm_\<close> for
  \<^verbatim>\<open>JobManager\<close>, \<open>co_\<close> for collections, \<open>ls_\<close> for \<^verbatim>\<open>LoggedStatement\<close>). Exceptions are the type \<open>gb_exn\<close>; the outcome of a computation is a
  sum with the exception on the left. \<open>NullDereference\<close> stands for undefined behaviour of the code, such as reading the first
  element of an empty list: it is never caught.

    \<^item> \<^verbatim>\<open>GB_Prelude\<close>: state with exceptions (\<open>sx\<close>), strings and decimal numbers of the C++ library, ordered maps (\<open>smap\<close>, for \<^verbatim>\<open>std::map\<close>),
      and the contracts \<open>codec\<close> and \<open>ordered_dict\<close>.
    \<^item> \<^verbatim>\<open>GB_Errors\<close> (\<^verbatim>\<open>core/Errors.h\<close>, \<^verbatim>\<open>Errors.cc\<close>), \<^verbatim>\<open>GB_Util\<close> (\<^verbatim>\<open>core/util.cc\<close>), \<^verbatim>\<open>GB_Uri\<close> (\<^verbatim>\<open>core/Uri.cc\<close>).
    \<^item> \<^verbatim>\<open>GB_Json\<close> (\<^verbatim>\<open>core/Json.cc\<close>), \<^verbatim>\<open>GB_JsonSchema\<close> (\<^verbatim>\<open>core/JsonSchema.cc\<close>), \<^verbatim>\<open>GB_JsonIO\<close> and \<^verbatim>\<open>GB_JsonTypes\<close> (\<^verbatim>\<open>core/JsonGenerator.cc\<close>,
      \<^verbatim>\<open>JsonParser.cc\<close>), \<^verbatim>\<open>GB_Config\<close> (\<^verbatim>\<open>core/ConfigFile.cc\<close>), \<^verbatim>\<open>GB_Plugin\<close> (\<^verbatim>\<open>core/Plugin.cc\<close>).
    \<^item> \<^verbatim>\<open>GB_Status\<close> (\<^verbatim>\<open>job/Status.cc\<close>, \<^verbatim>\<open>StatusImpl.cc\<close>), \<^verbatim>\<open>GB_StatusJson\<close> (\<^verbatim>\<open>job/JsonStatusImpl.cc\<close>), \<^verbatim>\<open>GB_StatusTransient\<close>
      (\<^verbatim>\<open>job/TransientStatusImpl.cc\<close>), \<^verbatim>\<open>GB_StatusSql\<close> and \<^verbatim>\<open>GB_Collection\<close> (\<^verbatim>\<open>plugins/status/sql/SQLStatusImpl.cc\<close>), \<^verbatim>\<open>GB_Objects\<close>
      (the class \<^verbatim>\<open>Status\<close> over any of them, and \<^verbatim>\<open>job/StatusManager.cc\<close>).
    \<^item> \<^verbatim>\<open>GB_Http\<close> (\<^verbatim>\<open>core/HttpClient.cc\<close>, \<^verbatim>\<open>REST.cc\<close>), \<^verbatim>\<open>GB_Store\<close> (\<^verbatim>\<open>store/dbconn.cc\<close>, \<^verbatim>\<open>LoggedStatement.cc\<close>).
    \<^item> \<^verbatim>\<open>GB_Job\<close> (\<^verbatim>\<open>job/Job.cc\<close>, \<^verbatim>\<open>JobImpl.cc\<close>), \<^verbatim>\<open>GB_JobManager\<close>, \<^verbatim>\<open>GB_JobDelay\<close> and \<^verbatim>\<open>GB_JobQueue\<close> (\<^verbatim>\<open>job/JobManager.cc\<close>), \<^verbatim>\<open>GB_JobRun\<close>
      (\<^verbatim>\<open>job/GearmanJobImpl.cc\<close>, \<^verbatim>\<open>RestJobImpl.cc\<close>, \<^verbatim>\<open>JobStatusImpl.cc\<close>), \<^verbatim>\<open>GB_Envelope\<close> (a job on its way).
    \<^item> \<^verbatim>\<open>GB_Worker\<close> (\<^verbatim>\<open>worker/Worker.cc\<close>), \<^verbatim>\<open>GB_Gearbox\<close>, \<^verbatim>\<open>GB_GearboxStatus\<close> and \<^verbatim>\<open>GB_Agents\<close> (\<^verbatim>\<open>workers/gearbox/WorkerGearbox.cc\<close>),
      \<^verbatim>\<open>GB_DelayDaemon\<close> (\<^verbatim>\<open>workers/gearbox/DelayProcessor.cc\<close>, \<^verbatim>\<open>delayDaemon.cc\<close>).
    \<^item> \<^verbatim>\<open>GB_Apache\<close> (\<^verbatim>\<open>apache/mod_gearbox/mod_gearbox.cc\<close>).
    \<^item> \<^verbatim>\<open>GB_WorkerRun\<close> and \<^verbatim>\<open>GB_Remote\<close> model no code of their own: they show what a worker does with a job it can start, and put the server, the
      client of gearman and the worker together.
    \<^item> \<^verbatim>\<open>GB_Things\<close> (\<^verbatim>\<open>workers/test-basic\<close>, \<^verbatim>\<open>workers/test-sync\<close>) and \<^verbatim>\<open>GB_Flows\<close> (\<^verbatim>\<open>workers/test-chained\<close>, \<^verbatim>\<open>test-agents\<close>, \<^verbatim>\<open>test-delay\<close>, \<^verbatim>\<open>test-cancel\<close>): the workers of the
      integration tests, as clients of the framework. \<^verbatim>\<open>GB_ThingStore\<close> puts the synchronous one behind the server.
    \<^item> \<^verbatim>\<open>GB_ZooKeeper\<close> (\<^verbatim>\<open>legacy/gearbox/zookeeper/ZooKeeper.cc\<close>, \<^verbatim>\<open>ZooKeeperPrivate.cc\<close>), \<^verbatim>\<open>GB_ZooStub\<close> (the library of its unit tests, \<^verbatim>\<open>common/stub/zookeeper.hh\<close>), \<^verbatim>\<open>GB_ZkUtil\<close>
      (\<^verbatim>\<open>legacy/gearbox/zookeeper/gearbox_zkutil.cc\<close>): a client that makes the asynchronous calls of ZooKeeper synchronous, and the tool over it. \<^verbatim>\<open>GB_ZooTree\<close>, \<^verbatim>\<open>GB_ZooClient\<close>
      and \<^verbatim>\<open>GB_ZooSession\<close> model no code: they show that the client over that library is a tree of nodes.

  \<^bold>\<open>State.\<close> A status object is the value of its members (\<open>status\<close>, \<open>sobj\<close>); what objects share is in the world of the process: the blocks of the
  transient statuses, the tables of the database, the caches of the job manager (\<open>rworld\<close>), the jobs queued for
  afterwards and the status manager (\<open>wworld\<close>), the table of delayed jobs and the files of the counters (\<open>gx\<close>), the object of the ZooKeeper client with the library below
  it (\<open>zk\<close>, \<open>stub\<close>). A transaction is one
  step; \<open>db_step\<close> interleaves the steps of all processes. Integers have the width of the code where it matters: \<open>wrap_s32\<close>,
  \<open>wrap_u32\<close>, 64-bit words in the base-32 coding, \<open>in_int64\<close> for the integers of JSON.

  \<^bold>\<open>Loops.\<close> A loop over data is recursion on it, with a measure where it is not structural (\<open>co_each\<close>, \<open>find_version\<close>, \<open>json_copy\<close>, the
  validator). A loop that repeats until something succeeds is a partial function whose value is \<open>None\<close> when it does not
  return. The contract of such loops is the locale \<open>retried\<close> of \<^verbatim>\<open>GB_Objects\<close>: a loop returns exactly when one
  of its attempts does, and never when an invariant keeps every attempt from succeeding. Its instances are \<^verbatim>\<open>JobManager::delay\<close>,
  \<^verbatim>\<open>getconn\<close>, the event handlers of SQL statuses, the status behind a job, and the loop of the delay daemon.
  Three functions have a bound on the depth of their recursion, which stands for the stack; beyond it they have no result. \<^verbatim>\<open>connect\<close> of the ZooKeeper client calls itself when an
  event says that the session has expired (\<open>ze_depth\<close>): no session of the library of the tests expires, so that 1 is enough there. \<open>del_recursively\<close> and \<open>ls_recursively\<close> go
  as deep as the tree (\<open>ue_depth\<close>): the theorem on removal asks for one more than the depth of the nodes below the path, and concludes that the tool returns.

  \<^bold>\<open>What the lemmas show.\<close> Values: parsing and printing of URIs, JSON, base 32 and shell words are inverse to one another; a
  parsed document is well formed; validation accepts only what the schema allows; the top-level configuration wins
  over the files of its directory. Statuses: both implementations meet the contracts \<open>status_impl\<close> and \<open>status_endings\<close>, from which the
  behaviour of \<^verbatim>\<open>checkpoint\<close>, \<^verbatim>\<open>fail\<close>, \<^verbatim>\<open>success\<close> and \<^verbatim>\<open>cancel\<close> follows once for both; whatever the processes do, the stored state moves
  along the state machine; a collection lists what its filters say, in order, and ends. Jobs: an envelope, a row of the delay
  table, a level of agents and the answer of a worker carry a job or a response over to the other side unchanged; queues respect dependencies; a
  retry waits within bounds. Processes: the reply of a worker says what happened; the counter of a level
  releases the next one exactly once; the daemon does not oversleep; a request path reaches the function it
  names, and an exception becomes a reply with its code. Across processes: the handler of a synchronous request is given the job the server made, and the
  client of the server gets the content and the code, or the error, that the handler left. ZooKeeper: a sequence of calls of the client
  answers as the same calls on a map from paths to data (\<open>node_store\<close> and \<open>node_tree\<close> are the laws the tool is verified from); what the tool stores it shows, and a recursive
  removal takes away the node with everything below it and nothing else. The theorems of kind error are what the code does where that is not what
  it means to do; each says so in the text before it.

  \<^bold>\<open>Parameters.\<close> What the sources only call is an argument of the definitions that use it: the tokeniser and printer of yajl and the
  conversion of doubles (\<open>json_lib\<close>, with the contract \<open>json_text\<close>), files and directories (\<open>cfg_env\<close>, \<open>jm_env\<close>, \<open>plugin_env\<close>), the gearman client, random ids and
  compression (\<open>rt_env\<close>, \<open>wk_env\<close>), the topological sort of boost, the transfer of libcurl (\<open>http_env\<close>), the sessions of the database
  library (\<open>db_env\<close>), the order of rows and the meaning of LIKE (\<open>scan_env\<close>), sockets and system calls (\<open>gb_env\<close>, \<open>dd_env\<close>), the collapsing of slashes by
  Apache, the ZooKeeper library with the constants of its header and the callbacks of the user (\<open>zoolib\<close>, \<open>zoo_consts\<close>, \<open>zkenv\<close>), the consumer of data that
  \<^verbatim>\<open>gearbox_zkutil\<close> calls and the repository does not have (\<open>util_env\<close>). The clock stands still during an operation, except in the ZooKeeper theories, where
  every reading has a value of its own. The demonstration values named \<open>demo_\<close> make every hypothesis about a
  parameter true for a concrete function.

  \<^bold>\<open>Not modelled.\<close> Wrappers of the operating system (files, pipes, processes, temporary files, digests, logging, the signal handlers of the
  worker), the command lines of the programs, finding a status plugin by name, the Perl, PHP and Python bindings. Statements on the
  table of delayed jobs do not fail in the model, except where a definition says so.
\<close>

end
